(* ===== verification/Prelude.thy ===== *)
theory Prelude
  imports Complex_Main "HOL-Library.AList" "HOL-Library.Multiset"
begin

text \<open>
  The shared ground of the development: Python exceptions and fallible results, JSON values,
  insertion-ordered dictionaries, the string methods the code calls, and the generic lemmas on
  them. Python's unbounded integers are \<open>int\<close>, finite floats are \<open>rat\<close> (comparisons are exact
  on finite floats; rounding of float arithmetic and NaN are outside the model), strings are
  lists of characters.
\<close>

section \<open>Lemma collections\<close>

named_theorems dict_simps \<open>lookups in updated dictionaries\<close>
named_theorems step_defs \<open>definitions of the single operations of a component\<close>
named_theorems frame_simps \<open>fields an operation leaves alone\<close>

section \<open>Exceptions and fallible results\<close>

text \<open>
  An exception is its class and its message. The classes are those the modelled code raises
  or catches. Messages are kept because the server reads them; where a message interpolates
  something that is not a string, the model keeps the text without that part.
\<close>

datatype exc_class =
    ValueErrorE | PermissionErrorE | RuntimeErrorE | KeyErrorE | TypeErrorE
  | AttributeErrorE | IndexErrorE | FileNotFoundErrorE | OSErrorE | HTTPExceptionE
  | InvalidStateTransitionE | PayloadValidationErrorE | UnsafeMixedRouteBatchErrorE
  | RouteLeakageErrorE | ZeroDivisionErrorE | OtherExceptionE

datatype pyexc = PyExc (exc_cls: exc_class) (exc_msg: string)

type_synonym 'a result = "pyexc + 'a"

text \<open>The subclass tests of the \<open>except\<close> clauses.\<close>

definition is_runtime_error :: "pyexc \<Rightarrow> bool" where
  "is_runtime_error e \<longleftrightarrow> exc_cls e \<in> {RuntimeErrorE, InvalidStateTransitionE}"

definition is_permission_error :: "pyexc \<Rightarrow> bool" where
  "is_permission_error e \<longleftrightarrow> exc_cls e = PermissionErrorE"

definition is_value_error :: "pyexc \<Rightarrow> bool" where
  "is_value_error e \<longleftrightarrow> exc_cls e = ValueErrorE"

definition is_os_error :: "pyexc \<Rightarrow> bool" where
  "is_os_error e \<longleftrightarrow> exc_cls e \<in> {OSErrorE, PermissionErrorE, FileNotFoundErrorE}"

fun bindE :: "'e + 'a \<Rightarrow> ('a \<Rightarrow> 'e + 'b) \<Rightarrow> 'e + 'b" where
  "bindE (Inl e) f = Inl e"
| "bindE (Inr x) f = f x"

lemma bindE_Inr_iff: "bindE m f = Inr y \<longleftrightarrow> (\<exists>x. m = Inr x \<and> f x = Inr y)"
  by (cases m) auto

lemma bindE_assoc: "bindE (bindE m f) g = bindE m (\<lambda>x. bindE (f x) g)"
  by (cases m) auto

text \<open>A Python \<open>for\<close> loop whose body may raise: it stops at the first exception.\<close>

fun foldE :: "('x \<Rightarrow> 's \<Rightarrow> 'e + 's) \<Rightarrow> 'x list \<Rightarrow> 's \<Rightarrow> 'e + 's" where
  "foldE f [] s = Inr s"
| "foldE f (x # xs) s = bindE (f x s) (foldE f xs)"

lemma foldE_append: "foldE f (xs @ ys) s = bindE (foldE f xs s) (foldE f ys)"
proof (induction xs arbitrary: s)
  case Nil
  then show ?case by simp
next
  case (Cons x xs)
  then show ?case by (cases "f x s") auto
qed

lemma foldE_invariant:
  assumes "foldE f xs s = Inr t" and "P s"
    and "\<And>x u v. x \<in> set xs \<Longrightarrow> P u \<Longrightarrow> f x u = Inr v \<Longrightarrow> P v"
  shows "P t"
  using assms
proof (induction xs arbitrary: s)
  case Nil
  then show ?case by simp
next
  case (Cons x xs)
  from Cons.prems(1) obtain u where u: "f x s = Inr u" "foldE f xs u = Inr t"
    by (auto simp: bindE_Inr_iff)
  have "P u" using Cons.prems(2,3) u(1) by auto
  then show ?case using Cons.IH[OF u(2)] Cons.prems(3) by auto
qed

lemma foldE_all_ok:
  "foldE (\<lambda>x (_::unit). f x) xs () = Inr () \<longleftrightarrow> (\<forall>x\<in>set xs. f x = Inr ())"
proof (induction xs)
  case Nil
  then show ?case by simp
next
  case (Cons x xs)
  then show ?case by (cases "f x") auto
qed

text \<open>A list comprehension whose body may raise.\<close>

fun mapE :: "('a \<Rightarrow> 'b result) \<Rightarrow> 'a list \<Rightarrow> 'b list result" where
  "mapE f [] = Inr []"
| "mapE f (x # xs) = bindE (f x) (\<lambda>y. bindE (mapE f xs) (\<lambda>ys. Inr (y # ys)))"

lemma mapE_length: "mapE f xs = Inr ys \<Longrightarrow> length ys = length xs"
  by (induction xs arbitrary: ys) (auto simp: bindE_Inr_iff)

text \<open>
  Stateful code that may raise returns its state either way: what it did before the exception
  stays done. \<open>bindS\<close> is sequencing, \<open>forS\<close> a loop, \<open>catchS\<close> an \<open>except\<close> clause.
\<close>

type_synonym ('s, 'a) act = "'s \<Rightarrow> 's \<times> 'a result"

definition bindS :: "('s, 'a) act \<Rightarrow> ('a \<Rightarrow> ('s, 'b) act) \<Rightarrow> ('s, 'b) act" where
  "bindS m f s = (case m s of (s', Inl e) \<Rightarrow> (s', Inl e) | (s', Inr x) \<Rightarrow> f x s')"

definition catchS :: "('s, 'a) act \<Rightarrow> (pyexc \<Rightarrow> ('s, 'a) act) \<Rightarrow> ('s, 'a) act" where
  "catchS m h s = (case m s of (s', Inl e) \<Rightarrow> h e s' | (s', Inr x) \<Rightarrow> (s', Inr x))"

definition liftS :: "'a result \<Rightarrow> ('s, 'a) act" where
  "liftS r s = (s, r)"

definition modS :: "('s \<Rightarrow> 's) \<Rightarrow> ('s, unit) act" where
  "modS f s = (f s, Inr ())"

fun forS :: "('x \<Rightarrow> ('s, unit) act) \<Rightarrow> 'x list \<Rightarrow> ('s, unit) act" where
  "forS f [] s = (s, Inr ())"
| "forS f (x # xs) s = (case f x s of (s', Inl e) \<Rightarrow> (s', Inl e) | (s', Inr _) \<Rightarrow> forS f xs s')"

text \<open>\<open>keeps P m\<close>: the action keeps \<open>P\<close> whether it returns or raises.\<close>

definition keeps :: "('s \<Rightarrow> bool) \<Rightarrow> ('s, 'a) act \<Rightarrow> bool" where
  "keeps P m \<longleftrightarrow> (\<forall>s. P s \<longrightarrow> P (fst (m s)))"

named_theorems keeps_intros \<open>actions that keep a predicate\<close>

lemma keeps_bindS [keeps_intros]: "keeps P m \<Longrightarrow> (\<And>x. keeps P (f x)) \<Longrightarrow> keeps P (bindS m f)"
  by (auto simp: keeps_def bindS_def split: prod.splits sum.splits)

lemma keeps_catchS [keeps_intros]: "keeps P m \<Longrightarrow> (\<And>e. keeps P (h e)) \<Longrightarrow> keeps P (catchS m h)"
  by (auto simp: keeps_def catchS_def split: prod.splits sum.splits)

lemma keeps_liftS [keeps_intros]: "keeps P (liftS r)"
  by (simp add: keeps_def liftS_def)

lemma keeps_modS [keeps_intros]: "(\<And>s. P s \<Longrightarrow> P (f s)) \<Longrightarrow> keeps P (modS f)"
  by (simp add: keeps_def modS_def)

lemma keeps_forS [keeps_intros]: "(\<And>x. x \<in> set xs \<Longrightarrow> keeps P (f x)) \<Longrightarrow> keeps P (forS f xs)"
proof (induction xs)
  case Nil
  then show ?case by (simp add: keeps_def)
next
  case (Cons x xs)
  have "keeps P (forS f xs)" and x: "keeps P (f x)" using Cons by simp_all
  then show ?case
    by (auto simp: keeps_def split: prod.splits sum.splits)
qed

lemma keepsI: "(\<And>s s' r. P s \<Longrightarrow> m s = (s', r) \<Longrightarrow> P s') \<Longrightarrow> keeps P m"
  unfolding keeps_def by (metis prod.collapse)

lemma keepsD: "keeps P m \<Longrightarrow> P s \<Longrightarrow> m s = (s', r) \<Longrightarrow> P s'"
  by (auto simp: keeps_def dest: spec [of _ s])

text \<open>\<open>triple P m Q E\<close>: from \<open>P\<close> the action returns with \<open>Q\<close> of the value, or raises with \<open>E\<close>.\<close>

definition triple ::
  "('s \<Rightarrow> bool) \<Rightarrow> ('s, 'a) act \<Rightarrow> ('a \<Rightarrow> 's \<Rightarrow> bool) \<Rightarrow> ('s \<Rightarrow> bool) \<Rightarrow> bool" where
  "triple P m Q E \<longleftrightarrow>
     (\<forall>s. P s \<longrightarrow> (case m s of (s', Inl e) \<Rightarrow> E s' | (s', Inr x) \<Rightarrow> Q x s'))"

lemma tripleI:
  assumes "\<And>s s' e. P s \<Longrightarrow> m s = (s', Inl e) \<Longrightarrow> E s'"
    and "\<And>s s' x. P s \<Longrightarrow> m s = (s', Inr x) \<Longrightarrow> Q x s'"
  shows "triple P m Q E"
  using assms by (auto simp: triple_def split: prod.splits sum.splits)

lemma triple_Inr: "triple P m Q E \<Longrightarrow> P s \<Longrightarrow> m s = (s', Inr x) \<Longrightarrow> Q x s'"
  by (auto simp: triple_def dest: spec [of _ s])

lemma triple_Inl: "triple P m Q E \<Longrightarrow> P s \<Longrightarrow> m s = (s', Inl e) \<Longrightarrow> E s'"
  by (auto simp: triple_def dest: spec [of _ s])

lemma triple_any:
  assumes "triple P m (\<lambda>_. Q) Q" "P s"
  shows "Q (fst (m s))"
proof (cases "m s")
  case (Pair t r)
  then show ?thesis
    using triple_Inr[OF assms, of t] triple_Inl[OF assms, of t] by (cases r) simp_all
qed

lemma triple_conseq:
  assumes t: "triple P m Q E"
    and "\<And>s. P' s \<Longrightarrow> P s" "\<And>x s. Q x s \<Longrightarrow> Q' x s" "\<And>s. E s \<Longrightarrow> E' s"
  shows "triple P' m Q' E'"
  by (rule tripleI) (meson assms triple_Inl[OF t] triple_Inr[OF t])+

lemma triple_bindS:
  assumes m: "triple P m Q E" and f: "\<And>x. triple (Q x) (f x) R E"
  shows "triple P (bindS m f) R E"
  unfolding triple_def
proof (intro allI impI)
  fix s assume P: "P s"
  obtain t r where mt: "m s = (t, r)" by fastforce
  show "case bindS m f s of (s', Inl e) \<Rightarrow> E s' | (s', Inr x) \<Rightarrow> R x s'"
  proof (cases r)
    case (Inl e)
    then show ?thesis using triple_Inl[OF m P] mt by (simp add: bindS_def)
  next
    case (Inr x)
    then have "Q x t" using triple_Inr[OF m P] mt by simp
    then show ?thesis using f[of x] mt Inr by (simp add: bindS_def triple_def)
  qed
qed

lemma triple_catchS:
  assumes m: "triple P m Q F" and h: "\<And>e. triple F (h e) Q E"
  shows "triple P (catchS m h) Q E"
  unfolding triple_def
proof (intro allI impI)
  fix s assume P: "P s"
  obtain t r where mt: "m s = (t, r)" by fastforce
  show "case catchS m h s of (s', Inl e) \<Rightarrow> E s' | (s', Inr x) \<Rightarrow> Q x s'"
  proof (cases r)
    case (Inl e)
    then have "F t" using triple_Inl[OF m P] mt by simp
    then show ?thesis using h[of e] mt Inl by (simp add: catchS_def triple_def)
  next
    case (Inr x)
    then show ?thesis using triple_Inr[OF m P] mt by (simp add: catchS_def)
  qed
qed

lemma triple_modS: "(\<And>s. P s \<Longrightarrow> Q () (f s)) \<Longrightarrow> triple P (modS f) Q E"
  by (simp add: triple_def modS_def)

lemma triple_liftS:
  "(\<And>s x. P s \<Longrightarrow> r = Inr x \<Longrightarrow> Q x s) \<Longrightarrow> (\<And>s. P s \<Longrightarrow> E s) \<Longrightarrow> triple P (liftS r) Q E"
  by (auto simp: triple_def liftS_def split: sum.splits)

lemma triple_keeps:
  assumes "keeps P m"
  shows "triple P m (\<lambda>_. P) P"
  by (rule tripleI) (auto dest: keepsD[OF assms])

lemma triple_forS:
  "(\<And>x. x \<in> set xs \<Longrightarrow> triple P (f x) (\<lambda>_. P) E) \<Longrightarrow> triple P (forS f xs) (\<lambda>_. P) E"
proof (induction xs)
  case Nil
  then show ?case by (simp add: triple_def)
next
  case (Cons x xs)
  have x: "triple P (f x) (\<lambda>_. P) E" and xs: "triple P (forS f xs) (\<lambda>_. P) E" using Cons by simp_all
  have step: "forS f (x # xs) = bindS (f x) (\<lambda>_. forS f xs)"
    by (simp add: fun_eq_iff bindS_def)
  show ?case unfolding step by (rule triple_bindS[OF x xs])
qed

lemma bindS_Inr:
  "bindS m f s = (t, Inr y) \<longleftrightarrow> (\<exists>u x. m s = (u, Inr x) \<and> f x u = (t, Inr y))"
  by (auto simp: bindS_def split: prod.splits sum.splits)

section \<open>Dictionaries\<close>

text \<open>
  A Python dictionary keeps the order in which keys were inserted and assignment to a present
  key keeps its place: an association list under \<open>AList.update\<close>. Lookup is \<open>map_of\<close>, \<open>del d[k]\<close>
  is \<open>AList.delete\<close>, the key view is \<open>map fst\<close>.
\<close>

type_synonym ('k, 'v) dict = "('k \<times> 'v) list"

definition dict_get :: "('k, 'v) dict \<Rightarrow> 'k \<Rightarrow> 'v \<Rightarrow> 'v" where
  "dict_get d k dflt = (case map_of d k of None \<Rightarrow> dflt | Some v \<Rightarrow> v)"

abbreviation dict_keys :: "('k, 'v) dict \<Rightarrow> 'k list" where
  "dict_keys d \<equiv> map fst d"

abbreviation dict_set :: "'k \<Rightarrow> 'v \<Rightarrow> ('k, 'v) dict \<Rightarrow> ('k, 'v) dict" where
  "dict_set \<equiv> AList.update"

abbreviation dict_del :: "'k \<Rightarrow> ('k, 'v) dict \<Rightarrow> ('k, 'v) dict" where
  "dict_del \<equiv> AList.delete"

definition has_key :: "('k, 'v) dict \<Rightarrow> 'k \<Rightarrow> bool" where
  "has_key d k \<longleftrightarrow> map_of d k \<noteq> None"

definition dict_wf :: "('k, 'v) dict \<Rightarrow> bool" where
  "dict_wf d \<longleftrightarrow> distinct (map fst d)"

lemma map_of_dict_set [dict_simps, simp]:
  "map_of (dict_set k v d) j = (if j = k then Some v else map_of d j)"
  by (simp add: update_conv')

lemma map_of_dict_del [dict_simps, simp]:
  "map_of (dict_del k d) j = (if j = k then None else map_of d j)"
  by (simp add: delete_conv')

lemma dict_del_set [simp]: "dict_del k (dict_set k v d) = dict_del k d"
  by (induction d) (auto simp: AList.delete_eq)

lemma dict_wf_set [intro, simp]: "dict_wf d \<Longrightarrow> dict_wf (dict_set k v d)"
  by (simp add: dict_wf_def distinct_update)

lemma dict_wf_del [intro, simp]: "dict_wf d \<Longrightarrow> dict_wf (dict_del k d)"
  by (simp add: dict_wf_def distinct_delete)

lemma dict_wf_Nil [simp]: "dict_wf []"
  by (simp add: dict_wf_def)

lemma has_key_set [dict_simps, simp]: "has_key (dict_set k v d) j \<longleftrightarrow> j = k \<or> has_key d j"
  by (simp add: has_key_def)

lemma has_key_del [dict_simps, simp]: "has_key (dict_del k d) j \<longleftrightarrow> j \<noteq> k \<and> has_key d j"
  by (simp add: has_key_def)

lemma has_key_keys: "has_key d k \<longleftrightarrow> k \<in> set (dict_keys d)"
  by (simp add: has_key_def map_of_eq_None_iff)

lemma dict_get_set [dict_simps, simp]:
  "dict_get (dict_set k v d) j x = (if j = k then v else dict_get d j x)"
  by (simp add: dict_get_def)

lemma map_of_rev_distinct: "distinct (map fst ps) \<Longrightarrow> map_of (rev ps) = map_of ps"
  by (rule map_of_eqI) (auto intro!: map_of_is_SomeI simp: rev_map[symmetric])

text \<open>A sum over the values.\<close>

definition dict_sum :: "('v \<Rightarrow> nat) \<Rightarrow> ('k, 'v) dict \<Rightarrow> nat" where
  "dict_sum f d = sum_list (map (\<lambda>p. f (snd p)) d)"

lemma dict_sum_new: "map_of d k = None \<Longrightarrow> dict_sum f (dict_set k v d) = dict_sum f d + f v"
  by (induction d) (auto simp: dict_sum_def split: if_splits)

lemma dict_sum_set:
  "map_of d k = Some u \<Longrightarrow> dict_sum f (dict_set k v d) + f u = dict_sum f d + f v"
  by (induction d) (auto simp: dict_sum_def split: if_splits)

lemma dict_del_absent: "k \<notin> fst ` set d \<Longrightarrow> dict_del k d = d"
  by (induction d) (auto simp: AList.delete_eq)

lemma dict_sum_del:
  "dict_wf d \<Longrightarrow> map_of d k = Some u \<Longrightarrow> dict_sum f (dict_del k d) + f u = dict_sum f d"
proof (induction d)
  case Nil
  then show ?case by simp
next
  case (Cons p d)
  then show ?case
    using dict_del_absent[of k d]
    by (auto simp: dict_sum_def dict_wf_def AList.delete_eq split: if_splits)
qed

lemma dict_sum_zero: "map_of d k = Some u \<Longrightarrow> dict_sum f d = 0 \<Longrightarrow> f u = 0"
  by (induction d) (auto simp: dict_sum_def split: if_splits)

lemma dict_in_set: "dict_wf d \<Longrightarrow> (k, v) \<in> set d \<longleftrightarrow> map_of d k = Some v"
  by (auto simp: dict_wf_def dest: map_of_SomeD map_of_is_SomeI)

text \<open>A dictionary built from a list of pairs, as a comprehension or a display does.\<close>

definition dict_of :: "('k \<times> 'v) list \<Rightarrow> ('k, 'v) dict" where
  "dict_of = foldl (\<lambda>d p. dict_set (fst p) (snd p) d) []"

lemma map_of_foldl_set:
  "map_of (foldl (\<lambda>d p. dict_set (fst p) (snd p) d) d0 ps) k =
     (case map_of (rev ps) k of None \<Rightarrow> map_of d0 k | Some v \<Rightarrow> Some v)"
  by (induction ps arbitrary: d0) (auto simp: map_add_def map_of_append split: option.splits)

lemma map_of_dict_of: "dict_wf ps \<Longrightarrow> map_of (dict_of ps) = map_of ps"
  by (rule ext)
     (simp add: dict_of_def map_of_foldl_set dict_wf_def map_of_rev_distinct split: option.split)

section \<open>Strings\<close>

text \<open>\<open>x in s\<close>, \<open>s.startswith(p)\<close>, \<open>s.endswith(p)\<close>, \<open>s.upper()\<close> and \<open>s.lower()\<close>; case is
  mapped on the ASCII letters.\<close>

fun starts_with :: "string \<Rightarrow> string \<Rightarrow> bool" where
  "starts_with s [] = True"
| "starts_with [] (p # ps) = False"
| "starts_with (c # cs) (p # ps) = (c = p \<and> starts_with cs ps)"

definition ends_with :: "string \<Rightarrow> string \<Rightarrow> bool" where
  "ends_with s p = starts_with (rev s) (rev p)"

fun substring :: "string \<Rightarrow> string \<Rightarrow> bool" where
  "substring p [] = (p = [])"
| "substring p (c # cs) = (starts_with (c # cs) p \<or> substring p cs)"

definition upper_char :: "char \<Rightarrow> char" where
  "upper_char c = (let n = of_char c :: nat in
     if 97 \<le> n \<and> n \<le> 122 then char_of (n - 32) else c)"

definition lower_char :: "char \<Rightarrow> char" where
  "lower_char c = (let n = of_char c :: nat in
     if 65 \<le> n \<and> n \<le> 90 then char_of (n + 32) else c)"

definition str_upper :: "string \<Rightarrow> string" where
  "str_upper = map upper_char"

definition str_lower :: "string \<Rightarrow> string" where
  "str_lower = map lower_char"

lemma starts_with_iff: "starts_with s p \<longleftrightarrow> (\<exists>t. s = p @ t)"
  by (induction s p rule: starts_with.induct) auto

lemma starts_with_append [simp]: "starts_with (p @ s) p"
  by (auto simp: starts_with_iff)

lemma ends_with_iff: "ends_with s p \<longleftrightarrow> (\<exists>t. s = t @ p)"
proof
  assume "ends_with s p"
  then obtain t where "rev s = rev p @ t"
    by (auto simp: ends_with_def starts_with_iff)
  then have "rev (rev s) = rev t @ p" by simp
  then show "\<exists>t. s = t @ p" by auto
next
  assume "\<exists>t. s = t @ p"
  then show "ends_with s p" by (auto simp: ends_with_def)
qed

lemma substring_iff: "substring p s \<longleftrightarrow> (\<exists>a b. s = a @ p @ b)"
proof (induction s)
  case Nil
  then show ?case by auto
next
  case (Cons c cs)
  have "substring p (c # cs) \<longleftrightarrow> (\<exists>t. c # cs = p @ t) \<or> (\<exists>a b. cs = a @ p @ b)"
    by (simp add: Cons.IH starts_with_iff)
  also have "\<dots> \<longleftrightarrow> (\<exists>a b. c # cs = a @ p @ b)"
    by (metis append_Cons append_Nil list.exhaust list.inject)
  finally show ?case .
qed

text \<open>\<open>s.strip()\<close>: the whitespace of \<open>str.isspace\<close> below code point 256; and \<open>s.find(p)\<close>, with
  \<open>None\<close> for \<open>-1\<close>.\<close>

definition is_space :: "char \<Rightarrow> bool" where
  "is_space c = (let n = of_char c :: nat in
     9 \<le> n \<and> n \<le> 13 \<or> 28 \<le> n \<and> n \<le> 32 \<or> n = 133 \<or> n = 160)"

definition str_lstrip :: "string \<Rightarrow> string" where
  "str_lstrip = dropWhile is_space"

definition str_strip :: "string \<Rightarrow> string" where
  "str_strip s = rev (str_lstrip (rev (str_lstrip s)))"

fun str_find :: "string \<Rightarrow> string \<Rightarrow> nat option" where
  "str_find p [] = (if p = [] then Some 0 else None)"
| "str_find p (c # cs) = (if starts_with (c # cs) p then Some 0 else map_option Suc (str_find p cs))"

lemma str_find_Some: "str_find p s = Some n \<Longrightarrow> \<exists>a b. s = a @ p @ b \<and> length a = n"
proof (induction s arbitrary: n)
  case Nil
  then show ?case by (auto split: if_splits)
next
  case (Cons c cs)
  show ?case
  proof (cases "starts_with (c # cs) p")
    case True
    then have "n = 0" using Cons.prems by simp
    moreover obtain b where "c # cs = p @ b" using True starts_with_iff by blast
    ultimately show ?thesis by (intro exI[of _ "[]"] exI[of _ b]) simp
  next
    case False
    then obtain m where "str_find p cs = Some m" "n = Suc m" using Cons.prems by auto
    moreover from Cons.IH[OF this(1)] obtain a b where "cs = a @ p @ b" "length a = m" by blast
    ultimately have "c # cs = (c # a) @ p @ b \<and> length (c # a) = n" by simp
    then show ?thesis by blast
  qed
qed

lemma str_find_None: "str_find p s = None \<longleftrightarrow> \<not> substring p s"
  by (induction s) auto

text \<open>\<open>s.split(c)\<close> for a one-character separator, and \<open>s.replace(p, r)\<close> for a non-empty pattern.\<close>

fun split_on :: "char \<Rightarrow> string \<Rightarrow> string list" where
  "split_on c [] = [[]]"
| "split_on c (x # xs) =
     (if x = c then [] # split_on c xs
      else case split_on c xs of [] \<Rightarrow> [[x]] | p # ps \<Rightarrow> (x # p) # ps)"

function replace_all :: "string \<Rightarrow> string \<Rightarrow> string \<Rightarrow> string" where
  "replace_all p r s =
     (case s of
        [] \<Rightarrow> []
      | c # cs \<Rightarrow> if p \<noteq> [] \<and> starts_with s p then r @ replace_all p r (drop (length p) s)
                  else c # replace_all p r cs)"
  by pat_completeness auto
termination
  by (relation "measure (\<lambda>(p, r, s). length s)") auto

declare replace_all.simps [simp del]

text \<open>Decimal and hexadecimal digits, \<open>str(n)\<close> and \<open>sep.join(xs)\<close>.\<close>

definition digit_char :: "nat \<Rightarrow> char" where
  "digit_char n = (if n < 10 then char_of (48 + n) else char_of (87 + n))"

fun nat_str :: "nat \<Rightarrow> string" where
  "nat_str n = (if n < 10 then [digit_char n] else nat_str (n div 10) @ [digit_char (n mod 10)])"

declare nat_str.simps [simp del]

definition int_str :: "int \<Rightarrow> string" where
  "int_str i = (if i < 0 then ''-'' @ nat_str (nat (- i)) else nat_str (nat i))"

fun join :: "string \<Rightarrow> string list \<Rightarrow> string" where
  "join sep [] = []"
| "join sep [x] = x"
| "join sep (x # y # ys) = x @ sep @ join sep (y # ys)"

text \<open>\<open>int(s)\<close> of a string: whitespace around it, a sign, digits with single underscores between them
  (ASCII digits). \<open>None\<close> stands for the \<open>ValueError\<close>.\<close>

definition is_digit :: "char \<Rightarrow> bool" where
  "is_digit c = (let n = of_char c :: nat in 48 \<le> n \<and> n \<le> 57)"

definition digit_val :: "char \<Rightarrow> nat" where
  "digit_val c = (of_char c :: nat) - 48"

fun digits_val :: "nat \<Rightarrow> string \<Rightarrow> nat option" where
  "digits_val acc [] = None"
| "digits_val acc [c] = (if is_digit c then Some (10 * acc + digit_val c) else None)"
| "digits_val acc (c # d # cs) =
     (if is_digit c
      then (if d = CHR ''_'' then digits_val (10 * acc + digit_val c) cs
            else digits_val (10 * acc + digit_val c) (d # cs))
      else None)"

definition py_int :: "string \<Rightarrow> int option" where
  "py_int s =
     (case str_strip s of
        [] \<Rightarrow> None
      | c # cs \<Rightarrow>
          if c = CHR ''-'' then map_option (\<lambda>n. - int n) (digits_val 0 cs)
          else if c = CHR ''+'' then map_option int (digits_val 0 cs)
          else map_option int (digits_val 0 (c # cs)))"

section \<open>JSON values\<close>

datatype json =
    JNull | JBool bool | JInt int | JFloat rat | JStr string
  | JList "json list" | JObj "(string \<times> json) list"

text \<open>Python's truth value of a loaded JSON value, and \<open>d.get(k)\<close> on it: only an object has
  the method.\<close>

fun truthy :: "json \<Rightarrow> bool" where
  "truthy JNull = False"
| "truthy (JBool b) = b"
| "truthy (JInt i) = (i \<noteq> 0)"
| "truthy (JFloat r) = (r \<noteq> 0)"
| "truthy (JStr s) = (s \<noteq> [])"
| "truthy (JList xs) = (xs \<noteq> [])"
| "truthy (JObj d) = (d \<noteq> [])"

definition opt_truthy :: "json option \<Rightarrow> bool" where
  "opt_truthy v = (case v of None \<Rightarrow> False | Some j \<Rightarrow> truthy j)"

fun as_dict :: "json \<Rightarrow> (string, json) dict result" where
  "as_dict (JObj d) = Inr d"
| "as_dict _ = Inl (PyExc AttributeErrorE ''object has no attribute get'')"

fun as_str :: "json \<Rightarrow> string result" where
  "as_str (JStr s) = Inr s"
| "as_str _ = Inl (PyExc TypeErrorE ''expected string or bytes-like object'')"

text \<open>Iterating over a JSON value: a list gives its items, an object its keys, a string its
  characters, anything else is not iterable.\<close>

fun json_iter :: "json \<Rightarrow> json list result" where
  "json_iter (JList xs) = Inr xs"
| "json_iter (JObj d) = Inr (map (\<lambda>p. JStr (fst p)) d)"
| "json_iter (JStr s) = Inr (map (\<lambda>c. JStr [c]) s)"
| "json_iter _ = Inl (PyExc TypeErrorE ''object is not iterable'')"

text \<open>\<open>d[k]\<close> on a dictionary.\<close>

definition dict_item :: "(string, 'v) dict \<Rightarrow> string \<Rightarrow> 'v result" where
  "dict_item d k = (case map_of d k of None \<Rightarrow> Inl (PyExc KeyErrorE k) | Some v \<Rightarrow> Inr v)"

text \<open>The number a JSON value is equal to under Python's \<open>==\<close> (booleans are integers).\<close>

fun json_num :: "json \<Rightarrow> rat option" where
  "json_num (JBool b) = Some (if b then 1 else 0)"
| "json_num (JInt i) = Some (of_int i)"
| "json_num (JFloat r) = Some r"
| "json_num _ = None"

text \<open>\<open>list(t.shape) == expected\<close> for a list of integers and a JSON value.\<close>

definition shape_eq :: "int list \<Rightarrow> json \<Rightarrow> bool" where
  "shape_eq sh j = (case j of JList xs \<Rightarrow> map (Some \<circ> of_int) sh = map json_num xs | _ \<Rightarrow> False)"

end
