(* ===== verification/Route_Policy.thy ===== *)
theory Route_Policy
  imports Prelude "HOL-Library.Char_ord" "HOL-Library.List_Lexorder"
begin

text \<open>
  What a route manifest must pass before it may be registered or used: the license policy
  (route/policy.py), the signature (route/crypto.py), the tenant check (route/tenant.py) and
  the single verifications (route/verifier.py). HMAC-SHA256 is an arbitrary function from key
  and message to bytes and the validator of the \<open>jsonschema\<close> package is a parameter.
\<close>

type_synonym manifest = "(string, json) dict"

section \<open>License policy\<close>

datatype route_status = DRAFT | DIAGNOSED | STAGING | CANARY | PRODUCTION | REVOKED | QUARANTINED

fun status_value :: "route_status \<Rightarrow> string" where
  "status_value DRAFT = ''DRAFT''"
| "status_value DIAGNOSED = ''DIAGNOSED''"
| "status_value STAGING = ''STAGING''"
| "status_value CANARY = ''CANARY''"
| "status_value PRODUCTION = ''PRODUCTION''"
| "status_value REVOKED = ''REVOKED''"
| "status_value QUARANTINED = ''QUARANTINED''"

datatype policy_decision = ALLOW | DENY | MANUAL_REVIEW

definition permissive_marks :: "string list" where
  "permissive_marks = [''MIT'', ''APACHE'', ''BSD'']"

definition copyleft_marks :: "string list" where
  "copyleft_marks = [''GPL'', ''AGPL'', ''CC-BY-NC-SA'']"

definition evaluate_license_risk :: "string \<Rightarrow> policy_decision" where
  "evaluate_license_risk license_name =
     (if license_name = [] then MANUAL_REVIEW
      else
        let license_upper = str_upper license_name
        in if list_ex (\<lambda>l. substring l license_upper) permissive_marks then ALLOW
           else if list_ex (\<lambda>l. substring l license_upper) copyleft_marks then DENY
           else MANUAL_REVIEW)"

definition verify_license_policy :: "manifest \<Rightarrow> unit result" where
  "verify_license_policy route_data =
     (case as_str (dict_get route_data ''license'' (JStr [])) of
        Inl e \<Rightarrow> Inl e
      | Inr license_name \<Rightarrow>
          (case evaluate_license_risk license_name of
             DENY \<Rightarrow> Inl (PyExc PermissionErrorE
               (''Route rejected due to high-risk license policy: '' @ license_name))
           | MANUAL_REVIEW \<Rightarrow> Inl (PyExc PermissionErrorE
               (''Route rejected: License '' @ license_name @ '' requires manual review.''))
           | ALLOW \<Rightarrow> Inr ()))"

section \<open>Canonical JSON\<close>

text \<open>\<open>json.dumps(v, sort_keys=True, separators=(',', ':'))\<close>; \<open>frepr\<close> renders floats. Characters
  outside the printable ASCII range are escaped, as \<open>ensure_ascii\<close> does.\<close>

definition hex2 :: "nat \<Rightarrow> string" where
  "hex2 n = [digit_char (n div 16 mod 16), digit_char (n mod 16)]"

definition escape_char :: "char \<Rightarrow> string" where
  "escape_char c = (let n = of_char c :: nat; bs = char_of (92::nat) in
     if n = 34 then [bs, c] else if n = 92 then [bs, bs]
     else if n = 10 then [bs, CHR ''n''] else if n = 13 then [bs, CHR ''r'']
     else if n = 9 then [bs, CHR ''t''] else if n = 8 then [bs, CHR ''b'']
     else if n = 12 then [bs, CHR ''f'']
     else if 32 \<le> n \<and> n \<le> 126 then [c]
     else [bs, CHR ''u'', CHR ''0'', CHR ''0''] @ hex2 n)"

definition json_quote :: "string \<Rightarrow> string" where
  "json_quote s = [char_of (34::nat)] @ concat (map escape_char s) @ [char_of (34::nat)]"

primrec dumps :: "(rat \<Rightarrow> string) \<Rightarrow> json \<Rightarrow> string" where
  "dumps frepr JNull = ''null''"
| "dumps frepr (JBool b) = (if b then ''true'' else ''false'')"
| "dumps frepr (JInt i) = int_str i"
| "dumps frepr (JFloat r) = frepr r"
| "dumps frepr (JStr s) = json_quote s"
| "dumps frepr (JList xs) = ''['' @ join '','' (map (dumps frepr) xs) @ '']''"
| "dumps frepr (JObj d) =
     ''{'' @ join '','' (map (\<lambda>p. json_quote (fst p) @ '':'' @ snd p)
               (sort_key fst (map (map_prod id (dumps frepr)) d))) @ ''}''"

section \<open>Signatures\<close>

text \<open>\<open>mac key message\<close> is the digest as bytes; \<open>hexdigest\<close> its lower-case hexadecimal form.\<close>

definition hexdigest :: "nat list \<Rightarrow> string" where
  "hexdigest bs = concat (map hex2 bs)"

definition canonicalize :: "(rat \<Rightarrow> string) \<Rightarrow> manifest \<Rightarrow> string" where
  "canonicalize frepr route_data = dumps frepr (JObj (dict_del ''signature'' route_data))"

definition sign ::
  "(string \<Rightarrow> string \<Rightarrow> nat list) \<Rightarrow> (rat \<Rightarrow> string) \<Rightarrow> (string, string) dict \<Rightarrow>
   manifest \<Rightarrow> string \<Rightarrow> manifest result" where
  "sign mac frepr secret_keys route_data key_id =
     (case map_of secret_keys key_id of
        None \<Rightarrow> Inl (PyExc ValueErrorE (''Signing key '' @ key_id @ '' not found.''))
      | Some secret \<Rightarrow>
          let signature = hexdigest (mac secret (canonicalize frepr route_data))
          in Inr (dict_set ''signature''
                (JObj [(''algorithm'', JStr ''hmac-sha256''), (''key_id'', JStr key_id),
                       (''value'', JStr signature)]) route_data))"

text \<open>\<open>hmac.compare_digest\<close> accepts ASCII strings only.\<close>

definition ascii :: "string \<Rightarrow> bool" where
  "ascii s = list_all (\<lambda>c. (of_char c :: nat) < 128) s"

definition compare_digest :: "string \<Rightarrow> json option \<Rightarrow> bool result" where
  "compare_digest expected provided =
     (case provided of
        Some (JStr v) \<Rightarrow>
          if ascii v then Inr (expected = v)
          else Inl (PyExc TypeErrorE ''comparing strings with non-ASCII characters'')
      | _ \<Rightarrow> Inl (PyExc TypeErrorE ''unsupported operand types''))"

text \<open>\<open>key_id not in self.secret_keys\<close>: the keys are strings; lists and objects cannot be hashed.\<close>

fun find_secret :: "(string, string) dict \<Rightarrow> json \<Rightarrow> string option result" where
  "find_secret secret_keys (JStr k) = Inr (map_of secret_keys k)"
| "find_secret secret_keys (JList xs) = Inl (PyExc TypeErrorE ''unhashable type: list'')"
| "find_secret secret_keys (JObj d) = Inl (PyExc TypeErrorE ''unhashable type: dict'')"
| "find_secret secret_keys j = Inr None"

definition verify_sig ::
  "(string \<Rightarrow> string \<Rightarrow> nat list) \<Rightarrow> (rat \<Rightarrow> string) \<Rightarrow> (string, string) dict \<Rightarrow>
   manifest \<Rightarrow> unit result" where
  "verify_sig mac frepr secret_keys route_data =
     (let sig_block = map_of route_data ''signature'' in
      if \<not> opt_truthy sig_block then Inl (PyExc ValueErrorE ''Missing signature block.'')
      else bindE (as_dict (the sig_block)) (\<lambda>block.
        if map_of block ''algorithm'' \<noteq> Some (JStr ''hmac-sha256'')
        then Inl (PyExc ValueErrorE ''Unsupported signature algorithm: '')
        else if \<not> opt_truthy (map_of block ''key_id'')
        then Inl (PyExc ValueErrorE ''Unknown signing key_id: '')
        else bindE (find_secret secret_keys (the (map_of block ''key_id''))) (\<lambda>found.
          case found of
            None \<Rightarrow> Inl (PyExc ValueErrorE ''Unknown signing key_id: '')
          | Some secret \<Rightarrow>
              bindE (compare_digest (hexdigest (mac secret (canonicalize frepr route_data)))
                       (map_of block ''value'')) (\<lambda>same.
                if \<not> same
                then Inl (PyExc ValueErrorE
                       ''Cryptographic signature verification failed: Hash mismatch.'')
                else Inr ()))))"

section \<open>The single verifications\<close>

text \<open>\<open>schema_error\<close> stands for \<open>jsonschema.validate\<close> with the repository's schema: the message of
  the \<open>ValidationError\<close> it raises, or none.\<close>

definition verify_schema :: "(json \<Rightarrow> string option) \<Rightarrow> json \<Rightarrow> unit result" where
  "verify_schema schema_error route_data =
     (case schema_error route_data of
        None \<Rightarrow> Inr ()
      | Some m \<Rightarrow> Inl (PyExc ValueErrorE (''Route manifest schema validation failed: '' @ m)))"

definition is_hex :: "char \<Rightarrow> bool" where
  "is_hex c = (let n = of_char c :: nat in
     48 \<le> n \<and> n \<le> 57 \<or> 65 \<le> n \<and> n \<le> 70 \<or> 97 \<le> n \<and> n \<le> 102)"

text \<open>The pattern \<open>^[a-fA-F0-9]{64}$\<close> under \<open>re.match\<close>: \<open>$\<close> also matches before a final newline.\<close>

definition sha256_pattern_match :: "string \<Rightarrow> bool" where
  "sha256_pattern_match s =
     (let body = take 64 s; rest = drop 64 s in
      length body = 64 \<and> list_all is_hex body \<and> (rest = [] \<or> rest = [char_of (10::nat)]))"

definition check_hash :: "string \<Rightarrow> json \<Rightarrow> unit result" where
  "check_hash what h =
     bindE (as_str h) (\<lambda>s.
       if \<not> sha256_pattern_match s
       then Inl (PyExc ValueErrorE (''Invalid '' @ what @ s)) else Inr ())"

definition check_layer_hash :: "json \<Rightarrow> unit result" where
  "check_layer_hash layer =
     bindE (as_dict layer) (\<lambda>d.
       check_hash ''delta_sha256 format for layer: '' (dict_get d ''delta_sha256'' (JStr [])))"

definition verify_hash :: "manifest \<Rightarrow> unit result" where
  "verify_hash route_data =
     bindE (check_hash ''source_adapter_sha256 format: ''
              (dict_get route_data ''source_adapter_sha256'' (JStr []))) (\<lambda>_.
     bindE (check_hash ''target_model_sha256 format: ''
              (dict_get route_data ''target_model_sha256'' (JStr []))) (\<lambda>_.
     bindE (json_iter (dict_get route_data ''layers'' (JList []))) (\<lambda>layers.
       foldE (\<lambda>l _. check_layer_hash l) layers ())))"

definition verify_runtime_compatibility :: "manifest \<Rightarrow> string \<Rightarrow> unit result" where
  "verify_runtime_compatibility route_data current_model_hash =
     (if map_of route_data ''target_model_sha256'' \<noteq> Some (JStr current_model_hash)
      then Inl (PyExc ValueErrorE
             (''Route target model hash does not match current runtime model hash (''
              @ current_model_hash @ '').''))
      else Inr ())"

definition verify_tenant_access :: "manifest \<Rightarrow> string \<Rightarrow> unit result" where
  "verify_tenant_access route_data tenant_id =
     (let route_tenant_id = map_of route_data ''tenant_id'' in
      if opt_truthy route_tenant_id \<and> route_tenant_id \<noteq> Some (JStr tenant_id)
      then Inl (PyExc PermissionErrorE
             (''Tenant mismatch. Current context is '' @ tenant_id @ ''.''))
      else Inr ())"

section \<open>License decisions\<close>

definition marked :: "string list \<Rightarrow> string \<Rightarrow> bool" where
  "marked ms l \<longleftrightarrow> (\<exists>m \<in> set ms. \<exists>a b. str_upper l = a @ m @ b)"

lemma evaluate_license_cases:
  "evaluate_license_risk l =
     (if marked permissive_marks l then ALLOW
      else if marked copyleft_marks l then DENY else MANUAL_REVIEW)"
proof -
  have ex: "marked ms l \<longleftrightarrow> list_ex (\<lambda>m. substring m (str_upper l)) ms" for ms
    by (auto simp: marked_def list_ex_iff substring_iff)
  moreover have "marked permissive_marks l \<or> marked copyleft_marks l \<Longrightarrow> l \<noteq> []"
    by (auto simp: marked_def permissive_marks_def copyleft_marks_def str_upper_def)
  ultimately show ?thesis by (auto simp: evaluate_license_risk_def Let_def)
qed

lemma marked_iff: "marked ms l \<longleftrightarrow> (\<exists>a m b. m \<in> set ms \<and> str_upper l = a @ m @ b)"
  unfolding marked_def by blast

lemma license_allow_iff: "evaluate_license_risk l = ALLOW \<longleftrightarrow> marked permissive_marks l"
  by (simp add: evaluate_license_cases)

lemma verify_license_ok_iff:
  "verify_license_policy d = Inr () \<longleftrightarrow>
     (\<exists>l. map_of d ''license'' = Some (JStr l) \<and> evaluate_license_risk l = ALLOW)"
proof (cases "map_of d ''license''")
  case None
  then show ?thesis
    by (simp add: verify_license_policy_def dict_get_def evaluate_license_risk_def)
next
  case (Some v)
  then show ?thesis
    by (cases v) (auto simp: verify_license_policy_def dict_get_def split: policy_decision.splits)
qed

section \<open>Signing and verifying\<close>

lemma hex2_ascii: "ascii (hex2 n)"
proof -
  have "(of_char (digit_char m) :: nat) < 128" if "m < 16" for m
    using that by (simp add: digit_char_def)
  then show ?thesis by (simp add: ascii_def hex2_def)
qed

lemma hexdigest_ascii: "ascii (hexdigest bs)"
  using hex2_ascii by (auto simp: ascii_def hexdigest_def list_all_iff)

lemma canonicalize_set_signature [simp]:
  "canonicalize frepr (dict_set ''signature'' v d) = canonicalize frepr d"
  by (simp add: canonicalize_def)

lemma verify_sig_ok_iff:
  "verify_sig mac frepr keys d = Inr () \<longleftrightarrow>
     (\<exists>block k secret v.
        map_of d ''signature'' = Some (JObj block)
        \<and> map_of block ''algorithm'' = Some (JStr ''hmac-sha256'')
        \<and> map_of block ''key_id'' = Some (JStr k) \<and> k \<noteq> []
        \<and> map_of keys k = Some secret
        \<and> map_of block ''value'' = Some (JStr v)
        \<and> v = hexdigest (mac secret (canonicalize frepr d)))" (is "?l \<longleftrightarrow> ?r")
proof
  assume ?l
  then obtain sb where sb: "map_of d ''signature'' = Some sb" "truthy sb"
    by (auto simp: verify_sig_def opt_truthy_def Let_def split: option.splits if_splits)
  with \<open>?l\<close> obtain block where b: "sb = JObj block"
      "map_of block ''algorithm'' = Some (JStr ''hmac-sha256'')"
      "opt_truthy (map_of block ''key_id'')"
    by (cases sb) (auto simp: verify_sig_def opt_truthy_def split: if_splits)
  then obtain kj where kj: "map_of block ''key_id'' = Some kj" "truthy kj"
    by (auto simp: opt_truthy_def split: option.splits)
  have rest: "bindE (find_secret keys kj) (\<lambda>found.
          case found of
            None \<Rightarrow> Inl (PyExc ValueErrorE ''Unknown signing key_id: '')
          | Some secret \<Rightarrow>
              bindE (compare_digest (hexdigest (mac secret (canonicalize frepr d)))
                       (map_of block ''value'')) (\<lambda>same.
                if \<not> same
                then Inl (PyExc ValueErrorE
                       ''Cryptographic signature verification failed: Hash mismatch.'')
                else Inr ())) = Inr ()"
    using \<open>?l\<close> sb b kj by (simp add: verify_sig_def opt_truthy_def)
  then obtain secret where s: "find_secret keys kj = Inr (Some secret)"
      "compare_digest (hexdigest (mac secret (canonicalize frepr d))) (map_of block ''value'') = Inr True"
    by (auto simp: bindE_Inr_iff split: option.splits if_splits)
  from s(1) kj(2) obtain k where k: "kj = JStr k" "k \<noteq> []" "map_of keys k = Some secret"
    by (cases kj) auto
  from s(2) obtain v where "map_of block ''value'' = Some (JStr v)"
      "v = hexdigest (mac secret (canonicalize frepr d))"
    by (auto simp: compare_digest_def split: option.splits json.splits if_splits)
  then show ?r using sb(1) b(1,2) kj(1) k by blast
next
  assume ?r
  then show ?l
    using hexdigest_ascii
    by (force simp: verify_sig_def opt_truthy_def compare_digest_def)
qed

text \<open>The canonical form depends on the mapping only, not on the order of the keys.\<close>

lemma sorted_dumps_unique:
  assumes "dict_wf d" "dict_wf d'" "map_of d = map_of d'"
  shows "sort_key fst (map (map_prod id f) d) = sort_key fst (map (map_prod id f) (d' :: (string, json) dict))"
proof (rule map_sorted_distinct_set_unique)
  let ?m = "map_prod id f"
  have fst_m: "map fst (map ?m x) = map fst x" for x :: "(string, json) dict" by simp
  have sets: "set d = set d'"
    using assms by (metis dict_wf_def map_of_inject_set)
  show "set (sort_key fst (map ?m d)) = set (sort_key fst (map ?m d'))"
    using sets by simp
  have dist: "distinct (map fst (sort_key fst (map ?m x)))" if "dict_wf x" for x :: "(string, json) dict"
    using that fst_m[of x] distinct_map[of fst] by (metis dict_wf_def distinct_map distinct_sort set_sort)
  show "distinct (map fst (sort_key fst (map ?m d)))" "distinct (map fst (sort_key fst (map ?m d')))"
    using dist assms by blast+
  show "inj_on fst (set (sort_key fst (map ?m d)) \<union> set (sort_key fst (map ?m d')))"
    using dist[OF assms(1)] sets by (simp add: distinct_map)
qed simp_all

lemma canonicalize_cong:
  assumes "dict_wf d" "dict_wf d'" "map_of d = map_of d'"
  shows "canonicalize frepr d = canonicalize frepr d'"
proof -
  let ?x = "dict_del ''signature'' d" and ?y = "dict_del ''signature'' d'"
  have "map_of ?x = map_of ?y" by (rule ext) (simp add: assms(3))
  then have "sort_key fst (map (map_prod id (dumps frepr)) ?x)
      = sort_key fst (map (map_prod id (dumps frepr)) ?y)"
    using assms by (intro sorted_dumps_unique) auto
  then show ?thesis by (simp add: canonicalize_def)
qed

lemma sign_verifies:
  assumes "sign mac frepr keys d kid = Inr d'" "kid \<noteq> []"
    and "canonicalize frepr d'' = canonicalize frepr d'" "map_of d'' = map_of d'"
  shows "verify_sig mac frepr keys d'' = Inr ()"
  using assms by (fastforce simp: sign_def verify_sig_ok_iff Let_def split: option.splits)

lemma verify_hash_ok_iff:
  "verify_hash d = Inr () \<longleftrightarrow>
     (\<exists>s t ls.
        as_str (dict_get d ''source_adapter_sha256'' (JStr [])) = Inr s \<and> sha256_pattern_match s
        \<and> as_str (dict_get d ''target_model_sha256'' (JStr [])) = Inr t \<and> sha256_pattern_match t
        \<and> json_iter (dict_get d ''layers'' (JList [])) = Inr ls
        \<and> (\<forall>l\<in>set ls. check_layer_hash l = Inr ()))"
  by (auto simp: verify_hash_def bindE_Inr_iff check_hash_def foldE_all_ok split: if_splits)

section \<open>Properties\<close>

text \<open>The license gate lets a manifest through exactly when its license is a string whose
  upper-case form contains one of the marks MIT, APACHE, BSD anywhere, whatever else it
  contains; in every other case it raises PermissionError or TypeError.\<close>

theorem license_gate_exact:
  "(verify_license_policy d = Inr ()) =
     (\<exists>l. map_of d ''license'' = Some (JStr l)
        \<and> (\<exists>a m b. m \<in> {''MIT'', ''APACHE'', ''BSD''} \<and> str_upper l = a @ m @ b))"
proof -
  have "set permissive_marks = {''MIT'', ''APACHE'', ''BSD''}" by (simp add: permissive_marks_def)
  then show ?thesis by (simp only: verify_license_ok_iff license_allow_iff marked_iff)
qed

text \<open>The substring test of the license policy allows licenses that are not permissive: a
  text with the word Limited, and a GPL license that mentions BSD.\<close>

theorem license_substring_allows_restrictive:
  "evaluate_license_risk ''Proprietary - Limited Use'' = ALLOW
   \<and> evaluate_license_risk ''GPL-3.0 (not BSD)'' = ALLOW
   \<and> evaluate_license_risk ''GPL-3.0'' = DENY"
  by code_simp

text \<open>Signing round trip: a manifest signed with a known, non-empty key id verifies, also
  after its top-level keys were stored and reloaded in another order.\<close>

theorem sign_verify_roundtrip:
  assumes "sign mac frepr keys d kid = Inr d'" and "kid \<noteq> []" and "dict_wf d"
    and "dict_wf d''" and "map_of d'' = map_of d'"
  shows "verify_sig mac frepr keys d'' = Inr ()"
proof -
  have "dict_wf d'" using assms(1,3) by (auto simp: sign_def Let_def split: option.splits)
  then show ?thesis using assms sign_verifies canonicalize_cong by blast
qed

theorem sign_verify_roundtrip_witness:
  "\<exists>d'. sign (\<lambda>k m. [length k, length m]) (\<lambda>r. []) [(''k'', ''secret'')] [(''a'', JInt 1)] ''k'' = Inr d'
      \<and> verify_sig (\<lambda>k m. [length k, length m]) (\<lambda>r. []) [(''k'', ''secret'')] (rev d') = Inr ()"
proof -
  let ?mac = "\<lambda>k m. [length k, length m]" and ?f = "\<lambda>r::rat. [] :: string"
  let ?d = "[(''a'', JInt 1)]"
  obtain d' where d': "sign ?mac ?f [(''k'', ''secret'')] ?d ''k'' = Inr d'"
    by (auto simp: sign_def Let_def)
  have wf: "dict_wf ?d" by (simp add: dict_wf_def)
  have wf': "dict_wf d'" using d' wf by (auto simp: sign_def Let_def dict_wf_def)
  then have r: "dict_wf (rev d')" "map_of (rev d') = map_of d'"
    by (auto simp: dict_wf_def map_of_rev_distinct rev_map[symmetric])
  show ?thesis using d' sign_verify_roundtrip[OF d' _ wf r] by auto
qed

text \<open>Signature verification succeeds exactly when the manifest carries an hmac-sha256 block
  whose key id is known and whose value is the digest recomputed, with that key, over the
  canonical form of everything but the signature.\<close>

theorem verify_signature_exact:
  "(verify_sig mac frepr keys d = Inr ()) =
     (\<exists>block k secret.
        map_of d ''signature'' = Some (JObj block)
        \<and> map_of block ''algorithm'' = Some (JStr ''hmac-sha256'')
        \<and> map_of block ''key_id'' = Some (JStr k) \<and> k \<noteq> []
        \<and> map_of keys k = Some secret
        \<and> map_of block ''value'' = Some (JStr (hexdigest (mac secret (canonicalize frepr d)))))"
  by (auto simp: verify_sig_ok_iff)

text \<open>The hash-format check accepts a digest followed by a newline: the pattern ends in a
  dollar sign, which matches before a final newline.\<close>

theorem hash_format_accepts_newline:
  "sha256_pattern_match (replicate 64 (CHR ''a'')) \<and>
   sha256_pattern_match (replicate 64 (CHR ''a'') @ [char_of (10::nat)]) \<and>
   \<not> sha256_pattern_match (replicate 65 (CHR ''a''))"
  by code_simp

end
