(* ===== verification/Route_Registry.thy ===== *)
theory Route_Registry
  imports Route_Policy
begin

text \<open>
  The registry of verified routes (route/registry.py): the three dictionaries, registration
  through every verification, retrieval, revocation and quarantine, and the contract its
  clients (the runtime and the server) rely on, as a locale.
\<close>

section \<open>State and operations\<close>

record registry =
  reg_routes :: "(string, manifest) dict"
  reg_statuses :: "(string, route_status) dict"
  reg_reasons :: "(string, string) dict"

definition empty_registry :: registry where
  "empty_registry = \<lparr>reg_routes = [], reg_statuses = [], reg_reasons = []\<rparr>"

text \<open>What registration reads from outside: the parsed file, the validator of the schema, the
  signer's digest function and keys, and the rendering of floats.\<close>

record signer_env =
  se_load :: "string \<Rightarrow> json result"
  se_schema :: "json \<Rightarrow> string option"
  se_mac :: "string \<Rightarrow> string \<Rightarrow> nat list"
  se_frepr :: "rat \<Rightarrow> string"
  se_keys :: "(string, string) dict"

text \<open>The checks of \<open>register_route\<close> in order; the schema requires \<open>route_id\<close> to be a string.\<close>

definition check_manifest :: "signer_env \<Rightarrow> json \<Rightarrow> (string \<times> manifest) result" where
  "check_manifest env j =
     bindE (verify_schema (se_schema env) j) (\<lambda>_.
     bindE (as_dict j) (\<lambda>route_data.
     bindE (verify_hash route_data) (\<lambda>_.
     bindE (verify_sig (se_mac env) (se_frepr env) (se_keys env) route_data) (\<lambda>_.
     bindE (verify_license_policy route_data) (\<lambda>_.
     bindE (as_dict (dict_get route_data ''diagnostics'' (JObj []))) (\<lambda>diagnostics.
       if map_of diagnostics ''verdict'' = Some (JStr ''FAIL'')
       then Inl (PyExc ValueErrorE ''Cannot register route with FAIL verdict.'')
       else bindE (dict_item route_data ''route_id'') (\<lambda>rid.
              bindE (as_str rid) (\<lambda>route_id. Inr (route_id, route_data)))))))))"

definition register_route :: "signer_env \<Rightarrow> string \<Rightarrow> registry \<Rightarrow> registry \<times> string result" where
  "register_route env filepath reg =
     (case bindE (se_load env filepath) (check_manifest env) of
        Inl e \<Rightarrow> (reg, Inl e)
      | Inr (route_id, route_data) \<Rightarrow>
          (reg\<lparr>reg_routes := dict_set route_id route_data (reg_routes reg),
               reg_statuses := dict_set route_id PRODUCTION (reg_statuses reg)\<rparr>,
           Inr route_id))"

definition get_route :: "registry \<Rightarrow> string \<Rightarrow> manifest option" where
  "get_route reg route_id = map_of (reg_routes reg) route_id"

definition list_routes :: "registry \<Rightarrow> string list" where
  "list_routes reg = dict_keys (reg_routes reg)"

definition get_route_status :: "registry \<Rightarrow> string \<Rightarrow> route_status option" where
  "get_route_status reg route_id = map_of (reg_statuses reg) route_id"

definition is_revoked :: "registry \<Rightarrow> string \<Rightarrow> bool" where
  "is_revoked reg route_id \<longleftrightarrow> get_route_status reg route_id = Some REVOKED"

definition route_not_found :: "string \<Rightarrow> pyexc" where
  "route_not_found route_id = PyExc ValueErrorE (''Route '' @ route_id @ '' not found.'')"

definition revoke_route :: "string \<Rightarrow> registry \<Rightarrow> registry result" where
  "revoke_route route_id reg =
     (if \<not> has_key (reg_routes reg) route_id then Inl (route_not_found route_id)
      else Inr (reg\<lparr>reg_statuses := dict_set route_id REVOKED (reg_statuses reg)\<rparr>))"

definition quarantine_route :: "string \<Rightarrow> string \<Rightarrow> registry \<Rightarrow> registry result" where
  "quarantine_route route_id reason reg =
     (if \<not> has_key (reg_routes reg) route_id then Inl (route_not_found route_id)
      else Inr (reg\<lparr>reg_statuses := dict_set route_id QUARANTINED (reg_statuses reg),
                    reg_reasons := dict_set route_id reason (reg_reasons reg)\<rparr>))"

definition get_verified_route ::
  "registry \<Rightarrow> string \<Rightarrow> string \<Rightarrow> string \<Rightarrow> manifest result" where
  "get_verified_route reg route_id runtime_model_hash tenant_id =
     (case get_route reg route_id of
        None \<Rightarrow> Inl (PyExc ValueErrorE (''Route '' @ route_id @ '' not found in registry.''))
      | Some route_data \<Rightarrow>
          if route_data = []
          then Inl (PyExc ValueErrorE (''Route '' @ route_id @ '' not found in registry.''))
          else
            case get_route_status reg route_id of
              Some status \<Rightarrow>
                if status \<in> {REVOKED, QUARANTINED}
                then Inl (PyExc PermissionErrorE
                       (''Route '' @ route_id @ '' is '' @ status_value status
                        @ '' and cannot be executed.''))
                else bindE (verify_runtime_compatibility route_data runtime_model_hash) (\<lambda>_.
                     bindE (verify_tenant_access route_data tenant_id) (\<lambda>_. Inr route_data))
            | None \<Rightarrow>
                bindE (verify_runtime_compatibility route_data runtime_model_hash) (\<lambda>_.
                bindE (verify_tenant_access route_data tenant_id) (\<lambda>_. Inr route_data)))"

section \<open>Retrieval\<close>

lemma compat_ok_iff:
  "verify_runtime_compatibility d h = Inr () \<longleftrightarrow> map_of d ''target_model_sha256'' = Some (JStr h)"
  by (simp add: verify_runtime_compatibility_def)

lemma tenant_ok_iff:
  "verify_tenant_access d t = Inr () \<longleftrightarrow>
     \<not> opt_truthy (map_of d ''tenant_id'') \<or> map_of d ''tenant_id'' = Some (JStr t)"
  by (simp add: verify_tenant_access_def Let_def)

lemma get_verified_ok_iff:
  "get_verified_route reg i h t = Inr d \<longleftrightarrow>
     get_route reg i = Some d \<and> d \<noteq> []
     \<and> get_route_status reg i \<notin> {Some REVOKED, Some QUARANTINED}
     \<and> map_of d ''target_model_sha256'' = Some (JStr h)
     \<and> (\<not> opt_truthy (map_of d ''tenant_id'') \<or> map_of d ''tenant_id'' = Some (JStr t))"
  by (auto simp: get_verified_route_def bindE_Inr_iff compat_ok_iff tenant_ok_iff
        split: option.splits if_splits)

lemma get_verified_blocked:
  "get_route_status reg i \<in> {Some REVOKED, Some QUARANTINED} \<Longrightarrow>
     get_verified_route reg i h t \<noteq> Inr d"
  by (auto simp: get_verified_ok_iff)

lemma get_verified_cong:
  "get_route reg i = get_route reg' i \<Longrightarrow> get_route_status reg i = get_route_status reg' i \<Longrightarrow>
     get_verified_route reg i h t = get_verified_route reg' i h t"
  by (simp only: get_verified_route_def)

section \<open>The contract of a route store\<close>

text \<open>
  What the runtime relies on when it puts a route in quarantine: afterwards the store no
  longer hands the route out, other routes are untouched, and a route it has just handed out
  can be quarantined.
\<close>

locale route_store =
  fixes verified :: "'r \<Rightarrow> string \<Rightarrow> 'd result"
    and quarantine :: "string \<Rightarrow> string \<Rightarrow> 'r \<Rightarrow> 'r result"
  assumes quarantine_blocks: "quarantine i why r = Inr r' \<Longrightarrow> verified r' i \<noteq> Inr d"
    and quarantine_frame: "quarantine i why r = Inr r' \<Longrightarrow> j \<noteq> i \<Longrightarrow> verified r' j = verified r j"
    and quarantine_known: "verified r i = Inr d \<Longrightarrow> \<exists>r'. quarantine i why r = Inr r'"
begin

definition quarantine_all :: "(string \<times> string) list \<Rightarrow> 'r \<Rightarrow> 'r result" where
  "quarantine_all ps r = foldE (\<lambda>p. quarantine (fst p) (snd p)) ps r"

lemma quarantine_only_blocks:
  assumes "quarantine i why r = Inr r'" and "verified r' j = Inr d"
  shows "verified r j = Inr d"
proof (cases "j = i")
  case True
  then show ?thesis using quarantine_blocks[OF assms(1)] assms(2) by blast
next
  case False
  then show ?thesis using quarantine_frame[OF assms(1) False] assms(2) by simp
qed

lemma quarantine_all_only_blocks:
  "quarantine_all ps r = Inr r' \<Longrightarrow> verified r' j = Inr d \<Longrightarrow> verified r j = Inr d"
proof (induction ps arbitrary: r)
  case Nil
  then show ?case by (simp add: quarantine_all_def)
next
  case (Cons p ps)
  then show ?case
    by (auto simp: quarantine_all_def bindE_Inr_iff dest: quarantine_only_blocks)
qed

lemma quarantine_all_blocks:
  "quarantine_all ps r = Inr r' \<Longrightarrow> j \<in> fst ` set ps \<Longrightarrow> verified r' j \<noteq> Inr d"
proof (induction ps arbitrary: r)
  case Nil
  then show ?case by simp
next
  case (Cons p ps)
  from Cons.prems(1) obtain u where u: "quarantine (fst p) (snd p) r = Inr u"
      "quarantine_all ps u = Inr r'"
    by (auto simp: quarantine_all_def bindE_Inr_iff)
  show ?case
  proof (cases "j \<in> fst ` set ps")
    case True
    then show ?thesis using Cons.IH[OF u(2)] by simp
  next
    case False
    then have "j = fst p" using Cons.prems(2) by auto
    then have "verified u j \<noteq> Inr d" using quarantine_blocks[OF u(1)] by simp
    then show ?thesis using quarantine_all_only_blocks[OF u(2)] by blast
  qed
qed

lemma quarantine_all_frame:
  "quarantine_all ps r = Inr r' \<Longrightarrow> j \<notin> fst ` set ps \<Longrightarrow> verified r' j = verified r j"
proof (induction ps arbitrary: r)
  case Nil
  then show ?case by (simp add: quarantine_all_def)
next
  case (Cons p ps)
  then show ?case
    by (auto simp: quarantine_all_def bindE_Inr_iff dest: quarantine_frame)
qed

end

lemma quarantine_route_effect:
  "quarantine_route i why reg = Inr reg' \<Longrightarrow>
     reg_routes reg' = reg_routes reg
     \<and> get_route_status reg' j = (if j = i then Some QUARANTINED else get_route_status reg j)
     \<and> has_key (reg_routes reg) i"
  by (auto simp: quarantine_route_def get_route_status_def split: if_splits)

interpretation reg: route_store "\<lambda>r i. get_verified_route r i hash tenant" quarantine_route
  for hash tenant
proof unfold_locales
  fix i why r r' d
  assume q: "quarantine_route i why r = Inr r'"
  show "get_verified_route r' i hash tenant \<noteq> Inr d"
    using quarantine_route_effect[OF q, of i] by (simp add: get_verified_ok_iff)
next
  fix i why r r' and j :: string
  assume q: "quarantine_route i why r = Inr r'" and "j \<noteq> i"
  then show "get_verified_route r' j hash tenant = get_verified_route r j hash tenant"
    using quarantine_route_effect[OF q, of j]
    by (intro get_verified_cong) (simp_all add: get_route_def)
next
  fix r i why d
  assume "get_verified_route r i hash tenant = Inr d"
  then show "\<exists>r'. quarantine_route i why r = Inr r'"
    by (auto simp: get_verified_ok_iff get_route_def quarantine_route_def has_key_def)
qed

section \<open>The registry as a state machine\<close>

text \<open>Every call that changes the registry; what a call returns does not matter here. Calls
  that raise leave the registry as it is.\<close>

inductive registry_step :: "signer_env \<Rightarrow> registry \<Rightarrow> registry \<Rightarrow> bool" for env where
  register: "register_route env f reg = (reg', res) \<Longrightarrow> registry_step env reg reg'"
| revoke: "revoke_route i reg = Inr reg' \<Longrightarrow> registry_step env reg reg'"
| quarantine: "quarantine_route i why reg = Inr reg' \<Longrightarrow> registry_step env reg reg'"

inductive registry_reach :: "signer_env \<Rightarrow> registry \<Rightarrow> bool" for env where
  start: "registry_reach env empty_registry"
| step: "registry_reach env reg \<Longrightarrow> registry_step env reg reg' \<Longrightarrow> registry_reach env reg'"

inductive_cases registry_stepE: "registry_step env reg reg'"

text \<open>What registration has checked of a stored manifest.\<close>

definition manifest_checked :: "signer_env \<Rightarrow> string \<Rightarrow> manifest \<Rightarrow> bool" where
  "manifest_checked env i d \<longleftrightarrow>
     se_schema env (JObj d) = None \<and> verify_hash d = Inr ()
     \<and> verify_sig (se_mac env) (se_frepr env) (se_keys env) d = Inr ()
     \<and> verify_license_policy d = Inr () \<and> map_of d ''route_id'' = Some (JStr i)"

text \<open>The statuses the code ever assigns.\<close>

fun assigned_status :: "route_status \<Rightarrow> bool" where
  "assigned_status PRODUCTION = True"
| "assigned_status REVOKED = True"
| "assigned_status QUARANTINED = True"
| "assigned_status _ = False"

definition registry_inv :: "signer_env \<Rightarrow> registry \<Rightarrow> bool" where
  "registry_inv env reg \<longleftrightarrow>
     dict_wf (reg_routes reg) \<and> dict_wf (reg_statuses reg)
     \<and> (\<forall>i. has_key (reg_statuses reg) i = has_key (reg_routes reg) i)
     \<and> (\<forall>i d. map_of (reg_routes reg) i = Some d \<longrightarrow> manifest_checked env i d)
     \<and> (\<forall>i st. map_of (reg_statuses reg) i = Some st \<longrightarrow> assigned_status st)
     \<and> (\<forall>i. map_of (reg_statuses reg) i = Some QUARANTINED \<longrightarrow> has_key (reg_reasons reg) i)"

lemma check_manifest_checked:
  "check_manifest env j = Inr (i, d) \<Longrightarrow> manifest_checked env i d"
  by (cases j)
     (auto simp: check_manifest_def bindE_Inr_iff manifest_checked_def verify_schema_def
        dict_item_def split: option.splits if_splits elim!: as_str.elims)

lemma register_route_cases:
  "register_route env f reg = (reg', res) \<Longrightarrow>
     (reg' = reg \<and> (\<exists>e. res = Inl e)) \<or>
     (\<exists>i d. res = Inr i \<and> manifest_checked env i d
        \<and> reg' = reg\<lparr>reg_routes := dict_set i d (reg_routes reg),
                     reg_statuses := dict_set i PRODUCTION (reg_statuses reg)\<rparr>)"
  by (auto simp: register_route_def bindE_Inr_iff split: sum.splits dest!: check_manifest_checked)

lemma registry_inv_step: "registry_step env reg reg' \<Longrightarrow> registry_inv env reg \<Longrightarrow> registry_inv env reg'"
proof (elim registry_stepE)
  fix f res
  assume inv: "registry_inv env reg" and r: "register_route env f reg = (reg', res)"
  show "registry_inv env reg'"
    using register_route_cases[OF r] inv by (auto simp: registry_inv_def split: if_splits)
next
  fix i
  assume "registry_inv env reg" and "revoke_route i reg = Inr reg'"
  then show "registry_inv env reg'"
    by (auto simp: registry_inv_def revoke_route_def split: if_splits)
next
  fix i why
  assume "registry_inv env reg" and "quarantine_route i why reg = Inr reg'"
  then show "registry_inv env reg'"
    by (auto simp: registry_inv_def quarantine_route_def split: if_splits)
qed

lemma registry_inv_empty: "registry_inv env empty_registry"
  by (simp add: registry_inv_def empty_registry_def has_key_def)

lemma registry_inv_reach: "registry_reach env reg \<Longrightarrow> registry_inv env reg"
  by (induction rule: registry_reach.induct) (auto intro: registry_inv_empty registry_inv_step)

lemma registered_status:
  "register_route env f reg = (reg', Inr i) \<Longrightarrow>
     get_route_status reg' i = Some PRODUCTION \<and> reg_reasons reg' = reg_reasons reg"
  using register_route_cases[of env f reg reg' "Inr i"] by (auto simp: get_route_status_def)

section \<open>A sample manifest for the witnesses\<close>

definition sample_hash :: string where
  "sample_hash = replicate 64 (CHR ''a'')"

definition sample_manifest :: manifest where
  "sample_manifest =
     [(''route_id'', JStr ''r1''), (''tenant_id'', JStr ''t1''), (''license'', JStr ''MIT''),
      (''source_adapter_sha256'', JStr sample_hash), (''target_model_sha256'', JStr sample_hash),
      (''signature'', JObj [(''algorithm'', JStr ''hmac-sha256''), (''key_id'', JStr ''k''),
                            (''value'', JStr [])])]"

definition sample_env :: signer_env where
  "sample_env = \<lparr>se_load = (\<lambda>f. Inr (JObj sample_manifest)), se_schema = (\<lambda>j. None),
     se_mac = (\<lambda>k m. []), se_frepr = (\<lambda>r. []), se_keys = [(''k'', ''s'')]\<rparr>"

lemma sample_hash_ok: "sha256_pattern_match sample_hash"
  by code_simp

lemma sample_registers:
  "register_route sample_env f reg =
     (reg\<lparr>reg_routes := dict_set ''r1'' sample_manifest (reg_routes reg),
          reg_statuses := dict_set ''r1'' PRODUCTION (reg_statuses reg)\<rparr>, Inr ''r1'')"
proof -
  have "verify_hash sample_manifest = Inr ()"
    by (simp add: verify_hash_ok_iff sample_manifest_def dict_get_def sample_hash_ok)
  moreover have "verify_sig (se_mac sample_env) (se_frepr sample_env) (se_keys sample_env)
      sample_manifest = Inr ()"
    by (simp add: verify_sig_ok_iff sample_manifest_def sample_env_def hexdigest_def)
  moreover have "evaluate_license_risk ''MIT'' = ALLOW" by code_simp
  then have "verify_license_policy sample_manifest = Inr ()"
    by (simp add: verify_license_ok_iff sample_manifest_def)
  moreover have "se_schema sample_env j = None" for j by (simp add: sample_env_def)
  moreover have "map_of sample_manifest ''diagnostics'' = None"
      "map_of sample_manifest ''route_id'' = Some (JStr ''r1'')"
    by (simp_all add: sample_manifest_def)
  ultimately have "check_manifest sample_env (JObj sample_manifest) = Inr (''r1'', sample_manifest)"
    by (simp add: check_manifest_def verify_schema_def dict_item_def dict_get_def)
  then show ?thesis by (simp add: register_route_def) (simp add: sample_env_def)
qed

definition sample_registry :: registry where
  "sample_registry = fst (register_route sample_env ''f'' empty_registry)"

lemma sample_registry_reach: "registry_reach sample_env sample_registry"
  unfolding sample_registry_def
  by (rule registry_reach.step[OF registry_reach.start registry_step.register[OF surjective_pairing]])

lemma sample_verified:
  "get_verified_route sample_registry ''r1'' sample_hash ''t1'' = Inr sample_manifest"
  by (simp add: get_verified_ok_iff sample_registry_def sample_registers empty_registry_def
      get_route_def get_route_status_def) (simp add: sample_manifest_def)

section \<open>Properties\<close>



text \<open>Quarantine is effective and local: after any sequence of quarantine calls the routes
  named in it are never handed out, and every other route is handed out as before.\<close>

theorem quarantine_effective_and_local:
  assumes "foldE (\<lambda>p. quarantine_route (fst p) (snd p)) ps reg = Inr reg'"
  shows "if j \<in> fst ` set ps then get_verified_route reg' j hash tenant \<noteq> Inr d
         else get_verified_route reg' j hash tenant = get_verified_route reg j hash tenant"
  using assms reg.quarantine_all_blocks[of ps reg reg' j] reg.quarantine_all_frame[of ps reg reg' j]
  by (simp add: reg.quarantine_all_def)

theorem quarantine_effective_and_local_witness:
  "\<exists>reg'. foldE (\<lambda>p. quarantine_route (fst p) (snd p)) [(''r1'', ''bad payload'')] sample_registry = Inr reg'
      \<and> get_verified_route reg' ''r1'' sample_hash ''t1'' \<noteq> Inr sample_manifest"
proof -
  obtain reg' where q: "foldE (\<lambda>p. quarantine_route (fst p) (snd p)) [(''r1'', ''bad payload'')]
      sample_registry = Inr reg'"
    using reg.quarantine_known[OF sample_verified, of "''bad payload''"] by auto
  show ?thesis
    using q quarantine_effective_and_local[OF q, of "''r1''"] by auto
qed

text \<open>Registration undoes quarantine and revocation: registering an accepted file puts its
  route back into production whatever its status was, and the recorded reason stays behind.\<close>

theorem registration_reactivates:
  assumes "register_route env f reg = (reg', Inr i)"
  shows "get_route_status reg' i = Some PRODUCTION \<and> reg_reasons reg' = reg_reasons reg"
  using assms by (rule registered_status)

theorem registration_reactivates_witness:
  "\<exists>reg reg'. quarantine_route ''r1'' ''bad'' sample_registry = Inr reg
      \<and> get_route_status reg ''r1'' = Some QUARANTINED
      \<and> register_route sample_env ''f'' reg = (reg', Inr ''r1'')
      \<and> get_route_status reg' ''r1'' = Some PRODUCTION"
proof -
  obtain reg where q: "quarantine_route ''r1'' ''bad'' sample_registry = Inr reg"
    using reg.quarantine_known[OF sample_verified] by blast
  have st: "get_route_status reg ''r1'' = Some QUARANTINED"
    using quarantine_route_effect[OF q] by simp
  show ?thesis
    using q st registration_reactivates[OF sample_registers[of "''f''" reg]] sample_registers
    by blast
qed

end
