(* ===== verification/Runtime_State.thy ===== *)
theory Runtime_State
  imports Prelude
begin

text \<open>
  The formal state machine of the hot-swap runtime
  (neural_scalpel/experimental/runtime_state.py): the phases, the transition table, the
  machine with its history and quarantine metadata, and what the table guarantees.
\<close>

section \<open>Phases and the transition table\<close>

datatype runtime_phase =
    READY | VERIFYING | SNAPSHOT_CAPTURED | SWAPPING | SWAPPED | FORWARDING
  | ROLLING_BACK | ROUTE_QUARANTINED | WORKER_QUARANTINED

datatype quarantine_scope = ROUTE | WORKER

instantiation runtime_phase :: enum
begin

definition enum_runtime_phase :: "runtime_phase list" where
  "enum_runtime_phase =
     [READY, VERIFYING, SNAPSHOT_CAPTURED, SWAPPING, SWAPPED, FORWARDING,
      ROLLING_BACK, ROUTE_QUARANTINED, WORKER_QUARANTINED]"

definition enum_all_runtime_phase :: "(runtime_phase \<Rightarrow> bool) \<Rightarrow> bool" where
  "enum_all_runtime_phase P = list_all P enum_class.enum"

definition enum_ex_runtime_phase :: "(runtime_phase \<Rightarrow> bool) \<Rightarrow> bool" where
  "enum_ex_runtime_phase P = list_ex P enum_class.enum"

lemma phase_in_enum: "(p :: runtime_phase) \<in> set enum_class.enum"
  by (cases p) (simp_all add: enum_runtime_phase_def)

instance
proof
  show univ: "(UNIV :: runtime_phase set) = set enum_class.enum"
    using phase_in_enum by blast
  show "distinct (enum_class.enum :: runtime_phase list)"
    by (simp add: enum_runtime_phase_def)
  show "enum_class.enum_all P = Ball UNIV P" for P :: "runtime_phase \<Rightarrow> bool"
    using phase_in_enum by (auto simp: enum_all_runtime_phase_def list_all_iff)
  show "enum_class.enum_ex P = Bex UNIV P" for P :: "runtime_phase \<Rightarrow> bool"
    using phase_in_enum by (auto simp: enum_ex_runtime_phase_def list_ex_iff)
qed

end

fun phase_value :: "runtime_phase \<Rightarrow> string" where
  "phase_value READY = ''READY''"
| "phase_value VERIFYING = ''VERIFYING''"
| "phase_value SNAPSHOT_CAPTURED = ''SNAPSHOT_CAPTURED''"
| "phase_value SWAPPING = ''SWAPPING''"
| "phase_value SWAPPED = ''SWAPPED''"
| "phase_value FORWARDING = ''FORWARDING''"
| "phase_value ROLLING_BACK = ''ROLLING_BACK''"
| "phase_value ROUTE_QUARANTINED = ''ROUTE_QUARANTINED''"
| "phase_value WORKER_QUARANTINED = ''WORKER_QUARANTINED''"

fun scope_value :: "quarantine_scope \<Rightarrow> string" where
  "scope_value ROUTE = ''ROUTE''"
| "scope_value WORKER = ''WORKER''"

fun valid_transitions :: "runtime_phase \<Rightarrow> runtime_phase set" where
  "valid_transitions READY = {VERIFYING}"
| "valid_transitions VERIFYING = {SNAPSHOT_CAPTURED, ROUTE_QUARANTINED}"
| "valid_transitions SNAPSHOT_CAPTURED = {SWAPPING, ROUTE_QUARANTINED}"
| "valid_transitions SWAPPING = {SWAPPED, ROLLING_BACK, ROUTE_QUARANTINED}"
| "valid_transitions SWAPPED = {FORWARDING, ROLLING_BACK}"
| "valid_transitions FORWARDING = {ROLLING_BACK}"
| "valid_transitions ROLLING_BACK = {READY, ROUTE_QUARANTINED, WORKER_QUARANTINED}"
| "valid_transitions ROUTE_QUARANTINED = {READY, WORKER_QUARANTINED}"
| "valid_transitions WORKER_QUARANTINED = {}"

section \<open>The machine\<close>

record transition_record =
  tr_from :: runtime_phase
  tr_to :: runtime_phase
  tr_timestamp :: rat
  tr_reason :: string
  tr_route_id :: string

record state_machine =
  sm_phase :: runtime_phase
  sm_history :: "transition_record list"
  sm_scope :: "quarantine_scope option"
  sm_reason :: string

definition init_machine :: state_machine where
  "init_machine = \<lparr>sm_phase = READY, sm_history = [], sm_scope = None, sm_reason = ''''\<rparr>"

definition invalid_transition :: "runtime_phase \<Rightarrow> runtime_phase \<Rightarrow> pyexc" where
  "invalid_transition current attempted =
     PyExc InvalidStateTransitionE
       (''Invalid state transition: '' @ phase_value current @ '' -> '' @ phase_value attempted
        @ ''. Check the transition table for valid successors.'')"

text \<open>\<open>now\<close> is what \<open>time.monotonic()\<close> returns during the call.\<close>

definition transition ::
  "rat \<Rightarrow> string \<Rightarrow> string \<Rightarrow> runtime_phase \<Rightarrow> state_machine \<Rightarrow> state_machine result" where
  "transition now reason route_id target sm =
     (if target \<notin> valid_transitions (sm_phase sm)
      then Inl (invalid_transition (sm_phase sm) target)
      else
        let rec = \<lparr>tr_from = sm_phase sm, tr_to = target, tr_timestamp = now,
                   tr_reason = reason, tr_route_id = route_id\<rparr>;
            sm1 = sm\<lparr>sm_history := sm_history sm @ [rec]\<rparr>;
            sm2 = (if target = ROUTE_QUARANTINED
                   then sm1\<lparr>sm_scope := Some ROUTE, sm_reason := reason\<rparr>
                   else if target = WORKER_QUARANTINED
                   then sm1\<lparr>sm_scope := Some WORKER, sm_reason := reason\<rparr>
                   else if target = READY
                   then sm1\<lparr>sm_scope := None, sm_reason := ''''\<rparr>
                   else sm1)
        in Inr (sm2\<lparr>sm_phase := target\<rparr>))"

definition is_quarantined :: "state_machine \<Rightarrow> bool" where
  "is_quarantined sm \<longleftrightarrow> sm_phase sm \<in> {ROUTE_QUARANTINED, WORKER_QUARANTINED}"

definition is_terminal :: "state_machine \<Rightarrow> bool" where
  "is_terminal sm \<longleftrightarrow> sm_phase sm = WORKER_QUARANTINED"

definition is_ready :: "state_machine \<Rightarrow> bool" where
  "is_ready sm \<longleftrightarrow> sm_phase sm = READY"

definition can_accept_requests :: "state_machine \<Rightarrow> bool" where
  "can_accept_requests sm \<longleftrightarrow> sm_phase sm = READY"

definition last_transition :: "state_machine \<Rightarrow> transition_record option" where
  "last_transition sm = (if sm_history sm \<noteq> [] then Some (last (sm_history sm)) else None)"

definition machine_to_dict :: "state_machine \<Rightarrow> (string, json) dict" where
  "machine_to_dict sm =
     [(''phase'', JStr (phase_value (sm_phase sm))),
      (''quarantine_scope'',
         case sm_scope sm of None \<Rightarrow> JNull | Some sc \<Rightarrow> JStr (scope_value sc)),
      (''quarantine_reason'', JStr (sm_reason sm)),
      (''transition_count'', JInt (int (length (sm_history sm)))),
      (''is_terminal'', JBool (is_terminal sm))]"

section \<open>What one transition does\<close>

lemma transition_ok_iff:
  "(\<exists>sm'. transition now r i t sm = Inr sm') \<longleftrightarrow> t \<in> valid_transitions (sm_phase sm)"
  by (auto simp: transition_def Let_def)

lemma transition_phase: "transition now r i t sm = Inr sm' \<Longrightarrow> sm_phase sm' = t"
  by (auto simp: transition_def Let_def split: if_splits)

lemma transition_valid:
  "transition now r i t sm = Inr sm' \<Longrightarrow> t \<in> valid_transitions (sm_phase sm)"
  by (auto simp: transition_def split: if_splits)

lemma transition_history:
  "transition now r i t sm = Inr sm' \<Longrightarrow>
     sm_history sm' = sm_history sm @
       [\<lparr>tr_from = sm_phase sm, tr_to = t, tr_timestamp = now, tr_reason = r, tr_route_id = i\<rparr>]"
  by (auto simp: transition_def Let_def split: if_splits)

lemma transition_scope:
  "transition now r i t sm = Inr sm' \<Longrightarrow>
     sm_scope sm' = (if t = ROUTE_QUARANTINED then Some ROUTE
                     else if t = WORKER_QUARANTINED then Some WORKER
                     else if t = READY then None else sm_scope sm)"
  by (auto simp: transition_def Let_def split: if_splits)

lemmas transition_facts =
  transition_phase transition_valid transition_history transition_scope

lemma transition_error:
  "transition now r i t sm = Inl e \<Longrightarrow> e = invalid_transition (sm_phase sm) t"
  by (auto simp: transition_def Let_def split: if_splits)

section \<open>Reachable machines\<close>

text \<open>One rule per call of \<open>transition\<close> that returns; a call that raises leaves the machine.\<close>

inductive machine_step :: "state_machine \<Rightarrow> state_machine \<Rightarrow> bool" where
  move: "transition now r i t sm = Inr sm' \<Longrightarrow> machine_step sm sm'"

inductive_cases machine_stepE: "machine_step sm sm'"

inductive machine_reach :: "state_machine \<Rightarrow> bool" where
  start: "machine_reach init_machine"
| step: "machine_reach sm \<Longrightarrow> machine_step sm sm' \<Longrightarrow> machine_reach sm'"

text \<open>The history is a path through the table that starts at \<open>READY\<close>.\<close>

fun phase_path :: "runtime_phase \<Rightarrow> runtime_phase list \<Rightarrow> bool" where
  "phase_path p [] = True"
| "phase_path p (q # qs) = (q \<in> valid_transitions p \<and> phase_path q qs)"

fun chained :: "runtime_phase \<Rightarrow> transition_record list \<Rightarrow> runtime_phase \<Rightarrow> bool" where
  "chained p [] q = (p = q)"
| "chained p (r # rs) q = (tr_from r = p \<and> tr_to r \<in> valid_transitions p \<and> chained (tr_to r) rs q)"

lemma chained_snoc:
  "chained p (rs @ [r]) q \<longleftrightarrow>
     (\<exists>m. chained p rs m \<and> tr_from r = m \<and> tr_to r \<in> valid_transitions m \<and> q = tr_to r)"
  by (induction rs arbitrary: p) auto

definition scope_of_phase :: "runtime_phase \<Rightarrow> quarantine_scope option" where
  "scope_of_phase p = (if p = ROUTE_QUARANTINED then Some ROUTE
                       else if p = WORKER_QUARANTINED then Some WORKER else None)"

definition machine_inv :: "state_machine \<Rightarrow> bool" where
  "machine_inv sm \<longleftrightarrow>
     chained READY (sm_history sm) (sm_phase sm) \<and> sm_scope sm = scope_of_phase (sm_phase sm)"

lemma machine_inv_init: "machine_inv init_machine"
  by (simp add: machine_inv_def init_machine_def scope_of_phase_def)

lemma machine_inv_step: "machine_step sm sm' \<Longrightarrow> machine_inv sm \<Longrightarrow> machine_inv sm'"
proof (elim machine_stepE)
  fix now r i t
  assume tr: "transition now r i t sm = Inr sm'" and inv: "machine_inv sm"
  have "chained READY (sm_history sm') (sm_phase sm')"
    using inv transition_facts[OF tr] by (auto simp: machine_inv_def chained_snoc)
  moreover have "sm_scope sm' = scope_of_phase (sm_phase sm')"
    using inv transition_facts[OF tr]
    by (cases "sm_phase sm") (auto simp: machine_inv_def scope_of_phase_def)
  ultimately show "machine_inv sm'" by (simp add: machine_inv_def)
qed

lemma machine_inv_reach: "machine_reach sm \<Longrightarrow> machine_inv sm"
  by (induction rule: machine_reach.induct) (auto intro: machine_inv_init machine_inv_step)

lemma forwarding_only_after_swapped:
  "FORWARDING \<in> valid_transitions p \<longleftrightarrow> p = SWAPPED"
  by (cases p) auto

lemma path_from_swapped:
  "phase_path p ps \<Longrightarrow> p \<in> {SWAPPED, FORWARDING} \<Longrightarrow> READY \<in> set ps \<Longrightarrow>
     ROLLING_BACK \<in> set (takeWhile (\<lambda>q. q \<noteq> READY) ps)"
proof (induction ps arbitrary: p)
  case Nil
  then show ?case by simp
next
  case (Cons q qs)
  then have "q = FORWARDING \<or> q = ROLLING_BACK" by auto
  then show ?case
  proof
    assume q: "q = FORWARDING"
    with Cons.prems have "phase_path FORWARDING qs" "READY \<in> set qs" by auto
    then show ?thesis using Cons.IH[of FORWARDING] q by simp
  next
    assume "q = ROLLING_BACK"
    then show ?thesis by simp
  qed
qed

section \<open>Properties\<close>

text \<open>In every machine reached from the initial one by successful calls of \<open>transition\<close>,
  the history is an unbroken path through the transition table from READY to the current
  phase, and the quarantine scope is set exactly in the two quarantine phases.\<close>

theorem reachable_machine_consistent:
  assumes "machine_reach sm"
  shows "chained READY (sm_history sm) (sm_phase sm)
         \<and> sm_scope sm = scope_of_phase (sm_phase sm)
         \<and> (is_quarantined sm \<longleftrightarrow> sm_scope sm \<noteq> None)"
proof -
  have "machine_inv sm" using assms by (rule machine_inv_reach)
  then show ?thesis
    by (auto simp: machine_inv_def is_quarantined_def scope_of_phase_def split: if_splits)
qed

theorem reachable_machine_consistent_witness:
  "\<exists>sm. machine_reach sm \<and> sm_phase sm = VERIFYING \<and> sm_scope sm = None
      \<and> chained READY (sm_history sm) VERIFYING"
proof -
  obtain sm where tr: "transition 0 [] [] VERIFYING init_machine = Inr sm"
    by (auto simp: transition_def init_machine_def)
  have r: "machine_reach sm"
    using machine_reach.step[OF machine_reach.start machine_step.move[OF tr]] .
  have "sm_phase sm = VERIFYING" using transition_phase[OF tr] .
  then show ?thesis
    using r reachable_machine_consistent[OF r] by (auto simp: scope_of_phase_def)
qed

text \<open>Weights that were swapped in are always rolled back before the runtime is ready
  again: every path of the transition table from SWAPPED or FORWARDING that visits READY
  visits ROLLING\_BACK before it does.\<close>

theorem swapped_rolls_back_before_ready:
  assumes "phase_path p ps" and "p \<in> {SWAPPED, FORWARDING}" and "READY \<in> set ps"
  shows "ROLLING_BACK \<in> set (takeWhile (\<lambda>q. q \<noteq> READY) ps)"
  using assms by (rule path_from_swapped)

theorem swapped_rolls_back_before_ready_witness:
  "phase_path SWAPPED [FORWARDING, ROLLING_BACK, READY]
   \<and> ROLLING_BACK \<in> set (takeWhile (\<lambda>q. q \<noteq> READY) [FORWARDING, ROLLING_BACK, READY])"
proof -
  have p: "phase_path SWAPPED [FORWARDING, ROLLING_BACK, READY]" by simp
  show ?thesis
    using p swapped_rolls_back_before_ready[OF p] by simp
qed

end
