(* ===== verification/Failure_Policy.thy ===== *)
theory Failure_Policy
  imports Runtime_State
begin

text \<open>
  The failure policy (neural_scalpel/experimental/failure_policy.py): the catalogue of failure
  classes, the policy table in the source's order, and \<open>evaluate_failure\<close>, its only reader.
\<close>

section \<open>Failure classes, actions and verdicts\<close>

datatype failure_class =
    PAYLOAD_FILE_NOT_FOUND
  | PAYLOAD_SHA256_MISMATCH
  | PAYLOAD_HEADER_CORRUPTED
  | PAYLOAD_TENSOR_KEY_MISSING
  | PAYLOAD_SHAPE_MISMATCH
  | PAYLOAD_DTYPE_MISMATCH
  | PAYLOAD_NAN_INF_DETECTED
  | PAYLOAD_TOO_LARGE
  | PAYLOAD_IO_ERROR
  | SWAP_TARGET_LAYER_NOT_FOUND
  | SWAP_LOCK_ACQUISITION_FAILED
  | SWAP_VRAM_INSUFFICIENT
  | SWAP_DELTA_APPLICATION_ERROR
  | SWAP_STATE_STUCK
  | ROLLBACK_CHECKSUM_MISMATCH
  | ROLLBACK_EXCEPTION
  | ROLLBACK_PARTIAL_RESTORE
  | INFERENCE_EXCEPTION
  | STATE_TRANSITION_INVALID

fun failure_value :: "failure_class \<Rightarrow> string" where
  "failure_value PAYLOAD_FILE_NOT_FOUND = ''payload_file_not_found''"
| "failure_value PAYLOAD_SHA256_MISMATCH = ''payload_sha256_mismatch''"
| "failure_value PAYLOAD_HEADER_CORRUPTED = ''payload_header_corrupted''"
| "failure_value PAYLOAD_TENSOR_KEY_MISSING = ''payload_tensor_key_missing''"
| "failure_value PAYLOAD_SHAPE_MISMATCH = ''payload_shape_mismatch''"
| "failure_value PAYLOAD_DTYPE_MISMATCH = ''payload_dtype_mismatch''"
| "failure_value PAYLOAD_NAN_INF_DETECTED = ''payload_nan_inf_detected''"
| "failure_value PAYLOAD_TOO_LARGE = ''payload_too_large''"
| "failure_value PAYLOAD_IO_ERROR = ''payload_io_error''"
| "failure_value SWAP_TARGET_LAYER_NOT_FOUND = ''swap_target_layer_not_found''"
| "failure_value SWAP_LOCK_ACQUISITION_FAILED = ''swap_lock_acquisition_failed''"
| "failure_value SWAP_VRAM_INSUFFICIENT = ''swap_vram_insufficient''"
| "failure_value SWAP_DELTA_APPLICATION_ERROR = ''swap_delta_application_error''"
| "failure_value SWAP_STATE_STUCK = ''swap_state_stuck''"
| "failure_value ROLLBACK_CHECKSUM_MISMATCH = ''rollback_checksum_mismatch''"
| "failure_value ROLLBACK_EXCEPTION = ''rollback_exception''"
| "failure_value ROLLBACK_PARTIAL_RESTORE = ''rollback_partial_restore''"
| "failure_value INFERENCE_EXCEPTION = ''inference_exception''"
| "failure_value STATE_TRANSITION_INVALID = ''state_transition_invalid''"

datatype remediation_action =
    REJECT_REQUEST | QUARANTINE_ROUTE | QUARANTINE_WORKER | ABORT_AND_ROLLBACK

fun action_value :: "remediation_action \<Rightarrow> string" where
  "action_value REJECT_REQUEST = ''reject_request''"
| "action_value QUARANTINE_ROUTE = ''quarantine_route''"
| "action_value QUARANTINE_WORKER = ''quarantine_worker''"
| "action_value ABORT_AND_ROLLBACK = ''abort_and_rollback''"

record failure_verdict =
  fv_failure_class :: failure_class
  fv_action :: remediation_action
  fv_scope :: "quarantine_scope option"
  fv_target_phase :: runtime_phase
  fv_http_status :: int
  fv_message :: string
  fv_is_critical :: bool

definition policy_entry ::
  "failure_class \<Rightarrow> remediation_action \<Rightarrow> quarantine_scope option \<Rightarrow> runtime_phase \<Rightarrow> int \<Rightarrow>
   string \<Rightarrow> bool \<Rightarrow> failure_class \<times> failure_verdict" where
  "policy_entry fc action sc ph status msg critical =
     (fc, \<lparr>fv_failure_class = fc, fv_action = action, fv_scope = sc, fv_target_phase = ph,
           fv_http_status = status, fv_message = msg, fv_is_critical = critical\<rparr>)"

section \<open>The policy table\<close>

definition policy_entries :: "(failure_class, failure_verdict) dict" where
  "policy_entries =
    [policy_entry PAYLOAD_FILE_NOT_FOUND REJECT_REQUEST (Some ROUTE) ROUTE_QUARANTINED 503
       ''Payload file not found. Route quarantined.'' False,
     policy_entry PAYLOAD_SHA256_MISMATCH QUARANTINE_ROUTE (Some ROUTE) ROUTE_QUARANTINED 503
       ''Payload SHA-256 integrity check failed. Route quarantined.'' True,
     policy_entry PAYLOAD_HEADER_CORRUPTED QUARANTINE_ROUTE (Some ROUTE) ROUTE_QUARANTINED 503
       ''Safetensors header corrupted. Route quarantined.'' False,
     policy_entry PAYLOAD_TENSOR_KEY_MISSING REJECT_REQUEST (Some ROUTE) ROUTE_QUARANTINED 503
       ''Required tensor key missing from payload. Route quarantined.'' False,
     policy_entry PAYLOAD_SHAPE_MISMATCH REJECT_REQUEST (Some ROUTE) ROUTE_QUARANTINED 503
       ''Tensor shape mismatch in payload. Route quarantined.'' False,
     policy_entry PAYLOAD_DTYPE_MISMATCH REJECT_REQUEST (Some ROUTE) ROUTE_QUARANTINED 503
       ''Tensor dtype mismatch in payload. Route quarantined.'' False,
     policy_entry PAYLOAD_NAN_INF_DETECTED QUARANTINE_ROUTE (Some ROUTE) ROUTE_QUARANTINED 503
       ''NaN/Inf detected in payload tensors. Route quarantined.'' True,
     policy_entry PAYLOAD_TOO_LARGE REJECT_REQUEST None READY 413
       ''Payload exceeds maximum allowed size.'' False,
     policy_entry PAYLOAD_IO_ERROR REJECT_REQUEST (Some ROUTE) ROUTE_QUARANTINED 503
       ''I/O error reading payload. Route quarantined.'' False,
     policy_entry SWAP_TARGET_LAYER_NOT_FOUND QUARANTINE_ROUTE (Some ROUTE) ROUTE_QUARANTINED 503
       ''Target layer not found. Route quarantined.'' False,
     policy_entry SWAP_LOCK_ACQUISITION_FAILED REJECT_REQUEST None READY 503
       ''Failed to acquire swap lock. Retry later.'' False,
     policy_entry SWAP_VRAM_INSUFFICIENT ABORT_AND_ROLLBACK (Some ROUTE) ROUTE_QUARANTINED 503
       ''Insufficient VRAM for swap. Route quarantined.'' False,
     policy_entry SWAP_DELTA_APPLICATION_ERROR ABORT_AND_ROLLBACK (Some ROUTE) ROLLING_BACK 503
       ''Error applying delta during swap. Rolling back.'' False,
     policy_entry SWAP_STATE_STUCK QUARANTINE_WORKER (Some WORKER) WORKER_QUARANTINED 503
       ''Runtime state stuck. Worker quarantined.'' True,
     policy_entry ROLLBACK_CHECKSUM_MISMATCH QUARANTINE_WORKER (Some WORKER) WORKER_QUARANTINED 503
       ''CRITICAL: Rollback checksum mismatch. Worker quarantined.'' True,
     policy_entry ROLLBACK_EXCEPTION QUARANTINE_WORKER (Some WORKER) WORKER_QUARANTINED 503
       ''CRITICAL: Exception during rollback. Worker quarantined.'' True,
     policy_entry ROLLBACK_PARTIAL_RESTORE QUARANTINE_WORKER (Some WORKER) WORKER_QUARANTINED 503
       ''CRITICAL: Partial rollback. Worker quarantined.'' True,
     policy_entry INFERENCE_EXCEPTION ABORT_AND_ROLLBACK None ROLLING_BACK 500
       ''Inference failed. Rolling back.'' False,
     policy_entry STATE_TRANSITION_INVALID QUARANTINE_WORKER (Some WORKER) WORKER_QUARANTINED 503
       ''CRITICAL: Invalid state transition. Worker quarantined.'' True]"

definition policy_table :: "(failure_class, failure_verdict) dict" where
  "policy_table = dict_of policy_entries"

definition unknown_verdict :: failure_verdict where
  "unknown_verdict =
     \<lparr>fv_failure_class = STATE_TRANSITION_INVALID, fv_action = QUARANTINE_WORKER,
      fv_scope = Some WORKER, fv_target_phase = WORKER_QUARANTINED, fv_http_status = 503,
      fv_message = ''Unknown failure. Worker quarantined as precaution.'',
      fv_is_critical = True\<rparr>"

definition evaluate_failure :: "failure_class \<Rightarrow> failure_verdict" where
  "evaluate_failure fc = dict_get policy_table fc unknown_verdict"

section \<open>Reading the table\<close>

text \<open>Every class has one row, so the verdict of a class is its row, and what all rows have in
  common all verdicts have. The rows are checked one by one, with the entries folded.\<close>

lemma policy_entries_wf: "dict_wf policy_entries"
  by (simp add: dict_wf_def policy_entries_def policy_entry_def)

lemma policy_entries_keys: "fc \<in> set (map fst policy_entries)"
  by (cases fc) (simp_all add: policy_entries_def policy_entry_def)

lemma policy_table_keys: "has_key policy_table fc"
  using policy_entries_keys[of fc]
  by (simp add: has_key_def policy_table_def map_of_dict_of policy_entries_wf map_of_eq_None_iff)

lemma evaluate_failure_row: "(fc, evaluate_failure fc) \<in> set policy_entries"
proof -
  obtain v where "map_of policy_entries fc = Some v"
    using policy_entries_keys[of fc] by (metis list.set_map map_of_eq_None_iff not_None_eq)
  then show ?thesis
    by (simp add: evaluate_failure_def dict_get_def policy_table_def map_of_dict_of
        policy_entries_wf map_of_SomeD)
qed

lemma policy_rowsI:
  assumes "list_all (\<lambda>(fc, v). P fc v) policy_entries"
  shows "P fc (evaluate_failure fc)"
  using assms evaluate_failure_row[of fc] by (auto simp: list_all_iff)

definition payload_failures :: "failure_class set" where
  "payload_failures =
     {PAYLOAD_FILE_NOT_FOUND, PAYLOAD_SHA256_MISMATCH, PAYLOAD_HEADER_CORRUPTED,
      PAYLOAD_TENSOR_KEY_MISSING, PAYLOAD_SHAPE_MISMATCH, PAYLOAD_DTYPE_MISMATCH,
      PAYLOAD_NAN_INF_DETECTED, PAYLOAD_TOO_LARGE, PAYLOAD_IO_ERROR}"

lemma payload_verdict_quarantines_route:
  "fc \<in> payload_failures \<longrightarrow>
     fv_target_phase (evaluate_failure fc) = (if fc = PAYLOAD_TOO_LARGE then READY else ROUTE_QUARANTINED)
     \<and> fv_scope (evaluate_failure fc) = (if fc = PAYLOAD_TOO_LARGE then None else Some ROUTE)"
  by (rule policy_rowsI) (simp add: payload_failures_def policy_entries_def policy_entry_def)

lemma rollback_verdicts_quarantine_worker:
  "fc \<in> {ROLLBACK_CHECKSUM_MISMATCH, ROLLBACK_EXCEPTION, ROLLBACK_PARTIAL_RESTORE} \<longrightarrow>
     fv_target_phase (evaluate_failure fc) = WORKER_QUARANTINED
     \<and> fv_scope (evaluate_failure fc) = Some WORKER"
  by (rule policy_rowsI) (simp add: policy_entries_def policy_entry_def)

section \<open>Properties\<close>

text \<open>The failure policy is total and fails closed: every failure class has its own row, the
  verdict names that class, the HTTP status is always an error, the worker is quarantined
  exactly when the action says so, and the scope is the one of the target phase in every row
  but the one for a delta that could not be applied.\<close>

theorem failure_policy_fail_closed:
  "has_key policy_table fc
   \<and> fv_failure_class (evaluate_failure fc) = fc
   \<and> 400 \<le> fv_http_status (evaluate_failure fc)
   \<and> (fv_action (evaluate_failure fc) = QUARANTINE_WORKER)
       = (fv_target_phase (evaluate_failure fc) = WORKER_QUARANTINED)
   \<and> (fv_scope (evaluate_failure fc) = scope_of_phase (fv_target_phase (evaluate_failure fc)))
       = (fc \<noteq> SWAP_DELTA_APPLICATION_ERROR)"
  by (rule policy_rowsI)
     (simp add: policy_entries_def policy_entry_def scope_of_phase_def policy_table_keys)

end
