(* ===== verification/Route_Payload.thy ===== *)
theory Route_Payload
  imports Route_Policy Failure_Policy
begin

text \<open>
  The payload of a route: where it lies and how it is loaded (route/payload.py), and the
  validation that runs before any weight is touched (route/payload_validator.py). Tensors are
  values of a type \<open>'t\<close>; what the code asks of the file system, of safetensors and of torch is
  a record of functions. Paths are POSIX paths.
\<close>

section \<open>The outside world\<close>

record 't payload_env =
  pe_exists :: "string \<Rightarrow> bool"
  pe_size :: "string \<Rightarrow> int result"
  pe_read :: "string \<Rightarrow> nat list result"
  pe_sha256 :: "nat list \<Rightarrow> string"
  pe_load_file :: "string \<Rightarrow> (string, 't) dict result"
  pe_shape :: "'t \<Rightarrow> int list"
  pe_dtype :: "'t \<Rightarrow> string"
  pe_has_nan :: "'t \<Rightarrow> bool"
  pe_has_inf :: "'t \<Rightarrow> bool"

section \<open>Hashing a file in chunks\<close>

text \<open>\<open>iter(lambda: f.read(n), b'')\<close>: blocks of \<open>n\<close> bytes until a read returns none.\<close>

function read_chunks :: "nat \<Rightarrow> nat list \<Rightarrow> nat list list" where
  "read_chunks n bs =
     (if n = 0 \<or> bs = [] then [] else take n bs # read_chunks n (drop n bs))"
  by pat_completeness auto
termination
  by (relation "measure (\<lambda>(n, bs). length bs)") auto

declare read_chunks.simps [simp del]

text \<open>A hash object is the bytes it was fed; \<open>update\<close> appends to them.\<close>

definition compute_file_sha256 :: "'t payload_env \<Rightarrow> string \<Rightarrow> string result" where
  "compute_file_sha256 env filepath =
     bindE (pe_read env filepath) (\<lambda>bs.
       Inr (pe_sha256 env (foldl (\<lambda>h chunk. h @ chunk) [] (read_chunks 65536 bs))))"

section \<open>Payload paths\<close>

definition path_parts :: "string \<Rightarrow> string list" where
  "path_parts s = filter (\<lambda>p. p \<noteq> [] \<and> p \<noteq> ''.'') (split_on (CHR ''/'') s)"

definition path_root :: "string \<Rightarrow> string" where
  "path_root s = (if starts_with s ''//'' \<and> \<not> starts_with s ''///'' then ''//''
                  else if starts_with s ''/'' then ''/'' else '''')"

definition path_str :: "string \<Rightarrow> string list \<Rightarrow> string" where
  "path_str anchor parts =
     (if anchor = [] \<and> parts = [] then ''.'' else anchor @ join ''/'' parts)"

definition is_absolute :: "string \<Rightarrow> bool" where
  "is_absolute s \<longleftrightarrow> path_root s \<noteq> []"

text \<open>\<open>str(Path(a) / b)\<close> for a relative \<open>b\<close>.\<close>

definition path_join :: "string \<Rightarrow> string \<Rightarrow> string" where
  "path_join a b = path_str (path_root a) (path_parts a @ path_parts b)"

definition strip_file_scheme :: "string \<Rightarrow> string" where
  "strip_file_scheme uri =
     (if starts_with uri ''file://'' then drop 7 uri
      else if starts_with uri ''file:'' then drop 5 uri else uri)"

definition resolve_payload_path :: "manifest \<Rightarrow> string option \<Rightarrow> string option result" where
  "resolve_payload_path route_data base_dir =
     (let payload_block = map_of route_data ''payload'' in
      if \<not> opt_truthy payload_block then Inr None
      else bindE (as_dict (the payload_block)) (\<lambda>block.
        let uri = dict_get block ''uri'' (JStr []) in
        if \<not> truthy uri then Inr None
        else bindE (case uri of JStr s \<Rightarrow> Inr s
                      | _ \<Rightarrow> Inl (PyExc AttributeErrorE ''object has no attribute startswith''))
             (\<lambda>s. let u = strip_file_scheme s in
                  case base_dir of
                    Some b \<Rightarrow>
                      if \<not> is_absolute u \<and> b \<noteq> [] then Inr (Some (path_join b u))
                      else Inr (Some (path_str (path_root u) (path_parts u)))
                  | None \<Rightarrow> Inr (Some (path_str (path_root u) (path_parts u))))))"

section \<open>Layer specifications\<close>

text \<open>The fields both loops read from one entry of \<open>layers\<close>. The schema makes the name a
  string; another JSON value is refused here.\<close>

record layer_spec =
  ls_name :: string
  ls_key :: json
  ls_shape :: "json option"
  ls_dtype :: "json option"

definition parse_layer :: "json \<Rightarrow> layer_spec result" where
  "parse_layer j =
     (case j of
        JObj d \<Rightarrow>
          bindE (dict_item d ''name'') (\<lambda>nm.
          bindE (as_str nm) (\<lambda>name.
            Inr \<lparr>ls_name = name, ls_key = dict_get d ''payload_key'' nm,
                 ls_shape = map_of d ''shape'', ls_dtype = map_of d ''dtype''\<rparr>))
      | _ \<Rightarrow> Inl (PyExc TypeErrorE ''indices must be integers''))"

text \<open>\<open>payload_key in all_tensors\<close>.\<close>

fun find_tensor :: "(string, 't) dict \<Rightarrow> json \<Rightarrow> 't option result" where
  "find_tensor ts (JStr k) = Inr (map_of ts k)"
| "find_tensor ts (JList xs) = Inl (PyExc TypeErrorE ''unhashable type: list'')"
| "find_tensor ts (JObj d) = Inl (PyExc TypeErrorE ''unhashable type: dict'')"
| "find_tensor ts j = Inr None"

definition actual_dtype :: "'t payload_env \<Rightarrow> 't \<Rightarrow> string" where
  "actual_dtype env t = replace_all ''torch.'' '''' (pe_dtype env t)"

definition shape_bad :: "'t payload_env \<Rightarrow> layer_spec \<Rightarrow> 't \<Rightarrow> bool" where
  "shape_bad env ls t \<longleftrightarrow>
     opt_truthy (ls_shape ls) \<and> \<not> shape_eq (pe_shape env t) (the (ls_shape ls))"

definition dtype_bad :: "'t payload_env \<Rightarrow> layer_spec \<Rightarrow> 't \<Rightarrow> bool" where
  "dtype_bad env ls t \<longleftrightarrow>
     opt_truthy (ls_dtype ls) \<and> ls_dtype ls \<noteq> Some (JStr (actual_dtype env t))"

section \<open>Loading\<close>

definition verify_payload_integrity :: "'t payload_env \<Rightarrow> string \<Rightarrow> json \<Rightarrow> bool result" where
  "verify_payload_integrity env filepath expected_sha256 =
     bindE (compute_file_sha256 env filepath) (\<lambda>actual.
       if JStr actual \<noteq> expected_sha256
       then Inl (PyExc ValueErrorE (''Payload integrity check FAILED. Actual: '' @ actual))
       else Inr True)"

definition load_layer ::
  "'t payload_env \<Rightarrow> (string, 't) dict \<Rightarrow> json \<Rightarrow> (string, 't) dict \<Rightarrow> (string, 't) dict result" where
  "load_layer env all_tensors j deltas =
     bindE (parse_layer j) (\<lambda>ls.
     bindE (find_tensor all_tensors (ls_key ls)) (\<lambda>found.
       case found of
         None \<Rightarrow> Inl (PyExc KeyErrorE ''Payload key not found'')
       | Some delta \<Rightarrow>
           if shape_bad env ls delta
           then Inl (PyExc ValueErrorE (''Shape mismatch for '' @ ls_name ls))
           else if dtype_bad env ls delta
           then Inl (PyExc ValueErrorE (''Dtype mismatch for '' @ ls_name ls))
           else Inr (dict_set (ls_name ls) delta deltas)))"

definition load_payload_deltas ::
  "'t payload_env \<Rightarrow> manifest \<Rightarrow> string option \<Rightarrow> (string, 't) dict result" where
  "load_payload_deltas env route_data base_dir =
     bindE (resolve_payload_path route_data base_dir) (\<lambda>path.
       case path of
         None \<Rightarrow> Inr []
       | Some filepath \<Rightarrow>
           if \<not> pe_exists env filepath
           then Inl (PyExc FileNotFoundErrorE (''Payload file not found: '' @ filepath))
           else
             bindE (dict_item route_data ''payload'') (\<lambda>pj.
             bindE (as_dict pj) (\<lambda>payload_block.
             bindE (case map_of payload_block ''sha256'' of
                      None \<Rightarrow> Inr True
                    | Some sha \<Rightarrow> verify_payload_integrity env filepath sha) (\<lambda>_.
             bindE (pe_load_file env filepath) (\<lambda>all_tensors.
             bindE (json_iter (dict_get route_data ''layers'' (JList []))) (\<lambda>layers.
               foldE (load_layer env all_tensors) layers []))))))"

section \<open>Validation\<close>

text \<open>\<open>PayloadValidationError\<close> carries its failure class; other exceptions pass through.\<close>

datatype payload_error = PayloadError failure_class string | OtherError pyexc

definition payload_exc :: "payload_error \<Rightarrow> pyexc" where
  "payload_exc pe = (case pe of
     PayloadError fc detail \<Rightarrow>
       PyExc PayloadValidationErrorE (''['' @ failure_value fc @ ''] '' @ detail)
   | OtherError e \<Rightarrow> e)"

definition lift_other :: "'a result \<Rightarrow> payload_error + 'a" where
  "lift_other r = (case r of Inl e \<Rightarrow> Inl (OtherError e) | Inr x \<Rightarrow> Inr x)"

text \<open>\<open>except OSError\<close>: only these become a payload error.\<close>

definition catch_os_error :: "string \<Rightarrow> 'a result \<Rightarrow> payload_error + 'a" where
  "catch_os_error msg r = (case r of
     Inl e \<Rightarrow> if is_os_error e then Inl (PayloadError PAYLOAD_IO_ERROR (msg @ exc_msg e))
              else Inl (OtherError e)
   | Inr x \<Rightarrow> Inr x)"

definition classify_load_error :: "pyexc \<Rightarrow> payload_error" where
  "classify_load_error e =
     (let err_msg = str_lower (exc_msg e) in
      if substring ''header'' err_msg \<or> substring ''invalid'' err_msg \<or> substring ''corrupt'' err_msg
      then PayloadError PAYLOAD_HEADER_CORRUPTED (''Safetensors header parse error: '' @ exc_msg e)
      else PayloadError PAYLOAD_IO_ERROR (''Failed to load safetensors file: '' @ exc_msg e))"

definition validate_layer ::
  "'t payload_env \<Rightarrow> (string, 't) dict \<Rightarrow> json \<Rightarrow> (string, 't) dict \<Rightarrow>
   payload_error + (string, 't) dict" where
  "validate_layer env all_tensors j deltas =
     bindE (lift_other (parse_layer j)) (\<lambda>ls.
     bindE (lift_other (find_tensor all_tensors (ls_key ls))) (\<lambda>found.
       case found of
         None \<Rightarrow> Inl (PayloadError PAYLOAD_TENSOR_KEY_MISSING ''Key not in payload.'')
       | Some delta \<Rightarrow>
           if shape_bad env ls delta
           then Inl (PayloadError PAYLOAD_SHAPE_MISMATCH (''Layer '' @ ls_name ls))
           else if dtype_bad env ls delta
           then Inl (PayloadError PAYLOAD_DTYPE_MISMATCH (''Layer '' @ ls_name ls))
           else if pe_has_nan env delta
           then Inl (PayloadError PAYLOAD_NAN_INF_DETECTED
                  (''Layer '' @ ls_name ls @ '': NaN values detected in delta tensor''))
           else if pe_has_inf env delta
           then Inl (PayloadError PAYLOAD_NAN_INF_DETECTED
                  (''Layer '' @ ls_name ls @ '': Inf values detected in delta tensor''))
           else Inr (dict_set (ls_name ls) delta deltas)))"

definition check_sha :: "'t payload_env \<Rightarrow> string \<Rightarrow> json option \<Rightarrow> payload_error + unit" where
  "check_sha env filepath expected_sha =
     (if \<not> opt_truthy expected_sha then Inr ()
      else bindE (catch_os_error ''I/O error computing SHA-256: '' (compute_file_sha256 env filepath))
             (\<lambda>actual_sha.
               if Some (JStr actual_sha) \<noteq> expected_sha
               then Inl (PayloadError PAYLOAD_SHA256_MISMATCH (''actual: '' @ actual_sha))
               else Inr ()))"

definition validate_payload ::
  "'t payload_env \<Rightarrow> manifest \<Rightarrow> string option \<Rightarrow> int \<Rightarrow> payload_error + (string, 't) dict" where
  "validate_payload env route_data base_dir max_payload_bytes =
     bindE (lift_other (resolve_payload_path route_data base_dir)) (\<lambda>path.
       case path of
         None \<Rightarrow> Inr []
       | Some filepath \<Rightarrow>
           if \<not> pe_exists env filepath
           then Inl (PayloadError PAYLOAD_FILE_NOT_FOUND (''Payload file does not exist: '' @ filepath))
           else
             bindE (catch_os_error ''Cannot stat payload file: '' (pe_size env filepath)) (\<lambda>file_size.
             if file_size > max_payload_bytes
             then Inl (PayloadError PAYLOAD_TOO_LARGE ''Payload size exceeds limit'')
             else
               bindE (lift_other (as_dict (dict_get route_data ''payload'' (JObj [])))) (\<lambda>block.
               bindE (check_sha env filepath (map_of block ''sha256'')) (\<lambda>_.
               bindE (case pe_load_file env filepath of
                        Inl e \<Rightarrow> Inl (classify_load_error e) | Inr ts \<Rightarrow> Inr ts) (\<lambda>all_tensors.
               bindE (lift_other (json_iter (dict_get route_data ''layers'' (JList [])))) (\<lambda>layers.
                 foldE (validate_layer env all_tensors) layers []))))))"

section \<open>Facts\<close>

lemma foldl_append_chunks: "foldl (\<lambda>h c. h @ c) h0 (read_chunks n bs) = h0 @ (if n = 0 then [] else bs)"
proof (induction n bs arbitrary: h0 rule: read_chunks.induct)
  case (1 n bs)
  show ?case
  proof (cases "n = 0 \<or> bs = []")
    case True
    then show ?thesis by (auto simp: read_chunks.simps[of n bs])
  next
    case False
    then show ?thesis using 1[OF False] by (simp add: read_chunks.simps[of n bs])
  qed
qed

lemma compute_file_sha256_whole:
  "compute_file_sha256 env f = bindE (pe_read env f) (\<lambda>bs. Inr (pe_sha256 env bs))"
  by (simp add: compute_file_sha256_def foldl_append_chunks)

lemma lift_other_simps [simp]:
  "lift_other (Inr x) = Inr x" "lift_other (Inl e) = Inl (OtherError e)"
  by (simp_all add: lift_other_def)

lemma lift_other_Inr [simp]: "lift_other r = Inr x \<longleftrightarrow> r = Inr x"
  by (auto simp: lift_other_def split: sum.splits)

lemma catch_os_error_Inr [simp]: "catch_os_error m r = Inr x \<longleftrightarrow> r = Inr x"
  by (auto simp: catch_os_error_def split: sum.splits if_splits)

text \<open>A layer the validator accepts is one the loader accepts, with the same effect, and its
  tensor is finite.\<close>

lemma validate_layer_ok_iff:
  "validate_layer env ts j ds = Inr ds' \<longleftrightarrow>
     (\<exists>ls t. parse_layer j = Inr ls \<and> find_tensor ts (ls_key ls) = Inr (Some t)
        \<and> \<not> shape_bad env ls t \<and> \<not> dtype_bad env ls t \<and> \<not> pe_has_nan env t \<and> \<not> pe_has_inf env t
        \<and> ds' = dict_set (ls_name ls) t ds)"
  by (auto simp: validate_layer_def bindE_Inr_iff split: option.splits if_splits)

lemma validate_layer_loads:
  "validate_layer env ts j ds = Inr ds' \<Longrightarrow> load_layer env ts j ds = Inr ds'"
  by (auto simp: validate_layer_ok_iff load_layer_def)

lemma validate_layers_load:
  "foldE (validate_layer env ts) js ds = Inr ds' \<Longrightarrow> foldE (load_layer env ts) js ds = Inr ds'"
  by (induction js arbitrary: ds) (auto simp: bindE_Inr_iff dest: validate_layer_loads)

text \<open>What a validated delta satisfies: it is the last layer entry of its name that decided.\<close>

definition delta_for :: "'t payload_env \<Rightarrow> (string, 't) dict \<Rightarrow> json \<Rightarrow> string \<Rightarrow> 't \<Rightarrow> bool" where
  "delta_for env ts j nm t \<longleftrightarrow>
     (\<exists>ls. parse_layer j = Inr ls \<and> ls_name ls = nm \<and> find_tensor ts (ls_key ls) = Inr (Some t)
        \<and> \<not> shape_bad env ls t \<and> \<not> dtype_bad env ls t)"

lemma validate_layers_sound:
  assumes "foldE (validate_layer env ts) js ds = Inr ds'" and "map_of ds' nm = Some t"
  shows "map_of ds nm = Some t \<or>
     (\<exists>j\<in>set js. delta_for env ts j nm t \<and> \<not> pe_has_nan env t \<and> \<not> pe_has_inf env t)"
  using assms
proof (induction js arbitrary: ds)
  case Nil
  then show ?case by simp
next
  case (Cons j js)
  then obtain u where u: "validate_layer env ts j ds = Inr u" "foldE (validate_layer env ts) js u = Inr ds'"
    by (auto simp: bindE_Inr_iff)
  from Cons.IH[OF u(2) Cons.prems(2)] show ?case
  proof
    assume "map_of u nm = Some t"
    with u(1) show ?thesis by (auto simp: validate_layer_ok_iff delta_for_def split: if_splits)
  next
    assume "\<exists>j\<in>set js. delta_for env ts j nm t \<and> \<not> pe_has_nan env t \<and> \<not> pe_has_inf env t"
    then show ?thesis by auto
  qed
qed

lemma validate_layers_complete:
  assumes "foldE (validate_layer env ts) js ds = Inr ds'"
  shows "has_key ds nm \<Longrightarrow> has_key ds' nm"
    and "j \<in> set js \<Longrightarrow> parse_layer j = Inr ls \<Longrightarrow> has_key ds' (ls_name ls)"
proof -
  have keep: "foldE (validate_layer env ts) js ds = Inr ds' \<Longrightarrow> has_key ds n \<Longrightarrow> has_key ds' n"
    for js ds n
    by (induction js arbitrary: ds) (auto simp: bindE_Inr_iff validate_layer_ok_iff)
  show "has_key ds nm \<Longrightarrow> has_key ds' nm" using keep assms by blast
  show "has_key ds' (ls_name ls)" if "j \<in> set js" "parse_layer j = Inr ls"
    using assms that
  proof (induction js arbitrary: ds)
    case Nil
    then show ?case by simp
  next
    case (Cons i js)
    then obtain u where u: "validate_layer env ts i ds = Inr u" "foldE (validate_layer env ts) js u = Inr ds'"
      by (auto simp: bindE_Inr_iff)
    show ?case
    proof (cases "j = i")
      case True
      then have "has_key u (ls_name ls)" using u(1) Cons.prems(3) by (auto simp: validate_layer_ok_iff)
      then show ?thesis using keep[OF u(2)] by blast
    next
      case False
      then show ?thesis using Cons.IH[OF u(2)] Cons.prems by auto
    qed
  qed
qed

text \<open>Every \<open>PayloadValidationError\<close> the validator raises belongs to the payload classes.\<close>

definition payload_class :: "payload_error \<Rightarrow> bool" where
  "payload_class e \<longleftrightarrow> (case e of PayloadError fc _ \<Rightarrow> fc \<in> payload_failures | OtherError _ \<Rightarrow> True)"

definition payload_ok :: "(payload_error + 'a) \<Rightarrow> bool" where
  "payload_ok r \<longleftrightarrow> (case r of Inl e \<Rightarrow> payload_class e | Inr _ \<Rightarrow> True)"

lemma payload_ok_intros [intro, simp]:
  "payload_ok (Inr x)"
  "fc \<in> payload_failures \<Longrightarrow> payload_ok (Inl (PayloadError fc m))"
  "payload_ok (lift_other r)"
  "payload_ok (catch_os_error m q)"
  "payload_ok (case s of Inl e \<Rightarrow> Inl (classify_load_error e) | Inr ts \<Rightarrow> Inr ts)"
  by (auto simp: payload_ok_def payload_class_def lift_other_def catch_os_error_def
      classify_load_error_def payload_failures_def Let_def split: sum.splits)

lemma payload_ok_bindE [intro]:
  "payload_ok r \<Longrightarrow> (\<And>x. r = Inr x \<Longrightarrow> payload_ok (f x)) \<Longrightarrow> payload_ok (bindE r f)"
  by (cases r) (auto simp: payload_ok_def)

lemma payload_ok_validate_layer: "payload_ok (validate_layer env ts j ds)"
  unfolding validate_layer_def
  by (intro payload_ok_bindE) (auto simp: payload_failures_def split: option.splits)

lemma payload_ok_foldE: "payload_ok (foldE (validate_layer env ts) js ds)"
  by (induction js arbitrary: ds) (auto intro!: payload_ok_bindE payload_ok_validate_layer)

lemma payload_ok_validate: "payload_ok (validate_payload env d b mx)"
  unfolding validate_payload_def check_sha_def
  by (intro payload_ok_bindE)
     (auto simp: payload_failures_def intro!: payload_ok_bindE payload_ok_foldE split: option.splits)

lemma load_file_Inr [simp]:
  "(case r of Inl e \<Rightarrow> Inl (classify_load_error e) | Inr ts \<Rightarrow> Inr ts) = Inr x \<longleftrightarrow> r = Inr x"
  by (auto split: sum.splits)

definition file_validated ::
  "'t payload_env \<Rightarrow> manifest \<Rightarrow> string \<Rightarrow> int \<Rightarrow> (string, 't) dict \<Rightarrow> json list \<Rightarrow> (string, 't) dict \<Rightarrow> bool"
  where
  "file_validated env d f mx ts layers deltas \<longleftrightarrow>
     pe_exists env f \<and> (\<exists>size. pe_size env f = Inr size \<and> size \<le> mx)
     \<and> (\<exists>block. as_dict (dict_get d ''payload'' (JObj [])) = Inr block
          \<and> check_sha env f (map_of block ''sha256'') = Inr ())
     \<and> pe_load_file env f = Inr ts
     \<and> json_iter (dict_get d ''layers'' (JList [])) = Inr layers
     \<and> foldE (validate_layer env ts) layers [] = Inr deltas"

lemma validate_payload_ok_iff:
  "validate_payload env d b mx = Inr deltas \<longleftrightarrow>
     (resolve_payload_path d b = Inr None \<and> deltas = []) \<or>
     (\<exists>f ts layers. resolve_payload_path d b = Inr (Some f) \<and> file_validated env d f mx ts layers deltas)"
    (is "?l \<longleftrightarrow> ?r")
proof
  assume ?l
  then obtain path where path: "resolve_payload_path d b = Inr path"
    by (auto simp: validate_payload_def bindE_Inr_iff)
  show ?r
  proof (cases path)
    case None
    with \<open>?l\<close> path show ?thesis by (simp add: validate_payload_def lift_other_def)
  next
    case (Some f)
    with \<open>?l\<close> path show ?thesis
      by (auto simp: validate_payload_def lift_other_def[of "Inr _"] bindE_Inr_iff file_validated_def
          split: if_splits)
  qed
next
  assume ?r
  then show ?l
  proof
    assume "resolve_payload_path d b = Inr None \<and> deltas = []"
    then show ?l by (simp add: validate_payload_def lift_other_def)
  next
    assume "\<exists>f ts layers. resolve_payload_path d b = Inr (Some f) \<and> file_validated env d f mx ts layers deltas"
    then show ?l
      by (force simp: validate_payload_def lift_other_def catch_os_error_def file_validated_def)
  qed
qed

lemma validate_layer_read [simp]:
  "validate_layer (env\<lparr>pe_read := rd\<rparr>) ts = validate_layer env ts"
  by (simp add: fun_eq_iff validate_layer_def shape_bad_def dtype_bad_def actual_dtype_def
      cong: if_cong option.case_cong)

text \<open>A payload of one tensor for the witnesses; tensors are lists of numbers.\<close>

definition sample_payload_env :: "int list payload_env" where
  "sample_payload_env =
     \<lparr>pe_exists = (\<lambda>f. True), pe_size = (\<lambda>f. Inr 10), pe_read = (\<lambda>f. Inr [1, 2]),
      pe_sha256 = (\<lambda>bs. ''abc''), pe_load_file = (\<lambda>f. Inr [(''w'', [5])]),
      pe_shape = (\<lambda>t. [int (length t)]), pe_dtype = (\<lambda>t. ''torch.float32''),
      pe_has_nan = (\<lambda>t. False), pe_has_inf = (\<lambda>t. False)\<rparr>"

definition sample_payload_route :: "string \<Rightarrow> manifest" where
  "sample_payload_route sha =
     [(''payload'', JObj [(''uri'', JStr ''file:///p/x''), (''sha256'', JStr sha)]),
      (''layers'', JList [JObj [(''name'', JStr ''w''), (''shape'', JList [JInt 1]),
                                (''dtype'', JStr ''float32'')]])]"

lemma sample_path:
  "resolve_payload_path (sample_payload_route sha) None = Inr (Some ''/p/x'')"
  by (simp add: resolve_payload_path_def sample_payload_route_def opt_truthy_def dict_get_def
      strip_file_scheme_def path_str_def path_root_def path_parts_def)

lemma sample_dtype: "replace_all ''torch.'' [] ''torch.float32'' = ''float32''"
  by (simp add: replace_all.simps)

lemma sample_layer:
  "validate_layer sample_payload_env [(''w'', [5])]
     (JObj [(''name'', JStr ''w''), (''shape'', JList [JInt 1]), (''dtype'', JStr ''float32'')]) []
   = Inr [(''w'', [5])]"
  by (simp add: validate_layer_def parse_layer_def dict_item_def dict_get_def shape_bad_def
      dtype_bad_def actual_dtype_def opt_truthy_def shape_eq_def sample_payload_env_def sample_dtype)

lemma sample_validates_upto:
  "100 \<le> mx \<Longrightarrow> validate_payload sample_payload_env (sample_payload_route ''abc'') None mx = Inr [(''w'', [5])]"
proof -
  assume "100 \<le> mx"
  then have "file_validated sample_payload_env (sample_payload_route ''abc'') ''/p/x'' mx [(''w'', [5])]
      [JObj [(''name'', JStr ''w''), (''shape'', JList [JInt 1]), (''dtype'', JStr ''float32'')]]
      [(''w'', [5])]"
    by (simp add: file_validated_def sample_layer)
       (simp add: sample_payload_env_def sample_payload_route_def dict_get_def check_sha_def
        opt_truthy_def catch_os_error_def compute_file_sha256_whole)
  then show ?thesis unfolding validate_payload_ok_iff using sample_path by blast
qed

lemmas sample_validates = sample_validates_upto[OF order_refl]

section \<open>Properties\<close>



text \<open>C40. Validator and loader agree: if validation accepts a payload and the manifest's digest
  is not an empty value, loading the same payload returns exactly the validated deltas.\<close>

theorem validated_payload_loads:
  assumes "validate_payload env d b mx = Inr deltas"
    and "map_of d ''payload'' = Some (JObj block)"
    and "map_of block ''sha256'' = None \<or> opt_truthy (map_of block ''sha256'')"
  shows "load_payload_deltas env d b = Inr deltas"
proof (cases "resolve_payload_path d b = Inr None")
  case True
  then show ?thesis using assms(1) by (auto simp: validate_payload_ok_iff load_payload_deltas_def)
next
  case False
  then obtain f ts layers where f: "resolve_payload_path d b = Inr (Some f)"
      and v: "file_validated env d f mx ts layers deltas"
    using assms(1) by (auto simp: validate_payload_ok_iff)
  have sha: "(case map_of block ''sha256'' of None \<Rightarrow> Inr True
      | Some sha \<Rightarrow> verify_payload_integrity env f sha) = Inr True"
    using v assms(2,3)
    by (auto simp: file_validated_def dict_get_def check_sha_def verify_payload_integrity_def
        bindE_Inr_iff opt_truthy_def split: option.splits if_splits)
  show ?thesis
    using f v sha assms(2) validate_layers_load[of env ts layers "[]" deltas]
    by (auto simp: load_payload_deltas_def file_validated_def dict_item_def)
qed

theorem validated_payload_loads_witness:
  "load_payload_deltas sample_payload_env (sample_payload_route ''abc'') None = Inr [(''w'', [5])]"
proof -
  have "map_of (sample_payload_route ''abc'') ''payload''
      = Some (JObj [(''uri'', JStr ''file:///p/x''), (''sha256'', JStr ''abc'')])"
    by (simp add: sample_payload_route_def)
  from validated_payload_loads[OF sample_validates this] show ?thesis by (simp add: opt_truthy_def)
qed

text \<open>A manifest whose payload digest is the empty string switches the integrity check off:
  the outcome of validation does not depend on the bytes of the file that are hashed.\<close>

theorem empty_digest_skips_integrity:
  assumes "map_of d ''payload'' = Some (JObj block)" and "map_of block ''sha256'' = Some (JStr [])"
  shows "validate_payload (env\<lparr>pe_read := rd\<rparr>) d b mx = validate_payload env d b mx"
proof -
  have "check_sha (env\<lparr>pe_read := rd\<rparr>) f (map_of block ''sha256'') = Inr ()"
    "check_sha env f (map_of block ''sha256'') = Inr ()" for f
    using assms(2) by (simp_all add: check_sha_def opt_truthy_def)
  then show ?thesis
    using assms(1) by (simp add: validate_payload_def dict_get_def cong: if_cong option.case_cong)
qed

theorem empty_digest_skips_integrity_witness:
  "validate_payload (sample_payload_env\<lparr>pe_read := (\<lambda>f. Inl (PyExc OSErrorE ''unreadable''))\<rparr>)
     (sample_payload_route []) None 100
   = validate_payload sample_payload_env (sample_payload_route []) None 100"
  by (rule empty_digest_skips_integrity
        [of _ "[(''uri'', JStr ''file:///p/x''), (''sha256'', JStr [])]"])
     (simp_all add: sample_payload_route_def)

end
