(* ===== verification/Hot_Swap_Runtime.thy ===== *)
theory Hot_Swap_Runtime
  imports Route_Registry Route_Payload
begin

text \<open>
  The hot-swap runtime (experimental/runtime.py): snapshot, swap, rollback and its
  verification, the inference gateway \<open>infer\<close> and the persistent \<open>ensure_route\<close>.

  The model's state dictionary maps parameter names to storage addresses and the weights are
  the contents of a store, so that tied parameters (two names, one storage) are modelled as
  torch has them. Tensor operations, the payload files and measured durations are parameters.
  The extra fields of audit events other than the failure reason and class are left out, and
  console output is. \<open>inference_func\<close> reads the weights and does not write them. Every operation
  returns the runtime also when it raises.
\<close>

section \<open>State\<close>

record audit_event =
  ae_request :: string
  ae_tenant :: string
  ae_route :: string
  ae_event :: string
  ae_status :: string
  ae_latency :: rat
  ae_extra :: "(string, string) dict"

record 't runtime_env =
  te_payload :: "'t payload_env"
  te_digest :: "'t \<Rightarrow> string"
  te_shape :: "'t \<Rightarrow> int list"
  te_dtype :: "'t \<Rightarrow> string"
  te_add :: "'t \<Rightarrow> 't \<Rightarrow> 't result"
  te_dummy :: "'t \<Rightarrow> 't"
  te_copy :: "'t \<Rightarrow> 't \<Rightarrow> 't result"
  te_now :: rat
  te_dur :: "string \<Rightarrow> rat"
  te_audit_path :: bool

record 't runtime =
  rt_model :: "(string, nat) dict option"
  rt_mem :: "nat \<Rightarrow> 't"
  rt_registry :: registry
  rt_hash :: string
  rt_base_dir :: "string option"
  rt_max_bytes :: int
  rt_sm :: state_machine
  rt_snapshots :: "(string, 't) dict"
  rt_checksums :: "(string, string) dict"
  rt_names :: "(string, string) dict"
  rt_cache :: "(string, (string, 't) dict) dict"
  rt_active :: string
  rt_swaps :: int
  rt_rollbacks :: int
  rt_timings :: "(string, rat) dict"
  rt_logger :: bool
  rt_log :: "audit_event list"
  rt_file :: "(string \<times> string \<times> string \<times> int \<times> int) list"

definition base_route :: string where
  "base_route = ''__base__''"

definition init_runtime ::
  "(string, nat) dict option \<Rightarrow> (nat \<Rightarrow> 't) \<Rightarrow> registry \<Rightarrow> string \<Rightarrow> bool \<Rightarrow> string option \<Rightarrow> int \<Rightarrow> 't runtime" where
  "init_runtime target_model mem registry runtime_model_hash audit_logger payload_base_dir max_bytes =
     \<lparr>rt_model = target_model, rt_mem = mem, rt_registry = registry, rt_hash = runtime_model_hash,
      rt_base_dir = payload_base_dir, rt_max_bytes = max_bytes, rt_sm = init_machine,
      rt_snapshots = [], rt_checksums = [], rt_names = [], rt_cache = [],
      rt_active = base_route, rt_swaps = 0, rt_rollbacks = 0, rt_timings = [],
      rt_logger = audit_logger, rt_log = [], rt_file = []\<rparr>"

abbreviation rt_phase :: "'t runtime \<Rightarrow> runtime_phase" where
  "rt_phase s \<equiv> sm_phase (rt_sm s)"

definition runtime_is_healthy :: "'t runtime \<Rightarrow> bool" where
  "runtime_is_healthy s \<longleftrightarrow> \<not> is_terminal (rt_sm s)"

definition runtime_can_accept :: "'t runtime \<Rightarrow> bool" where
  "runtime_can_accept s \<longleftrightarrow> can_accept_requests (rt_sm s)"

section \<open>Helpers\<close>

definition rt_transition ::
  "'t runtime_env \<Rightarrow> string \<Rightarrow> string \<Rightarrow> runtime_phase \<Rightarrow> ('t runtime, unit) act" where
  "rt_transition env reason route_id target s =
     (case transition (te_now env) reason route_id target (rt_sm s) of
        Inl e \<Rightarrow> (s, Inl e)
      | Inr sm \<Rightarrow> (s\<lparr>rt_sm := sm\<rparr>, Inr ()))"

text \<open>\<open>self._state_machine.phase = p\<close>, past the table.\<close>

definition force_phase :: "runtime_phase \<Rightarrow> 't runtime \<Rightarrow> 't runtime" where
  "force_phase p s = s\<lparr>rt_sm := (rt_sm s)\<lparr>sm_phase := p\<rparr>\<rparr>"

definition log_event ::
  "string \<Rightarrow> string \<Rightarrow> string \<Rightarrow> string \<Rightarrow> string \<Rightarrow> rat \<Rightarrow> (string, string) dict \<Rightarrow>
   't runtime \<Rightarrow> 't runtime" where
  "log_event request_id tenant_id route_id event status latency_ms extra s =
     (if rt_logger s
      then s\<lparr>rt_log := rt_log s @
             [\<lparr>ae_request = request_id, ae_tenant = tenant_id, ae_route = route_id,
               ae_event = event, ae_status = status, ae_latency = latency_ms, ae_extra = extra\<rparr>]\<rparr>
      else s)"

text \<open>The direct audit line: written when \<open>SCALPEL_AUDIT_LOG\<close> is set; write errors are caught.\<close>

definition write_audit_event :: "'t runtime_env \<Rightarrow> string \<Rightarrow> string \<Rightarrow> 't runtime \<Rightarrow> 't runtime" where
  "write_audit_event env event route_id s =
     (if te_audit_path env
      then s\<lparr>rt_file := rt_file s @ [(event, route_id, rt_active s, rt_swaps s, rt_rollbacks s)]\<rparr>
      else s)"

definition set_timing :: "'t runtime_env \<Rightarrow> string \<Rightarrow> 't runtime \<Rightarrow> 't runtime" where
  "set_timing env k s = s\<lparr>rt_timings := dict_set k (te_dur env k) (rt_timings s)\<rparr>"

section \<open>Resolving layer names\<close>

definition name_candidates :: "string \<Rightarrow> string list" where
  "name_candidates name =
     [name]
     @ (if starts_with name ''model.'' then [drop 6 name] else [''model.'' @ name])
     @ (if starts_with name ''model.layers.'' then [''model.model.layers.'' @ drop 13 name] else [])
     @ (if starts_with name ''model.model.layers.'' then [''model.layers.'' @ drop 19 name] else [])
     @ (if starts_with name ''layers.''
        then [''model.layers.'' @ drop 7 name, ''model.model.layers.'' @ drop 7 name] else [])"

definition resolve_layer_name :: "string \<Rightarrow> (string, nat) dict \<Rightarrow> string result" where
  "resolve_layer_name name state =
     (case filter (has_key state) (name_candidates name) of
        c # _ \<Rightarrow> Inr c
      | [] \<Rightarrow>
          (case filter (\<lambda>k. ends_with k name) (dict_keys state) of
             [m] \<Rightarrow> Inr m
           | _ \<Rightarrow>
               (case filter (\<lambda>k. ends_with name k) (dict_keys state) of
                  [m] \<Rightarrow> Inr m
                | _ \<Rightarrow> Inl (PyExc ValueErrorE
                       (''Target layer '' @ name @ '' not found in base model.'')))))"

section \<open>Verdicts\<close>

definition apply_verdict ::
  "'t runtime_env \<Rightarrow> failure_verdict \<Rightarrow> string \<Rightarrow> string \<Rightarrow> string \<Rightarrow> ('t runtime, unit) act" where
  "apply_verdict env verdict route_id request_id tenant_id s =
     (if fv_scope verdict = None then (s, Inr ())
      else if fv_target_phase verdict = WORKER_QUARANTINED then
        (case rt_transition env (fv_message verdict) [] WORKER_QUARANTINED s of
           (s1, Inr _) \<Rightarrow>
             (log_event request_id tenant_id route_id ''worker_quarantined'' ''failure'' 0
                [(''failure_reason'', fv_message verdict)] s1, Inr ())
         | (s1, Inl _) \<Rightarrow>
             (log_event request_id tenant_id route_id ''worker_quarantined'' ''failure'' 0
                [(''failure_reason'', fv_message verdict)]
                (s1\<lparr>rt_sm := (rt_sm s1)\<lparr>sm_phase := WORKER_QUARANTINED,
                                        sm_reason := fv_message verdict\<rparr>\<rparr>), Inr ()))
      else if fv_target_phase verdict = ROUTE_QUARANTINED then
        (case quarantine_route route_id (fv_message verdict) (rt_registry s) of
           Inl e \<Rightarrow> (s, Inl e)
         | Inr reg \<Rightarrow>
             let s1 = fst (rt_transition env (fv_message verdict) [] ROUTE_QUARANTINED
                             (s\<lparr>rt_registry := reg\<rparr>))
             in (log_event request_id tenant_id route_id ''route_quarantined'' ''failure'' 0
                   [(''failure_reason'', fv_message verdict)] s1, Inr ()))
      else (s, Inr ()))"

section \<open>Snapshot\<close>

definition route_layers :: "manifest \<Rightarrow> json list result" where
  "route_layers route_data = json_iter (dict_get route_data ''layers'' (JList []))"

definition layer_item :: "json \<Rightarrow> string \<Rightarrow> json result" where
  "layer_item layer k = (case layer of JObj d \<Rightarrow> dict_item d k
     | _ \<Rightarrow> Inl (PyExc TypeErrorE ''indices must be integers''))"

definition layer_name :: "json \<Rightarrow> string result" where
  "layer_name layer = bindE (layer_item layer ''name'') as_str"

definition live_dtype :: "'t runtime_env \<Rightarrow> 't \<Rightarrow> string" where
  "live_dtype env t = replace_all ''torch.'' '''' (te_dtype env t)"

text \<open>One round of the capture loop. The address of the target is looked up in the model's
  state dictionary \<open>state\<close>.\<close>

definition capture_layer ::
  "'t runtime_env \<Rightarrow> (string, nat) dict \<Rightarrow> json \<Rightarrow> ('t runtime, unit) act" where
  "capture_layer env state layer =
     bindS (liftS (layer_name layer)) (\<lambda>name.
     bindS (liftS (resolve_layer_name name state)) (\<lambda>target_name.
     bindS (modS (\<lambda>s. s\<lparr>rt_names := dict_set name target_name (rt_names s)\<rparr>)) (\<lambda>_.
     bindS (liftS (case map_of state target_name of
                     None \<Rightarrow> Inl (PyExc KeyErrorE target_name) | Some a \<Rightarrow> Inr a)) (\<lambda>addr s.
       let live_tensor = rt_mem s addr in
       bindS (liftS (layer_item layer ''shape'')) (\<lambda>shape.
         if \<not> shape_eq (te_shape env live_tensor) shape
         then liftS (Inl (PyExc ValueErrorE
                (''Shape mismatch for '' @ name @ '' (resolved to '' @ target_name @ '')'')))
         else
           bindS (liftS (layer_item layer ''dtype'')) (\<lambda>dtype.
             if dtype \<noteq> JStr (live_dtype env live_tensor)
             then liftS (Inl (PyExc ValueErrorE
                    (''Dtype mismatch for '' @ name @ '' (resolved to '' @ target_name @ '')'')))
             else modS (\<lambda>s. s\<lparr>rt_snapshots := dict_set name live_tensor (rt_snapshots s),
                              rt_checksums := dict_set name (te_digest env live_tensor)
                                                (rt_checksums s)\<rparr>))) s))))"

definition clear_snapshots :: "'t runtime \<Rightarrow> 't runtime" where
  "clear_snapshots s = s\<lparr>rt_snapshots := [], rt_checksums := [], rt_names := []\<rparr>"

definition capture_snapshot :: "'t runtime_env \<Rightarrow> manifest \<Rightarrow> ('t runtime, unit) act" where
  "capture_snapshot env route_data s =
     (case rt_model s of
        None \<Rightarrow> (s, Inl (PyExc RuntimeErrorE ''Base model state dict is not accessible.''))
      | Some state \<Rightarrow>
          (case bindE (route_layers route_data) (mapE layer_name) of
             Inl e \<Rightarrow> (s, Inl e)
           | Inr names \<Rightarrow>
               if rt_snapshots s \<noteq> [] \<and> list_all (has_key (rt_snapshots s)) names then (s, Inr ())
               else bindS (modS clear_snapshots) (\<lambda>_.
                    bindS (liftS (route_layers route_data)) (forS (capture_layer env state))) s))"

section \<open>Swap\<close>

definition write_mem :: "nat \<Rightarrow> 't \<Rightarrow> 't runtime \<Rightarrow> 't runtime" where
  "write_mem a t s = s\<lparr>rt_mem := (rt_mem s)(a := t)\<rparr>"

definition add_into :: "'t runtime_env \<Rightarrow> nat \<Rightarrow> 't \<Rightarrow> ('t runtime, unit) act" where
  "add_into env a delta s =
     (case te_add env (rt_mem s a) delta of
        Inl e \<Rightarrow> (s, Inl e)
      | Inr t \<Rightarrow> (write_mem a t s, Inr ()))"

definition swap_layer ::
  "'t runtime_env \<Rightarrow> (string, nat) dict \<Rightarrow> manifest \<Rightarrow> (string, 't) dict \<Rightarrow> json \<Rightarrow>
   ('t runtime, unit) act" where
  "swap_layer env state route_data deltas layer =
     bindS (liftS (layer_name layer)) (\<lambda>name s.
       let target_name = dict_get (rt_names s) name name in
       case map_of state target_name of
         None \<Rightarrow> (s, Inr ())
       | Some addr \<Rightarrow>
           let delta = (case map_of deltas name of
                          Some d \<Rightarrow> Some d | None \<Rightarrow> map_of deltas target_name)
           in case delta of
                Some d \<Rightarrow> add_into env addr d s
              | None \<Rightarrow>
                  if opt_truthy (map_of route_data ''payload'')
                  then (s, Inl (PyExc KeyErrorE
                         (''Validated delta for layer '' @ name @ '' not found in payload. ''
                          @ ''Failing swap to prevent inconsistent state.'')))
                  else add_into env addr (te_dummy env (rt_mem s addr)) s)"

definition apply_swap ::
  "'t runtime_env \<Rightarrow> manifest \<Rightarrow> (string, 't) dict \<Rightarrow> ('t runtime, unit) act" where
  "apply_swap env route_data validated_deltas s =
     (case rt_model s of
        None \<Rightarrow> (s, Inl (PyExc AttributeErrorE ''NoneType object has no attribute values''))
      | Some state \<Rightarrow>
          bindS (liftS (if validated_deltas = [] \<and> opt_truthy (map_of route_data ''payload'')
                        then load_payload_deltas (te_payload env) route_data (rt_base_dir s)
                        else Inr validated_deltas)) (\<lambda>deltas.
          bindS (liftS (route_layers route_data)) (forS (swap_layer env state route_data deltas))) s)"

section \<open>Rollback\<close>

definition target_address :: "'t runtime \<Rightarrow> string \<Rightarrow> nat result" where
  "target_address s name =
     (case rt_model s of
        None \<Rightarrow> Inl (PyExc TypeErrorE ''NoneType object is not subscriptable'')
      | Some state \<Rightarrow>
          (case map_of state (dict_get (rt_names s) name name) of
             None \<Rightarrow> Inl (PyExc KeyErrorE (dict_get (rt_names s) name name))
           | Some a \<Rightarrow> Inr a))"

definition restore_layer :: "'t runtime_env \<Rightarrow> string \<times> 't \<Rightarrow> ('t runtime, unit) act" where
  "restore_layer env p s =
     (case target_address s (fst p) of
        Inl e \<Rightarrow> (s, Inl e)
      | Inr a \<Rightarrow>
          (case te_copy env (rt_mem s a) (snd p) of
             Inl e \<Rightarrow> (s, Inl e)
           | Inr t \<Rightarrow> (write_mem a t s, Inr ())))"

definition rollback :: "'t runtime_env \<Rightarrow> ('t runtime, unit) act" where
  "rollback env s = forS (restore_layer env) (rt_snapshots s) s"

fun checksums_match :: "'t runtime_env \<Rightarrow> 't runtime \<Rightarrow> (string, string) dict \<Rightarrow> bool result" where
  "checksums_match env s [] = Inr True"
| "checksums_match env s (p # ps) =
     bindE (target_address s (fst p)) (\<lambda>a.
       if te_digest env (rt_mem s a) \<noteq> snd p then Inr False else checksums_match env s ps)"

definition verify_rollback :: "'t runtime_env \<Rightarrow> 't runtime \<Rightarrow> bool result" where
  "verify_rollback env s = checksums_match env s (rt_checksums s)"

definition transition_or_force :: "'t runtime_env \<Rightarrow> runtime_phase \<Rightarrow> 't runtime \<Rightarrow> 't runtime" where
  "transition_or_force env p s =
     (case rt_transition env [] [] p s of
        (s1, Inr _) \<Rightarrow> s1
      | (s1, Inl _) \<Rightarrow> force_phase p s1)"

definition perform_rollback ::
  "'t runtime_env \<Rightarrow> string \<Rightarrow> string \<Rightarrow> string \<Rightarrow> ('t runtime, unit) act" where
  "perform_rollback env request_id tenant_id route_id s =
     (let s1 = log_event request_id tenant_id route_id ''rollback_started'' ''pending'' 0 []
                 (transition_or_force env ROLLING_BACK s)
      in case rollback env s1 of
           (s2, Inl e) \<Rightarrow>
             bindS (apply_verdict env (evaluate_failure ROLLBACK_EXCEPTION) route_id request_id tenant_id)
               (\<lambda>_. modS (log_event request_id tenant_id route_id ''rollback_failed'' ''failure''
                            (te_dur env ''rollback_latency'' * 1000)
                            [(''failure_reason'', exc_msg e)]))
               (set_timing env ''rollback_latency'' s2)
         | (s2, Inr _) \<Rightarrow>
             let s3 = set_timing env ''rollback_latency'' s2 in
             case verify_rollback env s3 of
               Inl e \<Rightarrow> (s3, Inl e)
             | Inr False \<Rightarrow>
                 bindS (apply_verdict env (evaluate_failure ROLLBACK_CHECKSUM_MISMATCH)
                          route_id request_id tenant_id)
                   (\<lambda>_. modS (log_event request_id tenant_id route_id ''rollback_failed'' ''failure''
                                (te_dur env ''rollback_latency'' * 1000)
                                [(''failure_reason'', ''Checksum mismatch after rollback'')]))
                   s3
             | Inr True \<Rightarrow>
                 let s4 = s3\<lparr>rt_rollbacks := rt_rollbacks s3 + 1\<rparr>;
                     s5 = write_audit_event env ''rollback_completed'' route_id
                            (log_event request_id tenant_id route_id ''rollback_completed'' ''success''
                               (te_dur env ''rollback_latency'' * 1000) [] s4)
                 in (transition_or_force env READY s5, Inr ()))"

section \<open>The inference gateway\<close>

text \<open>The body of the \<open>try\<close> block of \<open>infer\<close>: from READY to the output of the forward pass.\<close>

definition infer_cycle ::
  "'t runtime_env \<Rightarrow> string \<Rightarrow> string \<Rightarrow> string \<Rightarrow> manifest \<Rightarrow> (string, 't) dict \<Rightarrow>
   ((nat \<Rightarrow> 't) \<Rightarrow> 'o result) \<Rightarrow> ('t runtime, 'o) act" where
  "infer_cycle env request_id tenant_id route_id route_data validated_deltas inference_func =
     (let note = (\<lambda>ev st lat. modS (log_event request_id tenant_id route_id ev st lat [])) in
      bindS (rt_transition env [] route_id VERIFYING) (\<lambda>_.
      bindS (note ''snapshot_started'' ''pending'' 0) (\<lambda>_.
      bindS (capture_snapshot env route_data) (\<lambda>_.
      bindS (rt_transition env [] [] SNAPSHOT_CAPTURED) (\<lambda>_.
      bindS (note ''snapshot_captured'' ''success'' 0) (\<lambda>_.
      bindS (rt_transition env [] [] SWAPPING) (\<lambda>_.
      bindS (note ''swap_started'' ''pending'' 0) (\<lambda>_.
      bindS (apply_swap env route_data validated_deltas) (\<lambda>_.
      bindS (modS (set_timing env ''swap_latency'')) (\<lambda>_.
      bindS (rt_transition env [] [] SWAPPED) (\<lambda>_.
      bindS (note ''swap_completed'' ''success'' (te_dur env ''swap_latency'' * 1000)) (\<lambda>_.
      bindS (rt_transition env [] [] FORWARDING) (\<lambda>_.
      bindS (note ''forward_started'' ''pending'' 0) (\<lambda>_.
      bindS (\<lambda>s. (s, inference_func (rt_mem s))) (\<lambda>out.
      bindS (note ''forward_completed'' ''success'' (te_dur env ''inference'' * 1000)) (\<lambda>_.
        liftS (Inr out)))))))))))))))))"

text \<open>The locked section: the cycle, then the rollback in either case. An exception of the
  rollback itself replaces the first one.\<close>

definition infer_locked ::
  "'t runtime_env \<Rightarrow> string \<Rightarrow> string \<Rightarrow> string \<Rightarrow> manifest \<Rightarrow> (string, 't) dict \<Rightarrow>
   ((nat \<Rightarrow> 't) \<Rightarrow> 'o result) \<Rightarrow> ('t runtime, 'o) act" where
  "infer_locked env request_id tenant_id route_id route_data validated_deltas inference_func s =
     (case infer_cycle env request_id tenant_id route_id route_data validated_deltas inference_func s of
        (s1, Inl e) \<Rightarrow>
          bindS (modS (log_event request_id tenant_id route_id ''exception_during_lifecycle''
                         ''failure'' 0 [(''failure_reason'', exc_msg e)])) (\<lambda>_.
          bindS (perform_rollback env request_id tenant_id route_id) (\<lambda>_. liftS (Inl e))) s1
      | (s1, Inr out) \<Rightarrow>
          bindS (perform_rollback env request_id tenant_id route_id) (\<lambda>_. liftS (Inr out)) s1)"

definition verify_route ::
  "'t runtime_env \<Rightarrow> string \<Rightarrow> string \<Rightarrow> string \<Rightarrow> bool \<Rightarrow> ('t runtime, manifest) act" where
  "verify_route env request_id tenant_id route_id log_success s =
     (case get_verified_route (rt_registry s) route_id (rt_hash s) tenant_id of
        Inl e \<Rightarrow>
          (log_event request_id tenant_id route_id ''route_rejected'' ''failure'' 0
             [(''failure_reason'', exc_msg e)] s, Inl e)
      | Inr route_data \<Rightarrow>
          (if log_success
           then log_event request_id tenant_id route_id ''route_verified'' ''success'' 0 [] s
           else s, Inr route_data))"

definition validate_step ::
  "'t runtime_env \<Rightarrow> string \<Rightarrow> string \<Rightarrow> string \<Rightarrow> manifest \<Rightarrow> ('t runtime, (string, 't) dict) act" where
  "validate_step env request_id tenant_id route_id route_data s =
     (case validate_payload (te_payload env) route_data (rt_base_dir s) (rt_max_bytes s) of
        Inr deltas \<Rightarrow>
          let s1 = set_timing env ''payload_validate_latency'' s in
          (if deltas \<noteq> []
           then log_event request_id tenant_id route_id ''payload_validated'' ''success''
                  (te_dur env ''payload_validate_latency'' * 1000) [] s1
           else s1, Inr deltas)
      | Inl (OtherError e) \<Rightarrow> (s, Inl e)
      | Inl (PayloadError fc detail) \<Rightarrow>
          let verdict = evaluate_failure fc in
          bindS (apply_verdict env verdict route_id request_id tenant_id) (\<lambda>_.
          bindS (modS (log_event request_id tenant_id route_id ''payload_rejected'' ''failure'' 0
                         [(''failure_reason'', exc_msg (payload_exc (PayloadError fc detail))),
                          (''failure_class'', failure_value fc)])) (\<lambda>_.
            liftS (Inl (PyExc RuntimeErrorE (fv_message verdict))))) s)"

definition infer ::
  "'t runtime_env \<Rightarrow> string \<Rightarrow> string \<Rightarrow> string \<Rightarrow> ((nat \<Rightarrow> 't) \<Rightarrow> 'o result) \<Rightarrow> ('t runtime, 'o) act" where
  "infer env route_id tenant_id request_id inference_func s =
     (if is_terminal (rt_sm s)
      then (s, Inl (PyExc RuntimeErrorE
             ''CRITICAL: Worker is QUARANTINED. Cannot accept requests. Restart required.''))
      else
        bindS (verify_route env request_id tenant_id route_id True) (\<lambda>route_data.
        bindS (validate_step env request_id tenant_id route_id route_data) (\<lambda>validated_deltas.
        bindS (modS (set_timing env ''lock_wait_time'')) (\<lambda>_.
        bindS (infer_locked env request_id tenant_id route_id route_data validated_deltas inference_func)
          (\<lambda>output s'.
             if is_terminal (rt_sm s')
             then (s', Inl (PyExc RuntimeErrorE
                    ''CRITICAL: Rollback checksum mismatch. Worker QUARANTINED.''))
             else (s', Inr output))))) s)"

section \<open>Persistent routes\<close>

definition ensure_cycle ::
  "'t runtime_env \<Rightarrow> string \<Rightarrow> string \<Rightarrow> string \<Rightarrow> manifest \<Rightarrow> (string, 't) dict \<Rightarrow> ('t runtime, bool) act" where
  "ensure_cycle env request_id tenant_id route_id route_data validated_deltas =
     bindS (rt_transition env [] route_id VERIFYING) (\<lambda>_.
     bindS (capture_snapshot env route_data) (\<lambda>_.
     bindS (rt_transition env [] [] SNAPSHOT_CAPTURED) (\<lambda>_.
     bindS (rt_transition env [] [] SWAPPING) (\<lambda>_.
     bindS (apply_swap env route_data validated_deltas) (\<lambda>_.
     bindS (rt_transition env [] [] SWAPPED) (\<lambda>_.
     bindS (modS (\<lambda>s. s\<lparr>rt_active := route_id, rt_swaps := rt_swaps s + 1\<rparr>)) (\<lambda>_.
     bindS (modS (log_event request_id tenant_id route_id ''swap_completed'' ''success''
                    (te_dur env ''swap'' * 1000) [])) (\<lambda>_.
     bindS (modS (write_audit_event env ''swap_completed'' route_id)) (\<lambda>_.
       liftS (Inr True))))))))))"

definition cached_deltas ::
  "'t runtime_env \<Rightarrow> string \<Rightarrow> string \<Rightarrow> string \<Rightarrow> manifest \<Rightarrow> ('t runtime, (string, 't) dict) act" where
  "cached_deltas env request_id tenant_id route_id route_data s =
     (case map_of (rt_cache s) route_id of
        Some deltas \<Rightarrow> (s, Inr deltas)
      | None \<Rightarrow>
          (case validate_payload (te_payload env) route_data (rt_base_dir s) (rt_max_bytes s) of
             Inl pe \<Rightarrow> (s, Inl (payload_exc pe))
           | Inr deltas \<Rightarrow>
               (log_event request_id tenant_id route_id ''payload_validated'' ''success''
                  (te_dur env ''payload_validate'' * 1000) []
                  (s\<lparr>rt_cache := dict_set route_id deltas (rt_cache s)\<rparr>), Inr deltas)))"

definition ensure_locked ::
  "'t runtime_env \<Rightarrow> string \<Rightarrow> string \<Rightarrow> string \<Rightarrow> manifest \<Rightarrow> (string, 't) dict \<Rightarrow> ('t runtime, bool) act" where
  "ensure_locked env request_id tenant_id route_id route_data validated_deltas =
     catchS (ensure_cycle env request_id tenant_id route_id route_data validated_deltas) (\<lambda>e.
       bindS (modS (log_event request_id tenant_id route_id ''swap_failed'' ''failure'' 0
                      [(''failure_reason'', exc_msg e)])) (\<lambda>_.
       bindS (perform_rollback env request_id tenant_id route_id) (\<lambda>_.
       bindS (modS (\<lambda>s. s\<lparr>rt_active := base_route\<rparr>)) (\<lambda>_. liftS (Inl e)))))"

text \<open>Leaving the active route: rollback, then the base route is recorded as active.\<close>

definition leave_route :: "'t runtime_env \<Rightarrow> string \<Rightarrow> string \<Rightarrow> ('t runtime, unit) act" where
  "leave_route env request_id tenant_id s =
     (if rt_active s \<noteq> base_route
      then bindS (perform_rollback env request_id tenant_id (rt_active s))
             (\<lambda>_. modS (\<lambda>s. s\<lparr>rt_active := base_route\<rparr>)) s
      else (s, Inr ()))"

definition ensure_route ::
  "'t runtime_env \<Rightarrow> string \<Rightarrow> string \<Rightarrow> string \<Rightarrow> ('t runtime, bool) act" where
  "ensure_route env route_id tenant_id request_id s =
     (if is_terminal (rt_sm s) then (s, Inl (PyExc RuntimeErrorE ''Worker is QUARANTINED.''))
      else if rt_active s = route_id then (s, Inr False)
      else
        bindS (leave_route env request_id tenant_id) (\<lambda>_.
          if route_id = base_route then liftS (Inr True)
          else
            bindS (verify_route env request_id tenant_id route_id False) (\<lambda>route_data.
            bindS (cached_deltas env request_id tenant_id route_id route_data) (\<lambda>validated_deltas.
              ensure_locked env request_id tenant_id route_id route_data validated_deltas))) s)"

definition clear_active_route :: "'t runtime_env \<Rightarrow> ('t runtime, bool) act" where
  "clear_active_route env s =
     (if rt_active s \<noteq> base_route
      then bindS (perform_rollback env ''cleanup'' ''system'' (rt_active s)) (\<lambda>_.
           bindS (modS (\<lambda>s. s\<lparr>rt_active := base_route\<rparr>)) (\<lambda>_. liftS (Inr True))) s
      else (s, Inr False))"

section \<open>Legacy entry points\<close>

text \<open>\<open>RuntimeState\<close>, the old enumeration, and the map of its values to phases; an unknown value
  is mapped to READY.\<close>

datatype legacy_state =
    L_IDLE | L_VERIFYING | L_LOCKED | L_SWAPPING | L_INFERENCE_ACTIVE | L_ROLLBACK_PENDING
  | L_ROLLED_BACK | L_QUARANTINED

fun legacy_value :: "legacy_state \<Rightarrow> string" where
  "legacy_value L_IDLE = ''IDLE''"
| "legacy_value L_VERIFYING = ''VERIFYING''"
| "legacy_value L_LOCKED = ''LOCKED''"
| "legacy_value L_SWAPPING = ''SWAPPING''"
| "legacy_value L_INFERENCE_ACTIVE = ''INFERENCE_ACTIVE''"
| "legacy_value L_ROLLBACK_PENDING = ''ROLLBACK_PENDING''"
| "legacy_value L_ROLLED_BACK = ''ROLLED_BACK''"
| "legacy_value L_QUARANTINED = ''QUARANTINED''"

definition state_map :: "(string, runtime_phase) dict" where
  "state_map =
     [(''IDLE'', READY), (''VERIFYING'', VERIFYING), (''LOCKED'', VERIFYING),
      (''SWAPPING'', SWAPPING), (''INFERENCE_ACTIVE'', FORWARDING),
      (''ROLLBACK_PENDING'', ROLLING_BACK), (''ROLLED_BACK'', READY),
      (''QUARANTINED'', WORKER_QUARANTINED)]"

definition legacy_transition :: "'t runtime_env \<Rightarrow> string \<Rightarrow> 't runtime \<Rightarrow> 't runtime" where
  "legacy_transition env new_state s = transition_or_force env (dict_get state_map new_state READY) s"

definition try_transition :: "'t runtime_env \<Rightarrow> runtime_phase \<Rightarrow> ('t runtime, unit) act" where
  "try_transition env p s = (fst (rt_transition env [] [] p s), Inr ())"

definition capture_and_verify :: "'t runtime_env \<Rightarrow> manifest \<Rightarrow> ('t runtime, unit) act" where
  "capture_and_verify env route_data =
     bindS (try_transition env VERIFYING) (\<lambda>_.
     bindS (capture_snapshot env route_data) (\<lambda>_.
       try_transition env SNAPSHOT_CAPTURED))"

definition legacy_swap :: "'t runtime_env \<Rightarrow> manifest \<Rightarrow> ('t runtime, unit) act" where
  "legacy_swap env route_data =
     bindS (try_transition env SWAPPING) (\<lambda>_.
     bindS (apply_swap env route_data []) (\<lambda>_.
       try_transition env SWAPPED))"

end
