(* ===== verification/Swap_Safety.thy ===== *)
theory Swap_Safety
  imports Hot_Swap_Runtime
begin

text \<open>
  Leave no trace: the invariant of the hot-swap runtime and its preservation by every operation
  of the gateway. The weights before the first request are \<open>base\<close>; the runtime sees them through
  the digest \<open>dg\<close> only, so equality of weights is equality of digests. Nothing is assumed of the
  tensor operations, of the payload files or of the inference function.
\<close>

section \<open>The invariant\<close>

definition clean :: "('t \<Rightarrow> string) \<Rightarrow> (nat \<Rightarrow> 't) \<Rightarrow> 't runtime \<Rightarrow> bool" where
  "clean dg base s \<longleftrightarrow> (\<forall>a. dg (rt_mem s a) = dg (base a))"

text \<open>The address \<open>a\<close> is watched: some captured layer resolves to it.\<close>

definition covered :: "'t runtime \<Rightarrow> nat \<Rightarrow> bool" where
  "covered s a \<longleftrightarrow> (\<exists>(n, c) \<in> set (rt_checksums s). target_address s n = Inr a)"

definition clean_phases :: "runtime_phase set" where
  "clean_phases = {READY, VERIFYING, SNAPSHOT_CAPTURED}"

definition names_inv :: "(string, nat) dict \<Rightarrow> 't runtime \<Rightarrow> bool" where
  "names_inv state s \<longleftrightarrow>
     rt_model s = Some state
     \<and> (\<forall>n t. map_of (rt_names s) n = Some t \<longrightarrow> resolve_layer_name n state = Inr t)"

definition captured_inv :: "('t \<Rightarrow> string) \<Rightarrow> (nat \<Rightarrow> 't) \<Rightarrow> 't runtime \<Rightarrow> bool" where
  "captured_inv dg base s \<longleftrightarrow>
     (\<forall>(n, c) \<in> set (rt_checksums s).
        has_key (rt_names s) n \<and> has_key (rt_snapshots s) n
        \<and> (\<exists>a. target_address s n = Inr a \<and> c = dg (base a)))
     \<and> (\<forall>(n, v) \<in> set (rt_snapshots s).
          has_key (rt_checksums s) n \<and> (\<exists>a. target_address s n = Inr a \<and> dg v = dg (base a)))"

definition swap_inv ::
  "('t \<Rightarrow> string) \<Rightarrow> (nat \<Rightarrow> 't) \<Rightarrow> (string, nat) dict \<Rightarrow> 't runtime \<Rightarrow> bool" where
  "swap_inv dg base state s \<longleftrightarrow>
     names_inv state s \<and> captured_inv dg base s
     \<and> (\<forall>a. \<not> covered s a \<longrightarrow> dg (rt_mem s a) = dg (base a))
     \<and> (rt_phase s \<in> clean_phases \<longrightarrow> clean dg base s)"

lemma swap_inv_init:
  "swap_inv dg base state (init_runtime (Some state) base reg h logger dir mx)"
  by (simp add: swap_inv_def names_inv_def captured_inv_def covered_def clean_def init_runtime_def
      has_key_def)

lemma snapshots_checksummed:
  "captured_inv dg base s \<Longrightarrow> has_key (rt_snapshots s) n \<Longrightarrow> has_key (rt_checksums s) n"
  by (fastforce simp: captured_inv_def has_key_def dest: map_of_SomeD)

lemma checksum_entry:
  "captured_inv dg base s \<Longrightarrow> (n, c) \<in> set (rt_checksums s) \<Longrightarrow>
     has_key (rt_names s) n \<and> has_key (rt_snapshots s) n
     \<and> (\<exists>a. target_address s n = Inr a \<and> c = dg (base a))"
  by (auto simp: captured_inv_def)

lemma snapshot_entry:
  assumes "captured_inv dg base s" "(n, v) \<in> set (rt_snapshots s)"
  shows "has_key (rt_names s) n \<and> has_key (rt_checksums s) n
         \<and> (\<exists>a. target_address s n = Inr a \<and> dg v = dg (base a))"
proof -
  have n: "has_key (rt_checksums s) n \<and> (\<exists>a. target_address s n = Inr a \<and> dg v = dg (base a))"
    using assms by (auto simp: captured_inv_def)
  then obtain c where "(n, c) \<in> set (rt_checksums s)"
    by (auto simp: has_key_def dest: map_of_SomeD)
  then show ?thesis using checksum_entry[OF assms(1)] n by blast
qed

lemma captured_invI:
  assumes "\<And>n c. (n, c) \<in> set (rt_checksums s) \<Longrightarrow>
      has_key (rt_names s) n \<and> has_key (rt_snapshots s) n
      \<and> (\<exists>a. target_address s n = Inr a \<and> c = dg (base a))"
    and "\<And>n v. (n, v) \<in> set (rt_snapshots s) \<Longrightarrow>
      has_key (rt_checksums s) n \<and> (\<exists>a. target_address s n = Inr a \<and> dg v = dg (base a))"
  shows "captured_inv dg base s"
  using assms by (auto simp: captured_inv_def)

section \<open>Frames\<close>

text \<open>The invariant reads the model, the weights, the three captured dictionaries and the phase;
  logging, timing, the audit file, the registry, the cache and the counters are outside it.\<close>

definition core ::
  "'t runtime \<Rightarrow> (string, nat) dict option \<times> (nat \<Rightarrow> 't) \<times> (string, string) dict
     \<times> (string, string) dict \<times> (string, 't) dict" where
  "core s = (rt_model s, rt_mem s, rt_names s, rt_checksums s, rt_snapshots s)"

lemma target_address_cong:
  "rt_model s = rt_model t \<Longrightarrow> rt_names s = rt_names t \<Longrightarrow> target_address s n = target_address t n"
  by (simp add: target_address_def cong: option.case_cong)

lemma swap_inv_core:
  assumes "core s = core t" and "rt_phase s \<in> clean_phases \<Longrightarrow> rt_phase t \<in> clean_phases"
    and "swap_inv dg base state t"
  shows "swap_inv dg base state s"
proof -
  have ta: "target_address s n = target_address t n" for n
    using assms(1) by (intro target_address_cong) (simp_all add: core_def)
  show ?thesis
    using assms
    by (simp add: swap_inv_def names_inv_def captured_inv_def covered_def clean_def core_def ta)
qed

lemma swap_inv_core_clean:
  assumes "core s = core t" "swap_inv dg base state t" "clean dg base t"
  shows "swap_inv dg base state s"
proof -
  have ta: "target_address s n = target_address t n" for n
    using assms(1) by (intro target_address_cong) (simp_all add: core_def)
  show ?thesis
    using assms
    by (simp add: swap_inv_def names_inv_def captured_inv_def covered_def clean_def core_def ta)
qed

lemma frame_log [frame_simps]:
  "core (log_event r t i ev st l x s) = core s" "rt_sm (log_event r t i ev st l x s) = rt_sm s"
  "rt_active (log_event r t i ev st l x s) = rt_active s"
  "rt_registry (log_event r t i ev st l x s) = rt_registry s"
  by (simp_all add: log_event_def core_def)

lemma frame_audit [frame_simps]:
  "core (write_audit_event env ev i s) = core s" "rt_sm (write_audit_event env ev i s) = rt_sm s"
  "rt_active (write_audit_event env ev i s) = rt_active s"
  "rt_registry (write_audit_event env ev i s) = rt_registry s"
  by (simp_all add: write_audit_event_def core_def)

lemma frame_timing [frame_simps]:
  "core (set_timing env k s) = core s" "rt_sm (set_timing env k s) = rt_sm s"
  "rt_active (set_timing env k s) = rt_active s"
  "rt_registry (set_timing env k s) = rt_registry s"
  by (simp_all add: set_timing_def core_def)

lemma frame_force [frame_simps]:
  "core (force_phase p s) = core s" "rt_phase (force_phase p s) = p"
  "rt_active (force_phase p s) = rt_active s"
  "rt_registry (force_phase p s) = rt_registry s"
  by (simp_all add: force_phase_def core_def)

lemma frame_updates [frame_simps]:
  "core (s\<lparr>rt_sm := m\<rparr>) = core s" "core (s\<lparr>rt_registry := g\<rparr>) = core s"
  "core (s\<lparr>rt_active := i\<rparr>) = core s" "core (s\<lparr>rt_swaps := k\<rparr>) = core s"
  "core (s\<lparr>rt_rollbacks := k\<rparr>) = core s" "core (s\<lparr>rt_cache := c\<rparr>) = core s"
  by (simp_all add: core_def)

lemma rt_transition_Inr:
  "rt_transition env r i p s = (s', Inr u) \<Longrightarrow>
     core s' = core s \<and> rt_phase s' = p \<and> p \<in> valid_transitions (rt_phase s)
     \<and> rt_active s' = rt_active s \<and> rt_registry s' = rt_registry s"
  by (auto simp: rt_transition_def frame_simps split: sum.splits
      dest: transition_phase transition_valid)

lemma rt_transition_Inl: "rt_transition env r i p s = (s', Inl e) \<Longrightarrow> s' = s"
  by (auto simp: rt_transition_def split: sum.splits)

lemma transition_or_force_frame [frame_simps]:
  "core (transition_or_force env p s) = core s" "rt_phase (transition_or_force env p s) = p"
  "rt_active (transition_or_force env p s) = rt_active s"
  "rt_registry (transition_or_force env p s) = rt_registry s"
  by (auto simp: transition_or_force_def frame_simps split: prod.splits sum.splits
      dest: rt_transition_Inr rt_transition_Inl)

lemma apply_worker_verdict:
  assumes "fv_target_phase v = WORKER_QUARANTINED" "fv_scope v \<noteq> None"
  shows "snd (apply_verdict env v i r t s) = Inr ()"
    "core (fst (apply_verdict env v i r t s)) = core s"
    "rt_phase (fst (apply_verdict env v i r t s)) = WORKER_QUARANTINED"
    "rt_active (fst (apply_verdict env v i r t s)) = rt_active s"
    "rt_registry (fst (apply_verdict env v i r t s)) = rt_registry s"
  using assms
  by (auto simp: apply_verdict_def frame_simps split: prod.splits sum.splits
      dest: rt_transition_Inr rt_transition_Inl)

lemma rollback_failure_verdict:
  assumes "fc \<in> {ROLLBACK_CHECKSUM_MISMATCH, ROLLBACK_EXCEPTION}"
  shows "fv_target_phase (evaluate_failure fc) = WORKER_QUARANTINED"
    "fv_scope (evaluate_failure fc) \<noteq> None"
  using rollback_verdicts_quarantine_worker[of fc] assms by auto

lemmas rollback_failure_applied =
  apply_worker_verdict[OF rollback_failure_verdict]

section \<open>Capture\<close>

lemma capture_layer_cases:
  assumes "capture_layer env state layer s = (s', r)"
  shows "(s' = s \<and> (\<exists>e. r = Inl e))
    \<or> (\<exists>name target. layer_name layer = Inr name \<and> resolve_layer_name name state = Inr target
         \<and> (let s1 = s\<lparr>rt_names := dict_set name target (rt_names s)\<rparr> in
              (s' = s1 \<and> (\<exists>e. r = Inl e))
              \<or> (\<exists>a. map_of state target = Some a \<and> r = Inr ()
                   \<and> s' = s1\<lparr>rt_snapshots := dict_set name (rt_mem s a) (rt_snapshots s),
                             rt_checksums := dict_set name (te_digest env (rt_mem s a))
                                               (rt_checksums s)\<rparr>)))"
  using assms
  by (auto simp: capture_layer_def bindS_def liftS_def modS_def Let_def
      split: sum.splits option.splits if_splits)

lemma target_address_after_name:
  assumes "names_inv state s" "resolve_layer_name name state = Inr target"
    and "has_key (rt_names s) n" "rt_model s' = rt_model s"
    and "rt_names s' = dict_set name target (rt_names s)"
  shows "target_address s' n = target_address s n"
proof -
  have "dict_get (rt_names s') n n = dict_get (rt_names s) n n"
    using assms by (auto simp: names_inv_def dict_get_def has_key_def split: option.splits)
  then show ?thesis using assms(4) by (simp add: target_address_def cong: option.case_cong)
qed

lemma names_inv_add:
  assumes "names_inv state s" "resolve_layer_name name state = Inr target"
    and "rt_model s' = rt_model s" "rt_names s' = dict_set name target (rt_names s)"
  shows "names_inv state s'"
  using assms by (auto simp: names_inv_def split: if_splits)

lemma set_dict_set: "set (dict_set k v d) \<subseteq> insert (k, v) (set d)"
  by (induction d) auto

lemma in_dict_set: "k \<in> fst ` set (dict_set k v d)" "fst ` set d \<subseteq> fst ` set (dict_set k v d)"
  by (induction d) auto

lemma capture_layer_inv:
  assumes inv: "swap_inv dg base state s" and ph: "rt_phase s = VERIFYING"
    and dg: "te_digest env = dg" and run: "capture_layer env state layer s = (s', r)"
  shows "swap_inv dg base state s' \<and> rt_phase s' = VERIFYING"
  using capture_layer_cases[OF run]
proof (elim disjE exE conjE)
  fix name target
  assume res: "resolve_layer_name name state = Inr target"
  let ?s1 = "s\<lparr>rt_names := dict_set name target (rt_names s)\<rparr>"
  let ?more = "\<lambda>a. ?s1\<lparr>rt_snapshots := dict_set name (rt_mem s a) (rt_snapshots s),
                     rt_checksums := dict_set name (te_digest env (rt_mem s a)) (rt_checksums s)\<rparr>"
  assume "let s1 = ?s1 in (s' = s1 \<and> (\<exists>e. r = Inl e))
            \<or> (\<exists>a. map_of state target = Some a \<and> r = Inr ()
                 \<and> s' = s1\<lparr>rt_snapshots := dict_set name (rt_mem s a) (rt_snapshots s),
                           rt_checksums := dict_set name (te_digest env (rt_mem s a))
                                             (rt_checksums s)\<rparr>)"
  then consider "s' = ?s1" | a where "map_of state target = Some a" "s' = ?more a"
    by (auto simp: Let_def)
  note s' = this
  have names: "names_inv state s" and cap: "captured_inv dg base s"
    and cl: "\<And>a. dg (rt_mem s a) = dg (base a)"
    using inv ph by (auto simp: swap_inv_def clean_phases_def clean_def)
  have same: "rt_model s' = rt_model s" "rt_names s' = dict_set name target (rt_names s)"
    "rt_mem s' = rt_mem s" "rt_phase s' = rt_phase s"
    using s' by (cases; simp)+
  note names' = names_inv_add[OF names res same(1,2)]
  note ta = target_address_after_name[OF names res _ same(1,2)]
  have "captured_inv dg base s'"
    using s'
  proof cases
    case 1
    have keep: "has_key (rt_names s') n \<and> target_address s' n = target_address s n"
      if "has_key (rt_names s) n" for n
      using that ta same(2) by simp
    show ?thesis
    proof (rule captured_invI)
      fix n c assume "(n, c) \<in> set (rt_checksums s')"
      then have "(n, c) \<in> set (rt_checksums s)" using 1 by simp
      then show "has_key (rt_names s') n \<and> has_key (rt_snapshots s') n
          \<and> (\<exists>a. target_address s' n = Inr a \<and> c = dg (base a))"
        using checksum_entry[OF cap] keep 1 by simp
    next
      fix n v assume "(n, v) \<in> set (rt_snapshots s')"
      then have "(n, v) \<in> set (rt_snapshots s)" using 1 by simp
      then show "has_key (rt_checksums s') n
          \<and> (\<exists>a. target_address s' n = Inr a \<and> dg v = dg (base a))"
        using snapshot_entry[OF cap] keep 1 by simp
    qed
  next
    case (2 a)
    have new: "target_address s' name = Inr a"
      using 2 names by (simp add: target_address_def names_inv_def)
    have "has_key (rt_names s') n \<and> has_key (rt_snapshots s') n
        \<and> (\<exists>b. target_address s' n = Inr b \<and> c = dg (base b))"
      if "(n, c) \<in> set (rt_checksums s')" for n c
    proof (cases "(n, c) = (name, te_digest env (rt_mem s a))")
      case True
      then show ?thesis using new cl dg same(2) 2 by auto
    next
      case False
      then have "(n, c) \<in> set (rt_checksums s)"
        using that 2 set_dict_set by fastforce
      then show ?thesis using checksum_entry[OF cap] ta same(2) 2 by auto
    qed
    moreover have "has_key (rt_checksums s') n
        \<and> (\<exists>b. target_address s' n = Inr b \<and> dg v = dg (base b))"
      if "(n, v) \<in> set (rt_snapshots s')" for n v
    proof (cases "(n, v) = (name, rt_mem s a)")
      case True
      then show ?thesis using new cl 2 by auto
    next
      case False
      then have "(n, v) \<in> set (rt_snapshots s)"
        using that 2 set_dict_set by fastforce
      then show ?thesis using snapshot_entry[OF cap] ta 2 by simp
    qed
    ultimately show ?thesis by (rule captured_invI)
  qed
  then show ?thesis
    using names' cl same ph by (simp add: swap_inv_def clean_def)
qed (use inv ph in simp_all)

lemma capture_layer_done:
  assumes "capture_layer env state layer s = (s', Inr u)" and "layer_name layer = Inr n"
  shows "has_key (rt_checksums s') n"
  using capture_layer_cases[OF assms(1)] assms(2) by (auto simp: Let_def)

lemma capture_layer_keeps_done:
  assumes "capture_layer env state layer s = (s', r)" and "has_key (rt_checksums s) n"
  shows "has_key (rt_checksums s') n"
  using capture_layer_cases[OF assms(1)] assms(2) by (auto simp: Let_def)

lemma capture_loop_inv:
  assumes "te_digest env = dg"
  shows "keeps (\<lambda>s. swap_inv dg base state s \<and> rt_phase s = VERIFYING)
           (forS (capture_layer env state) layers)"
  by (rule keeps_forS, rule keepsI) (use capture_layer_inv[OF _ _ assms] in blast)

lemma capture_loop_keeps_done:
  "keeps (\<lambda>s. has_key (rt_checksums s) n) (forS (capture_layer env state) layers)"
  by (rule keeps_forS, rule keepsI) (rule capture_layer_keeps_done)

lemma capture_loop_done:
  "forS (capture_layer env state) layers s = (s', Inr u) \<Longrightarrow> layer \<in> set layers \<Longrightarrow>
     layer_name layer = Inr n \<Longrightarrow> has_key (rt_checksums s') n"
proof (induction layers arbitrary: s)
  case Nil
  then show ?case by simp
next
  case (Cons l ls)
  obtain t v where l: "capture_layer env state l s = (t, Inr v)"
    and ls: "forS (capture_layer env state) ls t = (s', Inr u)"
    using Cons.prems(1) by (auto split: prod.splits sum.splits)
  show ?case
  proof (cases "layer = l")
    case True
    then have "has_key (rt_checksums t) n" using capture_layer_done[OF l] Cons.prems(3) by simp
    then show ?thesis by (rule keepsD[OF capture_loop_keeps_done _ ls])
  next
    case False
    then show ?thesis using Cons.IH[OF ls] Cons.prems by simp
  qed
qed

lemma mapE_Inr: "mapE f xs = Inr ys \<Longrightarrow> x \<in> set xs \<Longrightarrow> \<exists>y \<in> set ys. f x = Inr y"
proof (induction xs arbitrary: ys)
  case Nil
  then show ?case by simp
next
  case (Cons z zs)
  then obtain w ws where "f z = Inr w" "mapE f zs = Inr ws" "ys = w # ws"
    by (auto simp: bindE_Inr_iff)
  then show ?case using Cons by auto
qed

lemma clear_snapshots_inv:
  assumes "swap_inv dg base state s" "rt_phase s = VERIFYING"
  shows "swap_inv dg base state (clear_snapshots s)"
  using assms
  by (simp add: swap_inv_def clear_snapshots_def names_inv_def captured_inv_def covered_def
      clean_phases_def clean_def has_key_def)

definition layers_captured :: "manifest \<Rightarrow> 't runtime \<Rightarrow> bool" where
  "layers_captured d s \<longleftrightarrow>
     (\<forall>ls. route_layers d = Inr ls \<longrightarrow>
        (\<forall>l\<in>set ls. \<forall>n. layer_name l = Inr n \<longrightarrow> has_key (rt_checksums s) n))"

lemma capture_snapshot_triple:
  assumes dg: "te_digest env = dg"
  shows "triple (\<lambda>s. swap_inv dg base state s \<and> rt_phase s = VERIFYING) (capture_snapshot env d)
           (\<lambda>_ s. swap_inv dg base state s \<and> rt_phase s = VERIFYING \<and> layers_captured d s)
           (\<lambda>s. swap_inv dg base state s \<and> rt_phase s = VERIFYING)"
    (is "triple ?P _ ?Q _")
proof -
  have step: "?P (fst (capture_snapshot env d s))
      \<and> (\<forall>u. snd (capture_snapshot env d s) = Inr u \<longrightarrow>
           layers_captured d (fst (capture_snapshot env d s)))" if P: "?P s" for s
  proof (cases "route_layers d")
    case (Inl e)
    then show ?thesis using P
      by (auto simp: capture_snapshot_def swap_inv_def names_inv_def)
  next
    case ls: (Inr ls)
    show ?thesis
    proof (cases "mapE layer_name ls")
      case (Inl e)
      then show ?thesis using P ls
        by (auto simp: capture_snapshot_def swap_inv_def names_inv_def)
    next
      case ns: (Inr ns)
      have model: "rt_model s = Some state" using P by (simp add: swap_inv_def names_inv_def)
      show ?thesis
      proof (cases "rt_snapshots s \<noteq> [] \<and> list_all (has_key (rt_snapshots s)) ns")
        case True
        then have "capture_snapshot env d s = (s, Inr ())"
          using ls ns model by (simp add: capture_snapshot_def)
        moreover have "layers_captured d s"
          using True P ls mapE_Inr[OF ns]
          by (fastforce simp: layers_captured_def list_all_iff swap_inv_def
              intro: snapshots_checksummed)
        ultimately show ?thesis using P by simp
      next
        case False
        then have run: "capture_snapshot env d s
            = forS (capture_layer env state) ls (clear_snapshots s)"
          using ls ns model
          by (auto simp: capture_snapshot_def bindS_def modS_def liftS_def)
        obtain t r where tr: "forS (capture_layer env state) ls (clear_snapshots s) = (t, r)"
          by fastforce
        have "rt_phase (clear_snapshots s) = VERIFYING"
          using P by (simp add: clear_snapshots_def)
        then have "?P (clear_snapshots s)"
          using P by (simp add: clear_snapshots_inv)
        then have "?P t" using keepsD[OF capture_loop_inv[OF dg] _ tr] by blast
        then show ?thesis
          using run tr ls capture_loop_done by (fastforce simp: layers_captured_def)
      qed
    qed
  qed
  show ?thesis
  proof (rule tripleI)
    show "?P s'" if "?P s" "capture_snapshot env d s = (s', Inl e)" for s s' e
      using step[OF that(1)] that(2) by simp
    show "?Q x s'" if "?P s" "capture_snapshot env d s = (s', Inr x)" for s s' x
      using step[OF that(1)] that(2) by simp
  qed
qed

section \<open>Writing to watched addresses\<close>

text \<open>Outside the clean phases a write to a watched address keeps the invariant.\<close>

lemma write_covered:
  assumes inv: "swap_inv dg base state s" and ph: "rt_phase s \<notin> clean_phases" and a: "covered s a"
  shows "swap_inv dg base state (write_mem a t s)"
proof -
  have ta: "target_address (write_mem a t s) n = target_address s n" for n
    by (rule target_address_cong) (simp_all add: write_mem_def)
  have "rt_model (write_mem a t s) = rt_model s" "rt_names (write_mem a t s) = rt_names s"
    "rt_checksums (write_mem a t s) = rt_checksums s" "rt_snapshots (write_mem a t s) = rt_snapshots s"
    "rt_phase (write_mem a t s) = rt_phase s" "rt_mem (write_mem a t s) = (rt_mem s)(a := t)"
    by (simp_all add: write_mem_def)
  moreover from this have cov: "covered (write_mem a t s) b = covered s b" for b
    by (simp add: covered_def ta)
  ultimately show ?thesis
    using inv ph a by (auto simp: swap_inv_def names_inv_def captured_inv_def ta cov)
qed

lemma write_mem_same [simp]:
  "rt_phase (write_mem a t s) = rt_phase s" "rt_checksums (write_mem a t s) = rt_checksums s"
  "rt_names (write_mem a t s) = rt_names s" "rt_model (write_mem a t s) = rt_model s"
  "rt_snapshots (write_mem a t s) = rt_snapshots s" "rt_active (write_mem a t s) = rt_active s"
  "rt_registry (write_mem a t s) = rt_registry s" "rt_mem (write_mem a t s) = (rt_mem s)(a := t)"
  by (simp_all add: write_mem_def)

lemma has_key_in: "(k, v) \<in> set d \<Longrightarrow> has_key d k"
  by (auto simp: has_key_def map_of_eq_None_iff image_iff Bex_def)

lemma checksummed_covered:
  assumes "swap_inv dg base state s" "has_key (rt_checksums s) n" "target_address s n = Inr a"
  shows "covered s a"
proof -
  obtain c where "(n, c) \<in> set (rt_checksums s)"
    using assms(2) by (auto simp: has_key_def dest: map_of_SomeD)
  then show ?thesis using assms(3) by (auto simp: covered_def)
qed

definition swapping_inv ::
  "('t \<Rightarrow> string) \<Rightarrow> (nat \<Rightarrow> 't) \<Rightarrow> (string, nat) dict \<Rightarrow> manifest \<Rightarrow> 't runtime \<Rightarrow> bool" where
  "swapping_inv dg base state d s \<longleftrightarrow>
     swap_inv dg base state s \<and> rt_phase s = SWAPPING \<and> layers_captured d s"

lemma swapping_write:
  assumes "swapping_inv dg base state d s" "covered s a"
  shows "swapping_inv dg base state d (write_mem a t s)"
  using assms write_covered[of dg base state s a t]
  unfolding swapping_inv_def layers_captured_def by (simp add: clean_phases_def)

lemma add_into_cases: "add_into env a d s = (s', r) \<Longrightarrow> s' = s \<or> (\<exists>t. s' = write_mem a t s)"
  by (auto simp: add_into_def split: sum.splits)

lemma swap_layer_cases:
  assumes "swap_layer env state d deltas layer s = (s', r)"
  shows "s' = s \<or> (\<exists>n a t. layer_name layer = Inr n
           \<and> map_of state (dict_get (rt_names s) n n) = Some a \<and> s' = write_mem a t s)"
proof (cases "layer_name layer")
  case (Inl e)
  then show ?thesis using assms by (simp add: swap_layer_def bindS_def liftS_def)
next
  case n: (Inr n)
  show ?thesis
  proof (cases "map_of state (dict_get (rt_names s) n n)")
    case None
    then show ?thesis using assms n by (simp add: swap_layer_def bindS_def liftS_def Let_def)
  next
    case (Some a)
    then have "s' = s \<or> (\<exists>t. s' = write_mem a t s)"
      using assms n
      by (simp add: swap_layer_def bindS_def liftS_def Let_def split: option.splits if_splits)
         (blast dest: add_into_cases)+
    then show ?thesis using n Some by blast
  qed
qed

lemma swap_layer_keeps:
  assumes ls: "route_layers d = Inr ls" and l: "layer \<in> set ls"
  shows "keeps (swapping_inv dg base state d) (swap_layer env state d deltas layer)"
proof (rule keepsI)
  fix s s' r
  assume inv: "swapping_inv dg base state d s" and run: "swap_layer env state d deltas layer s = (s', r)"
  consider "s' = s" | n a t where "layer_name layer = Inr n"
      "map_of state (dict_get (rt_names s) n n) = Some a" "s' = write_mem a t s"
    using swap_layer_cases[OF run] by blast
  then show "swapping_inv dg base state d s'"
  proof cases
    case 1
    then show ?thesis using inv by simp
  next
    case (2 n a t)
    have "has_key (rt_checksums s) n"
      using inv ls l 2(1) by (auto simp: swapping_inv_def layers_captured_def)
    moreover have "target_address s n = Inr a"
      using 2(2) inv by (simp add: target_address_def swapping_inv_def swap_inv_def names_inv_def)
    ultimately have "covered s a"
      using checksummed_covered[of dg base state s n a] inv by (simp add: swapping_inv_def)
    then show ?thesis using swapping_write[OF inv] 2(3) by simp
  qed
qed

lemma apply_swap_keeps: "keeps (swapping_inv dg base state d) (apply_swap env d deltas)"
proof (rule keepsI)
  fix s s' r
  assume inv: "swapping_inv dg base state d s" and run: "apply_swap env d deltas s = (s', r)"
  have m: "rt_model s = Some state"
    using inv by (simp add: swapping_inv_def swap_inv_def names_inv_def)
  consider "s' = s" | ls ds where "route_layers d = Inr ls"
      "forS (swap_layer env state d ds) ls s = (s', r)"
    using run m by (auto simp: apply_swap_def bindS_def liftS_def split: sum.splits if_splits)
  then show "swapping_inv dg base state d s'"
  proof cases
    case 1
    then show ?thesis using inv by simp
  next
    case (2 ls ds)
    have k: "keeps (swapping_inv dg base state d) (forS (swap_layer env state d ds) ls)"
      by (rule keeps_forS) (rule swap_layer_keeps[OF 2(1)])
    show ?thesis by (rule keepsD[OF k inv 2(2)])
  qed
qed

section \<open>Rollback\<close>

lemma rollback_keeps:
  "keeps (\<lambda>s. swap_inv dg base state s \<and> rt_phase s = ROLLING_BACK) (rollback env)"
    (is "keeps ?P _")
proof (rule keepsI)
  fix s s' r
  assume P: "?P s" and run: "rollback env s = (s', r)"
  let ?Q = "\<lambda>u. ?P u \<and> rt_snapshots u = rt_snapshots s"
  have "keeps ?Q (restore_layer env p)" if "p \<in> set (rt_snapshots s)" for p
  proof (rule keepsI)
    fix u u' q assume Q: "?Q u" and run: "restore_layer env p u = (u', q)"
    consider "u' = u" | a t where "target_address u (fst p) = Inr a" "u' = write_mem a t u"
      using run by (auto simp: restore_layer_def split: sum.splits)
    then show "?Q u'"
    proof cases
      case 1
      then show ?thesis using Q by simp
    next
      case (2 a t)
      have "has_key (rt_snapshots u) (fst p)"
        using that Q by (metis has_key_in prod.collapse)
      then have "has_key (rt_checksums u) (fst p)"
        using Q by (auto simp: swap_inv_def intro: snapshots_checksummed)
      then have "covered u a" using checksummed_covered Q 2(1) by blast
      then show ?thesis
        using 2(2) Q write_covered[of dg base state u a t] by (simp add: clean_phases_def)
    qed
  qed
  then have "keeps ?Q (forS (restore_layer env) (rt_snapshots s))"
    by (rule keeps_forS)
  then have "?Q s'"
    by (rule keepsD) (use P run in \<open>auto simp: rollback_def\<close>)
  then show "?P s'" by simp
qed

lemma checksums_match_ok:
  "checksums_match env s cs = Inr True \<Longrightarrow> (n, c) \<in> set cs \<Longrightarrow>
     \<exists>a. target_address s n = Inr a \<and> te_digest env (rt_mem s a) = c"
  by (induction cs) (auto simp: bindE_Inr_iff split: if_splits)

lemma checksums_match_total:
  "(\<And>n c. (n, c) \<in> set cs \<Longrightarrow> \<exists>a. target_address s n = Inr a) \<Longrightarrow>
     \<exists>b. checksums_match env s cs = Inr b"
proof (induction cs)
  case Nil
  show ?case by (rule exI [of _ True]) simp
next
  case (Cons p cs)
  obtain a where a: "target_address s (fst p) = Inr a" using Cons.prems[of "fst p" "snd p"] by auto
  obtain b where b: "checksums_match env s cs = Inr b" using Cons by (metis list.set_intros(2))
  have "checksums_match env s (p # cs) = Inr (te_digest env (rt_mem s a) = snd p \<and> b)"
    using a b by simp
  then show ?case by blast
qed

lemma verified_is_clean:
  assumes "swap_inv dg base state s" "te_digest env = dg" "verify_rollback env s = Inr True"
  shows "clean dg base s"
  unfolding clean_def
proof
  fix a
  show "dg (rt_mem s a) = dg (base a)"
  proof (cases "covered s a")
    case True
    then obtain n c where nc: "(n, c) \<in> set (rt_checksums s)" "target_address s n = Inr a"
      by (auto simp: covered_def)
    then have "c = dg (base a)" using assms(1) by (fastforce simp: swap_inv_def captured_inv_def)
    moreover have "dg (rt_mem s a) = c"
      using checksums_match_ok[of env s "rt_checksums s" n c] assms(2,3) nc
      by (auto simp: verify_rollback_def)
    ultimately show ?thesis by simp
  next
    case False
    then show ?thesis using assms(1) by (simp add: swap_inv_def)
  qed
qed

lemma verify_rollback_total:
  assumes "swap_inv dg base state s"
  shows "\<exists>b. verify_rollback env s = Inr b"
  unfolding verify_rollback_def
  by (rule checksums_match_total) (use assms in \<open>auto simp: swap_inv_def captured_inv_def\<close>)

lemma only_mem_writes:
  assumes "\<And>x s s' r. f x s = (s', r) \<Longrightarrow> s' = s \<or> (\<exists>a t. s' = write_mem a t s)"
  shows "keeps (\<lambda>u. \<exists>m. u = s\<lparr>rt_mem := m\<rparr>) (forS f xs)"
proof (rule keeps_forS, rule keepsI)
  fix x u u' r assume u: "\<exists>m. u = s\<lparr>rt_mem := m\<rparr>" and run: "f x u = (u', r)"
  then obtain m where m: "u = s\<lparr>rt_mem := m\<rparr>" by blast
  show "\<exists>m. u' = s\<lparr>rt_mem := m\<rparr>"
    using assms[OF run] m by (auto simp: write_mem_def)
qed

lemma rollback_only_mem:
  assumes "rollback env s = (s', r)"
  shows "\<exists>m. s' = s\<lparr>rt_mem := m\<rparr>"
proof -
  have k: "keeps (\<lambda>u. \<exists>m. u = s\<lparr>rt_mem := m\<rparr>) (forS (restore_layer env) (rt_snapshots s))"
    by (rule only_mem_writes) (auto simp: restore_layer_def split: sum.splits)
  have run: "forS (restore_layer env) (rt_snapshots s) s = (s', r)"
    using assms by (simp add: rollback_def)
  have "\<exists>m. s = s\<lparr>rt_mem := m\<rparr>" by (rule exI[of _ "rt_mem s"]) simp
  then show ?thesis by (rule keepsD[OF k _ run])
qed

definition settled :: "runtime_phase set" where
  "settled = {READY, WORKER_QUARANTINED}"

text \<open>Rollback never raises under the invariant, keeps it, and settles: either the weights were
  verified to be the base weights and the phase is READY, or the worker is quarantined.\<close>

lemma perform_rollback_settles:
  assumes inv: "swap_inv dg base state s" and dg: "te_digest env = dg"
  shows "\<exists>s'. perform_rollback env r t i s = (s', Inr ()) \<and> swap_inv dg base state s'
    \<and> rt_phase s' \<in> settled \<and> rt_active s' = rt_active s \<and> rt_registry s' = rt_registry s"
proof -
  let ?s1 = "log_event r t i ''rollback_started'' ''pending'' 0 [] (transition_or_force env ROLLING_BACK s)"
  let ?P = "\<lambda>s. swap_inv dg base state s \<and> rt_phase s = ROLLING_BACK"
  have P1: "?P ?s1"
    using inv by (auto simp: frame_simps clean_phases_def intro: swap_inv_core[OF _ _ inv])
  obtain s2 q where roll: "rollback env ?s1 = (s2, q)" by fastforce
  have P2: "?P s2" using keepsD[OF rollback_keeps P1 roll] .
  obtain m where "s2 = ?s1\<lparr>rt_mem := m\<rparr>" using rollback_only_mem[OF roll] by blast
  then have same2: "rt_active s2 = rt_active s" "rt_registry s2 = rt_registry s"
    by (simp_all add: frame_simps)
  let ?s3 = "set_timing env ''rollback_latency'' s2"
  have P3: "?P ?s3"
    using P2 by (auto simp: frame_simps intro: swap_inv_core[of _ s2])
  have quarantine: "core u = core s2 \<Longrightarrow> rt_phase u = WORKER_QUARANTINED \<Longrightarrow> swap_inv dg base state u" for u
    by (rule swap_inv_core[of u s2]) (use P2 in \<open>auto simp: clean_phases_def\<close>)
  show ?thesis
  proof (cases q)
    case (Inl e)
    define v where "v = apply_verdict env (evaluate_failure ROLLBACK_EXCEPTION) i r t ?s3"
    have v: "snd v = Inr ()" "core (fst v) = core s2" "rt_phase (fst v) = WORKER_QUARANTINED"
      "rt_active (fst v) = rt_active s" "rt_registry (fst v) = rt_registry s"
      using rollback_failure_applied[of ROLLBACK_EXCEPTION env i r t ?s3] same2
      by (simp_all add: v_def frame_simps)
    have ve: "apply_verdict env (evaluate_failure ROLLBACK_EXCEPTION) i r t ?s3 = (fst v, Inr ())"
      using v(1) by (simp add: v_def prod_eq_iff)
    have "perform_rollback env r t i s
        = (log_event r t i ''rollback_failed'' ''failure'' (te_dur env ''rollback_latency'' * 1000)
             [(''failure_reason'', exc_msg e)] (fst v), Inr ())"
      using roll Inl ve by (simp add: perform_rollback_def Let_def bindS_def modS_def)
    then show ?thesis using v quarantine by (simp add: frame_simps settled_def)
  next
    case (Inr u)
    obtain b where b: "verify_rollback env ?s3 = Inr b" using verify_rollback_total P3 by blast
    show ?thesis
    proof (cases b)
      case False
      define v where "v = apply_verdict env (evaluate_failure ROLLBACK_CHECKSUM_MISMATCH) i r t ?s3"
      have v: "snd v = Inr ()" "core (fst v) = core s2" "rt_phase (fst v) = WORKER_QUARANTINED"
        "rt_active (fst v) = rt_active s" "rt_registry (fst v) = rt_registry s"
        using rollback_failure_applied[of ROLLBACK_CHECKSUM_MISMATCH env i r t ?s3] same2
        by (simp_all add: v_def frame_simps)
      have ve: "apply_verdict env (evaluate_failure ROLLBACK_CHECKSUM_MISMATCH) i r t ?s3
          = (fst v, Inr ())"
        using v(1) by (simp add: v_def prod_eq_iff)
      have "perform_rollback env r t i s
          = (log_event r t i ''rollback_failed'' ''failure'' (te_dur env ''rollback_latency'' * 1000)
               [(''failure_reason'', ''Checksum mismatch after rollback'')] (fst v), Inr ())"
        using roll Inr b False ve by (simp add: perform_rollback_def Let_def bindS_def modS_def)
      then show ?thesis using v quarantine by (simp add: frame_simps settled_def)
    next
      case True
      define s5 where "s5 = write_audit_event env ''rollback_completed'' i
          (log_event r t i ''rollback_completed'' ''success'' (te_dur env ''rollback_latency'' * 1000) []
             (?s3\<lparr>rt_rollbacks := rt_rollbacks ?s3 + 1\<rparr>))"
      have run: "perform_rollback env r t i s = (transition_or_force env READY s5, Inr ())"
        using roll Inr b True by (simp add: perform_rollback_def Let_def s5_def)
      have c5: "core s5 = core s2" "rt_active s5 = rt_active s" "rt_registry s5 = rt_registry s"
        using same2 by (simp_all add: s5_def frame_simps)
      have "clean dg base ?s3" using verified_is_clean[OF _ dg, of base state ?s3] P3 b True by simp
      then have "clean dg base s2" by (simp add: clean_def set_timing_def)
      then have "swap_inv dg base state (transition_or_force env READY s5)"
        using P2 c5 swap_inv_core_clean[of _ s2] by (simp add: frame_simps)
      then show ?thesis using run c5 by (simp add: frame_simps settled_def)
    qed
  qed
qed

text \<open>With copies that write the snapshot, the rollback succeeds.\<close>

definition faithful_copy :: "'t runtime_env \<Rightarrow> bool" where
  "faithful_copy env \<longleftrightarrow> (\<forall>old new. te_copy env old new = Inr new)"

lemma restore_all:
  assumes fc: "faithful_copy env"
    and "\<And>n v. (n, v) \<in> set ps \<Longrightarrow> \<exists>a. target_address s n = Inr a \<and> dg v = dg (base a)"
  shows "\<exists>m. forS (restore_layer env) ps s = (s\<lparr>rt_mem := m\<rparr>, Inr ())
    \<and> (\<forall>a. dg (rt_mem s a) = dg (base a) \<longrightarrow> dg (m a) = dg (base a))
    \<and> (\<forall>n v a. (n, v) \<in> set ps \<longrightarrow> target_address s n = Inr a \<longrightarrow> dg (m a) = dg (base a))"
  using assms(2)
proof (induction ps arbitrary: s)
  case Nil
  show ?case by (rule exI[of _ "rt_mem s"]) simp
next
  case (Cons p ps)
  obtain n v where p: "p = (n, v)" by fastforce
  obtain b where b: "target_address s n = Inr b" "dg v = dg (base b)" using Cons.prems[of n v] p by auto
  let ?u = "write_mem b v s"
  have ta: "target_address ?u k = target_address s k" for k by (rule target_address_cong) simp_all
  have step: "restore_layer env p s = (?u, Inr ())"
    using b(1) fc p by (simp add: restore_layer_def faithful_copy_def)
  have prems: "\<exists>a. target_address ?u k = Inr a \<and> dg w = dg (base a)" if "(k, w) \<in> set ps" for k w
    using Cons.prems[of k w] that ta by simp
  obtain m where m: "forS (restore_layer env) ps ?u = (?u\<lparr>rt_mem := m\<rparr>, Inr ())"
    "\<And>a. dg (rt_mem ?u a) = dg (base a) \<Longrightarrow> dg (m a) = dg (base a)"
    "\<And>k w a. (k, w) \<in> set ps \<Longrightarrow> target_address s k = Inr a \<Longrightarrow> dg (m a) = dg (base a)"
    using Cons.IH[of ?u, OF prems] unfolding ta by blast
  have "?u\<lparr>rt_mem := m\<rparr> = s\<lparr>rt_mem := m\<rparr>" by (simp add: write_mem_def)
  moreover have "dg (m a) = dg (base a)" if "dg (rt_mem s a) = dg (base a)" for a
    using m(2)[of a] that b(2) by auto
  moreover have "dg (m a) = dg (base a)" if "(k, w) = p" "target_address s k = Inr a" for k w a
    using m(2)[of a] that b p by auto
  ultimately show ?case using step m(1,3) by (intro exI[of _ m]) auto
qed

lemma perform_rollback_recovers:
  assumes inv: "swap_inv dg base state s" and dg: "te_digest env = dg" and fc: "faithful_copy env"
  shows "rt_phase (fst (perform_rollback env r t i s)) = READY"
proof -
  let ?s1 = "log_event r t i ''rollback_started'' ''pending'' 0 [] (transition_or_force env ROLLING_BACK s)"
  have inv1: "swap_inv dg base state ?s1"
    by (rule swap_inv_core[of _ s]) (simp_all add: frame_simps clean_phases_def inv)
  then have cap: "captured_inv dg base ?s1" by (simp add: swap_inv_def)
  obtain m where m: "rollback env ?s1 = (?s1\<lparr>rt_mem := m\<rparr>, Inr ())"
    "\<And>a. dg (rt_mem ?s1 a) = dg (base a) \<Longrightarrow> dg (m a) = dg (base a)"
    "\<And>n v a. (n, v) \<in> set (rt_snapshots ?s1) \<Longrightarrow> target_address ?s1 n = Inr a \<Longrightarrow> dg (m a) = dg (base a)"
    using restore_all[OF fc, of "rt_snapshots ?s1" ?s1 dg base] snapshot_entry[OF cap]
    unfolding rollback_def by blast
  let ?s2 = "?s1\<lparr>rt_mem := m\<rparr>"
  let ?s3 = "set_timing env ''rollback_latency'' ?s2"
  have ta: "target_address ?s3 n = target_address ?s1 n" for n
    by (rule target_address_cong) (simp_all add: set_timing_def)
  have entry: "\<exists>a. target_address ?s3 n = Inr a \<and> te_digest env (rt_mem ?s3 a) = c"
    if nc: "(n, c) \<in> set (rt_checksums ?s3)" for n c
  proof -
    have "(n, c) \<in> set (rt_checksums ?s1)" using nc by (simp add: set_timing_def)
    then obtain a where a: "target_address ?s1 n = Inr a" "c = dg (base a)"
      and "has_key (rt_snapshots ?s1) n"
      using checksum_entry[OF cap] by blast
    then obtain v where "(n, v) \<in> set (rt_snapshots ?s1)"
      by (auto simp: has_key_def dest: map_of_SomeD)
    then have "dg (m a) = dg (base a)" using m(3) a(1) by blast
    then show ?thesis using a dg ta by (auto simp: set_timing_def)
  qed
  have "checksums_match env ?s3 cs = Inr True" if "set cs \<subseteq> set (rt_checksums ?s3)" for cs
    using that
  proof (induction cs)
    case (Cons p cs)
    then show ?case using entry[of "fst p" "snd p"] by auto
  qed simp
  then have "verify_rollback env ?s3 = Inr True" by (simp add: verify_rollback_def)
  then show ?thesis
    using m(1) by (simp add: perform_rollback_def Let_def frame_simps)
qed

section \<open>The gateway\<close>

lemma clean_phase_pred: "p \<noteq> READY \<Longrightarrow> p \<in> clean_phases \<Longrightarrow> p \<in> valid_transitions q \<Longrightarrow> q \<in> clean_phases"
  by (cases q) (auto simp: clean_phases_def)

lemma layers_captured_core: "core s = core t \<Longrightarrow> layers_captured d s = layers_captured d t"
  by (simp add: layers_captured_def core_def)

definition cycle_inv ::
  "('t \<Rightarrow> string) \<Rightarrow> (nat \<Rightarrow> 't) \<Rightarrow> (string, nat) dict \<Rightarrow> manifest \<Rightarrow> runtime_phase \<Rightarrow> 't runtime \<Rightarrow> bool" where
  "cycle_inv dg base state d p s \<longleftrightarrow>
     swap_inv dg base state s \<and> rt_phase s = p \<and> (p \<noteq> VERIFYING \<longrightarrow> layers_captured d s)"

lemma transition_triple:
  assumes "p \<noteq> READY"
  shows "triple (\<lambda>s. swap_inv dg base state s \<and> (p \<noteq> VERIFYING \<longrightarrow> layers_captured d s))
           (rt_transition env r i p) (\<lambda>_. cycle_inv dg base state d p) (swap_inv dg base state)"
proof (rule tripleI)
  fix s s' x
  assume P: "swap_inv dg base state s \<and> (p \<noteq> VERIFYING \<longrightarrow> layers_captured d s)"
    and run: "rt_transition env r i p s = (s', Inr x)"
  have t: "core s' = core s" "rt_phase s' = p" "p \<in> valid_transitions (rt_phase s)"
    using rt_transition_Inr[OF run] by simp_all
  have "swap_inv dg base state s'"
    by (rule swap_inv_core[OF t(1)]) (use P t clean_phase_pred[OF assms] in auto)
  then show "cycle_inv dg base state d p s'"
    using P t layers_captured_core[OF t(1)] by (simp add: cycle_inv_def)
qed (use rt_transition_Inl in blast)

lemma note_triple:
  "triple (cycle_inv dg base state d p) (modS (log_event r t i ev st l x))
     (\<lambda>_. cycle_inv dg base state d p) (swap_inv dg base state)"
proof (rule triple_modS)
  fix s assume P: "cycle_inv dg base state d p s"
  then have "swap_inv dg base state (log_event r t i ev st l x s)"
    by - (rule swap_inv_core[of _ s], simp_all add: frame_simps cycle_inv_def)
  then show "cycle_inv dg base state d p (log_event r t i ev st l x s)"
    using P layers_captured_core[of "log_event r t i ev st l x s" s]
    by (simp add: cycle_inv_def frame_simps)
qed

lemma timing_triple:
  "triple (swapping_inv dg base state d) (modS (set_timing env k))
     (\<lambda>_. swapping_inv dg base state d) (swap_inv dg base state)"
proof (rule triple_modS)
  fix s assume P: "swapping_inv dg base state d s"
  then have "swap_inv dg base state (set_timing env k s)"
    by - (rule swap_inv_core[of _ s], simp_all add: frame_simps swapping_inv_def)
  then show "swapping_inv dg base state d (set_timing env k s)"
    using P layers_captured_core[of "set_timing env k s" s]
    by (simp add: swapping_inv_def frame_simps)
qed

lemma swapping_is_cycle: "swapping_inv dg base state d s \<longleftrightarrow> cycle_inv dg base state d SWAPPING s"
  by (auto simp: swapping_inv_def cycle_inv_def)

lemma apply_swap_triple:
  "triple (cycle_inv dg base state d SWAPPING) (apply_swap env d deltas)
     (\<lambda>_. swapping_inv dg base state d) (swap_inv dg base state)"
  by (rule triple_conseq[OF triple_keeps[OF apply_swap_keeps[of dg base state d]]])
     (simp_all add: swapping_is_cycle, simp add: cycle_inv_def)

lemma capture_triple:
  "te_digest env = dg \<Longrightarrow>
   triple (cycle_inv dg base state d VERIFYING) (capture_snapshot env d)
     (\<lambda>_ s. swap_inv dg base state s \<and> (SNAPSHOT_CAPTURED \<noteq> VERIFYING \<longrightarrow> layers_captured d s))
     (swap_inv dg base state)"
  by (rule triple_conseq[OF capture_snapshot_triple[of env dg base state d]])
     (simp_all add: cycle_inv_def)

lemma advance_triple:
  assumes "p \<noteq> READY" "q \<noteq> VERIFYING"
  shows "triple (cycle_inv dg base state d q) (rt_transition env r i p)
           (\<lambda>_. cycle_inv dg base state d p) (swap_inv dg base state)"
  by (rule triple_conseq[OF transition_triple[OF assms(1), of dg base state d]])
     (simp_all add: cycle_inv_def assms(2))

lemma start_triple:
  "triple (swap_inv dg base state) (rt_transition env r i VERIFYING)
     (\<lambda>_. cycle_inv dg base state d VERIFYING) (swap_inv dg base state)"
  by (rule triple_conseq[OF transition_triple[of VERIFYING dg base state d]]) simp_all

lemma finish_swap_triple:
  "triple (swapping_inv dg base state d) (rt_transition env r i SWAPPED)
     (\<lambda>_. cycle_inv dg base state d SWAPPED) (swap_inv dg base state)"
  by (rule triple_conseq[OF advance_triple[of SWAPPED SWAPPING dg base state d]])
     (simp_all add: swapping_is_cycle)

lemma forward_triple:
  "triple (cycle_inv dg base state d p) (\<lambda>s. (s, f (rt_mem s)))
     (\<lambda>_. cycle_inv dg base state d p) (swap_inv dg base state)"
  by (rule tripleI) (auto simp: cycle_inv_def)

lemma infer_cycle_triple:
  assumes "te_digest env = dg"
  shows "triple (swap_inv dg base state) (infer_cycle env r t i d deltas f)
           (\<lambda>_. swap_inv dg base state) (swap_inv dg base state)"
  unfolding infer_cycle_def Let_def
  apply (rule triple_bindS[OF start_triple[where d = d]])
  apply (rule triple_bindS[OF note_triple])
  apply (rule triple_bindS[OF capture_triple[OF assms]])
  apply (rule triple_bindS[OF transition_triple], simp)
  apply (rule triple_bindS[OF note_triple])
  apply (rule triple_bindS[OF advance_triple], simp, simp)
  apply (rule triple_bindS[OF note_triple])
  apply (rule triple_bindS[OF apply_swap_triple])
  apply (rule triple_bindS[OF timing_triple])
  apply (rule triple_bindS[OF finish_swap_triple])
  apply (rule triple_bindS[OF note_triple])
  apply (rule triple_bindS[OF advance_triple], simp, simp)
  apply (rule triple_bindS[OF note_triple])
  apply (rule triple_bindS[OF forward_triple])
  apply (rule triple_bindS[OF note_triple])
  apply (rule triple_liftS; simp add: cycle_inv_def)
  done

lemma infer_locked_settles:
  assumes inv: "swap_inv dg base state s" and dg: "te_digest env = dg"
    and run: "infer_locked env r t i d deltas f s = (s', q)"
  shows "swap_inv dg base state s' \<and> rt_phase s' \<in> settled"
proof -
  obtain s1 q1 where c: "infer_cycle env r t i d deltas f s = (s1, q1)" by fastforce
  have i1: "swap_inv dg base state s1"
    using triple_any[OF infer_cycle_triple[OF dg] inv, of r t i d deltas f] c by simp
  show ?thesis
  proof (cases q1)
    case (Inl e)
    define s2 where "s2 = log_event r t i ''exception_during_lifecycle'' ''failure'' 0
        [(''failure_reason'', exc_msg e)] s1"
    have "swap_inv dg base state s2"
      by (rule swap_inv_core[of _ s1]) (simp_all add: s2_def frame_simps i1)
    then obtain s3 where "perform_rollback env r t i s2 = (s3, Inr ())"
      "swap_inv dg base state s3" "rt_phase s3 \<in> settled"
      using perform_rollback_settles[OF _ dg] by blast
    then show ?thesis
      using run c Inl by (simp add: infer_locked_def bindS_def modS_def liftS_def s2_def)
  next
    case (Inr out)
    obtain s3 where "perform_rollback env r t i s1 = (s3, Inr ())"
      "swap_inv dg base state s3" "rt_phase s3 \<in> settled"
      using perform_rollback_settles[OF i1 dg] by blast
    then show ?thesis
      using run c Inr by (simp add: infer_locked_def bindS_def liftS_def)
  qed
qed

lemma verify_route_frame:
  assumes "verify_route env r t i b s = (s', q)"
  shows "core s' = core s \<and> rt_sm s' = rt_sm s \<and> rt_active s' = rt_active s
         \<and> rt_registry s' = rt_registry s"
  using assms by (auto simp: verify_route_def frame_simps split: sum.splits if_splits)

lemma payload_error_class:
  assumes "validate_payload env d b m = Inl (PayloadError fc detail)"
  shows "fc \<in> payload_failures"
  using payload_ok_validate[of env d b m] assms by (simp add: payload_ok_def payload_class_def)

lemma apply_payload_verdict:
  assumes fc: "fc \<in> payload_failures" and run: "apply_verdict env (evaluate_failure fc) i r t s = (s', q)"
  shows "core s' = core s \<and> rt_active s' = rt_active s
         \<and> (rt_phase s' = rt_phase s
            \<or> rt_phase s' = ROUTE_QUARANTINED \<and> ROUTE_QUARANTINED \<in> valid_transitions (rt_phase s))"
proof (cases "fc = PAYLOAD_TOO_LARGE")
  case True
  then show ?thesis
    using payload_verdict_quarantines_route[of fc] fc run by (simp add: apply_verdict_def)
next
  case False
  then have v: "fv_target_phase (evaluate_failure fc) = ROUTE_QUARANTINED"
    "fv_scope (evaluate_failure fc) = Some ROUTE"
    using payload_verdict_quarantines_route[of fc] fc by auto
  show ?thesis
  proof (cases "quarantine_route i (fv_message (evaluate_failure fc)) (rt_registry s)")
    case (Inl e)
    then show ?thesis using run v by (simp add: apply_verdict_def)
  next
    case (Inr reg)
    obtain s1 p where tr: "rt_transition env (fv_message (evaluate_failure fc)) [] ROUTE_QUARANTINED
        (s\<lparr>rt_registry := reg\<rparr>) = (s1, p)" by fastforce
    then have "s' = log_event r t i ''route_quarantined'' ''failure'' 0
        [(''failure_reason'', fv_message (evaluate_failure fc))] s1"
      using run v Inr by (simp add: apply_verdict_def Let_def)
    moreover have "core s1 = core s \<and> rt_active s1 = rt_active s \<and> (rt_phase s1 = rt_phase s
        \<or> rt_phase s1 = ROUTE_QUARANTINED \<and> ROUTE_QUARANTINED \<in> valid_transitions (rt_phase s))"
    proof (cases p)
      case (Inl e)
      have "s1 = s\<lparr>rt_registry := reg\<rparr>" using rt_transition_Inl tr Inl by metis
      then show ?thesis by (simp add: frame_simps)
    next
      case (Inr u)
      then show ?thesis using rt_transition_Inr[of env _ _ _ "s\<lparr>rt_registry := reg\<rparr>" s1 u] tr
        by (auto simp: frame_simps)
    qed
    ultimately show ?thesis by (simp add: frame_simps)
  qed
qed

lemma validate_step_frame:
  assumes run: "validate_step env r t i d s = (s', q)"
  shows "core s' = core s \<and> rt_active s' = rt_active s
         \<and> (rt_phase s' = rt_phase s
            \<or> rt_phase s' = ROUTE_QUARANTINED \<and> ROUTE_QUARANTINED \<in> valid_transitions (rt_phase s))"
proof (cases "validate_payload (te_payload env) d (rt_base_dir s) (rt_max_bytes s)")
  case (Inr ds)
  then show ?thesis
    using run by (auto simp: validate_step_def Let_def frame_simps split: if_splits)
next
  case (Inl pe)
  show ?thesis
  proof (cases pe)
    case (OtherError e)
    then show ?thesis using run Inl by (simp add: validate_step_def)
  next
    case (PayloadError fc detail)
    obtain s1 q1 where a: "apply_verdict env (evaluate_failure fc) i r t s = (s1, q1)" by fastforce
    have "fc \<in> payload_failures" using payload_error_class Inl PayloadError by blast
    then show ?thesis
      using apply_payload_verdict[OF _ a] run Inl PayloadError a
      by (cases q1) (auto simp: validate_step_def Let_def bindS_def modS_def liftS_def frame_simps)
  qed
qed

text \<open>Between calls the runtime is ready, persistently swapped, or its worker is quarantined.\<close>

definition steady :: "'t runtime \<Rightarrow> bool" where
  "steady s \<longleftrightarrow> rt_phase s \<in> {READY, SWAPPED, WORKER_QUARANTINED}
               \<and> (rt_phase s = SWAPPED \<longrightarrow> rt_active s \<noteq> base_route)"

definition safe :: "('t \<Rightarrow> string) \<Rightarrow> (nat \<Rightarrow> 't) \<Rightarrow> (string, nat) dict \<Rightarrow> 't runtime \<Rightarrow> bool" where
  "safe dg base state s \<longleftrightarrow> swap_inv dg base state s \<and> steady s"

lemma quiet_step:
  assumes "safe dg base state s" "core s' = core s" "rt_active s' = rt_active s"
    and "rt_phase s' = rt_phase s
         \<or> rt_phase s' = ROUTE_QUARANTINED \<and> ROUTE_QUARANTINED \<in> valid_transitions (rt_phase s)"
  shows "safe dg base state s'" "rt_phase s' = rt_phase s"
proof -
  show ph: "rt_phase s' = rt_phase s" using assms(1,4) by (auto simp: safe_def steady_def)
  have "swap_inv dg base state s'"
    by (rule swap_inv_core[OF assms(2)]) (use assms(1) ph in \<open>auto simp: safe_def\<close>)
  then show "safe dg base state s'" using assms(1,3) ph by (simp add: safe_def steady_def)
qed

lemma settled_safe:
  "swap_inv dg base state s \<Longrightarrow> rt_phase s \<in> settled \<Longrightarrow> safe dg base state s"
  by (auto simp: safe_def steady_def settled_def)

lemma infer_safe:
  assumes inv: "safe dg base state s" and dg: "te_digest env = dg"
    and run: "infer env i t r f s = (s', q)"
  shows "safe dg base state s' \<and> (\<forall>out. q = Inr out \<longrightarrow> rt_phase s' = READY)"
proof (cases "is_terminal (rt_sm s)")
  case True
  then show ?thesis using run inv by (auto simp: infer_def)
next
  case live: False
  obtain s1 q1 where v: "verify_route env r t i True s = (s1, q1)" by fastforce
  have safe1: "safe dg base state s1"
    using quiet_step(1)[OF inv, of s1] verify_route_frame[OF v] by simp
  show ?thesis
  proof (cases q1)
    case (Inl e)
    then show ?thesis using run live v safe1 by (auto simp: infer_def bindS_def)
  next
    case d: (Inr d)
    obtain s2 q2 where w: "validate_step env r t i d s1 = (s2, q2)" by fastforce
    have safe2: "safe dg base state s2"
      using quiet_step(1)[OF safe1, of s2] validate_step_frame[OF w] by simp
    show ?thesis
    proof (cases q2)
      case (Inl e)
      then show ?thesis using run live v d w safe2 by (auto simp: infer_def bindS_def)
    next
      case ds: (Inr ds)
      let ?s3 = "set_timing env ''lock_wait_time'' s2"
      have "safe dg base state ?s3"
        using quiet_step(1)[OF safe2, of ?s3] by (simp add: frame_simps)
      then have inv3: "swap_inv dg base state ?s3" by (simp add: safe_def)
      obtain s4 q4 where l: "infer_locked env r t i d ds f ?s3 = (s4, q4)" by fastforce
      have s4: "swap_inv dg base state s4" "rt_phase s4 \<in> settled"
        using infer_locked_settles[OF inv3 dg l] by simp_all
      have "s' = s4 \<and> (\<forall>out. q = Inr out \<longrightarrow> \<not> is_terminal (rt_sm s4))"
        using run live v d w ds l
        by (cases q4) (auto simp: infer_def bindS_def modS_def split: if_splits)
      then show ?thesis
        using settled_safe[OF s4] s4(2) by (auto simp: settled_def is_terminal_def)
    qed
  qed
qed

lemma leave_route_safe:
  assumes inv: "safe dg base state s" and dg: "te_digest env = dg"
  shows "\<exists>s'. leave_route env r t s = (s', Inr ()) \<and> safe dg base state s'
    \<and> rt_active s' = base_route \<and> (rt_active s = base_route \<longrightarrow> s' = s)
    \<and> rt_phase s' \<in> settled \<and> rt_registry s' = rt_registry s"
proof (cases "rt_active s = base_route")
  case True
  then show ?thesis using inv by (auto simp: leave_route_def safe_def steady_def settled_def)
next
  case False
  obtain s1 where s1: "perform_rollback env r t (rt_active s) s = (s1, Inr ())"
    "swap_inv dg base state s1" "rt_phase s1 \<in> settled" "rt_registry s1 = rt_registry s"
    using perform_rollback_settles[OF _ dg] inv unfolding safe_def by blast
  have "swap_inv dg base state (s1\<lparr>rt_active := base_route\<rparr>)"
    by (rule swap_inv_core[of _ s1]) (use s1 in \<open>simp_all add: frame_simps\<close>)
  then show ?thesis
    using s1 False settled_safe[of dg base state "s1\<lparr>rt_active := base_route\<rparr>"]
    by (simp add: leave_route_def bindS_def modS_def)
qed

lemma clear_active_route_safe:
  assumes inv: "safe dg base state s" and dg: "te_digest env = dg"
  shows "safe dg base state (fst (clear_active_route env s))
         \<and> snd (clear_active_route env s) = Inr (rt_active s \<noteq> base_route)"
proof (cases "rt_active s = base_route")
  case True
  then show ?thesis using inv by (simp add: clear_active_route_def)
next
  case False
  obtain s1 where s1: "perform_rollback env ''cleanup'' ''system'' (rt_active s) s = (s1, Inr ())"
    "swap_inv dg base state s1" "rt_phase s1 \<in> settled"
    using perform_rollback_settles[OF _ dg] inv unfolding safe_def by blast
  have "swap_inv dg base state (s1\<lparr>rt_active := base_route\<rparr>)"
    by (rule swap_inv_core[of _ s1]) (use s1 in \<open>simp_all add: frame_simps\<close>)
  then show ?thesis
    using s1 False settled_safe[of dg base state "s1\<lparr>rt_active := base_route\<rparr>"]
    by (simp add: clear_active_route_def bindS_def modS_def liftS_def)
qed

lemma ensure_cycle_triple:
  assumes "te_digest env = dg"
  shows "triple (swap_inv dg base state) (ensure_cycle env r t i d deltas)
           (\<lambda>_ s. swap_inv dg base state s \<and> rt_phase s = SWAPPED \<and> rt_active s = i)
           (swap_inv dg base state)"
proof -
  let ?Q = "\<lambda>s. swap_inv dg base state s \<and> rt_phase s = SWAPPED \<and> rt_active s = i"
  have keep: "core s' = core s \<Longrightarrow> rt_phase s' = rt_phase s \<Longrightarrow> rt_active s' = rt_active s \<Longrightarrow> ?Q s \<Longrightarrow> ?Q s'"
    for s s' using swap_inv_core[of s' s dg base state] by simp
  have set_active: "triple (cycle_inv dg base state d SWAPPED)
      (modS (\<lambda>s. s\<lparr>rt_active := i, rt_swaps := rt_swaps s + 1\<rparr>)) (\<lambda>_. ?Q) (swap_inv dg base state)"
  proof (rule triple_modS)
    fix s assume P: "cycle_inv dg base state d SWAPPED s"
    have "swap_inv dg base state (s\<lparr>rt_active := i, rt_swaps := rt_swaps s + 1\<rparr>)"
      by (rule swap_inv_core[of _ s]) (use P in \<open>simp_all add: cycle_inv_def core_def\<close>)
    then show "?Q (s\<lparr>rt_active := i, rt_swaps := rt_swaps s + 1\<rparr>)" using P by (simp add: cycle_inv_def)
  qed
  show ?thesis
    unfolding ensure_cycle_def
    apply (rule triple_bindS[OF start_triple[where d = d]])
    apply (rule triple_bindS[OF capture_triple[OF assms]])
    apply (rule triple_bindS[OF transition_triple], simp)
    apply (rule triple_bindS[OF advance_triple], simp, simp)
    apply (rule triple_bindS[OF apply_swap_triple])
    apply (rule triple_bindS[OF finish_swap_triple])
    apply (rule triple_bindS[OF set_active])
    apply (rule triple_bindS[where Q = "\<lambda>_. ?Q"])
     apply (rule triple_modS, rule keep; simp add: frame_simps)
    apply (rule triple_bindS[where Q = "\<lambda>_. ?Q"])
     apply (rule triple_modS, rule keep; simp add: frame_simps)
    apply (rule triple_liftS; simp)
    done
qed

lemma ensure_locked_safe:
  assumes inv: "safe dg base state s" and dg: "te_digest env = dg" and i: "i \<noteq> base_route"
    and run: "ensure_locked env r t i d deltas s = (s', q)"
  shows "safe dg base state s'
    \<and> (\<forall>b. q = Inr b \<longrightarrow> rt_phase s' = SWAPPED \<and> rt_active s' = i)
    \<and> (\<forall>e. q = Inl e \<longrightarrow> rt_phase s' \<in> settled \<and> rt_active s' = base_route)"
proof -
  have inv': "swap_inv dg base state s" using inv by (simp add: safe_def)
  obtain s1 q1 where c: "ensure_cycle env r t i d deltas s = (s1, q1)" by fastforce
  show ?thesis
  proof (cases q1)
    case (Inr b)
    then have "swap_inv dg base state s1 \<and> rt_phase s1 = SWAPPED \<and> rt_active s1 = i"
      using triple_Inr[OF ensure_cycle_triple[OF dg] inv'] c by blast
    then show ?thesis using run c Inr i
      by (auto simp: ensure_locked_def catchS_def safe_def steady_def)
  next
    case (Inl e)
    define s2 where "s2 = log_event r t i ''swap_failed'' ''failure'' 0 [(''failure_reason'', exc_msg e)] s1"
    have "swap_inv dg base state s1"
      using triple_Inl[OF ensure_cycle_triple[OF dg] inv'] c Inl by blast
    then have "swap_inv dg base state s2"
      by - (rule swap_inv_core[of _ s1], simp_all add: s2_def frame_simps)
    then obtain s3 where s3: "perform_rollback env r t i s2 = (s3, Inr ())"
      "swap_inv dg base state s3" "rt_phase s3 \<in> settled"
      using perform_rollback_settles[OF _ dg] by blast
    let ?s4 = "s3\<lparr>rt_active := base_route\<rparr>"
    have "swap_inv dg base state ?s4"
      by (rule swap_inv_core[of _ s3]) (use s3 in \<open>simp_all add: frame_simps\<close>)
    moreover have "s' = ?s4 \<and> q = Inl e"
      using run c Inl s3(1)
      by (simp add: ensure_locked_def catchS_def bindS_def modS_def liftS_def s2_def)
    ultimately show ?thesis using settled_safe[of dg base state ?s4] s3(3) by simp
  qed
qed

lemma cached_deltas_frame:
  assumes "cached_deltas env r t i d s = (s', q)"
  shows "core s' = core s \<and> rt_sm s' = rt_sm s \<and> rt_active s' = rt_active s"
  using assms
  by (auto simp: cached_deltas_def frame_simps split: option.splits sum.splits)

lemma ensure_route_safe:
  assumes inv: "safe dg base state s" and dg: "te_digest env = dg"
    and run: "ensure_route env i t r s = (s', q)"
  shows "safe dg base state s'"
proof -
  consider "s' = s" | "\<not> is_terminal (rt_sm s)" "rt_active s \<noteq> i"
    using run by (cases "is_terminal (rt_sm s) \<or> rt_active s = i")
        (auto simp: ensure_route_def split: if_splits)
  then show ?thesis
  proof cases
    case 1
    then show ?thesis using inv by simp
  next
    case 2
    obtain s1 where s1: "leave_route env r t s = (s1, Inr ())" "safe dg base state s1"
      using leave_route_safe[OF inv dg] by blast
    obtain s2 q2 where v: "verify_route env r t i False s1 = (s2, q2)" by fastforce
    have safe2: "safe dg base state s2"
      using quiet_step(1)[OF s1(2), of s2] verify_route_frame[OF v] by simp
    show ?thesis
    proof (cases "i = base_route \<or> (\<exists>e. q2 = Inl e)")
      case True
      then have "s' = s1 \<or> s' = s2"
        using run 2 s1(1) v by (auto simp: ensure_route_def bindS_def liftS_def split: if_splits)
      then show ?thesis using s1(2) safe2 by blast
    next
      case False
      then obtain d where d: "q2 = Inr d" and i: "i \<noteq> base_route" by (cases q2) auto
      obtain s3 q3 where c: "cached_deltas env r t i d s2 = (s3, q3)" by fastforce
      have safe3: "safe dg base state s3"
        using quiet_step(1)[OF safe2, of s3] cached_deltas_frame[OF c] by simp
      show ?thesis
      proof (cases q3)
        case (Inl e)
        then show ?thesis using run 2 s1(1) v d i c safe3 by (simp add: ensure_route_def bindS_def)
      next
        case (Inr ds)
        then have "ensure_locked env r t i d ds s3 = (s', q)"
          using run 2 s1(1) v d i c by (simp add: ensure_route_def bindS_def)
        then show ?thesis using ensure_locked_safe[OF safe3 dg i] by blast
      qed
    qed
  qed
qed

end
