(* ===== verification/Hot_Swap_Properties.thy ===== *)
theory Hot_Swap_Properties
  imports Swap_Safety
begin

text \<open>
  What the hot-swap runtime promises its callers, over every sequence of gateway calls: the
  reachable runtimes, the leave-no-trace property, recovery when the tensor copies are faithful,
  the effect of a swap, and what the phases and the recorded active route do not promise.
\<close>

section \<open>Reachable runtimes\<close>

text \<open>
  A step is one call on the runtime, or an administrative change of the registry by another
  component. Every call has its own environment: payload files, clocks, tensor operations and the
  inference function may differ from call to call, the digest may not. Generated text stands
  for the output of the inference function.
\<close>

inductive runtime_reach ::
  "('t \<Rightarrow> string) \<Rightarrow> (nat \<Rightarrow> 't) \<Rightarrow> (string, nat) dict \<Rightarrow> 't runtime \<Rightarrow> bool"
  for dg base state where
  start: "runtime_reach dg base state (init_runtime (Some state) base reg h logger dir mx)"
| request: "runtime_reach dg base state s \<Longrightarrow> te_digest env = dg \<Longrightarrow>
    runtime_reach dg base state
      (fst (infer env i t r (f :: (nat \<Rightarrow> 't) \<Rightarrow> string result) s))"
| persist: "runtime_reach dg base state s \<Longrightarrow> te_digest env = dg \<Longrightarrow>
    runtime_reach dg base state (fst (ensure_route env i t r s))"
| clear: "runtime_reach dg base state s \<Longrightarrow> te_digest env = dg \<Longrightarrow>
    runtime_reach dg base state (fst (clear_active_route env s))"
| admin: "runtime_reach dg base state s \<Longrightarrow>
    runtime_reach dg base state (s\<lparr>rt_registry := reg\<rparr>)"

lemma reach_safe: "runtime_reach dg base state s \<Longrightarrow> safe dg base state s"
proof (induction rule: runtime_reach.induct)
  case (start reg h logger dir mx)
  have "rt_phase (init_runtime (Some state) base reg h logger dir mx) = READY"
    by (simp add: init_runtime_def init_machine_def)
  then show ?case using swap_inv_init by (simp add: safe_def steady_def)
next
  case (request s env i t r f)
  then show ?case using infer_safe[of dg base state s env i t r f] by (cases "infer env i t r f s") simp
next
  case (persist s env i t r)
  then show ?case using ensure_route_safe by (cases "ensure_route env i t r s") simp
next
  case (clear s env)
  then show ?case using clear_active_route_safe by blast
next
  case (admin s reg)
  then show ?case using quiet_step(1)[of dg base state s "s\<lparr>rt_registry := reg\<rparr>"]
    by (simp add: frame_simps)
qed

section \<open>Requests step by step\<close>

lemma infer_locked_output:
  assumes inv: "swap_inv dg base state s" and dg: "te_digest env = dg" and fc: "faithful_copy env"
    and run: "infer_cycle env r t i d deltas f s = (s1, q)"
  shows "\<exists>s'. infer_locked env r t i d deltas f s = (s', q) \<and> rt_phase s' = READY
           \<and> swap_inv dg base state s' \<and> rt_active s' = rt_active s1"
proof -
  have inv1: "swap_inv dg base state s1"
    using triple_any[OF infer_cycle_triple[OF dg] inv, of r t i d deltas f] run by simp
  define s2 where "s2 = (case q of
      Inl e \<Rightarrow> log_event r t i ''exception_during_lifecycle'' ''failure'' 0 [(''failure_reason'', exc_msg e)] s1
    | Inr out \<Rightarrow> s1)"
  have c2: "core s2 = core s1" "rt_active s2 = rt_active s1" "rt_phase s2 = rt_phase s1"
    by (simp_all add: s2_def frame_simps split: sum.split)
  have inv2: "swap_inv dg base state s2"
    by (rule swap_inv_core[OF c2(1)]) (simp_all add: c2 inv1)
  obtain s3 where s3: "perform_rollback env r t i s2 = (s3, Inr ())" "swap_inv dg base state s3"
    "rt_active s3 = rt_active s2"
    using perform_rollback_settles[OF inv2 dg] by blast
  have "rt_phase s3 = READY" using perform_rollback_recovers[OF inv2 dg fc, of r t i] s3(1) by simp
  moreover have "infer_locked env r t i d deltas f s = (s3, q)"
    using run s3(1) by (cases q) (simp_all add: infer_locked_def bindS_def modS_def liftS_def s2_def)
  ultimately show ?thesis using s3(2,3) c2(2) by auto
qed

text \<open>A request that passed verification and validation, up to the locked section.\<close>

definition request_ready ::
  "'t runtime_env \<Rightarrow> string \<Rightarrow> string \<Rightarrow> manifest \<Rightarrow> (string, 't) dict \<Rightarrow> 't runtime \<Rightarrow> bool" where
  "request_ready env i t d ds s \<longleftrightarrow>
     \<not> is_terminal (rt_sm s)
     \<and> get_verified_route (rt_registry s) i (rt_hash s) t = Inr d
     \<and> validate_payload (te_payload env) d (rt_base_dir s) (rt_max_bytes s) = Inr ds"

definition at_lock ::
  "'t runtime_env \<Rightarrow> string \<Rightarrow> string \<Rightarrow> string \<Rightarrow> (string, 't) dict \<Rightarrow> 't runtime \<Rightarrow> 't runtime" where
  "at_lock env r t i ds s =
     (let s1 = set_timing env ''payload_validate_latency''
                 (log_event r t i ''route_verified'' ''success'' 0 [] s)
      in set_timing env ''lock_wait_time''
           (if ds \<noteq> [] then log_event r t i ''payload_validated'' ''success''
                              (te_dur env ''payload_validate_latency'' * 1000) [] s1
            else s1))"

lemma at_lock_frame:
  "core (at_lock env r t i ds s) = core s" "rt_sm (at_lock env r t i ds s) = rt_sm s"
  "rt_active (at_lock env r t i ds s) = rt_active s"
  by (simp_all add: at_lock_def Let_def frame_simps)

lemma infer_at_lock:
  assumes "request_ready env i t d ds s"
  shows "infer env i t r f s
    = bindS (infer_locked env r t i d ds f)
        (\<lambda>output s'. if is_terminal (rt_sm s')
           then (s', Inl (PyExc RuntimeErrorE
                  ''CRITICAL: Rollback checksum mismatch. Worker QUARANTINED.''))
           else (s', Inr output)) (at_lock env r t i ds s)"
proof -
  have dirs: "rt_base_dir (log_event r t i e st l x s) = rt_base_dir s"
    "rt_max_bytes (log_event r t i e st l x s) = rt_max_bytes s" for e st l x
    by (simp_all add: log_event_def)
  show ?thesis
    using assms
    by (simp add: infer_def request_ready_def bindS_def[of "verify_route env r t i True"]
        verify_route_def bindS_def[of "validate_step env r t i d"] validate_step_def dirs Let_def
        bindS_def[of "modS (set_timing env k)" for k] modS_def at_lock_def)
qed

lemma safe_at_lock: "safe dg base state s \<Longrightarrow> safe dg base state (at_lock env r t i ds s)"
  using quiet_step(1)[of dg base state s "at_lock env r t i ds s"] by (simp add: at_lock_frame)

lemma served_request_ready:
  assumes "infer env i t r f s = (s', Inr out)"
  shows "\<exists>d ds. request_ready env i t d ds s"
  using assms
  by (auto simp: infer_def request_ready_def bindS_Inr verify_route_def validate_step_def Let_def
      bindS_def[of "apply_verdict env v i r t" for v] log_event_def modS_def liftS_def
      split: if_splits sum.splits payload_error.splits prod.splits)

lemma rejected_request:
  assumes safe: "safe dg base state s" and unready: "\<nexists>d ds. request_ready env i t d ds s"
    and run: "infer env i t r f s = (s', q)"
  shows "core s' = core s \<and> rt_phase s' = rt_phase s \<and> rt_active s' = rt_active s \<and> (\<exists>e. q = Inl e)"
proof (cases "is_terminal (rt_sm s)")
  case True
  then show ?thesis using run by (auto simp: infer_def)
next
  case live: False
  obtain s1 q1 where v: "verify_route env r t i True s = (s1, q1)" by fastforce
  have s1: "core s1 = core s" "rt_phase s1 = rt_phase s" "rt_active s1 = rt_active s"
    using verify_route_frame[OF v] by simp_all
  show ?thesis
  proof (cases q1)
    case (Inl e)
    then show ?thesis using run live v s1 by (auto simp: infer_def bindS_def)
  next
    case d: (Inr d)
    obtain s2 q2 where w: "validate_step env r t i d s1 = (s2, q2)" by fastforce
    have safe1: "safe dg base state s1" using quiet_step(1)[OF safe, of s1] s1 by simp
    have s2: "core s2 = core s" "rt_phase s2 = rt_phase s" "rt_active s2 = rt_active s"
      using quiet_step(2)[OF safe1, of s2] validate_step_frame[OF w] s1 by simp_all
    have "get_verified_route (rt_registry s) i (rt_hash s) t = Inr d"
      using v d by (auto simp: verify_route_def split: sum.splits)
    then have "validate_payload (te_payload env) d (rt_base_dir s) (rt_max_bytes s) \<noteq> Inr ds" for ds
      using unready live by (auto simp: request_ready_def)
    moreover have "rt_base_dir s1 = rt_base_dir s" "rt_max_bytes s1 = rt_max_bytes s"
      using v d by (auto simp: verify_route_def log_event_def split: sum.splits if_splits)
    ultimately have "q2 \<noteq> Inr ds" for ds
      using w by (auto simp: validate_step_def Let_def bindS_Inr liftS_def
          split: sum.splits payload_error.splits)
    then obtain e where "q2 = Inl e" by (cases q2) auto
    then show ?thesis using run live v d w s2 by (auto simp: infer_def bindS_def)
  qed
qed

lemma broken_rollback_quarantines:
  assumes snap: "rt_snapshots s \<noteq> []" and broken: "\<forall>old new. \<exists>e. te_copy env old new = Inl e"
  shows "\<exists>s'. perform_rollback env r t i s = (s', Inr ()) \<and> rt_phase s' = WORKER_QUARANTINED
           \<and> rt_active s' = rt_active s"
proof -
  define s1 where "s1 = log_event r t i ''rollback_started'' ''pending'' 0 []
      (transition_or_force env ROLLING_BACK s)"
  have s1: "rt_snapshots s1 = rt_snapshots s" "rt_active s1 = rt_active s"
    using frame_log(1) transition_or_force_frame(1) unfolding s1_def core_def
    by (metis prod.inject) (simp add: frame_simps)
  obtain p ps where p: "rt_snapshots s1 = p # ps" using s1 snap by (metis list.exhaust)
  have "\<exists>e. restore_layer env p s1 = (s1, Inl e)"
  proof (cases "target_address s1 (fst p)")
    case (Inr a)
    obtain e where "te_copy env (rt_mem s1 a) (snd p) = Inl e" using broken by blast
    then show ?thesis using Inr by (simp add: restore_layer_def)
  qed (simp add: restore_layer_def)
  then obtain e where e: "rollback env s1 = (s1, Inl e)" using p by (auto simp: rollback_def)
  define v where "v = apply_verdict env (evaluate_failure ROLLBACK_EXCEPTION) i r t
      (set_timing env ''rollback_latency'' s1)"
  have v: "snd v = Inr ()" "rt_phase (fst v) = WORKER_QUARANTINED" "rt_active (fst v) = rt_active s"
    using rollback_failure_applied[of ROLLBACK_EXCEPTION env i r t "set_timing env ''rollback_latency'' s1"]
      s1 by (simp_all add: v_def frame_simps)
  have "apply_verdict env (evaluate_failure ROLLBACK_EXCEPTION) i r t
      (set_timing env ''rollback_latency'' s1) = (fst v, Inr ())"
    using v(1) by (simp add: v_def prod_eq_iff)
  then have "perform_rollback env r t i s
      = (log_event r t i ''rollback_failed'' ''failure'' (te_dur env ''rollback_latency'' * 1000)
           [(''failure_reason'', exc_msg e)] (fst v), Inr ())"
    using e
    by (simp add: perform_rollback_def Let_def s1_def[symmetric] bindS_def modS_def)
  then show ?thesis using v by (simp add: frame_simps)
qed

lemma capture_keeps_mem: "keeps (\<lambda>s. rt_mem s = m) (capture_snapshot env d)"
proof (rule keepsI)
  fix s s' q assume m: "rt_mem s = m" and run: "capture_snapshot env d s = (s', q)"
  have layer: "keeps (\<lambda>s. rt_mem s = m) (capture_layer env state l)" for state l
    by (rule keepsI, drule capture_layer_cases) (auto simp: Let_def)
  have loop: "keeps (\<lambda>s. rt_mem s = m) (forS (capture_layer env state) ls)" for state ls
    by (rule keeps_forS) (rule layer)
  have "rt_mem (clear_snapshots s) = m" using m by (simp add: clear_snapshots_def)
  then show "rt_mem s' = m"
    using m run keepsD[OF loop]
    by (auto simp: capture_snapshot_def bindS_def modS_def liftS_def
        split: option.splits sum.splits if_splits)
qed

lemma core_mem: "core s = core t \<Longrightarrow> rt_mem s = rt_mem t"
  by (simp add: core_def)

lemma cycle_forward:
  assumes "infer_cycle env r t i d ds f s = (s', Inr out)"
  shows "\<exists>u v. rt_mem u = rt_mem s \<and> apply_swap env d ds u = (v, Inr ()) \<and> f (rt_mem v) = Inr out
           \<and> rt_phase s = READY"
proof -
  let ?log = "\<lambda>ev st l. log_event r t i ev st l []"
  obtain s1 s2 s3 s4 s5 s6 s7 o' x y z where
      t1: "rt_transition env [] i VERIFYING s = (s1, Inr x)"
    and cap: "capture_snapshot env d (?log ''snapshot_started'' ''pending'' 0 s1) = (s2, Inr y)"
    and t2: "rt_transition env [] [] SNAPSHOT_CAPTURED s2 = (s3, Inr z)"
    and t3: "rt_transition env [] [] SWAPPING (?log ''snapshot_captured'' ''success'' 0 s3) = (s4, Inr ())"
    and sw: "apply_swap env d ds (?log ''swap_started'' ''pending'' 0 s4) = (s5, Inr ())"
    and t4: "rt_transition env [] [] SWAPPED (set_timing env ''swap_latency'' s5) = (s6, Inr ())"
    and t5: "rt_transition env [] [] FORWARDING
        (?log ''swap_completed'' ''success'' (te_dur env ''swap_latency'' * 1000) s6) = (s7, Inr ())"
    and fw: "f (rt_mem (?log ''forward_started'' ''pending'' 0 s7)) = Inr out"
    using assms by (auto simp: infer_cycle_def Let_def bindS_Inr modS_def liftS_def)
  have log: "rt_mem (?log ev st l w) = rt_mem w" for ev st l w
    by (rule core_mem) (simp add: frame_simps)
  have tr: "rt_mem b = rt_mem a" if "rt_transition env r' i' p a = (b, Inr u)" for r' i' p a b u
    by (rule core_mem) (use rt_transition_Inr[OF that] in simp)
  have m2: "rt_mem s2 = rt_mem s"
    using keepsD[OF capture_keeps_mem _ cap] log tr[OF t1] by metis
  have "rt_mem (?log ''swap_started'' ''pending'' 0 s4) = rt_mem s"
    using log tr[OF t2] tr[OF t3] m2 by metis
  moreover have "rt_mem (?log ''forward_started'' ''pending'' 0 s7) = rt_mem s5"
    using log tr[OF t4] tr[OF t5] core_mem[OF frame_timing(1)] by metis
  moreover have "rt_phase s = READY"
    using rt_transition_Inr[OF t1] by (cases "rt_phase s") auto
  ultimately show ?thesis using sw fw by metis
qed

section \<open>A sample runtime for the witnesses\<close>

text \<open>One parameter \<open>model.w\<close> at address 0; tensors are lists of integers.\<close>

definition demo_env :: "int list runtime_env" where
  "demo_env =
     \<lparr>te_payload = sample_payload_env, te_digest = (\<lambda>t. int_str (sum_list t)),
      te_shape = (\<lambda>t. [int (length t)]), te_dtype = (\<lambda>t. ''torch.float32''),
      te_add = (\<lambda>x d. Inr (map2 (+) x d)), te_dummy = map (\<lambda>_. 1),
      te_copy = (\<lambda>old new. Inr new), te_now = 0, te_dur = (\<lambda>k. 0), te_audit_path = False\<rparr>"

definition demo_route :: manifest where
  "demo_route = (''target_model_sha256'', JStr ''h'') # sample_payload_route ''abc''"

definition demo_registry :: registry where
  "demo_registry = \<lparr>reg_routes = [(''r'', demo_route)], reg_statuses = [(''r'', PRODUCTION)],
                    reg_reasons = []\<rparr>"

abbreviation demo_model :: "(string, nat) dict" where
  "demo_model \<equiv> [(''model.w'', 0)]"

abbreviation demo_base :: "nat \<Rightarrow> int list" where
  "demo_base \<equiv> (\<lambda>a. [7])"

definition demo_runtime :: "int list runtime" where
  "demo_runtime = init_runtime (Some demo_model) demo_base demo_registry ''h'' False None 100"

abbreviation demo_layer :: json where
  "demo_layer \<equiv> JObj [(''name'', JStr ''w''), (''shape'', JList [JInt 1]), (''dtype'', JStr ''float32'')]"

abbreviation demo_forward :: "(nat \<Rightarrow> int list) \<Rightarrow> string result" where
  "demo_forward \<equiv> (\<lambda>m. Inr (int_str (hd (m 0))))"

lemma demo_reach: "runtime_reach (te_digest demo_env) demo_base demo_model demo_runtime"
  unfolding demo_runtime_def by (rule runtime_reach.start)

lemma demo_faithful: "faithful_copy demo_env"
  by (simp add: faithful_copy_def demo_env_def)

lemma demo_verified: "get_verified_route demo_registry ''r'' ''h'' ''t'' = Inr demo_route"
  by (simp add: get_verified_ok_iff demo_registry_def get_route_def get_route_status_def)
     (simp add: demo_route_def sample_payload_route_def opt_truthy_def)

lemma demo_validates:
  "100 \<le> mx \<Longrightarrow> validate_payload sample_payload_env demo_route None mx = Inr [(''w'', [5])]"
proof -
  assume mx: "100 \<le> mx"
  have eqs: "map_of demo_route ''payload'' = map_of (sample_payload_route ''abc'') ''payload''"
    "map_of demo_route ''layers'' = map_of (sample_payload_route ''abc'') ''layers''"
    by (simp_all add: demo_route_def)
  have "validate_payload sample_payload_env demo_route None mx
      = validate_payload sample_payload_env (sample_payload_route ''abc'') None mx"
    unfolding validate_payload_def resolve_payload_path_def dict_get_def eqs ..
  then show ?thesis using mx by (simp add: sample_validates_upto)
qed

lemma demo_layers: "route_layers demo_route = Inr [demo_layer]"
  by (simp add: route_layers_def demo_route_def sample_payload_route_def dict_get_def)

lemma demo_resolve: "resolve_layer_name ''w'' demo_model = Inr ''model.w''"
  by (simp add: resolve_layer_name_def name_candidates_def has_key_def)

lemma demo_name: "layer_name demo_layer = Inr ''w''"
  by (simp add: layer_name_def layer_item_def dict_item_def)

lemma demo_capture:
  assumes "rt_mem s 0 = [7]"
  shows "capture_layer demo_env demo_model demo_layer s =
    (s\<lparr>rt_names := dict_set ''w'' ''model.w'' (rt_names s),
       rt_snapshots := dict_set ''w'' [7] (rt_snapshots s),
       rt_checksums := dict_set ''w'' (int_str 7) (rt_checksums s)\<rparr>, Inr ())"
  using assms
  by (simp add: capture_layer_def bindS_def liftS_def modS_def layer_name_def layer_item_def
      dict_item_def demo_resolve shape_eq_def live_dtype_def sample_dtype demo_env_def Let_def)

lemma demo_snapshot:
  assumes "rt_mem s 0 = [7]" "rt_model s = Some demo_model" "rt_snapshots s = []"
  shows "capture_snapshot demo_env demo_route s =
    (s\<lparr>rt_names := [(''w'', ''model.w'')], rt_snapshots := [(''w'', [7])],
       rt_checksums := [(''w'', int_str 7)]\<rparr>, Inr ())"
  using assms
  by (simp add: capture_snapshot_def demo_layers demo_name bindS_def modS_def liftS_def
      demo_capture clear_snapshots_def)

lemma demo_swap:
  assumes "rt_mem s 0 = [7]" "rt_model s = Some demo_model" "rt_names s = [(''w'', ''model.w'')]"
  shows "apply_swap demo_env demo_route [(''w'', [5])] s = (write_mem 0 [12] s, Inr ())"
  using assms
  by (simp add: apply_swap_def demo_layers demo_name bindS_def modS_def liftS_def swap_layer_def
      Let_def dict_get_def add_into_def) (simp add: demo_env_def)

lemmas demo_run =
  bindS_def modS_def liftS_def demo_runtime_def init_runtime_def demo_snapshot demo_swap
  rt_transition_def transition_def init_machine_def Let_def log_event_def write_mem_def
  set_timing_def write_audit_event_def

lemma demo_ready: "request_ready demo_env ''r'' ''t'' demo_route [(''w'', [5])] demo_runtime"
  by (simp add: request_ready_def demo_runtime_def init_runtime_def demo_verified is_terminal_def
      init_machine_def) (simp add: demo_env_def demo_validates)

lemma demo_cycle:
  "f (demo_base(0 := [12])) = Inr out \<Longrightarrow>
   \<exists>s'. infer_cycle demo_env r t ''r'' demo_route [(''w'', [5])] f
           (at_lock demo_env r t' ''r'' [(''w'', [5])] demo_runtime) = (s', Inr out)"
  by (simp add: infer_cycle_def demo_run at_lock_def)

lemma demo_infer_any:
  assumes "f (demo_base(0 := [12])) = Inr out"
  shows "\<exists>s'. infer demo_env ''r'' ''t'' r f demo_runtime = (s', Inr out)"
proof -
  obtain s1 where run: "infer_cycle demo_env r ''t'' ''r'' demo_route [(''w'', [5])] f
      (at_lock demo_env r ''t'' ''r'' [(''w'', [5])] demo_runtime) = (s1, Inr out)"
    using demo_cycle[where f = f and out = out, OF assms] by blast
  have "safe (te_digest demo_env) demo_base demo_model
      (at_lock demo_env r ''t'' ''r'' [(''w'', [5])] demo_runtime)"
    by (rule safe_at_lock) (rule reach_safe[OF demo_reach])
  then obtain s2 where "infer_locked demo_env r ''t'' ''r'' demo_route [(''w'', [5])] f
      (at_lock demo_env r ''t'' ''r'' [(''w'', [5])] demo_runtime) = (s2, Inr out)"
    "rt_phase s2 = READY"
    using infer_locked_output[OF _ refl demo_faithful run] unfolding safe_def by blast
  then show ?thesis
    using infer_at_lock[OF demo_ready, of r f] by (simp add: bindS_def is_terminal_def)
qed

lemma demo_infer:
  "\<exists>s'. infer demo_env ''r'' ''t'' r demo_forward demo_runtime = (s', Inr (int_str 12))"
  by (rule demo_infer_any) simp

definition demo_persistent :: "int list runtime" where
  "demo_persistent = fst (ensure_route demo_env ''r'' ''t'' ''q'' demo_runtime)"

lemma demo_persistent_reach:
  "runtime_reach (te_digest demo_env) demo_base demo_model demo_persistent"
  unfolding demo_persistent_def by (rule runtime_reach.persist[OF demo_reach refl])

lemma demo_persistent_run:
  "rt_phase demo_persistent = SWAPPED" "rt_active demo_persistent = ''r''"
  "rt_registry demo_persistent = demo_registry" "rt_hash demo_persistent = ''h''"
  "rt_base_dir demo_persistent = None" "rt_max_bytes demo_persistent = 100"
  "rt_snapshots demo_persistent = [(''w'', [7])]"
proof -
  have v: "validate_payload (te_payload demo_env) demo_route None 100 = Inr [(''w'', [5])]"
    by (simp add: demo_env_def demo_validates)
  have "\<exists>s'. ensure_route demo_env ''r'' ''t'' ''q'' demo_runtime = (s', Inr True)
      \<and> rt_phase s' = SWAPPED \<and> rt_active s' = ''r'' \<and> rt_registry s' = demo_registry
      \<and> rt_hash s' = ''h'' \<and> rt_base_dir s' = None \<and> rt_max_bytes s' = 100
      \<and> rt_snapshots s' = [(''w'', [7])]"
    by (simp add: ensure_route_def leave_route_def verify_route_def cached_deltas_def
        ensure_locked_def ensure_cycle_def catchS_def demo_run demo_verified base_route_def
        is_terminal_def v)
  then show "rt_phase demo_persistent = SWAPPED" "rt_active demo_persistent = ''r''"
    "rt_registry demo_persistent = demo_registry" "rt_hash demo_persistent = ''h''"
    "rt_base_dir demo_persistent = None" "rt_max_bytes demo_persistent = 100"
    "rt_snapshots demo_persistent = [(''w'', [7])]"
    by (auto simp: demo_persistent_def)
qed

section \<open>Leave no trace\<close>

text \<open>C1. Leave no trace. Whatever sequence of inference requests, persistent route changes,
  clean-ups and registry changes a worker has served, with whatever payloads, tensor operations
  and failures, it is READY, persistently swapped to a route that is not the base route, or
  quarantined; and whenever it is READY every weight of the model has the digest of the weight
  it had before the first request.\<close>

theorem reachable_ready_is_base:
  assumes "runtime_reach dg base state s"
  shows "rt_phase s \<in> {READY, SWAPPED, WORKER_QUARANTINED}
    \<and> (rt_phase s = SWAPPED \<longrightarrow> rt_active s \<noteq> base_route)
    \<and> (rt_phase s = READY \<longrightarrow> (\<forall>a. dg (rt_mem s a) = dg (base a)))"
  using reach_safe[OF assms]
  by (auto simp: safe_def steady_def swap_inv_def clean_phases_def clean_def)

theorem reachable_ready_is_base_witness:
  "runtime_reach (te_digest demo_env) demo_base demo_model demo_persistent
   \<and> rt_phase demo_persistent = SWAPPED \<and> rt_active demo_persistent \<noteq> base_route"
  using demo_persistent_reach demo_persistent_run(1) reachable_ready_is_base[OF demo_persistent_reach]
  by simp



text \<open>C6. Quarantine is never spurious: as long as tensor copies write what they are given, a
  worker that is not quarantined stays so, through every request and whatever else fails in it.\<close>

theorem faithful_copies_never_quarantine:
  assumes reach: "runtime_reach dg base state s" and dg: "te_digest env = dg"
    and fc: "faithful_copy env" and live: "rt_phase s \<noteq> WORKER_QUARANTINED"
  shows "rt_phase (fst (infer env i t r f s)) \<in> {READY, SWAPPED}"
proof -
  note inv = reach_safe[OF reach]
  show ?thesis
  proof (cases "\<exists>d ds. request_ready env i t d ds s")
    case True
    then obtain d ds where ready: "request_ready env i t d ds s" by blast
    obtain s1 q where cycle: "infer_cycle env r t i d ds f (at_lock env r t i ds s) = (s1, q)"
      by fastforce
    have "swap_inv dg base state (at_lock env r t i ds s)"
      using safe_at_lock[OF inv] by (simp add: safe_def)
    then obtain s' where "infer_locked env r t i d ds f (at_lock env r t i ds s) = (s', q)"
      "rt_phase s' = READY"
      using infer_locked_output[OF _ dg fc cycle] by blast
    then show ?thesis
      using infer_at_lock[OF ready, of r f] by (cases q) (simp_all add: bindS_def is_terminal_def)
  next
    case False
    obtain s' q where run: "infer env i t r f s = (s', q)" by fastforce
    have "rt_phase s' = rt_phase s" using rejected_request[OF inv False run] by simp
    then show ?thesis using inv live run by (auto simp: safe_def steady_def)
  qed
qed

theorem faithful_copies_never_quarantine_witness:
  "rt_phase (fst (infer demo_env ''r'' ''t'' ''q'' (\<lambda>m. Inl (PyExc RuntimeErrorE []) :: unit result)
      demo_persistent)) \<in> {READY, SWAPPED}"
  by (rule faithful_copies_never_quarantine[OF demo_persistent_reach refl demo_faithful])
     (simp add: demo_persistent_run)

text \<open>C4. A request whose payload fails validation for any reason but its size is refused
  before the lock: the weights, the snapshots and the phase are as before, the route is
  quarantined in the registry for every model and tenant, and the other routes are not.\<close>

theorem payload_failure_quarantines_route:
  assumes reach: "runtime_reach dg base state s" and live: "rt_phase s \<noteq> WORKER_QUARANTINED"
    and d: "get_verified_route (rt_registry s) i (rt_hash s) t = Inr d"
    and bad: "validate_payload (te_payload env) d (rt_base_dir s) (rt_max_bytes s)
                = Inl (PayloadError fc detail)"
    and size: "fc \<noteq> PAYLOAD_TOO_LARGE"
  shows "\<exists>s'. infer env i t r f s
       = (s', Inl (PyExc RuntimeErrorE (fv_message (evaluate_failure fc))))
     \<and> core s' = core s \<and> rt_phase s' = rt_phase s
     \<and> (\<forall>h' t' d'. get_verified_route (rt_registry s') i h' t' \<noteq> Inr d')
     \<and> (\<forall>j h' t'. j \<noteq> i \<longrightarrow>
          get_verified_route (rt_registry s') j h' t' = get_verified_route (rt_registry s) j h' t')"
proof -
  note safe = reach_safe[OF reach]
  obtain s' q where run: "infer env i t r f s = (s', q)" by fastforce
  have unready: "\<nexists>d ds. request_ready env i t d ds s" using d bad by (auto simp: request_ready_def)
  let ?v = "evaluate_failure fc"
  have v: "fv_target_phase ?v = ROUTE_QUARANTINED" "fv_scope ?v = Some ROUTE"
    using payload_verdict_quarantines_route[of fc] payload_error_class[OF bad] size by auto
  define s1 where "s1 = log_event r t i ''route_verified'' ''success'' 0 [] s"
  have s1: "rt_registry s1 = rt_registry s" "rt_base_dir s1 = rt_base_dir s"
    "rt_max_bytes s1 = rt_max_bytes s"
    by (simp_all add: s1_def log_event_def)
  obtain reg where reg: "quarantine_route i (fv_message ?v) (rt_registry s) = Inr reg"
    using reg.quarantine_known[OF d] by blast
  obtain s2 where s2: "apply_verdict env ?v i r t s1 = (s2, Inr ())" "rt_registry s2 = reg"
    using reg v s1(1) rt_transition_Inr rt_transition_Inl
    by (cases "rt_transition env (fv_message ?v) [] ROUTE_QUARANTINED (s1\<lparr>rt_registry := reg\<rparr>)";
        cases "snd (rt_transition env (fv_message ?v) [] ROUTE_QUARANTINED (s1\<lparr>rt_registry := reg\<rparr>))")
       (fastforce simp: apply_verdict_def Let_def frame_simps)+
  have "q = Inl (PyExc RuntimeErrorE (fv_message ?v)) \<and> rt_registry s' = reg"
    using run live d bad s1 s2
    by (auto simp: infer_def is_terminal_def bindS_def verify_route_def s1_def[symmetric]
        validate_step_def Let_def modS_def liftS_def frame_simps)
  then show ?thesis
    using run rejected_request[OF safe unready run] reg.quarantine_blocks[OF reg]
      reg.quarantine_frame[OF reg] by blast
qed

definition missing_payload_env :: "int list runtime_env" where
  "missing_payload_env = demo_env\<lparr>te_payload := sample_payload_env\<lparr>pe_exists := (\<lambda>f. False)\<rparr>\<rparr>"

lemma missing_payload:
  "validate_payload (te_payload missing_payload_env) demo_route None 100
     = Inl (PayloadError PAYLOAD_FILE_NOT_FOUND ''Payload file does not exist: /p/x'')"
proof -
  have "map_of demo_route ''payload'' = map_of (sample_payload_route ''abc'') ''payload''"
    by (simp add: demo_route_def)
  then have path: "resolve_payload_path demo_route None = Inr (Some ''/p/x'')"
    using sample_path[of "''abc''"] unfolding resolve_payload_path_def by simp
  show ?thesis by (simp add: validate_payload_def path lift_other_def missing_payload_env_def)
qed

theorem payload_failure_quarantines_route_witness:
  "\<exists>s' e. infer missing_payload_env ''r'' ''t'' ''q'' demo_forward demo_runtime = (s', Inl e)
      \<and> (\<forall>h' t' d'. get_verified_route (rt_registry s') ''r'' h' t' \<noteq> Inr d')"
proof -
  have rt: "rt_phase demo_runtime \<noteq> WORKER_QUARANTINED" "rt_registry demo_runtime = demo_registry"
    "rt_hash demo_runtime = ''h''" "rt_base_dir demo_runtime = None" "rt_max_bytes demo_runtime = 100"
    by (simp_all add: demo_runtime_def init_runtime_def init_machine_def)
  have d: "get_verified_route (rt_registry demo_runtime) ''r'' (rt_hash demo_runtime) ''t'' = Inr demo_route"
    by (simp add: rt demo_verified)
  have bad: "validate_payload (te_payload missing_payload_env) demo_route (rt_base_dir demo_runtime)
      (rt_max_bytes demo_runtime)
      = Inl (PayloadError PAYLOAD_FILE_NOT_FOUND ''Payload file does not exist: /p/x'')"
    by (simp add: rt missing_payload)
  show ?thesis
    using payload_failure_quarantines_route[OF demo_reach rt(1) d bad, of "''q''" demo_forward] by blast
qed

section \<open>What the active route does not tell\<close>

text \<open>A request on a worker with a persistent route is refused by the transition table even
  when it is valid: its rollback restores the base weights and the phase READY, but the runtime
  still records the persistent route as active, so that the next \<open>ensure_route\<close> for it reports
  that nothing has to be done while the base weights are in place.\<close>

theorem request_forgets_persistent_route:
  assumes reach: "runtime_reach dg base state s" and dg: "te_digest env = dg"
    and fc: "faithful_copy env" and swapped: "rt_phase s = SWAPPED"
    and d: "get_verified_route (rt_registry s) i (rt_hash s) t = Inr d"
    and ok: "validate_payload (te_payload env) d (rt_base_dir s) (rt_max_bytes s) = Inr ds"
  shows "\<exists>s'. infer env i t r f s = (s', Inl (invalid_transition SWAPPED VERIFYING))
     \<and> rt_phase s' = READY \<and> (\<forall>a. dg (rt_mem s' a) = dg (base a))
     \<and> rt_active s' = rt_active s \<and> rt_active s' \<noteq> base_route
     \<and> (\<forall>env' t' r'. ensure_route env' (rt_active s) t' r' s' = (s', Inr False))"
proof -
  note safe = reach_safe[OF reach]
  have ready: "request_ready env i t d ds s"
    using swapped d ok by (simp add: request_ready_def is_terminal_def)
  let ?l = "at_lock env r t i ds s"
  have "infer_cycle env r t i d ds f ?l = (?l, Inl (invalid_transition SWAPPED VERIFYING))"
    using swapped at_lock_frame(2)[of env r t i ds s]
    by (simp add: infer_cycle_def bindS_def rt_transition_def transition_def)
  moreover have "swap_inv dg base state ?l" using safe_at_lock[OF safe] by (simp add: safe_def)
  ultimately obtain s' where
    "infer_locked env r t i d ds f ?l = (s', Inl (invalid_transition SWAPPED VERIFYING))"
    "rt_phase s' = READY" "swap_inv dg base state s'" "rt_active s' = rt_active s"
    using infer_locked_output[OF _ dg fc] at_lock_frame(3) by metis
  then show ?thesis
    using infer_at_lock[OF ready, of r f] safe swapped
    by (auto simp: bindS_def swap_inv_def clean_phases_def clean_def safe_def steady_def
        ensure_route_def is_terminal_def)
qed

theorem request_forgets_persistent_route_witness:
  "\<exists>s'. infer demo_env ''r'' ''t'' ''q'' demo_forward demo_persistent
        = (s', Inl (invalid_transition SWAPPED VERIFYING))
      \<and> rt_active s' = ''r'' \<and> te_digest demo_env (rt_mem s' 0) = te_digest demo_env [7]
      \<and> ensure_route demo_env ''r'' ''t'' ''q'' s' = (s', Inr False)"
proof -
  note rt = demo_persistent_run
  have ok: "validate_payload (te_payload demo_env) demo_route (rt_base_dir demo_persistent)
      (rt_max_bytes demo_persistent) = Inr [(''w'', [5])]"
    using demo_validates by (simp add: rt demo_env_def)
  have d: "get_verified_route (rt_registry demo_persistent) ''r'' (rt_hash demo_persistent) ''t''
      = Inr demo_route"
    by (simp add: rt demo_verified)
  from request_forgets_persistent_route[OF demo_persistent_reach refl demo_faithful rt(1) d ok,
      of "''q''" demo_forward]
  show ?thesis using rt(2) by auto
qed

text \<open>Leaving a persistent route for the base route reports success although the rollback
  failed and quarantined the worker.\<close>

theorem base_switch_reports_success_when_quarantined:
  assumes reach: "runtime_reach dg base state s" and dg: "te_digest env = dg"
    and swapped: "rt_phase s = SWAPPED" and snap: "rt_snapshots s \<noteq> []"
    and broken: "\<forall>old new. \<exists>e. te_copy env old new = Inl e"
  shows "\<exists>s'. ensure_route env base_route t r s = (s', Inr True)
     \<and> rt_phase s' = WORKER_QUARANTINED \<and> rt_active s' = base_route"
proof -
  note safe = reach_safe[OF reach]
  obtain s' where s': "leave_route env r t s = (s', Inr ())" "rt_active s' = base_route"
    using leave_route_safe[OF safe dg] by blast
  have act: "rt_active s \<noteq> base_route" using safe swapped by (simp add: safe_def steady_def)
  obtain s1 where "perform_rollback env r t (rt_active s) s = (s1, Inr ())"
    "rt_phase s1 = WORKER_QUARANTINED"
    using broken_rollback_quarantines[OF snap broken] by blast
  then have "rt_phase s' = WORKER_QUARANTINED"
    using s'(1) act by (auto simp: leave_route_def bindS_def modS_def)
  then show ?thesis
    using s' swapped act
    by (simp add: ensure_route_def is_terminal_def bindS_def liftS_def)
qed

theorem base_switch_reports_success_when_quarantined_witness:
  "\<exists>s'. ensure_route (demo_env\<lparr>te_copy := (\<lambda>old new. Inl (PyExc RuntimeErrorE []))\<rparr>) base_route
          ''t'' ''q'' demo_persistent = (s', Inr True)
      \<and> rt_phase s' = WORKER_QUARANTINED"
proof -
  have "te_digest (demo_env\<lparr>te_copy := (\<lambda>old new. Inl (PyExc RuntimeErrorE []))\<rparr>) = te_digest demo_env"
    by simp
  from base_switch_reports_success_when_quarantined[OF demo_persistent_reach this
      demo_persistent_run(1), of "''t''" "''q''"]
  show ?thesis using demo_persistent_run(7) by auto
qed

text \<open>The terminal phase can be left: on a quarantined worker that still records a persistent
  route, \<open>clear_active_route\<close> forces the phase past the transition table, and when the copies
  of this second rollback are faithful the worker is READY and serves requests again (with its
  base weights).\<close>

theorem cleanup_lifts_worker_quarantine:
  assumes reach: "runtime_reach dg base state s" and dg: "te_digest env = dg"
    and fc: "faithful_copy env" and q: "rt_phase s = WORKER_QUARANTINED"
    and act: "rt_active s \<noteq> base_route"
  shows "\<exists>s'. clear_active_route env s = (s', Inr True)
     \<and> valid_transitions (rt_phase s) = {} \<and> rt_phase s' = READY
     \<and> (\<forall>a. dg (rt_mem s' a) = dg (base a))"
proof -
  have inv: "swap_inv dg base state s" using reach_safe[OF reach] by (simp add: safe_def)
  obtain s1 where s1: "perform_rollback env ''cleanup'' ''system'' (rt_active s) s = (s1, Inr ())"
    "swap_inv dg base state s1"
    using perform_rollback_settles[OF inv dg] by blast
  have "rt_phase s1 = READY"
    using perform_rollback_recovers[OF inv dg fc, of "''cleanup''" "''system''" "rt_active s"] s1(1)
    by simp
  then show ?thesis
    using s1 act q
    by (simp add: clear_active_route_def bindS_def modS_def liftS_def swap_inv_def clean_phases_def
        clean_def)
qed

definition broken_env :: "int list runtime_env" where
  "broken_env = demo_env\<lparr>te_copy := (\<lambda>old new. Inl (PyExc RuntimeErrorE []))\<rparr>"

definition demo_stuck :: "int list runtime" where
  "demo_stuck = fst (infer broken_env ''r'' ''t'' ''q'' demo_forward demo_persistent)"

lemma demo_stuck_reach: "runtime_reach (te_digest demo_env) demo_base demo_model demo_stuck"
  unfolding demo_stuck_def
  by (rule runtime_reach.request[OF demo_persistent_reach]) (simp add: broken_env_def)

lemma demo_stuck_run: "rt_phase demo_stuck = WORKER_QUARANTINED" "rt_active demo_stuck = ''r''"
proof -
  note rt = demo_persistent_run
  have ready: "request_ready broken_env ''r'' ''t'' demo_route [(''w'', [5])] demo_persistent"
    using demo_validates
    by (simp add: request_ready_def rt demo_verified is_terminal_def broken_env_def demo_env_def)
  let ?l = "at_lock broken_env ''q'' ''t'' ''r'' [(''w'', [5])] demo_persistent"
  let ?e = "invalid_transition SWAPPED VERIFYING"
  let ?u = "log_event ''q'' ''t'' ''r'' ''exception_during_lifecycle'' ''failure'' 0
      [(''failure_reason'', exc_msg ?e)] ?l"
  have cycle: "infer_cycle broken_env ''q'' ''t'' ''r'' demo_route [(''w'', [5])] demo_forward ?l
      = (?l, Inl ?e)"
    by (simp add: infer_cycle_def bindS_def rt_transition_def transition_def at_lock_frame rt)
  have "core ?u = core demo_persistent" by (simp add: frame_simps at_lock_frame)
  then have "rt_snapshots ?u \<noteq> []" using rt(7) by (simp add: core_def)
  moreover have "\<forall>old new. \<exists>e. te_copy broken_env old new = Inl e" by (simp add: broken_env_def)
  ultimately obtain s' where s': "perform_rollback broken_env ''q'' ''t'' ''r'' ?u = (s', Inr ())"
    "rt_phase s' = WORKER_QUARANTINED" "rt_active s' = rt_active ?u"
    using broken_rollback_quarantines by blast
  then have "demo_stuck = s'"
    using cycle infer_at_lock[OF ready, of "''q''" demo_forward]
    by (simp add: demo_stuck_def infer_locked_def bindS_def modS_def liftS_def)
  then show "rt_phase demo_stuck = WORKER_QUARANTINED" "rt_active demo_stuck = ''r''"
    using s'(2,3) by (simp_all add: frame_simps at_lock_frame rt)
qed

theorem cleanup_lifts_worker_quarantine_witness:
  "\<exists>s'. clear_active_route demo_env demo_stuck = (s', Inr True) \<and> rt_phase s' = READY"
proof -
  have "rt_active demo_stuck \<noteq> base_route" by (simp add: demo_stuck_run base_route_def)
  from cleanup_lifts_worker_quarantine[OF demo_stuck_reach refl demo_faithful demo_stuck_run(1) this]
  show ?thesis by blast
qed

text \<open>C5. The swap writes what the route says and nothing else: when the captured layers have
  distinct target parameters with distinct storage and every layer has its delta, each target
  holds the sum of its weight and its delta afterwards and every other address is unchanged.\<close>

theorem swap_adds_exactly_the_deltas:
  fixes env :: "'t runtime_env" and s :: "'t runtime" and g :: "string \<Rightarrow> 't"
  assumes model: "rt_model s = Some state" and nonempty: "deltas \<noteq> []"
    and layers: "route_layers d = Inr ls" and names: "map layer_name ls = map Inr ns"
    and distinct: "distinct (map addr ns)"
    and target: "\<And>n. n \<in> set ns \<Longrightarrow> map_of state (dict_get (rt_names s) n n) = Some (addr n)
        \<and> map_of deltas n = Some (delta n) \<and> te_add env (rt_mem s (addr n)) (delta n) = Inr (g n)"
  shows "\<exists>s'. apply_swap env d deltas s = (s', Inr ())
     \<and> (\<forall>n\<in>set ns. rt_mem s' (addr n) = g n)
     \<and> (\<forall>a. a \<notin> addr ` set ns \<longrightarrow> rt_mem s' a = rt_mem s a)"
proof -
  have "\<exists>m. forS (swap_layer env state d deltas) ls s = (s\<lparr>rt_mem := m\<rparr>, Inr ())
      \<and> (\<forall>n\<in>set ns. m (addr n) = g n) \<and> (\<forall>a. a \<notin> addr ` set ns \<longrightarrow> m a = rt_mem s a)"
    using names distinct target
  proof (induction ls arbitrary: ns s)
    case Nil
    show ?case by (rule exI[of _ "rt_mem s"]) (use Nil in simp)
  next
    case (Cons l ls)
    then obtain n ms where ns: "ns = n # ms" "layer_name l = Inr n" "map layer_name ls = map Inr ms"
      by (cases ns) auto
    let ?u = "s\<lparr>rt_mem := (rt_mem s)(addr n := g n)\<rparr>"
    have step: "swap_layer env state d deltas l s = (?u, Inr ())"
      using Cons.prems(3)[of n] ns
      by (simp add: swap_layer_def bindS_def liftS_def Let_def add_into_def write_mem_def)
    have "\<exists>m. forS (swap_layer env state d deltas) ls ?u = (?u\<lparr>rt_mem := m\<rparr>, Inr ())
        \<and> (\<forall>k\<in>set ms. m (addr k) = g k) \<and> (\<forall>a. a \<notin> addr ` set ms \<longrightarrow> m a = rt_mem ?u a)"
    proof (rule Cons.IH[OF ns(3)])
      show "distinct (map addr ms)" using Cons.prems(2) ns(1) by simp
      show "map_of state (dict_get (rt_names ?u) k k) = Some (addr k)
          \<and> map_of deltas k = Some (delta k) \<and> te_add env (rt_mem ?u (addr k)) (delta k) = Inr (g k)"
        if "k \<in> set ms" for k
        using Cons.prems(3)[of k] Cons.prems(2) that ns(1) by (auto simp: image_iff)
    qed
    then obtain m where m: "forS (swap_layer env state d deltas) ls ?u = (?u\<lparr>rt_mem := m\<rparr>, Inr ())"
      "\<forall>k\<in>set ms. m (addr k) = g k" "\<forall>a. a \<notin> addr ` set ms \<longrightarrow> m a = rt_mem ?u a" by blast
    have "addr n \<notin> addr ` set ms" using Cons.prems(2) ns(1) by simp
    then have "m (addr n) = g n" using m(3) by simp
    then show ?case using step m ns(1) by (intro exI[of _ m]) auto
  qed
  then show ?thesis
    using model layers nonempty by (auto simp: apply_swap_def bindS_def liftS_def)
qed

theorem swap_adds_exactly_the_deltas_witness:
  "\<exists>s'. apply_swap demo_env demo_route [(''w'', [5])] (demo_runtime\<lparr>rt_names := [(''w'', ''model.w'')]\<rparr>)
        = (s', Inr ()) \<and> rt_mem s' 0 = [12]"
proof -
  let ?s = "demo_runtime\<lparr>rt_names := [(''w'', ''model.w'')]\<rparr>"
  have model: "rt_model ?s = Some demo_model" by (simp add: demo_runtime_def init_runtime_def)
  have target: "map_of demo_model (dict_get (rt_names ?s) n n) = Some ((\<lambda>_. 0) n)
      \<and> map_of [(''w'', [5])] n = Some ((\<lambda>_. [5]) n)
      \<and> te_add demo_env (rt_mem ?s ((\<lambda>_. 0) n)) ((\<lambda>_. [5]) n) = Inr ((\<lambda>_. [12]) n)"
    if "n \<in> set [''w'']" for n
    using that by (simp add: demo_runtime_def init_runtime_def dict_get_def demo_env_def)
  have ls: "map layer_name [demo_layer] = map Inr [''w'']" by (simp add: demo_name)
  have ds: "[(''w'', [5 :: int])] \<noteq> []" by simp
  have dist: "distinct (map (\<lambda>_. 0 :: nat) [''w''])" by simp
  from swap_adds_exactly_the_deltas[OF model ds demo_layers ls dist target] show ?thesis by auto
qed

end
