(* ===== verification/Batching.thy ===== *)
theory Batching
  imports Prelude
begin

text \<open>
  The interface of the route-aware batchers: what every scheduler of the code base (the serving
  scheduler, the scheduler of the internal vLLM mock, the queues of the external proxy) promises
  about the batches it hands out, and what follows for a loop that drains it.
\<close>

section \<open>Slices\<close>

text \<open>\<open>xs[:n]\<close> and \<open>xs[n:]\<close>; a negative index counts from the end.\<close>

definition slice_to :: "int \<Rightarrow> 'a list \<Rightarrow> 'a list" where
  "slice_to n xs = (if 0 \<le> n then take (nat n) xs else take (length xs - nat (- n)) xs)"

definition slice_from :: "int \<Rightarrow> 'a list \<Rightarrow> 'a list" where
  "slice_from n xs = (if 0 \<le> n then drop (nat n) xs else drop (length xs - nat (- n)) xs)"

lemma slice_append [simp]: "slice_to n xs @ slice_from n xs = xs"
  by (simp add: slice_to_def slice_from_def)

lemma slice_to_nonempty: "0 < n \<Longrightarrow> xs \<noteq> [] \<Longrightarrow> slice_to n xs \<noteq> []"
  by (simp add: slice_to_def)

lemma slice_to_length: "0 \<le> n \<Longrightarrow> int (length (slice_to n xs)) \<le> n"
  by (simp add: slice_to_def)

lemma set_slice_to: "x \<in> set (slice_to n xs) \<Longrightarrow> x \<in> set xs"
  by (auto simp: slice_to_def split: if_splits dest: in_set_takeD)

lemma length_slices: "length (slice_to n xs) + length (slice_from n xs) = length xs"
  by (metis length_append slice_append)

lemma slice_length_cong:
  "length xs = length ys \<Longrightarrow> length (slice_to n xs) = length (slice_to n ys)"
  "length xs = length ys \<Longrightarrow> length (slice_from n xs) = length (slice_from n ys)"
  by (simp_all add: slice_to_def slice_from_def)

lemma slice_zip:
  "length xs = length ys \<Longrightarrow> zip (slice_to n xs) (slice_to n ys) = slice_to n (zip xs ys)"
  "length xs = length ys \<Longrightarrow> zip (slice_from n xs) (slice_from n ys) = slice_from n (zip xs ys)"
  by (simp_all add: slice_to_def slice_from_def take_zip drop_zip)

section \<open>Draining\<close>

text \<open>\<open>n\<close> fetches, one after another; the batches in order.\<close>

fun drain_with :: "('s \<Rightarrow> 'r list \<times> 's) \<Rightarrow> nat \<Rightarrow> 's \<Rightarrow> 'r list list \<times> 's" where
  "drain_with fetch 0 s = ([], s)"
| "drain_with fetch (Suc n) s =
     (let (b, s1) = fetch s; (bs, s2) = drain_with fetch n s1 in (b # bs, s2))"

definition one_route :: "('r \<Rightarrow> 'k) \<Rightarrow> 'r list \<Rightarrow> bool" where
  "one_route route b \<longleftrightarrow> (\<forall>x\<in>set b. \<forall>y\<in>set b. route x = route y)"

section \<open>The interface\<close>

text \<open>
  \<open>pend s k\<close> are the requests of route \<open>k\<close> that wait, in the order they will leave; \<open>total s\<close> is how
  many wait at all. A fetch takes a prefix of one route's queue and touches no other.
\<close>

locale route_batcher =
  fixes fetch :: "'s \<Rightarrow> 'r list \<times> 's"
    and pend :: "'s \<Rightarrow> 'k \<Rightarrow> 'r list"
    and total :: "'s \<Rightarrow> nat"
    and route :: "'r \<Rightarrow> 'k"
    and inv :: "'s \<Rightarrow> bool"
  assumes fetch_prefix: "inv s \<Longrightarrow> fetch s = (b, s') \<Longrightarrow>
      \<exists>k. pend s k = b @ pend s' k \<and> (\<forall>j. j \<noteq> k \<longrightarrow> pend s' j = pend s j)"
    and pend_route: "inv s \<Longrightarrow> x \<in> set (pend s k) \<Longrightarrow> route x = k"
    and fetch_total: "inv s \<Longrightarrow> fetch s = (b, s') \<Longrightarrow> total s = length b + total s'"
    and fetch_progress: "inv s \<Longrightarrow> fetch s = (b, s') \<Longrightarrow> 0 < total s \<Longrightarrow> b \<noteq> []"
    and total_empty: "inv s \<Longrightarrow> total s = 0 \<Longrightarrow> pend s k = []"
    and fetch_inv: "inv s \<Longrightarrow> fetch s = (b, s') \<Longrightarrow> inv s'"
begin

lemma batch_one_route:
  assumes "inv s" "fetch s = (b, s')"
  shows "one_route route b"
proof -
  obtain k where "pend s k = b @ pend s' k" using fetch_prefix[OF assms] by blast
  then have "route x = k" if "x \<in> set b" for x using pend_route[OF assms(1)] that by simp
  then show ?thesis by (simp add: one_route_def)
qed

lemma batch_of_route:
  assumes "inv s" "fetch s = (b, s')"
  shows "pend s k = filter (\<lambda>x. route x = k) b @ pend s' k"
proof -
  obtain j where j: "pend s j = b @ pend s' j" "\<And>i. i \<noteq> j \<Longrightarrow> pend s' i = pend s i"
    using fetch_prefix[OF assms] by blast
  have "route x = j" if "x \<in> set b" for x using pend_route[OF assms(1)] that j(1) by simp
  then show ?thesis using j by (cases "k = j") (auto simp: filter_True filter_False)
qed

lemma drain_invariant:
  "inv s \<Longrightarrow> drain_with fetch n s = (bs, s') \<Longrightarrow>
     inv s' \<and> (\<forall>b\<in>set bs. one_route route b)
     \<and> pend s k = filter (\<lambda>x. route x = k) (concat bs) @ pend s' k
     \<and> total s = length (concat bs) + total s'"
proof (induction n arbitrary: s bs)
  case 0
  then show ?case by simp
next
  case (Suc n)
  obtain b s1 where f: "fetch s = (b, s1)" by fastforce
  obtain cs where d: "drain_with fetch n s1 = (cs, s')" and bs: "bs = b # cs"
    using Suc.prems(2) f by (auto split: prod.splits)
  have inv1: "inv s1" using fetch_inv[OF Suc.prems(1) f] .
  from Suc.IH[OF inv1 d] batch_of_route[OF Suc.prems(1) f, of k] batch_one_route[OF Suc.prems(1) f]
    fetch_total[OF Suc.prems(1) f]
  show ?case using bs by simp
qed

lemma drain_empties:
  "inv s \<Longrightarrow> drain_with fetch n s = (bs, s') \<Longrightarrow> total s \<le> n \<Longrightarrow> total s' = 0"
proof (induction n arbitrary: s bs)
  case 0
  then show ?case by simp
next
  case (Suc n)
  obtain b s1 where f: "fetch s = (b, s1)" by fastforce
  obtain cs where d: "drain_with fetch n s1 = (cs, s')"
    using Suc.prems(2) f by (auto split: prod.splits)
  have "total s1 \<le> n"
  proof (cases "total s = 0")
    case True
    then show ?thesis using fetch_total[OF Suc.prems(1) f] by simp
  next
    case False
    then have "b \<noteq> []" using fetch_progress[OF Suc.prems(1) f] by simp
    then show ?thesis using fetch_total[OF Suc.prems(1) f] Suc.prems(3) by (cases b) auto
  qed
  then show ?case using Suc.IH[OF fetch_inv[OF Suc.prems(1) f] d] by blast
qed

text \<open>As many fetches as requests wait serve each of them exactly once, per route in order.\<close>

lemma drain_serves_all:
  assumes "inv s" "drain_with fetch n s = (bs, s')" "total s \<le> n"
  shows "filter (\<lambda>x. route x = k) (concat bs) = pend s k" "pend s' k = []"
    "\<forall>b\<in>set bs. one_route route b" "length (concat bs) = total s"
proof -
  have t: "total s' = 0" using drain_empties[OF assms] .
  note d = drain_invariant[OF assms(1,2), of k]
  show e: "pend s' k = []" using total_empty[OF _ t] d by blast
  show "filter (\<lambda>x. route x = k) (concat bs) = pend s k" using d e by simp
  show "\<forall>b\<in>set bs. one_route route b" "length (concat bs) = total s" using d t by simp_all
qed

end

end
