(* ===== verification/Scheduler.thy ===== *)
theory Scheduler
  imports Batching
begin

text \<open>
  The serving scheduler (serving/scheduler.py): the queues per route, submission, extraction of
  the next homogeneous batch, the secondary assertion, and the background drain loop.

  Futures are numbers handed out in order. A submission ends when the request is queued; waiting
  for the future is the caller's. Every operation holds the lock, so it is one step.
\<close>

section \<open>State\<close>

record sched_request =
  rq_request_id :: string
  rq_tenant_id :: string
  rq_route_id :: string
  rq_payload :: json

record scheduled_batch =
  sb_route_id :: string
  sb_requests :: "sched_request list"
  sb_futures :: "nat list"
  sb_created_at :: rat

definition new_batch :: "rat \<Rightarrow> string \<Rightarrow> scheduled_batch" where
  "new_batch now route_id =
     \<lparr>sb_route_id = route_id, sb_requests = [], sb_futures = [], sb_created_at = now\<rparr>"

definition batch_len :: "scheduled_batch \<Rightarrow> nat" where
  "batch_len b = length (sb_requests b)"

record scheduler =
  sc_max_batch_size :: int
  sc_queues :: "(string, scheduled_batch) dict"
  sc_next_future :: nat

definition init_scheduler :: "int \<Rightarrow> scheduler" where
  "init_scheduler max_batch_size =
     \<lparr>sc_max_batch_size = max_batch_size, sc_queues = [], sc_next_future = 0\<rparr>"

section \<open>Operations\<close>

definition submit_request ::
  "rat \<Rightarrow> string \<Rightarrow> string \<Rightarrow> string \<Rightarrow> json \<Rightarrow> scheduler \<Rightarrow> nat \<times> scheduler" where
  "submit_request now request_id tenant_id route_id payload sc =
     (let future = sc_next_future sc;
          request = \<lparr>rq_request_id = request_id, rq_tenant_id = tenant_id, rq_route_id = route_id,
                     rq_payload = payload\<rparr>;
          queues = (if has_key (sc_queues sc) route_id then sc_queues sc
                    else dict_set route_id (new_batch now route_id) (sc_queues sc));
          batch = dict_get queues route_id (new_batch now route_id);
          batch1 = batch\<lparr>sb_requests := sb_requests batch @ [request],
                         sb_futures := sb_futures batch @ [future]\<rparr>
      in (future, sc\<lparr>sc_queues := dict_set route_id batch1 queues,
                     sc_next_future := Suc future\<rparr>))"

text \<open>Python's \<open>min\<close> keeps the first of equal minima.\<close>

fun first_min :: "('a \<Rightarrow> rat) \<Rightarrow> 'a \<Rightarrow> 'a list \<Rightarrow> 'a" where
  "first_min key m [] = m"
| "first_min key m (x # xs) = first_min key (if key x < key m then x else m) xs"

definition fetch_next_safe_batch :: "rat \<Rightarrow> scheduler \<Rightarrow> scheduled_batch option \<times> scheduler" where
  "fetch_next_safe_batch now sc =
     (case sc_queues sc of
        [] \<Rightarrow> (None, sc)
      | q # qs \<Rightarrow>
          let (oldest_route, source) = first_min (\<lambda>p. sb_created_at (snd p)) q qs;
              n = sc_max_batch_size sc;
              safe_batch = (new_batch now (sb_route_id source))
                \<lparr>sb_requests := slice_to n (sb_requests source),
                 sb_futures := slice_to n (sb_futures source)\<rparr>;
              source1 = source\<lparr>sb_requests := slice_from n (sb_requests source),
                               sb_futures := slice_from n (sb_futures source)\<rparr>
          in (Some safe_batch,
              sc\<lparr>sc_queues := (if sb_requests source1 = [] then dict_del oldest_route (sc_queues sc)
                              else dict_set oldest_route source1 (sc_queues sc))\<rparr>))"

definition validate_batch_homogeneity :: "scheduled_batch option \<Rightarrow> bool result" where
  "validate_batch_homogeneity batch =
     (case batch of
        None \<Rightarrow> Inr True
      | Some b \<Rightarrow>
          if sb_requests b = [] then Inr True
          else
            let route_ids = remdups (map rq_route_id (sb_requests b)) in
            if length route_ids > 1
            then Inl (PyExc RuntimeErrorE ''CRITICAL: Route contamination detected in scheduled batch.'')
            else if route_ids \<noteq> [] \<and> sb_route_id b \<notin> set route_ids
            then Inl (PyExc RuntimeErrorE ''CRITICAL: Batch header route_id does not match.'')
            else Inr True)"

definition pending_count :: "scheduler \<Rightarrow> nat" where
  "pending_count sc = dict_sum batch_len (sc_queues sc)"

definition active_routes :: "scheduler \<Rightarrow> string list" where
  "active_routes sc = dict_keys (sc_queues sc)"

text \<open>
  The drain loop, one iteration per \<open>Tick\<close>; submissions arrive between iterations. An exception
  of the assertion or of the executor ends the background task. \<open>executed\<close> are the batches that
  were passed to the executor.
\<close>

datatype sched_event =
    Submit rat string string string json
  | Tick rat

record drain_state =
  ds_sched :: scheduler
  ds_alive :: bool
  ds_executed :: "scheduled_batch list"

definition drain_iteration ::
  "(scheduled_batch \<Rightarrow> unit result) \<Rightarrow> rat \<Rightarrow> drain_state \<Rightarrow> drain_state" where
  "drain_iteration executor now d =
     (case fetch_next_safe_batch now (ds_sched d) of
        (None, sc) \<Rightarrow> d\<lparr>ds_sched := sc\<rparr>
      | (Some batch, sc) \<Rightarrow>
          (case validate_batch_homogeneity (Some batch) of
             Inl e \<Rightarrow> d\<lparr>ds_sched := sc, ds_alive := False\<rparr>
           | Inr _ \<Rightarrow>
               d\<lparr>ds_sched := sc, ds_executed := ds_executed d @ [batch],
                 ds_alive := (case executor batch of Inl e \<Rightarrow> False | Inr _ \<Rightarrow> True)\<rparr>))"

fun sched_step :: "(scheduled_batch \<Rightarrow> unit result) \<Rightarrow> sched_event \<Rightarrow> drain_state \<Rightarrow> drain_state" where
  "sched_step executor (Submit now r t i p) d =
     d\<lparr>ds_sched := snd (submit_request now r t i p (ds_sched d))\<rparr>"
| "sched_step executor (Tick now) d = (if ds_alive d then drain_iteration executor now d else d)"

definition sched_run ::
  "(scheduled_batch \<Rightarrow> unit result) \<Rightarrow> sched_event list \<Rightarrow> drain_state \<Rightarrow> drain_state" where
  "sched_run executor evs d = foldl (\<lambda>d ev. sched_step executor ev d) d evs"

definition start_drain_loop :: "scheduler \<Rightarrow> drain_state" where
  "start_drain_loop sc = \<lparr>ds_sched = sc, ds_alive = True, ds_executed = []\<rparr>"

definition stop_drain_loop :: "drain_state \<Rightarrow> drain_state" where
  "stop_drain_loop d = d\<lparr>ds_alive := False\<rparr>"

section \<open>The invariant\<close>

text \<open>A queued entry is a request with its future.\<close>

definition entries :: "scheduled_batch \<Rightarrow> (sched_request \<times> nat) list" where
  "entries b = zip (sb_requests b) (sb_futures b)"

definition batch_ok :: "string \<Rightarrow> scheduled_batch \<Rightarrow> bool" where
  "batch_ok k b \<longleftrightarrow>
     sb_route_id b = k \<and> sb_requests b \<noteq> [] \<and> length (sb_futures b) = length (sb_requests b)
     \<and> (\<forall>r\<in>set (sb_requests b). rq_route_id r = k)"

definition sched_inv :: "scheduler \<Rightarrow> bool" where
  "sched_inv sc \<longleftrightarrow>
     0 < sc_max_batch_size sc \<and> dict_wf (sc_queues sc)
     \<and> (\<forall>k b. map_of (sc_queues sc) k = Some b \<longrightarrow> batch_ok k b)"

definition route_queue :: "scheduler \<Rightarrow> string \<Rightarrow> (sched_request \<times> nat) list" where
  "route_queue sc k = (case map_of (sc_queues sc) k of None \<Rightarrow> [] | Some b \<Rightarrow> entries b)"

definition fetch_entries :: "rat \<Rightarrow> scheduler \<Rightarrow> (sched_request \<times> nat) list \<times> scheduler" where
  "fetch_entries now sc =
     (case fetch_next_safe_batch now sc of
        (None, sc1) \<Rightarrow> ([], sc1) | (Some b, sc1) \<Rightarrow> (entries b, sc1))"

section \<open>Facts\<close>

lemma sched_inv_init: "0 < n \<Longrightarrow> sched_inv (init_scheduler n)"
  by (simp add: sched_inv_def init_scheduler_def)

lemma first_min_in: "first_min key m xs \<in> set (m # xs)"
proof (induction xs arbitrary: m)
  case (Cons x xs)
  then show ?case using Cons.IH[of x] Cons.IH[of m] by auto
qed simp

lemma first_min_le: "y \<in> set (m # xs) \<Longrightarrow> key (first_min key m xs) \<le> key y"
proof (induction xs arbitrary: m y)
  case (Cons x xs)
  let ?m = "if key x < key m then x else m"
  have "key (first_min key ?m xs) \<le> key ?m" using Cons.IH[of ?m ?m] by simp
  moreover have "key ?m \<le> key x" "key ?m \<le> key m" by auto
  moreover have "y \<in> set xs \<Longrightarrow> key (first_min key ?m xs) \<le> key y" using Cons.IH[of y ?m] by simp
  ultimately show ?case using Cons.prems by auto
qed simp

lemma submit_inv: "sched_inv sc \<Longrightarrow> sched_inv (snd (submit_request now r t i p sc))"
  by (auto simp: sched_inv_def submit_request_def Let_def batch_ok_def new_batch_def has_key_def
      dict_get_def)

lemma submit_queue:
  "sched_inv sc \<Longrightarrow> route_queue (snd (submit_request now r t i p sc)) k
     = route_queue sc k @ (if k = i then [(\<lparr>rq_request_id = r, rq_tenant_id = t, rq_route_id = i,
                              rq_payload = p\<rparr>, sc_next_future sc)] else [])"
  by (auto simp: sched_inv_def submit_request_def Let_def route_queue_def entries_def batch_ok_def
      new_batch_def has_key_def dict_get_def split: option.splits)

text \<open>A fetch takes the batch that was created first.\<close>

lemma fetch_cases:
  assumes inv: "sched_inv sc" and run: "fetch_next_safe_batch now sc = (r, sc')"
  obtains "sc_queues sc = []" "r = None" "sc' = sc"
  | k src b where "map_of (sc_queues sc) k = Some src" "batch_ok k src"
      "\<And>j c. map_of (sc_queues sc) j = Some c \<Longrightarrow> sb_created_at src \<le> sb_created_at c"
      "r = Some b" "sb_route_id b = k" "sb_requests b = slice_to (sc_max_batch_size sc) (sb_requests src)"
      "sb_futures b = slice_to (sc_max_batch_size sc) (sb_futures src)"
      "sc' = sc\<lparr>sc_queues :=
         (let rest = slice_from (sc_max_batch_size sc) (sb_requests src) in
          if rest = [] then dict_del k (sc_queues sc)
          else dict_set k (src\<lparr>sb_requests := rest,
                 sb_futures := slice_from (sc_max_batch_size sc) (sb_futures src)\<rparr>) (sc_queues sc))\<rparr>"
proof (cases "sc_queues sc")
  case Nil
  then show ?thesis using that(1) run by (simp add: fetch_next_safe_batch_def)
next
  case (Cons q qs)
  obtain k src where m: "first_min (\<lambda>p. sb_created_at (snd p)) q qs = (k, src)" by fastforce
  have wf: "dict_wf (sc_queues sc)" using inv by (simp add: sched_inv_def)
  have "(k, src) \<in> set (sc_queues sc)" using first_min_in[of _ q qs] m Cons by metis
  then have src: "map_of (sc_queues sc) k = Some src" using dict_in_set[OF wf] by blast
  have ok: "batch_ok k src" using src inv by (simp add: sched_inv_def)
  have le: "sb_created_at src \<le> sb_created_at c" if "map_of (sc_queues sc) j = Some c" for j c
  proof -
    have "(j, c) \<in> set (q # qs)" using that dict_in_set[OF wf] Cons by metis
    then show ?thesis using first_min_le[of "(j, c)" q qs "\<lambda>p. sb_created_at (snd p)"] m by simp
  qed
  show ?thesis
  proof (rule that(2)[OF src ok])
    let ?n = "sc_max_batch_size sc"
    let ?b = "(new_batch now k)\<lparr>sb_requests := slice_to ?n (sb_requests src),
               sb_futures := slice_to ?n (sb_futures src)\<rparr>"
    show "r = Some ?b"
      using run m Cons ok by (simp add: fetch_next_safe_batch_def Let_def batch_ok_def)
    show "sb_route_id ?b = k" "sb_requests ?b = slice_to ?n (sb_requests src)"
      "sb_futures ?b = slice_to ?n (sb_futures src)"
      by (simp_all add: new_batch_def)
    show "sc' = sc\<lparr>sc_queues :=
         (let rest = slice_from ?n (sb_requests src) in
          if rest = [] then dict_del k (sc_queues sc)
          else dict_set k (src\<lparr>sb_requests := rest,
                 sb_futures := slice_from ?n (sb_futures src)\<rparr>) (sc_queues sc))\<rparr>"
      using run m Cons by (simp add: fetch_next_safe_batch_def Let_def)
  qed (rule le)
qed

lemma fetch_entries_step:
  assumes inv: "sched_inv sc" and run: "fetch_entries now sc = (b, sc')"
  shows "\<exists>k. route_queue sc k = b @ route_queue sc' k
           \<and> (\<forall>j. j \<noteq> k \<longrightarrow> route_queue sc' j = route_queue sc j)"
    and "pending_count sc = length b + pending_count sc'"
    and "0 < pending_count sc \<Longrightarrow> b \<noteq> []"
    and "sched_inv sc'"
proof -
  obtain r where f: "fetch_next_safe_batch now sc = (r, sc')"
    using run by (auto simp: fetch_entries_def split: prod.splits option.splits)
  have wf: "dict_wf (sc_queues sc)" and pos: "0 < sc_max_batch_size sc"
    and oks: "\<And>k b. map_of (sc_queues sc) k = Some b \<Longrightarrow> batch_ok k b"
    using inv by (simp_all add: sched_inv_def)
  have "(\<exists>k. route_queue sc k = b @ route_queue sc' k
           \<and> (\<forall>j. j \<noteq> k \<longrightarrow> route_queue sc' j = route_queue sc j))
      \<and> pending_count sc = length b + pending_count sc' \<and> (0 < pending_count sc \<longrightarrow> b \<noteq> [])
      \<and> sched_inv sc'"
    using inv f
  proof (cases rule: fetch_cases)
    case 1
    then show ?thesis using run f inv by (simp add: fetch_entries_def pending_count_def dict_sum_def)
  next
    case (2 k src c)
    let ?n = "sc_max_batch_size sc"
    let ?rest = "slice_from ?n (sb_requests src)" and ?frest = "slice_from ?n (sb_futures src)"
    have len: "length (sb_futures src) = length (sb_requests src)" and ne: "sb_requests src \<noteq> []"
      using 2(2) by (simp_all add: batch_ok_def)
    have b: "b = slice_to ?n (entries src)"
      using run f 2(4,6,7) len by (simp add: fetch_entries_def entries_def slice_zip)
    have b_ne: "b \<noteq> []"
      using b slice_to_nonempty[OF pos] ne len by (cases "sb_requests src"; cases "sb_futures src")
        (auto simp: entries_def)
    have rest: "zip ?rest ?frest = slice_from ?n (entries src)"
      using len by (simp add: entries_def slice_zip)
    have q: "route_queue sc k = entries src" using 2(1) by (simp add: route_queue_def)
    have q': "route_queue sc' j = (if j = k then slice_from ?n (entries src) else route_queue sc j)" for j
      using 2(8) rest by (auto simp: route_queue_def Let_def entries_def[of "src\<lparr>sb_requests := x, sb_futures := y\<rparr>" for x y])
    have total: "pending_count sc = length b + pending_count sc'"
    proof -
      have l: "length b + length ?rest = length (sb_requests src)"
        using b len length_slices[of ?n "sb_requests src"]
          slice_length_cong(1)[of "entries src" "sb_requests src" ?n]
        by (simp add: entries_def)
      show ?thesis
        using 2(1,8) l dict_sum_del[OF wf 2(1), of batch_len]
          dict_sum_set[OF 2(1), of batch_len "src\<lparr>sb_requests := ?rest, sb_futures := ?frest\<rparr>"]
        by (auto simp: pending_count_def Let_def batch_len_def)
    qed
    have len': "length ?frest = length ?rest"
      using len by (simp add: slice_from_def)
    have sub: "set ?rest \<subseteq> set (sb_requests src)"
      by (auto simp: slice_from_def dest: in_set_dropD)
    have "sched_inv sc'"
      using 2(1,2,8) wf pos oks len' sub by (auto simp: sched_inv_def Let_def batch_ok_def)
    then show ?thesis using q q' b total b_ne by (intro conjI exI[of _ k]) auto
  qed
  then show "\<exists>k. route_queue sc k = b @ route_queue sc' k
           \<and> (\<forall>j. j \<noteq> k \<longrightarrow> route_queue sc' j = route_queue sc j)"
    "pending_count sc = length b + pending_count sc'" "0 < pending_count sc \<Longrightarrow> b \<noteq> []" "sched_inv sc'"
    by blast+
qed

interpretation sched: route_batcher "fetch_entries now" route_queue pending_count
    "\<lambda>e. rq_route_id (fst e)" sched_inv
  for now
proof unfold_locales
  show "rq_route_id (fst x) = k" if inv: "sched_inv s" and x: "x \<in> set (route_queue s k)" for s x k
  proof -
    obtain b where b: "map_of (sc_queues s) k = Some b" "x \<in> set (zip (sb_requests b) (sb_futures b))"
      using x by (cases "map_of (sc_queues s) k") (auto simp: route_queue_def entries_def)
    have "fst x \<in> set (sb_requests b)" using b(2) by (metis prod.collapse set_zip_leftD)
    then show ?thesis using inv b(1) by (simp add: sched_inv_def batch_ok_def)
  qed
  show "route_queue s k = []" if "sched_inv s" "pending_count s = 0" for s k
    using that dict_sum_zero[of "sc_queues s" k _ batch_len]
    by (auto simp: route_queue_def pending_count_def entries_def batch_len_def split: option.splits)
qed (use fetch_entries_step in blast)+

section \<open>Reachable schedulers\<close>

lemma homogeneous_batch_passes:
  assumes "batch_ok k src" "sb_route_id b = k" "set (sb_requests b) \<subseteq> set (sb_requests src)"
  shows "validate_batch_homogeneity (Some b) = Inr True"
proof (cases "sb_requests b = []")
  case True
  then show ?thesis by (simp add: validate_batch_homogeneity_def)
next
  case False
  have all: "rq_route_id r = k" if "r \<in> set (sb_requests b)" for r
    using assms(1,3) that by (auto simp: batch_ok_def)
  have "set (remdups (map rq_route_id (sb_requests b))) = {k}"
    using all False by (cases "sb_requests b") auto
  moreover have "distinct (remdups (map rq_route_id (sb_requests b)))" by simp
  ultimately have "length (remdups (map rq_route_id (sb_requests b))) = 1"
    by (metis distinct_card card_1_singleton_iff One_nat_def)
  then show ?thesis using all False assms(2)
    by (cases "sb_requests b") (auto simp: validate_batch_homogeneity_def Let_def)
qed

lemma fetch_sound:
  assumes inv: "sched_inv sc" and run: "fetch_next_safe_batch now sc = (Some b, sc')"
  shows "validate_batch_homogeneity (Some b) = Inr True \<and> sb_requests b \<noteq> []
    \<and> int (batch_len b) \<le> sc_max_batch_size sc \<and> length (sb_futures b) = length (sb_requests b)
    \<and> (\<forall>r\<in>set (sb_requests b). rq_route_id r = sb_route_id b)
    \<and> sc_max_batch_size sc' = sc_max_batch_size sc"
  using inv run
proof (cases rule: fetch_cases)
  case (2 k src c)
  have pos: "0 < sc_max_batch_size sc" using inv by (simp add: sched_inv_def)
  have sub: "set (sb_requests b) \<subseteq> set (sb_requests src)"
    using 2(4,6) by (auto dest: set_slice_to)
  have "sb_requests b \<noteq> []"
    using 2(2,4,6) slice_to_nonempty[OF pos, of "sb_requests src"] by (simp add: batch_ok_def)
  moreover have "int (batch_len b) \<le> sc_max_batch_size sc"
    using 2(4,6) slice_to_length[of "sc_max_batch_size sc"] pos by (simp add: batch_len_def)
  moreover have "length (sb_futures b) = length (sb_requests b)"
    using 2(2,4,6,7) slice_length_cong(1)[of "sb_futures src" "sb_requests src"]
    by (simp add: batch_ok_def)
  moreover have "\<forall>r\<in>set (sb_requests b). rq_route_id r = sb_route_id b"
    using 2(2,4,5) sub by (auto simp: batch_ok_def)
  moreover have "validate_batch_homogeneity (Some b) = Inr True"
    using homogeneous_batch_passes[OF 2(2) _ sub] 2(4,5) by simp
  ultimately show ?thesis using 2(8) by simp
qed simp

lemma drain_iteration_inv:
  "sched_inv (ds_sched d) \<Longrightarrow> sched_inv (ds_sched (drain_iteration executor now d))"
  using fetch_entries_step(4)[of "ds_sched d" now]
  by (auto simp: drain_iteration_def fetch_entries_def split: prod.splits option.splits sum.splits)

lemma sched_step_inv: "sched_inv (ds_sched d) \<Longrightarrow> sched_inv (ds_sched (sched_step executor ev d))"
  by (cases ev) (auto intro: submit_inv drain_iteration_inv)

lemma sched_run_inv: "sched_inv (ds_sched d) \<Longrightarrow> sched_inv (ds_sched (sched_run executor evs d))"
  by (induction evs arbitrary: d) (auto simp: sched_run_def intro: sched_step_inv)

definition executed_ok :: "int \<Rightarrow> scheduled_batch \<Rightarrow> bool" where
  "executed_ok n b \<longleftrightarrow> sb_requests b \<noteq> [] \<and> int (batch_len b) \<le> n
     \<and> (\<forall>r\<in>set (sb_requests b). rq_route_id r = sb_route_id b)"

lemma sched_step_executed:
  assumes "sched_inv (ds_sched d)" "\<forall>b\<in>set (ds_executed d). executed_ok (sc_max_batch_size (ds_sched d)) b"
  shows "(\<forall>b\<in>set (ds_executed (sched_step executor ev d)).
            executed_ok (sc_max_batch_size (ds_sched d)) b)
         \<and> sc_max_batch_size (ds_sched (sched_step executor ev d)) = sc_max_batch_size (ds_sched d)"
proof (cases ev)
  case (Submit now r t i p)
  then show ?thesis using assms by (simp add: submit_request_def Let_def)
next
  case (Tick now)
  obtain q sc where f: "fetch_next_safe_batch now (ds_sched d) = (q, sc)" by fastforce
  show ?thesis
  proof (cases q)
    case None
    have "sc = ds_sched d" using f None
      by (auto simp: fetch_next_safe_batch_def Let_def split: list.splits prod.splits)
    then show ?thesis using Tick f None assms by (simp add: drain_iteration_def)
  next
    case (Some b)
    have b: "executed_ok (sc_max_batch_size (ds_sched d)) b"
      "sc_max_batch_size sc = sc_max_batch_size (ds_sched d)"
      "validate_batch_homogeneity (Some b) = Inr True"
      using fetch_sound[OF assms(1)] f Some by (auto simp: executed_ok_def)
    then show ?thesis using Tick f Some assms(2) by (simp add: drain_iteration_def)
  qed
qed

lemma sched_run_executed:
  "sched_inv (ds_sched d) \<Longrightarrow> \<forall>b\<in>set (ds_executed d). executed_ok (sc_max_batch_size (ds_sched d)) b \<Longrightarrow>
     \<forall>b\<in>set (ds_executed (sched_run executor evs d)). executed_ok (sc_max_batch_size (ds_sched d)) b"
proof (induction evs arbitrary: d)
  case Nil
  then show ?case by (simp add: sched_run_def)
next
  case (Cons ev evs)
  let ?d = "sched_step executor ev d"
  have s: "(\<forall>b\<in>set (ds_executed ?d). executed_ok (sc_max_batch_size (ds_sched d)) b)
      \<and> sc_max_batch_size (ds_sched ?d) = sc_max_batch_size (ds_sched d)"
    using sched_step_executed[OF Cons.prems] .
  have "\<forall>b\<in>set (ds_executed (sched_run executor evs ?d)).
      executed_ok (sc_max_batch_size (ds_sched ?d)) b"
    by (rule Cons.IH[OF sched_step_inv[OF Cons.prems(1)]]) (use s in simp)
  then show ?case using s by (simp add: sched_run_def)
qed

lemma submit_queues:
  "sc_queues (snd (submit_request now r t i p sc)) = dict_set i
     (let b = (case map_of (sc_queues sc) i of None \<Rightarrow> new_batch now i | Some b \<Rightarrow> b)
      in b\<lparr>sb_requests := sb_requests b @ [\<lparr>rq_request_id = r, rq_tenant_id = t, rq_route_id = i,
                                             rq_payload = p\<rparr>],
            sb_futures := sb_futures b @ [sc_next_future sc]\<rparr>) (sc_queues sc)"
  by (simp add: submit_request_def Let_def has_key_def dict_get_def AList.update_last
      split: option.split)

lemma submit_max: "sc_max_batch_size (snd (submit_request now r t i p sc)) = sc_max_batch_size sc"
  by (simp add: submit_request_def Let_def)

lemma pending_submit:
  "pending_count (snd (submit_request now r t i p sc)) = Suc (pending_count sc)"
proof (cases "map_of (sc_queues sc) i")
  case None
  then show ?thesis
    by (simp add: pending_count_def submit_queues Let_def dict_sum_new batch_len_def new_batch_def)
next
  case (Some b)
  let ?v = "b\<lparr>sb_requests := sb_requests b @ [\<lparr>rq_request_id = r, rq_tenant_id = t, rq_route_id = i,
      rq_payload = p\<rparr>], sb_futures := sb_futures b @ [sc_next_future sc]\<rparr>"
  show ?thesis
    using Some dict_sum_set[OF Some, of batch_len ?v]
    by (simp add: pending_count_def submit_queues Let_def batch_len_def)
qed

fun submissions :: "sched_event list \<Rightarrow> nat" where
  "submissions [] = 0"
| "submissions (Submit _ _ _ _ _ # evs) = Suc (submissions evs)"
| "submissions (Tick _ # evs) = submissions evs"

lemma dead_run:
  "\<not> ds_alive d \<Longrightarrow> ds_executed (sched_run executor evs d) = ds_executed d
     \<and> pending_count (ds_sched (sched_run executor evs d)) = pending_count (ds_sched d) + submissions evs
     \<and> \<not> ds_alive (sched_run executor evs d)"
proof (induction evs arbitrary: d)
  case Nil
  then show ?case by (simp add: sched_run_def)
next
  case (Cons ev evs)
  have run: "sched_run executor (ev # evs) d = sched_run executor evs (sched_step executor ev d)"
    by (simp add: sched_run_def)
  have "\<not> ds_alive (sched_step executor ev d)" using Cons.prems by (cases ev) simp_all
  note ih = Cons.IH[OF this]
  show ?case
  proof (cases ev)
    case (Submit now r t i p)
    then show ?thesis
      using ih pending_submit[of now r t i p "ds_sched d"] Cons.prems unfolding run by simp
  next
    case (Tick now)
    then show ?thesis using ih Cons.prems unfolding run by simp
  qed
qed

section \<open>A route that never runs dry\<close>

text \<open>The queue of \<open>i\<close> is older than every other queue and holds a request.\<close>

definition busy :: "string \<Rightarrow> scheduler \<Rightarrow> bool" where
  "busy i sc \<longleftrightarrow> (\<exists>b. map_of (sc_queues sc) i = Some b
     \<and> (\<forall>j c. j \<noteq> i \<longrightarrow> map_of (sc_queues sc) j = Some c \<longrightarrow> sb_created_at b < sb_created_at c))"

definition queue_len :: "string \<Rightarrow> scheduler \<Rightarrow> nat" where
  "queue_len i sc = (case map_of (sc_queues sc) i of None \<Rightarrow> 0 | Some b \<Rightarrow> batch_len b)"

lemma busy_submit:
  assumes "busy i sc" "sched_inv sc"
  shows "busy i (snd (submit_request now r t i p sc))"
    "queue_len i (snd (submit_request now r t i p sc)) = Suc (queue_len i sc)"
    "j \<noteq> i \<Longrightarrow> map_of (sc_queues (snd (submit_request now r t i p sc))) j = map_of (sc_queues sc) j"
  using assms by (auto simp: busy_def submit_queues Let_def queue_len_def batch_len_def)

lemma busy_fetch:
  assumes busy: "busy i sc" and inv: "sched_inv sc" and len: "sc_max_batch_size sc < int (queue_len i sc)"
    and run: "fetch_next_safe_batch now sc = (r, sc')"
  shows "\<exists>b. r = Some b \<and> sb_route_id b = i \<and> busy i sc'
    \<and> int (queue_len i sc') = int (queue_len i sc) - sc_max_batch_size sc
    \<and> (\<forall>j. j \<noteq> i \<longrightarrow> map_of (sc_queues sc') j = map_of (sc_queues sc) j)
    \<and> sc_max_batch_size sc' = sc_max_batch_size sc"
  using inv run
proof (cases rule: fetch_cases)
  case 1
  then show ?thesis using busy by (auto simp: busy_def)
next
  case (2 k src b)
  obtain c where c: "map_of (sc_queues sc) i = Some c"
    "\<And>j d. j \<noteq> i \<Longrightarrow> map_of (sc_queues sc) j = Some d \<Longrightarrow> sb_created_at c < sb_created_at d"
    using busy by (auto simp: busy_def)
  have "k = i" using 2(1) 2(3)[OF c(1)] c(2)[of k src] by fastforce
  then have src: "src = c" using 2(1) c(1) by simp
  have n: "0 < sc_max_batch_size sc" using inv by (simp add: sched_inv_def)
  have longer: "sc_max_batch_size sc < int (length (sb_requests src))"
    using len c(1) src by (simp add: queue_len_def batch_len_def)
  then have rest: "slice_from (sc_max_batch_size sc) (sb_requests src) \<noteq> []"
    and rest_len: "int (length (slice_from (sc_max_batch_size sc) (sb_requests src)))
        = int (length (sb_requests src)) - sc_max_batch_size sc"
    using n by (auto simp: slice_from_def)
  show ?thesis
    using 2(4,5,8) \<open>k = i\<close> rest rest_len c src
    by (auto simp: Let_def busy_def queue_len_def batch_len_def)
qed

definition busy_round :: "nat \<Rightarrow> string \<Rightarrow> rat \<Rightarrow> sched_event list" where
  "busy_round n i now = replicate n (Submit now [] [] i JNull) @ [Tick now]"

lemma sched_run_append: "sched_run ex (xs @ ys) d = sched_run ex ys (sched_run ex xs d)"
  by (simp add: sched_run_def)

lemma busy_submits:
  assumes "busy i (ds_sched d)" "sched_inv (ds_sched d)"
  shows "busy i (ds_sched (sched_run ex (replicate n (Submit now [] [] i JNull)) d))
    \<and> queue_len i (ds_sched (sched_run ex (replicate n (Submit now [] [] i JNull)) d))
        = queue_len i (ds_sched d) + n
    \<and> (\<forall>j. j \<noteq> i \<longrightarrow> map_of (sc_queues (ds_sched (sched_run ex (replicate n (Submit now [] [] i JNull)) d))) j
        = map_of (sc_queues (ds_sched d)) j)
    \<and> ds_executed (sched_run ex (replicate n (Submit now [] [] i JNull)) d) = ds_executed d
    \<and> sc_max_batch_size (ds_sched (sched_run ex (replicate n (Submit now [] [] i JNull)) d))
        = sc_max_batch_size (ds_sched d)"
  using assms
proof (induction n arbitrary: d)
  case 0
  then show ?case by (simp add: sched_run_def)
next
  case (Suc n)
  let ?d = "sched_step ex (Submit now [] [] i JNull) d"
  have run: "sched_run ex (replicate (Suc n) (Submit now [] [] i JNull)) d
      = sched_run ex (replicate n (Submit now [] [] i JNull)) ?d"
    by (simp add: sched_run_def)
  have b: "busy i (ds_sched ?d)" "queue_len i (ds_sched ?d) = Suc (queue_len i (ds_sched d))"
    "\<And>j. j \<noteq> i \<Longrightarrow> map_of (sc_queues (ds_sched ?d)) j = map_of (sc_queues (ds_sched d)) j"
    "sched_inv (ds_sched ?d)" "ds_executed ?d = ds_executed d"
    "sc_max_batch_size (ds_sched ?d) = sc_max_batch_size (ds_sched d)"
    using busy_submit[OF Suc.prems] submit_inv[OF Suc.prems(2)] by (simp_all add: submit_max)
  show ?case unfolding run using Suc.IH[OF b(1,4)] b by simp
qed

lemma busy_round_starves:
  fixes ex now i n d
  assumes inv: "sched_inv (ds_sched d)" and busy: "busy i (ds_sched d)"
    and some: "0 < queue_len i (ds_sched d)"
    and n: "int n = sc_max_batch_size (ds_sched d)"
    and only: "\<forall>b\<in>set (ds_executed d). sb_route_id b = i"
  defines "d' \<equiv> sched_run ex (busy_round n i now) d"
  shows "sched_inv (ds_sched d') \<and> busy i (ds_sched d') \<and> 0 < queue_len i (ds_sched d')
    \<and> sc_max_batch_size (ds_sched d') = sc_max_batch_size (ds_sched d)
    \<and> (\<forall>b\<in>set (ds_executed d'). sb_route_id b = i)
    \<and> (\<forall>j. j \<noteq> i \<longrightarrow> map_of (sc_queues (ds_sched d')) j = map_of (sc_queues (ds_sched d)) j)"
proof -
  define d1 where "d1 = sched_run ex (replicate n (Submit now [] [] i JNull)) d"
  have d1: "busy i (ds_sched d1)" "queue_len i (ds_sched d1) = queue_len i (ds_sched d) + n"
    "\<And>j. j \<noteq> i \<Longrightarrow> map_of (sc_queues (ds_sched d1)) j = map_of (sc_queues (ds_sched d)) j"
    "ds_executed d1 = ds_executed d" "sc_max_batch_size (ds_sched d1) = sc_max_batch_size (ds_sched d)"
    using busy_submits[OF busy inv, of ex n now] by (simp_all add: d1_def)
  have inv1: "sched_inv (ds_sched d1)" unfolding d1_def by (rule sched_run_inv[OF inv])
  have d': "d' = sched_step ex (Tick now) d1"
    by (simp add: d'_def d1_def busy_round_def sched_run_append) (simp add: sched_run_def)
  have len: "sc_max_batch_size (ds_sched d1) < int (queue_len i (ds_sched d1))"
    using d1(2,5) n some by simp
  show ?thesis
  proof (cases "ds_alive d1")
    case False
    then show ?thesis using d' d1 inv1 only some by simp
  next
    case True
    obtain r sc' where f: "fetch_next_safe_batch now (ds_sched d1) = (r, sc')" by fastforce
    obtain b where b: "r = Some b" "sb_route_id b = i" "busy i sc'"
      "int (queue_len i sc') = int (queue_len i (ds_sched d1)) - sc_max_batch_size (ds_sched d1)"
      "\<And>j. j \<noteq> i \<Longrightarrow> map_of (sc_queues sc') j = map_of (sc_queues (ds_sched d1)) j"
      "sc_max_batch_size sc' = sc_max_batch_size (ds_sched d1)"
      using busy_fetch[OF d1(1) inv1 len f] by blast
    have v: "validate_batch_homogeneity (Some b) = Inr True"
      using fetch_sound[OF inv1] f b(1) by blast
    have "d' = d1\<lparr>ds_sched := sc', ds_executed := ds_executed d1 @ [b],
                ds_alive := (case ex b of Inl e \<Rightarrow> False | Inr _ \<Rightarrow> True)\<rparr>"
      using d' True f b(1) v by (simp add: drain_iteration_def)
    moreover have "sched_inv (ds_sched d')" unfolding d'_def by (rule sched_run_inv[OF inv])
    moreover have "0 < queue_len i sc'" using b(4) len by simp
    ultimately show ?thesis using b d1 only by auto
  qed
qed

section \<open>Properties\<close>

text \<open>C11. Route isolation of the serving scheduler: for every sequence of submissions and drain
  iterations and every executor, each batch that reaches the executor is non-empty, within the
  batch limit, and all its requests carry the route of its header.\<close>

theorem scheduler_never_mixes_routes:
  assumes "0 < n"
  shows "list_all (\<lambda>b. sb_requests b \<noteq> [] \<and> int (batch_len b) \<le> n
            \<and> list_all (\<lambda>r. rq_route_id r = sb_route_id b) (sb_requests b))
          (ds_executed (sched_run executor evs (start_drain_loop (init_scheduler n))))"
proof -
  have "\<forall>b\<in>set (ds_executed (sched_run executor evs (start_drain_loop (init_scheduler n)))).
      executed_ok (sc_max_batch_size (ds_sched (start_drain_loop (init_scheduler n)))) b"
    by (rule sched_run_executed) (simp_all add: start_drain_loop_def sched_inv_init assms)
  then show ?thesis
    by (auto simp: list_all_iff executed_ok_def start_drain_loop_def init_scheduler_def)
qed

definition demo_events :: "sched_event list" where
  "demo_events = [Submit 1 ''q1'' ''t'' ''a'' JNull, Submit 2 ''q2'' ''t'' ''b'' JNull,
                  Submit 3 ''q3'' ''t'' ''a'' JNull, Tick 4]"

theorem scheduler_never_mixes_routes_witness:
  "map (\<lambda>b. map rq_request_id (sb_requests b))
     (ds_executed (sched_run (\<lambda>b. Inr ()) demo_events (start_drain_loop (init_scheduler 16))))
     = [[''q1'', ''q3'']]
   \<and> list_all (\<lambda>b. sb_requests b \<noteq> [] \<and> int (batch_len b) \<le> 16
        \<and> list_all (\<lambda>r. rq_route_id r = sb_route_id b) (sb_requests b))
      (ds_executed (sched_run (\<lambda>b. Inr ()) demo_events (start_drain_loop (init_scheduler 16))))"
proof
  show "map (\<lambda>b. map rq_request_id (sb_requests b))
     (ds_executed (sched_run (\<lambda>b. Inr ()) demo_events (start_drain_loop (init_scheduler 16))))
     = [[''q1'', ''q3'']]"
    by code_simp
  show "list_all (\<lambda>b. sb_requests b \<noteq> [] \<and> int (batch_len b) \<le> 16
        \<and> list_all (\<lambda>r. rq_route_id r = sb_route_id b) (sb_requests b))
      (ds_executed (sched_run (\<lambda>b. Inr ()) demo_events (start_drain_loop (init_scheduler 16))))"
    by (rule scheduler_never_mixes_routes) simp
qed



text \<open>The order across routes is not fair: the creation time of a queue is not renewed when
  the queue is drained in part, so a route that holds the oldest queue and submits as many
  requests per iteration as a batch takes is served in every iteration, and the queues of all
  other routes stay as they are, for any number of iterations.\<close>

theorem busy_route_starves_others:
  assumes "sched_inv (ds_sched d)" and "busy i (ds_sched d)" and "0 < queue_len i (ds_sched d)"
    and "int n = sc_max_batch_size (ds_sched d)" and "ds_executed d = []"
  shows "(\<forall>b\<in>set (ds_executed (sched_run ex (concat (map (busy_round n i) ts)) d)). sb_route_id b = i)
    \<and> (\<forall>j. j \<noteq> i \<longrightarrow> map_of (sc_queues (ds_sched (sched_run ex (concat (map (busy_round n i) ts)) d))) j
           = map_of (sc_queues (ds_sched d)) j)"
proof -
  have "(\<forall>b\<in>set (ds_executed d). sb_route_id b = i)" using assms(5) by simp
  then show ?thesis
    using assms(1-4)
  proof (induction ts arbitrary: d)
    case Nil
    then show ?case by (simp add: sched_run_def)
  next
    case (Cons t ts)
    have "sched_run ex (concat (map (busy_round n i) (t # ts))) d
        = sched_run ex (concat (map (busy_round n i) ts)) (sched_run ex (busy_round n i t) d)"
      by (simp add: sched_run_append)
    then show ?case
      using busy_round_starves[OF Cons.prems(2,3,4,5,1), of ex t] Cons.IH[of "sched_run ex (busy_round n i t) d"]
        Cons.prems(5) by simp
  qed
qed

theorem busy_route_starves_others_witness:
  "\<forall>ts. map_of (sc_queues (ds_sched (sched_run (\<lambda>b. Inr ()) (concat (map (busy_round 1 ''a'') ts))
     (sched_run (\<lambda>b. Inr ()) (take 2 demo_events) (start_drain_loop (init_scheduler 1)))))) ''b'' \<noteq> None"
proof -
  let ?d = "sched_run (\<lambda>b. Inr ()) (take 2 demo_events) (start_drain_loop (init_scheduler 1))"
  have inv: "sched_inv (ds_sched ?d)"
    by (rule sched_run_inv) (simp add: start_drain_loop_def sched_inv_init)
  have b: "busy ''a'' (ds_sched ?d)"
    by (simp add: demo_events_def sched_run_def start_drain_loop_def init_scheduler_def busy_def
        submit_queues new_batch_def)
  have "0 < queue_len ''a'' (ds_sched ?d)" "int 1 = sc_max_batch_size (ds_sched ?d)" "ds_executed ?d = []"
    by code_simp+
  note starve = busy_route_starves_others[OF inv b this, of "\<lambda>b. Inr ()"]
  have "map_of (sc_queues (ds_sched ?d)) ''b'' \<noteq> None"
    by (simp add: demo_events_def sched_run_def start_drain_loop_def init_scheduler_def submit_queues)
  moreover have "''b'' \<noteq> ''a''" by simp
  ultimately show ?thesis using starve by metis
qed

text \<open>An exception of the executor ends service for good: the drain task is not restarted and
  its exception is not looked at, so after the failing batch no batch is executed any more and
  every later submission stays in the queues.\<close>

theorem executor_failure_stops_serving:
  assumes "ds_alive d" and "fetch_next_safe_batch now (ds_sched d) = (Some b, sc)"
    and "validate_batch_homogeneity (Some b) = Inr True" and "executor b = Inl e"
  shows "ds_executed (sched_run executor (Tick now # evs) d) = ds_executed d @ [b]
    \<and> pending_count (ds_sched (sched_run executor (Tick now # evs) d)) = pending_count sc + submissions evs"
proof -
  let ?d = "sched_step executor (Tick now) d"
  have step: "?d = d\<lparr>ds_sched := sc, ds_executed := ds_executed d @ [b], ds_alive := False\<rparr>"
    using assms by (simp add: drain_iteration_def)
  have "sched_run executor (Tick now # evs) d = sched_run executor evs ?d" by (simp add: sched_run_def)
  then show ?thesis using dead_run[of ?d executor evs] step by simp
qed

theorem executor_failure_stops_serving_witness:
  "pending_count (ds_sched (sched_run (\<lambda>b. Inl (PyExc ValueErrorE [])) (drop 3 demo_events @ demo_events)
     (sched_run (\<lambda>b. Inr ()) (take 3 demo_events) (start_drain_loop (init_scheduler 16))))) = 4"
proof -
  let ?d = "sched_run (\<lambda>b. Inr ()) (take 3 demo_events) (start_drain_loop (init_scheduler 16))"
  have evs: "drop 3 demo_events @ demo_events = Tick 4 # demo_events" by (simp add: demo_events_def)
  obtain b sc where f: "fetch_next_safe_batch 4 (ds_sched ?d) = (Some b, sc)"
    and c: "pending_count sc = 1"
  proof -
    have s: "fst (fetch_next_safe_batch 4 (ds_sched ?d)) \<noteq> None"
      "pending_count (snd (fetch_next_safe_batch 4 (ds_sched ?d))) = 1"
      by code_simp+
    then show ?thesis using that by (cases "fetch_next_safe_batch 4 (ds_sched ?d)") auto
  qed
  have inv: "sched_inv (ds_sched ?d)"
    by (rule sched_run_inv) (simp add: start_drain_loop_def sched_inv_init)
  have alive: "ds_alive ?d" by code_simp
  have v: "validate_batch_homogeneity (Some b) = Inr True" using fetch_sound[OF inv f] by blast
  have n: "submissions demo_events = 3" by (simp add: demo_events_def)
  show ?thesis
    unfolding evs
    using executor_failure_stops_serving[OF alive f v, of "\<lambda>b. Inl (PyExc ValueErrorE [])"
        "PyExc ValueErrorE []" demo_events] c n by simp
qed

end
