(* ===== verification/VLLM_Mock.thy ===== *)
theory VLLM_Mock
  imports Batching
begin

text \<open>
  The internal vLLM mock (serving/vllm_internal_mock.py): requests as objects of a store, the
  block allocator with its route tags, the homogeneous scheduler, and the model runner.
\<close>

section \<open>State\<close>

record mock_request =
  mr_request_id :: string
  mr_prompt :: string
  mr_route_id :: "string option"
  mr_status :: string
  mr_kv_blocks :: "int list"

definition new_request :: "string \<Rightarrow> string \<Rightarrow> string option \<Rightarrow> mock_request" where
  "new_request request_id prompt route_id =
     \<lparr>mr_request_id = request_id, mr_prompt = prompt, mr_route_id = route_id,
      mr_status = ''PENDING'', mr_kv_blocks = []\<rparr>"

record kv_block =
  kb_route_id :: "string option"
  kb_ref_count :: int

record allocator =
  al_blocks :: "(int, kv_block) dict"
  al_free :: "int list"

definition init_allocator :: "int \<Rightarrow> allocator" where
  "init_allocator num_blocks =
     \<lparr>al_blocks = map (\<lambda>i. (i, \<lparr>kb_route_id = None, kb_ref_count = 0\<rparr>)) [0..num_blocks - 1],
      al_free = [0..num_blocks - 1]\<rparr>"

definition block_missing :: pyexc where
  "block_missing = PyExc KeyErrorE ''block''"

definition allocate :: "string option \<Rightarrow> allocator \<Rightarrow> allocator \<times> int result" where
  "allocate route_id al =
     (case al_free al of
        [] \<Rightarrow> (al, Inl (PyExc RuntimeErrorE ''Out of KV Cache blocks''))
      | block_id # free \<Rightarrow>
          let al1 = al\<lparr>al_free := free\<rparr> in
          (case map_of (al_blocks al1) block_id of
             None \<Rightarrow> (al1, Inl block_missing)
           | Some block \<Rightarrow>
               (al1\<lparr>al_blocks := dict_set block_id (block\<lparr>kb_route_id := route_id, kb_ref_count := 1\<rparr>)
                                  (al_blocks al1)\<rparr>, Inr block_id)))"

definition route_leakage :: pyexc where
  "route_leakage = PyExc RouteLeakageErrorE ''KV Cache Leakage!''"

definition verify_access :: "int \<Rightarrow> string option \<Rightarrow> allocator \<Rightarrow> unit result" where
  "verify_access block_id request_route_id al =
     (case map_of (al_blocks al) block_id of
        None \<Rightarrow> Inl block_missing
      | Some block \<Rightarrow>
          if kb_route_id block \<noteq> request_route_id then Inl route_leakage else Inr ())"

text \<open>The pending list holds references; \<open>list.remove\<close> finds the first identical object.\<close>

record mock_scheduler =
  ms_pending :: "nat list"
  ms_max_batch_size :: int

type_synonym heap = "nat \<Rightarrow> mock_request"

definition init_mock_scheduler :: "int \<Rightarrow> mock_scheduler" where
  "init_mock_scheduler n = \<lparr>ms_pending = [], ms_max_batch_size = n\<rparr>"

definition add_request :: "nat \<Rightarrow> mock_scheduler \<Rightarrow> mock_scheduler" where
  "add_request request sc = sc\<lparr>ms_pending := ms_pending sc @ [request]\<rparr>"

fun route_groups :: "heap \<Rightarrow> nat list \<Rightarrow> (string option, nat list) dict \<Rightarrow> (string option, nat list) dict" where
  "route_groups h [] g = g"
| "route_groups h (r # rs) g =
     (let k = mr_route_id (h r);
          g1 = (if has_key g k then g else dict_set k [] g)
      in route_groups h rs (dict_set k (dict_get g1 k [] @ [r]) g1))"

definition schedule_next_batch :: "heap \<Rightarrow> mock_scheduler \<Rightarrow> nat list \<times> mock_scheduler" where
  "schedule_next_batch h sc =
     (case ms_pending sc of
        [] \<Rightarrow> ([], sc)
      | first # _ \<Rightarrow>
          let groups = route_groups h (ms_pending sc) [];
              group = dict_get groups (mr_route_id (h first)) [];
              batch = slice_to (ms_max_batch_size sc) group
          in (batch, sc\<lparr>ms_pending := foldl (\<lambda>ps r. remove1 r ps) (ms_pending sc) batch\<rparr>))"

record runner =
  rn_allocator :: allocator
  rn_leaks :: int
  rn_rollback_failures :: int
  rn_swaps :: int
  rn_active :: "string option"
  rn_quarantined :: bool
  rn_heap :: heap

definition init_runner :: "allocator \<Rightarrow> heap \<Rightarrow> runner" where
  "init_runner al h =
     \<lparr>rn_allocator = al, rn_leaks = 0, rn_rollback_failures = 0, rn_swaps = 0, rn_active = None,
      rn_quarantined = False, rn_heap = h\<rparr>"

definition swap_weights :: "string option \<Rightarrow> runner \<Rightarrow> runner" where
  "swap_weights route_id rn =
     (if rn_active rn = route_id then rn
      else rn\<lparr>rn_active := route_id, rn_swaps := rn_swaps rn + 1\<rparr>)"

definition rollback_weights :: "runner \<Rightarrow> runner" where
  "rollback_weights rn = rn\<lparr>rn_active := None\<rparr>"

text \<open>One access; a leakage is counted before it is raised again.\<close>

definition check_block :: "string option \<Rightarrow> int \<Rightarrow> (runner, unit) act" where
  "check_block route block_id rn =
     (case verify_access block_id route (rn_allocator rn) of
        Inr u \<Rightarrow> (rn, Inr u)
      | Inl e \<Rightarrow>
          (if e = route_leakage then rn\<lparr>rn_leaks := rn_leaks rn + 1\<rparr> else rn, Inl e))"

definition alloc_block :: "string option \<Rightarrow> (runner, int) act" where
  "alloc_block route rn =
     (case allocate route (rn_allocator rn) of (al, r) \<Rightarrow> (rn\<lparr>rn_allocator := al\<rparr>, r))"

definition finish_request :: "nat \<Rightarrow> int \<Rightarrow> runner \<Rightarrow> runner" where
  "finish_request req new_block rn =
     rn\<lparr>rn_heap := (rn_heap rn)(req := (rn_heap rn req)
       \<lparr>mr_kv_blocks := mr_kv_blocks (rn_heap rn req) @ [new_block], mr_status := ''COMPLETED''\<rparr>)\<rparr>"

definition forward_request :: "nat \<Rightarrow> (runner, unit) act" where
  "forward_request req rn =
     bindS (forS (check_block (mr_route_id (rn_heap rn req))) (mr_kv_blocks (rn_heap rn req))) (\<lambda>_.
     bindS (alloc_block (mr_route_id (rn_heap rn req))) (\<lambda>new_block.
       modS (finish_request req new_block))) rn"

definition mixed_batch :: pyexc where
  "mixed_batch = PyExc UnsafeMixedRouteBatchErrorE ''Mixed route batch detected!''"

definition execute_forward_pass :: "nat list \<Rightarrow> (runner, unit) act" where
  "execute_forward_pass batch rn =
     (if rn_quarantined rn
      then (rn, Inl (PyExc RuntimeErrorE ''Model is in QUARANTINE due to previous failure.''))
      else case batch of
        [] \<Rightarrow> (rn, Inr ())
      | first # _ \<Rightarrow>
          let target_route = mr_route_id (rn_heap rn first) in
          if list_ex (\<lambda>req. mr_route_id (rn_heap rn req) \<noteq> target_route) batch
          then (rn, Inl mixed_batch)
          else
            (case forS forward_request batch (swap_weights target_route rn) of
               (rn1, Inl e) \<Rightarrow> (rollback_weights rn1, Inl e)
             | (rn1, Inr _) \<Rightarrow> (rollback_weights rn1, Inr ())))"

section \<open>The scheduler\<close>

abbreviation of_route :: "heap \<Rightarrow> string option \<Rightarrow> nat list \<Rightarrow> nat list" where
  "of_route h k \<equiv> filter (\<lambda>r. mr_route_id (h r) = k)"

lemma route_groups_get:
  "dict_get (route_groups h rs g) k [] = dict_get g k [] @ of_route h k rs"
proof (induction rs arbitrary: g)
  case (Cons r rs)
  show ?case
    using Cons.IH by (auto simp: Let_def dict_get_def has_key_def split: option.splits)
qed simp

lemma route_groups_empty: "dict_get (route_groups h rs []) k [] = of_route h k rs"
  by (simp add: route_groups_get) (simp add: dict_get_def)

lemma remove_prefix:
  assumes "b @ rest = filter P ps"
  shows "filter P (foldl (\<lambda>ps r. remove1 r ps) ps b) = rest
    \<and> filter (\<lambda>x. \<not> P x \<and> Q x) (foldl (\<lambda>ps r. remove1 r ps) ps b) = filter (\<lambda>x. \<not> P x \<and> Q x) ps
    \<and> length ps = length b + length (foldl (\<lambda>ps r. remove1 r ps) ps b)"
  using assms
proof (induction b arbitrary: ps)
  case Nil
  then show ?case by simp
next
  case (Cons r b)
  have "r \<in> set (filter P ps)" by (metis Cons.prems append_Cons list.set_intros(1))
  then have r: "r \<in> set ps" "P r" by simp_all
  have "b @ rest = filter P (remove1 r ps)"
    using Cons.prems by (metis append_Cons filter_remove1 remove1.simps(2))
  note ih = Cons.IH[OF this]
  have "filter (\<lambda>x. \<not> P x \<and> Q x) (remove1 r ps) = filter (\<lambda>x. \<not> P x \<and> Q x) ps"
    using r(2) by (simp add: filter_remove1 remove1_idem)
  moreover have "length ps = Suc (length (remove1 r ps))"
    using r(1) by (simp add: length_remove1) (metis Suc_pred length_pos_if_in_set)
  ultimately show ?case using ih by simp
qed

lemma schedule_step:
  assumes run: "schedule_next_batch h sc = (b, sc')" and n: "0 < ms_max_batch_size sc"
  shows "\<exists>k. of_route h k (ms_pending sc) = b @ of_route h k (ms_pending sc')
       \<and> (\<forall>j. j \<noteq> k \<longrightarrow> of_route h j (ms_pending sc') = of_route h j (ms_pending sc))"
    and "length (ms_pending sc) = length b + length (ms_pending sc')"
    and "0 < length (ms_pending sc) \<Longrightarrow> b \<noteq> []"
    and "ms_max_batch_size sc' = ms_max_batch_size sc"
proof -
  have "(\<exists>k. of_route h k (ms_pending sc) = b @ of_route h k (ms_pending sc')
       \<and> (\<forall>j. j \<noteq> k \<longrightarrow> of_route h j (ms_pending sc') = of_route h j (ms_pending sc)))
    \<and> length (ms_pending sc) = length b + length (ms_pending sc')
    \<and> (0 < length (ms_pending sc) \<longrightarrow> b \<noteq> []) \<and> ms_max_batch_size sc' = ms_max_batch_size sc"
  proof (cases "ms_pending sc")
    case Nil
    then show ?thesis using run by (auto simp: schedule_next_batch_def)
  next
    case (Cons first ps)
    let ?k = "mr_route_id (h first)" and ?ps = "ms_pending sc"
    let ?g = "of_route h ?k ?ps"
    have "schedule_next_batch h sc = (slice_to (ms_max_batch_size sc) ?g,
        sc\<lparr>ms_pending := foldl (\<lambda>ps r. remove1 r ps) ?ps (slice_to (ms_max_batch_size sc) ?g)\<rparr>)"
      by (simp add: schedule_next_batch_def Let_def route_groups_empty Cons del: route_groups.simps)
    then have b: "b = slice_to (ms_max_batch_size sc) ?g"
      and sc': "sc' = sc\<lparr>ms_pending := foldl (\<lambda>ps r. remove1 r ps) ?ps b\<rparr>"
      unfolding run by blast+
    have split: "b @ slice_from (ms_max_batch_size sc) ?g = ?g" using b by simp
    have "?g \<noteq> []" using Cons by simp
    then have ne: "b \<noteq> []" unfolding b by (rule slice_to_nonempty[OF n])
    have other: "of_route h j (ms_pending sc') = of_route h j ?ps" if "j \<noteq> ?k" for j
    proof -
      have "(\<lambda>x. \<not> mr_route_id (h x) = ?k \<and> mr_route_id (h x) = j) = (\<lambda>x. mr_route_id (h x) = j)"
        using that by (auto simp: fun_eq_iff)
      then show ?thesis
        using remove_prefix[OF split, of "\<lambda>x. mr_route_id (h x) = j"] sc' by simp
    qed
    have "?g = b @ of_route h ?k (ms_pending sc')"
      using remove_prefix[OF split] split sc' by simp
    moreover have "length ?ps = length b + length (ms_pending sc')"
      using remove_prefix[OF split] sc' by simp
    ultimately show ?thesis using other ne sc' by (intro conjI exI[of _ ?k]) auto
  qed
  then show "\<exists>k. of_route h k (ms_pending sc) = b @ of_route h k (ms_pending sc')
       \<and> (\<forall>j. j \<noteq> k \<longrightarrow> of_route h j (ms_pending sc') = of_route h j (ms_pending sc))"
    "length (ms_pending sc) = length b + length (ms_pending sc')"
    "0 < length (ms_pending sc) \<Longrightarrow> b \<noteq> []" "ms_max_batch_size sc' = ms_max_batch_size sc"
    by blast+
qed

interpretation mock: route_batcher "schedule_next_batch h" "\<lambda>sc k. of_route h k (ms_pending sc)"
    "\<lambda>sc. length (ms_pending sc)" "\<lambda>r. mr_route_id (h r)" "\<lambda>sc. 0 < ms_max_batch_size sc"
  for h
proof unfold_locales
  fix s b s'
  assume n: "0 < ms_max_batch_size s" and run: "schedule_next_batch h s = (b, s')"
  note step = schedule_step[OF run n]
  show "\<exists>k. of_route h k (ms_pending s) = b @ of_route h k (ms_pending s')
      \<and> (\<forall>j. j \<noteq> k \<longrightarrow> of_route h j (ms_pending s') = of_route h j (ms_pending s))"
    by (rule step(1))
  show "length (ms_pending s) = length b + length (ms_pending s')" by (rule step(2))
  show "b \<noteq> []" if "0 < length (ms_pending s)" by (rule step(3)[OF that])
  show "0 < ms_max_batch_size s'" using step(4) n by simp
qed auto

section \<open>Block ownership\<close>

text \<open>Every block of a request is tagged with its route and is not free.\<close>

definition kv_inv :: "runner \<Rightarrow> bool" where
  "kv_inv rn \<longleftrightarrow>
     distinct (al_free (rn_allocator rn))
     \<and> (\<forall>b\<in>set (al_free (rn_allocator rn)). has_key (al_blocks (rn_allocator rn)) b)
     \<and> (\<forall>r. \<forall>b\<in>set (mr_kv_blocks (rn_heap rn r)).
          b \<notin> set (al_free (rn_allocator rn))
          \<and> (\<exists>blk. map_of (al_blocks (rn_allocator rn)) b = Some blk
                 \<and> kb_route_id blk = mr_route_id (rn_heap rn r)))
     \<and> rn_leaks rn = 0"

lemma check_blocks_pass:
  assumes "kv_inv rn" "set bs \<subseteq> set (mr_kv_blocks (rn_heap rn r))"
  shows "forS (check_block (mr_route_id (rn_heap rn r))) bs rn = (rn, Inr ())"
  using assms(2)
proof (induction bs)
  case (Cons b bs)
  have "\<exists>blk. map_of (al_blocks (rn_allocator rn)) b = Some blk
      \<and> kb_route_id blk = mr_route_id (rn_heap rn r)"
    using assms(1) Cons.prems by (simp add: kv_inv_def)
  then obtain blk where "map_of (al_blocks (rn_allocator rn)) b = Some blk"
      "kb_route_id blk = mr_route_id (rn_heap rn r)" by blast
  then show ?case using Cons by (simp add: check_block_def verify_access_def)
qed simp

lemma forward_request_step:
  assumes inv: "kv_inv rn" and run: "forward_request r rn = (rn', q)"
  shows "kv_inv rn' \<and> q \<in> {Inr (), Inl (PyExc RuntimeErrorE ''Out of KV Cache blocks'')}
    \<and> (\<forall>x. mr_route_id (rn_heap rn' x) = mr_route_id (rn_heap rn x))
    \<and> rn_quarantined rn' = rn_quarantined rn"
proof (cases "al_free (rn_allocator rn)")
  case Nil
  then have "rn' = rn\<lparr>rn_allocator := rn_allocator rn\<rparr>
      \<and> q = Inl (PyExc RuntimeErrorE ''Out of KV Cache blocks'')"
    using run check_blocks_pass[OF inv order_refl, of r]
    by (simp add: forward_request_def bindS_def alloc_block_def allocate_def)
  then show ?thesis using inv by simp
next
  case (Cons b free)
  have "has_key (al_blocks (rn_allocator rn)) b" using inv Cons by (simp add: kv_inv_def)
  then obtain blk where blk: "map_of (al_blocks (rn_allocator rn)) b = Some blk"
    by (auto simp: has_key_def)
  let ?route = "mr_route_id (rn_heap rn r)"
  let ?al = "(rn_allocator rn)\<lparr>al_free := free, al_blocks :=
      dict_set b (blk\<lparr>kb_route_id := ?route, kb_ref_count := 1\<rparr>) (al_blocks (rn_allocator rn))\<rparr>"
  have rn': "rn' = finish_request r b (rn\<lparr>rn_allocator := ?al\<rparr>)" and q: "q = Inr ()"
    using run check_blocks_pass[OF inv order_refl, of r] Cons blk
    by (simp_all add: forward_request_def bindS_def alloc_block_def allocate_def Let_def modS_def)
  have "b \<notin> set (mr_kv_blocks (rn_heap rn x))" for x using inv Cons by (auto simp: kv_inv_def)
  then have "kv_inv rn'"
    using inv Cons unfolding rn' kv_inv_def finish_request_def
    by (auto simp: fun_upd_def)
  moreover have "mr_route_id (rn_heap rn' x) = mr_route_id (rn_heap rn x)" for x
    unfolding rn' finish_request_def by simp
  moreover have "rn_quarantined rn' = rn_quarantined rn" unfolding rn' finish_request_def by simp
  ultimately show ?thesis using q by simp
qed

lemma forward_batch:
  assumes "kv_inv rn" "forS forward_request batch rn = (rn', q)"
  shows "kv_inv rn' \<and> q \<in> {Inr (), Inl (PyExc RuntimeErrorE ''Out of KV Cache blocks'')}
    \<and> rn_quarantined rn' = rn_quarantined rn"
  using assms
proof (induction batch arbitrary: rn)
  case Nil
  then show ?case by simp
next
  case (Cons r rs)
  obtain rn1 q1 where f: "forward_request r rn = (rn1, q1)" by fastforce
  note step = forward_request_step[OF Cons.prems(1) f]
  show ?case
  proof (cases q1)
    case (Inl e)
    then show ?thesis using Cons.prems(2) f step by auto
  next
    case (Inr u)
    then have "forS forward_request rs rn1 = (rn', q)" using Cons.prems(2) f by simp
    then show ?thesis using Cons.IH[of rn1] step by simp
  qed
qed

text \<open>Reachable mocks: requests are created and added, and a cycle schedules a batch and runs it.
  The reference of a request is the address of its object.\<close>

definition mock_cycle :: "mock_scheduler \<times> runner \<Rightarrow> (mock_scheduler \<times> runner) \<times> unit result" where
  "mock_cycle m =
     (let (batch, sc) = schedule_next_batch (rn_heap (snd m)) (fst m);
          (rn, q) = execute_forward_pass batch (snd m)
      in ((sc, rn), q))"

inductive mock_reach :: "int \<Rightarrow> int \<Rightarrow> mock_scheduler \<times> runner \<Rightarrow> bool" for blocks n where
  start: "mock_reach blocks n (init_mock_scheduler n, init_runner (init_allocator blocks) (\<lambda>r. new_request [] [] None))"
| add: "mock_reach blocks n (sc, rn) \<Longrightarrow>
    mock_reach blocks n (add_request r sc, rn\<lparr>rn_heap := (rn_heap rn)(r := new_request i p route)\<rparr>)"
| cycle: "mock_reach blocks n m \<Longrightarrow> mock_reach blocks n (fst (mock_cycle m))"

definition mock_inv :: "mock_scheduler \<times> runner \<Rightarrow> bool" where
  "mock_inv m \<longleftrightarrow> kv_inv (snd m) \<and> rn_active (snd m) = None \<and> \<not> rn_quarantined (snd m)
     \<and> 0 < ms_max_batch_size (fst m)"

lemma kv_inv_init: "kv_inv (init_runner (init_allocator blocks) (\<lambda>r. new_request [] [] None))"
  by (auto simp: kv_inv_def init_runner_def init_allocator_def new_request_def has_key_keys o_def)

lemma mock_cycle_step:
  assumes inv: "mock_inv m" and run: "mock_cycle m = (m', q)"
  shows "mock_inv m' \<and> q \<in> {Inr (), Inl (PyExc RuntimeErrorE ''Out of KV Cache blocks'')}"
proof -
  obtain sc rn where m: "m = (sc, rn)" by fastforce
  obtain b sc' where s: "schedule_next_batch (rn_heap rn) sc = (b, sc')" by fastforce
  obtain rn' where e: "execute_forward_pass b rn = (rn', q)" and m': "m' = (sc', rn')"
    using run m s by (auto simp: mock_cycle_def split: prod.splits)
  have n: "0 < ms_max_batch_size sc" "ms_max_batch_size sc' = ms_max_batch_size sc"
    using inv m schedule_step(4)[OF s] by (simp_all add: mock_inv_def)
  have one: "one_route (\<lambda>r. mr_route_id (rn_heap rn r)) b"
    using mock.batch_one_route[OF n(1) s] .
  show ?thesis
  proof (cases b)
    case Nil
    then show ?thesis using e inv m m' n by (simp add: execute_forward_pass_def mock_inv_def)
  next
    case (Cons first bs)
    let ?rn = "swap_weights (mr_route_id (rn_heap rn first)) rn"
    obtain rn1 q1 where f: "forS forward_request b ?rn = (rn1, q1)" by fastforce
    have "kv_inv ?rn" "rn_quarantined ?rn = rn_quarantined rn"
      using inv m by (auto simp: mock_inv_def swap_weights_def kv_inv_def)
    then have f1: "kv_inv rn1" "q1 \<in> {Inr (), Inl (PyExc RuntimeErrorE ''Out of KV Cache blocks'')}"
      "\<not> rn_quarantined rn1"
      using forward_batch[OF _ f] inv m by (auto simp: mock_inv_def)
    have "\<not> list_ex (\<lambda>req. mr_route_id (rn_heap rn req) \<noteq> mr_route_id (rn_heap rn first)) (first # bs)"
      using one unfolding Cons one_route_def list_ex_iff by (meson list.set_intros(1))
    then have "rn' = rollback_weights rn1 \<and> q = q1"
      using e f inv m unfolding Cons
      by (cases q1) (simp_all add: execute_forward_pass_def mock_inv_def Let_def
          del: forS.simps list.pred_inject)
    moreover have "kv_inv (rollback_weights rn1)"
      using f1(1) by (simp add: kv_inv_def rollback_weights_def)
    ultimately show ?thesis using f1 m' n by (simp add: mock_inv_def rollback_weights_def)
  qed
qed

lemma mock_inv_reach: "mock_reach blocks n m \<Longrightarrow> 0 < n \<Longrightarrow> mock_inv m"
proof (induction rule: mock_reach.induct)
  case start
  then show ?case
    using kv_inv_init by (simp add: mock_inv_def init_mock_scheduler_def) (simp add: init_runner_def)
next
  case (add sc rn r i p route)
  then show ?case
    by (auto simp: mock_inv_def kv_inv_def add_request_def new_request_def split: if_splits)
next
  case (cycle m)
  then show ?case using mock_cycle_step by (metis prod.collapse)
qed

section \<open>Properties\<close>

text \<open>The mock isolates routes: whatever requests are added between cycles, no cycle ever
  sees a cache block of another route or a mixed batch; the only failure of a cycle is an
  exhausted cache, after every cycle the base weights are active, and each block a request
  holds is tagged with its route.\<close>

theorem mock_never_leaks:
  assumes "0 < n" and "mock_reach blocks n m"
  shows "rn_leaks (snd m) = 0 \<and> rn_active (snd m) = None
    \<and> snd (mock_cycle m) \<in> {Inr (), Inl (PyExc RuntimeErrorE ''Out of KV Cache blocks'')}
    \<and> (\<forall>r b. b \<in> set (mr_kv_blocks (rn_heap (snd m) r)) \<longrightarrow>
         map_option kb_route_id (map_of (al_blocks (rn_allocator (snd m))) b)
           = Some (mr_route_id (rn_heap (snd m) r)))"
proof -
  have inv: "mock_inv m" using mock_inv_reach[OF assms(2,1)] .
  then have kv: "kv_inv (snd m)" by (simp add: mock_inv_def)
  have "map_option kb_route_id (map_of (al_blocks (rn_allocator (snd m))) b)
      = Some (mr_route_id (rn_heap (snd m) r))"
    if "b \<in> set (mr_kv_blocks (rn_heap (snd m) r))" for r b
    using kv that by (fastforce simp: kv_inv_def)
  moreover have "rn_leaks (snd m) = 0" "rn_active (snd m) = None"
    using inv by (simp_all add: mock_inv_def kv_inv_def)
  moreover have "snd (mock_cycle m) \<in> {Inr (), Inl (PyExc RuntimeErrorE ''Out of KV Cache blocks'')}"
    using mock_cycle_step[OF inv, of "fst (mock_cycle m)" "snd (mock_cycle m)"] by simp
  ultimately show ?thesis by blast
qed

theorem mock_never_leaks_witness:
  "\<exists>m. mock_reach 2 4 m \<and> mr_kv_blocks (rn_heap (snd m) 7) = [0] \<and> rn_leaks (snd m) = 0"
proof -
  let ?m0 = "(init_mock_scheduler 4, init_runner (init_allocator 2) (\<lambda>r. new_request [] [] None))"
  let ?m1 = "(add_request 7 (fst ?m0), (snd ?m0)\<lparr>rn_heap := (rn_heap (snd ?m0))
                (7 := new_request ''q'' ''p'' (Some ''a''))\<rparr>)"
  let ?m = "fst (mock_cycle ?m1)"
  have r: "mock_reach 2 4 ?m"
    by (rule mock_reach.cycle, rule mock_reach.add) (simp, rule mock_reach.start)
  have b: "mr_kv_blocks (rn_heap (snd ?m) 7) = [0]" by code_simp
  have l: "rn_leaks (snd ?m) = 0" using mock_never_leaks[OF _ r] by simp
  show ?thesis by (rule exI[of _ ?m]) (intro conjI r b l)
qed

end
