(* ===== verification/VLLM_Bridge.thy ===== *)
theory VLLM_Bridge
  imports Prelude
begin

text \<open>
  The vLLM bridge prototype (serving/vllm_bridge.py): the rules that decide whether a proposed
  batch, a cache allocation or a forward pass is safe, with the tags of the cache blocks.
\<close>

section \<open>State and rules\<close>

record cache_tag =
  ct_route_id :: "string option"
  ct_sequence_id :: "string option"

record bridge =
  br_vram_route :: "string option"
  br_tags :: "(int, cache_tag) dict"
  br_rejected :: int
  br_swaps :: int
  br_evictions :: int

definition init_bridge :: bridge where
  "init_bridge = \<lparr>br_vram_route = None, br_tags = [], br_rejected = 0, br_swaps = 0, br_evictions = 0\<rparr>"

text \<open>\<open>if route_id\<close>: neither \<open>None\<close> nor the empty string.\<close>

definition has_route :: "string option \<Rightarrow> bool" where
  "has_route r \<longleftrightarrow> r \<noteq> None \<and> r \<noteq> Some []"

text \<open>A request is given by what \<open>req.get("route_id")\<close> returns.\<close>

definition validate_batch_safety :: "string option list \<Rightarrow> (bridge, bool) act" where
  "validate_batch_safety batch_requests br =
     (let route_ids = remdups (filter has_route batch_requests) in
      if length route_ids > 1
      then (br\<lparr>br_rejected := br_rejected br + 1\<rparr>,
            Inl (PyExc RuntimeErrorE ''FATAL SECURITY VIOLATION: vLLM attempted to mix routes.''))
      else (br, Inr True))"

definition foreign_tag :: "(int, cache_tag) dict \<Rightarrow> string option \<Rightarrow> int \<Rightarrow> bool" where
  "foreign_tag tags route_id block_id =
     (case map_of tags block_id of
        None \<Rightarrow> False
      | Some tag \<Rightarrow> ct_route_id tag \<noteq> None \<and> ct_route_id tag \<noteq> route_id)"

fun tag_blocks :: "string option \<Rightarrow> string \<Rightarrow> int list \<Rightarrow> (int, cache_tag) dict \<Rightarrow> (int, cache_tag) dict" where
  "tag_blocks route_id request_id [] tags = tags"
| "tag_blocks route_id request_id (b # bs) tags =
     tag_blocks route_id request_id bs
       (dict_set b \<lparr>ct_route_id = route_id, ct_sequence_id = Some request_id\<rparr> tags)"

definition validate_kv_cache_allocation ::
  "string \<Rightarrow> string option \<Rightarrow> int list \<Rightarrow> (bridge, bool) act" where
  "validate_kv_cache_allocation request_id route_id block_ids br =
     (if \<not> has_route route_id then (br, Inr True)
      else if list_ex (foreign_tag (br_tags br) route_id) block_ids
      then (br\<lparr>br_rejected := br_rejected br + 1\<rparr>, Inl (PyExc RuntimeErrorE ''KV CACHE CONTAMINATION''))
      else (br\<lparr>br_tags := tag_blocks route_id request_id block_ids (br_tags br)\<rparr>, Inr True))"

datatype directive =
    Proceed
  | Swap_And_Proceed "string option" "string option" "int list"

definition intercept_model_runner ::
  "string option \<Rightarrow> string option \<Rightarrow> bridge \<Rightarrow> bridge \<times> directive" where
  "intercept_model_runner current_vram_route target_batch_route br =
     (if current_vram_route = target_batch_route then (br, Proceed)
      else
        let evicted_blocks = map fst (filter (\<lambda>(b, tag). ct_route_id tag = current_vram_route) (br_tags br))
        in (br\<lparr>br_swaps := br_swaps br + 1,
               br_tags := filter (\<lambda>(b, tag). ct_route_id tag \<noteq> current_vram_route) (br_tags br),
               br_evictions := br_evictions br + int (length evicted_blocks),
               br_vram_route := target_batch_route\<rparr>,
            Swap_And_Proceed current_vram_route target_batch_route evicted_blocks))"

definition cache_block_route :: "int \<Rightarrow> bridge \<Rightarrow> string option" where
  "cache_block_route block_id br =
     (case map_of (br_tags br) block_id of None \<Rightarrow> None | Some tag \<Rightarrow> ct_route_id tag)"

section \<open>Facts\<close>

inductive bridge_step :: "bridge \<Rightarrow> bridge \<Rightarrow> bool" where
  batch: "bridge_step br (fst (validate_batch_safety rs br))"
| alloc: "bridge_step br (fst (validate_kv_cache_allocation q r bs br))"
| runner: "bridge_step br (fst (intercept_model_runner c t br))"

inductive_cases bridge_stepE: "bridge_step br br'"

inductive bridge_reach :: "bridge \<Rightarrow> bool" where
  start: "bridge_reach init_bridge"
| step: "bridge_reach br \<Longrightarrow> bridge_step br br' \<Longrightarrow> bridge_reach br'"

text \<open>Every tag names a route: base requests are never tagged.\<close>

definition bridge_inv :: "bridge \<Rightarrow> bool" where
  "bridge_inv br \<longleftrightarrow> dict_wf (br_tags br) \<and> (\<forall>(b, tag) \<in> set (br_tags br). has_route (ct_route_id tag))"

lemma tag_blocks_get:
  "map_of (tag_blocks r q bs tags) b =
     (if b \<in> set bs then Some \<lparr>ct_route_id = r, ct_sequence_id = Some q\<rparr> else map_of tags b)"
  by (induction bs arbitrary: tags) auto

lemma tag_blocks_wf: "dict_wf tags \<Longrightarrow> dict_wf (tag_blocks r q bs tags)"
  by (induction bs arbitrary: tags) auto

lemma map_of_filter:
  "dict_wf d \<Longrightarrow> map_of (filter (\<lambda>(k, v). P v) d) k =
     (case map_of d k of None \<Rightarrow> None | Some v \<Rightarrow> if P v then Some v else None)"
proof (induction d)
  case (Cons p d)
  have "map_of d (fst p) = None" using Cons.prems by (simp add: dict_wf_def map_of_eq_None_iff)
  then show ?case using Cons by (auto simp: dict_wf_def split: option.splits)
qed simp

lemma dict_wf_filter: "dict_wf d \<Longrightarrow> dict_wf (filter P d)"
  by (simp add: dict_wf_def distinct_map_filter)

lemma bridge_inv_map:
  "dict_wf (br_tags br) \<Longrightarrow>
     bridge_inv br \<longleftrightarrow> (\<forall>b tag. map_of (br_tags br) b = Some tag \<longrightarrow> has_route (ct_route_id tag))"
  by (auto simp: bridge_inv_def dict_in_set)

lemma bridge_inv_step: "bridge_step br br' \<Longrightarrow> bridge_inv br \<Longrightarrow> bridge_inv br'"
proof (elim bridge_stepE)
  fix rs assume "bridge_inv br" "br' = fst (validate_batch_safety rs br)"
  then show "bridge_inv br'" by (simp add: validate_batch_safety_def Let_def bridge_inv_def)
next
  fix q r bs
  assume inv: "bridge_inv br" and br': "br' = fst (validate_kv_cache_allocation q r bs br)"
  have wf: "dict_wf (br_tags br)" using inv by (simp add: bridge_inv_def)
  then have wf': "dict_wf (br_tags br')"
    using br' by (simp add: validate_kv_cache_allocation_def tag_blocks_wf)
  show "bridge_inv br'"
    using inv br' unfolding bridge_inv_map[OF wf] bridge_inv_map[OF wf']
    by (auto simp: validate_kv_cache_allocation_def tag_blocks_get split: if_splits)
next
  fix c t
  assume "bridge_inv br" "br' = fst (intercept_model_runner c t br)"
  then show "bridge_inv br'"
    by (auto simp: intercept_model_runner_def Let_def bridge_inv_def dict_wf_filter)
qed

lemma bridge_inv_reach: "bridge_reach br \<Longrightarrow> bridge_inv br"
proof (induction rule: bridge_reach.induct)
  case start
  show ?case by (simp add: bridge_inv_def init_bridge_def)
next
  case (step br br')
  then show ?case using bridge_inv_step by blast
qed

section \<open>Properties\<close>

text \<open>Cache isolation of the bridge: in one step of any reachable bridge a block that belongs
  to a route either keeps it or loses its tag; it loses it exactly when the swap leaves that
  route, which drops all and only the tags of the route left behind; and an accepted
  allocation for a route owns all its blocks, none of which belonged to another route.\<close>

theorem bridge_block_ownership:
  assumes "bridge_reach br"
  shows "(bridge_step br br' \<longrightarrow> cache_block_route b br = Some x \<longrightarrow> cache_block_route b br' \<in> {Some x, None})
    \<and> (c \<noteq> t \<longrightarrow> cache_block_route b (fst (intercept_model_runner c t br))
          = (if cache_block_route b br = c then None else cache_block_route b br))
    \<and> (has_route r \<longrightarrow> snd (validate_kv_cache_allocation q r bs br) = Inr True \<longrightarrow> b \<in> set bs \<longrightarrow>
         cache_block_route b br \<in> {None, r}
         \<and> cache_block_route b (fst (validate_kv_cache_allocation q r bs br)) = r)"
proof -
  have inv: "bridge_inv br" using bridge_inv_reach[OF assms] .
  then have wf: "dict_wf (br_tags br)" by (simp add: bridge_inv_def)
  have evict: "c \<noteq> t \<longrightarrow> cache_block_route b (fst (intercept_model_runner c t br))
          = (if cache_block_route b br = c then None else cache_block_route b br)" for c t
    using map_of_filter[OF wf, of "\<lambda>tag. ct_route_id tag \<noteq> c" b]
    by (auto simp: intercept_model_runner_def Let_def cache_block_route_def split: option.splits)
  have alloc: "has_route r \<longrightarrow> snd (validate_kv_cache_allocation q r bs br) = Inr True \<longrightarrow> b \<in> set bs \<longrightarrow>
         cache_block_route b br \<in> {None, r}
         \<and> cache_block_route b (fst (validate_kv_cache_allocation q r bs br)) = r" for q r bs
    by (auto simp: validate_kv_cache_allocation_def tag_blocks_get cache_block_route_def foreign_tag_def
        list_ex_iff split: option.splits if_splits)
  have "bridge_step br br' \<longrightarrow> cache_block_route b br = Some x \<longrightarrow> cache_block_route b br' \<in> {Some x, None}"
  proof (intro impI, elim bridge_stepE)
    fix rs assume "cache_block_route b br = Some x" "br' = fst (validate_batch_safety rs br)"
    then show "cache_block_route b br' \<in> {Some x, None}"
      by (simp add: validate_batch_safety_def Let_def cache_block_route_def)
  next
    fix q r bs
    assume "cache_block_route b br = Some x" "br' = fst (validate_kv_cache_allocation q r bs br)"
    then show "cache_block_route b br' \<in> {Some x, None}"
      by (auto simp: validate_kv_cache_allocation_def tag_blocks_get cache_block_route_def
          foreign_tag_def list_ex_iff split: option.splits if_splits)
  next
    fix c t
    assume "cache_block_route b br = Some x" "br' = fst (intercept_model_runner c t br)"
    then show "cache_block_route b br' \<in> {Some x, None}"
      using evict[of c t] by (cases "c = t") (auto simp: intercept_model_runner_def)
  qed
  then show ?thesis using evict alloc by blast
qed

definition demo_bridge :: bridge where
  "demo_bridge = fst (validate_kv_cache_allocation ''q'' (Some ''a'') [1, 2] init_bridge)"

theorem bridge_block_ownership_witness:
  "bridge_reach demo_bridge \<and> cache_block_route 1 demo_bridge = Some ''a''
   \<and> cache_block_route 1 (fst (intercept_model_runner (Some ''a'') None demo_bridge)) = None"
proof -
  have r: "bridge_reach demo_bridge"
    unfolding demo_bridge_def
    by (rule bridge_reach.step[OF bridge_reach.start bridge_step.alloc])
  have c: "cache_block_route 1 demo_bridge = Some ''a''" by code_simp
  show ?thesis
    using r c bridge_block_ownership[OF r, of demo_bridge 1 "''a''" "Some ''a''" None] by simp
qed

text \<open>The rules leave the base model unprotected: requests without a route do not count as a
  route, so a batch of base requests and requests of one route passes the mixed-batch rule, and
  a base request is granted blocks that carry the tag of a route, which they keep.\<close>

theorem base_requests_escape_isolation:
  "validate_batch_safety [None, Some ''a'', Some []] br = (br, Inr True)
   \<and> validate_kv_cache_allocation ''q'' None bs br = (br, Inr True)"
  by (simp add: validate_batch_safety_def validate_kv_cache_allocation_def has_route_def)

end
