(* ===== verification/Serving_Metrics.thy ===== *)
theory Serving_Metrics
  imports Prelude
begin

text \<open>
  The metrics collector of the pilot server (serving/metrics.py): bounded latency windows with
  percentiles on demand, the counters and their snapshot. Latencies are exact numbers; percentiles
  are taken at natural \<open>p\<close>, as the code calls them. Every method holds the lock.
\<close>

section \<open>Windows\<close>

definition latency_window_size :: nat where
  "latency_window_size = 10000"

definition record_sample :: "rat \<Rightarrow> rat list \<Rightarrow> rat list" where
  "record_sample latency_ms samples =
     (let s = samples @ [latency_ms] in drop (length s - latency_window_size) s)"

definition percentile :: "nat \<Rightarrow> rat list \<Rightarrow> rat" where
  "percentile p samples =
     (if samples = [] then 0
      else
        let sorted_samples = sort samples;
            idx = length sorted_samples * p div 100
        in sorted_samples ! min idx (length sorted_samples - 1))"

text \<open>\<open>round(x, n)\<close>: to the nearest multiple of \<open>10 ^ -n\<close>, ties to even.\<close>

definition round_to :: "nat \<Rightarrow> rat \<Rightarrow> rat" where
  "round_to n x =
     (let y = x * 10 ^ n; f = \<lfloor>y\<rfloor>; d = y - of_int f;
          r = (if d < 1 / 2 then f else if 1 / 2 < d then f + 1 else if even f then f else f + 1)
      in of_int r / 10 ^ n)"

section \<open>The collector\<close>

record metrics =
  mt_requests_total :: int
  mt_requests_success :: int
  mt_requests_rejected :: int
  mt_runtime_quarantined :: bool
  mt_route_leakage_count :: int
  mt_rollback_failure_count :: int
  mt_swap_latency :: "rat list"
  mt_rollback_latency :: "rat list"
  mt_e2e_latency :: "rat list"

definition init_metrics :: metrics where
  "init_metrics =
     \<lparr>mt_requests_total = 0, mt_requests_success = 0, mt_requests_rejected = 0,
      mt_runtime_quarantined = False, mt_route_leakage_count = 0, mt_rollback_failure_count = 0,
      mt_swap_latency = [], mt_rollback_latency = [], mt_e2e_latency = []\<rparr>"

definition record_request :: "metrics \<Rightarrow> metrics" where
  "record_request m = m\<lparr>mt_requests_total := mt_requests_total m + 1\<rparr>"

definition record_success :: "rat \<Rightarrow> rat \<Rightarrow> rat \<Rightarrow> metrics \<Rightarrow> metrics" where
  "record_success swap_ms rollback_ms e2e_ms m =
     (let m1 = m\<lparr>mt_requests_success := mt_requests_success m + 1\<rparr>;
          m2 = (if swap_ms > 0 then m1\<lparr>mt_swap_latency := record_sample swap_ms (mt_swap_latency m1)\<rparr> else m1);
          m3 = (if rollback_ms > 0
                then m2\<lparr>mt_rollback_latency := record_sample rollback_ms (mt_rollback_latency m2)\<rparr> else m2)
      in (if e2e_ms > 0 then m3\<lparr>mt_e2e_latency := record_sample e2e_ms (mt_e2e_latency m3)\<rparr> else m3))"

definition record_rejection :: "metrics \<Rightarrow> metrics" where
  "record_rejection m = m\<lparr>mt_requests_rejected := mt_requests_rejected m + 1\<rparr>"

definition record_route_leakage :: "metrics \<Rightarrow> metrics" where
  "record_route_leakage m = m\<lparr>mt_route_leakage_count := mt_route_leakage_count m + 1\<rparr>"

definition record_rollback_failure :: "metrics \<Rightarrow> metrics" where
  "record_rollback_failure m = m\<lparr>mt_rollback_failure_count := mt_rollback_failure_count m + 1\<rparr>"

definition set_quarantined :: "bool \<Rightarrow> metrics \<Rightarrow> metrics" where
  "set_quarantined quarantined m = m\<lparr>mt_runtime_quarantined := quarantined\<rparr>"

record metrics_snapshot =
  mr_total :: int
  mr_success :: int
  mr_rejected :: int
  mr_quarantined :: bool
  mr_swap_p99 :: rat
  mr_rollback_p99 :: rat
  mr_leakage :: int
  mr_rollback_failures :: int

definition snapshot :: "metrics \<Rightarrow> metrics_snapshot" where
  "snapshot m =
     \<lparr>mr_total = mt_requests_total m, mr_success = mt_requests_success m,
      mr_rejected = mt_requests_rejected m, mr_quarantined = mt_runtime_quarantined m,
      mr_swap_p99 = round_to 4 (percentile 99 (mt_swap_latency m)),
      mr_rollback_p99 = round_to 4 (percentile 99 (mt_rollback_latency m)),
      mr_leakage = mt_route_leakage_count m, mr_rollback_failures = mt_rollback_failure_count m\<rparr>"

section \<open>Facts\<close>

definition record_all :: "rat list \<Rightarrow> rat list \<Rightarrow> rat list" where
  "record_all xs samples = foldl (\<lambda>s x. record_sample x s) samples xs"

definition last_n :: "nat \<Rightarrow> 'a list \<Rightarrow> 'a list" where
  "last_n n xs = drop (length xs - n) xs"

lemma last_n_snoc: "last_n n (last_n n xs @ [x]) = last_n n (xs @ [x])"
proof (cases n)
  case (Suc k)
  have "length xs - (length xs - Suc k + k) + (length xs - Suc k) = length xs - k" by arith
  then show ?thesis using Suc by (simp add: last_n_def)
qed (simp add: last_n_def)

lemma record_all_last: "record_all xs (last_n latency_window_size ys) = last_n latency_window_size (ys @ xs)"
proof (induction xs arbitrary: ys)
  case Nil
  then show ?case by (simp add: record_all_def)
next
  case (Cons x xs)
  have "record_sample x (last_n latency_window_size ys) = last_n latency_window_size (ys @ [x])"
    using last_n_snoc[of latency_window_size ys x]
    by (simp add: record_sample_def last_n_def Let_def)
  then show ?case using Cons.IH[of "ys @ [x]"] by (simp add: record_all_def)
qed

lemma sorted_prefix_le:
  assumes "sorted xs" "i < length xs"
  shows "i < length (filter (\<lambda>x. x \<le> xs ! i) xs)"
proof -
  have "length (filter (\<lambda>x. x \<le> xs ! i) (take (Suc i) xs)) = Suc i"
  proof -
    have "x \<le> xs ! i" if x: "x \<in> set (take (Suc i) xs)" for x
    proof -
      have "\<exists>j. j < Suc i \<and> x = xs ! j" using x by (auto simp: in_set_conv_nth)
      then obtain j where "j < Suc i" "x = xs ! j" by blast
      then show ?thesis using assms by (simp add: sorted_nth_mono)
    qed
    then have "filter (\<lambda>x. x \<le> xs ! i) (take (Suc i) xs) = take (Suc i) xs" by (simp add: filter_id_conv)
    then show ?thesis using assms(2) by simp
  qed
  moreover have "filter (\<lambda>x. x \<le> xs ! i) xs = filter (\<lambda>x. x \<le> xs ! i) (take (Suc i) xs)
      @ filter (\<lambda>x. x \<le> xs ! i) (drop (Suc i) xs)"
    by (metis append_take_drop_id filter_append)
  ultimately show ?thesis by simp
qed

lemma length_filter_sort: "length (filter P (sort xs)) = length (filter P xs)"
  by (metis mset_filter mset_sort size_mset)

section \<open>Properties\<close>

text \<open>The latency windows keep exactly the latest samples up to their size, and the percentile
  of a window is one of its samples which at least \<open>p\<close> percent of the window do not exceed.\<close>

theorem percentile_of_recent_samples:
  assumes "samples = record_all xs []" and "samples \<noteq> []" and "p \<le> 100"
  shows "samples = last_n latency_window_size xs
    \<and> percentile p samples \<in> set samples
    \<and> length samples * p \<le> 100 * length (filter (\<lambda>x. x \<le> percentile p samples) samples)"
proof -
  have window: "samples = last_n latency_window_size xs"
    using record_all_last[of xs "[]"] assms(1) by (simp add: last_n_def)
  define i where "i = min (length samples * p div 100) (length samples - 1)"
  have "0 < length samples" using assms(2) by simp
  moreover have "i \<le> length samples - 1" by (simp add: i_def)
  ultimately have i: "i < length (sort samples)" unfolding length_sort by linarith
  have v: "percentile p samples = sort samples ! i"
    using assms(2) by (simp add: percentile_def Let_def i_def)
  have member: "percentile p samples \<in> set samples" using i nth_mem[OF i] v by simp
  have count: "i < length (filter (\<lambda>x. x \<le> percentile p samples) samples)"
    using sorted_prefix_le[OF sorted_sort i] v by (simp add: length_filter_sort)
  have "length samples * p \<le> 100 * length (filter (\<lambda>x. x \<le> percentile p samples) samples)"
  proof (cases "length samples * p div 100 \<le> length samples - 1")
    case True
    then have "i = length samples * p div 100" unfolding i_def by (rule min_absorb1)
    then have "length samples * p < 100 * Suc i"
      using dividend_less_times_div[of 100 "length samples * p"] by simp
    also have "\<dots> \<le> 100 * length (filter (\<lambda>x. x \<le> percentile p samples) samples)"
      using count by (intro mult_le_mono2 Suc_leI)
    finally show ?thesis by (rule less_imp_le)
  next
    case False
    then have "length samples \<le> length (filter (\<lambda>x. x \<le> percentile p samples) samples)"
      using count by (simp add: i_def)
    moreover have "length samples * p \<le> length samples * 100" using assms(3) by simp
    ultimately show ?thesis by linarith
  qed
  with window member show ?thesis by blast
qed

theorem percentile_of_recent_samples_witness:
  "percentile 99 (record_all [3, 1, 2] []) \<in> set (record_all [3, 1, 2] [])
   \<and> percentile 99 (record_all [3, 1, 2] []) = 3"
proof
  have "record_all [3, 1, 2] [] \<noteq> []" by code_simp
  then show "percentile 99 (record_all [3, 1, 2] []) \<in> set (record_all [3, 1, 2] [])"
    using percentile_of_recent_samples[OF refl] by simp
  show "percentile 99 (record_all [3, 1, 2] []) = 3" by code_simp
qed

end
