(* ===== verification/Backend_Registry.thy ===== *)
theory Backend_Registry
  imports Prelude
begin

text \<open>
  The backend registry of the external proxy mode (serving/backend_registry.py). Routes of the
  same url share one \<open>BackendInfo\<close> object, so the objects live in a store and both dictionaries
  hold references to it; the specification without sharing is two maps, and the store refines it.
\<close>

section \<open>State and operations\<close>

record backend_info =
  bi_url :: string
  bi_is_healthy :: bool
  bi_last_check_at :: rat
  bi_failure_count :: int

record backends =
  bk_store :: "backend_info list"
  bk_routes :: "(string, nat) dict"
  bk_backends :: "(string, nat) dict"

definition new_backend :: "string \<Rightarrow> backend_info" where
  "new_backend url = \<lparr>bi_url = url, bi_is_healthy = True, bi_last_check_at = 0, bi_failure_count = 0\<rparr>"

definition init_backends :: backends where
  "init_backends = \<lparr>bk_store = [], bk_routes = [], bk_backends = []\<rparr>"

definition register_backend :: "string \<Rightarrow> string \<Rightarrow> backends \<Rightarrow> backends" where
  "register_backend route_id url b =
     (let b1 = (if has_key (bk_backends b) url then b
                else b\<lparr>bk_store := bk_store b @ [new_backend url],
                       bk_backends := dict_set url (length (bk_store b)) (bk_backends b)\<rparr>);
          ref = dict_get (bk_backends b1) url 0
      in b1\<lparr>bk_routes := dict_set route_id ref (bk_routes b1)\<rparr>)"

definition resolve_backend :: "string \<Rightarrow> backends \<Rightarrow> string option" where
  "resolve_backend route_id b =
     (case map_of (bk_routes b) route_id of
        None \<Rightarrow> None
      | Some ref \<Rightarrow> let info = bk_store b ! ref in
                    if bi_is_healthy info then Some (bi_url info) else None)"

definition update_health :: "rat \<Rightarrow> string \<Rightarrow> bool \<Rightarrow> backends \<Rightarrow> backends" where
  "update_health now url is_healthy b =
     (case map_of (bk_backends b) url of
        None \<Rightarrow> b
      | Some ref \<Rightarrow>
          let info = bk_store b ! ref;
              info1 = info\<lparr>bi_is_healthy := is_healthy, bi_last_check_at := now,
                           bi_failure_count := (if \<not> is_healthy then bi_failure_count info + 1 else 0)\<rparr>
          in b\<lparr>bk_store := (bk_store b)[ref := info1]\<rparr>)"

definition backend_status :: "string \<Rightarrow> backends \<Rightarrow> string" where
  "backend_status route_id b =
     (case map_of (bk_routes b) route_id of
        None \<Rightarrow> ''NOT_FOUND''
      | Some ref \<Rightarrow> if \<not> bi_is_healthy (bk_store b ! ref) then ''UNHEALTHY_BACKEND'' else ''READY'')"

definition backend_routes :: "backends \<Rightarrow> string list" where
  "backend_routes b = dict_keys (bk_routes b)"

definition remove_route :: "string \<Rightarrow> backends \<Rightarrow> backends" where
  "remove_route route_id b = b\<lparr>bk_routes := dict_del route_id (bk_routes b)\<rparr>"

text \<open>The operations that change a registry, as events.\<close>

datatype backend_event =
    Register string string
  | Health rat string bool
  | Remove string

fun backend_step :: "backend_event \<Rightarrow> backends \<Rightarrow> backends" where
  "backend_step (Register r u) b = register_backend r u b"
| "backend_step (Health t u h) b = update_health t u h b"
| "backend_step (Remove r) b = remove_route r b"

definition backend_run :: "backend_event list \<Rightarrow> backends \<Rightarrow> backends" where
  "backend_run evs b = foldl (\<lambda>b ev. backend_step ev b) b evs"

section \<open>Invariant\<close>

text \<open>Every reference is in the store, a url has the reference of the object that carries it, and
  a route only ever points to the object of its url.\<close>

definition backend_inv :: "backends \<Rightarrow> bool" where
  "backend_inv b \<longleftrightarrow>
     (\<forall>u r. map_of (bk_backends b) u = Some r \<longrightarrow> r < length (bk_store b) \<and> bi_url (bk_store b ! r) = u)
     \<and> (\<forall>i r. map_of (bk_routes b) i = Some r \<longrightarrow>
          r < length (bk_store b) \<and> map_of (bk_backends b) (bi_url (bk_store b ! r)) = Some r)"

lemma backend_inv_url:
  "backend_inv b \<Longrightarrow> map_of (bk_backends b) u = Some r \<Longrightarrow> r < length (bk_store b) \<and> bi_url (bk_store b ! r) = u"
  by (simp add: backend_inv_def)

lemma backend_inv_route:
  "backend_inv b \<Longrightarrow> map_of (bk_routes b) i = Some r \<Longrightarrow>
     r < length (bk_store b) \<and> map_of (bk_backends b) (bi_url (bk_store b ! r)) = Some r"
  by (simp add: backend_inv_def)

lemma backend_inv_init: "backend_inv init_backends"
  by (simp add: backend_inv_def init_backends_def)

lemma register_known:
  "map_of (bk_backends b) u = Some r \<Longrightarrow>
     register_backend i u b = b\<lparr>bk_routes := dict_set i r (bk_routes b)\<rparr>"
  by (simp add: register_backend_def has_key_def dict_get_def)

lemma register_new:
  "map_of (bk_backends b) u = None \<Longrightarrow>
     register_backend i u b = \<lparr>bk_store = bk_store b @ [new_backend u],
        bk_routes = dict_set i (length (bk_store b)) (bk_routes b),
        bk_backends = dict_set u (length (bk_store b)) (bk_backends b)\<rparr>"
  by (simp add: register_backend_def has_key_def Let_def)

lemma register_inv: "backend_inv b \<Longrightarrow> backend_inv (register_backend i u b)"
proof (cases "map_of (bk_backends b) u")
  case None
  assume "backend_inv b"
  then show ?thesis
    using None by (auto simp: register_new backend_inv_def nth_append new_backend_def intro!: less_SucI)
next
  case (Some r)
  assume "backend_inv b"
  then show ?thesis using Some by (auto simp: register_known backend_inv_def)
qed

lemma update_known:
  "map_of (bk_backends b) u = Some r \<Longrightarrow>
     update_health t u h b = b\<lparr>bk_store := (bk_store b)[r := (bk_store b ! r)\<lparr>bi_is_healthy := h,
        bi_last_check_at := t,
        bi_failure_count := (if \<not> h then bi_failure_count (bk_store b ! r) + 1 else 0)\<rparr>]\<rparr>"
  by (simp add: update_health_def Let_def)

lemma nth_update_field: "f x = f (xs ! q) \<Longrightarrow> f (xs[q := x] ! r) = f (xs ! r)"
  by (cases "q = r"; cases "q < length xs") (auto simp: list_update_beyond)

lemma update_url: "bi_url (bk_store (update_health t u h b) ! r) = bi_url (bk_store b ! r)"
  by (auto simp: update_health_def Let_def intro!: nth_update_field[where f = bi_url] split: option.split)

lemma update_frame [simp]:
  "bk_backends (update_health t u h b) = bk_backends b" "bk_routes (update_health t u h b) = bk_routes b"
  "length (bk_store (update_health t u h b)) = length (bk_store b)"
  by (auto simp: update_health_def Let_def split: option.split)

lemma update_inv: "backend_inv b \<Longrightarrow> backend_inv (update_health t u h b)"
  by (simp add: backend_inv_def update_url)

lemma remove_inv: "backend_inv b \<Longrightarrow> backend_inv (remove_route i b)"
  by (auto simp: backend_inv_def remove_route_def)

lemma backend_step_inv: "backend_inv b \<Longrightarrow> backend_inv (backend_step ev b)"
  by (cases ev) (simp_all add: register_inv update_inv remove_inv)

lemma backend_run_inv: "backend_inv b \<Longrightarrow> backend_inv (backend_run evs b)"
  unfolding backend_run_def by (induction evs arbitrary: b) (simp_all add: backend_step_inv)

section \<open>The specification\<close>

text \<open>Two maps: the url of a route, and the health of a url (healthy, failures in a row).\<close>

record backend_spec =
  bs_url :: "string \<Rightarrow> string option"
  bs_health :: "string \<Rightarrow> (bool \<times> int) option"

fun spec_step :: "backend_event \<Rightarrow> backend_spec \<Rightarrow> backend_spec" where
  "spec_step (Register r u) s =
     s\<lparr>bs_url := (bs_url s)(r \<mapsto> u),
       bs_health := (if bs_health s u = None then (bs_health s)(u \<mapsto> (True, 0)) else bs_health s)\<rparr>"
| "spec_step (Health t u h) s =
     (case bs_health s u of
        None \<Rightarrow> s
      | Some (_, n) \<Rightarrow> s\<lparr>bs_health := (bs_health s)(u \<mapsto> (h, if h then 0 else n + 1))\<rparr>)"
| "spec_step (Remove r) s = s\<lparr>bs_url := (bs_url s)(r := None)\<rparr>"

definition spec_run :: "backend_event list \<Rightarrow> backend_spec \<Rightarrow> backend_spec" where
  "spec_run evs s = foldl (\<lambda>s ev. spec_step ev s) s evs"

definition spec_init :: backend_spec where
  "spec_init = \<lparr>bs_url = (\<lambda>_. None), bs_health = (\<lambda>_. None)\<rparr>"

definition spec_resolve :: "string \<Rightarrow> backend_spec \<Rightarrow> string option" where
  "spec_resolve r s =
     (case bs_url s r of
        None \<Rightarrow> None
      | Some u \<Rightarrow> (case bs_health s u of Some (True, _) \<Rightarrow> Some u | _ \<Rightarrow> None))"

text \<open>The abstraction forgets the sharing.\<close>

definition info_health :: "backend_info \<Rightarrow> bool \<times> int" where
  "info_health i = (bi_is_healthy i, bi_failure_count i)"

definition abs_backends :: "backends \<Rightarrow> backend_spec" where
  "abs_backends b =
     \<lparr>bs_url = (\<lambda>i. map_option (\<lambda>r. bi_url (bk_store b ! r)) (map_of (bk_routes b) i)),
      bs_health = (\<lambda>u. map_option (\<lambda>r. info_health (bk_store b ! r)) (map_of (bk_backends b) u))\<rparr>"

lemma abs_register:
  assumes "backend_inv b"
  shows "abs_backends (register_backend i u b) = spec_step (Register i u) (abs_backends b)"
proof (cases "map_of (bk_backends b) u")
  case None
  have "map_of (bk_backends b) v = Some r \<Longrightarrow> r \<noteq> length (bk_store b)"
    "map_of (bk_routes b) v = Some r \<Longrightarrow> r \<noteq> length (bk_store b)" for v r
    using backend_inv_url[OF assms] backend_inv_route[OF assms] by fastforce+
  moreover have "map_of (bk_backends b) v = Some r \<Longrightarrow> r < length (bk_store b)"
    "map_of (bk_routes b) v = Some r \<Longrightarrow> r < length (bk_store b)" for v r
    using backend_inv_url[OF assms] backend_inv_route[OF assms] by fastforce+
  ultimately show ?thesis
    unfolding register_new[OF None] abs_backends_def using None
    by (auto simp: fun_eq_iff map_option_case nth_append new_backend_def info_health_def split: option.splits)
next
  case (Some r)
  then show ?thesis
    using backend_inv_url[OF assms Some]
    by (auto simp: register_known abs_backends_def fun_eq_iff map_option_case split: option.splits)
qed

lemma abs_update:
  assumes "backend_inv b"
  shows "abs_backends (update_health t u h b) = spec_step (Health t u h) (abs_backends b)"
proof (cases "map_of (bk_backends b) u")
  case None
  then show ?thesis by (simp add: update_health_def abs_backends_def)
next
  case (Some r)
  have r: "r < length (bk_store b)" "bi_url (bk_store b ! r) = u"
    using backend_inv_url[OF assms Some] by simp_all
  have other: "map_of (bk_backends b) v = Some r \<Longrightarrow> v = u" for v
    using backend_inv_url[OF assms, of v r] r by simp
  have "bs_url (abs_backends (update_health t u h b)) = bs_url (abs_backends b)"
    by (simp add: abs_backends_def update_url)
  moreover have "bs_health (abs_backends (update_health t u h b)) v
      = ((bs_health (abs_backends b))(u \<mapsto> (h, if h then 0 else bi_failure_count (bk_store b ! r) + 1))) v" for v
  proof (cases "map_of (bk_backends b) v")
    case (Some q)
    then show ?thesis
      using other[of v] r \<open>map_of (bk_backends b) u = Some r\<close>
      by (cases "q = r") (auto simp: abs_backends_def update_known nth_list_update info_health_def)
  next
    case None
    then show ?thesis using Some by (auto simp: abs_backends_def)
  qed
  ultimately show ?thesis
    using Some by (simp add: abs_backends_def info_health_def fun_eq_iff)
qed

lemma abs_remove: "abs_backends (remove_route i b) = spec_step (Remove i) (abs_backends b)"
  by (auto simp: abs_backends_def remove_route_def fun_eq_iff)

lemma abs_step: "backend_inv b \<Longrightarrow> abs_backends (backend_step ev b) = spec_step ev (abs_backends b)"
  by (cases ev) (simp_all only: backend_step.simps abs_register abs_update abs_remove)

lemma abs_run: "backend_inv b \<Longrightarrow> abs_backends (backend_run evs b) = spec_run evs (abs_backends b)"
  unfolding backend_run_def spec_run_def
  by (induction evs arbitrary: b) (simp_all add: abs_step backend_step_inv)

lemma abs_init: "abs_backends init_backends = spec_init"
  by (simp add: abs_backends_def init_backends_def spec_init_def)

lemma resolve_abs: "backend_inv b \<Longrightarrow> resolve_backend i b = spec_resolve i (abs_backends b)"
  by (auto simp: resolve_backend_def spec_resolve_def abs_backends_def info_health_def Let_def
      dest: backend_inv_route split: option.splits bool.splits)

section \<open>The interface of a proxy's route table\<close>

text \<open>
  What the proxy relies on: reporting a url down takes exactly the routes of that url out of
  service, and it stays out of service under registrations and removals.
\<close>

locale route_table =
  fixes resolve :: "string \<Rightarrow> 's \<Rightarrow> string option"
    and report_down :: "string \<Rightarrow> 's \<Rightarrow> 's"
    and edit :: "'e \<Rightarrow> 's \<Rightarrow> 's"
    and ok :: "'s \<Rightarrow> bool"
    and down :: "string \<Rightarrow> 's \<Rightarrow> bool"
  assumes report_ok: "ok s \<Longrightarrow> ok (report_down u s)"
    and edit_ok: "ok s \<Longrightarrow> ok (edit e s)"
    and report_down: "ok s \<Longrightarrow> resolve i s = Some u \<Longrightarrow> down u (report_down u s)"
    and report_others: "ok s \<Longrightarrow> resolve i (report_down u s) =
          (if resolve i s = Some u then None else resolve i s)"
    and down_edit: "ok s \<Longrightarrow> down u s \<Longrightarrow> down u (edit e s)"
    and down_report: "ok s \<Longrightarrow> down u s \<Longrightarrow> down u (report_down v s)"
    and down_resolve: "ok s \<Longrightarrow> down u s \<Longrightarrow> resolve i s \<noteq> Some u"
begin

definition report_all :: "string list \<Rightarrow> 's \<Rightarrow> 's" where
  "report_all us s = foldl (\<lambda>s u. report_down u s) s us"

lemma report_all_resolve:
  "ok s \<Longrightarrow> resolve i (report_all us s) =
     (case resolve i s of None \<Rightarrow> None | Some u \<Rightarrow> if u \<in> set us then None else Some u)"
  unfolding report_all_def
  by (induction us arbitrary: s) (auto simp: report_ok report_others split: option.splits if_splits)

lemma edits_keep_down:
  "ok s \<Longrightarrow> down u s \<Longrightarrow> ok (foldl (\<lambda>s e. edit e s) s es) \<and> down u (foldl (\<lambda>s e. edit e s) s es)"
  by (induction es arbitrary: s) (auto simp: edit_ok down_edit)

end

text \<open>The edits of a table leave health alone: registrations and removals.\<close>

datatype table_edit = Add_Route string string | Remove_Route string

fun route_change :: "table_edit \<Rightarrow> backends \<Rightarrow> backends" where
  "route_change (Add_Route i u) b = register_backend i u b"
| "route_change (Remove_Route i) b = remove_route i b"

definition backend_down :: "string \<Rightarrow> backends \<Rightarrow> bool" where
  "backend_down u b \<longleftrightarrow>
     (case map_of (bk_backends b) u of None \<Rightarrow> False | Some r \<Rightarrow> \<not> bi_is_healthy (bk_store b ! r))"

lemma backend_down_abs: "backend_down u b \<longleftrightarrow> (\<exists>n. bs_health (abs_backends b) u = Some (False, n))"
  by (auto simp: backend_down_def abs_backends_def info_health_def split: option.split)

lemma route_change_step: "\<exists>ev. route_change e b = backend_step ev b \<and> (\<forall>t u h. ev \<noteq> Health t u h)"
  by (cases e) (metis backend_step.simps(1) route_change.simps(1) backend_event.distinct(1),
      metis backend_step.simps(3) route_change.simps(2) backend_event.distinct(5))

interpretation routes: route_table resolve_backend "\<lambda>u. update_health now u False" route_change
  backend_inv backend_down
proof (unfold_locales, goal_cases)
  case (1 s u)
  then show ?case by (rule update_inv)
next
  case (2 s e)
  then show ?case using route_change_step[of e s] backend_step_inv by metis
next
  case (3 s i u)
  then show ?case
    by (auto simp: resolve_abs backend_down_abs abs_update spec_resolve_def split: option.splits bool.splits)
next
  case (4 s i u)
  then show ?case
    by (auto simp: resolve_abs update_inv abs_update spec_resolve_def split: option.splits bool.splits)
next
  case (5 s u e)
  then show ?case
    by (cases e) (auto simp: backend_down_abs abs_register abs_remove)
next
  case (6 s u v)
  then show ?case
    by (auto simp: backend_down_abs abs_update split: option.splits)
next
  case (7 s u i)
  then show ?case
    by (auto simp: resolve_abs backend_down_abs spec_resolve_def split: option.splits bool.splits)
qed

section \<open>Properties\<close>

text \<open>C14. The shared objects implement two independent maps: after every sequence of
  registrations, health reports and removals the registry stands for the state the specification
  reaches, and a route resolves as the specification says: to its own url, exactly when the
  latest report on that url, by whatever route it came, was not that it is down.\<close>

theorem backend_registry_refines_maps:
  "abs_backends (backend_run evs init_backends) = spec_run evs spec_init
   \<and> resolve_backend i (backend_run evs init_backends) = spec_resolve i (spec_run evs spec_init)"
  using abs_run[OF backend_inv_init, of evs] resolve_abs[OF backend_run_inv[OF backend_inv_init]]
  by (simp add: abs_init)

end
