(* ===== verification/Serving_Engine.thy ===== *)
theory Serving_Engine
  imports Hot_Swap_Runtime Backend_Registry Serving_Metrics
begin

text \<open>
  The serving engines and how one is chosen: serving/engine.py and mode_selector.py (modes and
  selection), startup_selftest.py (boot-time checks), proxy_engine.py (forwarding to external
  backends) and engine_factory.py (the factory and the internal engine). The HTTP client, the file
  system, CUDA and the tensor operations of the dry run are parameters; measured durations too.
\<close>

section \<open>Modes\<close>

datatype serving_mode = INTERNAL | EXTERNAL_PROXY | NATIVE_LORA | FAIL_CLOSED | AUTO

fun mode_value :: "serving_mode \<Rightarrow> string" where
  "mode_value INTERNAL = ''internal''"
| "mode_value EXTERNAL_PROXY = ''external_proxy''"
| "mode_value NATIVE_LORA = ''native_lora''"
| "mode_value FAIL_CLOSED = ''fail_closed''"
| "mode_value AUTO = ''auto''"

definition all_modes :: "serving_mode list" where
  "all_modes = [INTERNAL, EXTERNAL_PROXY, NATIVE_LORA, FAIL_CLOSED, AUTO]"

record mode_selection =
  ms_requested :: serving_mode
  ms_selected :: "serving_mode option"
  ms_reason :: string
  ms_should_start :: bool

definition parse_serving_mode :: "string option \<Rightarrow> serving_mode result" where
  "parse_serving_mode value =
     (let text = (case value of None \<Rightarrow> ''fail_closed'' | Some v \<Rightarrow> if v = [] then ''fail_closed'' else v);
          raw = str_lower (str_strip text)
      in case filter (\<lambda>m. mode_value m = raw) all_modes of
           m # _ \<Rightarrow> Inr m
         | [] \<Rightarrow> Inl (PyExc RuntimeErrorE (''Invalid SCALPEL_SERVING_MODE: '' @ raw)))"

definition selection :: "serving_mode \<Rightarrow> serving_mode option \<Rightarrow> string \<Rightarrow> bool \<Rightarrow> mode_selection" where
  "selection requested selected reason should_start =
     \<lparr>ms_requested = requested, ms_selected = selected, ms_reason = reason, ms_should_start = should_start\<rparr>"

definition select_serving_mode :: "serving_mode \<Rightarrow> bool \<Rightarrow> bool \<Rightarrow> mode_selection" where
  "select_serving_mode requested internal_compatible external_proxy_configured =
     (if requested = INTERNAL then
        (if internal_compatible
         then selection requested (Some INTERNAL) ''internal compatible'' True
         else selection requested None ''internal incompatible; fail closed'' False)
      else if requested = EXTERNAL_PROXY then
        (if external_proxy_configured
         then selection requested (Some EXTERNAL_PROXY) ''external proxy configured'' True
         else selection requested None ''external proxy not configured; fail closed'' False)
      else if requested = AUTO then
        (if internal_compatible then selection requested (Some INTERNAL) ''auto selected internal'' True
         else if external_proxy_configured
         then selection requested (Some EXTERNAL_PROXY) ''auto fallback to external proxy'' True
         else selection requested None ''auto found no safe serving mode; fail closed'' False)
      else if requested = NATIVE_LORA
      then selection requested None ''native_lora fallback not implemented; fail closed'' False
      else selection requested None ''fail_closed requested'' False)"

definition select_from_environment :: "string option \<Rightarrow> bool \<Rightarrow> bool \<Rightarrow> mode_selection result" where
  "select_from_environment value internal_compatible external_proxy_configured =
     bindE (parse_serving_mode value) (\<lambda>requested.
       Inr (select_serving_mode requested internal_compatible external_proxy_configured))"

section \<open>Startup self-tests\<close>

record self_test_result =
  tr_name :: string
  tr_passed :: bool
  tr_duration_ms :: rat
  tr_detail :: string

record self_test_report =
  rp_results :: "self_test_result list"
  rp_started_at :: rat
  rp_completed_at :: rat

definition all_passed :: "self_test_report \<Rightarrow> bool" where
  "all_passed r \<longleftrightarrow> list_all tr_passed (rp_results r)"

definition total_duration_ms :: "self_test_report \<Rightarrow> rat" where
  "total_duration_ms r = (rp_completed_at r - rp_started_at r) * 1000"

definition failed_tests :: "self_test_report \<Rightarrow> self_test_result list" where
  "failed_tests r = filter (\<lambda>t. \<not> tr_passed t) (rp_results r)"

definition report_to_dict :: "self_test_report \<Rightarrow> (string, json) dict" where
  "report_to_dict r =
     [(''all_passed'', JBool (all_passed r)),
      (''total_duration_ms'', JFloat (round_to 2 (total_duration_ms r))),
      (''tests'', JList (map (\<lambda>t. JObj
         [(''name'', JStr (tr_name t)), (''passed'', JBool (tr_passed t)),
          (''duration_ms'', JFloat (round_to 2 (tr_duration_ms t))), (''detail'', JStr (tr_detail t))])
         (rp_results r)))]"

text \<open>\<open>_run_check\<close>: any exception of the check is a failed test with its text as detail.\<close>

definition run_check :: "(string \<Rightarrow> rat) \<Rightarrow> string \<Rightarrow> string result \<Rightarrow> self_test_result" where
  "run_check dur name check =
     (case check of
        Inr detail \<Rightarrow> \<lparr>tr_name = name, tr_passed = True, tr_duration_ms = dur name, tr_detail = detail\<rparr>
      | Inl e \<Rightarrow> \<lparr>tr_name = name, tr_passed = False, tr_duration_ms = dur name, tr_detail = exc_msg e\<rparr>)"

text \<open>What the checks read: CUDA (importing torch may fail), the name and memory of the device,
  the version of vLLM (\<open>Inr None\<close> when it is not installed), the file system, and the tensors and
  operations of the dry run.\<close>

record 't selftest_env =
  st_cuda :: "bool result"
  st_device :: "string result"
  st_vllm :: "string option result"
  st_exists :: "string \<Rightarrow> bool"
  st_is_dir :: "string \<Rightarrow> bool"
  st_readable :: "string \<Rightarrow> bool"
  st_glob :: "string \<Rightarrow> string \<Rightarrow> nat result"
  st_test_tensor :: 't
  st_delta :: 't
  st_add :: "'t \<Rightarrow> 't \<Rightarrow> 't"
  st_copy :: "'t \<Rightarrow> 't \<Rightarrow> 't"
  st_allclose :: "'t \<Rightarrow> 't \<Rightarrow> bool"
  st_dur :: "string \<Rightarrow> rat"
  st_start :: rat
  st_end :: rat

definition check_gpu_available :: "'t selftest_env \<Rightarrow> string result" where
  "check_gpu_available env =
     bindE (st_cuda env) (\<lambda>available.
       if \<not> available then Inl (PyExc RuntimeErrorE ''No CUDA GPU detected'') else st_device env)"

text \<open>The parameter \<open>supported_range\<close> is not read.\<close>

definition check_vllm_version :: "'t selftest_env \<Rightarrow> string option \<Rightarrow> string result" where
  "check_vllm_version env supported_range =
     bindE (st_vllm env) (\<lambda>v. case v of
        Some version \<Rightarrow> Inr (''vLLM '' @ version)
      | None \<Rightarrow> Inr ''vLLM not installed (standalone mode)'')"

definition check_route_registry :: "'t selftest_env \<Rightarrow> string \<Rightarrow> string result" where
  "check_route_registry env storage_dir =
     (if \<not> st_exists env storage_dir
      then Inl (PyExc RuntimeErrorE (''Registry directory does not exist: '' @ storage_dir))
      else if \<not> st_is_dir env storage_dir
      then Inl (PyExc RuntimeErrorE (''Registry path is not a directory: '' @ storage_dir))
      else if \<not> st_readable env storage_dir
      then Inl (PyExc RuntimeErrorE (''Registry directory is not readable: '' @ storage_dir))
      else bindE (st_glob env storage_dir ''*.scalpel_route'') (\<lambda>n. Inr (nat_str n @ '' route files found'')))"

definition check_payload_storage :: "'t selftest_env \<Rightarrow> string \<Rightarrow> string result" where
  "check_payload_storage env payload_dir =
     (if \<not> st_exists env payload_dir
      then Inl (PyExc RuntimeErrorE (''Payload directory does not exist: '' @ payload_dir))
      else if \<not> st_readable env payload_dir
      then Inl (PyExc RuntimeErrorE (''Payload directory is not readable: '' @ payload_dir))
      else bindE (st_glob env payload_dir ''**/*.safetensors'')
             (\<lambda>n. Inr (nat_str n @ '' safetensors files found'')))"

text \<open>The dry run works on a fresh tensor; the model given to it is not used.\<close>

definition check_dry_run_swap :: "'t selftest_env \<Rightarrow> string result" where
  "check_dry_run_swap env =
     (let original = st_test_tensor env;
          swapped = st_add env (st_test_tensor env) (st_delta env)
      in if st_allclose env swapped original
         then Inl (PyExc RuntimeErrorE ''Dry-run swap had no effect'')
         else
           let restored = st_copy env swapped original in
           if \<not> st_allclose env restored original
           then Inl (PyExc RuntimeErrorE ''Dry-run rollback failed to restore original values'')
           else Inr ''Swap/rollback cycle verified'')"

definition run_self_tests :: "'t selftest_env \<Rightarrow> string \<Rightarrow> string \<Rightarrow> bool \<Rightarrow> self_test_report" where
  "run_self_tests env registry_dir payload_dir require_gpu =
     (let gpu = run_check (st_dur env) ''gpu_available'' (check_gpu_available env);
          gpu1 = (if \<not> require_gpu \<and> \<not> tr_passed gpu
                  then gpu\<lparr>tr_passed := True, tr_detail := ''GPU not available (non-fatal in CPU mode)''\<rparr>
                  else gpu)
      in \<lparr>rp_results =
            [gpu1,
             run_check (st_dur env) ''vllm_version'' (check_vllm_version env None),
             run_check (st_dur env) ''route_registry'' (check_route_registry env registry_dir),
             run_check (st_dur env) ''payload_storage'' (check_payload_storage env payload_dir),
             run_check (st_dur env) ''dry_run_swap'' (check_dry_run_swap env)],
          rp_started_at = st_start env, rp_completed_at = st_end env\<rparr>)"

section \<open>Requests\<close>

text \<open>\<open>InferRequest\<close> of serving/schemas.py: what validation lets through has no empty tenant, route
  or prompt.\<close>

record infer_request =
  ir_tenant_id :: string
  ir_route_id :: string
  ir_prompt :: string
  ir_request_id :: string

definition infer_request_valid :: "infer_request \<Rightarrow> bool" where
  "infer_request_valid req \<longleftrightarrow> ir_tenant_id req \<noteq> [] \<and> ir_route_id req \<noteq> [] \<and> ir_prompt req \<noteq> []"

section \<open>The proxy engine\<close>

text \<open>The engine's state is its registry; \<open>px_sent\<close> records the requests it has sent (url and body).
  \<open>http_reply\<close> is what the client's \<open>post\<close> comes to: a response with its status and what parsing
  its body gives, a timeout, or another exception.\<close>

datatype http_reply = Response int "json result" | Timed_Out | Client_Error pyexc

record proxy_engine =
  px_registry :: backends
  px_sent :: "(string \<times> json) list"

definition proxy_payload :: "infer_request \<Rightarrow> string \<Rightarrow> string \<Rightarrow> json" where
  "proxy_payload req tenant_id audit_ref =
     JObj [(''model'', JStr ''neural-scalpel-routed''), (''prompt'', JStr (ir_prompt req)),
           (''max_tokens'', JInt 50), (''temperature'', JFloat 0),
           (''extra_args'', JObj [(''audit_ref'', JStr audit_ref), (''tenant_id'', JStr tenant_id)])]"

definition mark_unhealthy :: "rat \<Rightarrow> string \<Rightarrow> proxy_engine \<Rightarrow> proxy_engine" where
  "mark_unhealthy now url p = p\<lparr>px_registry := update_health now url False (px_registry p)\<rparr>"

definition forwarding_failed :: "pyexc \<Rightarrow> pyexc" where
  "forwarding_failed e = PyExc RuntimeErrorE (''Proxy forwarding failed: '' @ exc_msg e)"

definition handle_reply :: "rat \<Rightarrow> string \<Rightarrow> string \<Rightarrow> http_reply \<Rightarrow> (proxy_engine, json) act" where
  "handle_reply now route_id url reply p =
     (case reply of
        Response status body \<Rightarrow>
          if 200 \<le> status \<and> status < 300
          then (p, case body of Inr j \<Rightarrow> Inr j | Inl e \<Rightarrow> Inl (forwarding_failed e))
          else (if status \<ge> 500 then mark_unhealthy now url p else p,
                Inl (PyExc RuntimeErrorE
                  (''Backend error '' @ int_str status @ '' for route '' @ route_id)))
      | Timed_Out \<Rightarrow>
          (mark_unhealthy now url p,
           Inl (PyExc RuntimeErrorE (''Backend timeout for route '' @ route_id @ '' at '' @ url)))
      | Client_Error e \<Rightarrow> (p, Inl (forwarding_failed e)))"

definition proxy_infer ::
  "(string \<Rightarrow> json \<Rightarrow> http_reply) \<Rightarrow> rat \<Rightarrow> infer_request \<Rightarrow> string \<Rightarrow> string \<Rightarrow> (proxy_engine, json) act" where
  "proxy_infer post now req tenant_id audit_ref p =
     (if ir_route_id req = [] then (p, Inl (PyExc ValueErrorE ''Request must contain a route_id''))
      else
        let backend_url = resolve_backend (ir_route_id req) (px_registry p) in
        case backend_url of
          None \<Rightarrow>
            (p, Inl (PyExc RuntimeErrorE (''Could not resolve backend for route '' @ ir_route_id req
                  @ '': status='' @ backend_status (ir_route_id req) (px_registry p))))
        | Some url \<Rightarrow>
            if url = []
            then (p, Inl (PyExc RuntimeErrorE (''Could not resolve backend for route '' @ ir_route_id req
                  @ '': status='' @ backend_status (ir_route_id req) (px_registry p))))
            else
              let payload = proxy_payload req tenant_id audit_ref in
              handle_reply now (ir_route_id req) url (post url payload)
                (p\<lparr>px_sent := px_sent p @ [(url, payload)]\<rparr>))"

definition proxy_health :: "proxy_engine \<Rightarrow> (string, json) dict" where
  "proxy_health p =
     (let routes = backend_routes (px_registry p);
          ready_count = length (filter (\<lambda>r. backend_status r (px_registry p) = ''READY'') routes)
      in [(''engine_type'', JStr ''external_proxy''), (''total_routes'', JInt (int (length routes))),
          (''ready_routes'', JInt (int ready_count)),
          (''status'', JStr (if ready_count > 0 \<or> routes = [] then ''healthy'' else ''degraded''))])"

section \<open>The internal engine and the factory\<close>

text \<open>The forward pass of the internal engine is a placeholder that returns a text.\<close>

definition internal_infer ::
  "'t runtime_env \<Rightarrow> infer_request \<Rightarrow> string \<Rightarrow> string \<Rightarrow> ('t runtime, json) act" where
  "internal_infer env req tenant_id audit_ref =
     infer env (ir_route_id req) tenant_id (ir_request_id req)
       (\<lambda>_. Inr (JStr (''Internal output for: '' @ take 20 (ir_prompt req) @ ''...'')))"

definition internal_health :: "'t runtime \<Rightarrow> (string, json) dict" where
  "internal_health s =
     [(''engine_type'', JStr ''internal_plugin''),
      (''status'', JStr (if runtime_is_healthy s then ''healthy'' else ''unhealthy''))]"

datatype 't engine = Internal_Plugin "'t runtime" | External_Proxy proxy_engine

definition engine_infer ::
  "'t runtime_env \<Rightarrow> (string \<Rightarrow> json \<Rightarrow> http_reply) \<Rightarrow> rat \<Rightarrow> infer_request \<Rightarrow> string \<Rightarrow> string \<Rightarrow>
   ('t engine, json) act" where
  "engine_infer env post now req tenant_id audit_ref en =
     (case en of
        Internal_Plugin s \<Rightarrow>
          (case internal_infer env req tenant_id audit_ref s of (s1, r) \<Rightarrow> (Internal_Plugin s1, r))
      | External_Proxy p \<Rightarrow>
          (case proxy_infer post now req tenant_id audit_ref p of (p1, r) \<Rightarrow> (External_Proxy p1, r)))"

definition engine_health :: "'t engine \<Rightarrow> (string, json) dict" where
  "engine_health en = (case en of Internal_Plugin s \<Rightarrow> internal_health s | External_Proxy p \<Rightarrow> proxy_health p)"

definition create_engine ::
  "'t selftest_env \<Rightarrow> string option \<Rightarrow> string \<Rightarrow> string \<Rightarrow> backends option \<Rightarrow> 't runtime option \<Rightarrow>
   't engine result" where
  "create_engine env mode registry_dir payload_dir backend_registry runtime_factory =
     (let internal_compatible = all_passed (run_self_tests env registry_dir payload_dir False);
          external_proxy_configured =
            (case backend_registry of None \<Rightarrow> False | Some b \<Rightarrow> length (backend_routes b) > 0)
      in bindE (select_from_environment mode internal_compatible external_proxy_configured) (\<lambda>sel.
           case ms_selected sel of
             None \<Rightarrow> Inl (PyExc RuntimeErrorE (''Engine failed to start: '' @ ms_reason sel))
           | Some selected \<Rightarrow>
               if \<not> ms_should_start sel
               then Inl (PyExc RuntimeErrorE (''Engine failed to start: '' @ ms_reason sel))
               else if selected = INTERNAL then
                 (case runtime_factory of
                    None \<Rightarrow> Inl (PyExc RuntimeErrorE
                              ''Internal mode selected but no internal_runtime_factory provided'')
                  | Some rt \<Rightarrow> Inr (Internal_Plugin rt))
               else if selected = EXTERNAL_PROXY then
                 (case backend_registry of
                    None \<Rightarrow> Inl (PyExc AttributeErrorE ''NoneType object has no attribute'')
                  | Some b \<Rightarrow> Inr (External_Proxy \<lparr>px_registry = b, px_sent = []\<rparr>))
               else Inl (PyExc RuntimeErrorE
                      (''Unsupported serving mode selected: '' @ mode_value selected))))"

section \<open>The self-tests\<close>

lemma run_check_passed: "tr_passed (run_check dur n c) \<longleftrightarrow> (\<exists>d. c = Inr d)"
  by (cases c) (simp_all add: run_check_def)

definition environment_ready :: "'t selftest_env \<Rightarrow> string \<Rightarrow> string \<Rightarrow> bool" where
  "environment_ready env registry_dir payload_dir \<longleftrightarrow>
     (\<exists>v. st_vllm env = Inr v)
     \<and> st_exists env registry_dir \<and> st_is_dir env registry_dir \<and> st_readable env registry_dir
     \<and> (\<exists>n. st_glob env registry_dir ''*.scalpel_route'' = Inr n)
     \<and> st_exists env payload_dir \<and> st_readable env payload_dir
     \<and> (\<exists>n. st_glob env payload_dir ''**/*.safetensors'' = Inr n)
     \<and> \<not> st_allclose env (st_add env (st_test_tensor env) (st_delta env)) (st_test_tensor env)
     \<and> st_allclose env (st_copy env (st_add env (st_test_tensor env) (st_delta env)) (st_test_tensor env))
         (st_test_tensor env)"

lemma vllm_passes: "(\<exists>d. check_vllm_version env r = Inr d) \<longleftrightarrow> (\<exists>v. st_vllm env = Inr v)"
  by (cases "st_vllm env") (simp_all add: check_vllm_version_def split: option.split)

lemma registry_passes: "(\<exists>d. check_route_registry env r = Inr d) \<longleftrightarrow>
    st_exists env r \<and> st_is_dir env r \<and> st_readable env r \<and> (\<exists>n. st_glob env r ''*.scalpel_route'' = Inr n)"
  by (auto simp: check_route_registry_def bindE_Inr_iff)

lemma storage_passes: "(\<exists>d. check_payload_storage env r = Inr d) \<longleftrightarrow>
    st_exists env r \<and> st_readable env r \<and> (\<exists>n. st_glob env r ''**/*.safetensors'' = Inr n)"
  by (auto simp: check_payload_storage_def bindE_Inr_iff)

lemma dry_run_passes: "(\<exists>d. check_dry_run_swap env = Inr d) \<longleftrightarrow>
    \<not> st_allclose env (st_add env (st_test_tensor env) (st_delta env)) (st_test_tensor env)
    \<and> st_allclose env (st_copy env (st_add env (st_test_tensor env) (st_delta env)) (st_test_tensor env))
         (st_test_tensor env)"
  by (auto simp: check_dry_run_swap_def Let_def)

lemma self_tests_iff: "all_passed (run_self_tests env r p False) \<longleftrightarrow> environment_ready env r p"
proof -
  have "all_passed (run_self_tests env r p False) \<longleftrightarrow>
      (\<exists>d. check_vllm_version env None = Inr d) \<and> (\<exists>d. check_route_registry env r = Inr d)
      \<and> (\<exists>d. check_payload_storage env p = Inr d) \<and> (\<exists>d. check_dry_run_swap env = Inr d)"
    by (simp add: all_passed_def run_self_tests_def Let_def run_check_passed)
  then show ?thesis
    unfolding vllm_passes registry_passes storage_passes dry_run_passes environment_ready_def by blast
qed

section \<open>The proxy over time\<close>

definition backend_failed :: "http_reply \<Rightarrow> bool" where
  "backend_failed reply \<longleftrightarrow>
     (case reply of Response status _ \<Rightarrow> status \<ge> 500 | Timed_Out \<Rightarrow> True | Client_Error _ \<Rightarrow> False)"

datatype proxy_event =
    Proxied "string \<Rightarrow> json \<Rightarrow> http_reply" rat infer_request string string
  | Edited table_edit

fun proxy_step :: "proxy_event \<Rightarrow> proxy_engine \<Rightarrow> proxy_engine" where
  "proxy_step (Proxied post now req tenant ref) p = fst (proxy_infer post now req tenant ref p)"
| "proxy_step (Edited e) p = p\<lparr>px_registry := route_change e (px_registry p)\<rparr>"

definition proxy_run :: "proxy_event list \<Rightarrow> proxy_engine \<Rightarrow> proxy_engine" where
  "proxy_run evs p = foldl (\<lambda>p ev. proxy_step ev p) p evs"

definition sent_to :: "string \<Rightarrow> proxy_engine \<Rightarrow> (string \<times> json) list" where
  "sent_to u p = filter (\<lambda>s. fst s = u) (px_sent p)"

text \<open>What one request does: it is sent to the url its route resolves to, if any, and the registry
  is reported the failures that count.\<close>

lemma handle_reply_effect:
  "fst (handle_reply now i u reply p) = (if backend_failed reply then mark_unhealthy now u p else p)"
  by (auto simp: handle_reply_def backend_failed_def split: http_reply.split)

lemma proxy_infer_effect:
  "fst (proxy_infer post now req t ref p) =
     (case resolve_backend (ir_route_id req) (px_registry p) of
        Some (c # u) \<Rightarrow>
          if ir_route_id req = [] then p
          else
            let q = p\<lparr>px_sent := px_sent p @ [(c # u, proxy_payload req t ref)]\<rparr> in
            if backend_failed (post (c # u) (proxy_payload req t ref)) then mark_unhealthy now (c # u) q else q
      | _ \<Rightarrow> p)"
  by (auto simp: proxy_infer_def Let_def handle_reply_effect split: option.split list.split)

lemma mark_unhealthy_frame [simp]:
  "px_sent (mark_unhealthy now u p) = px_sent p"
  "px_registry (mark_unhealthy now u p) = update_health now u False (px_registry p)"
  by (simp_all add: mark_unhealthy_def)

lemma proxy_step_down:
  assumes "backend_inv (px_registry p)" and "backend_down u (px_registry p)"
  shows "backend_inv (px_registry (proxy_step ev p)) \<and> backend_down u (px_registry (proxy_step ev p))
    \<and> sent_to u (proxy_step ev p) = sent_to u p"
proof (cases ev)
  case (Edited e)
  then show ?thesis
    using assms routes.edit_ok routes.down_edit by (simp add: sent_to_def)
next
  case (Proxied post now req t ref)
  have "resolve_backend (ir_route_id req) (px_registry p) \<noteq> Some u"
    using routes.down_resolve[OF assms] .
  then show ?thesis
    using assms Proxied routes.report_ok[OF assms(1)] routes.down_report[OF assms]
    by (auto simp: proxy_infer_effect sent_to_def Let_def split: option.split list.split)
qed

lemma proxy_run_down:
  "backend_inv (px_registry p) \<Longrightarrow> backend_down u (px_registry p) \<Longrightarrow>
     sent_to u (proxy_run evs p) = sent_to u p"
  unfolding proxy_run_def
  by (induction evs arbitrary: p) (simp_all add: proxy_step_down)

section \<open>Properties\<close>

text \<open>Starting is fail-closed: an engine is created exactly when the requested mode allows it
  and its precondition holds. The internal engine only with every self-test but the one for the
  GPU passed, the proxy only with routes configured, the automatic mode prefers the internal
  engine, and an unset, unknown or unimplemented mode starts nothing.\<close>

theorem engine_factory_fails_closed:
  "((\<exists>en. create_engine env mode reg pay backends factory = Inr en) \<longleftrightarrow>
     (\<exists>m. parse_serving_mode mode = Inr m \<and>
        (if m \<in> {INTERNAL, AUTO} \<and> environment_ready env reg pay then factory \<noteq> None
         else m \<in> {EXTERNAL_PROXY, AUTO} \<and> (\<exists>b. backends = Some b \<and> backend_routes b \<noteq> []))))
   \<and> (\<forall>rt. create_engine env mode reg pay backends factory = Inr (Internal_Plugin rt) \<longrightarrow>
        environment_ready env reg pay \<and> factory = Some rt)
   \<and> create_engine env None reg pay backends factory
       = Inl (PyExc RuntimeErrorE ''Engine failed to start: fail_closed requested'')"
proof -
  have none: "parse_serving_mode None = Inr FAIL_CLOSED" by code_simp
  show ?thesis
  proof (intro conjI)
    show "(\<exists>en. create_engine env mode reg pay backends factory = Inr en) \<longleftrightarrow>
     (\<exists>m. parse_serving_mode mode = Inr m \<and>
        (if m \<in> {INTERNAL, AUTO} \<and> environment_ready env reg pay then factory \<noteq> None
         else m \<in> {EXTERNAL_PROXY, AUTO} \<and> (\<exists>b. backends = Some b \<and> backend_routes b \<noteq> [])))"
    proof (cases "parse_serving_mode mode")
      case (Inl e)
      then show ?thesis by (simp add: create_engine_def select_from_environment_def Let_def)
    next
      case (Inr m)
      then show ?thesis
        by (cases m; cases "environment_ready env reg pay"; cases backends; cases factory)
           (simp_all add: create_engine_def select_from_environment_def Let_def self_tests_iff
             select_serving_mode_def selection_def)
    qed
    show "\<forall>rt. create_engine env mode reg pay backends factory = Inr (Internal_Plugin rt) \<longrightarrow>
        environment_ready env reg pay \<and> factory = Some rt"
    proof (cases "parse_serving_mode mode")
      case (Inl e)
      then show ?thesis by (simp add: create_engine_def select_from_environment_def Let_def)
    next
      case (Inr m)
      then show ?thesis
        by (cases m; cases "environment_ready env reg pay"; cases backends; cases factory)
           (simp_all add: create_engine_def select_from_environment_def Let_def self_tests_iff
             select_serving_mode_def selection_def)
    qed
    show "create_engine env None reg pay backends factory
       = Inl (PyExc RuntimeErrorE ''Engine failed to start: fail_closed requested'')"
      by (simp add: create_engine_def select_from_environment_def none Let_def
          select_serving_mode_def selection_def)
  qed
qed

definition demo_selftest :: "int selftest_env" where
  "demo_selftest =
     \<lparr>st_cuda = Inr False, st_device = Inr [], st_vllm = Inr None, st_exists = (\<lambda>_. True),
      st_is_dir = (\<lambda>_. True), st_readable = (\<lambda>_. True), st_glob = (\<lambda>_ _. Inr 0),
      st_test_tensor = 3, st_delta = 1, st_add = (+), st_copy = (\<lambda>_ new. new), st_allclose = (=),
      st_dur = (\<lambda>_. 0), st_start = 0, st_end = 0\<rparr>"

theorem engine_factory_fails_closed_witness:
  "\<exists>en :: int engine. create_engine demo_selftest (Some '' AUTO '') ''r'' ''p'' None
      (Some (init_runtime None (\<lambda>_. 0) empty_registry [] False None 0)) = Inr en"
proof -
  have m: "parse_serving_mode (Some '' AUTO '') = Inr AUTO" by code_simp
  have "environment_ready demo_selftest ''r'' ''p''"
    by (simp add: environment_ready_def demo_selftest_def)
  then show ?thesis
    using engine_factory_fails_closed[of demo_selftest "Some '' AUTO ''" "''r''" "''p''" None
        "Some (init_runtime None (\<lambda>_. 0) empty_registry [] False None 0)"] m
    by simp
qed

text \<open>The circuit breaker of the proxy: after a timeout or a server error of a backend,
  exactly the routes of its url stop resolving, and whatever is requested, registered or removed
  afterwards, no further request is sent to that url. Nothing but an explicit health report,
  which no part of the program issues, brings it back.\<close>

theorem failed_backend_gets_no_requests:
  assumes "px_registry p = backend_run es init_backends"
    and "resolve_backend (ir_route_id req) (px_registry p) = Some u" and "u \<noteq> []" and "ir_route_id req \<noteq> []"
    and "backend_failed (post u (proxy_payload req t ref))"
    and "p' = fst (proxy_infer post now req t ref p)"
  shows "(\<forall>j. resolve_backend j (px_registry p') =
            (if resolve_backend j (px_registry p) = Some u then None else resolve_backend j (px_registry p)))
    \<and> sent_to u (proxy_run evs p') = sent_to u p @ [(u, proxy_payload req t ref)]"
proof -
  have inv: "backend_inv (px_registry p)" unfolding assms(1) by (rule backend_run_inv[OF backend_inv_init])
  obtain c v where "u = c # v" using assms(3) by (cases u) simp_all
  then have p': "px_registry p' = update_health now u False (px_registry p)"
    "px_sent p' = px_sent p @ [(u, proxy_payload req t ref)]"
    using assms(2-6) by (simp_all add: proxy_infer_effect Let_def)
  have "sent_to u (proxy_run evs p') = sent_to u p'"
    unfolding p'(1)
    using routes.report_ok[OF inv, of now u] routes.report_down[OF inv assms(2), of now]
    by (intro proxy_run_down) (simp_all add: p'(1))
  then show ?thesis using routes.report_others[OF inv] by (simp add: p' sent_to_def)
qed

definition demo_backends :: backends where
  "demo_backends = backend_run [Register ''a'' ''x'', Register ''b'' ''x'', Register ''c'' ''y''] init_backends"

definition demo_infer_request :: "string \<Rightarrow> infer_request" where
  "demo_infer_request i = \<lparr>ir_tenant_id = ''t'', ir_route_id = i, ir_prompt = ''p'', ir_request_id = ''q''\<rparr>"

theorem failed_backend_gets_no_requests_witness:
  "\<forall>evs. length (sent_to ''x'' (proxy_run evs (fst (proxy_infer (\<lambda>_ _. Timed_Out) 1
      (demo_infer_request ''a'') ''t'' ''r'' \<lparr>px_registry = demo_backends, px_sent = []\<rparr>)))) = 1"
proof
  fix evs
  let ?p = "\<lparr>px_registry = demo_backends, px_sent = []\<rparr>"
  have "resolve_backend (ir_route_id (demo_infer_request ''a'')) (px_registry ?p) = Some ''x''" by code_simp
  from failed_backend_gets_no_requests[OF _ this, of _ "\<lambda>_ _. Timed_Out" "''t''" "''r''"
      "fst (proxy_infer (\<lambda>_ _. Timed_Out) 1 (demo_infer_request ''a'') ''t'' ''r'' ?p)" 1 evs]
  have "sent_to ''x'' (proxy_run evs (fst (proxy_infer (\<lambda>_ _. Timed_Out) 1 (demo_infer_request ''a'') ''t'' ''r'' ?p)))
      = sent_to ''x'' ?p @ [(''x'', proxy_payload (demo_infer_request ''a'') ''t'' ''r'')]"
    by (simp add: demo_backends_def demo_infer_request_def backend_failed_def)
  then show "length (sent_to ''x'' (proxy_run evs (fst (proxy_infer (\<lambda>_ _. Timed_Out) 1
      (demo_infer_request ''a'') ''t'' ''r'' ?p)))) = 1"
    by (simp add: sent_to_def)
qed

end
