(* ===== verification/Pilot_Server.thy ===== *)
theory Pilot_Server
  imports Hot_Swap_Properties Serving_Engine
begin

text \<open>
  The pilot API server (serving/server.py): the inference pipeline from the HTTP boundary to the
  runtime or the engine, route management, metrics and the health endpoint. The server and its
  runtime share one registry, which is the runtime's. The request identifiers, the
  suffixes of audit references and the measured times are parameters of a call.
\<close>

section \<open>State\<close>

datatype http_error = HTTP_Error (he_status: int) (he_detail: string)

record infer_response =
  rs_request_id :: string
  rs_route_id :: string
  rs_status :: string
  rs_output :: json
  rs_latency_ms :: rat
  rs_audit_ref :: string

record 't server =
  sv_runtime :: "'t runtime"
  sv_engine :: "'t engine option"
  sv_metrics :: metrics
  sv_logger :: bool
  sv_log :: "audit_event list"

record 't call_env =
  ce_env :: "'t runtime_env"
  ce_post :: "string \<Rightarrow> json \<Rightarrow> http_reply"
  ce_now :: rat
  ce_uuid :: string
  ce_e2e_ms :: rat

definition create_app :: "'t runtime \<Rightarrow> 't engine option \<Rightarrow> bool \<Rightarrow> 't server" where
  "create_app runtime engine audit_logger =
     \<lparr>sv_runtime = runtime, sv_engine = engine, sv_metrics = init_metrics,
      sv_logger = audit_logger, sv_log = []\<rparr>"

abbreviation sv_registry :: "'t server \<Rightarrow> registry" where
  "sv_registry sv \<equiv> rt_registry (sv_runtime sv)"

definition generate_audit_ref :: "string \<Rightarrow> string \<Rightarrow> string" where
  "generate_audit_ref uuid request_id = ''audit-'' @ request_id @ ''-'' @ uuid"

definition log_audit ::
  "string \<Rightarrow> string \<Rightarrow> string \<Rightarrow> string \<Rightarrow> string \<Rightarrow> rat \<Rightarrow> (string, string) dict \<Rightarrow>
   't server \<Rightarrow> 't server" where
  "log_audit request_id tenant_id route_id event status latency_ms extra sv =
     (if sv_logger sv
      then sv\<lparr>sv_log := sv_log sv @
             [\<lparr>ae_request = request_id, ae_tenant = tenant_id, ae_route = route_id, ae_event = event,
               ae_status = status, ae_latency = latency_ms, ae_extra = extra\<rparr>]\<rparr>
      else sv)"

definition upd_metrics :: "(metrics \<Rightarrow> metrics) \<Rightarrow> 't server \<Rightarrow> 't server" where
  "upd_metrics f sv = sv\<lparr>sv_metrics := f (sv_metrics sv)\<rparr>"

section \<open>Inference\<close>

text \<open>A refusal: counted, logged with its reason, answered with its status.\<close>

definition reject ::
  "infer_request \<Rightarrow> string \<Rightarrow> int \<Rightarrow> string \<Rightarrow> 't server \<Rightarrow> 't server \<times> (http_error + infer_response)" where
  "reject req reason status detail sv =
     (log_audit (ir_request_id req) (ir_tenant_id req) (ir_route_id req) ''infer_rejected'' ''failure'' 0
        [(''failure_reason'', reason)] (upd_metrics record_rejection sv),
      Inl (HTTP_Error status detail))"

text \<open>The inference function the server passes to the runtime returns a marker.\<close>

definition mock_inference :: "infer_request \<Rightarrow> (nat \<Rightarrow> 't) \<Rightarrow> json result" where
  "mock_inference req mem =
     Inr (JStr (''[route:'' @ ir_route_id req @ ''] Output for: '' @ take 50 (ir_prompt req)))"

text \<open>Step 3, the body of the \<open>try\<close> block up to the output: through the engine when there is one, else
  through the runtime, whose last timings are read afterwards (in milliseconds).\<close>

definition execute ::
  "'t call_env \<Rightarrow> infer_request \<Rightarrow> string \<Rightarrow> ('t server, json \<times> rat \<times> rat) act" where
  "execute ce req audit_ref sv =
     (case sv_engine sv of
        Some en \<Rightarrow>
          (case engine_infer (ce_env ce) (ce_post ce) (ce_now ce) req (ir_tenant_id req) audit_ref en of
             (en1, r) \<Rightarrow> (sv\<lparr>sv_engine := Some en1\<rparr>, bindE r (\<lambda>output. Inr (output, 0, 0))))
      | None \<Rightarrow>
          (case infer (ce_env ce) (ir_route_id req) (ir_tenant_id req) (ir_request_id req)
                  (mock_inference req) (sv_runtime sv) of
             (rt1, r) \<Rightarrow>
               (sv\<lparr>sv_runtime := rt1\<rparr>,
                bindE r (\<lambda>output. Inr (output, dict_get (rt_timings rt1) ''swap_latency'' 0 * 1000,
                                       dict_get (rt_timings rt1) ''rollback_latency'' 0 * 1000)))))"

definition infer_error :: "infer_request \<Rightarrow> string \<Rightarrow> 't server \<Rightarrow> 't server" where
  "infer_error req reason =
     log_audit (ir_request_id req) (ir_tenant_id req) (ir_route_id req) ''infer_error'' ''failure'' 0
       [(''failure_reason'', reason)]"

text \<open>The three \<open>except\<close> clauses.\<close>

definition handle_infer_exception ::
  "infer_request \<Rightarrow> pyexc \<Rightarrow> 't server \<Rightarrow> 't server \<times> (http_error + infer_response)" where
  "handle_infer_exception req e sv =
     (if is_permission_error e then reject req (exc_msg e) 403 (exc_msg e) sv
      else if is_runtime_error e then
        let sv1 = (if substring ''QUARANTINED'' (exc_msg e)
                   then upd_metrics record_rollback_failure (upd_metrics (set_quarantined True) sv)
                   else sv)
        in (infer_error req (exc_msg e) sv1, Inl (HTTP_Error 500 (exc_msg e)))
      else (infer_error req (exc_msg e) sv, Inl (HTTP_Error 500 (''Inference failed: '' @ exc_msg e))))"

definition complete_infer ::
  "'t call_env \<Rightarrow> infer_request \<Rightarrow> string \<Rightarrow> json \<times> rat \<times> rat \<Rightarrow> 't server \<Rightarrow>
   't server \<times> (http_error + infer_response)" where
  "complete_infer ce req audit_ref out sv =
     (case out of (output, swap_ms, rollback_ms) \<Rightarrow>
        (log_audit (ir_request_id req) (ir_tenant_id req) (ir_route_id req) ''infer_completed'' ''success''
           (ce_e2e_ms ce) [(''audit_ref'', audit_ref)]
           (upd_metrics (record_success swap_ms rollback_ms (ce_e2e_ms ce)) sv),
         Inr \<lparr>rs_request_id = ir_request_id req, rs_route_id = ir_route_id req, rs_status = ''success'',
              rs_output = output, rs_latency_ms = round_to 4 (ce_e2e_ms ce), rs_audit_ref = audit_ref\<rparr>))"

definition handle_infer ::
  "'t call_env \<Rightarrow> infer_request \<Rightarrow> 't server \<Rightarrow> 't server \<times> (http_error + infer_response)" where
  "handle_infer ce req sv0 =
     (let audit_ref = generate_audit_ref (ce_uuid ce) (ir_request_id req);
          sv = upd_metrics record_request sv0
      in case get_route (sv_registry sv) (ir_route_id req) of
           None \<Rightarrow>
             reject req ''route_not_found'' 404 (''Route '' @ ir_route_id req @ '' not found'') sv
         | Some route_data \<Rightarrow>
             let route_status = get_route_status (sv_registry sv) (ir_route_id req) in
             if route_status \<in> {Some REVOKED, Some QUARANTINED}
             then reject req (''route_'' @ (case route_status of Some st \<Rightarrow> status_value st | None \<Rightarrow> []))
                    403 (''Route '' @ ir_route_id req @ '' cannot be executed'') sv
             else if opt_truthy (map_of route_data ''tenant_id'')
                     \<and> map_of route_data ''tenant_id'' \<noteq> Some (JStr (ir_tenant_id req))
             then reject req ''tenant_mismatch'' 403
                    (''Tenant '' @ ir_tenant_id req @ '' is not authorized for route '' @ ir_route_id req) sv
             else
               case execute ce req audit_ref sv of
                 (sv1, Inr out) \<Rightarrow> complete_infer ce req audit_ref out sv1
               | (sv1, Inl e) \<Rightarrow> handle_infer_exception req e sv1)"

section \<open>Route management, metrics and health\<close>

definition with_registry :: "registry \<Rightarrow> 't server \<Rightarrow> 't server" where
  "with_registry reg sv = sv\<lparr>sv_runtime := (sv_runtime sv)\<lparr>rt_registry := reg\<rparr>\<rparr>"

text \<open>The response of a registration is the route identifier (with status \<open>registered\<close>).\<close>

definition handle_register_route ::
  "signer_env \<Rightarrow> string \<Rightarrow> 't server \<Rightarrow> 't server \<times> (http_error + string)" where
  "handle_register_route env filepath sv =
     (case register_route env filepath (sv_registry sv) of
        (reg, Inr route_id) \<Rightarrow>
          (log_audit ''system'' ''system'' route_id ''route_registered'' ''success'' 0 [] (with_registry reg sv),
           Inr route_id)
      | (reg, Inl e) \<Rightarrow>
          (log_audit ''system'' ''system'' ''unknown'' ''route_registration_failed'' ''failure'' 0
             [(''failure_reason'', exc_msg e)] (with_registry reg sv),
           Inl (HTTP_Error 400 (exc_msg e))))"

definition handle_revoke_route :: "string \<Rightarrow> 't server \<Rightarrow> 't server \<times> (http_error + string)" where
  "handle_revoke_route route_id sv =
     (case revoke_route route_id (sv_registry sv) of
        Inr reg \<Rightarrow>
          (log_audit ''system'' ''system'' route_id ''route_revoked'' ''success'' 0 [] (with_registry reg sv),
           Inr route_id)
      | Inl e \<Rightarrow> (sv, Inl (HTTP_Error 404 (exc_msg e))))"

text \<open>An entry of the list: route, status, tenant as the manifest has it.\<close>

definition handle_list_routes :: "'t server \<Rightarrow> (string \<times> string \<times> json option) list" where
  "handle_list_routes sv =
     map (\<lambda>route_id.
       (route_id,
        (case get_route_status (sv_registry sv) route_id of Some st \<Rightarrow> status_value st | None \<Rightarrow> ''UNKNOWN''),
        (case get_route (sv_registry sv) route_id of
           None \<Rightarrow> None
         | Some d \<Rightarrow> if d = [] then None else map_of d ''tenant_id'')))
       (list_routes (sv_registry sv))"

definition handle_metrics :: "'t server \<Rightarrow> metrics_snapshot" where
  "handle_metrics sv = snapshot (sv_metrics sv)"

record health_response =
  hr_code :: int
  hr_quarantined :: bool
  hr_accepting :: bool
  hr_engine :: "(string, json) dict option"

definition healthz :: "'t server \<Rightarrow> health_response" where
  "healthz sv =
     (let quarantined = mr_quarantined (snapshot (sv_metrics sv));
          engine_health = map_option engine_health (sv_engine sv);
          runtime_healthy1 = (case engine_health of
              Some h \<Rightarrow> map_of h ''status'' = Some (JStr ''healthy'')
            | None \<Rightarrow> runtime_is_healthy (sv_runtime sv));
          runtime_healthy = (runtime_healthy1 \<and> runtime_can_accept (sv_runtime sv));
          is_healthy = (runtime_healthy \<and> \<not> quarantined)
      in \<lparr>hr_code = (if is_healthy then 200 else 503), hr_quarantined = (quarantined \<or> \<not> runtime_healthy),
          hr_accepting = is_healthy, hr_engine = engine_health\<rparr>)"

section \<open>Histories\<close>

datatype 't server_event =
    Infer_Call "'t call_env" infer_request
  | Register_Call signer_env string
  | Revoke_Call string

fun server_step :: "'t server_event \<Rightarrow> 't server \<Rightarrow> 't server" where
  "server_step (Infer_Call ce req) sv = fst (handle_infer ce req sv)"
| "server_step (Register_Call env path) sv = fst (handle_register_route env path sv)"
| "server_step (Revoke_Call i) sv = fst (handle_revoke_route i sv)"

definition server_run :: "'t server_event list \<Rightarrow> 't server \<Rightarrow> 't server" where
  "server_run evs sv = foldl (\<lambda>sv ev. server_step ev sv) sv evs"

text \<open>The answers of the inference calls of a history, in order.\<close>

fun answers :: "'t server_event list \<Rightarrow> 't server \<Rightarrow> (http_error + infer_response) list" where
  "answers [] sv = []"
| "answers (Infer_Call ce req # evs) sv =
     snd (handle_infer ce req sv) # answers evs (server_step (Infer_Call ce req) sv)"
| "answers (ev # evs) sv = answers evs (server_step ev sv)"

end
