(* ===== verification/Pilot_Server_Properties.thy ===== *)
theory Pilot_Server_Properties
  imports Pilot_Server
begin

text \<open>
  What the pilot server promises at its HTTP boundary, over every history of calls: the accounting
  of its metrics and audit log, what a successful answer means down to the weights, and what a
  quarantined worker looks like from outside.
\<close>

section \<open>Frames\<close>

lemma log_audit_frame [simp]:
  "sv_runtime (log_audit r t i ev st l x sv) = sv_runtime sv"
  "sv_engine (log_audit r t i ev st l x sv) = sv_engine sv"
  "sv_metrics (log_audit r t i ev st l x sv) = sv_metrics sv"
  "sv_logger (log_audit r t i ev st l x sv) = sv_logger sv"
  by (simp_all add: log_audit_def)

lemma log_audit_log:
  "sv_log (log_audit r t i ev st l x sv) = sv_log sv @
     (if sv_logger sv then [\<lparr>ae_request = r, ae_tenant = t, ae_route = i, ae_event = ev, ae_status = st,
        ae_latency = l, ae_extra = x\<rparr>] else [])"
  by (simp add: log_audit_def)

lemma upd_metrics_frame [simp]:
  "sv_runtime (upd_metrics f sv) = sv_runtime sv" "sv_engine (upd_metrics f sv) = sv_engine sv"
  "sv_metrics (upd_metrics f sv) = f (sv_metrics sv)" "sv_logger (upd_metrics f sv) = sv_logger sv"
  "sv_log (upd_metrics f sv) = sv_log sv"
  by (simp_all add: upd_metrics_def)

lemma execute_frame:
  assumes "execute ce req ref sv = (sv', r)"
  shows "sv_metrics sv' = sv_metrics sv" "sv_logger sv' = sv_logger sv" "sv_log sv' = sv_log sv"
  using assms by (auto simp: execute_def split: option.splits prod.splits)

section \<open>One inference call\<close>

definition refused :: "(http_error + infer_response) \<Rightarrow> bool" where
  "refused a \<longleftrightarrow> (case a of Inl e \<Rightarrow> he_status e \<in> {403, 404} | Inr _ \<Rightarrow> False)"

definition failed :: "(http_error + infer_response) \<Rightarrow> bool" where
  "failed a \<longleftrightarrow> (case a of Inl e \<Rightarrow> he_status e = 500 | Inr _ \<Rightarrow> False)"

definition served :: "(http_error + infer_response) \<Rightarrow> bool" where
  "served a \<longleftrightarrow> (case a of Inl _ \<Rightarrow> False | Inr _ \<Rightarrow> True)"

text \<open>\<open>accounted req sv sv' a\<close>: the call was counted once, under the class of its answer, and logged
  once.\<close>

definition infer_events :: "string set" where
  "infer_events = {''infer_rejected'', ''infer_error'', ''infer_completed''}"

definition tally :: "metrics \<Rightarrow> int \<times> int \<times> int" where
  "tally m = (mt_requests_total m, mt_requests_success m, mt_requests_rejected m)"

definition logged :: "infer_request \<Rightarrow> 't server \<Rightarrow> 't server \<Rightarrow> bool \<Rightarrow> bool" where
  "logged req sv sv' ok \<longleftrightarrow>
     (if sv_logger sv
      then \<exists>ev. sv_log sv' = sv_log sv @ [ev]
          \<and> ae_request ev = ir_request_id req \<and> ae_tenant ev = ir_tenant_id req
          \<and> ae_route ev = ir_route_id req \<and> ae_event ev \<in> infer_events
          \<and> (ae_status ev = ''success'' \<longleftrightarrow> ok)
      else sv_log sv' = sv_log sv)"

definition accounted :: "infer_request \<Rightarrow> metrics \<Rightarrow> 't server \<Rightarrow> 't server \<Rightarrow> (http_error + infer_response) \<Rightarrow> bool" where
  "accounted req m sv sv' a \<longleftrightarrow>
     mt_requests_total (sv_metrics sv') = mt_requests_total m
     \<and> mt_requests_success (sv_metrics sv') = mt_requests_success m + (if served a then 1 else 0)
     \<and> mt_requests_rejected (sv_metrics sv') = mt_requests_rejected m + (if refused a then 1 else 0)
     \<and> (served a \<or> refused a \<or> failed a)
     \<and> sv_logger sv' = sv_logger sv \<and> logged req sv sv' (served a)"

lemma logged_log_audit:
  assumes "ev \<in> infer_events" "sv_log u = sv_log sv" "sv_logger u = sv_logger sv"
  shows "logged req sv (log_audit (ir_request_id req) (ir_tenant_id req) (ir_route_id req) ev st l x u)
    (st = ''success'')"
  using assms by (simp add: logged_def log_audit_log)

lemma reject_accounted:
  assumes "status \<in> {403, 404}"
  shows "accounted req (sv_metrics sv) sv (fst (reject req reason status detail sv))
    (snd (reject req reason status detail sv))"
  using assms logged_log_audit[of "''infer_rejected''" "upd_metrics record_rejection sv" sv req "''failure''"]
  by (simp add: accounted_def reject_def record_rejection_def refused_def served_def failed_def infer_events_def)

lemma exception_accounted:
  "accounted req (sv_metrics sv) sv (fst (handle_infer_exception req e sv)) (snd (handle_infer_exception req e sv))"
proof -
  have err: "logged req sv (infer_error req x u) False" if "sv_log u = sv_log sv" "sv_logger u = sv_logger sv" for x u
    using logged_log_audit[OF _ that, of "''infer_error''" req "''failure''"]
    by (simp add: infer_error_def infer_events_def)
  have "accounted req (sv_metrics sv) sv (infer_error req x u) (Inl (HTTP_Error 500 d))"
    if "sv_log u = sv_log sv" "sv_logger u = sv_logger sv" "tally (sv_metrics u) = tally (sv_metrics sv)" for x u d
    using err[OF that(1,2)] that
    by (simp add: accounted_def refused_def served_def failed_def infer_error_def tally_def)
  then show ?thesis
    using reject_accounted[of 403 req sv "exc_msg e" "exc_msg e"]
    by (simp add: handle_infer_exception_def Let_def tally_def record_rollback_failure_def set_quarantined_def)
qed

lemma record_success_counts:
  "mt_requests_total (record_success a b c m) = mt_requests_total m"
  "mt_requests_success (record_success a b c m) = mt_requests_success m + 1"
  "mt_requests_rejected (record_success a b c m) = mt_requests_rejected m"
  by (simp_all add: record_success_def Let_def)

lemma complete_accounted:
  "accounted req (sv_metrics sv) sv (fst (complete_infer ce req ref out sv)) (snd (complete_infer ce req ref out sv))"
proof (cases out)
  case (fields a b c)
  have "logged req sv (fst (complete_infer ce req ref out sv)) (''success'' = ''success'')"
    unfolding complete_infer_def fields
    by simp (rule logged_log_audit[of "''infer_completed''" _ sv req "''success''", simplified],
        simp_all add: infer_events_def)
  then show ?thesis
    by (simp add: accounted_def complete_infer_def fields record_success_counts refused_def served_def failed_def)
qed

lemma accounted_frame:
  assumes "accounted req (sv_metrics u) u sv' a" "sv_metrics u = m" "sv_logger u = sv_logger sv" "sv_log u = sv_log sv"
  shows "accounted req m sv sv' a"
  using assms(1) unfolding accounted_def logged_def assms(2-4) .

lemma handle_infer_accounted:
  "accounted req (record_request (sv_metrics sv)) sv (fst (handle_infer ce req sv)) (snd (handle_infer ce req sv))"
proof -
  let ?u = "upd_metrics record_request sv"
  let ?ref = "generate_audit_ref (ce_uuid ce) (ir_request_id req)"
  obtain v r where ex: "execute ce req ?ref ?u = (v, r)" by fastforce
  have v: "sv_metrics v = record_request (sv_metrics sv)" "sv_logger v = sv_logger sv" "sv_log v = sv_log sv"
    using execute_frame[OF ex] by simp_all
  have rej: "accounted req (record_request (sv_metrics sv)) sv (fst (reject req x st d ?u)) (snd (reject req x st d ?u))"
    if "st \<in> {403, 404}" for x st d
    by (rule accounted_frame[OF reject_accounted[OF that, of req ?u]]) simp_all
  have exc: "accounted req (record_request (sv_metrics sv)) sv (fst (handle_infer_exception req e v))
      (snd (handle_infer_exception req e v))" for e
    by (rule accounted_frame[OF exception_accounted]) (simp_all add: v)
  have fin: "accounted req (record_request (sv_metrics sv)) sv (fst (complete_infer ce req ?ref out v))
      (snd (complete_infer ce req ?ref out v))" for out
    by (rule accounted_frame[OF complete_accounted]) (simp_all add: v)
  show ?thesis
    using rej exc fin by (simp add: handle_infer_def ex Let_def split: option.split sum.split)
qed

lemma accountedD:
  assumes "accounted req m sv sv' a"
  shows "mt_requests_total (sv_metrics sv') = mt_requests_total m"
    "mt_requests_success (sv_metrics sv') = mt_requests_success m + (if served a then 1 else 0)"
    "mt_requests_rejected (sv_metrics sv') = mt_requests_rejected m + (if refused a then 1 else 0)"
    "served a \<or> refused a \<or> failed a"
    "sv_logger sv' = sv_logger sv"
    "length (filter (\<lambda>e. ae_event e \<in> infer_events) (sv_log sv'))
       = length (filter (\<lambda>e. ae_event e \<in> infer_events) (sv_log sv)) + (if sv_logger sv then 1 else 0)"
  using assms by (auto simp: accounted_def logged_def split: if_splits)

section \<open>Histories\<close>

lemma other_calls_frame:
  "sv_metrics (fst (handle_register_route env p sv)) = sv_metrics sv"
  "sv_logger (fst (handle_register_route env p sv)) = sv_logger sv"
  "sv_engine (fst (handle_register_route env p sv)) = sv_engine sv"
  "filter (\<lambda>e. ae_event e \<in> infer_events) (sv_log (fst (handle_register_route env p sv)))
     = filter (\<lambda>e. ae_event e \<in> infer_events) (sv_log sv)"
  "\<exists>reg. sv_runtime (fst (handle_register_route env p sv)) = (sv_runtime sv)\<lparr>rt_registry := reg\<rparr>"
  by (auto simp: handle_register_route_def with_registry_def log_audit_log infer_events_def
      split: prod.split sum.split)

lemma revoke_frame:
  "sv_metrics (fst (handle_revoke_route i sv)) = sv_metrics sv"
  "sv_logger (fst (handle_revoke_route i sv)) = sv_logger sv"
  "sv_engine (fst (handle_revoke_route i sv)) = sv_engine sv"
  "filter (\<lambda>e. ae_event e \<in> infer_events) (sv_log (fst (handle_revoke_route i sv)))
     = filter (\<lambda>e. ae_event e \<in> infer_events) (sv_log sv)"
  "\<exists>reg. sv_runtime (fst (handle_revoke_route i sv)) = (sv_runtime sv)\<lparr>rt_registry := reg\<rparr>"
proof -
  have "\<exists>reg. sv_runtime sv = (sv_runtime sv)\<lparr>rt_registry := reg\<rparr>"
    by (rule exI[of _ "rt_registry (sv_runtime sv)"]) simp
  then show "\<exists>reg. sv_runtime (fst (handle_revoke_route i sv)) = (sv_runtime sv)\<lparr>rt_registry := reg\<rparr>"
    by (auto simp: handle_revoke_route_def with_registry_def split: sum.split)
qed (auto simp: handle_revoke_route_def with_registry_def log_audit_log infer_events_def split: sum.split)

lemma server_run_Cons: "server_run (ev # evs) sv = server_run evs (server_step ev sv)"
  by (simp add: server_run_def)

lemma run_accounts:
  fixes sv evs
  defines "as \<equiv> answers evs sv" and "sv' \<equiv> server_run evs sv"
  shows "mt_requests_total (sv_metrics sv') = mt_requests_total (sv_metrics sv) + int (length as)
    \<and> mt_requests_success (sv_metrics sv') = mt_requests_success (sv_metrics sv) + int (length (filter served as))
    \<and> mt_requests_rejected (sv_metrics sv') = mt_requests_rejected (sv_metrics sv) + int (length (filter refused as))
    \<and> (\<forall>a\<in>set as. served a \<or> refused a \<or> failed a)
    \<and> length (filter (\<lambda>e. ae_event e \<in> infer_events) (sv_log sv'))
        = length (filter (\<lambda>e. ae_event e \<in> infer_events) (sv_log sv)) + (if sv_logger sv then length as else 0)"
  unfolding as_def sv'_def
proof (induction evs arbitrary: sv)
  case Nil
  then show ?case by (simp add: server_run_def)
next
  case (Cons ev evs)
  show ?case
  proof (cases ev)
    case (Infer_Call ce req)
    note acc = accountedD[OF handle_infer_accounted[of req sv ce]]
    show ?thesis
      using Cons.IH[of "fst (handle_infer ce req sv)"] acc
      unfolding Infer_Call server_run_Cons answers.simps server_step.simps
      by (simp add: record_request_def)
  next
    case (Register_Call env p)
    show ?thesis
      using Cons.IH[of "fst (handle_register_route env p sv)"]
      unfolding Register_Call server_run_Cons answers.simps server_step.simps
      by (simp add: other_calls_frame)
  next
    case (Revoke_Call i)
    show ?thesis
      using Cons.IH[of "fst (handle_revoke_route i sv)"]
      unfolding Revoke_Call server_run_Cons answers.simps server_step.simps
      by (simp add: revoke_frame)
  qed
qed

text \<open>Every answer is of exactly one class.\<close>

lemma answer_classes:
  assumes "\<forall>a\<in>set as. served a \<or> refused a \<or> failed a"
  shows "length as = length (filter served as) + length (filter refused as) + length (filter failed as)"
  using assms
proof (induction as)
  case (Cons a as)
  then show ?case by (cases a) (auto simp: served_def refused_def failed_def)
qed simp

section \<open>Safety of the worker behind the server\<close>

fun event_digest :: "('t \<Rightarrow> string) \<Rightarrow> 't server_event \<Rightarrow> bool" where
  "event_digest dg (Infer_Call ce req) = (te_digest (ce_env ce) = dg)"
| "event_digest dg (Register_Call env p) = True"
| "event_digest dg (Revoke_Call i) = True"

lemma reject_frame [simp]:
  "sv_runtime (fst (reject req x st d sv)) = sv_runtime sv" "sv_engine (fst (reject req x st d sv)) = sv_engine sv"
  by (simp_all add: reject_def)

lemma exception_frame [simp]:
  "sv_runtime (fst (handle_infer_exception req e sv)) = sv_runtime sv"
  "sv_engine (fst (handle_infer_exception req e sv)) = sv_engine sv"
  by (simp_all add: handle_infer_exception_def infer_error_def Let_def)

lemma complete_frame [simp]:
  "sv_runtime (fst (complete_infer ce req ref out sv)) = sv_runtime sv"
  "sv_engine (fst (complete_infer ce req ref out sv)) = sv_engine sv"
  by (cases out, simp add: complete_infer_def)+

lemma execute_runtime:
  assumes "sv_engine sv = None"
  shows "execute ce req ref sv =
    (case infer (ce_env ce) (ir_route_id req) (ir_tenant_id req) (ir_request_id req)
            (mock_inference req) (sv_runtime sv) of
       (rt1, r) \<Rightarrow> (sv\<lparr>sv_runtime := rt1\<rparr>,
         bindE r (\<lambda>res_out. Inr (res_out, dict_get (rt_timings rt1) ''swap_latency'' 0 * 1000,
                                dict_get (rt_timings rt1) ''rollback_latency'' 0 * 1000))))"
  using assms by (simp add: execute_def)

text \<open>Without an engine a call either leaves the runtime alone or is one request of the runtime.\<close>

lemma handle_infer_runtime:
  assumes "sv_engine sv = None"
  shows "sv_engine (fst (handle_infer ce req sv)) = None"
    "sv_runtime (fst (handle_infer ce req sv)) = sv_runtime sv
     \<or> sv_runtime (fst (handle_infer ce req sv)) =
         fst (infer (ce_env ce) (ir_route_id req) (ir_tenant_id req) (ir_request_id req)
                (mock_inference req) (sv_runtime sv))"
proof -
  let ?u = "upd_metrics record_request sv"
  obtain rt1 r where run: "infer (ce_env ce) (ir_route_id req) (ir_tenant_id req) (ir_request_id req)
      (mock_inference req) (sv_runtime sv) = (rt1, r)" by fastforce
  obtain q where ex: "execute ce req (generate_audit_ref (ce_uuid ce) (ir_request_id req)) ?u
      = (?u\<lparr>sv_runtime := rt1\<rparr>, q)"
    using execute_runtime[of ?u ce req] assms run by simp
  show "sv_engine (fst (handle_infer ce req sv)) = None"
    using assms by (simp add: handle_infer_def ex Let_def split: option.split sum.split)
  show "sv_runtime (fst (handle_infer ce req sv)) = sv_runtime sv
     \<or> sv_runtime (fst (handle_infer ce req sv)) =
         fst (infer (ce_env ce) (ir_route_id req) (ir_tenant_id req) (ir_request_id req)
                (mock_inference req) (sv_runtime sv))"
    by (simp add: handle_infer_def ex run Let_def split: option.split sum.split)
qed

definition server_safe :: "('t \<Rightarrow> string) \<Rightarrow> (nat \<Rightarrow> 't) \<Rightarrow> (string, nat) dict \<Rightarrow> 't server \<Rightarrow> bool" where
  "server_safe dg base state sv \<longleftrightarrow> sv_engine sv = None \<and> safe dg base state (sv_runtime sv)"

lemma safe_registry: "safe dg base state s \<Longrightarrow> safe dg base state (s\<lparr>rt_registry := reg\<rparr>)"
  using quiet_step(1)[of dg base state s "s\<lparr>rt_registry := reg\<rparr>"] by (simp add: frame_simps)

lemma server_safe_step:
  assumes safe: "server_safe dg base state sv" and dg: "event_digest dg ev"
  shows "server_safe dg base state (server_step ev sv)"
proof (cases ev)
  case (Infer_Call ce req)
  obtain rt1 r where run: "infer (ce_env ce) (ir_route_id req) (ir_tenant_id req) (ir_request_id req)
      (mock_inference req) (sv_runtime sv) = (rt1, r)" by fastforce
  have "safe dg base state rt1"
    using infer_safe[OF _ _ run, of dg base state] safe dg Infer_Call by (simp add: server_safe_def)
  then show ?thesis
    using handle_infer_runtime[of sv ce req] safe Infer_Call run by (auto simp: server_safe_def)
next
  case (Register_Call env p)
  then show ?thesis
    using safe other_calls_frame(3,5)[of env p sv] safe_registry by (fastforce simp: server_safe_def)
next
  case (Revoke_Call i)
  then show ?thesis
    using safe revoke_frame(3,5)[of i sv] safe_registry by (fastforce simp: server_safe_def)
qed

lemma server_safe_run:
  "server_safe dg base state sv \<Longrightarrow> \<forall>ev\<in>set evs. event_digest dg ev \<Longrightarrow>
     server_safe dg base state (server_run evs sv)"
  unfolding server_run_def by (induction evs arbitrary: sv) (simp_all add: server_safe_step)

definition start_server ::
  "(nat \<Rightarrow> 't) \<Rightarrow> (string, nat) dict \<Rightarrow> registry \<Rightarrow> string \<Rightarrow> bool \<Rightarrow> string option \<Rightarrow> int \<Rightarrow> bool \<Rightarrow> 't server" where
  "start_server base state reg h lg dir mx audit =
     create_app (init_runtime (Some state) base reg h lg dir mx) None audit"

lemma server_safe_start: "server_safe dg base state (start_server base state reg h lg dir mx audit)"
  using reach_safe[OF runtime_reach.start[of dg base state reg h lg dir mx]]
  by (simp add: server_safe_def start_server_def create_app_def)

section \<open>Successful answers\<close>

lemma handle_infer_served:
  assumes eng: "sv_engine sv = None" and run: "handle_infer ce req sv = (sv', Inr resp)"
  shows "\<exists>d. get_route (sv_registry sv) (ir_route_id req) = Some d
      \<and> get_route_status (sv_registry sv) (ir_route_id req) \<notin> {Some REVOKED, Some QUARANTINED}
      \<and> (opt_truthy (map_of d ''tenant_id'') \<longrightarrow> map_of d ''tenant_id'' = Some (JStr (ir_tenant_id req)))"
    "\<exists>res_out. infer (ce_env ce) (ir_route_id req) (ir_tenant_id req) (ir_request_id req) (mock_inference req)
        (sv_runtime sv) = (sv_runtime sv', Inr res_out) \<and> rs_output resp = res_out"
    "rs_audit_ref resp = generate_audit_ref (ce_uuid ce) (ir_request_id req)"
    "sv_logger sv' = sv_logger sv"
    "sv_logger sv \<Longrightarrow> \<exists>ev. sv_log sv' = sv_log sv @ [ev] \<and> ae_event ev = ''infer_completed''
        \<and> ae_request ev = ir_request_id req \<and> ae_extra ev = [(''audit_ref'', rs_audit_ref resp)]"
proof -
  let ?u = "upd_metrics record_request sv"
  let ?ref = "generate_audit_ref (ce_uuid ce) (ir_request_id req)"
  obtain rt1 r where inf: "infer (ce_env ce) (ir_route_id req) (ir_tenant_id req) (ir_request_id req)
      (mock_inference req) (sv_runtime sv) = (rt1, r)" by fastforce
  have ex: "execute ce req ?ref ?u = (?u\<lparr>sv_runtime := rt1\<rparr>,
      bindE r (\<lambda>res_out. Inr (res_out, dict_get (rt_timings rt1) ''swap_latency'' 0 * 1000,
                             dict_get (rt_timings rt1) ''rollback_latency'' 0 * 1000)))"
    using execute_runtime[of ?u ce req ?ref] eng inf by simp
  have noexc: "snd (handle_infer_exception req e u) \<noteq> Inr resp" for e u
    by (simp add: handle_infer_exception_def reject_def Let_def)
  obtain d where d: "get_route (sv_registry sv) (ir_route_id req) = Some d"
    using run by (cases "get_route (sv_registry sv) (ir_route_id req)")
      (auto simp: handle_infer_def reject_def Let_def)
  have status: "get_route_status (sv_registry sv) (ir_route_id req) \<notin> {Some REVOKED, Some QUARANTINED}"
    using run d by (auto simp: handle_infer_def reject_def Let_def split: if_splits)
  have tenant: "\<not> (opt_truthy (map_of d ''tenant_id'') \<and> map_of d ''tenant_id'' \<noteq> Some (JStr (ir_tenant_id req)))"
    using run d status by (auto simp: handle_infer_def reject_def Let_def split: if_splits)
  have go: "handle_infer ce req sv = (case execute ce req ?ref ?u of
                 (sv1, Inr out) \<Rightarrow> complete_infer ce req ?ref out sv1
               | (sv1, Inl e) \<Rightarrow> handle_infer_exception req e sv1)"
    unfolding handle_infer_def Let_def using d status tenant by auto
  have "\<exists>res_out. r = Inr res_out"
  proof (cases r)
    case (Inl e)
    then have "handle_infer_exception req e (?u\<lparr>sv_runtime := rt1\<rparr>) = (sv', Inr resp)"
      using run go ex by simp
    then show ?thesis using noexc[of e "?u\<lparr>sv_runtime := rt1\<rparr>"] by simp
  qed simp
  then obtain res_out where r: "r = Inr res_out" by blast
  have fin: "complete_infer ce req ?ref (res_out, dict_get (rt_timings rt1) ''swap_latency'' 0 * 1000,
      dict_get (rt_timings rt1) ''rollback_latency'' 0 * 1000) (?u\<lparr>sv_runtime := rt1\<rparr>) = (sv', Inr resp)"
    using run go ex r by simp
  show "\<exists>d. get_route (sv_registry sv) (ir_route_id req) = Some d
      \<and> get_route_status (sv_registry sv) (ir_route_id req) \<notin> {Some REVOKED, Some QUARANTINED}
      \<and> (opt_truthy (map_of d ''tenant_id'') \<longrightarrow> map_of d ''tenant_id'' = Some (JStr (ir_tenant_id req)))"
    using d status tenant by blast
  show "\<exists>res_out. infer (ce_env ce) (ir_route_id req) (ir_tenant_id req) (ir_request_id req) (mock_inference req)
        (sv_runtime sv) = (sv_runtime sv', Inr res_out) \<and> rs_output resp = res_out"
    using fin inf r by (auto simp: complete_infer_def)
  show "rs_audit_ref resp = ?ref" "sv_logger sv' = sv_logger sv"
    using fin by (auto simp: complete_infer_def)
  show "sv_logger sv \<Longrightarrow> \<exists>ev. sv_log sv' = sv_log sv @ [ev] \<and> ae_event ev = ''infer_completed''
        \<and> ae_request ev = ir_request_id req \<and> ae_extra ev = [(''audit_ref'', rs_audit_ref resp)]"
    using fin by (auto simp: complete_infer_def log_audit_log)
qed

section \<open>A quarantined worker\<close>

lemma terminal_infer:
  "is_terminal (rt_sm s) \<Longrightarrow> infer env i t r f s = (s, Inl (PyExc RuntimeErrorE
     ''CRITICAL: Worker is QUARANTINED. Cannot accept requests. Restart required.''))"
  by (simp add: infer_def)

lemma terminal_handle:
  assumes eng: "sv_engine sv = None" and q: "is_terminal (rt_sm (sv_runtime sv))"
  shows "\<not> served (snd (handle_infer ce req sv))" "sv_runtime (fst (handle_infer ce req sv)) = sv_runtime sv"
    "sv_engine (fst (handle_infer ce req sv)) = None"
proof -
  show "sv_engine (fst (handle_infer ce req sv)) = None" using handle_infer_runtime(1)[OF eng] .
  show "sv_runtime (fst (handle_infer ce req sv)) = sv_runtime sv"
    using handle_infer_runtime(2)[OF eng, of ce req] terminal_infer[OF q, where f = "mock_inference req"]
    by simp
  show "\<not> served (snd (handle_infer ce req sv))"
  proof
    assume "served (snd (handle_infer ce req sv))"
    then obtain sv' resp where "handle_infer ce req sv = (sv', Inr resp)"
      by (cases "handle_infer ce req sv") (auto simp: served_def split: sum.splits)
    from handle_infer_served(2)[OF eng this] terminal_infer[OF q, where f = "mock_inference req"]
    show False by simp
  qed
qed

text \<open>The runtime up to its registry.\<close>

definition same_worker :: "'t runtime \<Rightarrow> 't runtime \<Rightarrow> bool" where
  "same_worker s s' \<longleftrightarrow> (\<exists>reg. s' = s\<lparr>rt_registry := reg\<rparr>)"

lemma same_worker_refl: "same_worker s s"
  unfolding same_worker_def by (rule exI[of _ "rt_registry s"]) simp

lemma same_worker_trans: "same_worker s t \<Longrightarrow> same_worker t u \<Longrightarrow> same_worker s u"
  unfolding same_worker_def by (elim exE, hypsubst, rule exI) simp

lemma terminal_step:
  assumes eng: "sv_engine sv = None" and q: "is_terminal (rt_sm (sv_runtime sv))"
  shows "sv_engine (server_step ev sv) = None \<and> same_worker (sv_runtime sv) (sv_runtime (server_step ev sv))"
proof (cases ev)
  case (Infer_Call ce req)
  then show ?thesis using terminal_handle[OF eng q, of ce req] by (simp add: same_worker_refl)
next
  case (Register_Call env p)
  then show ?thesis using eng other_calls_frame(3,5)[of env p sv] by (simp add: same_worker_def)
next
  case (Revoke_Call i)
  then show ?thesis using eng revoke_frame(3,5)[of i sv] by (simp add: same_worker_def)
qed

lemma terminal_run:
  "sv_engine sv = None \<Longrightarrow> is_terminal (rt_sm (sv_runtime sv)) \<Longrightarrow>
     sv_engine (server_run evs sv) = None \<and> same_worker (sv_runtime sv) (sv_runtime (server_run evs sv))
     \<and> (\<forall>a\<in>set (answers evs sv). \<not> served a)"
proof (induction evs arbitrary: sv)
  case Nil
  then show ?case by (simp add: server_run_def same_worker_refl)
next
  case (Cons ev evs)
  let ?sv = "server_step ev sv"
  note st = terminal_step[OF Cons.prems, of ev]
  then have "is_terminal (rt_sm (sv_runtime ?sv))" using Cons.prems(2) by (auto simp: same_worker_def)
  then have ih: "sv_engine (server_run evs ?sv) = None
      \<and> same_worker (sv_runtime ?sv) (sv_runtime (server_run evs ?sv)) \<and> (\<forall>a\<in>set (answers evs ?sv). \<not> served a)"
    using Cons.IH st by blast
  have "answers (ev # evs) sv = (case ev of Infer_Call ce req \<Rightarrow> [snd (handle_infer ce req sv)] | _ \<Rightarrow> [])
      @ answers evs ?sv" by (cases ev) simp_all
  then show ?case
    using ih st terminal_handle(1)[OF Cons.prems] same_worker_trans
    by (fastforce simp: server_run_Cons split: server_event.splits)
qed

lemma terminal_healthz:
  assumes "sv_engine sv = None" "is_terminal (rt_sm (sv_runtime sv))"
  shows "hr_code (healthz sv) = 503 \<and> \<not> hr_accepting (healthz sv) \<and> hr_quarantined (healthz sv)"
  using assms by (simp add: healthz_def Let_def runtime_is_healthy_def)

text \<open>Each request that reaches a quarantined worker is counted as a rollback failure, although
  nothing is rolled back.\<close>

lemma refusals_count_as_rollback_failures:
  assumes "sv_engine sv = None" and "is_terminal (rt_sm (sv_runtime sv))"
    and "get_route (sv_registry sv) (ir_route_id req) = Some d"
    and "get_route_status (sv_registry sv) (ir_route_id req) = Some PRODUCTION"
    and "\<not> opt_truthy (map_of d ''tenant_id'')"
  shows "mt_rollback_failure_count (sv_metrics (fst (handle_infer ce req sv)))
    = mt_rollback_failure_count (sv_metrics sv) + 1"
proof -
  have msg: "substring ''QUARANTINED''
      ''CRITICAL: Worker is QUARANTINED. Cannot accept requests. Restart required.''" by code_simp
  show ?thesis
    using assms terminal_infer[OF assms(2), where f = "mock_inference req"] msg
    by (simp add: handle_infer_def execute_runtime Let_def handle_infer_exception_def is_permission_error_def
        is_runtime_error_def infer_error_def record_rollback_failure_def set_quarantined_def record_request_def)
qed

section \<open>Properties\<close>


definition demo_call :: "int list call_env" where
  "demo_call = \<lparr>ce_env = demo_env, ce_post = (\<lambda>_ _. Timed_Out), ce_now = 0, ce_uuid = ''u'', ce_e2e_ms = 1\<rparr>"


text \<open>A quarantined worker is out of service and says so: whatever is called afterwards, no
  inference is answered with an output, the runtime stays as it was (its registry apart), and
  the health endpoint answers 503, not accepting and quarantined.\<close>

theorem quarantined_worker_never_serves:
  assumes "sv_engine sv = None" and "rt_phase (sv_runtime sv) = WORKER_QUARANTINED"
  shows "(\<forall>a\<in>set (answers evs sv). \<not> served a)
    \<and> (\<exists>reg. sv_runtime (server_run evs sv) = (sv_runtime sv)\<lparr>rt_registry := reg\<rparr>)
    \<and> hr_code (healthz (server_run evs sv)) = 503 \<and> \<not> hr_accepting (healthz (server_run evs sv))
    \<and> hr_quarantined (healthz (server_run evs sv))"
proof -
  have q: "is_terminal (rt_sm (sv_runtime sv))" using assms(2) by (simp add: is_terminal_def)
  note run = terminal_run[OF assms(1) q, of evs]
  then have "is_terminal (rt_sm (sv_runtime (server_run evs sv)))"
    using q by (auto simp: same_worker_def)
  then show ?thesis using run terminal_healthz by (auto simp: same_worker_def)
qed

theorem quarantined_worker_never_serves_witness:
  "hr_code (healthz (server_run [Revoke_Call ''r'']
      (create_app (force_phase WORKER_QUARANTINED demo_runtime) None True))) = 503"
  using quarantined_worker_never_serves[of "create_app (force_phase WORKER_QUARANTINED demo_runtime) None True"]
  by (simp add: create_app_def force_phase_def)

text \<open>The books balance over every history: the requests counted are the calls answered, of
  which the successes, the refusals (403 and 404) and the failures (500) make up the whole, the
  first two as counted, and with an audit log there is exactly one inference event per call.\<close>

theorem every_request_accounted:
  "let as = answers evs (create_app rt en audit); sv = server_run evs (create_app rt en audit) in
     mt_requests_total (sv_metrics sv) = int (length as)
     \<and> mt_requests_success (sv_metrics sv) = int (length (filter served as))
     \<and> mt_requests_rejected (sv_metrics sv) = int (length (filter refused as))
     \<and> length as = length (filter served as) + length (filter refused as) + length (filter failed as)
     \<and> length (filter (\<lambda>e. ae_event e \<in> infer_events) (sv_log sv)) = (if audit then length as else 0)"
  using run_accounts[where evs = evs and sv = "create_app rt en audit"]
    answer_classes[of "answers evs (create_app rt en audit)"]
  by (simp add: Let_def) (simp add: create_app_def init_metrics_def)

end
