(* ===== verification/VLLM_Proxy.thy ===== *)
theory VLLM_Proxy
  imports Batching
begin

text \<open>
  The external vLLM gateway (serving/vllm_proxy.py): request size limit, JWT and admin checks,
  the token bucket per tenant, the queues per route and the tasks that drain them. The clock, the
  token decoder and the backend are parameters. A run of \<open>_process_route_batch\<close> is one step: it
  takes its requests before its first \<open>await\<close> and afterwards works on its own lists only, so
  requests that arrive meanwhile are as if they arrived after it.
\<close>

section \<open>Requests and errors\<close>

record gw_request =
  gq_route_id :: string
  gq_prompt :: string
  gq_max_tokens :: int

datatype gw_error = GW_Error (gw_status: int) (gw_detail: string)

definition max_batch_size :: nat where
  "max_batch_size = 32"

definition max_request_size :: int where
  "max_request_size = 1024 * 512"

section \<open>The token bucket\<close>

record limiter =
  rl_capacity :: rat
  rl_refill_rate :: rat
  rl_tokens :: "(json, rat) dict"
  rl_last_refill :: "(json, rat) dict"

definition new_limiter :: "rat \<Rightarrow> rat \<Rightarrow> limiter" where
  "new_limiter capacity refill_rate =
     \<lparr>rl_capacity = capacity, rl_refill_rate = refill_rate, rl_tokens = [], rl_last_refill = []\<rparr>"

definition tenant_rate_limiter :: limiter where
  "tenant_rate_limiter = new_limiter 200 100"

definition consume :: "rat \<Rightarrow> json \<Rightarrow> rat \<Rightarrow> limiter \<Rightarrow> limiter \<times> bool" where
  "consume now key tokens rl =
     (let rl1 = (if has_key (rl_tokens rl) key then rl
                 else rl\<lparr>rl_tokens := dict_set key (rl_capacity rl) (rl_tokens rl),
                         rl_last_refill := dict_set key now (rl_last_refill rl)\<rparr>);
          elapsed = now - dict_get (rl_last_refill rl1) key 0;
          level = min (rl_capacity rl1) (dict_get (rl_tokens rl1) key 0 + elapsed * rl_refill_rate rl1);
          rl2 = rl1\<lparr>rl_tokens := dict_set key level (rl_tokens rl1),
                    rl_last_refill := dict_set key now (rl_last_refill rl1)\<rparr>
      in if level \<ge> tokens
         then (rl2\<lparr>rl_tokens := dict_set key (level - tokens) (rl_tokens rl2)\<rparr>, True)
         else (rl2, False))"

section \<open>The gateway\<close>

record route_queue =
  rqu_requests :: "(gw_request \<times> json) list"
  rqu_futures :: "nat list"

record gateway =
  gw_limiter :: limiter
  gw_queues :: "(string, route_queue) dict"
  gw_active_route :: "string option"
  gw_audit :: "(string \<times> json) list"
  gw_swaps :: int
  gw_gauge :: "(string, rat) dict"
  gw_req_total :: "(json \<times> string, int) dict"
  gw_rejects :: "(string, int) dict"
  gw_next_future :: nat
  gw_tasks :: "string list"
  gw_done :: "(nat, json) dict"

definition init_gateway :: "limiter \<Rightarrow> gateway" where
  "init_gateway rl =
     \<lparr>gw_limiter = rl, gw_queues = [], gw_active_route = None, gw_audit = [], gw_swaps = 0, gw_gauge = [],
      gw_req_total = [], gw_rejects = [], gw_next_future = 0, gw_tasks = [], gw_done = []\<rparr>"

definition incr :: "'k \<Rightarrow> ('k, int) dict \<Rightarrow> ('k, int) dict" where
  "incr k d = dict_set k (dict_get d k 0 + 1) d"

section \<open>Security\<close>

definition count_reject :: "string \<Rightarrow> gateway \<Rightarrow> gateway" where
  "count_reject reason g = g\<lparr>gw_rejects := incr reason (gw_rejects g)\<rparr>"

text \<open>The middleware on the \<open>content-length\<close> header: \<open>Inr False\<close> answers 413, \<open>Inl\<close> is the exception of
  a header that is no number.\<close>

definition limit_payload_size :: "string option \<Rightarrow> gateway \<Rightarrow> gateway \<times> bool result" where
  "limit_payload_size content_length g =
     (case content_length of
        None \<Rightarrow> (g, Inr True)
      | Some s \<Rightarrow>
          if s = [] then (g, Inr True)
          else case py_int s of
                 None \<Rightarrow> (g, Inl (PyExc ValueErrorE ''invalid literal for int()''))
               | Some n \<Rightarrow> if n > max_request_size then (count_reject ''payload_too_large'' g, Inr False)
                           else (g, Inr True))"

text \<open>\<open>decode\<close> is \<open>jwt.decode\<close> with the secret and HS256; the tenant is the claim as it is.\<close>

definition verify_jwt ::
    "(string \<Rightarrow> (string, json) dict result) \<Rightarrow> string \<Rightarrow> gateway \<Rightarrow> gateway \<times> (gw_error + json)" where
  "verify_jwt decode token g =
     (let invalid = (\<lambda>e. (count_reject ''invalid_jwt'' g, Inl (GW_Error 401 (''Invalid token: '' @ exc_msg e))))
      in case decode token of
           Inl e \<Rightarrow> invalid e
         | Inr payload \<Rightarrow>
             let tenant_id = dict_get payload ''tenant_id'' JNull
             in if \<not> truthy tenant_id then invalid (PyExc ValueErrorE ''Missing tenant_id in token'')
                else (g, Inr tenant_id))"

definition verify_admin :: "string \<Rightarrow> string option \<Rightarrow> gateway \<Rightarrow> gateway \<times> (gw_error + bool)" where
  "verify_admin admin_key api_key g =
     (if api_key \<noteq> Some admin_key
      then (count_reject ''unauthorized_admin'' g, Inl (GW_Error 403 ''Admin API key required''))
      else (g, Inr True))"

section \<open>Batches and the endpoint\<close>

text \<open>\<open>_forward_to_backend\<close>: the mock answers at once, the live backend's exceptions become an
  object with the key \<open>error\<close>. The route is not part of the forwarded body.\<close>

definition forward_to_backend :: "(json \<Rightarrow> json result) option \<Rightarrow> gw_request \<Rightarrow> string \<Rightarrow> json" where
  "forward_to_backend backend req route_id =
     (case backend of
        None \<Rightarrow> JObj [(''choices'', JList [JObj [(''text'', JStr ('' [Mock Completion for '' @ route_id @ '']''))]]),
                      (''usage'', JObj [(''total_tokens'', JInt (gq_max_tokens req))])]
      | Some post \<Rightarrow>
          (case post (JObj [(''model'', JStr ''Qwen/Qwen2.5-0.5B''), (''prompt'', JStr (gq_prompt req)),
                            (''max_tokens'', JInt (gq_max_tokens req)), (''temperature'', JFloat 0)]) of
             Inr j \<Rightarrow> j
           | Inl e \<Rightarrow> JObj [(''error'', JStr (exc_msg e))]))"

text \<open>\<open>fut.set_result\<close> on a future that is not done.\<close>

definition resolve :: "nat \<times> json \<Rightarrow> (nat, json) dict \<Rightarrow> (nat, json) dict" where
  "resolve p d = (if has_key d (fst p) then d else dict_set (fst p) (snd p) d)"

definition process_route_batch :: "(json \<Rightarrow> json result) option \<Rightarrow> string \<Rightarrow> gateway \<Rightarrow> gateway" where
  "process_route_batch backend route_id g =
     (case map_of (gw_queues g) route_id of
        None \<Rightarrow> g
      | Some queue \<Rightarrow>
          if rqu_requests queue = [] then g
          else
            let reqs_to_process = take max_batch_size (rqu_requests queue);
                futs_to_resolve = take max_batch_size (rqu_futures queue);
                queue1 = queue\<lparr>rqu_requests := drop max_batch_size (rqu_requests queue),
                               rqu_futures := drop max_batch_size (rqu_futures queue)\<rparr>;
                g1 = g\<lparr>gw_queues := dict_set route_id queue1 (gw_queues g)\<rparr>;
                g2 = (if gw_active_route g1 \<noteq> Some route_id
                      then g1\<lparr>gw_active_route := Some route_id, gw_gauge := dict_set route_id 1 (gw_gauge g1),
                              gw_swaps := gw_swaps g1 + 1\<rparr>
                      else g1);
                g3 = g2\<lparr>gw_audit := gw_audit g2 @ map (\<lambda>(req, tenant). (route_id, tenant)) reqs_to_process\<rparr>;
                results = map (\<lambda>(req, tenant). forward_to_backend backend req route_id) reqs_to_process
            in g3\<lparr>gw_done := foldl (\<lambda>d p. resolve p d) (gw_done g3) (zip futs_to_resolve results)\<rparr>)"

text \<open>The endpoint up to \<open>await fut\<close>: either an error, or the number of the future. A tenant that is a
  list or an object is no dictionary key.\<close>

definition hashable :: "json \<Rightarrow> bool" where
  "hashable j \<longleftrightarrow> (case j of JList _ \<Rightarrow> False | JObj _ \<Rightarrow> False | _ \<Rightarrow> True)"

definition infer_endpoint :: "rat \<Rightarrow> gw_request \<Rightarrow> json \<Rightarrow> gateway \<Rightarrow> gateway \<times> (gw_error + nat)" where
  "infer_endpoint now request tenant_id g =
     (if \<not> hashable tenant_id then (g, Inl (GW_Error 500 ''unhashable type''))
      else
          case consume now tenant_id 1 (gw_limiter g) of
            (rl, False) \<Rightarrow>
              (g\<lparr>gw_limiter := rl, gw_rejects := incr ''rate_limited'' (gw_rejects g)\<rparr>,
               Inl (GW_Error 429 ''Too many requests''))
          | (rl, True) \<Rightarrow>
              let route_id = gq_route_id request;
                  queues = (if has_key (gw_queues g) route_id then gw_queues g
                            else dict_set route_id \<lparr>rqu_requests = [], rqu_futures = []\<rparr> (gw_queues g));
                  queue = dict_get queues route_id \<lparr>rqu_requests = [], rqu_futures = []\<rparr>;
                  fut = gw_next_future g
              in (g\<lparr>gw_limiter := rl,
                    gw_req_total := incr (tenant_id, route_id) (gw_req_total g),
                    gw_queues := dict_set route_id
                      (queue\<lparr>rqu_requests := rqu_requests queue @ [(request, tenant_id)],
                             rqu_futures := rqu_futures queue @ [fut]\<rparr>) queues,
                    gw_next_future := Suc fut,
                    gw_tasks := gw_tasks g @ [route_id]\<rparr>, Inr fut))"

text \<open>What follows the \<open>await\<close>: the metrics are added to the result, which only an object allows.\<close>

definition finish_infer :: "json \<Rightarrow> json \<Rightarrow> json \<Rightarrow> gw_error + json" where
  "finish_infer latency_ms tenant_id res =
     (case res of
        JObj d \<Rightarrow> Inr (JObj (dict_set ''proxy_metrics''
                    (JObj [(''latency_ms'', latency_ms), (''tenant_id'', tenant_id)]) d))
      | _ \<Rightarrow> Inl (GW_Error 500 ''object does not support item assignment''))"

definition gw_healthz :: "bool \<Rightarrow> gateway \<Rightarrow> (string, json) dict" where
  "gw_healthz mock g =
     [(''status'', JStr ''ok''),
      (''active_route'', (case gw_active_route g of None \<Rightarrow> JNull | Some r \<Rightarrow> JStr r)),
      (''mode'', JStr (if mock then ''MOCK'' else ''LIVE''))]"

definition get_audit_log :: "gateway \<Rightarrow> (string \<times> json) list" where
  "get_audit_log g = gw_audit g"

text \<open>One event: a request arrives, or the event loop runs the task at a position of the task list.\<close>

datatype gw_event = Arrive rat gw_request json | Run_Task nat

fun gw_step :: "(json \<Rightarrow> json result) option \<Rightarrow> gw_event \<Rightarrow> gateway \<Rightarrow> gateway" where
  "gw_step backend (Arrive now req tenant) g = fst (infer_endpoint now req tenant g)"
| "gw_step backend (Run_Task n) g =
     (if n < length (gw_tasks g)
      then process_route_batch backend (gw_tasks g ! n)
             (g\<lparr>gw_tasks := take n (gw_tasks g) @ drop (Suc n) (gw_tasks g)\<rparr>)
      else g)"

definition gw_run :: "(json \<Rightarrow> json result) option \<Rightarrow> gw_event list \<Rightarrow> gateway \<Rightarrow> gateway" where
  "gw_run backend evs g = foldl (\<lambda>g ev. gw_step backend ev g) g evs"

section \<open>The bucket bounds the rate\<close>

text \<open>\<open>granted k evs rl\<close>: how many of the calls (time and key) for \<open>k\<close> are granted.\<close>

fun granted :: "json \<Rightarrow> (rat \<times> json) list \<Rightarrow> limiter \<Rightarrow> nat" where
  "granted k [] rl = 0"
| "granted k ((t, j) # evs) rl =
     (if snd (consume t j 1 rl) \<and> j = k then 1 else 0) + granted k evs (fst (consume t j 1 rl))"

definition limiter_after :: "(rat \<times> json) list \<Rightarrow> limiter \<Rightarrow> limiter" where
  "limiter_after evs rl = foldl (\<lambda>rl e. fst (consume (fst e) (snd e) 1 rl)) rl evs"

definition limiter_inv :: "rat \<Rightarrow> limiter \<Rightarrow> bool" where
  "limiter_inv now rl \<longleftrightarrow> 0 \<le> rl_capacity rl \<and> 0 \<le> rl_refill_rate rl
     \<and> (\<forall>k x. map_of (rl_tokens rl) k = Some x \<longrightarrow>
          0 \<le> x \<and> x \<le> rl_capacity rl \<and> (\<exists>l. map_of (rl_last_refill rl) k = Some l \<and> l \<le> now))"

lemma consume_frame:
  "rl_capacity (fst (consume t j n rl)) = rl_capacity rl"
  "rl_refill_rate (fst (consume t j n rl)) = rl_refill_rate rl"
  "j \<noteq> k \<Longrightarrow> map_of (rl_tokens (fst (consume t j n rl))) k = map_of (rl_tokens rl) k"
  "j \<noteq> k \<Longrightarrow> map_of (rl_last_refill (fst (consume t j n rl))) k = map_of (rl_last_refill rl) k"
  by (simp_all add: consume_def Let_def)

text \<open>The level a call finds after the refill, and what it leaves.\<close>

definition level_at :: "rat \<Rightarrow> json \<Rightarrow> limiter \<Rightarrow> rat" where
  "level_at t k rl =
     (case map_of (rl_tokens rl) k of
        None \<Rightarrow> rl_capacity rl
      | Some x \<Rightarrow> min (rl_capacity rl) (x + (t - dict_get (rl_last_refill rl) k 0) * rl_refill_rate rl))"

lemma consume_own:
  "snd (consume t k 1 rl) \<longleftrightarrow> 1 \<le> level_at t k rl"
  "map_of (rl_tokens (fst (consume t k 1 rl))) k
     = Some (if 1 \<le> level_at t k rl then level_at t k rl - 1 else level_at t k rl)"
  "map_of (rl_last_refill (fst (consume t k 1 rl))) k = Some t"
  by (simp_all add: consume_def Let_def level_at_def has_key_def dict_get_def split: option.split)

lemma level_bounds:
  assumes inv: "limiter_inv now rl" and "now \<le> t"
  shows "0 \<le> level_at t k rl" "level_at t k rl \<le> rl_capacity rl"
proof -
  have "0 \<le> x + (t - l) * rl_refill_rate rl"
    if "map_of (rl_tokens rl) k = Some x" "map_of (rl_last_refill rl) k = Some l" for x l
  proof -
    have "0 \<le> x" "l \<le> t" using inv that assms(2) by (fastforce simp: limiter_inv_def)+
    moreover have "0 \<le> rl_refill_rate rl" using inv by (simp add: limiter_inv_def)
    ultimately show ?thesis by simp
  qed
  then show "0 \<le> level_at t k rl" "level_at t k rl \<le> rl_capacity rl"
    using inv by (fastforce simp: level_at_def limiter_inv_def dict_get_def split: option.split)+
qed

lemma consume_inv:
  assumes inv: "limiter_inv now rl" and t: "now \<le> t"
  shows "limiter_inv t (fst (consume t j 1 rl))"
  unfolding limiter_inv_def
proof (intro conjI allI impI)
  show "0 \<le> rl_capacity (fst (consume t j 1 rl))" "0 \<le> rl_refill_rate (fst (consume t j 1 rl))"
    using inv by (simp_all add: limiter_inv_def consume_frame)
  fix k x assume x: "map_of (rl_tokens (fst (consume t j 1 rl))) k = Some x"
  have "0 \<le> x \<and> x \<le> rl_capacity rl \<and> (\<exists>l. map_of (rl_last_refill (fst (consume t j 1 rl))) k = Some l \<and> l \<le> t)"
  proof (cases "j = k")
    case True
    then show ?thesis
      using x level_bounds[OF inv t, of k] by (auto simp: consume_own split: if_splits)
  next
    case False
    then show ?thesis using x inv t by (fastforce simp: consume_frame limiter_inv_def)
  qed
  then show "0 \<le> x" "x \<le> rl_capacity (fst (consume t j 1 rl))"
    "\<exists>l. map_of (rl_last_refill (fst (consume t j 1 rl))) k = Some l \<and> l \<le> t"
    by (simp_all add: consume_frame)
qed

text \<open>What the calls up to time \<open>T\<close> can still be granted is what is in the bucket and what flows
  in.\<close>

lemma granted_from_level:
  assumes "limiter_inv now rl" and "sorted (now # map fst evs @ [T])"
    and "map_of (rl_tokens rl) k = Some x" and "map_of (rl_last_refill rl) k = Some now"
  shows "of_nat (granted k evs rl) \<le> x + (T - now) * rl_refill_rate rl"
proof -
  have "of_nat (granted k evs rl) \<le> x + (T - l) * rl_refill_rate rl"
    if "limiter_inv now rl" "sorted (now # map fst evs @ [T])"
      "map_of (rl_tokens rl) k = Some x" "map_of (rl_last_refill rl) k = Some l" for x l
    using that
  proof (induction evs arbitrary: now rl x l)
    case Nil
    then have "l \<le> T" "0 \<le> x" "0 \<le> rl_refill_rate rl" by (fastforce simp: limiter_inv_def)+
    then show ?case by simp
  next
    case (Cons e evs)
    obtain t j where e: "e = (t, j)" by fastforce
    have t: "now \<le> t" and srt: "sorted (t # map fst evs @ [T])" using Cons.prems(2) e by simp_all
    let ?rl = "fst (consume t j 1 rl)"
    note inv = consume_inv[OF Cons.prems(1) t, of j]
    show ?case
    proof (cases "j = k")
      case False
      then show ?thesis
        using Cons.IH[OF inv srt, of x l] Cons.prems(3,4) e by (simp add: consume_frame)
    next
      case True
      let ?y = "level_at t k rl"
      have y: "?y \<le> x + (t - l) * rl_refill_rate rl"
        using Cons.prems(3,4) by (simp add: level_at_def dict_get_def)
      have ih: "of_nat (granted k evs ?rl) \<le> (if 1 \<le> ?y then ?y - 1 else ?y) + (T - t) * rl_refill_rate rl"
        using Cons.IH[OF inv srt, of "if 1 \<le> ?y then ?y - 1 else ?y" t] True
        by (simp add: consume_own consume_frame)
      have "(t - l) * rl_refill_rate rl + (T - t) * rl_refill_rate rl = (T - l) * rl_refill_rate rl"
        by (simp add: algebra_simps)
      then show ?thesis using ih y True e by (auto simp: consume_own split: if_splits)
    qed
  qed
  then show ?thesis using assms by blast
qed

lemma granted_window:
  assumes "limiter_inv now rl" and "sorted (now # map fst evs @ [T])"
  shows "of_nat (granted k evs rl) \<le> rl_capacity rl + (T - now) * rl_refill_rate rl"
  using assms
proof (induction evs arbitrary: now rl)
  case Nil
  then show ?case by (simp add: limiter_inv_def)
next
  case (Cons e evs)
  obtain t j where e: "e = (t, j)" by fastforce
  have t: "now \<le> t" and srt: "sorted (t # map fst evs @ [T])" using Cons.prems(2) e by simp_all
  note inv = consume_inv[OF Cons.prems(1) t, of j]
  have rate: "(T - t) * rl_refill_rate rl \<le> (T - now) * rl_refill_rate rl"
    using t Cons.prems(1) by (intro mult_right_mono) (simp_all add: limiter_inv_def)
  show ?case
  proof (cases "j = k")
    case False
    then show ?thesis using Cons.IH[OF inv srt] rate e by (simp add: consume_frame)
  next
    case True
    let ?y = "level_at t k rl"
    have "of_nat (granted k evs (fst (consume t j 1 rl)))
        \<le> (if 1 \<le> ?y then ?y - 1 else ?y) + (T - t) * rl_refill_rate rl"
      using granted_from_level[OF inv srt] True by (simp add: consume_own consume_frame)
    moreover have "?y \<le> rl_capacity rl" using level_bounds(2)[OF Cons.prems(1) t] .
    ultimately show ?thesis using rate True e by (auto simp: consume_own split: if_splits)
  qed
qed

lemma limiter_after_inv:
  "limiter_inv now rl \<Longrightarrow> sorted (now # map fst evs) \<Longrightarrow>
     limiter_inv (last (now # map fst evs)) (limiter_after evs rl)
     \<and> rl_capacity (limiter_after evs rl) = rl_capacity rl
     \<and> rl_refill_rate (limiter_after evs rl) = rl_refill_rate rl"
proof (induction evs arbitrary: now rl)
  case Nil
  then show ?case by (simp add: limiter_after_def)
next
  case (Cons e evs)
  then have "now \<le> fst e" "sorted (fst e # map fst evs)" by simp_all
  from Cons.IH[OF consume_inv[OF Cons.prems(1) this(1), of "snd e"] this(2)]
  show ?case by (simp add: limiter_after_def consume_frame)
qed

lemma limiter_inv_new: "0 \<le> c \<Longrightarrow> 0 \<le> r \<Longrightarrow> limiter_inv now (new_limiter c r)"
  by (simp add: limiter_inv_def new_limiter_def)

lemma limiter_inv_later: "limiter_inv now rl \<Longrightarrow> now \<le> t \<Longrightarrow> limiter_inv t rl"
  unfolding limiter_inv_def by (meson order_trans)

section \<open>Every accepted request is answered\<close>

text \<open>The requests a history accepts, with their futures.\<close>

fun accepted :: "(json \<Rightarrow> json result) option \<Rightarrow> gw_event list \<Rightarrow> gateway \<Rightarrow> (nat \<times> gw_request) list" where
  "accepted backend [] g = []"
| "accepted backend (Arrive now req tenant # evs) g =
     (case snd (infer_endpoint now req tenant g) of Inr f \<Rightarrow> [(f, req)] | Inl _ \<Rightarrow> [])
     @ accepted backend evs (gw_step backend (Arrive now req tenant) g)"
| "accepted backend (Run_Task n # evs) g = accepted backend evs (gw_step backend (Run_Task n) g)"

definition queue_of :: "gateway \<Rightarrow> string \<Rightarrow> route_queue" where
  "queue_of g i = dict_get (gw_queues g) i \<lparr>rqu_requests = [], rqu_futures = []\<rparr>"

definition queued :: "gateway \<Rightarrow> string \<Rightarrow> (nat \<times> gw_request \<times> json) list" where
  "queued g i = zip (rqu_futures (queue_of g i)) (rqu_requests (queue_of g i))"

definition answer_of :: "(json \<Rightarrow> json result) option \<Rightarrow> gw_request \<Rightarrow> json" where
  "answer_of backend req = forward_to_backend backend req (gq_route_id req)"

definition gw_inv :: "(json \<Rightarrow> json result) option \<Rightarrow> (nat \<times> gw_request) list \<Rightarrow> gateway \<Rightarrow> bool" where
  "gw_inv backend as g \<longleftrightarrow>
     map fst as = [0..<gw_next_future g]
     \<and> (\<forall>i. length (rqu_requests (queue_of g i)) = length (rqu_futures (queue_of g i)))
     \<and> (\<forall>i. length (rqu_requests (queue_of g i)) \<le> count (mset (gw_tasks g)) i)
     \<and> (\<forall>i f req t. (f, req, t) \<in> set (queued g i) \<longrightarrow> (f, req) \<in> set as \<and> gq_route_id req = i)
     \<and> (\<forall>f v. map_of (gw_done g) f = Some v \<longrightarrow> (\<exists>req. (f, req) \<in> set as \<and> v = answer_of backend req))
     \<and> (\<forall>f req. (f, req) \<in> set as \<longrightarrow>
          map_of (gw_done g) f \<noteq> None \<or> (\<exists>t. (f, req, t) \<in> set (queued g (gq_route_id req))))"

lemma gw_invD:
  assumes "gw_inv backend as g"
  shows "map fst as = [0..<gw_next_future g]"
    "length (rqu_requests (queue_of g i)) = length (rqu_futures (queue_of g i))"
    "length (rqu_requests (queue_of g i)) \<le> count (mset (gw_tasks g)) i"
    "(f, req, t) \<in> set (queued g i) \<Longrightarrow> (f, req) \<in> set as \<and> gq_route_id req = i"
    "map_of (gw_done g) f = Some v \<Longrightarrow> \<exists>req. (f, req) \<in> set as \<and> v = answer_of backend req"
    "(f, req) \<in> set as \<Longrightarrow> map_of (gw_done g) f \<noteq> None \<or> (\<exists>t. (f, req, t) \<in> set (queued g (gq_route_id req)))"
  using assms unfolding gw_inv_def by blast+

lemma asked_unique:
  assumes "map fst as = [0..<n]" "(f, r) \<in> set as" "(f, r') \<in> set as"
  shows "r = r'"
proof -
  have "distinct (map fst as)" using assms(1) by simp
  then show ?thesis using assms(2,3) by (metis eq_key_imp_eq_value)
qed

lemma gw_inv_init: "gw_inv backend [] (init_gateway rl)"
  by (simp add: gw_inv_def init_gateway_def queue_of_def queued_def dict_get_def)

lemma infer_endpoint_cases:
  "(\<exists>rl rej e. infer_endpoint now req tenant g = (g\<lparr>gw_limiter := rl, gw_rejects := rej\<rparr>, Inl e))
   \<or> (\<exists>rl tot q. infer_endpoint now req tenant g =
        (g\<lparr>gw_limiter := rl, gw_req_total := tot, gw_queues := q, gw_next_future := Suc (gw_next_future g),
           gw_tasks := gw_tasks g @ [gq_route_id req]\<rparr>, Inr (gw_next_future g))
      \<and> (\<forall>i. dict_get q i \<lparr>rqu_requests = [], rqu_futures = []\<rparr> =
           (if i = gq_route_id req
            then (queue_of g i)\<lparr>rqu_requests := rqu_requests (queue_of g i) @ [(req, tenant)],
                                rqu_futures := rqu_futures (queue_of g i) @ [gw_next_future g]\<rparr>
            else queue_of g i)))"
proof -
  have same: "\<exists>rl rej. g = g\<lparr>gw_limiter := rl, gw_rejects := rej\<rparr>"
    by (rule exI[of _ "gw_limiter g"], rule exI[of _ "gw_rejects g"]) simp
  obtain rl b where c: "consume now tenant 1 (gw_limiter g) = (rl, b)" by fastforce
  have old: "dict_get (if has_key (gw_queues g) r then gw_queues g
        else dict_set r \<lparr>rqu_requests = [], rqu_futures = []\<rparr> (gw_queues g)) i
        \<lparr>rqu_requests = [], rqu_futures = []\<rparr> = queue_of g i" for r i
    by (auto simp: queue_of_def dict_get_def has_key_def)
  show ?thesis
  proof (cases "hashable tenant \<and> b")
    case False
    then show ?thesis using same c by (auto simp: infer_endpoint_def)
  next
    case True
    let ?r = "gq_route_id req" and ?e = "\<lparr>rqu_requests = [], rqu_futures = []\<rparr>"
    let ?q0 = "if has_key (gw_queues g) ?r then gw_queues g else dict_set ?r ?e (gw_queues g)"
    let ?q = "dict_set ?r ((queue_of g ?r)\<lparr>rqu_requests := rqu_requests (queue_of g ?r) @ [(req, tenant)],
        rqu_futures := rqu_futures (queue_of g ?r) @ [gw_next_future g]\<rparr>) ?q0"
    have "infer_endpoint now req tenant g =
        (g\<lparr>gw_limiter := rl, gw_req_total := incr (tenant, ?r) (gw_req_total g), gw_queues := ?q,
           gw_next_future := Suc (gw_next_future g), gw_tasks := gw_tasks g @ [?r]\<rparr>, Inr (gw_next_future g))"
      using True unfolding infer_endpoint_def Let_def old c by simp
    moreover have "dict_get ?q i ?e = (if i = ?r then (queue_of g i)\<lparr>rqu_requests := rqu_requests (queue_of g i) @ [(req, tenant)],
        rqu_futures := rqu_futures (queue_of g i) @ [gw_next_future g]\<rparr> else queue_of g i)" for i
      using old[of ?r i] by (simp add: dict_get_set)
    ultimately show ?thesis by blast
  qed
qed

lemma gw_inv_cong:
  assumes inv: "gw_inv backend as g" and same: "gw_queues g' = gw_queues g" "gw_done g' = gw_done g"
      "gw_next_future g' = gw_next_future g"
    and n: "\<And>i. length (rqu_requests (queue_of g i)) \<le> count (mset (gw_tasks g')) i"
  shows "gw_inv backend as g'"
proof -
  have q: "queue_of g' = queue_of g" "queued g' = queued g" by (simp_all add: fun_eq_iff queue_of_def queued_def same)
  show ?thesis using inv n unfolding gw_inv_def q same by blast
qed

lemma arrive_refused:
  "gw_inv backend as g \<Longrightarrow> gw_inv backend as (g\<lparr>gw_limiter := rl, gw_rejects := rej\<rparr>)"
  by (rule gw_inv_cong) (auto dest: gw_invD(3))

lemma arrive_accepted:
  assumes inv: "gw_inv backend as g"
    and g': "g' = g\<lparr>gw_limiter := rl, gw_req_total := tot, gw_queues := q,
        gw_next_future := Suc (gw_next_future g), gw_tasks := gw_tasks g @ [gq_route_id req]\<rparr>"
    and q: "\<And>i. dict_get q i \<lparr>rqu_requests = [], rqu_futures = []\<rparr> =
        (if i = gq_route_id req
         then (queue_of g i)\<lparr>rqu_requests := rqu_requests (queue_of g i) @ [(req, tenant)],
                             rqu_futures := rqu_futures (queue_of g i) @ [gw_next_future g]\<rparr>
         else queue_of g i)"
  shows "gw_inv backend (as @ [(gw_next_future g, req)]) g'"
proof -
  let ?f = "gw_next_future g"
  have qo: "queue_of g' i = (if i = gq_route_id req
      then (queue_of g i)\<lparr>rqu_requests := rqu_requests (queue_of g i) @ [(req, tenant)],
                          rqu_futures := rqu_futures (queue_of g i) @ [?f]\<rparr>
      else queue_of g i)" for i
    using q[of i] by (simp add: queue_of_def g')
  have qd: "queued g' i = queued g i @ (if i = gq_route_id req then [(?f, req, tenant)] else [])" for i
    using gw_invD(2)[OF inv, of i] by (cases "i = gq_route_id req") (simp_all add: queued_def qo)
  show ?thesis
    unfolding gw_inv_def
  proof (intro conjI allI impI)
    show "map fst (as @ [(?f, req)]) = [0..<gw_next_future g']" using gw_invD(1)[OF inv] by (simp add: g')
    fix i
    show "length (rqu_requests (queue_of g' i)) = length (rqu_futures (queue_of g' i))"
      using gw_invD(2)[OF inv, of i] by (cases "i = gq_route_id req") (simp_all add: qo)
    show "length (rqu_requests (queue_of g' i)) \<le> count (mset (gw_tasks g')) i"
    proof -
      have "gw_tasks g' = gw_tasks g @ [gq_route_id req]" by (simp add: g')
      then show ?thesis using gw_invD(3)[OF inv, of i] by (cases "i = gq_route_id req") (simp_all add: qo)
    qed
    fix f r t assume "(f, r, t) \<in> set (queued g' i)"
    then show "(f, r) \<in> set (as @ [(?f, req)])" "gq_route_id r = i"
      using gw_invD(4)[OF inv, of f r t i] by (auto simp: qd split: if_splits)
  next
    fix f v assume "map_of (gw_done g') f = Some v"
    then show "\<exists>r. (f, r) \<in> set (as @ [(?f, req)]) \<and> v = answer_of backend r"
      using gw_invD(5)[OF inv, of f v] by (auto simp: g')
  next
    fix f r assume "(f, r) \<in> set (as @ [(?f, req)])"
    then show "map_of (gw_done g') f \<noteq> None \<or> (\<exists>t. (f, r, t) \<in> set (queued g' (gq_route_id r)))"
    proof (cases "(f, r) \<in> set as")
      case True
      have "gw_done g' = gw_done g" by (simp add: g')
      then show ?thesis using gw_invD(6)[OF inv True] by (auto simp: qd)
    qed (use \<open>(f, r) \<in> set (as @ [(?f, req)])\<close> in \<open>auto simp: qd\<close>)
  qed
qed

lemma foldl_resolve:
  "map_of (foldl (\<lambda>d p. resolve p d) d ps) f = (case map_of d f of Some v \<Rightarrow> Some v | None \<Rightarrow> map_of ps f)"
  by (induction ps arbitrary: d) (auto simp: resolve_def has_key_def split: option.splits)

text \<open>The effect of a task on the queues and the answers.\<close>

lemma process_effect:
  assumes "rqu_requests (queue_of g i) \<noteq> []"
  shows "queue_of (process_route_batch backend i g) j =
       (if j = i then (queue_of g i)\<lparr>rqu_requests := drop max_batch_size (rqu_requests (queue_of g i)),
                                     rqu_futures := drop max_batch_size (rqu_futures (queue_of g i))\<rparr>
        else queue_of g j)"
    "map_of (gw_done (process_route_batch backend i g)) f =
       (case map_of (gw_done g) f of Some v \<Rightarrow> Some v
        | None \<Rightarrow> map_of (map (\<lambda>(f, req, t). (f, forward_to_backend backend req i))
                    (take max_batch_size (queued g i))) f)"
proof -
  obtain q where q: "map_of (gw_queues g) i = Some q"
    using assms by (cases "map_of (gw_queues g) i") (simp_all add: queue_of_def dict_get_def)
  then have qo: "queue_of g i = q" by (simp add: queue_of_def dict_get_def)
  show "queue_of (process_route_batch backend i g) j =
       (if j = i then (queue_of g i)\<lparr>rqu_requests := drop max_batch_size (rqu_requests (queue_of g i)),
                                     rqu_futures := drop max_batch_size (rqu_futures (queue_of g i))\<rparr>
        else queue_of g j)"
    using assms q qo by (simp add: process_route_batch_def Let_def queue_of_def dict_get_set)
  have "zip (take n fs) (map (\<lambda>(req, t). forward_to_backend backend req i) (take n rs))
      = map (\<lambda>(f, req, t). (f, forward_to_backend backend req i)) (take n (zip fs rs))" for n fs rs
    by (simp add: take_zip zip_map2 case_prod_unfold)
  note z = this[of max_batch_size "rqu_futures q" "rqu_requests q"]
  have qd: "queued g i = zip (rqu_futures q) (rqu_requests q)" by (simp add: queued_def qo)
  show "map_of (gw_done (process_route_batch backend i g)) f =
       (case map_of (gw_done g) f of Some v \<Rightarrow> Some v
        | None \<Rightarrow> map_of (map (\<lambda>(f, req, t). (f, forward_to_backend backend req i))
                    (take max_batch_size (queued g i))) f)"
    using assms q qo z
    by (cases "gw_active_route g = Some i"; cases "map_of (gw_done g) f")
      (simp_all add: process_route_batch_def Let_def foldl_resolve qd)
qed

lemma process_frame:
  "gw_next_future (process_route_batch backend i g) = gw_next_future g"
  "gw_tasks (process_route_batch backend i g) = gw_tasks g"
  by (simp_all add: process_route_batch_def Let_def split: option.split)

lemma count_remove_nth:
  "n < length xs \<Longrightarrow> count (mset (take n xs @ drop (Suc n) xs)) i
     = count (mset xs) i - (if i = xs ! n then 1 else 0)"
proof -
  assume n: "n < length xs"
  have "mset xs = mset (take n xs @ drop (Suc n) xs) + {#xs ! n#}"
    by (subst id_take_nth_drop[OF n]) simp
  then show ?thesis by simp
qed

lemma task_inv:
  assumes inv: "gw_inv backend as g" and n: "n < length (gw_tasks g)"
  shows "gw_inv backend as (gw_step backend (Run_Task n) g)"
proof -
  let ?i = "gw_tasks g ! n"
  let ?g = "g\<lparr>gw_tasks := take n (gw_tasks g) @ drop (Suc n) (gw_tasks g)\<rparr>"
  let ?g' = "process_route_batch backend ?i ?g"
  have step: "gw_step backend (Run_Task n) g = ?g'" using n by simp
  have same: "queue_of ?g i = queue_of g i" "queued ?g i = queued g i" for i
    by (simp_all add: queue_of_def queued_def)
  have cnt: "count (mset (gw_tasks ?g')) i = count (mset (gw_tasks g)) i - (if i = ?i then 1 else 0)" for i
    using count_remove_nth[OF n, of i] by (simp add: process_frame)
  show ?thesis
  proof (cases "rqu_requests (queue_of ?g ?i) = []")
    case True
    then have "?g' = ?g"
      by (simp add: process_route_batch_def queue_of_def dict_get_def split: option.splits)
    moreover have "length (rqu_requests (queue_of g i)) \<le> count (mset (gw_tasks ?g')) i" for i
      using gw_invD(3)[OF inv, of i] True unfolding cnt same by (cases "i = ?i") auto
    ultimately show ?thesis
      unfolding step by (intro gw_inv_cong[OF inv]) simp_all
  next
    case False
    note qo = process_effect(1)[OF False, where backend = backend, unfolded same]
    note dn = process_effect(2)[OF False, where backend = backend, unfolded same]
    have qd: "queued ?g' i = (if i = ?i then drop max_batch_size (queued g i) else queued g i)" for i
      by (simp add: queued_def qo drop_zip)
    have ans: "\<exists>req. (f, req) \<in> set as \<and> v = answer_of backend req"
      if "map_of (map (\<lambda>(f, req, t). (f, forward_to_backend backend req ?i))
            (take max_batch_size (queued g ?i))) f = Some v" for f v
    proof -
      have "(f, v) \<in> (\<lambda>(f, req, t). (f, forward_to_backend backend req ?i)) ` set (queued g ?i)"
        using set_take_subset[of max_batch_size "queued g ?i"] map_of_SomeD[OF that]
        unfolding set_map by (rule subsetD[OF image_mono])
      then obtain req t where "(f, req, t) \<in> set (queued g ?i)" "v = forward_to_backend backend req ?i"
        by auto
      then show ?thesis using gw_invD(4)[OF inv] by (fastforce simp: answer_of_def)
    qed
    show ?thesis
      unfolding step gw_inv_def
    proof (intro conjI allI impI)
      show "map fst as = [0..<gw_next_future ?g']" using gw_invD(1)[OF inv] by (simp add: process_frame)
      fix i
      show "length (rqu_requests (queue_of ?g' i)) = length (rqu_futures (queue_of ?g' i))"
        using gw_invD(2)[OF inv, of i] by (cases "i = ?i") (simp_all add: qo)
      have "0 < max_batch_size" by (simp add: max_batch_size_def)
      then show "length (rqu_requests (queue_of ?g' i)) \<le> count (mset (gw_tasks ?g')) i"
        using gw_invD(3)[OF inv, of i] False unfolding cnt same by (cases "i = ?i") (auto simp: qo)
      fix f r t assume "(f, r, t) \<in> set (queued ?g' i)"
      then have "(f, r, t) \<in> set (queued g i)" by (auto simp: qd dest: in_set_dropD split: if_splits)
      then show "(f, r) \<in> set as" "gq_route_id r = i" using gw_invD(4)[OF inv] by blast+
    next
      fix f v assume "map_of (gw_done ?g') f = Some v"
      then show "\<exists>req. (f, req) \<in> set as \<and> v = answer_of backend req"
        using ans gw_invD(5)[OF inv, of f v] by (auto simp: dn split: option.splits)
    next
      fix f r assume a: "(f, r) \<in> set as"
      show "map_of (gw_done ?g') f \<noteq> None \<or> (\<exists>t. (f, r, t) \<in> set (queued ?g' (gq_route_id r)))"
      proof (cases "map_of (gw_done g) f")
        case None
        then obtain t where t: "(f, r, t) \<in> set (queued g (gq_route_id r))" using gw_invD(6)[OF inv a] by blast
        show ?thesis
        proof (cases "(f, r, t) \<in> set (queued ?g' (gq_route_id r))")
          case gone: False
          then have "gq_route_id r = ?i" using t by (simp add: qd split: if_splits)
          moreover from this have "(f, r, t) \<in> set (take max_batch_size (queued g ?i))"
            using t gone by (metis append_take_drop_id in_set_conv_decomp qd set_append Un_iff)
          ultimately have "map_of (map (\<lambda>(f, req, t). (f, forward_to_backend backend req ?i))
              (take max_batch_size (queued g ?i))) f \<noteq> None"
            unfolding map_of_eq_None_iff by (auto simp: image_iff intro!: bexI[of _ "(f, r, t)"])
          then show ?thesis using None by (simp add: dn)
        qed blast
      qed (simp add: dn)
    qed
  qed
qed

lemma gw_run_Cons: "gw_run backend (ev # evs) g = gw_run backend evs (gw_step backend ev g)"
  by (simp add: gw_run_def)

lemma gw_run_inv:
  "gw_inv backend as g \<Longrightarrow> gw_inv backend (as @ accepted backend evs g) (gw_run backend evs g)"
proof (induction evs arbitrary: as g)
  case Nil
  then show ?case by (simp add: gw_run_def)
next
  case (Cons ev evs)
  show ?case
  proof (cases ev)
    case (Arrive now req tenant)
    from infer_endpoint_cases[of now req tenant g] show ?thesis
    proof (elim disjE exE conjE)
      fix rl rej e assume a: "infer_endpoint now req tenant g = (g\<lparr>gw_limiter := rl, gw_rejects := rej\<rparr>, Inl e)"
      show ?thesis
        using Cons.IH[OF arrive_refused[OF Cons.prems, where rl = rl and rej = rej]] a Arrive by (simp add: gw_run_Cons)
    next
      fix rl tot q
      assume a: "infer_endpoint now req tenant g =
        (g\<lparr>gw_limiter := rl, gw_req_total := tot, gw_queues := q, gw_next_future := Suc (gw_next_future g),
           gw_tasks := gw_tasks g @ [gq_route_id req]\<rparr>, Inr (gw_next_future g))"
        and q: "\<forall>i. dict_get q i \<lparr>rqu_requests = [], rqu_futures = []\<rparr> =
           (if i = gq_route_id req
            then (queue_of g i)\<lparr>rqu_requests := rqu_requests (queue_of g i) @ [(req, tenant)],
                                rqu_futures := rqu_futures (queue_of g i) @ [gw_next_future g]\<rparr>
            else queue_of g i)"
      show ?thesis
        using Cons.IH[OF arrive_accepted[OF Cons.prems refl, where q = q and req = req and tenant = tenant and rl = rl and tot = tot]] q a Arrive
        by (simp add: gw_run_Cons)
    qed
  next
    case (Run_Task n)
    have "gw_inv backend as (gw_step backend (Run_Task n) g)"
      using task_inv[OF Cons.prems] Cons.prems by (cases "n < length (gw_tasks g)") simp_all
    then show ?thesis using Cons.IH Run_Task by (simp add: gw_run_Cons)
  qed
qed

lemma run_tasks_out:
  "length (gw_tasks g) = n \<Longrightarrow> gw_tasks (gw_run backend (replicate n (Run_Task 0)) g) = []"
proof (induction n arbitrary: g)
  case 0
  then show ?case by (simp add: gw_run_def)
next
  case (Suc n)
  then have "length (gw_tasks (gw_step backend (Run_Task 0) g)) = n" by (simp add: process_frame)
  then show ?case using Suc.IH by (simp add: gw_run_Cons del: gw_step.simps)
qed

lemma accepted_tasks: "accepted backend (replicate n (Run_Task 0)) g = []"
  by (induction n arbitrary: g) simp_all

section \<open>Properties\<close>

text \<open>C16. The token bucket bounds the rate of every tenant: over any stretch of calls in order of
  time, after whatever calls before, a key is granted at most the capacity and what flows in
  during the stretch.\<close>

theorem tenant_rate_bounded:
  assumes "sorted (map fst (before @ win))" and "win \<noteq> []" and "0 \<le> capacity" and "0 \<le> rate"
  shows "of_nat (granted k win (limiter_after before (new_limiter capacity rate)))
    \<le> capacity + (fst (last win) - fst (hd win)) * rate"
proof -
  let ?rl = "limiter_after before (new_limiter capacity rate)"
  obtain t0 where t0: "sorted (t0 # map fst (before @ win))"
    using assms(1) by (cases "map fst (before @ win)") (auto intro: that[of "hd (map fst (before @ win))"])
  have "limiter_inv (last (t0 # map fst before)) ?rl \<and> rl_capacity ?rl = capacity \<and> rl_refill_rate ?rl = rate"
    using limiter_after_inv[OF limiter_inv_new[OF assms(3,4)], of t0 before] t0
    by (simp add: sorted_append new_limiter_def)
  moreover have "last (t0 # map fst before) \<le> fst (hd win)"
    using t0 assms(2) by (cases win; cases before rule: rev_cases) (auto simp: sorted_append)
  ultimately have inv: "limiter_inv (fst (hd win)) ?rl" and c: "rl_capacity ?rl = capacity" "rl_refill_rate ?rl = rate"
    using limiter_inv_later by blast+
  have s: "sorted (map fst win)" using assms(1) by (simp add: sorted_append)
  have "fst (hd win) \<le> fst w" if w: "w \<in> set win" for w using s w by (cases win) auto
  moreover have "fst w \<le> fst (last win)" if w: "w \<in> set win" for w
    using s w by (cases win rule: rev_cases) (auto simp: sorted_append)
  ultimately have "sorted (fst (hd win) # map fst win @ [fst (last win)])"
    using s hd_in_set[OF assms(2)] by (auto simp: sorted_append)
  then show ?thesis using granted_window[OF inv, of win "fst (last win)" k] c by simp
qed

lemma tenant_rate_bounded_witness:
  "of_nat (granted (JStr ''t'') [(0, JStr ''t''), (0, JStr ''t''), (0, JStr ''t''), (1, JStr ''t'')]
       (limiter_after [] (new_limiter 2 1))) \<le> (2 :: rat) + (1 - 0) * 1
   \<and> granted (JStr ''t'') [(0, JStr ''t''), (0, JStr ''t''), (0, JStr ''t''), (1, JStr ''t'')]
       (limiter_after [] (new_limiter 2 1)) = 3"
  using tenant_rate_bounded[of "[]" "[(0, JStr ''t''), (0, JStr ''t''), (0, JStr ''t''), (1, JStr ''t'')]" 2 1 "JStr ''t''"]
  by (simp add: limiter_after_def new_limiter_def consume_def Let_def has_key_def dict_get_def)

text \<open>C15. Every accepted request is answered, with the backend's reply to that very request under
  that very route: whatever arrived and whichever tasks ran before in whatever order, once the
  tasks that are left have run, every future the gateway handed out carries its answer.\<close>

theorem gateway_answers_every_request:
  assumes "g = gw_run backend evs (init_gateway rl)"
    and "(f, req) \<in> set (accepted backend evs (init_gateway rl))"
  shows "map_of (gw_done (gw_run backend (replicate (length (gw_tasks g)) (Run_Task 0)) g)) f
    = Some (forward_to_backend backend req (gq_route_id req))"
proof -
  let ?as = "accepted backend evs (init_gateway rl)"
  let ?g = "gw_run backend (replicate (length (gw_tasks g)) (Run_Task 0)) g"
  have "gw_inv backend ?as g" using gw_run_inv[OF gw_inv_init, of backend evs rl] assms(1) by simp
  from gw_run_inv[OF this, of "replicate (length (gw_tasks g)) (Run_Task 0)"]
  have inv: "gw_inv backend ?as ?g" by (simp add: accepted_tasks)
  have "queued ?g i = []" for i
    using gw_invD(3)[OF inv, of i] run_tasks_out[OF refl, where g = g and backend = backend] by (simp add: queued_def)
  then obtain v where v: "map_of (gw_done ?g) f = Some v" using gw_invD(6)[OF inv assms(2)] by auto
  obtain r where "(f, r) \<in> set ?as" "v = answer_of backend r" using gw_invD(5)[OF inv v] by blast
  then show ?thesis
    using asked_unique[OF gw_invD(1)[OF inv]] assms(2) v by (auto simp: answer_of_def)
qed

definition demo_request :: "string \<Rightarrow> gw_request" where
  "demo_request r = \<lparr>gq_route_id = r, gq_prompt = ''p'', gq_max_tokens = 3\<rparr>"

definition demo_events :: "gw_event list" where
  "demo_events = [Arrive 0 (demo_request ''a'') (JStr ''t''), Arrive 0 (demo_request ''b'') (JStr ''t''),
     Run_Task 1, Arrive 1 (demo_request ''a'') (JStr ''t'')]"

lemma gateway_answers_every_request_witness:
  "let g = gw_run None demo_events (init_gateway tenant_rate_limiter) in
   length (gw_tasks g) = 2 \<and> map_of (gw_done g) 2 = None
   \<and> map_of (gw_done (gw_run None (replicate (length (gw_tasks g)) (Run_Task 0)) g)) 2
       = Some (forward_to_backend None (demo_request ''a'') ''a'')"
proof -
  have "(2, demo_request ''a'') \<in> set (accepted None demo_events (init_gateway tenant_rate_limiter))"
    by code_simp
  from gateway_answers_every_request[OF refl this]
  have "map_of (gw_done (gw_run None (replicate (length (gw_tasks (gw_run None demo_events (init_gateway tenant_rate_limiter))))
      (Run_Task 0)) (gw_run None demo_events (init_gateway tenant_rate_limiter)))) 2
    = Some (forward_to_backend None (demo_request ''a'') ''a'')"
    by (simp add: demo_request_def)
  moreover have "length (gw_tasks (gw_run None demo_events (init_gateway tenant_rate_limiter))) = 2
      \<and> map_of (gw_done (gw_run None demo_events (init_gateway tenant_rate_limiter))) 2 = None"
    by code_simp
  ultimately show ?thesis by (simp add: Let_def)
qed

end
