(* ===== verification/Plugin_Scheduler.thy ===== *)
theory Plugin_Scheduler
  imports Prelude
begin

text \<open>
  The in-process vLLM plugin, first part (integrations/vllm_route_plugin): its metrics, the route id
  of a request, the scheduler patch and the hashing of cache blocks. vLLM itself is a parameter: the
  queue operations, the original scheduling function and the original hash functions. The loop that
  shelves requests runs on such a queue, so it is a partial function and its return is proved from
  the queue's first-in-first-out behaviour.
\<close>

section \<open>Metrics\<close>

record plugin_metrics =
  pm_request_count :: int
  pm_swap_count :: int
  pm_rollback_count :: int
  pm_forward_count :: int
  pm_mixed_batch_violation_count :: int
  pm_kv_collision_count :: int
  pm_route_counts :: "(string, int) dict"
  pm_request_routes :: "(string, string) dict"
  pm_active_route_id :: string
  pm_scheduler_queue_observations :: "(string, int) dict"

definition base_id :: string where
  "base_id = ''__base__''"

definition reset_metrics :: plugin_metrics where
  "reset_metrics =
     \<lparr>pm_request_count = 0, pm_swap_count = 0, pm_rollback_count = 0, pm_forward_count = 0,
      pm_mixed_batch_violation_count = 0, pm_kv_collision_count = 0, pm_route_counts = [],
      pm_request_routes = [], pm_active_route_id = base_id, pm_scheduler_queue_observations = []\<rparr>"

definition record_plugin_request :: "string \<Rightarrow> string option \<Rightarrow> plugin_metrics \<Rightarrow> plugin_metrics" where
  "record_plugin_request route_id request_id m =
     (let m1 = m\<lparr>pm_request_count := pm_request_count m + 1,
                 pm_route_counts := dict_set route_id (dict_get (pm_route_counts m) route_id 0 + 1)
                                      (pm_route_counts m)\<rparr>
      in case request_id of
           None \<Rightarrow> m1
         | Some r \<Rightarrow> m1\<lparr>pm_request_routes := dict_set r route_id (pm_request_routes m1)\<rparr>)"

definition get_route_for_request_id :: "string \<Rightarrow> plugin_metrics \<Rightarrow> string" where
  "get_route_for_request_id request_id m = dict_get (pm_request_routes m) request_id base_id"

definition record_forward :: "plugin_metrics \<Rightarrow> plugin_metrics" where
  "record_forward m = m\<lparr>pm_forward_count := pm_forward_count m + 1\<rparr>"

definition record_swap :: "plugin_metrics \<Rightarrow> plugin_metrics" where
  "record_swap m = m\<lparr>pm_swap_count := pm_swap_count m + 1\<rparr>"

definition record_rollback :: "plugin_metrics \<Rightarrow> plugin_metrics" where
  "record_rollback m = m\<lparr>pm_rollback_count := pm_rollback_count m + 1\<rparr>"

definition record_violation :: "plugin_metrics \<Rightarrow> plugin_metrics" where
  "record_violation m = m\<lparr>pm_mixed_batch_violation_count := pm_mixed_batch_violation_count m + 1\<rparr>"

definition record_queue_observation :: "string \<Rightarrow> plugin_metrics \<Rightarrow> plugin_metrics" where
  "record_queue_observation route_id m =
     m\<lparr>pm_scheduler_queue_observations :=
         dict_set route_id (dict_get (pm_scheduler_queue_observations m) route_id 0 + 1)
           (pm_scheduler_queue_observations m)\<rparr>"

definition set_active_route :: "string \<Rightarrow> plugin_metrics \<Rightarrow> plugin_metrics" where
  "set_active_route route_id m = m\<lparr>pm_active_route_id := (if route_id = [] then base_id else route_id)\<rparr>"

definition get_active_route :: "plugin_metrics \<Rightarrow> string" where
  "get_active_route m = pm_active_route_id m"

section \<open>The route of a request\<close>

text \<open>A request as vLLM holds it: its id and the attribute \<open>route_id\<close>, absent on objects that were
  not made by the patched constructor. \<open>vq_object\<close> is the identity of the object as text. The
  sampling parameters carry \<open>extra_args\<close> when that is a dictionary.\<close>

record vllm_request =
  vq_request_id :: "string option"
  vq_route_id :: "string option"
  vq_object :: string

type_synonym sampling = "(string, string) dict option"

definition extract_route_id_from_header :: "(string, string) dict \<Rightarrow> string option" where
  "extract_route_id_from_header headers = map_of headers ''X-Scalpel-Route-ID''"

text \<open>\<open>original_init\<close> makes the object; of the arguments only those that concern the route are
  listed: the keyword \<open>route_id\<close>, the keyword \<open>sampling_params\<close> and the positional arguments.\<close>

definition patched_request_init ::
    "vllm_request \<Rightarrow> string option \<Rightarrow> sampling option \<Rightarrow> sampling option list \<Rightarrow> plugin_metrics \<Rightarrow>
     plugin_metrics \<times> vllm_request" where
  "patched_request_init original kw_route_id kw_sampling args m =
     (let sampling_params = (if kw_sampling = None \<and> length args > 2 then args ! 2 else kw_sampling);
          route_id = (if kw_route_id = None
                      then (case sampling_params of Some (Some extra_args) \<Rightarrow> map_of extra_args ''route_id'' | _ \<Rightarrow> None)
                      else kw_route_id);
          route_id = (case route_id of None \<Rightarrow> base_id | Some r \<Rightarrow> r);
          self = original\<lparr>vq_route_id := Some route_id\<rparr>;
          actual_req_id = (case vq_request_id self of Some r \<Rightarrow> r | None \<Rightarrow> vq_object self)
      in (record_plugin_request route_id (Some actual_req_id) m, self))"

definition get_request_route_id :: "plugin_metrics \<Rightarrow> vllm_request \<Rightarrow> string" where
  "get_request_route_id m req =
     (case vq_route_id req of
        Some (c # cs) \<Rightarrow> c # cs
      | _ \<Rightarrow> (case vq_request_id req of
                Some request_id \<Rightarrow> get_route_for_request_id request_id m
              | None \<Rightarrow> base_id))"

section \<open>The scheduler patch\<close>

record 'q queue_api =
  qa_nonempty :: "'q \<Rightarrow> bool"
  qa_pop :: "'q \<Rightarrow> vllm_request \<times> 'q"
  qa_add :: "vllm_request \<Rightarrow> 'q \<Rightarrow> 'q"
  qa_prepend :: "vllm_request \<Rightarrow> 'q \<Rightarrow> 'q"
  qa_peek :: "'q \<Rightarrow> vllm_request option"

text \<open>The scheduler object; \<open>None\<close> is an attribute the scheduler does not have. \<open>so_reqs\<close> of an output
  are the requests of its three lists in order.\<close>

record 'q vllm_scheduler =
  vs_running :: "vllm_request list option"
  vs_waiting :: "'q option"
  vs_skipped_waiting :: "'q option"
  vs_active_route_id :: "string option"

record sched_output =
  so_new :: "vllm_request list option"
  so_resumed :: "vllm_request list option"
  so_running :: "vllm_request list option"
  so_active_route_id :: "string option"

definition iter_scheduled_reqs :: "sched_output \<Rightarrow> vllm_request list" where
  "iter_scheduled_reqs out =
     concat (map (\<lambda>items. case items of None \<Rightarrow> [] | Some xs \<Rightarrow> xs) [so_new out, so_resumed out, so_running out])"

definition patched_scheduler_init :: "'q vllm_scheduler \<Rightarrow> 'q vllm_scheduler" where
  "patched_scheduler_init original = original\<lparr>vs_active_route_id := None\<rparr>"

partial_function (option) pop_all ::
    "'q queue_api \<Rightarrow> (vllm_request \<Rightarrow> bool) \<Rightarrow> 'q \<Rightarrow> vllm_request list \<Rightarrow> vllm_request list \<Rightarrow>
     ('q \<times> vllm_request list \<times> vllm_request list) option" where
  "pop_all api matches queue matching non_matching =
     (if \<not> qa_nonempty api queue then Some (queue, matching, non_matching)
      else let (req, queue1) = qa_pop api queue
           in if matches req then pop_all api matches queue1 (matching @ [req]) non_matching
              else pop_all api matches queue1 matching (non_matching @ [req]))"

definition shelve_queue ::
    "'q queue_api \<Rightarrow> plugin_metrics \<Rightarrow> string \<Rightarrow> 'q \<Rightarrow> ('q \<times> vllm_request list) option" where
  "shelve_queue api m target_route queue =
     map_option (\<lambda>(queue1, matching, non_matching). (fold (qa_add api) matching queue1, non_matching))
       (pop_all api (\<lambda>req. get_request_route_id m req = target_route) queue [] [])"

definition restore_queue :: "'q queue_api \<Rightarrow> vllm_request list \<Rightarrow> 'q \<Rightarrow> 'q" where
  "restore_queue api shelved queue = foldl (\<lambda>q req. qa_prepend api req q) queue (rev shelved)"

text \<open>An attribute that is not there is skipped by \<open>hasattr\<close>.\<close>

definition shelve_attr ::
    "'q queue_api \<Rightarrow> plugin_metrics \<Rightarrow> string \<Rightarrow> 'q option \<Rightarrow> ('q option \<times> vllm_request list) option" where
  "shelve_attr api m target_route attr =
     (case attr of
        None \<Rightarrow> Some (None, [])
      | Some q \<Rightarrow> map_option (\<lambda>(q1, shelved). (Some q1, shelved)) (shelve_queue api m target_route q))"

definition target_route :: "'q queue_api \<Rightarrow> plugin_metrics \<Rightarrow> 'q vllm_scheduler \<Rightarrow> string" where
  "target_route api m self =
     (let target =
        (case vs_running self of
           Some (r # rs) \<Rightarrow> get_request_route_id m r
         | _ \<Rightarrow> (case vs_waiting self of
                   None \<Rightarrow> []
                 | Some q \<Rightarrow> if qa_nonempty api q
                             then (case qa_peek api q of Some req \<Rightarrow> get_request_route_id m req | None \<Rightarrow> [])
                             else []))
      in if target = [] then base_id else target)"

text \<open>The last part of the patch: the safety net and the new active route.\<close>

definition check_output ::
    "string \<Rightarrow> sched_output \<Rightarrow> 'q vllm_scheduler \<times> plugin_metrics \<Rightarrow>
     ('q vllm_scheduler \<times> plugin_metrics) \<times> sched_output option result" where
  "check_output target out st =
     (let routes = map (get_request_route_id (snd st)) (iter_scheduled_reqs out);
          unique_routes = remdups routes
      in if length unique_routes > 1
         then ((fst st, record_violation (snd st)),
               Inl (PyExc RuntimeErrorE ''CRITICAL: Unsafe mixed-route batch detected despite shelving!''))
         else let active_route = (case unique_routes of [] \<Rightarrow> target | r # _ \<Rightarrow> r)
              in (((fst st)\<lparr>vs_active_route_id := Some active_route\<rparr>, set_active_route active_route (snd st)),
                  Inr (Some (out\<lparr>so_active_route_id := Some active_route\<rparr>))))"

definition patched_schedule ::
    "'q queue_api \<Rightarrow> ('q vllm_scheduler \<Rightarrow> 'q vllm_scheduler \<times> sched_output option result) \<Rightarrow>
     'q vllm_scheduler \<times> plugin_metrics \<Rightarrow>
     (('q vllm_scheduler \<times> plugin_metrics) \<times> sched_output option result) option" where
  "patched_schedule api original_schedule st =
     (let self = fst st; m = snd st; target = target_route api m self
      in case shelve_attr api m target (vs_waiting self) of
           None \<Rightarrow> None
         | Some (waiting, shelved_waiting) \<Rightarrow>
             (case shelve_attr api m target (vs_skipped_waiting self) of
                None \<Rightarrow> None
              | Some (skipped, shelved_skipped) \<Rightarrow>
                  let (self1, r) = original_schedule (self\<lparr>vs_waiting := waiting, vs_skipped_waiting := skipped\<rparr>);
                      self2 = self1\<lparr>vs_waiting := map_option (restore_queue api shelved_waiting) (vs_waiting self1),
                                    vs_skipped_waiting :=
                                      map_option (restore_queue api shelved_skipped) (vs_skipped_waiting self1)\<rparr>
                  in Some (case r of
                             Inl e \<Rightarrow> ((self2, m), Inl e)
                           | Inr None \<Rightarrow> ((self2, m), Inr None)
                           | Inr (Some out) \<Rightarrow> check_output target out (self2, m))))"

section \<open>Hashing of cache blocks\<close>

text \<open>\<open>route_context\<close> is the module's thread-local object: its attribute \<open>active_route_id\<close>, if set.
  Extra keys are pairs of texts here.\<close>

definition patched_hash_block_tokens ::
    "('p \<Rightarrow> 'tok \<Rightarrow> (string \<times> string) list option \<Rightarrow> 'h) \<Rightarrow> string option \<Rightarrow> 'p \<Rightarrow> 'tok \<Rightarrow>
     (string \<times> string) list option \<Rightarrow> 'h" where
  "patched_hash_block_tokens original route_context parent toks extra_keys =
     (let active_route = (case route_context of None \<Rightarrow> base_id | Some r \<Rightarrow> r);
          keys = (case extra_keys of None \<Rightarrow> [] | Some ks \<Rightarrow> ks) @ [(''scalpel_route'', active_route)]
      in original parent toks (Some keys))"

text \<open>The update of a request's block hashes sets an attribute of a thread-local object of its own and
  then calls vLLM's update, which uses the patched hash function. The module's context is state.\<close>

definition patched_update_block_hashes ::
    "(('p \<Rightarrow> 'tok \<Rightarrow> (string \<times> string) list option \<Rightarrow> 'h) \<Rightarrow> vllm_request \<Rightarrow> 'r) \<Rightarrow>
     ('p \<Rightarrow> 'tok \<Rightarrow> (string \<times> string) list option \<Rightarrow> 'h) \<Rightarrow> vllm_request \<Rightarrow> string option \<Rightarrow> string option \<times> 'r" where
  "patched_update_block_hashes original_update original_hash self route_context =
     (let thread_local = Some (case vq_route_id self of None \<Rightarrow> base_id | Some r \<Rightarrow> r)
      in (route_context, original_update (patched_hash_block_tokens original_hash route_context) self))"

section \<open>Installing the patches\<close>

text \<open>Each patch is tried; a failure is logged and the next one follows.\<close>

datatype log_level = Log_Info | Log_Error

definition try_patch :: "string \<Rightarrow> string \<Rightarrow> unit result \<Rightarrow> (log_level \<times> string) list" where
  "try_patch success failure r =
     (case r of
        Inr _ \<Rightarrow> [(Log_Info, ''-> Patched '' @ success)]
      | Inl e \<Rightarrow> [(Log_Error, ''Failed to patch '' @ failure @ '': '' @ exc_msg e)])"

definition apply_all_patches ::
    "unit result \<Rightarrow> unit result \<Rightarrow> unit result \<Rightarrow> unit result \<Rightarrow> (log_level \<times> string) list" where
  "apply_all_patches metadata scheduler kv_cache model_runner =
     [(Log_Info, ''Applying Neural-Scalpel Route-Aware patches to vLLM...'')]
     @ try_patch ''vLLM Request for route_id injection.'' ''route metadata'' metadata
     @ try_patch ''vLLM Scheduler for Route-Homogeneous Batching.'' ''scheduler'' scheduler
     @ try_patch ''vLLM KV Cache hashing for route isolation.'' ''KV cache'' kv_cache
     @ try_patch ''vLLM GPUModelRunner for Hot-Swap / Rollback.'' ''model runner'' model_runner
     @ [(Log_Info, ''Neural-Scalpel patches applied successfully.'')]"

definition get_route_payload :: "string \<Rightarrow> string option result" where
  "get_route_payload route_id =
     (if route_id = base_id then Inr None
      else if route_id \<notin> {''sql-route'', ''alpaca-route''}
      then Inl (PyExc ValueErrorE (''Route '' @ route_id @ '' is unauthorized or revoked.''))
      else Inr (Some ''dummy_payload_bytes_or_tensor_dict''))"

section \<open>Shelving on a first-in-first-out queue\<close>

text \<open>What vLLM documents of its queue under the FCFS policy, for the list of its requests
  \<open>items\<close>.\<close>

definition fifo :: "'q queue_api \<Rightarrow> ('q \<Rightarrow> vllm_request list) \<Rightarrow> bool" where
  "fifo api items \<longleftrightarrow>
     (\<forall>q. qa_nonempty api q \<longleftrightarrow> items q \<noteq> [])
     \<and> (\<forall>q r rs. items q = r # rs \<longrightarrow>
          fst (qa_pop api q) = r \<and> items (snd (qa_pop api q)) = rs \<and> qa_peek api q = Some r)
     \<and> (\<forall>q r. items (qa_add api r q) = items q @ [r])
     \<and> (\<forall>q r. items (qa_prepend api r q) = r # items q)"

lemma pop_all_returns:
  assumes "fifo api items"
  shows "\<exists>q'. pop_all api P q ma nm = Some (q', ma @ filter P (items q), nm @ filter (\<lambda>r. \<not> P r) (items q))
    \<and> items q' = []"
proof (induction "items q" arbitrary: q ma nm)
  case Nil
  then have "\<not> qa_nonempty api q" using assms by (simp add: fifo_def)
  then show ?case using Nil by (simp add: pop_all.simps)
next
  case (Cons r rs)
  have "fst (qa_pop api q) = r \<and> items (snd (qa_pop api q)) = rs" "qa_nonempty api q"
    using assms Cons.hyps(2)[symmetric] by (simp_all add: fifo_def)
  then obtain q1 where q1: "qa_pop api q = (r, q1)" "items q1 = rs" "qa_nonempty api q"
    by (cases "qa_pop api q") simp
  have "pop_all api P q ma nm = (if P r then pop_all api P q1 (ma @ [r]) nm else pop_all api P q1 ma (nm @ [r]))"
    using q1 by (subst pop_all.simps) simp
  then show ?case
    using Cons.hyps(1)[OF q1(2)[symmetric], of "if P r then ma @ [r] else ma" "if P r then nm else nm @ [r]"]
      Cons.hyps(2)[symmetric] q1(2) by (cases "P r") simp_all
qed

lemma items_fold_add:
  assumes "fifo api items" shows "items (fold (qa_add api) rs q) = items q @ rs"
  using assms by (induction rs arbitrary: q) (simp_all add: fifo_def)

lemma items_restore:
  assumes "fifo api items" shows "items (restore_queue api rs q) = rs @ items q"
  using assms unfolding restore_queue_def by (induction rs arbitrary: q) (simp_all add: fifo_def)

lemma shelve_queue_returns:
  assumes "fifo api items"
  shows "\<exists>q'. shelve_queue api m target q
      = Some (q', filter (\<lambda>r. get_request_route_id m r \<noteq> target) (items q))
    \<and> items q' = filter (\<lambda>r. get_request_route_id m r = target) (items q)"
proof -
  obtain q1 where q1: "pop_all api (\<lambda>r. get_request_route_id m r = target) q [] [] =
      Some (q1, filter (\<lambda>r. get_request_route_id m r = target) (items q),
        filter (\<lambda>r. get_request_route_id m r \<noteq> target) (items q))" "items q1 = []"
    using pop_all_returns[OF assms, of "\<lambda>r. get_request_route_id m r = target" q "[]" "[]"] by auto
  then show ?thesis using items_fold_add[OF assms] by (simp add: shelve_queue_def)
qed

definition waiting_items :: "('q \<Rightarrow> vllm_request list) \<Rightarrow> 'q option \<Rightarrow> vllm_request list" where
  "waiting_items items attr = (case attr of None \<Rightarrow> [] | Some q \<Rightarrow> items q)"

lemma shelve_attr_returns:
  assumes "fifo api items"
  shows "\<exists>a. shelve_attr api m target attr
      = Some (a, filter (\<lambda>r. get_request_route_id m r \<noteq> target) (waiting_items items attr))
    \<and> (a = None \<longleftrightarrow> attr = None)
    \<and> waiting_items items a = filter (\<lambda>r. get_request_route_id m r = target) (waiting_items items attr)"
proof (cases attr)
  case (Some q)
  then show ?thesis
    using shelve_queue_returns[OF assms, of m target q] by (auto simp: shelve_attr_def waiting_items_def)
qed (simp add: shelve_attr_def waiting_items_def)

text \<open>The call of the original scheduler inside the patch, and what is made of its result.\<close>

definition shelved_for ::
    "'q queue_api \<Rightarrow> ('q \<Rightarrow> vllm_request list) \<Rightarrow> plugin_metrics \<Rightarrow> 'q vllm_scheduler \<Rightarrow> 'q vllm_scheduler \<Rightarrow> bool" where
  "shelved_for api items m self self0 \<longleftrightarrow>
     vs_running self0 = vs_running self
     \<and> (vs_waiting self0 = None \<longleftrightarrow> vs_waiting self = None)
     \<and> waiting_items items (vs_waiting self0)
         = filter (\<lambda>r. get_request_route_id m r = target_route api m self) (waiting_items items (vs_waiting self))
     \<and> waiting_items items (vs_skipped_waiting self0)
         = filter (\<lambda>r. get_request_route_id m r = target_route api m self)
             (waiting_items items (vs_skipped_waiting self))"

definition others ::
    "'q queue_api \<Rightarrow> plugin_metrics \<Rightarrow> 'q vllm_scheduler \<Rightarrow> vllm_request list \<Rightarrow> vllm_request list" where
  "others api m self rs = filter (\<lambda>r. get_request_route_id m r \<noteq> target_route api m self) rs"

lemma patched_schedule_returns:
  assumes "fifo api items"
  shows "\<exists>self0 self1 r self2. shelved_for api items m self self0 \<and> orig self0 = (self1, r)
    \<and> self2 = self1\<lparr>vs_waiting := map_option (restore_queue api (others api m self
                        (waiting_items items (vs_waiting self)))) (vs_waiting self1),
                    vs_skipped_waiting := map_option (restore_queue api (others api m self
                        (waiting_items items (vs_skipped_waiting self)))) (vs_skipped_waiting self1)\<rparr>
    \<and> patched_schedule api orig (self, m) = Some (case r of
          Inl e \<Rightarrow> ((self2, m), Inl e)
        | Inr None \<Rightarrow> ((self2, m), Inr None)
        | Inr (Some out) \<Rightarrow> check_output (target_route api m self) out (self2, m))"
proof -
  let ?t = "target_route api m self"
  obtain w where w: "shelve_attr api m ?t (vs_waiting self)
      = Some (w, others api m self (waiting_items items (vs_waiting self)))"
    "w = None \<longleftrightarrow> vs_waiting self = None"
    "waiting_items items w = filter (\<lambda>r. get_request_route_id m r = ?t) (waiting_items items (vs_waiting self))"
    using shelve_attr_returns[OF assms, of m ?t "vs_waiting self"] unfolding others_def
    by (elim exE conjE) (rule that, simp_all add: others_def)
  obtain k where k: "shelve_attr api m ?t (vs_skipped_waiting self)
      = Some (k, others api m self (waiting_items items (vs_skipped_waiting self)))"
    "k = None \<longleftrightarrow> vs_skipped_waiting self = None"
    "waiting_items items k
      = filter (\<lambda>r. get_request_route_id m r = ?t) (waiting_items items (vs_skipped_waiting self))"
    using shelve_attr_returns[OF assms, of m ?t "vs_skipped_waiting self"] unfolding others_def
    by (elim exE conjE) (rule that, simp_all add: others_def)
  let ?self0 = "self\<lparr>vs_waiting := w, vs_skipped_waiting := k\<rparr>"
  obtain self1 r where o: "orig ?self0 = (self1, r)" by fastforce
  define self2 where "self2 = self1\<lparr>vs_waiting := map_option (restore_queue api (others api m self
                        (waiting_items items (vs_waiting self)))) (vs_waiting self1),
                    vs_skipped_waiting := map_option (restore_queue api (others api m self
                        (waiting_items items (vs_skipped_waiting self)))) (vs_skipped_waiting self1)\<rparr>"
  have "patched_schedule api orig (self, m) = Some (case r of
          Inl e \<Rightarrow> ((self2, m), Inl e)
        | Inr None \<Rightarrow> ((self2, m), Inr None)
        | Inr (Some out) \<Rightarrow> check_output ?t out (self2, m))"
    by (simp only: patched_schedule_def Let_def fst_conv snd_conv w(1) k(1) option.case prod.case o self2_def)
  moreover have "shelved_for api items m self ?self0" using w(2,3) k(3) by (simp add: shelved_for_def)
  ultimately show ?thesis using o self2_def by blast
qed

section \<open>Batches of one route\<close>

text \<open>What is relied on of vLLM's scheduler: it schedules and keeps running only requests that ran or
  waited before, and it keeps its queue attributes.\<close>

definition scheduler_requests :: "('q \<Rightarrow> vllm_request list) \<Rightarrow> 'q vllm_scheduler \<Rightarrow> vllm_request set" where
  "scheduler_requests items s =
     set (case vs_running s of None \<Rightarrow> [] | Some rs \<Rightarrow> rs)
     \<union> set (waiting_items items (vs_waiting s)) \<union> set (waiting_items items (vs_skipped_waiting s))"

definition running :: "'q vllm_scheduler \<Rightarrow> vllm_request list" where
  "running s = (case vs_running s of None \<Rightarrow> [] | Some rs \<Rightarrow> rs)"

definition picks_known ::
    "('q \<Rightarrow> vllm_request list) \<Rightarrow> ('q vllm_scheduler \<Rightarrow> 'q vllm_scheduler \<times> sched_output option result) \<Rightarrow> bool" where
  "picks_known items orig \<longleftrightarrow>
     (\<forall>s. set (running (fst (orig s))) \<subseteq> scheduler_requests items s
       \<and> (vs_waiting (fst (orig s)) = None \<longleftrightarrow> vs_waiting s = None)
       \<and> (\<forall>out. snd (orig s) = Inr (Some out) \<longrightarrow> set (iter_scheduled_reqs out) \<subseteq> scheduler_requests items s))"

definition one_route :: "plugin_metrics \<Rightarrow> vllm_request list \<Rightarrow> bool" where
  "one_route m rs \<longleftrightarrow> (\<exists>i. i \<noteq> [] \<and> (\<forall>r\<in>set rs. get_request_route_id m r = i))"

lemma target_not_empty: "target_route api m self \<noteq> []"
  by (simp add: target_route_def Let_def base_id_def)

lemma target_of_running:
  assumes "one_route m (running self)" and "r \<in> set (running self)"
  shows "get_request_route_id m r = target_route api m self"
  using assms
  by (cases "vs_running self"; cases "the (vs_running self)")
    (auto simp: running_def one_route_def target_route_def Let_def)

lemma shelved_requests:
  assumes "shelved_for api items m self self0" "one_route m (running self)" "r \<in> scheduler_requests items self0"
  shows "get_request_route_id m r = target_route api m self"
  using assms target_of_running[OF assms(2), of r api]
  by (auto simp: shelved_for_def scheduler_requests_def running_def)

lemma check_output_uniform:
  assumes "\<forall>r\<in>set (iter_scheduled_reqs out). get_request_route_id (snd st) r = target" "target \<noteq> []"
  shows "check_output target out st =
    (((fst st)\<lparr>vs_active_route_id := Some target\<rparr>, set_active_route target (snd st)),
     Inr (Some (out\<lparr>so_active_route_id := Some target\<rparr>)))"
proof -
  let ?u = "remdups (map (get_request_route_id (snd st)) (iter_scheduled_reqs out))"
  have "set ?u \<subseteq> {target}" using assms(1) by auto
  then have "?u = [] \<or> ?u = [target]"
    by (cases ?u; cases "tl ?u") (auto dest: arg_cong[of _ _ distinct])
  then show ?thesis by (auto simp: check_output_def Let_def)
qed

lemma patched_schedule_step:
  assumes f: "fifo api items" and p: "picks_known items orig" and one: "one_route m (running self)"
  shows "\<exists>self' m' r. patched_schedule api orig (self, m) = Some ((self', m'), r)
    \<and> (\<forall>x\<in>set (running self'). get_request_route_id m x = target_route api m self)
    \<and> waiting_items items (vs_waiting self') = others api m self (waiting_items items (vs_waiting self))
        @ drop (length (others api m self (waiting_items items (vs_waiting self)))) (waiting_items items (vs_waiting self'))
    \<and> m' = (case r of Inr (Some _) \<Rightarrow> set_active_route (target_route api m self) m | _ \<Rightarrow> m)
    \<and> (\<forall>out. r = Inr (Some out) \<longrightarrow> so_active_route_id out = Some (target_route api m self)
         \<and> (\<forall>x\<in>set (iter_scheduled_reqs out). get_request_route_id m x = target_route api m self))"
proof -
  let ?t = "target_route api m self" and ?o = "others api m self (waiting_items items (vs_waiting self))"
  obtain self0 self1 r self2 where s0: "shelved_for api items m self self0" and o: "orig self0 = (self1, r)"
    and s2: "self2 = self1\<lparr>vs_waiting := map_option (restore_queue api ?o) (vs_waiting self1),
                    vs_skipped_waiting := map_option (restore_queue api (others api m self
                        (waiting_items items (vs_skipped_waiting self)))) (vs_skipped_waiting self1)\<rparr>"
    and run: "patched_schedule api orig (self, m) = Some (case r of
          Inl e \<Rightarrow> ((self2, m), Inl e)
        | Inr None \<Rightarrow> ((self2, m), Inr None)
        | Inr (Some out) \<Rightarrow> check_output ?t out (self2, m))"
    using patched_schedule_returns[OF f, of m self orig] by blast
  have known: "set (running self1) \<subseteq> scheduler_requests items self0"
      "\<And>out. r = Inr (Some out) \<Longrightarrow> set (iter_scheduled_reqs out) \<subseteq> scheduler_requests items self0"
    using p o unfolding picks_known_def by (metis fst_conv, metis snd_conv)
  have run2: "\<forall>x\<in>set (running self2). get_request_route_id m x = ?t"
    using known(1) shelved_requests[OF s0 one] by (auto simp: s2 running_def)
  have w2: "waiting_items items (vs_waiting self2) = ?o @ drop (length ?o) (waiting_items items (vs_waiting self2))"
  proof (cases "vs_waiting self1")
    case None
    then have "vs_waiting self = None"
      using p o s0 unfolding picks_known_def shelved_for_def by (metis fst_conv)
    then show ?thesis by (simp add: others_def waiting_items_def)
  next
    case (Some q)
    then show ?thesis by (simp add: s2 waiting_items_def items_restore[OF f])
  qed
  show ?thesis
  proof (cases r)
    case (Inl e)
    then show ?thesis using run run2 w2 by auto
  next
    case (Inr o1)
    show ?thesis
    proof (cases o1)
      case None
      then show ?thesis using Inr run run2 w2 by auto
    next
      case (Some out)
      then have outs: "\<forall>x\<in>set (iter_scheduled_reqs out). get_request_route_id m x = ?t"
        using known(2) Inr shelved_requests[OF s0 one] by blast
      then have "check_output ?t out (self2, m) = ((self2\<lparr>vs_active_route_id := Some ?t\<rparr>, set_active_route ?t m),
          Inr (Some (out\<lparr>so_active_route_id := Some ?t\<rparr>)))"
        using check_output_uniform[of out "(self2, m)" ?t, OF _ target_not_empty] by simp
      then show ?thesis using Inr Some run run2 w2 outs by (auto simp: running_def iter_scheduled_reqs_def)
    qed
  qed
qed

section \<open>Sequences of scheduling steps\<close>

text \<open>Between two calls of the scheduler vLLM may do what it likes with the queues and finish running
  requests; new requests may be registered, as long as the routes of running requests stay.\<close>

inductive vllm_reach ::
    "'q queue_api \<Rightarrow> ('q vllm_scheduler \<Rightarrow> 'q vllm_scheduler \<times> sched_output option result) \<Rightarrow>
     'q vllm_scheduler \<times> plugin_metrics \<Rightarrow> bool"
  for api orig where
  start: "running self = [] \<Longrightarrow> vllm_reach api orig (patched_scheduler_init self, m)"
| schedule: "vllm_reach api orig st \<Longrightarrow> patched_schedule api orig st = Some (st', r) \<Longrightarrow> vllm_reach api orig st'"
| change: "vllm_reach api orig (self, m) \<Longrightarrow> set (running self') \<subseteq> set (running self) \<Longrightarrow>
    (\<forall>r\<in>set (running self'). get_request_route_id m' r = get_request_route_id m r) \<Longrightarrow>
    vllm_reach api orig (self', m')"

lemma set_active_route_routes [simp]:
  "get_request_route_id (set_active_route i m) r = get_request_route_id m r"
  by (simp add: get_request_route_id_def get_route_for_request_id_def set_active_route_def split: option.split list.split)

lemma reach_one_route:
  assumes "vllm_reach api orig st" and f: "fifo api items" and p: "picks_known items orig"
  shows "one_route (snd st) (running (fst st))"
  using assms(1)
proof (induction rule: vllm_reach.induct)
  case (start self m)
  then show ?case by (auto simp: one_route_def running_def patched_scheduler_init_def)
next
  case (schedule st st' r)
  obtain self m where st: "st = (self, m)" by fastforce
  obtain self' m' where s: "st' = (self', m')" "\<forall>x\<in>set (running self'). get_request_route_id m x = target_route api m self"
    "m' = (case r of Inr (Some _) \<Rightarrow> set_active_route (target_route api m self) m | _ \<Rightarrow> m)"
    using patched_schedule_step[OF f p, of m self] schedule.IH schedule.hyps(2) by (auto simp: st)
  have "get_request_route_id m' x = get_request_route_id m x" for x
    by (simp add: s(3) split: sum.split option.split)
  then show ?case using s(1,2) target_not_empty by (fastforce simp: one_route_def)
next
  case (change self m self' m')
  then show ?case by (fastforce simp: one_route_def)
qed

section \<open>A sample scheduler for the witnesses\<close>

text \<open>The queue is a list; the scheduler starts the first two waiting requests, appended to those
  that run, and outputs all of them.\<close>

definition list_api :: "vllm_request list queue_api" where
  "list_api = \<lparr>qa_nonempty = (\<lambda>q. q \<noteq> []), qa_pop = (\<lambda>q. (hd q, tl q)), qa_add = (\<lambda>r q. q @ [r]),
     qa_prepend = (\<lambda>r q. r # q), qa_peek = (\<lambda>q. case q of [] \<Rightarrow> None | r # _ \<Rightarrow> Some r)\<rparr>"

lemma list_api_fifo: "fifo list_api (\<lambda>q. q)"
  by (simp add: fifo_def list_api_def)

definition sample_schedule ::
    "vllm_request list vllm_scheduler \<Rightarrow> vllm_request list vllm_scheduler \<times> sched_output option result" where
  "sample_schedule s =
     (let w = waiting_items (\<lambda>q. q) (vs_waiting s); new = take 2 w
      in (s\<lparr>vs_running := Some (running s @ new), vs_waiting := map_option (drop 2) (vs_waiting s)\<rparr>,
          Inr (Some \<lparr>so_new = Some new, so_resumed = None, so_running = Some (running s), so_active_route_id = None\<rparr>)))"

lemma sample_schedule_known: "picks_known (\<lambda>q. q) sample_schedule"
  by (auto simp: picks_known_def sample_schedule_def Let_def running_def waiting_items_def
      scheduler_requests_def iter_scheduled_reqs_def dest: in_set_takeD split: option.splits)

definition sample_request :: "string \<Rightarrow> string \<Rightarrow> vllm_request" where
  "sample_request i r = \<lparr>vq_request_id = Some i, vq_route_id = Some r, vq_object = i\<rparr>"

definition sample_scheduler :: "vllm_request list \<Rightarrow> vllm_request list vllm_scheduler" where
  "sample_scheduler w = \<lparr>vs_running = Some [], vs_waiting = Some w, vs_skipped_waiting = Some [], vs_active_route_id = None\<rparr>"

definition mixed_queue :: "vllm_request list" where
  "mixed_queue = [sample_request ''1'' ''a'', sample_request ''2'' ''b'', sample_request ''3'' ''a'',
                  sample_request ''4'' ''b'']"

lemma patched_schedule_list:
  "patched_schedule list_api orig (self, m) =
     (let t = target_route list_api m self; P = (\<lambda>r. get_request_route_id m r = t);
          sh = (\<lambda>a. map_option (filter P) a); ot = (\<lambda>a. filter (\<lambda>r. \<not> P r) (waiting_items (\<lambda>q. q) a));
          (self1, r) = orig (self\<lparr>vs_waiting := sh (vs_waiting self), vs_skipped_waiting := sh (vs_skipped_waiting self)\<rparr>);
          self2 = self1\<lparr>vs_waiting := map_option (append (ot (vs_waiting self))) (vs_waiting self1),
                        vs_skipped_waiting := map_option (append (ot (vs_skipped_waiting self))) (vs_skipped_waiting self1)\<rparr>
      in Some (case r of
                 Inl e \<Rightarrow> ((self2, m), Inl e)
               | Inr None \<Rightarrow> ((self2, m), Inr None)
               | Inr (Some out) \<Rightarrow> check_output t out (self2, m)))"
proof -
  have q: "shelve_queue list_api m t q = Some (filter (\<lambda>r. get_request_route_id m r = t) q,
      filter (\<lambda>r. get_request_route_id m r \<noteq> t) q)" for t q
    using shelve_queue_returns[OF list_api_fifo, of m t q] by auto
  have a: "shelve_attr list_api m t a = Some (map_option (filter (\<lambda>r. get_request_route_id m r = t)) a,
      filter (\<lambda>r. get_request_route_id m r \<noteq> t) (waiting_items (\<lambda>q. q) a))" for t a
    by (simp add: shelve_attr_def waiting_items_def q split: option.split)
  have r: "restore_queue list_api rs = append rs" for rs
    using items_restore[OF list_api_fifo] by (simp add: fun_eq_iff)
  show ?thesis by (simp only: patched_schedule_def Let_def fst_conv snd_conv a r option.case prod.case)
qed

lemma target_route_list:
  "target_route list_api m self =
     (let t = (case running self @ waiting_items (\<lambda>q. q) (vs_waiting self) of
                 [] \<Rightarrow> [] | r # _ \<Rightarrow> get_request_route_id m r)
      in if t = [] then base_id else t)"
  by (auto simp: target_route_def list_api_def running_def waiting_items_def Let_def split: option.splits list.splits)

lemmas sample_schedule_run =
  patched_schedule_list Let_def sample_scheduler_def mixed_queue_def sample_request_def sample_schedule_def
  target_route_list get_request_route_id_def running_def waiting_items_def check_output_def
  iter_scheduled_reqs_def set_active_route_def reset_metrics_def base_id_def

section \<open>Properties\<close>



text \<open>A request with an empty route id, which a client can send in \<open>extra_args\<close>, blocks every
  routed request behind it: while it is at the front of the waiting queue and only base requests
  run, a call schedules base requests only, and afterwards it is at the front again and only base
  requests run, so the next call is in the same position.\<close>

theorem empty_route_blocks_queue:
  assumes f: "fifo api items" and p: "picks_known items orig"
    and front: "waiting_items items (vs_waiting self) = r0 # rest" "get_request_route_id m r0 = []"
    and base: "\<forall>x\<in>set (running self). get_request_route_id m x = base_id"
    and run: "patched_schedule api orig (self, m) = Some ((self', m'), r)"
  shows "(\<exists>rest'. waiting_items items (vs_waiting self') = r0 # rest')
    \<and> (\<forall>x\<in>set (running self'). get_request_route_id m x = base_id)
    \<and> (\<forall>out. r = Inr (Some out) \<longrightarrow> (\<forall>x\<in>set (iter_scheduled_reqs out). get_request_route_id m x = base_id))"
proof -
  have one: "one_route m (running self)" using base by (auto simp: one_route_def base_id_def)
  obtain q where q: "vs_waiting self = Some q" "items q = r0 # rest"
    using front(1) by (cases "vs_waiting self") (simp_all add: waiting_items_def)
  have peek: "qa_nonempty api q" "qa_peek api q = Some r0" using f q(2) by (simp_all add: fifo_def)
  have t: "target_route api m self = base_id"
    using base front(2) q(1) peek by (auto simp: target_route_def Let_def running_def split: option.splits list.splits)
  have "others api m self (waiting_items items (vs_waiting self)) = r0 # others api m self rest"
    using front by (simp add: others_def t base_id_def)
  then show ?thesis using patched_schedule_step[OF f p one] run t by auto
qed

lemma empty_route_blocks_queue_witness:
  "\<exists>self' m' out rest'. patched_schedule list_api sample_schedule
       (sample_scheduler (sample_request ''0'' [] # mixed_queue), reset_metrics\<lparr>pm_request_routes := [(''0'', [])]\<rparr>)
     = Some ((self', m'), Inr (Some out))
   \<and> iter_scheduled_reqs out = [] \<and> waiting_items (\<lambda>q. q) (vs_waiting self') = sample_request ''0'' [] # rest'"
proof -
  let ?m = "reset_metrics\<lparr>pm_request_routes := [(''0'', [])]\<rparr>"
  let ?s = "sample_scheduler (sample_request ''0'' [] # mixed_queue)"
  obtain self' m' out where run: "patched_schedule list_api sample_schedule (?s, ?m) = Some ((self', m'), Inr (Some out))"
      "iter_scheduled_reqs out = []"
    by (simp add: sample_schedule_run get_route_for_request_id_def dict_get_def)
  have "get_request_route_id ?m (sample_request ''0'' []) = []"
    by (simp add: get_request_route_id_def sample_request_def get_route_for_request_id_def dict_get_def)
  moreover have "waiting_items (\<lambda>q. q) (vs_waiting ?s) = sample_request ''0'' [] # mixed_queue"
      "\<forall>x\<in>set (running ?s). get_request_route_id ?m x = base_id"
    by (simp_all add: waiting_items_def sample_scheduler_def running_def)
  ultimately have "\<exists>rest'. waiting_items (\<lambda>q. q) (vs_waiting self') = sample_request ''0'' [] # rest'"
    using empty_route_blocks_queue[OF list_api_fifo sample_schedule_known _ _ _ run(1)] by blast
  then show ?thesis using run by blast
qed

text \<open>The block hashes ignore the route. The update of a request's hashes never sets the module's
  thread-local context, so after any number of updates, of requests of whatever routes, the hash
  function still tags every block with the base route: equal tokens of different routes get the
  same hash.\<close>

theorem kv_hash_ignores_route:
  "foldl (\<lambda>ctx req. fst (patched_update_block_hashes upd h req ctx)) None reqs = None
   \<and> patched_hash_block_tokens h (foldl (\<lambda>ctx req. fst (patched_update_block_hashes upd h req ctx)) None reqs) p toks ks
       = h p toks (Some ((case ks of None \<Rightarrow> [] | Some k \<Rightarrow> k) @ [(''scalpel_route'', base_id)]))"
proof -
  have "foldl (\<lambda>ctx req. fst (patched_update_block_hashes upd h req ctx)) ctx reqs = ctx" for ctx
    by (induction reqs) (simp_all add: patched_update_block_hashes_def)
  then show ?thesis by (simp add: patched_hash_block_tokens_def)
qed

end
