(* ===== verification/Plugin_Runtime.thy ===== *)
theory Plugin_Runtime
  imports Hot_Swap_Properties Plugin_Scheduler
begin

text \<open>
  The in-process vLLM plugin, second part (integrations/vllm_route_plugin): the global registry and
  runtime (runtime_context.py) and the hook around vLLM's forward pass (model_runner_hook.py) on top of
  the hot-swap runtime. The registry object is shared: once the runtime exists it is the runtime's
  registry. Printing is left out.
\<close>

section \<open>Global context\<close>

record 't plugin_globals =
  gb_runtime :: "'t runtime option"
  gb_registry :: "registry option"
  gb_audit_logger :: bool

definition init_globals :: "'t plugin_globals" where
  "init_globals = \<lparr>gb_runtime = None, gb_registry = None, gb_audit_logger = False\<rparr>"

text \<open>The storage directory, if it exists, as its files in order with what parsing each gives, and the
  environment variable with the hash of the model.\<close>

record plugin_env =
  pe_storage :: "(string \<times> json result) list option"
  pe_runtime_hash :: "string option"

text \<open>One file of the auto-load. A route id that is no text is left out: no lookup by text finds it.\<close>

definition autoload_file :: "string \<times> json result \<Rightarrow> registry \<Rightarrow> registry" where
  "autoload_file file reg =
     (if \<not> ends_with (fst file) ''.scalpel_route'' then reg
      else case snd file of
             Inr (JObj data) \<Rightarrow>
               (case map_of data ''route_id'' of
                  Some (JStr rid) \<Rightarrow>
                    if rid = [] then reg
                    else reg\<lparr>reg_routes := dict_set rid data (reg_routes reg),
                             reg_statuses := dict_set rid PRODUCTION (reg_statuses reg)\<rparr>
                | _ \<Rightarrow> reg)
           | _ \<Rightarrow> reg)"

definition get_vllm_registry :: "plugin_env \<Rightarrow> 't plugin_globals \<Rightarrow> 't plugin_globals \<times> registry" where
  "get_vllm_registry penv gb =
     (case gb_runtime gb of
        Some rt \<Rightarrow> (gb, rt_registry rt)
      | None \<Rightarrow>
          (case gb_registry gb of
             Some reg \<Rightarrow> (gb, reg)
           | None \<Rightarrow>
               let reg = (case pe_storage penv of None \<Rightarrow> empty_registry | Some files \<Rightarrow> fold autoload_file files empty_registry)
               in (gb\<lparr>gb_registry := Some reg\<rparr>, reg)))"

text \<open>\<open>model\<close> is \<open>None\<close> or a model, given by its state dictionary if it has one, with its weights in
  \<open>mem\<close>.\<close>

definition get_vllm_runtime ::
    "plugin_env \<Rightarrow> (string, nat) dict option option \<Rightarrow> (nat \<Rightarrow> 't) \<Rightarrow> 't plugin_globals \<Rightarrow>
     't plugin_globals \<times> 't runtime result" where
  "get_vllm_runtime penv model mem gb =
     (case model of
        None \<Rightarrow> (gb, Inl (PyExc ValueErrorE ''get_vllm_runtime requires a real model instance.''))
      | Some target_model \<Rightarrow>
          let gb1 = gb\<lparr>gb_audit_logger := True\<rparr>
          in case gb_runtime gb1 of
               Some rt \<Rightarrow> (gb1, Inr rt)
             | None \<Rightarrow>
                 let runtime_hash = (case pe_runtime_hash penv of None \<Rightarrow> ''qwen2.5-0.5b-vllm-hash'' | Some h \<Rightarrow> h);
                     (gb2, reg) = get_vllm_registry penv gb1;
                     rt = init_runtime target_model mem reg runtime_hash True None (2 * 1024 * 1024 * 1024)
                 in (gb2\<lparr>gb_runtime := Some rt\<rparr>, Inr rt))"

definition get_current_vllm_runtime :: "'t plugin_globals \<Rightarrow> 't runtime option" where
  "get_current_vllm_runtime gb = gb_runtime gb"

section \<open>The hook around the forward pass\<close>

record 't plugin =
  pl_metrics :: plugin_metrics
  pl_globals :: "'t plugin_globals"

definition vllm_tenant :: string where
  "vllm_tenant = ''vllm-tenant''"

text \<open>\<open>forward\<close> is vLLM's own \<open>_model_forward\<close> on the current weights; \<open>args_id\<close> the identity of its
  arguments as text.\<close>

definition forward_pass ::
    "'t runtime_env \<Rightarrow> string \<Rightarrow> string \<Rightarrow> ((nat \<Rightarrow> 't) \<Rightarrow> 'o result) \<Rightarrow> ('t runtime, 'o) act" where
  "forward_pass env route_id args_id forward =
     catchS (bindS (ensure_route env route_id vllm_tenant (''vllm-req-'' @ args_id)) (\<lambda>_ s. (s, forward (rt_mem s))))
       (\<lambda>e. bindS (clear_active_route env) (\<lambda>_. liftS (Inl e)))"

definition patched_model_forward ::
    "plugin_env \<Rightarrow> 't runtime_env \<Rightarrow> (string, nat) dict option option \<Rightarrow> (nat \<Rightarrow> 't) \<Rightarrow> string \<Rightarrow>
     ((nat \<Rightarrow> 't) \<Rightarrow> 'o result) \<Rightarrow> ('t plugin, 'o) act" where
  "patched_model_forward penv env model mem args_id forward self =
     (let m = record_forward (pl_metrics self); route_id = get_active_route m
      in case get_vllm_runtime penv model mem (pl_globals self) of
           (gb, Inl e) \<Rightarrow> (\<lparr>pl_metrics = m, pl_globals = gb\<rparr>, Inl e)
         | (gb, Inr rt) \<Rightarrow>
             let (rt1, r) = forward_pass env route_id args_id forward rt
             in (\<lparr>pl_metrics = m, pl_globals = gb\<lparr>gb_runtime := Some rt1\<rparr>\<rparr>, r))"

section \<open>The cache of validated deltas\<close>

lemma frame_cache:
  "rt_cache (log_event r t i ev st l x s) = rt_cache s" "rt_cache (set_timing env k s) = rt_cache s"
  "rt_cache (write_audit_event env ev i s) = rt_cache s" "rt_cache (force_phase p s) = rt_cache s"
  "rt_cache (clear_snapshots s) = rt_cache s" "rt_cache (write_mem a v s) = rt_cache s"
  by (simp_all add: log_event_def set_timing_def write_audit_event_def force_phase_def clear_snapshots_def write_mem_def)

lemma cache_transition: "rt_cache (fst (rt_transition env r i p s)) = rt_cache s"
  by (simp add: rt_transition_def split: sum.split)

lemma cache_transition_or_force: "rt_cache (transition_or_force env p s) = rt_cache s"
  using cache_transition[of env "[]" "[]" p s]
  by (auto simp: transition_or_force_def frame_cache split: prod.split sum.split)

lemma cache_verdict: "rt_cache (fst (apply_verdict env v i r t s)) = rt_cache s"
  using cache_transition[of env "fv_message v" "[]" WORKER_QUARANTINED s]
    cache_transition[of env "fv_message v" "[]" ROUTE_QUARANTINED]
  by (auto simp: apply_verdict_def frame_cache Let_def split: prod.split sum.split)

lemma capture_keeps_cache: "keeps (\<lambda>s. rt_cache s = c) (capture_snapshot env d)"
proof (rule keepsI)
  fix s s' q assume m: "rt_cache s = c" and run: "capture_snapshot env d s = (s', q)"
  have layer: "keeps (\<lambda>s. rt_cache s = c) (capture_layer env state l)" for state l
    by (rule keepsI, drule capture_layer_cases) (auto simp: Let_def)
  have loop: "keeps (\<lambda>s. rt_cache s = c) (forS (capture_layer env state) ls)" for state ls
    by (rule keeps_forS) (rule layer)
  have "rt_cache (clear_snapshots s) = c" using m by (simp add: frame_cache)
  then show "rt_cache s' = c"
    using m run keepsD[OF loop]
    by (auto simp: capture_snapshot_def bindS_def modS_def liftS_def
        split: option.splits sum.splits if_splits)
qed

lemma swap_keeps_cache: "keeps (\<lambda>s. rt_cache s = c) (apply_swap env d ds)"
proof (rule keepsI)
  fix s s' q assume m: "rt_cache s = c" and run: "apply_swap env d ds s = (s', q)"
  have loop: "keeps (\<lambda>s. rt_cache s = c) (forS (swap_layer env state d ds') ls)" for state ds' ls
    by (rule keeps_forS, rule keepsI, drule swap_layer_cases) (auto simp: frame_cache)
  then show "rt_cache s' = c"
    using m run keepsD[OF loop]
    by (auto simp: apply_swap_def bindS_def liftS_def split: option.splits sum.splits if_splits)
qed

lemma rollback_keeps_cache: "rt_cache (fst (perform_rollback env r t i s)) = rt_cache s"
proof -
  define s1 where "s1 = log_event r t i ''rollback_started'' ''pending'' 0 [] (transition_or_force env ROLLING_BACK s)"
  obtain s2 q where roll: "rollback env s1 = (s2, q)" by fastforce
  have c2: "rt_cache s2 = rt_cache s"
    using rollback_only_mem[OF roll] by (auto simp: s1_def frame_cache cache_transition_or_force)
  have v: "rt_cache (fst (bindS (apply_verdict env w i r t) (\<lambda>_. modS (log_event r t i ev st l x)) u)) = rt_cache u"
    for w ev st l x u
    using cache_verdict[of env w i r t u]
    by (auto simp: bindS_def modS_def frame_cache split: prod.split sum.split)
  show ?thesis
    using c2 roll
    by (auto simp: perform_rollback_def Let_def s1_def[symmetric] frame_cache v cache_transition_or_force
        split: prod.split sum.split bool.split)
qed

lemma cycle_keeps_cache: "keeps (\<lambda>s. rt_cache s = c) (ensure_cycle env r t i d ds)"
  unfolding ensure_cycle_def
  by (intro keeps_bindS keeps_liftS capture_keeps_cache swap_keeps_cache)
    (auto simp: keeps_def modS_def cache_transition frame_cache)

lemma locked_keeps_cache: "keeps (\<lambda>s. rt_cache s = c) (ensure_locked env r t i d ds)"
  unfolding ensure_locked_def
  by (intro keeps_catchS keeps_bindS keeps_liftS cycle_keeps_cache)
    (auto simp: keeps_def modS_def rollback_keeps_cache frame_cache)

lemma leave_keeps_cache: "rt_cache (fst (leave_route env r t s)) = rt_cache s"
  using rollback_keeps_cache[of env r t "rt_active s" s]
  by (auto simp: leave_route_def bindS_def modS_def split: prod.split sum.split)

lemma clear_keeps_cache: "rt_cache (fst (clear_active_route env s)) = rt_cache s"
  using rollback_keeps_cache[of env "''cleanup''" "''system''" "rt_active s" s]
  by (auto simp: clear_active_route_def bindS_def modS_def liftS_def split: prod.split sum.split)

section \<open>What is loaded after a swap\<close>

lemma ensure_cycle_swaps:
  assumes "ensure_cycle env r t i d ds s = (s', Inr b)"
  shows "\<exists>u v. rt_mem u = rt_mem s \<and> apply_swap env d ds u = (v, Inr ()) \<and> rt_mem s' = rt_mem v
           \<and> rt_phase s = READY"
proof -
  obtain s1 s2 s3 s4 s5 s6 x y z where
      t1: "rt_transition env [] i VERIFYING s = (s1, Inr x)"
    and cap: "capture_snapshot env d s1 = (s2, Inr y)"
    and t2: "rt_transition env [] [] SNAPSHOT_CAPTURED s2 = (s3, Inr z)"
    and t3: "rt_transition env [] [] SWAPPING s3 = (s4, Inr ())"
    and sw: "apply_swap env d ds s4 = (s5, Inr ())"
    and t4: "rt_transition env [] [] SWAPPED s5 = (s6, Inr ())"
    and s': "s' = write_audit_event env ''swap_completed'' i
        (log_event r t i ''swap_completed'' ''success'' (te_dur env ''swap'' * 1000) []
          (s6\<lparr>rt_active := i, rt_swaps := rt_swaps s6 + 1\<rparr>))"
    using assms by (auto simp: ensure_cycle_def bindS_Inr modS_def liftS_def)
  have tr: "rt_mem b = rt_mem a" if "rt_transition env r' i' p a = (b, Inr u)" for r' i' p a b u
    by (rule core_mem) (use rt_transition_Inr[OF that] in simp)
  have "rt_mem s4 = rt_mem s"
    using keepsD[OF capture_keeps_mem _ cap] tr[OF t1] tr[OF t2] tr[OF t3] by metis
  moreover have "rt_mem s' = rt_mem s5"
    using tr[OF t4] by (simp add: s' write_audit_event_def log_event_def)
  moreover have "rt_phase s = READY"
    using rt_transition_Inr[OF t1] by (cases "rt_phase s") auto
  ultimately show ?thesis using sw by metis
qed

text \<open>A route whose deltas were validated under a registry of the history \<open>H\<close>, and weights that are the
  base weights with such deltas of a manifest of the route added.\<close>

definition validated_for :: "registry set \<Rightarrow> string \<Rightarrow> (string, 't) dict \<Rightarrow> bool" where
  "validated_for H i ds \<longleftrightarrow>
     (\<exists>reg\<in>H. \<exists>h d penv dir mx. get_verified_route reg i h vllm_tenant = Inr d
        \<and> validate_payload penv d dir mx = Inr ds)"

definition loaded_from :: "('t \<Rightarrow> string) \<Rightarrow> (nat \<Rightarrow> 't) \<Rightarrow> registry set \<Rightarrow> string \<Rightarrow> (nat \<Rightarrow> 't) \<Rightarrow> bool" where
  "loaded_from dg base H i m \<longleftrightarrow>
     (\<exists>env d ds u v. \<exists>reg\<in>H. \<exists>h. te_digest env = dg \<and> get_verified_route reg i h vllm_tenant = Inr d
        \<and> validated_for H i ds \<and> (\<forall>a. dg (rt_mem u a) = dg (base a))
        \<and> apply_swap env d ds u = (v, Inr ()) \<and> m = rt_mem v)"

definition plugin_safe ::
    "('t \<Rightarrow> string) \<Rightarrow> (nat \<Rightarrow> 't) \<Rightarrow> (string, nat) dict \<Rightarrow> registry set \<Rightarrow> 't runtime \<Rightarrow> bool" where
  "plugin_safe dg base state H s \<longleftrightarrow>
     safe dg base state s
     \<and> (rt_active s = base_route \<longrightarrow> rt_phase s \<in> settled)
     \<and> (rt_active s \<noteq> base_route \<longrightarrow> rt_phase s = SWAPPED \<and> loaded_from dg base H (rt_active s) (rt_mem s))
     \<and> (\<forall>i ds. map_of (rt_cache s) i = Some ds \<longrightarrow> validated_for H i ds)"

lemma validated_for_mono: "H \<subseteq> H' \<Longrightarrow> validated_for H i ds \<Longrightarrow> validated_for H' i ds"
  unfolding validated_for_def by blast

lemma loaded_from_mono: "H \<subseteq> H' \<Longrightarrow> loaded_from dg base H i m \<Longrightarrow> loaded_from dg base H' i m"
  unfolding loaded_from_def using validated_for_mono by blast

lemma plugin_safe_mono: "H \<subseteq> H' \<Longrightarrow> plugin_safe dg base state H s \<Longrightarrow> plugin_safe dg base state H' s"
  unfolding plugin_safe_def using loaded_from_mono validated_for_mono by blast

lemma clear_plugin_safe:
  assumes "plugin_safe dg base state H s" "te_digest env = dg"
  shows "plugin_safe dg base state H (fst (clear_active_route env s))
    \<and> snd (clear_active_route env s) = Inr (rt_active s \<noteq> base_route)"
proof (cases "rt_active s = base_route")
  case True
  then show ?thesis using assms by (simp add: clear_active_route_def)
next
  case False
  have inv: "safe dg base state s" using assms(1) by (simp add: plugin_safe_def)
  obtain s1 where s1: "perform_rollback env ''cleanup'' ''system'' (rt_active s) s = (s1, Inr ())"
    "rt_phase s1 \<in> settled"
    using perform_rollback_settles[OF _ assms(2)] inv unfolding safe_def by blast
  have c: "clear_active_route env s = (s1\<lparr>rt_active := base_route\<rparr>, Inr True)"
    using s1(1) False by (simp add: clear_active_route_def bindS_def modS_def liftS_def)
  have "rt_cache s1 = rt_cache s" using rollback_keeps_cache[of env "''cleanup''" "''system''" "rt_active s" s] s1(1) by simp
  then show ?thesis
    using clear_active_route_safe[OF inv assms(2)] c s1(2) assms(1) by (simp add: plugin_safe_def)
qed

lemma cached_deltas_valid:
  assumes run: "cached_deltas env r t i d s = (s', Inr ds)"
    and c: "\<forall>i ds. map_of (rt_cache s) i = Some ds \<longrightarrow> validated_for H i ds"
    and v: "get_verified_route reg i h vllm_tenant = Inr d" "reg \<in> H"
  shows "validated_for H i ds \<and> (\<forall>i ds. map_of (rt_cache s') i = Some ds \<longrightarrow> validated_for H i ds)"
proof (cases "map_of (rt_cache s) i")
  case None
  then have "validate_payload (te_payload env) d (rt_base_dir s) (rt_max_bytes s) = Inr ds"
      "rt_cache s' = dict_set i ds (rt_cache s)"
    using run by (auto simp: cached_deltas_def frame_cache split: sum.splits)
  moreover from this have "validated_for H i ds" using v unfolding validated_for_def by blast
  ultimately show ?thesis using c by (auto split: if_splits)
next
  case (Some ds')
  then show ?thesis using run c by (simp add: cached_deltas_def)
qed

lemma cached_deltas_error:
  assumes "cached_deltas env r t i d s = (s', Inl e)" shows "s' = s"
  using assms by (auto simp: cached_deltas_def split: option.splits sum.splits)

lemma plugin_safe_frame:
  assumes "plugin_safe dg base state H s" and "core s' = core s" "rt_sm s' = rt_sm s" "rt_active s' = rt_active s"
    and "\<forall>i ds. map_of (rt_cache s') i = Some ds \<longrightarrow> validated_for H i ds"
  shows "plugin_safe dg base state H s'"
  using assms quiet_step(1)[of dg base state s s'] core_mem[OF assms(2)] by (simp add: plugin_safe_def)

lemma leave_plugin_safe:
  assumes inv: "plugin_safe dg base state H s" and dg: "te_digest env = dg"
  shows "\<exists>s1. leave_route env r t s = (s1, Inr ()) \<and> plugin_safe dg base state H s1
    \<and> rt_active s1 = base_route \<and> rt_phase s1 \<in> settled \<and> rt_registry s1 = rt_registry s"
proof -
  have "safe dg base state s" using inv by (simp add: plugin_safe_def)
  then obtain s1 where s1: "leave_route env r t s = (s1, Inr ())" "safe dg base state s1"
      "rt_active s1 = base_route" "rt_phase s1 \<in> settled" "rt_registry s1 = rt_registry s"
    using leave_route_safe[OF _ dg] by blast
  moreover have "rt_cache s1 = rt_cache s" using leave_keeps_cache[of env r t s] s1(1) by simp
  ultimately show ?thesis using inv by (simp add: plugin_safe_def)
qed

lemma locked_plugin_safe:
  assumes inv: "plugin_safe dg base state H s" and dg: "te_digest env = dg" and i: "i \<noteq> base_route"
    and d: "get_verified_route reg i h vllm_tenant = Inr d" "reg \<in> H" and ds: "validated_for H i ds"
    and run: "ensure_locked env r t i d ds s = (s', q)"
  shows "plugin_safe dg base state H s' \<and> (\<forall>b. q = Inr b \<longrightarrow> rt_active s' = i)"
proof -
  have safe: "safe dg base state s" using inv by (simp add: plugin_safe_def)
  note s' = ensure_locked_safe[OF safe dg i run]
  have cache: "rt_cache s' = rt_cache s" using keepsD[OF locked_keeps_cache refl run] .
  show ?thesis
  proof (cases q)
    case (Inl e)
    then show ?thesis using s' cache inv by (simp add: plugin_safe_def)
  next
    case (Inr b)
    then have "ensure_cycle env r t i d ds s = (s', Inr b)"
      using run by (auto simp: ensure_locked_def catchS_def bindS_def modS_def liftS_def
          split: prod.splits sum.splits)
    from ensure_cycle_swaps[OF this] obtain u v where uv: "rt_mem u = rt_mem s"
      "apply_swap env d ds u = (v, Inr ())" "rt_mem s' = rt_mem v" "rt_phase s = READY" by blast
    have "\<forall>a. dg (rt_mem u a) = dg (base a)"
      using safe uv(1,4) by (auto simp: safe_def swap_inv_def clean_phases_def clean_def)
    then have "loaded_from dg base H i (rt_mem s')"
      unfolding loaded_from_def using dg d ds uv(2,3) by blast
    then show ?thesis using Inr s' cache inv i by (simp add: plugin_safe_def)
  qed
qed

text \<open>\<open>ensure_route\<close> keeps the plugin's invariant, and when it returns the requested route is the
  active one.\<close>

lemma ensure_plugin_safe:
  assumes inv: "plugin_safe dg base state H s" and dg: "te_digest env = dg" and reg: "rt_registry s \<in> H"
    and run: "ensure_route env i vllm_tenant r s = (s', q)"
  shows "plugin_safe dg base state H s' \<and> (\<forall>b. q = Inr b \<longrightarrow> rt_active s' = i)"
proof (cases "is_terminal (rt_sm s) \<or> rt_active s = i")
  case True
  then show ?thesis using run inv by (auto simp: ensure_route_def split: if_splits)
next
  case False
  obtain s1 where s1: "leave_route env r vllm_tenant s = (s1, Inr ())" "plugin_safe dg base state H s1"
      "rt_active s1 = base_route" "rt_registry s1 = rt_registry s"
    using leave_plugin_safe[OF inv dg] by blast
  show ?thesis
  proof (cases "i = base_route")
    case True
    then show ?thesis using run False s1 by (simp add: ensure_route_def bindS_def liftS_def)
  next
    case i: False
    obtain s2 q2 where v: "verify_route env r vllm_tenant i False s1 = (s2, q2)" by fastforce
    have "rt_cache s2 = rt_cache s1" using v by (auto simp: verify_route_def frame_cache split: sum.splits)
    then have safe2: "plugin_safe dg base state H s2"
      using plugin_safe_frame[OF s1(2)] verify_route_frame[OF v] s1(2) by (simp add: plugin_safe_def)
    show ?thesis
    proof (cases q2)
      case (Inl e)
      then show ?thesis using run False i s1(1) v safe2 by (auto simp: ensure_route_def bindS_def)
    next
      case (Inr d)
      have d: "get_verified_route (rt_registry s) i (rt_hash s1) vllm_tenant = Inr d"
        using v Inr s1(4) by (auto simp: verify_route_def split: sum.splits)
      obtain s3 q3 where c: "cached_deltas env r vllm_tenant i d s2 = (s3, q3)" by fastforce
      have run3: "bindS (\<lambda>_. (s3, q3)) (\<lambda>ds. ensure_locked env r vllm_tenant i d ds) s2 = (s', q)"
        using run False i s1(1) v Inr c by (simp add: ensure_route_def bindS_def)
      show ?thesis
      proof (cases q3)
        case (Inl e)
        then show ?thesis using run3 cached_deltas_error[of env r vllm_tenant i d s2 s3 e] c safe2
          by (auto simp: bindS_def)
      next
        case ds: (Inr ds)
        have cv: "validated_for H i ds" "\<forall>i ds. map_of (rt_cache s3) i = Some ds \<longrightarrow> validated_for H i ds"
          using cached_deltas_valid[of env r vllm_tenant i d s2 s3 ds H, OF _ _ d reg] c ds safe2
          by (simp_all add: plugin_safe_def)
        then have safe3: "plugin_safe dg base state H s3"
          using plugin_safe_frame[OF safe2] cached_deltas_frame[OF c] by simp
        show ?thesis
          using locked_plugin_safe[OF safe3 dg i d reg cv(1)] run3 ds by (simp add: bindS_def)
      qed
    qed
  qed
qed

section \<open>Histories of forward passes\<close>

text \<open>A history starts before the first forward pass. Between passes the scheduler may set any active
  route and the registry may change; \<open>H\<close> collects the registries the passes saw.\<close>

inductive plugin_reach ::
    "('t \<Rightarrow> string) \<Rightarrow> (nat \<Rightarrow> 't) \<Rightarrow> (string, nat) dict \<Rightarrow> registry set \<Rightarrow> 't plugin \<Rightarrow> bool"
  for dg base state where
  start: "gb_runtime (pl_globals pl) = None \<Longrightarrow> plugin_reach dg base state {} pl"
| forward: "plugin_reach dg base state H pl \<Longrightarrow> te_digest env = dg \<Longrightarrow>
    get_vllm_runtime penv (Some (Some state)) base (pl_globals pl) = (gb, Inr rt) \<Longrightarrow>
    plugin_reach dg base state (insert (rt_registry rt) H)
      (fst (patched_model_forward penv env (Some (Some state)) base a (f :: (nat \<Rightarrow> 't) \<Rightarrow> string result) pl))"
| schedule: "plugin_reach dg base state H pl \<Longrightarrow> plugin_reach dg base state H (pl\<lparr>pl_metrics := m\<rparr>)"
| admin: "plugin_reach dg base state H pl \<Longrightarrow> gb_runtime (pl_globals pl) = Some rt \<Longrightarrow>
    plugin_reach dg base state H
      (pl\<lparr>pl_globals := (pl_globals pl)\<lparr>gb_runtime := Some (rt\<lparr>rt_registry := reg\<rparr>)\<rparr>\<rparr>)"

definition plugin_inv ::
    "('t \<Rightarrow> string) \<Rightarrow> (nat \<Rightarrow> 't) \<Rightarrow> (string, nat) dict \<Rightarrow> registry set \<Rightarrow> 't plugin \<Rightarrow> bool" where
  "plugin_inv dg base state H pl \<longleftrightarrow>
     (\<forall>rt. gb_runtime (pl_globals pl) = Some rt \<longrightarrow> plugin_safe dg base state H rt)"

lemma init_plugin_safe:
  "plugin_safe dg base state H (init_runtime (Some state) base reg h logger dir mx)"
proof -
  have "rt_phase (init_runtime (Some state) base reg h logger dir mx) = READY"
      "rt_active (init_runtime (Some state) base reg h logger dir mx) = base_route"
      "rt_cache (init_runtime (Some state) base reg h logger dir mx) = []"
    by (simp_all add: init_runtime_def init_machine_def)
  then show ?thesis
    using reach_safe[OF runtime_reach.start] by (simp add: plugin_safe_def settled_def)
qed

lemma runtime_of_globals:
  assumes "plugin_inv dg base state H pl"
    and "get_vllm_runtime penv (Some (Some state)) base (pl_globals pl) = (gb, Inr rt)"
  shows "plugin_safe dg base state H rt"
  using assms init_plugin_safe
  by (auto simp: get_vllm_runtime_def plugin_inv_def Let_def split: option.splits prod.splits)

lemma forward_pass_safe:
  assumes inv: "plugin_safe dg base state H s" and dg: "te_digest env = dg" and reg: "rt_registry s \<in> H"
    and run: "forward_pass env i a f s = (s', q)"
  shows "plugin_safe dg base state H s'
    \<and> (\<forall>out. q = Inr out \<longrightarrow> rt_active s' = i \<and> f (rt_mem s') = Inr out)"
proof -
  obtain s1 q1 where e: "ensure_route env i vllm_tenant (''vllm-req-'' @ a) s = (s1, q1)" by fastforce
  note s1 = ensure_plugin_safe[OF inv dg reg e]
  have clear: "plugin_safe dg base state H (fst (clear_active_route env s1))"
      "snd (clear_active_route env s1) = Inr (rt_active s1 \<noteq> base_route)"
    using clear_plugin_safe[of dg base state H s1 env] s1 dg by simp_all
  consider b out where "q1 = Inr b" "f (rt_mem s1) = Inr out"
    | err where "\<forall>b. q1 = Inr b \<longrightarrow> f (rt_mem s1) = Inl err" "\<forall>x. q1 = Inl x \<longrightarrow> x = err"
    by (cases q1; cases "f (rt_mem s1)") auto
  then show ?thesis
  proof cases
    case 1
    then show ?thesis using run e s1 by (auto simp: forward_pass_def catchS_def bindS_def)
  next
    case (2 err)
    then have "s' = fst (clear_active_route env s1) \<and> q = Inl err"
      using run e clear(2)
      by (cases q1) (auto simp: forward_pass_def catchS_def bindS_def liftS_def split: prod.splits sum.splits)
    then show ?thesis using clear(1) by simp
  qed
qed

lemma reach_plugin_inv:
  "plugin_reach dg base state H pl \<Longrightarrow> plugin_inv dg base state H pl"
proof (induction rule: plugin_reach.induct)
  case (start pl)
  then show ?case by (simp add: plugin_inv_def)
next
  case (forward H pl env penv gb rt a f)
  have inv: "plugin_safe dg base state (insert (rt_registry rt) H) rt"
    using plugin_safe_mono[OF subset_insertI runtime_of_globals[OF forward.IH forward.hyps(3)]] .
  obtain rt1 q where p: "forward_pass env (get_active_route (record_forward (pl_metrics pl))) a f rt = (rt1, q)"
    by fastforce
  have "plugin_safe dg base state (insert (rt_registry rt) H) rt1"
    using forward_pass_safe[OF inv forward.hyps(2) _ p] by simp
  then show ?case
    using forward.hyps(3) p by (simp add: patched_model_forward_def Let_def plugin_inv_def)
next
  case (schedule H pl m)
  then show ?case by (simp add: plugin_inv_def)
next
  case (admin H pl rt reg)
  then have "plugin_safe dg base state H rt" by (simp add: plugin_inv_def)
  moreover have "core (rt\<lparr>rt_registry := reg\<rparr>) = core rt" by (simp add: core_def)
  ultimately have "plugin_safe dg base state H (rt\<lparr>rt_registry := reg\<rparr>)"
    using plugin_safe_frame[of dg base state H rt "rt\<lparr>rt_registry := reg\<rparr>"] by (simp add: plugin_safe_def)
  then show ?case by (simp add: plugin_inv_def)
qed

section \<open>Properties\<close>


definition demo_plugin :: "int list plugin" where
  "demo_plugin = \<lparr>pl_metrics = reset_metrics\<lparr>pm_active_route_id := ''r''\<rparr>,
     pl_globals = init_globals\<lparr>gb_registry := Some demo_registry\<rparr>\<rparr>"

definition demo_plugin_env :: plugin_env where
  "demo_plugin_env = \<lparr>pe_storage = None, pe_runtime_hash = Some ''h''\<rparr>"

lemma demo_plugin_verified: "get_verified_route demo_registry ''r'' ''h'' vllm_tenant = Inr demo_route"
  using demo_verified by (simp add: get_verified_ok_iff) (simp add: demo_route_def sample_payload_route_def opt_truthy_def)

lemma demo_plugin_runtime:
  "\<exists>gb. get_vllm_runtime demo_plugin_env (Some (Some demo_model)) demo_base (pl_globals demo_plugin)
     = (gb, Inr (init_runtime (Some demo_model) demo_base demo_registry ''h'' True None 2147483648))"
  by (simp add: get_vllm_runtime_def get_vllm_registry_def demo_plugin_def init_globals_def demo_plugin_env_def Let_def)

lemma demo_plugin_forward:
  "\<exists>pl'. patched_model_forward demo_plugin_env demo_env (Some (Some demo_model)) demo_base ''a'' demo_forward demo_plugin
     = (pl', Inr (int_str 12))"
proof -
  have v: "validate_payload (te_payload demo_env) demo_route None 2147483648 = Inr [(''w'', [5])]"
    by (simp add: demo_env_def demo_validates)
  have "\<exists>s'. ensure_route demo_env ''r'' vllm_tenant (''vllm-req-'' @ ''a'')
        (init_runtime (Some demo_model) demo_base demo_registry ''h'' True None 2147483648) = (s', Inr True)
      \<and> rt_mem s' 0 = [12]"
    by (simp add: ensure_route_def leave_route_def verify_route_def cached_deltas_def ensure_locked_def
        ensure_cycle_def catchS_def demo_run demo_plugin_verified base_route_def is_terminal_def v)
  then obtain s' where s': "ensure_route demo_env ''r'' vllm_tenant (''vllm-req-'' @ ''a'')
        (init_runtime (Some demo_model) demo_base demo_registry ''h'' True None 2147483648) = (s', Inr True)"
      "rt_mem s' 0 = [12]" by blast
  have "get_active_route (record_forward (pl_metrics demo_plugin)) = ''r''"
    by (simp add: get_active_route_def record_forward_def demo_plugin_def)
  moreover obtain gb where "get_vllm_runtime demo_plugin_env (Some (Some demo_model)) demo_base (pl_globals demo_plugin)
     = (gb, Inr (init_runtime (Some demo_model) demo_base demo_registry ''h'' True None 2147483648))"
    using demo_plugin_runtime by blast
  ultimately show ?thesis
    using s'(2)
    by (simp add: patched_model_forward_def forward_pass_def Let_def catchS_def bindS_def s'(1) del: append_Cons append_Nil)
qed


text \<open>An active route is never looked at again: as long as a route stays active on a live worker,
  forward passes for it give the same output whatever the registry says, so revoking or quarantining
  the route does not take effect.\<close>

theorem active_route_not_rechecked:
  assumes "gb_runtime (pl_globals pl) = Some rt" and "\<not> is_terminal (rt_sm rt)"
    and "rt_active rt = get_active_route (pl_metrics pl)" and "f (rt_mem rt) = Inr out"
  shows "snd (patched_model_forward penv env (Some sd) base a f
    (pl\<lparr>pl_globals := (pl_globals pl)\<lparr>gb_runtime := Some (rt\<lparr>rt_registry := reg\<rparr>)\<rparr>\<rparr>)) = Inr out"
  using assms
  by (simp add: patched_model_forward_def get_vllm_runtime_def forward_pass_def ensure_route_def Let_def
      catchS_def bindS_def get_active_route_def record_forward_def)

lemma active_route_not_rechecked_witness:
  "snd (patched_model_forward demo_plugin_env demo_env (Some (Some demo_model)) demo_base ''a'' (\<lambda>m. Inr ''answer'')
     (demo_plugin\<lparr>pl_globals := (pl_globals demo_plugin)\<lparr>gb_runtime := Some (demo_persistent
        \<lparr>rt_registry := demo_registry\<lparr>reg_statuses := [(''r'', REVOKED)]\<rparr>\<rparr>)\<rparr>\<rparr>)) = Inr ''answer''"
  using active_route_not_rechecked[of "demo_plugin\<lparr>pl_globals := (pl_globals demo_plugin)\<lparr>gb_runtime := Some demo_persistent\<rparr>\<rparr>"
      demo_persistent "\<lambda>m. Inr ''answer''" "''answer''" demo_plugin_env demo_env "Some demo_model" demo_base "''a''"
      "demo_registry\<lparr>reg_statuses := [(''r'', REVOKED)]\<rparr>"] demo_persistent_run
  by (simp add: is_terminal_def demo_plugin_def get_active_route_def)

text \<open>The auto-load puts every manifest with a route id into production, in whatever state it was and
  without any of the checks of a registration.\<close>

lemma autoload_unchecked:
  assumes "map_of data ''route_id'' = Some (JStr rid)" "rid \<noteq> []" "ends_with f ''.scalpel_route''"
  shows "get_route (autoload_file (f, Inr (JObj data)) reg) rid = Some data
    \<and> get_route_status (autoload_file (f, Inr (JObj data)) reg) rid = Some PRODUCTION"
  using assms by (simp add: autoload_file_def get_route_def get_route_status_def)

end
