(* ===== verification/Evaluator.thy ===== *)
theory Evaluator
  imports Prelude
begin

text \<open>
  The SQL evaluator (core/evaluator.py): the extraction of a statement from model output and the
  evaluation of a test suite with its statistics. The model, the SQL parser and SQLite are parameters.
  Texts are ASCII where the case of letters matters; counts are natural numbers and rates exact.
\<close>

section \<open>Extraction of SQL\<close>

definition newline :: string where
  "newline = [CHR 0x0A]"

definition fence :: string where
  "fence = replicate 3 (CHR 0x60)"

text \<open>\<open>re.search(opening + "(.*?)\n```", text, DOTALL | IGNORECASE)\<close>: the first opening, and the
  shortest text up to a closing fence.\<close>

definition code_block :: "string \<Rightarrow> string \<Rightarrow> string option" where
  "code_block opening txt =
     (case str_find (str_upper opening) (str_upper txt) of
        None \<Rightarrow> None
      | Some i \<Rightarrow>
          let rest = drop (i + length opening) txt
          in case str_find (newline @ fence) rest of
               None \<Rightarrow> None
             | Some j \<Rightarrow> Some (take j rest))"

definition start_keywords :: "string list" where
  "start_keywords = [''SELECT'', ''WITH'', ''UPDATE'', ''INSERT'', ''DELETE'', ''CREATE'', ''DROP'']"

definition stop_patterns :: "string list" where
  "stop_patterns = [newline @ ''SQL:'', newline @ ''TABLE:'', newline @ ''OUTPUT:'', newline @ newline, fence]"

definition best_start :: "string \<Rightarrow> nat option" where
  "best_start text_clean =
     foldl (\<lambda>best kw. case str_find kw (str_upper text_clean) of
              None \<Rightarrow> best
            | Some idx \<Rightarrow> (case best of None \<Rightarrow> Some idx | Some b \<Rightarrow> if idx < b then Some idx else best))
       None start_keywords"

definition min_stop :: "string \<Rightarrow> nat" where
  "min_stop snippet =
     foldl (\<lambda>m pattern. case str_find pattern (str_upper snippet) of
              None \<Rightarrow> m | Some idx \<Rightarrow> if idx < m then idx else m)
       (length snippet) stop_patterns"

definition cut_snippet :: "string \<Rightarrow> string" where
  "cut_snippet snippet =
     (let sql_snippet = str_strip (take (min_stop snippet) snippet)
      in case str_find '';'' sql_snippet of
           Some semi_idx \<Rightarrow> str_strip (take (semi_idx + 1) sql_snippet)
         | None \<Rightarrow> str_strip sql_snippet)"

definition extract_sql :: "string \<Rightarrow> string" where
  "extract_sql txt =
     (case code_block (fence @ ''sql'' @ newline) txt of
        Some block \<Rightarrow> str_strip block
      | None \<Rightarrow>
          (case code_block (fence @ newline) txt of
             Some block \<Rightarrow> str_strip block
           | None \<Rightarrow>
               let text_clean = str_strip txt
               in case best_start text_clean of
                    Some start \<Rightarrow> cut_snippet (drop start text_clean)
                  | None \<Rightarrow> text_clean))"

section \<open>Evaluation of a suite\<close>

record 'r test_case =
  tc_id :: string
  tc_category :: string
  tc_prompt :: string
  tc_tables :: "string list"
  tc_columns :: "string list"
  tc_sqlite_setup :: string
  tc_expected_result :: "'r list option"
  tc_order_sensitive :: bool

record case_result =
  cr_id :: string
  cr_category :: string
  cr_prompt :: string
  cr_generated :: string
  cr_syntax_valid :: bool
  cr_schema_ok :: bool
  cr_execution_success :: "bool option"
  cr_is_correct :: bool
  cr_error :: "string option"

record category_stats =
  ct_total :: nat
  ct_pass :: nat
  ct_correct :: nat

record suite_stats =
  ss_total :: nat
  ss_syntax_valid :: nat
  ss_execution_success :: nat
  ss_exact_match :: nat
  ss_categories :: "(string, category_stats) dict"
  ss_execution_success_rate :: rat
  ss_execution_accuracy :: rat

record suite_result =
  sr_stats :: suite_stats
  sr_results :: "case_result list"
  sr_failure_cases :: "case_result list"

text \<open>\<open>ev_generate\<close> is the decoded output of the model, \<open>ev_parse\<close> the parser with the tables and
  columns of the statement, \<open>ev_execute\<close> SQLite on a setup script and a statement, \<open>ev_sortable\<close> whether
  Python can compare the rows of a list.\<close>

record 'r eval_env =
  ev_generate :: "string \<Rightarrow> string"
  ev_parse :: "string \<Rightarrow> (string list \<times> string list) result"
  ev_execute :: "string \<Rightarrow> string \<Rightarrow> 'r list result"
  ev_sortable :: "'r list \<Rightarrow> bool"

definition generate_sql :: "'r eval_env \<Rightarrow> string \<Rightarrow> string" where
  "generate_sql env prompt = extract_sql (ev_generate env prompt)"

definition validate_syntax :: "'r eval_env \<Rightarrow> string \<Rightarrow> bool \<times> string option" where
  "validate_syntax env sql = (case ev_parse env sql of Inr _ \<Rightarrow> (True, None) | Inl e \<Rightarrow> (False, Some (exc_msg e)))"

definition validate_sql_schema :: "'r eval_env \<Rightarrow> string \<Rightarrow> string list \<Rightarrow> string list \<Rightarrow> bool \<times> bool" where
  "validate_sql_schema env sql expected_tables expected_columns =
     (case ev_parse env sql of
        Inl _ \<Rightarrow> (False, False)
      | Inr (tables, columns) \<Rightarrow>
          (list_all (\<lambda>t. str_lower t \<in> set (map str_lower tables)) expected_tables,
           list_all (\<lambda>c. str_lower c \<in> set (map str_lower columns)) expected_columns))"

text \<open>Success, rows and error of an execution.\<close>

definition execute_sqlite :: "'r eval_env \<Rightarrow> string \<Rightarrow> string \<Rightarrow> bool option \<times> 'r list option \<times> string option" where
  "execute_sqlite env sql setup_script =
     (case ev_execute env setup_script sql of
        Inr rows \<Rightarrow> (Some True, Some rows, None)
      | Inl e \<Rightarrow> (Some False, None, Some (exc_msg e)))"

definition rows_match :: "'r::linorder eval_env \<Rightarrow> bool \<Rightarrow> 'r list \<Rightarrow> 'r list \<Rightarrow> bool" where
  "rows_match env order_sensitive actual expected =
     (if \<not> order_sensitive
      then if ev_sortable env actual \<and> ev_sortable env expected then sort actual = sort expected
           else actual = expected
      else actual = expected)"

definition evaluate_case :: "'r::linorder eval_env \<Rightarrow> 'r test_case \<Rightarrow> case_result" where
  "evaluate_case env tc =
     (let gen_sql = generate_sql env (tc_prompt tc);
          syntax = validate_syntax env gen_sql;
          schema = validate_sql_schema env gen_sql (tc_tables tc) (tc_columns tc);
          execution = (if tc_sqlite_setup tc \<noteq> [] \<and> fst syntax
                       then execute_sqlite env gen_sql (tc_sqlite_setup tc) else (None, None, None));
          is_correct = (case (fst execution, tc_expected_result tc, fst (snd execution)) of
                          (Some True, Some expected, Some actual) \<Rightarrow>
                            rows_match env (tc_order_sensitive tc) actual expected
                        | _ \<Rightarrow> False)
      in \<lparr>cr_id = tc_id tc, cr_category = tc_category tc, cr_prompt = tc_prompt tc, cr_generated = gen_sql,
          cr_syntax_valid = fst syntax, cr_schema_ok = (fst schema \<and> snd schema),
          cr_execution_success = fst execution, cr_is_correct = is_correct,
          cr_error = (case snd syntax of Some (c # cs) \<Rightarrow> Some (c # cs) | _ \<Rightarrow> snd (snd execution))\<rparr>)"

definition init_stats :: "nat \<Rightarrow> suite_stats" where
  "init_stats n =
     \<lparr>ss_total = n, ss_syntax_valid = 0, ss_execution_success = 0, ss_exact_match = 0, ss_categories = [],
      ss_execution_success_rate = 0, ss_execution_accuracy = 0\<rparr>"

definition upd_category :: "case_result \<Rightarrow> (string, category_stats) dict \<Rightarrow> (string, category_stats) dict" where
  "upd_category res cats =
     (let cat = dict_get cats (cr_category res) \<lparr>ct_total = 0, ct_pass = 0, ct_correct = 0\<rparr>
      in dict_set (cr_category res)
           (cat\<lparr>ct_total := ct_total cat + 1,
                ct_pass := ct_pass cat + (if cr_execution_success res = Some True then 1 else 0),
                ct_correct := ct_correct cat + (if cr_is_correct res then 1 else 0)\<rparr>) cats)"

definition upd_stats :: "case_result \<Rightarrow> suite_stats \<Rightarrow> suite_stats" where
  "upd_stats res stats =
     stats\<lparr>ss_syntax_valid := ss_syntax_valid stats + (if cr_syntax_valid res then 1 else 0),
           ss_execution_success := ss_execution_success stats + (if cr_execution_success res = Some True then 1 else 0),
           ss_exact_match := ss_exact_match stats + (if cr_is_correct res then 1 else 0),
           ss_categories := upd_category res (ss_categories stats)\<rparr>"

definition evaluate_suite :: "'r::linorder eval_env \<Rightarrow> 'r test_case list \<Rightarrow> suite_result" where
  "evaluate_suite env test_cases =
     (let results = map (evaluate_case env) test_cases;
          stats = fold upd_stats results (init_stats (length test_cases));
          n = ss_total stats;
          rate = (\<lambda>k. if n > 0 then of_nat k / of_nat n else 0)
      in \<lparr>sr_stats = stats\<lparr>ss_execution_success_rate := rate (ss_execution_success stats),
                           ss_execution_accuracy := rate (ss_exact_match stats)\<rparr>,
          sr_results = results,
          sr_failure_cases = filter (\<lambda>res. \<not> cr_is_correct res) results\<rparr>)"

section \<open>Texts\<close>

lemma str_find_first: "str_find p s = Some n \<Longrightarrow> k < n \<Longrightarrow> \<not> starts_with (drop k s) p"
proof (induction s arbitrary: n k)
  case (Cons c cs)
  then show ?case by (cases k) (auto split: if_splits)
qed (auto split: if_splits)

lemma substring_refl [simp]: "substring s s"
  by (auto simp: substring_iff intro: exI[of _ "[]"])

lemma substring_trans: "substring a b \<Longrightarrow> substring b c \<Longrightarrow> substring a c"
  unfolding substring_iff by (metis append.assoc)

lemma substring_take [simp]: "substring (take n s) s"
  unfolding substring_iff by (metis append_Nil append_take_drop_id)

lemma substring_drop [simp]: "substring (drop n s) s"
  unfolding substring_iff by (metis append_Nil2 append_take_drop_id append.assoc)

lemma substring_lstrip: "substring (str_lstrip s) s"
  unfolding substring_iff str_lstrip_def by (metis append_Nil2 takeWhile_dropWhile_id append.assoc)

lemma substring_strip: "substring (str_strip s) s"
proof -
  have "\<exists>b. t = rev (dropWhile is_space (rev t)) @ b" for t
    by (metis rev_append rev_rev_ident takeWhile_dropWhile_id)
  then have "substring (str_strip s) (str_lstrip s)"
    unfolding substring_iff str_strip_def str_lstrip_def by (metis append_Nil)
  then show ?thesis using substring_lstrip substring_trans by blast
qed

lemma strip_ends: "str_strip s = [] \<or> \<not> is_space (hd (str_strip s)) \<and> \<not> is_space (last (str_strip s))"
proof (cases "str_strip s = []")
  case False
  let ?t = "str_lstrip s"
  have t: "?t \<noteq> []"
  proof
    assume "?t = []"
    then show False using False by (simp add: str_strip_def) (simp add: str_lstrip_def)
  qed
  then have "\<not> is_space (hd ?t)" unfolding str_lstrip_def by (rule hd_dropWhile)
  moreover obtain b where b: "?t = str_strip s @ b"
    unfolding str_strip_def str_lstrip_def by (metis rev_append rev_rev_ident takeWhile_dropWhile_id)
  ultimately have "\<not> is_space (hd (str_strip s))" using False by (cases "str_strip s") auto
  moreover have "str_lstrip (rev ?t) \<noteq> []" using False by (simp add: str_strip_def)
  then have "\<not> is_space (hd (str_lstrip (rev ?t)))" unfolding str_lstrip_def by (rule hd_dropWhile)
  then have "\<not> is_space (last (str_strip s))" using False by (simp add: str_strip_def last_rev)
  ultimately show ?thesis by blast
qed blast

lemma substring_upper: "substring p s \<Longrightarrow> substring (str_upper p) (str_upper s)"
  unfolding substring_iff str_upper_def by (metis map_append)

section \<open>What is extracted\<close>

lemma min_fold:
  "foldl (\<lambda>m pattern. case f pattern of None \<Rightarrow> m | Some idx \<Rightarrow> if idx < m then idx else m) m0 ps \<le> (m0 :: nat)"
  "p \<in> set ps \<Longrightarrow> f p = Some i \<Longrightarrow>
     foldl (\<lambda>m pattern. case f pattern of None \<Rightarrow> m | Some idx \<Rightarrow> if idx < m then idx else m) m0 ps \<le> i"
proof -
  let ?g = "\<lambda>m pattern. case f pattern of None \<Rightarrow> m | Some idx \<Rightarrow> if idx < m then idx else (m :: nat)"
  have le: "foldl ?g m0 ps \<le> m0" for m0 ps
    by (induction ps arbitrary: m0) (auto split: option.splits intro: order_trans[OF _ less_imp_le])
  then show "foldl ?g m0 ps \<le> m0" .
  show "p \<in> set ps \<Longrightarrow> f p = Some i \<Longrightarrow> foldl ?g m0 ps \<le> i"
  proof (induction ps arbitrary: m0)
    case (Cons q ps)
    then show ?case
      using le[of "?g m0 p" ps] by (cases "p = q") (auto split: if_splits)
  qed simp
qed

lemma min_stop_clean:
  assumes "p \<in> set stop_patterns"
  shows "\<not> substring p (str_upper (take (min_stop s) s))"
proof
  let ?m = "min_stop s" and ?u = "str_upper s"
  assume "substring p (str_upper (take ?m s))"
  then obtain a b where ab: "take ?m ?u = a @ p @ b" by (auto simp: substring_iff str_upper_def take_map)
  have p: "p \<noteq> []" using assms by (auto simp: stop_patterns_def newline_def fence_def)
  have u: "?u = a @ p @ b @ drop ?m ?u" using ab by (metis append.assoc append_take_drop_id)
  then have at: "starts_with (drop (length a) ?u) p" by (metis append_eq_conv_conj starts_with_append)
  have "substring p ?u" using u unfolding substring_iff by blast
  then obtain i where i: "str_find p ?u = Some i" by (cases "str_find p ?u") (auto simp: str_find_None)
  then have "i \<le> length a" using str_find_first[OF i, of "length a"] at by force
  moreover have "?m \<le> i"
    unfolding min_stop_def by (rule min_fold(2)[where f = "\<lambda>q. str_find q ?u" and p = p]) (use assms i in auto)
  moreover have "length (a @ p @ b) \<le> ?m" using ab by (metis length_take min.cobounded2)
  ultimately show False using p by (cases p) simp_all
qed

lemma find_semicolon:
  assumes "str_find '';'' s = Some k" shows "\<exists>x. take (k + 1) s = x @ '';'' \<and> CHR 0x3B \<notin> set x"
proof -
  obtain x b where xb: "s = x @ '';'' @ b" "length x = k" using str_find_Some[OF assms] by blast
  have "CHR 0x3B \<notin> set x"
  proof
    assume "CHR 0x3B \<in> set x"
    then obtain y z where "x = y @ CHR 0x3B # z" by (auto simp: in_set_conv_decomp)
    then show False using str_find_first[OF assms, of "length y"] xb by simp
  qed
  then show ?thesis using xb by auto
qed

lemma semicolon_last:
  assumes "substring r (x @ '';'')" "CHR 0x3B \<notin> set x" shows "CHR 0x3B \<notin> set (butlast r)"
proof -
  obtain a b where ab: "x @ '';'' = a @ r @ b" using assms(1) by (auto simp: substring_iff)
  show ?thesis
  proof (cases b rule: rev_cases)
    case Nil
    then have "x = butlast (a @ r)" using ab by (metis append_Nil2 butlast_snoc)
    then show ?thesis using assms(2) by (cases r rule: rev_cases) (auto simp: butlast_append split: if_splits)
  next
    case (snoc c d)
    then have "x = a @ r @ c" using ab by simp
    then show ?thesis using assms(2) by (auto dest: in_set_butlastD)
  qed
qed

lemma cut_snippet_clean:
  "substring (cut_snippet s) (take (min_stop s) s)" "CHR 0x3B \<notin> set (butlast (cut_snippet s))"
proof -
  let ?t = "str_strip (take (min_stop s) s)"
  have t: "substring ?t (take (min_stop s) s)" by (rule substring_strip)
  show "substring (cut_snippet s) (take (min_stop s) s)"
    using t substring_trans[OF substring_strip] substring_trans[OF substring_trans[OF substring_strip substring_take]]
    by (auto simp: cut_snippet_def Let_def split: option.split)
  show "CHR 0x3B \<notin> set (butlast (cut_snippet s))"
  proof (cases "str_find '';'' ?t")
    case None
    then have "CHR 0x3B \<notin> set ?t"
      unfolding str_find_None substring_iff by (metis append_Cons append_Nil in_set_conv_decomp)
    moreover have "set (cut_snippet s) \<subseteq> set ?t"
      using None substring_strip[of ?t] by (auto simp: cut_snippet_def Let_def substring_iff) (metis Un_iff set_append)
    ultimately show ?thesis by (auto dest: in_set_butlastD)
  next
    case (Some k)
    obtain x where x: "take (k + 1) ?t = x @ '';''" "CHR 0x3B \<notin> set x" using find_semicolon[OF Some] by blast
    have "cut_snippet s = str_strip (x @ '';'')" using Some x(1) by (simp add: cut_snippet_def Let_def)
    then show ?thesis using semicolon_last[OF substring_strip x(2)] by simp
  qed
qed

text \<open>The extracted statement is a contiguous part of the output; outside code blocks, when a keyword is
  found, it stops before any stop pattern and after the first semicolon.\<close>

lemma extract_sql_clean:
  "substring (extract_sql txt) txt
   \<and> (code_block (fence @ ''sql'' @ newline) txt = None \<and> code_block (fence @ newline) txt = None
      \<and> best_start (str_strip txt) \<noteq> None \<longrightarrow>
        CHR 0x3B \<notin> set (butlast (extract_sql txt))
        \<and> (\<forall>p\<in>set stop_patterns. \<not> substring p (str_upper (extract_sql txt))))"
proof -
  have block: "substring (str_strip b) txt" if "code_block x txt = Some b" for x b
  proof -
    have "substring b txt"
      using that by (auto simp: code_block_def Let_def split: option.splits intro: substring_trans[OF substring_take substring_drop])
    then show ?thesis using substring_trans[OF substring_strip] by blast
  qed
  have cut: "substring (cut_snippet (drop n (str_strip txt))) txt" for n
    using substring_trans[OF substring_trans[OF cut_snippet_clean(1) substring_take]
        substring_trans[OF substring_drop substring_strip]] .
  have stop: "\<not> substring p (str_upper (cut_snippet s))" if "p \<in> set stop_patterns" for p s
    using min_stop_clean[OF that] substring_trans substring_upper[OF cut_snippet_clean(1)] by blast
  show ?thesis
    using block cut substring_strip cut_snippet_clean(2) stop
    by (auto simp: extract_sql_def Let_def split: option.split)
qed

section \<open>Statistics of a suite\<close>

definition count_if :: "('a \<Rightarrow> bool) \<Rightarrow> 'a list \<Rightarrow> nat" where
  "count_if P xs = length (filter P xs)"

lemma count_if_mono: "(\<And>x. x \<in> set xs \<Longrightarrow> P x \<Longrightarrow> Q x) \<Longrightarrow> count_if P xs \<le> count_if Q xs"
  unfolding count_if_def by (induction xs) auto

lemma case_implies:
  "cr_is_correct (evaluate_case env tc) \<Longrightarrow> cr_execution_success (evaluate_case env tc) = Some True"
  "cr_execution_success (evaluate_case env tc) = Some True \<Longrightarrow> cr_syntax_valid (evaluate_case env tc)"
  by (auto simp: evaluate_case_def Let_def split: option.splits bool.splits if_splits)

lemma upd_category_sums:
  "dict_sum ct_total (upd_category r d) = dict_sum ct_total d + 1"
  "dict_sum ct_pass (upd_category r d) = dict_sum ct_pass d + (if cr_execution_success r = Some True then 1 else 0)"
  "dict_sum ct_correct (upd_category r d) = dict_sum ct_correct d + (if cr_is_correct r then 1 else 0)"
proof -
  let ?old = "dict_get d (cr_category r) \<lparr>ct_total = 0, ct_pass = 0, ct_correct = 0\<rparr>"
  have sum: "dict_sum f (dict_set (cr_category r) v d) + f ?old = dict_sum f d + f v"
    if "f \<lparr>ct_total = 0, ct_pass = 0, ct_correct = 0\<rparr> = 0" for f v
  proof (cases "map_of d (cr_category r)")
    case None
    then show ?thesis using dict_sum_new[OF None, of f v] that by (simp add: dict_get_def)
  next
    case (Some u)
    then show ?thesis using dict_sum_set[OF Some, of f v] by (simp add: dict_get_def)
  qed
  let ?new = "?old\<lparr>ct_total := ct_total ?old + 1,
      ct_pass := ct_pass ?old + (if cr_execution_success r = Some True then 1 else 0),
      ct_correct := ct_correct ?old + (if cr_is_correct r then 1 else 0)\<rparr>"
  have upd: "upd_category r d = dict_set (cr_category r) ?new d" by (simp add: upd_category_def Let_def)
  show "dict_sum ct_total (upd_category r d) = dict_sum ct_total d + 1"
    using sum[of ct_total ?new] unfolding upd by simp
  show "dict_sum ct_pass (upd_category r d) = dict_sum ct_pass d + (if cr_execution_success r = Some True then 1 else 0)"
    using sum[of ct_pass ?new] unfolding upd by simp
  show "dict_sum ct_correct (upd_category r d) = dict_sum ct_correct d + (if cr_is_correct r then 1 else 0)"
    using sum[of ct_correct ?new] unfolding upd by simp
qed

lemma fold_stats:
  "let s' = fold upd_stats rs s in
     ss_total s' = ss_total s
     \<and> ss_syntax_valid s' = ss_syntax_valid s + count_if cr_syntax_valid rs
     \<and> ss_execution_success s' = ss_execution_success s + count_if (\<lambda>r. cr_execution_success r = Some True) rs
     \<and> ss_exact_match s' = ss_exact_match s + count_if cr_is_correct rs
     \<and> dict_sum ct_total (ss_categories s') = dict_sum ct_total (ss_categories s) + length rs
     \<and> dict_sum ct_pass (ss_categories s')
         = dict_sum ct_pass (ss_categories s) + count_if (\<lambda>r. cr_execution_success r = Some True) rs
     \<and> dict_sum ct_correct (ss_categories s') = dict_sum ct_correct (ss_categories s) + count_if cr_is_correct rs"
proof (induction rs arbitrary: s)
  case Nil
  then show ?case by (simp add: count_if_def)
next
  case (Cons r rs)
  then show ?case by (simp add: Let_def upd_stats_def upd_category_sums count_if_def)
qed

text \<open>The statistics of a suite are consistent, for any model, parser and database: correct answers are
  executed ones, executed ones parse, all are among the cases; the numbers of the categories add up
  to those of the suite; both rates lie between 0 and 1; and the failure cases are those that are
  not correct, so that accuracy times the number of cases is the number of the others.\<close>

theorem suite_stats_consistent:
  "let out = evaluate_suite env test_cases; st = sr_stats out in
     ss_total st = length test_cases
     \<and> ss_exact_match st \<le> ss_execution_success st \<and> ss_execution_success st \<le> ss_syntax_valid st
     \<and> ss_syntax_valid st \<le> ss_total st
     \<and> dict_sum ct_total (ss_categories st) = ss_total st
     \<and> dict_sum ct_pass (ss_categories st) = ss_execution_success st
     \<and> dict_sum ct_correct (ss_categories st) = ss_exact_match st
     \<and> 0 \<le> ss_execution_accuracy st \<and> ss_execution_accuracy st \<le> ss_execution_success_rate st
     \<and> ss_execution_success_rate st \<le> 1
     \<and> ss_execution_accuracy st * of_nat (ss_total st) = of_nat (ss_total st - length (sr_failure_cases out))"
proof -
  let ?rs = "map (evaluate_case env) test_cases"
  let ?s = "fold upd_stats ?rs (init_stats (length test_cases))"
  have st: "ss_total ?s = length test_cases" "ss_syntax_valid ?s = count_if cr_syntax_valid ?rs"
      "ss_execution_success ?s = count_if (\<lambda>r. cr_execution_success r = Some True) ?rs"
      "ss_exact_match ?s = count_if cr_is_correct ?rs"
      "dict_sum ct_total (ss_categories ?s) = length ?rs"
      "dict_sum ct_pass (ss_categories ?s) = count_if (\<lambda>r. cr_execution_success r = Some True) ?rs"
      "dict_sum ct_correct (ss_categories ?s) = count_if cr_is_correct ?rs"
    using fold_stats[of ?rs "init_stats (length test_cases)"]
    by (simp_all add: Let_def init_stats_def dict_sum_def)
  have le: "count_if cr_is_correct ?rs \<le> count_if (\<lambda>r. cr_execution_success r = Some True) ?rs"
      "count_if (\<lambda>r. cr_execution_success r = Some True) ?rs \<le> count_if cr_syntax_valid ?rs"
      "count_if cr_syntax_valid ?rs \<le> length test_cases"
    by (auto intro!: count_if_mono dest: case_implies)
      (metis count_if_def length_filter_le length_map)
  have fail: "length test_cases - length (filter (\<lambda>r. \<not> cr_is_correct r) ?rs) = count_if cr_is_correct ?rs"
    using sum_length_filter_compl[of cr_is_correct ?rs] by (simp add: count_if_def)
  show ?thesis
  proof (cases "test_cases = []")
    case True
    then show ?thesis by (simp add: evaluate_suite_def init_stats_def Let_def dict_sum_def)
  next
    case False
    then have n: "0 < length test_cases" by simp
    have rates: "of_nat (count_if cr_is_correct ?rs) / of_nat (length test_cases)
          \<le> (of_nat (count_if (\<lambda>r. cr_execution_success r = Some True) ?rs) / of_nat (length test_cases) :: rat)"
        "of_nat (count_if (\<lambda>r. cr_execution_success r = Some True) ?rs) / of_nat (length test_cases) \<le> (1 :: rat)"
      using le n by (simp_all add: divide_right_mono)
    show ?thesis
      using st le n fail rates unfolding Let_def evaluate_suite_def by simp
  qed
qed

end
