(* ===== verification/Diagnostics.thy ===== *)
theory Diagnostics
  imports Evaluator
begin

text \<open>
  The data of the diagnostic pipeline: the quality gate for source adapters (core/quality_gate.py), the
  diagnostic report and its release decision and the recommendation of alphas (core/diagnostic.py), and
  the validation report (core/validation.py). Fields that no code reads or fills (notes of the gates,
  the applied scales, the summary of a validation report, time stamps) are left out, and so is the
  rendering as markdown. Numbers are exact; \<open>pct\<close> renders a percentage with one decimal.
\<close>

section \<open>Quality gate\<close>

record gate_config =
  gc_primary_metric :: string
  gc_positive_delta_threshold :: rat
  gc_weak_positive_threshold :: rat
  gc_negative_delta_threshold :: rat
  gc_max_regression_rate :: rat
  gc_max_empty_output_rate :: rat
  gc_max_repetition_rate :: rat

definition default_gate_config :: gate_config where
  "default_gate_config =
     \<lparr>gc_primary_metric = ''execution_accuracy'', gc_positive_delta_threshold = 3 / 100,
      gc_weak_positive_threshold = 0, gc_negative_delta_threshold = - 1 / 100, gc_max_regression_rate = 1 / 10,
      gc_max_empty_output_rate = 5 / 100, gc_max_repetition_rate = 1 / 10\<rparr>"

record quality_report =
  qr_schema_version :: string
  qr_base_model :: string
  qr_adapter_path :: string
  qr_benchmark :: string
  qr_task_type :: string
  qr_base_metrics :: "(string, rat) dict"
  qr_adapter_metrics :: "(string, rat) dict"
  qr_delta :: "(string, rat) dict"
  qr_total_cases :: nat
  qr_failure_classification :: "(string, int) dict"
  qr_regression_rate :: rat
  qr_stability :: "(string, rat) dict"
  qr_metadata :: "(string, json) dict"
  qr_verdict :: string
  qr_gate_status :: string
  qr_recommendation :: string
  qr_notes :: "string list"

definition new_quality_report :: "string \<Rightarrow> string \<Rightarrow> string \<Rightarrow> quality_report" where
  "new_quality_report base_model adapter_path benchmark =
     \<lparr>qr_schema_version = ''source_adapter_quality_gate.v1.1'', qr_base_model = base_model,
      qr_adapter_path = adapter_path, qr_benchmark = benchmark, qr_task_type = ''sql'', qr_base_metrics = [],
      qr_adapter_metrics = [], qr_delta = [], qr_total_cases = 0, qr_failure_classification = [],
      qr_regression_rate = 0, qr_stability = [], qr_metadata = [], qr_verdict = ''INCONCLUSIVE'',
      qr_gate_status = ''WARNING'', qr_recommendation = ''WAITING_FOR_EVAL'', qr_notes = []\<rparr>"

definition set_verdict :: "string \<Rightarrow> string \<Rightarrow> string \<Rightarrow> quality_report \<Rightarrow> quality_report" where
  "set_verdict verdict gate_status recommendation q =
     q\<lparr>qr_verdict := verdict, qr_gate_status := gate_status, qr_recommendation := recommendation\<rparr>"

definition add_note :: "string \<Rightarrow> quality_report \<Rightarrow> quality_report" where
  "add_note note q = q\<lparr>qr_notes := qr_notes q @ [note]\<rparr>"

definition stability_of :: "quality_report \<Rightarrow> string \<Rightarrow> rat" where
  "stability_of q k = dict_get (qr_stability q) k 0"

definition apostrophe :: "string \<Rightarrow> string" where
  "apostrophe s = CHR 0x27 # s @ [CHR 0x27]"

definition score_verdict :: "(rat \<Rightarrow> string) \<Rightarrow> gate_config \<Rightarrow> rat \<Rightarrow> quality_report \<Rightarrow> quality_report" where
  "score_verdict pct config diff q =
     (if diff \<ge> gc_positive_delta_threshold config
      then set_verdict ''POSITIVE_TEACHER'' ''PASS'' ''PROCEED_TO_PROJECTION'' q
      else if diff > gc_weak_positive_threshold config
      then set_verdict ''WEAK_POSITIVE_TEACHER'' ''WARNING'' ''PROCEED_WITH_CAUTION'' q
      else if diff \<le> gc_negative_delta_threshold config
      then add_note (''Adapter degrades base model performance by '' @ pct \<bar>diff\<bar> @ ''.'')
             (set_verdict ''NEGATIVE_TEACHER'' ''FAIL'' ''DO_NOT_PROJECT'' q)
      else set_verdict ''NEUTRAL_TEACHER'' ''WARNING'' ''PROJECTION_NOT_PRIORITIZED'' q)"

definition polish_status :: "(rat \<Rightarrow> string) \<Rightarrow> gate_config \<Rightarrow> quality_report \<Rightarrow> quality_report" where
  "polish_status pct config q =
     (if stability_of q ''repetition_rate'' > gc_max_repetition_rate config
      then let q1 = add_note (''High repetition detected ('' @ pct (stability_of q ''repetition_rate'') @ '').'') q
           in if qr_gate_status q1 = ''PASS''
              then q1\<lparr>qr_gate_status := ''WARNING'', qr_recommendation := ''PROCEED_WITH_CAUTION''\<rparr>
              else q1
      else q)"

definition generate_verdict :: "(rat \<Rightarrow> string) \<Rightarrow> gate_config option \<Rightarrow> quality_report \<Rightarrow> quality_report" where
  "generate_verdict pct config_opt q =
     (let config = (case config_opt of None \<Rightarrow> default_gate_config | Some c \<Rightarrow> c)
      in case map_of (qr_delta q) (gc_primary_metric config) of
           None \<Rightarrow>
             add_note (''Primary metric '' @ apostrophe (gc_primary_metric config) @ '' not found in evaluation results.'')
               (set_verdict ''INCONCLUSIVE'' ''WARNING'' ''PRIMARY_METRIC_MISSING'' q)
         | Some diff \<Rightarrow>
             if stability_of q ''collapse_detected'' > 1 / 2
             then add_note ''Severe model collapse detected (Adapter output is significantly worse than base).''
                    (set_verdict ''UNSTABLE_TEACHER'' ''FAIL'' ''DO_NOT_PROJECT'' q)
             else if stability_of q ''empty_output_rate'' > gc_max_empty_output_rate config
             then add_note (''High empty output rate ('' @ pct (stability_of q ''empty_output_rate'')
                            @ '') exceeds threshold ('' @ pct (gc_max_empty_output_rate config) @ '').'')
                    (set_verdict ''UNSTABLE_TEACHER'' ''FAIL'' ''DO_NOT_PROJECT'' q)
             else if qr_regression_rate q > gc_max_regression_rate config
             then add_note (''High regression rate ('' @ pct (qr_regression_rate q)
                            @ '') exceeds threshold ('' @ pct (gc_max_regression_rate config) @ '').'')
                    (set_verdict ''NEGATIVE_TEACHER'' ''FAIL'' ''DO_NOT_PROJECT'' q)
             else polish_status pct config (score_verdict pct config diff q))"

text \<open>\<open>q.__dict__\<close> as the report stores it.\<close>

definition rat_dict :: "(string, rat) dict \<Rightarrow> json" where
  "rat_dict d = JObj (map (\<lambda>(k, v). (k, JFloat v)) d)"

definition quality_dict :: "quality_report \<Rightarrow> (string, json) dict" where
  "quality_dict q =
     [(''schema_version'', JStr (qr_schema_version q)), (''base_model'', JStr (qr_base_model q)),
      (''adapter_path'', JStr (qr_adapter_path q)), (''benchmark'', JStr (qr_benchmark q)),
      (''task_type'', JStr (qr_task_type q)), (''base_metrics'', rat_dict (qr_base_metrics q)),
      (''adapter_metrics'', rat_dict (qr_adapter_metrics q)), (''delta'', rat_dict (qr_delta q)),
      (''total_cases'', JInt (int (qr_total_cases q))),
      (''failure_classification'', JObj (map (\<lambda>(k, v). (k, JInt v)) (qr_failure_classification q))),
      (''regression_rate'', JFloat (qr_regression_rate q)), (''stability'', rat_dict (qr_stability q)),
      (''metadata'', JObj (qr_metadata q)), (''verdict'', JStr (qr_verdict q)),
      (''gate_status'', JStr (qr_gate_status q)), (''recommendation'', JStr (qr_recommendation q)),
      (''notes'', JList (map JStr (qr_notes q)))]"

section \<open>Diagnostic report\<close>

record metadata_gate =
  mg_status :: string
  mg_base_model_name :: json
  mg_base_model_matches :: bool
  mg_adapter_type :: json
  mg_rank :: json
  mg_lora_alpha :: json
  mg_target_modules :: json
  mg_warnings :: "string list"

definition new_metadata_gate :: metadata_gate where
  "new_metadata_gate =
     \<lparr>mg_status = ''UNKNOWN'', mg_base_model_name = JStr [], mg_base_model_matches = False,
      mg_adapter_type = JStr ''UNKNOWN'', mg_rank = JInt 0, mg_lora_alpha = JInt 0, mg_target_modules = JList [],
      mg_warnings = []\<rparr>"

record compatibility_gate =
  cg_verdict :: string
  cg_compatibility_score :: rat
  cg_hidden_size_ratio :: rat
  cg_layer_count_ratio :: rat
  cg_family_match :: bool
  cg_tokenizer_match :: bool
  cg_tokenizer_check_status :: string

definition new_compatibility_gate :: compatibility_gate where
  "new_compatibility_gate =
     \<lparr>cg_verdict = ''UNKNOWN'', cg_compatibility_score = 0, cg_hidden_size_ratio = 1, cg_layer_count_ratio = 1,
      cg_family_match = False, cg_tokenizer_match = False, cg_tokenizer_check_status = ''PENDING''\<rparr>"

record feasibility_gate =
  fg_verdict :: string
  fg_feasible :: bool
  fg_layer_mapping_type :: string
  fg_gqa_aware_required :: bool
  fg_module_mapping_status :: string
  fg_shape_compatible :: bool

definition new_feasibility_gate :: feasibility_gate where
  "new_feasibility_gate =
     \<lparr>fg_verdict = ''UNKNOWN'', fg_feasible = False, fg_layer_mapping_type = ''direct'',
      fg_gqa_aware_required = False, fg_module_mapping_status = ''PENDING'', fg_shape_compatible = False\<rparr>"

record target_evaluation =
  tg_verdict :: string
  tg_regression_rate :: rat
  tg_accuracy_delta :: rat
  tg_sentinel_pass :: bool

definition new_target_evaluation :: target_evaluation where
  "new_target_evaluation =
     \<lparr>tg_verdict = ''PENDING'', tg_regression_rate = 0, tg_accuracy_delta = 0, tg_sentinel_pass = False\<rparr>"

record release_decision =
  rd_verdict :: string
  rd_recommendation :: string
  rd_reasons :: "string list"
  rd_required_artifacts :: "string list"
  rd_suggested_projection_mode :: "string option"

definition new_release_decision :: release_decision where
  "new_release_decision =
     \<lparr>rd_verdict = ''INCONCLUSIVE'', rd_recommendation = [], rd_reasons = [], rd_required_artifacts = [],
      rd_suggested_projection_mode = None\<rparr>"

record delta_health =
  dh_verdict :: string
  dh_global_frobenius_norm :: real
  dh_concentration_score :: real
  dh_outliers :: "string list"
  dh_normalized_spectral_entropy :: real

definition new_delta_health :: delta_health where
  "new_delta_health =
     \<lparr>dh_verdict = ''UNKNOWN'', dh_global_frobenius_norm = 0, dh_concentration_score = 0, dh_outliers = [],
      dh_normalized_spectral_entropy = 1\<rparr>"

record diagnostic_report =
  dr_run_id :: string
  dr_source_base_model :: string
  dr_source_adapter :: string
  dr_target_model :: string
  dr_metadata_gate :: metadata_gate
  dr_source_quality_gate :: "(string, json) dict"
  dr_delta_health_gate :: delta_health
  dr_compatibility_gate :: compatibility_gate
  dr_feasibility_gate :: feasibility_gate
  dr_target_evaluation_gate :: target_evaluation
  dr_release_decision_gate :: release_decision

definition new_diagnostic_report :: "string \<Rightarrow> string \<Rightarrow> string \<Rightarrow> string \<Rightarrow> diagnostic_report" where
  "new_diagnostic_report run_id source_base_model source_adapter target_model =
     \<lparr>dr_run_id = run_id, dr_source_base_model = source_base_model, dr_source_adapter = source_adapter,
      dr_target_model = target_model, dr_metadata_gate = new_metadata_gate, dr_source_quality_gate = [],
      dr_delta_health_gate = new_delta_health, dr_compatibility_gate = new_compatibility_gate,
      dr_feasibility_gate = new_feasibility_gate, dr_target_evaluation_gate = new_target_evaluation,
      dr_release_decision_gate = new_release_decision\<rparr>"

definition candidate_decision :: "diagnostic_report \<Rightarrow> release_decision \<Rightarrow> release_decision" where
  "candidate_decision r d =
     (if fg_verdict (dr_feasibility_gate r) = ''FEASIBLE'' \<or> fg_feasible (dr_feasibility_gate r)
      then if dh_verdict (dr_delta_health_gate r) = ''HEALTHY_DELTA''
           then d\<lparr>rd_verdict := ''PROJECTION_CANDIDATE'', rd_recommendation := ''PROCEED_TO_TARGET_EVALUATION'',
                  rd_required_artifacts := [''diagnostic_report.json'']\<rparr>
           else if dh_verdict (dr_delta_health_gate r) \<in> {''LOW_SPECTRAL_ENTROPY'', ''MODERATELY_CONCENTRATED''}
           then d\<lparr>rd_verdict := ''PROJECTION_CANDIDATE'',
                  rd_recommendation := ''PROCEED_WITH_PIECEWISE_OR_ADAPTIVE_PROJECTION'',
                  rd_required_artifacts := [''diagnostic_report.json''],
                  rd_suggested_projection_mode := Some ''piecewise''\<rparr>
           else d\<lparr>rd_verdict := ''SOURCE_READY''\<rparr>
      else d\<lparr>rd_verdict := ''SOURCE_READY''\<rparr>)"

definition finalize_release_decision :: "diagnostic_report \<Rightarrow> diagnostic_report" where
  "finalize_release_decision r =
     (let source = dr_source_quality_gate r; d = dr_release_decision_gate r;
          source_verdict = dict_get source ''verdict'' JNull;
          source_status = dict_get source ''gate_status'' (dict_get source ''status'' JNull)
      in r\<lparr>dr_release_decision_gate :=
        (if tg_verdict (dr_target_evaluation_gate r) = ''POSITIVE_TARGET_TRANSFER''
         then d\<lparr>rd_verdict := ''RELEASE_READY'', rd_recommendation := ''PUBLISH_WITH_FULL_BENCHMARKS'',
                rd_required_artifacts := [''diagnostic_report.json'', ''target_evaluation_results.json'',
                                          ''projected_adapter/'', ''README.md'']\<rparr>
         else if tg_verdict (dr_target_evaluation_gate r) = ''TARGET_INTERFERENCE''
         then d\<lparr>rd_verdict := ''RESEARCH_ONLY'', rd_recommendation := ''DO_NOT_RELEASE''\<rparr>
         else let d1 = (if source_verdict = JStr ''POSITIVE_TEACHER'' \<and> source_status = JStr ''PASS''
                        then candidate_decision r d else d\<lparr>rd_verdict := ''INCONCLUSIVE''\<rparr>)
              in if rd_verdict d1 = ''INCONCLUSIVE''
                 then d1\<lparr>rd_reasons := [''Source quality or metadata not verified'']\<rparr> else d1)\<rparr>)"

text \<open>The verdict of the delta analysis (\<open>Delta_Health\<close>) from the concentration and the mean entropy.\<close>

definition delta_verdict :: "real \<Rightarrow> real \<Rightarrow> string" where
  "delta_verdict concentration_score normalized_entropy =
     (if concentration_score > 8 / 10 then ''CRITICALLY_CONCENTRATED''
      else if normalized_entropy < 4 / 10 then ''LOW_SPECTRAL_ENTROPY''
      else ''HEALTHY_DELTA'')"

section \<open>Recommended alphas\<close>

record alpha_budgets =
  ab_attention :: rat
  ab_mlp :: rat
  ab_default :: rat

definition alpha_recommender :: "string \<Rightarrow> alpha_budgets" where
  "alpha_recommender target_model_size =
     (if substring ''0.5B'' target_model_size
      then \<lparr>ab_attention = 2 / 1000, ab_mlp = 2 / 100000, ab_default = 1 / 1000\<rparr>
      else \<lparr>ab_attention = 1 / 1000, ab_mlp = 1 / 100000, ab_default = 5 / 10000\<rparr>)"

definition clamp_alpha :: "alpha_budgets \<Rightarrow> rat \<Rightarrow> rat \<Rightarrow> rat" where
  "clamp_alpha b budget rec_alpha =
     (if budget = ab_attention b then min (max rec_alpha (1 / 8)) 16 else min (max rec_alpha (1 / 100)) 1)"

definition recommend_alpha :: "alpha_budgets \<Rightarrow> string \<Rightarrow> rat \<Rightarrow> rat" where
  "recommend_alpha b module_name raw_delta_norm_ratio =
     (let contains = (\<lambda>x. substring x module_name)
      in if \<not> list_ex contains [''q_proj'', ''k_proj'', ''v_proj'', ''o_proj'', ''gate_proj'', ''up_proj'']
            \<and> contains ''down_proj'' then 0
         else let budget = (if list_ex contains [''q_proj'', ''k_proj'', ''v_proj'', ''o_proj''] then ab_attention b
                            else if list_ex contains [''gate_proj'', ''up_proj''] then ab_mlp b
                            else ab_default b)
              in clamp_alpha b budget (budget / (raw_delta_norm_ratio + 1 / 10 ^ 10)))"

text \<open>\<open>p90\<close> are the statistics \<open>p90_norm_ratio\<close> per module type; \<open>round4\<close> rounds to four decimals.\<close>

definition recommend_module ::
    "(rat \<Rightarrow> rat) \<Rightarrow> alpha_budgets \<Rightarrow> (string, rat) dict \<Rightarrow> string \<Rightarrow> rat \<Rightarrow> rat" where
  "recommend_module round4 b current_alpha_map m_type p90_ratio =
     (let current_alpha = dict_get current_alpha_map m_type 16;
          budget = (if substring ''gate'' m_type \<or> substring ''up'' m_type then ab_mlp b else ab_attention b)
      in if substring ''down_proj'' m_type then 0
         else round4 (clamp_alpha b budget (current_alpha * (budget / (p90_ratio + 1 / 10 ^ 10)))))"

definition recommendation_map ::
    "(rat \<Rightarrow> rat) \<Rightarrow> (string, rat) dict \<Rightarrow> (string, rat) dict \<Rightarrow> string \<Rightarrow> (string, rat) dict" where
  "recommendation_map round4 p90 current_alpha_map target_model_size =
     foldl (\<lambda>m p. if fst p = ''_metadata'' then m
                  else dict_set (fst p) (recommend_module round4 (alpha_recommender target_model_size)
                                           current_alpha_map (fst p) (snd p)) m)
       [] p90"

definition alpha_map_str :: "(rat \<Rightarrow> string) \<Rightarrow> (string, rat) dict \<Rightarrow> string" where
  "alpha_map_str show recommended_map =
     join '','' (map (\<lambda>(k, v). k @ ''='' @ show v) recommended_map)
     @ (if has_key recommended_map ''down_proj'' then [] else '',down_proj=0.0'')"

section \<open>Validation report\<close>

record validation_gate =
  vg_success :: bool
  vg_severity :: string
  vg_message :: string
  vg_metrics :: "(string, json) dict"
  vg_data :: "(string, json) dict"

record validation_report =
  vr_phase :: string
  vr_status :: string
  vr_gates :: "(string, validation_gate) dict"

definition add_gate ::
    "string \<Rightarrow> bool \<Rightarrow> string \<Rightarrow> string \<Rightarrow> (string, json) dict option \<Rightarrow> (string, json) dict option \<Rightarrow>
     'a validation_report_scheme \<Rightarrow> 'a validation_report_scheme" where
  "add_gate gate_id success message severity metrics data r =
     r\<lparr>vr_gates := dict_set gate_id
         \<lparr>vg_success = success, vg_severity = severity, vg_message = message,
          vg_metrics = (case metrics of None \<Rightarrow> [] | Some m \<Rightarrow> m),
          vg_data = (case data of None \<Rightarrow> [] | Some d \<Rightarrow> d)\<rparr> (vr_gates r)\<rparr>"

definition is_all_passed :: "string list option \<Rightarrow> 'a validation_report_scheme \<Rightarrow> bool" where
  "is_all_passed gate_ids r =
     (let targets = (case gate_ids of Some (i # is) \<Rightarrow> i # is | _ \<Rightarrow> dict_keys (vr_gates r))
      in list_all (\<lambda>gid. case map_of (vr_gates r) gid of None \<Rightarrow> True | Some g \<Rightarrow> vg_success g) targets)"

end
