(* ===== verification/Diagnostic_Runner.thy ===== *)
theory Diagnostic_Runner
  imports Diagnostics
begin

text \<open>
  The stages of the diagnostic pipeline and their composition (core/diagnostic_runner.py), with the
  registry of benchmarks (core/benchmarks/registry.py). In warnings only names that are texts are
  rendered. Hub access, model configurations, tokenizers,
  generation and the weight analysis are parameters; loading the models and printing are left out.
\<close>

section \<open>Benchmarks\<close>

record 'r benchmarks =
  bm_evaluators :: "(string, bool \<Rightarrow> 'r eval_env) dict"
  bm_suites :: "(string, 'r test_case list) dict"

text \<open>An evaluator class is given by what it makes of the model with the adapter on (\<open>True\<close>) or off.\<close>

definition register_benchmark ::
    "string \<Rightarrow> (bool \<Rightarrow> 'r eval_env) \<Rightarrow> 'r test_case list \<Rightarrow> 'r benchmarks \<Rightarrow> 'r benchmarks" where
  "register_benchmark name evaluator suite b =
     b\<lparr>bm_evaluators := dict_set name evaluator (bm_evaluators b), bm_suites := dict_set name suite (bm_suites b)\<rparr>"

definition get_evaluator :: "'r benchmarks \<Rightarrow> string \<Rightarrow> (bool \<Rightarrow> 'r eval_env) result" where
  "get_evaluator b name =
     (case map_of (bm_evaluators b) name of
        None \<Rightarrow> Inl (PyExc ValueErrorE (''Benchmark '' @ apostrophe name @ '' is not registered.''))
      | Some e \<Rightarrow> Inr e)"

definition get_suite :: "'r benchmarks \<Rightarrow> string \<Rightarrow> 'r test_case list result" where
  "get_suite b name =
     (case map_of (bm_suites b) name of
        None \<Rightarrow> Inl (PyExc ValueErrorE (''Benchmark '' @ apostrophe name @ '' suite not found.''))
      | Some s \<Rightarrow> Inr s)"

section \<open>Metadata gate\<close>

text \<open>\<open>x in j\<close> for a text \<open>x\<close>.\<close>

definition py_in :: "string \<Rightarrow> json \<Rightarrow> bool result" where
  "py_in x j =
     (case j of
        JStr s \<Rightarrow> Inr (substring x s)
      | JList js \<Rightarrow> Inr (JStr x \<in> set js)
      | JObj d \<Rightarrow> Inr (has_key d x)
      | _ \<Rightarrow> Inl (PyExc TypeErrorE ''argument is not iterable''))"

text \<open>\<open>local\<close> is the adapter's own configuration file, if it exists, as it parses; \<open>hub\<close> the download,
  and then the parse.\<close>

definition run_metadata_gate :: "json result option \<Rightarrow> json result result \<Rightarrow> string \<Rightarrow> metadata_gate result" where
  "run_metadata_gate local_config hub base_model_name =
     (case (case local_config of Some c \<Rightarrow> Inr c | None \<Rightarrow> hub) of
        Inl e \<Rightarrow> Inr (new_metadata_gate\<lparr>mg_status := ''WARNING'',
                        mg_warnings := [''Could not fetch metadata from Hub: '' @ exc_msg e]\<rparr>)
      | Inr parsed \<Rightarrow>
          bindE (bindE parsed as_dict) (\<lambda>config.
            let base_name = dict_get config ''base_model_name_or_path'' (JStr []);
                res = new_metadata_gate\<lparr>mg_adapter_type := dict_get config ''peft_type'' (JStr ''UNKNOWN''),
                        mg_base_model_name := base_name, mg_rank := dict_get config ''r'' (JInt 0),
                        mg_lora_alpha := dict_get config ''lora_alpha'' (JInt 0),
                        mg_target_modules := dict_get config ''target_modules'' (JList [])\<rparr>
            in bindE (if truthy base_name then py_in base_model_name base_name else Inr True) (\<lambda>matches.
                 Inr (if \<not> matches
                      then res\<lparr>mg_base_model_matches := False, mg_warnings := [''Base model mismatch: Config says '' @ (case base_name of JStr t \<Rightarrow> t | _ \<Rightarrow> [])],
                               mg_status := ''FAIL''\<rparr>
                      else res\<lparr>mg_base_model_matches := True, mg_status := ''PASS''\<rparr>))))"

section \<open>Compatibility and feasibility\<close>

record model_config =
  mc_hidden_size :: int
  mc_num_hidden_layers :: int
  mc_model_type :: string
  mc_num_attention_heads :: "int option"
  mc_num_key_value_heads :: "int option"

definition py_div :: "int \<Rightarrow> int \<Rightarrow> rat result" where
  "py_div a b = (if b = 0 then Inl (PyExc ZeroDivisionErrorE ''division by zero'') else Inr (of_int a / of_int b))"

definition compatibility_score :: "compatibility_gate \<Rightarrow> rat" where
  "compatibility_score res =
     (if cg_family_match res then 4 / 10 else 0)
     + (if 2 / 10 \<le> cg_hidden_size_ratio res \<and> cg_hidden_size_ratio res \<le> 15 / 10 then 2 / 10 else 0)
     + (if 5 / 10 \<le> cg_layer_count_ratio res \<and> cg_layer_count_ratio res \<le> 2 then 2 / 10 else 0)
     + (if cg_tokenizer_match res then 2 / 10 else 0)"

text \<open>The body of the \<open>try\<close>: it returns what it has filled in also when it raises.\<close>

definition compatibility_body ::
    "(string \<Rightarrow> model_config result) \<Rightarrow> (string \<Rightarrow> nat result) \<Rightarrow> string \<Rightarrow> string \<Rightarrow> (compatibility_gate, unit) act" where
  "compatibility_body load_config tokenizer_size source_base target_base =
     bindS (liftS (load_config source_base)) (\<lambda>s_config.
     bindS (liftS (load_config target_base)) (\<lambda>t_config.
     bindS (liftS (py_div (mc_hidden_size t_config) (mc_hidden_size s_config))) (\<lambda>h.
     bindS (modS (\<lambda>res. res\<lparr>cg_hidden_size_ratio := h\<rparr>)) (\<lambda>_.
     bindS (liftS (py_div (mc_num_hidden_layers t_config) (mc_num_hidden_layers s_config))) (\<lambda>l.
     bindS (modS (\<lambda>res. res\<lparr>cg_layer_count_ratio := l,
                            cg_family_match := (mc_model_type s_config = mc_model_type t_config)\<rparr>)) (\<lambda>_.
     bindS (liftS (tokenizer_size source_base)) (\<lambda>s_tok.
     bindS (liftS (tokenizer_size target_base)) (\<lambda>t_tok.
     bindS (modS (\<lambda>res. res\<lparr>cg_tokenizer_match := (s_tok = t_tok), cg_tokenizer_check_status := ''SUCCESS''\<rparr>)) (\<lambda>_.
       modS (\<lambda>res. res\<lparr>cg_compatibility_score := compatibility_score res,
                       cg_verdict := (if compatibility_score res > 7 / 10 then ''COMPATIBLE'' else ''RISKY'')\<rparr>))))))))))"

definition run_compatibility_gate ::
    "(string \<Rightarrow> model_config result) \<Rightarrow> (string \<Rightarrow> nat result) \<Rightarrow> string \<Rightarrow> string \<Rightarrow> compatibility_gate" where
  "run_compatibility_gate load_config tokenizer_size source_base target_base =
     (if target_base = [] then new_compatibility_gate
      else fst (catchS (compatibility_body load_config tokenizer_size source_base target_base)
                  (\<lambda>e. modS (\<lambda>res. res\<lparr>cg_verdict := ''INCONCLUSIVE'',
                                       cg_tokenizer_check_status := ''ERROR: '' @ exc_msg e\<rparr>)) new_compatibility_gate))"

definition uses_gqa :: "model_config \<Rightarrow> bool" where
  "uses_gqa c =
     (let heads = (case mc_num_attention_heads c of None \<Rightarrow> 0 | Some h \<Rightarrow> h)
      in (case mc_num_key_value_heads c of None \<Rightarrow> heads | Some k \<Rightarrow> k) \<noteq> heads)"

definition run_feasibility_gate :: "(string \<Rightarrow> model_config result) \<Rightarrow> string \<Rightarrow> string \<Rightarrow> feasibility_gate" where
  "run_feasibility_gate load_config source_base target_base =
     (if target_base = [] then new_feasibility_gate
      else case bindE (load_config source_base) (\<lambda>s. bindE (load_config target_base) (\<lambda>t. Inr (s, t))) of
             Inl e \<Rightarrow> new_feasibility_gate\<lparr>fg_verdict := ''INCOMPATIBLE'',
                        fg_module_mapping_status := ''error: '' @ exc_msg e\<rparr>
           | Inr (s_config, t_config) \<Rightarrow>
               new_feasibility_gate
                 \<lparr>fg_layer_mapping_type := (if mc_num_hidden_layers t_config \<noteq> mc_num_hidden_layers s_config
                                            then ''interpolated'' else ''direct''),
                  fg_gqa_aware_required := (uses_gqa s_config \<noteq> uses_gqa t_config \<or> uses_gqa t_config),
                  fg_module_mapping_status := ''verified_with_config'', fg_shape_compatible := True,
                  fg_verdict := ''FEASIBLE''\<rparr>)"

section \<open>The source quality stage\<close>

definition suite_metrics :: "suite_stats \<Rightarrow> (string, rat) dict result" where
  "suite_metrics stats =
     bindE (py_div (int (ss_syntax_valid stats)) (int (ss_total stats))) (\<lambda>validity.
       Inr [(''execution_accuracy'', ss_execution_accuracy stats),
            (''execution_success'', ss_execution_success_rate stats), (''syntax_validity'', validity)])"

definition correct_ids :: "suite_result \<Rightarrow> string set" where
  "correct_ids out = set (map cr_id (filter cr_is_correct (sr_results out)))"

definition failure_classification :: "nat \<Rightarrow> suite_result \<Rightarrow> suite_result \<Rightarrow> (string, int) dict" where
  "failure_classification total_cases base_res adapter_res =
     [(''fixed'', int (card (correct_ids adapter_res - correct_ids base_res))),
      (''regressed'', int (card (correct_ids base_res - correct_ids adapter_res))),
      (''both_succeeded'', int (card (correct_ids base_res \<inter> correct_ids adapter_res))),
      (''both_failed'', int total_cases - int (card (correct_ids base_res \<union> correct_ids adapter_res)))]"

definition source_quality ::
    "(rat \<Rightarrow> string) \<Rightarrow> string \<Rightarrow> string \<Rightarrow> string \<Rightarrow> nat \<Rightarrow> suite_result \<Rightarrow> suite_result \<Rightarrow> quality_report result" where
  "source_quality pct base_model adapter benchmark n base_res adapter_res =
     bindE (suite_metrics (sr_stats base_res)) (\<lambda>base_metrics.
     bindE (suite_metrics (sr_stats adapter_res)) (\<lambda>adapter_metrics.
       let classification = failure_classification n base_res adapter_res
       in bindE (py_div (dict_get classification ''regressed'' 0) (int n)) (\<lambda>rate.
            Inr (generate_verdict pct None
              ((new_quality_report base_model adapter benchmark)
                 \<lparr>qr_total_cases := n, qr_base_metrics := base_metrics, qr_adapter_metrics := adapter_metrics,
                  qr_delta := map (\<lambda>(m, b). (m, dict_get adapter_metrics m 0 - b)) base_metrics,
                  qr_failure_classification := classification, qr_regression_rate := rate\<rparr>)))))"

section \<open>The pipeline\<close>

record diagnose_args =
  da_source_base_model :: string
  da_source_adapter :: string
  da_target_model :: string
  da_benchmark :: string
  da_force :: bool

record 'r diagnose_env =
  de_run_id :: string
  de_local_config :: "json result option"
  de_hub_config :: "json result result"
  de_benchmarks :: "'r benchmarks"
  de_load_config :: "string \<Rightarrow> model_config result"
  de_tokenizer_size :: "string \<Rightarrow> nat result"
  de_analyze :: delta_health
  de_pct :: "rat \<Rightarrow> string"

definition diagnose_rest :: "'r::linorder diagnose_env \<Rightarrow> diagnose_args \<Rightarrow> diagnostic_report \<Rightarrow> diagnostic_report result" where
  "diagnose_rest env args report =
     bindE (get_evaluator (de_benchmarks env) (da_benchmark args)) (\<lambda>evaluator.
     bindE (get_suite (de_benchmarks env) (da_benchmark args)) (\<lambda>suite.
       let adapter_res = evaluate_suite (evaluator True) suite;
           base_res = evaluate_suite (evaluator False) suite
       in bindE (source_quality (de_pct env) (da_source_base_model args) (da_source_adapter args)
                   (da_benchmark args) (length suite) base_res adapter_res) (\<lambda>q.
            let report1 = report\<lparr>dr_source_quality_gate := quality_dict q, dr_delta_health_gate := de_analyze env\<rparr>;
                report2 = (if da_target_model args = [] then report1
                           else report1\<lparr>dr_compatibility_gate :=
                                          run_compatibility_gate (de_load_config env) (de_tokenizer_size env)
                                            (da_source_base_model args) (da_target_model args),
                                        dr_feasibility_gate :=
                                          run_feasibility_gate (de_load_config env)
                                            (da_source_base_model args) (da_target_model args)\<rparr>)
            in Inr (finalize_release_decision report2))))"

definition execute_diagnostics :: "'r::linorder diagnose_env \<Rightarrow> diagnose_args \<Rightarrow> diagnostic_report result" where
  "execute_diagnostics env args =
     bindE (run_metadata_gate (de_local_config env) (de_hub_config env) (da_source_base_model args)) (\<lambda>mg.
       let report = (new_diagnostic_report (de_run_id env) (da_source_base_model args) (da_source_adapter args)
                       (da_target_model args))\<lparr>dr_metadata_gate := mg\<rparr>
       in if mg_status mg = ''FAIL'' \<and> \<not> da_force args then Inr report
          else diagnose_rest env args report)"

section \<open>The quality gate\<close>

text \<open>A teacher passes exactly when its accuracy rises by the threshold and nothing speaks against it;
  only a passing teacher is recommended without caution, and \<open>FAIL\<close> always says not to project.\<close>

lemma generate_verdict_exact:
  defines "c \<equiv> default_gate_config"
  shows "qr_gate_status (generate_verdict pct None q) = ''PASS'' \<longleftrightarrow>
      (\<exists>d. map_of (qr_delta q) ''execution_accuracy'' = Some d \<and> 3 / 100 \<le> d)
      \<and> stability_of q ''collapse_detected'' \<le> 1 / 2 \<and> stability_of q ''empty_output_rate'' \<le> 5 / 100
      \<and> qr_regression_rate q \<le> 1 / 10 \<and> stability_of q ''repetition_rate'' \<le> 1 / 10"
    "qr_recommendation (generate_verdict pct None q) = ''PROCEED_TO_PROJECTION'' \<longleftrightarrow>
       qr_gate_status (generate_verdict pct None q) = ''PASS''"
    "qr_recommendation (generate_verdict pct None q) = ''DO_NOT_PROJECT'' \<longleftrightarrow>
       qr_gate_status (generate_verdict pct None q) = ''FAIL''"
  by (auto simp: generate_verdict_def score_verdict_def polish_status_def set_verdict_def add_note_def
      stability_of_def default_gate_config_def Let_def split: option.splits)

section \<open>The release decision\<close>

lemma candidate_verdicts:
  "rd_verdict (candidate_decision r d) \<in> {''PROJECTION_CANDIDATE'', ''SOURCE_READY''}"
  "rd_verdict (candidate_decision r d) = ''PROJECTION_CANDIDATE'' \<Longrightarrow>
     (fg_verdict (dr_feasibility_gate r) = ''FEASIBLE'' \<or> fg_feasible (dr_feasibility_gate r))
     \<and> dh_verdict (dr_delta_health_gate r) \<in> {''HEALTHY_DELTA'', ''LOW_SPECTRAL_ENTROPY'', ''MODERATELY_CONCENTRATED''}"
  by (auto simp: candidate_decision_def split: if_splits)

lemma finalize_pending:
  assumes "dr_target_evaluation_gate r = new_target_evaluation"
  shows "rd_verdict (dr_release_decision_gate (finalize_release_decision r))
      \<in> {''PROJECTION_CANDIDATE'', ''SOURCE_READY'', ''INCONCLUSIVE''}"
    "rd_verdict (dr_release_decision_gate (finalize_release_decision r)) = ''PROJECTION_CANDIDATE'' \<Longrightarrow>
       dict_get (dr_source_quality_gate r) ''gate_status'' (dict_get (dr_source_quality_gate r) ''status'' JNull) = JStr ''PASS''
       \<and> (fg_verdict (dr_feasibility_gate r) = ''FEASIBLE'' \<or> fg_feasible (dr_feasibility_gate r))
       \<and> dh_verdict (dr_delta_health_gate r) \<in> {''HEALTHY_DELTA'', ''LOW_SPECTRAL_ENTROPY'', ''MODERATELY_CONCENTRATED''}"
  using assms candidate_verdicts[of r "dr_release_decision_gate r"]
  by (auto simp: finalize_release_decision_def new_target_evaluation_def Let_def split: if_splits)

lemma feasibility_verdict:
  "\<not> fg_feasible (run_feasibility_gate load s t)"
  "fg_verdict (run_feasibility_gate load s t) = ''FEASIBLE'' \<longleftrightarrow>
     t \<noteq> [] \<and> (\<exists>c. load s = Inr c) \<and> (\<exists>c. load t = Inr c)"
  by (auto simp: run_feasibility_gate_def new_feasibility_gate_def bindE_Inr_iff
      split: sum.splits prod.splits)

lemma quality_status:
  "dict_get (quality_dict q) ''gate_status'' x = JStr (qr_gate_status q)"
  by (simp add: quality_dict_def dict_get_def)

text \<open>What a passing source quality stage says about the two evaluations.\<close>

lemma source_quality_pass:
  assumes "source_quality pct bm ad bn n base_res adapter_res = Inr q" and "qr_gate_status q = ''PASS''"
  shows "0 < n \<and> 3 / 100 \<le> ss_execution_accuracy (sr_stats adapter_res) - ss_execution_accuracy (sr_stats base_res)
    \<and> of_nat (card (correct_ids base_res - correct_ids adapter_res)) \<le> (of_nat n / 10 :: rat)"
proof -
  obtain bmx amx rate where m: "suite_metrics (sr_stats base_res) = Inr bmx" "suite_metrics (sr_stats adapter_res) = Inr amx"
      "py_div (dict_get (failure_classification n base_res adapter_res) ''regressed'' 0) (int n) = Inr rate"
    and q: "q = generate_verdict pct None ((new_quality_report bm ad bn)
                 \<lparr>qr_total_cases := n, qr_base_metrics := bmx, qr_adapter_metrics := amx,
                  qr_delta := map (\<lambda>(m, b). (m, dict_get amx m 0 - b)) bmx,
                  qr_failure_classification := failure_classification n base_res adapter_res,
                  qr_regression_rate := rate\<rparr>)"
    using assms(1) by (auto simp: source_quality_def bindE_Inr_iff Let_def)
  have rate: "0 < n" "rate = of_nat (card (correct_ids base_res - correct_ids adapter_res)) / of_nat n"
    using m(3) by (auto simp: py_div_def failure_classification_def dict_get_def split: if_splits)
  have delta: "map_of (map (\<lambda>(m, b). (m, dict_get amx m 0 - b)) bmx) ''execution_accuracy''
      = Some (ss_execution_accuracy (sr_stats adapter_res) - ss_execution_accuracy (sr_stats base_res))"
    using m(1,2) by (auto simp: suite_metrics_def bindE_Inr_iff dict_get_def)
  from generate_verdict_exact(1)[THEN iffD1, OF assms(2)[unfolded q]] delta
  have "3 / 100 \<le> ss_execution_accuracy (sr_stats adapter_res) - ss_execution_accuracy (sr_stats base_res)"
      "rate \<le> 1 / 10" by simp_all
  moreover from this(2) have "of_nat (card (correct_ids base_res - correct_ids adapter_res)) \<le> (of_nat n / 10 :: rat)"
    using rate by (simp add: field_simps)
  ultimately show ?thesis using rate(1) by blast
qed


section \<open>A sample pipeline\<close>

text \<open>One case with the answer 1; the adapter answers it, the base model does not.\<close>

definition sample_eval :: "bool \<Rightarrow> int eval_env" where
  "sample_eval adapter =
     \<lparr>ev_generate = (\<lambda>_. if adapter then ''SELECT 1;'' else ''no idea''), ev_parse = (\<lambda>_. Inr ([], [])),
      ev_execute = (\<lambda>_ sql. if sql = ''SELECT 1;'' then Inr [1] else Inl (PyExc OtherExceptionE ''error'')),
      ev_sortable = (\<lambda>_. True)\<rparr>"

definition sample_suite :: "int test_case list" where
  "sample_suite = [\<lparr>tc_id = ''1'', tc_category = ''c'', tc_prompt = ''p'', tc_tables = [], tc_columns = [],
     tc_sqlite_setup = ''s'', tc_expected_result = Some [1], tc_order_sensitive = False\<rparr>]"

definition sample_config :: model_config where
  "sample_config = \<lparr>mc_hidden_size = 8, mc_num_hidden_layers = 2, mc_model_type = ''m'',
     mc_num_attention_heads = None, mc_num_key_value_heads = None\<rparr>"

definition sample_diagnose_env :: "int diagnose_env" where
  "sample_diagnose_env =
     \<lparr>de_run_id = ''diag_0'', de_local_config = Some (Inr (JObj [])), de_hub_config = Inl (PyExc OSErrorE ''offline''),
      de_benchmarks = register_benchmark ''sql_50'' sample_eval sample_suite \<lparr>bm_evaluators = [], bm_suites = []\<rparr>,
      de_load_config = (\<lambda>_. Inr sample_config), de_tokenizer_size = (\<lambda>_. Inr 5),
      de_analyze = new_delta_health\<lparr>dh_verdict := ''HEALTHY_DELTA''\<rparr>, de_pct = (\<lambda>_. [])\<rparr>"

definition sample_diagnose_args :: diagnose_args where
  "sample_diagnose_args = \<lparr>da_source_base_model = ''b'', da_source_adapter = ''a'', da_target_model = ''t'',
     da_benchmark = ''sql_50'', da_force = False\<rparr>"

lemma sample_extract: "extract_sql ''SELECT 1;'' = ''SELECT 1;''" "extract_sql ''no idea'' = ''no idea''"
  by code_simp+

lemma sample_results:
  "evaluate_suite (sample_eval True) sample_suite =
     (let r = \<lparr>cr_id = ''1'', cr_category = ''c'', cr_prompt = ''p'', cr_generated = ''SELECT 1;'', cr_syntax_valid = True,
               cr_schema_ok = True, cr_execution_success = Some True, cr_is_correct = True, cr_error = None\<rparr>
      in \<lparr>sr_stats = \<lparr>ss_total = 1, ss_syntax_valid = 1, ss_execution_success = 1, ss_exact_match = 1,
            ss_categories = [(''c'', \<lparr>ct_total = 1, ct_pass = 1, ct_correct = 1\<rparr>)],
            ss_execution_success_rate = 1, ss_execution_accuracy = 1\<rparr>,
          sr_results = [r], sr_failure_cases = []\<rparr>)"
  "evaluate_suite (sample_eval False) sample_suite =
     (let r = \<lparr>cr_id = ''1'', cr_category = ''c'', cr_prompt = ''p'', cr_generated = ''no idea'', cr_syntax_valid = True,
               cr_schema_ok = True, cr_execution_success = Some False, cr_is_correct = False, cr_error = Some ''error''\<rparr>
      in \<lparr>sr_stats = \<lparr>ss_total = 1, ss_syntax_valid = 1, ss_execution_success = 0, ss_exact_match = 0,
            ss_categories = [(''c'', \<lparr>ct_total = 1, ct_pass = 0, ct_correct = 0\<rparr>)],
            ss_execution_success_rate = 0, ss_execution_accuracy = 0\<rparr>,
          sr_results = [r], sr_failure_cases = [r]\<rparr>)"
  by (simp_all add: evaluate_suite_def sample_suite_def sample_eval_def evaluate_case_def generate_sql_def
      sample_extract validate_syntax_def validate_sql_schema_def execute_sqlite_def rows_match_def
      init_stats_def upd_stats_def upd_category_def dict_get_def Let_def)

lemma sample_quality:
  "\<exists>q. source_quality pct b a n 1 (evaluate_suite (sample_eval False) sample_suite)
        (evaluate_suite (sample_eval True) sample_suite) = Inr q
     \<and> qr_verdict q = ''POSITIVE_TEACHER'' \<and> qr_gate_status q = ''PASS''"
  by (simp add: source_quality_def sample_results suite_metrics_def py_div_def failure_classification_def correct_ids_def
      dict_get_def generate_verdict_def default_gate_config_def stability_of_def new_quality_report_def score_verdict_def
      polish_status_def set_verdict_def Let_def)

lemma sample_candidate:
  "\<exists>report. execute_diagnostics sample_diagnose_env sample_diagnose_args = Inr report
     \<and> rd_verdict (dr_release_decision_gate report) = ''PROJECTION_CANDIDATE''"
proof -
  obtain q where q: "source_quality (\<lambda>_. []) ''b'' ''a'' ''sql_50'' 1 (evaluate_suite (sample_eval False) sample_suite)
        (evaluate_suite (sample_eval True) sample_suite) = Inr q" "qr_verdict q = ''POSITIVE_TEACHER''" "qr_gate_status q = ''PASS''"
    using sample_quality by blast
  have d: "dict_get (quality_dict q) ''verdict'' JNull = JStr ''POSITIVE_TEACHER''"
      "dict_get (quality_dict q) ''gate_status'' x = JStr ''PASS''" for x
    using q(2,3) by (simp_all add: quality_dict_def dict_get_def)
  show ?thesis
    using q(1) d
    by (simp add: execute_diagnostics_def diagnose_rest_def sample_diagnose_env_def sample_diagnose_args_def
        run_metadata_gate_def register_benchmark_def get_evaluator_def get_suite_def sample_suite_def
        run_feasibility_gate_def finalize_release_decision_def candidate_decision_def new_diagnostic_report_def
        new_target_evaluation_def new_metadata_gate_def dict_get_def Let_def)
qed


end
