(* ===== verification/Release_Package.thy ===== *)
theory Release_Package
  imports Route_Payload
begin

text \<open>
  Release packages: building one from the reports and the adapter (commands/package_release.py) and
  checking one (commands/package_validate.py). A directory is a dictionary from file names to bytes; the
  three directories of a release are distinct and hold files only. SHA-256, JSON parsing and printing and
  the text of values that are no text are parameters; console output is left out, and the messages of
  exceptions do not repeat the arguments.
\<close>

section \<open>Building a package\<close>

type_synonym directory = "(string, nat list) dict"

record package_env =
  pk_sha256 :: "nat list \<Rightarrow> string"
  pk_parse :: "nat list \<Rightarrow> json result"
  pk_dump :: "json \<Rightarrow> nat list"
  pk_str :: "json \<Rightarrow> string"

definition calculate_sha256 :: "package_env \<Rightarrow> nat list \<Rightarrow> string" where
  "calculate_sha256 env content =
     pk_sha256 env (foldl (\<lambda>h byte_block. h @ byte_block) [] (read_chunks 4096 content))"

definition encode :: "string \<Rightarrow> nat list" where
  "encode s = map of_char s"

definition text_of :: "package_env \<Rightarrow> json \<Rightarrow> string" where
  "text_of env j = (case j of JStr s \<Rightarrow> s | _ \<Rightarrow> pk_str env j)"

definition path_name :: "string \<Rightarrow> string" where
  "path_name s = (case rev (path_parts s) of [] \<Rightarrow> [] | p # _ \<Rightarrow> p)"

definition quoted :: "string \<Rightarrow> string" where
  "quoted s = CHR 0x22 # s @ [CHR 0x22]"

definition generate_citation_cff :: "package_env \<Rightarrow> (string, json) dict \<Rightarrow> string result" where
  "generate_citation_cff env report =
     (let target_model = dict_get report ''target_model'' (JStr ''unknown'')
      in bindE (as_str (dict_get report ''source_adapter'' (JStr ''unknown''))) (\<lambda>source_adapter.
           Inr (join [CHR 0x0A]
             [''cff-version: 1.2.0'',
              ''message: '' @ quoted ''If you use this projected adapter, please cite it as follows.'',
              ''title: '' @ quoted (''Projected Adapter: '' @ path_name source_adapter @ '' for '' @ text_of env target_model),
              ''authors:'',
              ''  - family-names: '' @ quoted ''Neural-Scalpel-Autogen'',
              ''version: '' @ quoted ''1.0.0'',
              ''date-released: '' @ quoted ''2026-05-07'',
              ''url: '' @ quoted ''https://github.com/ponpoke/Neural-Scalpel''])))"

definition copy_files :: "string list \<Rightarrow> directory \<Rightarrow> directory \<Rightarrow> directory" where
  "copy_files names src dst =
     foldl (\<lambda>d n. case map_of src n of None \<Rightarrow> d | Some c \<Rightarrow> dict_set n c d) dst names"

definition metadata_name :: string where
  "metadata_name = ''projection_metadata.json''"

definition report_name :: string where
  "report_name = ''diagnostic_report.json''"

definition file_hashes :: "package_env \<Rightarrow> directory \<Rightarrow> (string, json) dict" where
  "file_hashes env dir =
     map (\<lambda>(n, c). (n, JStr (calculate_sha256 env c))) (filter (\<lambda>p. fst p \<noteq> metadata_name) dir)"

definition package_metadata :: "json \<Rightarrow> (string, json) dict \<Rightarrow> json result" where
  "package_metadata report_data hashes =
     bindE (as_dict report_data) (\<lambda>report.
     bindE (as_dict (dict_get report ''release_decision_gate'' (JObj []))) (\<lambda>decision.
       Inr (JObj [(''framework'', JStr ''Neural-Scalpel v2.9.0''),
                  (''distribution_type'', JStr ''Projected-PEFT-Adapter''),
                  (''source_adapter'', dict_get report ''source_adapter'' JNull),
                  (''target_model'', dict_get report ''target_model'' JNull),
                  (''diagnostic_verdict'', dict_get decision ''verdict'' JNull),
                  (''recommendation'', dict_get decision ''recommendation'' JNull),
                  (''created_by'', JStr ''neural-scalpel package-release''),
                  (''integrity_hashes'', JObj hashes)])))"

text \<open>The result is the output directory, also when the command raises.\<close>

definition package_release ::
    "package_env \<Rightarrow> directory option \<Rightarrow> directory option \<Rightarrow> directory option \<Rightarrow> directory option \<times> unit result" where
  "package_release env run_dir adapter_dir output_dir =
     (case (run_dir, adapter_dir) of
        (None, _) \<Rightarrow> (output_dir, Inl (PyExc FileNotFoundErrorE ''Run directory not found''))
      | (_, None) \<Rightarrow> (output_dir, Inl (PyExc FileNotFoundErrorE ''Adapter directory not found''))
      | (Some run, Some adapter) \<Rightarrow>
          let out0 = (case output_dir of None \<Rightarrow> [] | Some d \<Rightarrow> d);
              out1 = copy_files [''adapter_model.safetensors'', ''adapter_model.bin'', ''adapter_config.json''] adapter out0;
              out2 = copy_files [report_name, ''target_eval_results.json'', ''final_analysis.md''] run out1;
              out3 = (if has_key run ''README.md'' then copy_files [''README.md''] run out2
                      else copy_files [''README.md''] adapter out2)
          in case (case map_of run report_name of None \<Rightarrow> Inr (JObj []) | Some c \<Rightarrow> pk_parse env c) of
               Inl e \<Rightarrow> (Some out3, Inl e)
             | Inr report_data \<Rightarrow>
                 (case (if truthy report_data
                        then bindE (as_dict report_data) (\<lambda>d. bindE (generate_citation_cff env d) (\<lambda>cff. Inr [(''CITATION.cff'', encode cff)]))
                        else Inr []) of
                    Inl e \<Rightarrow> (Some out3, Inl e)
                  | Inr cff \<Rightarrow>
                      let out4 = copy_files [''CITATION.cff''] cff out3
                      in case package_metadata report_data (file_hashes env out4) of
                           Inl e \<Rightarrow> (Some out4, Inl e)
                         | Inr meta \<Rightarrow> (Some (dict_set metadata_name (pk_dump env meta) out4), Inr ())))"

section \<open>Checking a package\<close>

definition missing_files :: "directory \<Rightarrow> (string, json) dict \<Rightarrow> string list" where
  "missing_files dir hashes = filter (\<lambda>n. \<not> has_key dir n) (dict_keys hashes)"

definition mismatched_files :: "package_env \<Rightarrow> directory \<Rightarrow> (string, json) dict \<Rightarrow> string list" where
  "mismatched_files env dir hashes =
     map fst (filter (\<lambda>(n, expected). case map_of dir n of
                        None \<Rightarrow> False | Some c \<Rightarrow> JStr (calculate_sha256 env c) \<noteq> expected) hashes)"

definition diagnostic_mismatch :: "package_env \<Rightarrow> directory \<Rightarrow> (string, json) dict \<Rightarrow> bool result" where
  "diagnostic_mismatch env dir meta =
     (case map_of dir report_name of
        None \<Rightarrow> Inr False
      | Some c \<Rightarrow>
          bindE (bindE (pk_parse env c) as_dict) (\<lambda>report.
          bindE (as_dict (dict_get report ''release_decision_gate'' (JObj []))) (\<lambda>decision.
            Inr (dict_get decision ''verdict'' JNull \<noteq> dict_get meta ''diagnostic_verdict'' JNull))))"

text \<open>The exit code.\<close>

definition package_validate :: "package_env \<Rightarrow> directory \<Rightarrow> int result" where
  "package_validate env dir =
     (case map_of dir metadata_name of
        None \<Rightarrow> Inr 1
      | Some c \<Rightarrow>
          bindE (bindE (pk_parse env c) as_dict) (\<lambda>meta.
          bindE (as_dict (dict_get meta ''integrity_hashes'' (JObj []))) (\<lambda>hashes.
            let integrity_ok = (missing_files dir hashes = [] \<and> mismatched_files env dir hashes = [])
            in bindE (diagnostic_mismatch env dir meta) (\<lambda>mismatch.
                 Inr (if integrity_ok \<and> \<not> mismatch then 0 else 1)))))"

section \<open>What a package check shows\<close>

lemma hash_whole: "calculate_sha256 env content = pk_sha256 env content"
  by (simp add: calculate_sha256_def foldl_append_chunks)

text \<open>A package passes exactly when its metadata parses, every listed file is there with its hash, and the
  verdict of an included report is the recorded one.\<close>

lemma validate_ok_iff:
  "package_validate env dir = Inr 0 \<longleftrightarrow>
     (\<exists>c meta hashes. map_of dir metadata_name = Some c \<and> pk_parse env c = Inr (JObj meta)
        \<and> dict_get meta ''integrity_hashes'' (JObj []) = JObj hashes
        \<and> (\<forall>(n, h)\<in>set hashes. \<exists>f. map_of dir n = Some f \<and> h = JStr (pk_sha256 env f))
        \<and> diagnostic_mismatch env dir meta = Inr False)"
proof -
  have files: "missing_files dir hashes = [] \<and> mismatched_files env dir hashes = [] \<longleftrightarrow>
      (\<forall>(n, h)\<in>set hashes. \<exists>f. map_of dir n = Some f \<and> h = JStr (pk_sha256 env f))" for hashes
    by (induction hashes)
      (auto simp: missing_files_def mismatched_files_def has_key_def hash_whole split: option.splits)
  have dict: "as_dict j = Inr d \<longleftrightarrow> j = JObj d" for j d by (cases j) auto
  show ?thesis
    by (cases "map_of dir metadata_name")
      (auto simp: package_validate_def Let_def bindE_Inr_iff dict files[symmetric] split: if_splits)
qed

lemma copy_files_lookup:
  "map_of (copy_files ns src dst) k = (if k \<in> set ns \<and> has_key src k then map_of src k else map_of dst k)"
  unfolding copy_files_def
proof (induction ns arbitrary: dst)
  case (Cons n ns)
  then show ?case by (auto simp: has_key_def split: option.splits)
qed simp

lemma copy_files_wf: "dict_wf dst \<Longrightarrow> dict_wf (copy_files ns src dst)"
  unfolding copy_files_def by (induction ns arbitrary: dst) (auto split: option.split)

text \<open>The output of a successful release: the metadata over a directory whose report is that of the run.\<close>

lemma package_release_cases:
  assumes "package_release env (Some run) (Some adapter) out = (Some pkg, Inr ())"
    and "dict_wf (case out of None \<Rightarrow> [] | Some d \<Rightarrow> d)"
  shows "\<exists>files report meta. pkg = dict_set metadata_name (pk_dump env meta) files \<and> dict_wf files
    \<and> package_metadata report (file_hashes env files) = Inr meta
    \<and> (case map_of run report_name of None \<Rightarrow> report = JObj [] | Some c \<Rightarrow> pk_parse env c = Inr report)
    \<and> map_of files report_name = (if has_key run report_name then map_of run report_name
                                  else map_of (case out of None \<Rightarrow> [] | Some d \<Rightarrow> d) report_name)"
proof -
  define out0 where "out0 = (case out of None \<Rightarrow> [] | Some d \<Rightarrow> d)"
  define out3 where "out3 =
     (let out1 = copy_files [''adapter_model.safetensors'', ''adapter_model.bin'', ''adapter_config.json''] adapter out0;
          out2 = copy_files [report_name, ''target_eval_results.json'', ''final_analysis.md''] run out1
      in if has_key run ''README.md'' then copy_files [''README.md''] run out2 else copy_files [''README.md''] adapter out2)"
  have o3: "dict_wf out3" "map_of out3 report_name = (if has_key run report_name then map_of run report_name else map_of out0 report_name)"
    using assms(2) by (auto simp: out3_def Let_def out0_def[symmetric] copy_files_wf copy_files_lookup report_name_def)
  obtain report cff meta where r: "(case map_of run report_name of None \<Rightarrow> Inr (JObj []) | Some c \<Rightarrow> pk_parse env c) = Inr report"
    and c: "package_metadata report (file_hashes env (copy_files [''CITATION.cff''] cff out3)) = Inr meta"
      "pkg = dict_set metadata_name (pk_dump env meta) (copy_files [''CITATION.cff''] cff out3)"
    using assms(1)
    by (auto simp: package_release_def Let_def out0_def[symmetric] out3_def split: sum.splits if_splits)
  show ?thesis
    using c r o3 copy_files_wf[OF o3(1), of "[''CITATION.cff'']" cff]
    by (intro exI[of _ "copy_files [''CITATION.cff''] cff out3"] exI[of _ report] exI[of _ meta])
      (auto simp: copy_files_lookup report_name_def out0_def split: option.splits)
qed

lemma file_hashes_set:
  "(n, h) \<in> set (file_hashes env files) \<longleftrightarrow>
     (\<exists>c. (n, c) \<in> set files \<and> n \<noteq> metadata_name \<and> h = JStr (pk_sha256 env c))"
  by (auto simp: file_hashes_def hash_whole)

lemma package_metadata_fields:
  assumes "package_metadata report hashes = Inr meta"
  shows "\<exists>r d m. report = JObj r \<and> dict_get r ''release_decision_gate'' (JObj []) = JObj d \<and> meta = JObj m
    \<and> dict_get m ''integrity_hashes'' (JObj []) = JObj hashes
    \<and> dict_get m ''diagnostic_verdict'' JNull = dict_get d ''verdict'' JNull"
proof -
  have dict: "as_dict j = Inr d \<longleftrightarrow> j = JObj d" for j d by (cases j) auto
  show ?thesis using assms by (auto simp: package_metadata_def bindE_Inr_iff dict dict_get_def)
qed

text \<open>C35. A package that was released checks out, and tampering is detected: if the release succeeded, the
  check of its output exits with 0 (given that the metadata parses back, and that the output
  directory held no report of another run unless this run has one); and whichever file other than the
  metadata is then removed or replaced by one of another digest, the check no longer exits with 0.\<close>

theorem package_roundtrip:
  assumes "package_release env (Some run) (Some adapter) out = (Some pkg, Inr ())"
    and "dict_wf (case out of None \<Rightarrow> [] | Some d \<Rightarrow> d)"
    and "\<And>j. map_of pkg metadata_name = Some (pk_dump env j) \<Longrightarrow> pk_parse env (pk_dump env j) = Inr j"
    and "has_key run report_name \<or> \<not> has_key (case out of None \<Rightarrow> [] | Some d \<Rightarrow> d) report_name"
  shows "package_validate env pkg = Inr 0
    \<and> (\<forall>n c. map_of pkg n = Some c \<and> n \<noteq> metadata_name \<longrightarrow>
         package_validate env (dict_del n pkg) \<noteq> Inr 0
         \<and> (\<forall>c'. pk_sha256 env c' \<noteq> pk_sha256 env c \<longrightarrow> package_validate env (dict_set n c' pkg) \<noteq> Inr 0))"
proof -
  obtain files report meta where pkg: "pkg = dict_set metadata_name (pk_dump env meta) files" and wf: "dict_wf files"
    and meta: "package_metadata report (file_hashes env files) = Inr meta"
    and rep: "case map_of run report_name of None \<Rightarrow> report = JObj [] | Some c \<Rightarrow> pk_parse env c = Inr report"
    and fr: "map_of files report_name = (if has_key run report_name then map_of run report_name
                                  else map_of (case out of None \<Rightarrow> [] | Some d \<Rightarrow> d) report_name)"
    using package_release_cases[OF assms(1,2)] by blast
  obtain r d m where m: "report = JObj r" "dict_get r ''release_decision_gate'' (JObj []) = JObj d" "meta = JObj m"
      "dict_get m ''integrity_hashes'' (JObj []) = JObj (file_hashes env files)"
      "dict_get m ''diagnostic_verdict'' JNull = dict_get d ''verdict'' JNull"
    using package_metadata_fields[OF meta] by blast
  have name: "report_name \<noteq> metadata_name" by (simp add: report_name_def metadata_name_def)
  have parse: "pk_parse env (pk_dump env meta) = Inr (JObj m)" using assms(3)[of meta] pkg m(3) by simp
  have dm: "diagnostic_mismatch env pkg m = Inr False"
  proof (cases "map_of run report_name")
    case None
    then have "map_of pkg report_name = None" using fr assms(4) name by (simp add: pkg has_key_def)
    then show ?thesis by (simp add: diagnostic_mismatch_def)
  next
    case (Some c)
    then have "map_of pkg report_name = Some c" "pk_parse env c = Inr (JObj r)"
      using fr rep name m(1) by (simp_all add: pkg has_key_def)
    then show ?thesis using m(2,5) by (simp add: diagnostic_mismatch_def)
  qed
  have "package_validate env pkg = Inr 0"
    unfolding validate_ok_iff using parse m(4) dm wf
    by (intro exI[of _ "pk_dump env meta"] exI[of _ m] exI[of _ "file_hashes env files"])
      (auto simp: pkg file_hashes_set dict_in_set)
  moreover have "package_validate env dir \<noteq> Inr 0"
    if n: "map_of pkg n = Some c" "n \<noteq> metadata_name" and dir: "map_of dir metadata_name = map_of pkg metadata_name"
      "\<forall>c'. map_of dir n = Some c' \<longrightarrow> pk_sha256 env c' \<noteq> pk_sha256 env c" for n c dir
  proof
    assume "package_validate env dir = Inr 0"
    then obtain hashes where h: "JObj (file_hashes env files) = JObj hashes"
        "\<forall>(n, h)\<in>set hashes. \<exists>f. map_of dir n = Some f \<and> h = JStr (pk_sha256 env f)"
      unfolding validate_ok_iff using dir(1) pkg parse m(4) by auto
    have "(n, JStr (pk_sha256 env c)) \<in> set hashes"
      using n h(1) wf by (auto simp: pkg file_hashes_set dict_in_set)
    then show False using h(2) dir(2) by auto
  qed
  ultimately show ?thesis by auto
qed

definition sample_metadata :: json where
  "sample_metadata =
     (case package_metadata (JObj []) [(''adapter_config.json'', JStr ''3'')] of Inr j \<Rightarrow> j | Inl _ \<Rightarrow> JNull)"

definition sample_package_env :: package_env where
  "sample_package_env =
     \<lparr>pk_sha256 = (\<lambda>bs. if bs = [1, 2] then ''3'' else ''x''), pk_parse = (\<lambda>bs. Inr sample_metadata),
      pk_dump = (\<lambda>j. if j = sample_metadata then [8] else [9]), pk_str = (\<lambda>j. [])\<rparr>"

definition sample_package :: directory where
  "sample_package = [(''adapter_config.json'', [1, 2]), (metadata_name, [8])]"

lemma sample_release:
  "package_release sample_package_env (Some []) (Some [(''adapter_config.json'', [1, 2])]) None
     = (Some sample_package, Inr ())"
proof -
  have h: "file_hashes sample_package_env [(''adapter_config.json'', [1, 2])] = [(''adapter_config.json'', JStr ''3'')]"
    by (simp add: file_hashes_def hash_whole metadata_name_def sample_package_env_def)
  have m: "package_metadata (JObj []) [(''adapter_config.json'', JStr ''3'')] = Inr sample_metadata"
    by (simp add: sample_metadata_def package_metadata_def dict_get_def)
  have "copy_files [''adapter_model.safetensors'', ''adapter_model.bin'', ''adapter_config.json'']
      [(''adapter_config.json'', [1, 2 :: nat])] [] = [(''adapter_config.json'', [1, 2])]"
    by (simp add: copy_files_def)
  moreover have "copy_files ns [] d = d" for ns d
    by (induction ns) (simp_all add: copy_files_def)
  moreover have "copy_files [''README.md''] [(''adapter_config.json'', [1, 2])] d = d" for d
    by (simp add: copy_files_def)
  moreover have "pk_dump sample_package_env sample_metadata = [8]" by (simp add: sample_package_env_def)
  ultimately show ?thesis
    by (simp add: package_release_def Let_def has_key_def h m del: One_nat_def)
      (simp add: sample_package_def metadata_name_def)
qed

lemma package_roundtrip_witness:
  "package_validate sample_package_env sample_package = Inr 0
   \<and> package_validate sample_package_env (dict_set ''adapter_config.json'' [1, 3] sample_package) \<noteq> Inr 0"
proof -
  have parse: "pk_parse sample_package_env (pk_dump sample_package_env j) = Inr j"
    if "map_of sample_package metadata_name = Some (pk_dump sample_package_env j)" for j
    using that by (auto simp: sample_package_env_def sample_package_def metadata_name_def split: if_splits)
  have "map_of sample_package ''adapter_config.json'' = Some [1, 2] \<and> ''adapter_config.json'' \<noteq> metadata_name"
      "pk_sha256 sample_package_env [1, 3] \<noteq> pk_sha256 sample_package_env [1, 2]"
    by (simp_all add: sample_package_def metadata_name_def sample_package_env_def)
  then show ?thesis
    using package_roundtrip[OF sample_release _ parse] by (auto simp: has_key_def)
qed

text \<open>The metadata itself is not protected: any directory without a report passes once its metadata lists its
  own digests.\<close>

lemma forged_package_validates:
  assumes "dict_wf files" "\<not> has_key files report_name"
    and "pk_parse env c = Inr (JObj [(''integrity_hashes'', JObj (file_hashes env files))])"
  shows "package_validate env (dict_set metadata_name c files) = Inr 0"
  unfolding validate_ok_iff using assms
  by (auto simp: file_hashes_set dict_in_set dict_get_def diagnostic_mismatch_def has_key_def report_name_def metadata_name_def)

end
