(* ===== verification/Tensors.thy ===== *)
theory Tensors
  imports Prelude
begin

text \<open>
  Two-dimensional tensors as the projection uses them: a shape and exact real entries, with zero
  outside the shape. Slicing and padding follow PyTorch (a slice never goes past the end; \<open>pad\<close> with
  zeros), the product is the matrix product.
\<close>

record mat =
  mt_rows :: nat
  mt_cols :: nat
  mt_at :: "nat \<Rightarrow> nat \<Rightarrow> real"

definition mk :: "nat \<Rightarrow> nat \<Rightarrow> (nat \<Rightarrow> nat \<Rightarrow> real) \<Rightarrow> mat" where
  "mk r c f = \<lparr>mt_rows = r, mt_cols = c, mt_at = (\<lambda>i j. if i < r \<and> j < c then f i j else 0)\<rparr>"

definition mat_wf :: "mat \<Rightarrow> bool" where
  "mat_wf m \<longleftrightarrow> (\<forall>i j. \<not> (i < mt_rows m \<and> j < mt_cols m) \<longrightarrow> mt_at m i j = 0)"

definition take_rows :: "nat \<Rightarrow> mat \<Rightarrow> mat" where
  "take_rows k m = mk (min k (mt_rows m)) (mt_cols m) (mt_at m)"

definition take_cols :: "nat \<Rightarrow> mat \<Rightarrow> mat" where
  "take_cols k m = mk (mt_rows m) (min k (mt_cols m)) (mt_at m)"

definition pad_rows :: "nat \<Rightarrow> mat \<Rightarrow> mat" where
  "pad_rows k m = mk (mt_rows m + k) (mt_cols m) (\<lambda>i j. if i < mt_rows m then mt_at m i j else 0)"

definition pad_cols :: "nat \<Rightarrow> mat \<Rightarrow> mat" where
  "pad_cols k m = mk (mt_rows m) (mt_cols m + k) (\<lambda>i j. if j < mt_cols m then mt_at m i j else 0)"

definition mat_scale :: "real \<Rightarrow> mat \<Rightarrow> mat" where
  "mat_scale s m = mk (mt_rows m) (mt_cols m) (\<lambda>i j. mt_at m i j * s)"

definition mat_mul :: "mat \<Rightarrow> mat \<Rightarrow> mat" where
  "mat_mul a b = mk (mt_rows a) (mt_cols b) (\<lambda>i j. \<Sum>k<mt_cols a. mt_at a i k * mt_at b k j)"

text \<open>\<open>a @ b\<close>, which raises when the inner dimensions differ.\<close>

definition matmul :: "mat \<Rightarrow> mat \<Rightarrow> mat result" where
  "matmul a b =
     (if mt_cols a = mt_rows b then Inr (mat_mul a b)
      else Inl (PyExc RuntimeErrorE ''mat1 and mat2 shapes cannot be multiplied''))"

text \<open>The upper left block, with zeros where it is larger: what slicing and padding amount to.\<close>

definition resize :: "nat \<Rightarrow> nat \<Rightarrow> mat \<Rightarrow> mat" where
  "resize r c m = mk r c (mt_at m)"

named_theorems mat_simps \<open>shapes and entries of the operations\<close>

lemma mk_simps [mat_simps, simp]:
  "mt_rows (mk r c f) = r" "mt_cols (mk r c f) = c"
  "mt_at (mk r c f) i j = (if i < r \<and> j < c then f i j else 0)"
  "mat_wf (mk r c f)"
  by (simp_all add: mk_def mat_wf_def)

lemma op_shapes [mat_simps, simp]:
  "mt_rows (take_rows k m) = min k (mt_rows m)" "mt_cols (take_rows k m) = mt_cols m"
  "mt_rows (take_cols k m) = mt_rows m" "mt_cols (take_cols k m) = min k (mt_cols m)"
  "mt_rows (pad_rows k m) = mt_rows m + k" "mt_cols (pad_rows k m) = mt_cols m"
  "mt_rows (pad_cols k m) = mt_rows m" "mt_cols (pad_cols k m) = mt_cols m + k"
  "mt_rows (mat_scale s m) = mt_rows m" "mt_cols (mat_scale s m) = mt_cols m"
  "mt_rows (mat_mul a b) = mt_rows a" "mt_cols (mat_mul a b) = mt_cols b"
  "mt_rows (resize r c m) = r" "mt_cols (resize r c m) = c"
  by (simp_all add: take_rows_def take_cols_def pad_rows_def pad_cols_def mat_scale_def mat_mul_def resize_def)

lemma op_wf [mat_simps, simp]:
  "mat_wf (take_rows k m)" "mat_wf (take_cols k m)" "mat_wf (pad_rows k m)" "mat_wf (pad_cols k m)"
  "mat_wf (mat_scale s m)" "mat_wf (mat_mul a b)" "mat_wf (resize r c m)"
  by (simp_all add: take_rows_def take_cols_def pad_rows_def pad_cols_def mat_scale_def mat_mul_def resize_def)

lemma mat_at_outside: "mat_wf m \<Longrightarrow> \<not> (i < mt_rows m \<and> j < mt_cols m) \<Longrightarrow> mt_at m i j = 0"
  by (simp add: mat_wf_def)

lemma mat_eqI:
  assumes "mat_wf a" "mat_wf b" "mt_rows a = mt_rows b" "mt_cols a = mt_cols b"
    and "\<And>i j. i < mt_rows a \<Longrightarrow> j < mt_cols a \<Longrightarrow> mt_at a i j = mt_at b i j"
  shows "a = b"
proof -
  have "mt_at a = mt_at b"
  proof (intro ext)
    fix i j
    show "mt_at a i j = mt_at b i j"
      using assms(3-5) mat_at_outside[OF assms(1), of i j] mat_at_outside[OF assms(2), of i j]
      by (cases "i < mt_rows a \<and> j < mt_cols a") auto
  qed
  then show ?thesis using assms(3,4) by (cases a, cases b) simp
qed

text \<open>Slicing and padding are resizing.\<close>

lemma ops_resize:
  assumes "mat_wf m"
  shows "take_rows k m = resize (min k (mt_rows m)) (mt_cols m) m"
    "take_cols k m = resize (mt_rows m) (min k (mt_cols m)) m"
    "pad_rows k m = resize (mt_rows m + k) (mt_cols m) m"
    "pad_cols k m = resize (mt_rows m) (mt_cols m + k) m"
  by (rule mat_eqI;
      use assms in \<open>auto simp: take_rows_def take_cols_def pad_rows_def pad_cols_def resize_def mat_wf_def\<close>)+

lemma resize_id: "mat_wf m \<Longrightarrow> resize (mt_rows m) (mt_cols m) m = m"
  by (rule mat_eqI) (auto simp: resize_def)

text \<open>Two resizings are one, if the first does not cut what the second wants.\<close>

lemma resize_resize:
  assumes "mat_wf m" and "mt_rows m \<le> r \<or> r' \<le> r" and "mt_cols m \<le> c \<or> c' \<le> c"
  shows "resize r' c' (resize r c m) = resize r' c' m"
  by (rule mat_eqI) (use assms in \<open>auto simp: resize_def mat_wf_def\<close>)

text \<open>A product of resized factors is a resized product over the common inner part.\<close>

lemma mat_mul_resize:
  assumes "mat_wf a" "mat_wf b"
  shows "mat_mul (resize r k a) (resize k c b)
    = resize r c (mat_mul (take_cols k a) (take_rows k b))"
proof (rule mat_eqI)
  fix i j assume ij: "i < mt_rows (mat_mul (resize r k a) (resize k c b))"
    "j < mt_cols (mat_mul (resize r k a) (resize k c b))"
  let ?f = "\<lambda>l. mt_at a i l * mt_at b l j"
  have "(\<Sum>l<k. ?f l) = (\<Sum>l<min k (mt_cols a). ?f l)"
  proof (rule sum.mono_neutral_right)
    show "\<forall>l\<in>{..<k} - {..<min k (mt_cols a)}. ?f l = 0"
      using mat_at_outside[OF assms(1)] by (auto simp: min_def split: if_splits)
  qed auto
  moreover have "(\<Sum>l<min k (mt_cols a). (if i < mt_rows a \<and> l < k \<and> l < mt_cols a then mt_at a i l else 0)
        * (if l < k \<and> l < mt_rows b \<and> j < mt_cols b then mt_at b l j else 0)) = (\<Sum>l<min k (mt_cols a). ?f l)"
    by (rule sum.cong) (use assms in \<open>auto simp: mat_wf_def\<close>)
  ultimately show "mt_at (mat_mul (resize r k a) (resize k c b)) i j
      = mt_at (resize r c (mat_mul (take_cols k a) (take_rows k b))) i j"
    using ij assms by (auto simp: mat_mul_def resize_def take_cols_def take_rows_def mat_wf_def)
qed simp_all

lemma mat_mul_scale:
  assumes "mat_wf b"
  shows "mat_mul (mat_scale s a) (mat_scale t b) = mat_scale (s * t) (mat_mul a b)"
proof (rule mat_eqI)
  fix i j assume ij: "i < mt_rows (mat_mul (mat_scale s a) (mat_scale t b))"
    "j < mt_cols (mat_mul (mat_scale s a) (mat_scale t b))"
  have "(\<Sum>k<mt_cols a. mt_at (mat_scale s a) i k * mt_at (mat_scale t b) k j)
      = (\<Sum>k<mt_cols a. mt_at a i k * mt_at b k j * (s * t))"
    using ij mat_at_outside[OF assms] by (intro sum.cong) (auto simp: mat_scale_def mult_ac)
  then show "mt_at (mat_mul (mat_scale s a) (mat_scale t b)) i j = mt_at (mat_scale (s * t) (mat_mul a b)) i j"
    using ij by (simp add: mat_mul_def mat_scale_def sum_distrib_right)
qed (simp_all)

text \<open>Rounding to the nearest integer, ties to even, as \<open>torch.round\<close> and \<open>round\<close> do.\<close>

definition round_nearest :: "real \<Rightarrow> int" where
  "round_nearest x =
     (let f = \<lfloor>x\<rfloor>; d = x - of_int f
      in if d < 1 / 2 then f else if 1 / 2 < d then f + 1 else if even f then f else f + 1)"

lemma round_nearest_error: "\<bar>of_int (round_nearest x) - x\<bar> \<le> 1 / 2"
proof -
  have "of_int \<lfloor>x\<rfloor> \<le> x" "x < of_int \<lfloor>x\<rfloor> + 1" by linarith+
  then show ?thesis by (auto simp: round_nearest_def Let_def)
qed

lemma round_nearest_bounds: "of_int a \<le> x \<Longrightarrow> x \<le> of_int b \<Longrightarrow> a \<le> round_nearest x \<and> round_nearest x \<le> b"
  using round_nearest_error[of x] by linarith

text \<open>A singular value decomposition gives \<open>U\<close>, the singular values and \<open>Vh\<close>.\<close>

type_synonym svd = "mat \<Rightarrow> mat \<times> real list \<times> mat"

text \<open>The law of the singular value decomposition.\<close>

definition svd_of :: "mat \<Rightarrow> mat \<times> real list \<times> mat \<Rightarrow> bool" where
  "svd_of W usv =
     (case usv of (U, S, Vh) \<Rightarrow>
        mat_wf U \<and> mat_wf Vh \<and> mt_rows U = mt_rows W \<and> mt_cols U = length S \<and> mt_rows Vh = length S
        \<and> mt_cols Vh = mt_cols W \<and> (\<forall>s\<in>set S. 0 \<le> s)
        \<and> (\<forall>i < mt_rows W. \<forall>j < mt_cols W. mt_at W i j = (\<Sum>k<length S. mt_at U i k * S ! k * mt_at Vh k j)))"

end
