(* ===== verification/Layer_Names.thy ===== *)
theory Layer_Names
  imports Prelude
begin

text \<open>
  What the code reads off the names of parameters: which projection a name belongs to, and the index
  that a pattern such as \<open>layers\.(\d+)\.\<close> finds in it (core/adapters.py, core/diagnostic.py,
  cli/main.py, serving/model_layer_discovery.py). Digits are ASCII.
\<close>

section \<open>Names in keys\<close>

definition any_in :: "string list \<Rightarrow> string \<Rightarrow> bool" where
  "any_in xs key = list_ex (\<lambda>x. substring x key) xs"

text \<open>\<open>(\d+)\.\<close> at the front: the digits are those up to the first other character.\<close>

definition digits_dot :: "string \<Rightarrow> nat option" where
  "digits_dot s =
     (let ds = takeWhile is_digit s
      in if ds \<noteq> [] \<and> starts_with (drop (length ds) s) ''.'' then digits_val 0 ds else None)"

text \<open>The first alternative \<open>p(\d+)\.\<close> that matches at the front, and \<open>search\<close>: the leftmost match.\<close>

fun match_index :: "string list \<Rightarrow> string \<Rightarrow> nat option" where
  "match_index [] s = None"
| "match_index (p # ps) s =
     (case if starts_with s p then digits_dot (drop (length p) s) else None of
        Some n \<Rightarrow> Some n
      | None \<Rightarrow> match_index ps s)"

fun search_index :: "string list \<Rightarrow> string \<Rightarrow> nat option" where
  "search_index ps [] = match_index ps []"
| "search_index ps (c # cs) =
     (case match_index ps (c # cs) of Some n \<Rightarrow> Some n | None \<Rightarrow> search_index ps cs)"

section \<open>Facts on indices\<close>

lemma digits_val_digits:
  "\<forall>c\<in>set ds. is_digit c \<Longrightarrow> ds \<noteq> [] \<Longrightarrow> \<exists>n. digits_val acc ds = Some n"
proof (induction acc ds rule: digits_val.induct)
  case (3 acc c d cs)
  then have "d \<noteq> CHR ''_''" by (auto simp: is_digit_def)
  then show ?case using 3 by auto
qed auto

text \<open>A match is what it looks like: a prefix, digits and a dot.\<close>

lemma digits_dot_Some:
  assumes "digits_dot s = Some n"
  shows "\<exists>ds rest. s = ds @ ''.'' @ rest \<and> ds \<noteq> [] \<and> (\<forall>c\<in>set ds. is_digit c) \<and> digits_val 0 ds = Some n"
proof -
  let ?ds = "takeWhile is_digit s"
  have d: "?ds \<noteq> []" "starts_with (drop (length ?ds) s) ''.''" "digits_val 0 ?ds = Some n"
    using assms by (auto simp: digits_dot_def Let_def split: if_splits)
  from d(2) obtain rest where "drop (length ?ds) s = ''.'' @ rest" unfolding starts_with_iff by blast
  moreover have "s = ?ds @ drop (length ?ds) s" by (simp add: dropWhile_eq_drop[symmetric])
  ultimately have "s = ?ds @ ''.'' @ rest" by simp
  then show ?thesis using d set_takeWhileD by (metis (no_types, lifting))
qed

lemma match_index_Some:
  "match_index ps s = Some n \<Longrightarrow> \<exists>p ds rest. p \<in> set ps \<and> s = p @ ds @ ''.'' @ rest \<and> ds \<noteq> []
     \<and> (\<forall>c\<in>set ds. is_digit c) \<and> digits_val 0 ds = Some n"
proof (induction ps)
  case (Cons p ps)
  show ?case
  proof (cases "starts_with s p \<and> digits_dot (drop (length p) s) = Some n")
    case True
    then obtain t where t: "s = p @ t" by (auto simp: starts_with_iff)
    then have "digits_dot t = Some n" using True by simp
    then show ?thesis using digits_dot_Some[of t n] t by auto
  next
    case False
    then have "match_index ps s = Some n" using Cons.prems by (auto split: if_splits option.splits)
    then show ?thesis using Cons.IH by auto
  qed
qed simp

lemma search_index_Some:
  "search_index ps s = Some n \<Longrightarrow> \<exists>p ds a rest. p \<in> set ps \<and> s = a @ p @ ds @ ''.'' @ rest \<and> ds \<noteq> []
     \<and> (\<forall>c\<in>set ds. is_digit c) \<and> digits_val 0 ds = Some n"
proof (induction s)
  case Nil
  then show ?case using match_index_Some[of ps "[]" n] by fastforce
next
  case (Cons c cs)
  show ?case
  proof (cases "match_index ps (c # cs)")
    case None
    then obtain p ds a rest where h: "p \<in> set ps" "cs = a @ p @ ds @ ''.'' @ rest" "ds \<noteq> []"
        "\<forall>c\<in>set ds. is_digit c" "digits_val 0 ds = Some n" using Cons by auto
    then show ?thesis by (intro exI[of _ p] exI[of _ ds] exI[of _ "c # a"] exI[of _ rest]) simp
  next
    case (Some m)
    then have "match_index ps (c # cs) = Some n" using Cons.prems by simp
    then show ?thesis using match_index_Some by (metis append_Nil)
  qed
qed

text \<open>And a match that is there is found: some index results.\<close>

lemma digits_dot_append: "ds \<noteq> [] \<Longrightarrow> \<forall>c\<in>set ds. is_digit c \<Longrightarrow> digits_dot (ds @ ''.'' @ rest) \<noteq> None"
  using digits_val_digits[of ds 0] by (auto simp: digits_dot_def is_digit_def)

lemma match_index_ex: "p \<in> set ps \<Longrightarrow> starts_with s p \<Longrightarrow> digits_dot (drop (length p) s) \<noteq> None \<Longrightarrow> match_index ps s \<noteq> None"
  by (induction ps) (auto split: option.splits)

lemma search_index_found:
  assumes "p \<in> set ps" "ds \<noteq> []" "\<forall>c\<in>set ds. is_digit c"
  shows "search_index ps (a @ p @ ds @ ''.'' @ rest) \<noteq> None"
proof (induction a)
  case Nil
  have "match_index ps (p @ ds @ ''.'' @ rest) \<noteq> None"
    using match_index_ex[OF assms(1)] digits_dot_append[OF assms(2,3)] by simp
  then show ?case by (cases "p @ ds @ ''.'' @ rest") (auto split: option.split)
next
  case (Cons c a)
  then show ?case by (auto split: option.split)
qed

end
