(* ===== verification/Adapters.thy ===== *)
theory Adapters
  imports Diagnostics Tensors Layer_Names
begin

text \<open>
  The structural projection of LoRA adapters (core/adapters.py) with the factorisation it uses
  (\<open>factorize_to_lora\<close> of core/math.py). Tensors are two-dimensional with exact real entries, scales are
  rational; the singular value decomposition is a parameter with its usual law (\<open>svd_of\<close>). Model
  information is the dictionary form. Warnings and the head pooling that no projection calls are left out;
  the applied scales, which the code files in the health object, are a field of the adapter.
\<close>

section \<open>Adapters\<close>

record scaling_config =
  sc_moderately_concentrated_scale :: rat
  sc_low_normalized_entropy_scale :: rat
  sc_outlier_layer_scale :: rat
  sc_min_scale :: rat
  sc_max_scale :: rat
  sc_enabled :: bool

definition default_scaling_config :: scaling_config where
  "default_scaling_config =
     \<lparr>sc_moderately_concentrated_scale = 9 / 10, sc_low_normalized_entropy_scale = 8 / 10,
      sc_outlier_layer_scale = 7 / 10, sc_min_scale = 2 / 10, sc_max_scale = 1, sc_enabled = True\<rparr>"

datatype adapter_kind = BaseAdapter | Llama3ToQwen2Adapter | SDXLToSDXLAdapter | SDXLToFluxAdapter

type_synonym model_info = "(string, nat) dict"

record adapter_options =
  ao_rank :: nat
  ao_delta_health :: "delta_health option"
  ao_projection_mode :: string
  ao_scaling_config :: "scaling_config option"
  ao_piecewise_modules :: "string list option"
  ao_piecewise_layers :: "int list option"
  ao_piecewise_max_layers :: "int option"

record adapter =
  ad_kind :: adapter_kind
  ad_source_hidden :: nat
  ad_source_heads :: nat
  ad_source_inter :: nat
  ad_source_kv_hidden :: nat
  ad_target_hidden :: nat
  ad_target_heads :: nat
  ad_target_inter :: nat
  ad_target_kv_hidden :: nat
  ad_target_rank :: nat
  ad_delta_health :: "delta_health option"
  ad_projection_mode :: string
  ad_scaling_config :: scaling_config
  ad_piecewise_modules :: "string list option"
  ad_piecewise_layers :: "int list option"
  ad_piecewise_max_layers :: "int option"
  ad_piecewise_counter :: nat
  ad_pair_buffer :: "(string, (string, mat) dict) dict"
  ad_applied_scales :: "(string, rat) dict"

definition py_floordiv :: "nat \<Rightarrow> nat \<Rightarrow> nat result" where
  "py_floordiv a b =
     (if b = 0 then Inl (PyExc ZeroDivisionErrorE ''integer division or modulo by zero'') else Inr (a div b))"

text \<open>\<open>BaseAdapter.__init__\<close> and, for the structural adapter, what its constructor adds.\<close>

definition init_adapter :: "adapter_kind \<Rightarrow> model_info \<Rightarrow> model_info \<Rightarrow> adapter_options \<Rightarrow> adapter result" where
  "init_adapter kind source_info target_info opts =
     (let s_hidden = dict_get source_info ''hidden_size'' 4096; s_heads = dict_get source_info ''num_attention_heads'' 32;
          t_hidden = dict_get target_info ''hidden_size'' 4096; t_heads = dict_get target_info ''num_attention_heads'' 32
      in bindE (py_floordiv s_hidden s_heads) (\<lambda>s_dim.
         bindE (py_floordiv t_hidden t_heads) (\<lambda>t_dim.
           Inr \<lparr>ad_kind = kind, ad_source_hidden = s_hidden, ad_source_heads = s_heads,
                ad_source_inter = dict_get source_info ''intermediate_size'' 14336,
                ad_source_kv_hidden = dict_get source_info ''num_key_value_heads'' s_heads * s_dim,
                ad_target_hidden = t_hidden, ad_target_heads = t_heads,
                ad_target_inter = dict_get target_info ''intermediate_size'' 14336,
                ad_target_kv_hidden = dict_get target_info ''num_key_value_heads'' t_heads * t_dim,
                ad_target_rank = ao_rank opts, ad_delta_health = ao_delta_health opts,
                ad_projection_mode = ao_projection_mode opts,
                ad_scaling_config = (case ao_scaling_config opts of None \<Rightarrow> default_scaling_config | Some c \<Rightarrow> c),
                ad_piecewise_modules = ao_piecewise_modules opts, ad_piecewise_layers = ao_piecewise_layers opts,
                ad_piecewise_max_layers = ao_piecewise_max_layers opts, ad_piecewise_counter = 0,
                ad_pair_buffer = [], ad_applied_scales = []\<rparr>)))"

definition llm_arches :: "string list" where
  "llm_arches = [''llama'', ''qwen'', ''mistral'', ''gemma'']"

definition get_adapter :: "string \<Rightarrow> string \<Rightarrow> model_info \<Rightarrow> model_info \<Rightarrow> adapter_options \<Rightarrow> adapter result" where
  "get_adapter source_arch target_arch source_info target_info opts =
     (let s = str_lower source_arch; t = str_lower target_arch;
          plain = opts\<lparr>ao_piecewise_modules := None, ao_piecewise_layers := None, ao_piecewise_max_layers := None\<rparr>
      in if s \<in> set llm_arches \<and> t \<in> set llm_arches
         then init_adapter Llama3ToQwen2Adapter source_info target_info opts
         else if s = ''sdxl'' \<and> t = ''flux'' then init_adapter SDXLToFluxAdapter source_info target_info plain
         else if s = ''sdxl'' \<and> t = ''sdxl'' then init_adapter SDXLToSDXLAdapter source_info target_info plain
         else init_adapter BaseAdapter source_info target_info opts)"

section \<open>Adaptive scale\<close>

definition layer_prefixes :: "string list" where
  "layer_prefixes = [''layers.'', ''h.'', ''blocks.'']"

definition layer_of :: "string \<Rightarrow> nat option" where
  "layer_of key = search_index layer_prefixes key"

definition outlier_listed :: "nat \<Rightarrow> string list \<Rightarrow> bool" where
  "outlier_listed layer_idx outliers = list_ex (\<lambda>outlier. substring (''Layer '' @ nat_str layer_idx) outlier) outliers"

definition health_scale :: "scaling_config \<Rightarrow> delta_health \<Rightarrow> string \<Rightarrow> rat" where
  "health_scale c health key =
     (let moderate = (if dh_verdict health = ''MODERATELY_CONCENTRATED'' then sc_moderately_concentrated_scale c else 1);
          entropy = (if dh_normalized_spectral_entropy health < 5 / 10 then sc_low_normalized_entropy_scale c else 1);
          outlier = (case layer_of key of
                       None \<Rightarrow> 1
                     | Some layer_idx \<Rightarrow> if outlier_listed layer_idx (dh_outliers health) then sc_outlier_layer_scale c else 1)
      in max (sc_min_scale c) (min (sc_max_scale c) (moderate * entropy * outlier)))"

definition adaptive_scale :: "adapter \<Rightarrow> string \<Rightarrow> rat" where
  "adaptive_scale ad key =
     (case ad_delta_health ad of
        None \<Rightarrow> 1
      | Some health \<Rightarrow> if \<not> sc_enabled (ad_scaling_config ad) then 1 else health_scale (ad_scaling_config ad) health key)"

definition get_adaptive_scale :: "string \<Rightarrow> (adapter, rat) act" where
  "get_adaptive_scale key ad =
     (if \<not> sc_enabled (ad_scaling_config ad) \<or> ad_delta_health ad = None then (ad, Inr 1)
      else (ad\<lparr>ad_applied_scales := dict_set key (adaptive_scale ad key) (ad_applied_scales ad)\<rparr>,
            Inr (adaptive_scale ad key)))"

section \<open>Linear projection\<close>

definition project_dim :: "mat \<Rightarrow> nat \<Rightarrow> nat \<Rightarrow> nat \<Rightarrow> mat" where
  "project_dim tensor src_dim tgt_dim d =
     (if src_dim = tgt_dim then tensor
      else if d = 1
      then if src_dim > tgt_dim then take_cols tgt_dim tensor else pad_cols (tgt_dim - src_dim) tensor
      else if src_dim > tgt_dim then take_rows tgt_dim tensor else pad_rows (tgt_dim - src_dim) tensor)"

text \<open>Source and target dimension of the features of a key.\<close>

definition feature_dims :: "adapter \<Rightarrow> string \<Rightarrow> nat \<times> nat" where
  "feature_dims ad key =
     (if substring ''lora_A'' key
      then if substring ''down_proj'' key then (ad_source_inter ad, ad_target_inter ad)
           else (ad_source_hidden ad, ad_target_hidden ad)
      else if any_in [''k_proj'', ''v_proj''] key then (ad_source_kv_hidden ad, ad_target_kv_hidden ad)
      else if substring ''down_proj'' key then (ad_source_hidden ad, ad_target_hidden ad)
      else if any_in [''gate_proj'', ''up_proj''] key then (ad_source_inter ad, ad_target_inter ad)
      else (ad_source_hidden ad, ad_target_hidden ad))"

definition legacy_project :: "adapter \<Rightarrow> string \<Rightarrow> mat \<Rightarrow> mat" where
  "legacy_project ad key tensor =
     (let (src_dim, tgt_dim) = feature_dims ad key;
          src_rank = (if substring ''lora_A'' key then mt_rows tensor else mt_cols tensor);
          tgt_rank = ad_target_rank ad
      in if substring ''lora_A'' key
         then let t = project_dim tensor src_dim tgt_dim 1
              in if src_rank > tgt_rank then take_rows tgt_rank t else pad_rows (tgt_rank - src_rank) t
         else if substring ''lora_B'' key
         then let t = project_dim tensor src_dim tgt_dim 0
              in if src_rank > tgt_rank then take_cols tgt_rank t else pad_cols (tgt_rank - src_rank) t
         else tensor)"

text \<open>The result of \<open>project_tensor\<close>: nothing yet, a tensor, or a dictionary of tensors.\<close>

datatype projected = Buffered | OneTensor mat | TensorDict "(string, mat) dict"

definition linear_project :: "string \<Rightarrow> mat \<Rightarrow> (adapter, projected) act" where
  "linear_project key tensor ad =
     bindS (get_adaptive_scale key) (\<lambda>scale.
       liftS (Inr (OneTensor (mat_scale (of_rat scale) (legacy_project ad key tensor))))) ad"

section \<open>Piecewise projection\<close>

definition factorize_to_lora :: "svd \<Rightarrow> mat \<Rightarrow> nat \<Rightarrow> mat \<times> mat" where
  "factorize_to_lora svd W rank =
     (let (U, S, Vh) = svd W;
          U_r = take_cols rank U; S_r = take rank S; Vh_r = take_rows rank Vh
      in (mk (mt_rows Vh_r) (mt_cols Vh_r) (\<lambda>i j. sqrt (S_r ! i) * mt_at Vh_r i j),
          mk (mt_rows U_r) (mt_cols U_r) (\<lambda>i j. mt_at U_r i j * sqrt (S_r ! j))))"

definition is_mlp_key :: "string \<Rightarrow> bool" where
  "is_mlp_key key = any_in [''gate_proj'', ''up_proj'', ''down_proj''] key"

definition use_piecewise :: "adapter \<Rightarrow> string \<Rightarrow> bool" where
  "use_piecewise ad key \<longleftrightarrow>
     (case ad_piecewise_modules ad of Some (m # ms) \<Rightarrow> any_in (m # ms) key | _ \<Rightarrow> True)
     \<and> (case (ad_piecewise_layers ad, layer_of key) of
          (Some (l # ls), Some layer_idx) \<Rightarrow> int layer_idx \<in> set (l # ls) | _ \<Rightarrow> True)
     \<and> (case ad_piecewise_max_layers ad of None \<Rightarrow> True | Some k \<Rightarrow> int (ad_piecewise_counter ad) < k)"

definition base_key :: "string \<Rightarrow> string" where
  "base_key key = replace_all ''.lora_B.weight'' [] (replace_all ''.lora_A.weight'' [] key)"

text \<open>Input and output dimension of the target module.\<close>

definition target_dims :: "adapter \<Rightarrow> string \<Rightarrow> nat \<times> nat" where
  "target_dims ad key =
     (if any_in [''k_proj'', ''v_proj''] key then (ad_target_hidden ad, ad_target_kv_hidden ad)
      else if substring ''down_proj'' key then (ad_target_inter ad, ad_target_hidden ad)
      else if any_in [''gate_proj'', ''up_proj''] key then (ad_target_hidden ad, ad_target_inter ad)
      else (ad_target_hidden ad, ad_target_hidden ad))"

definition resize_delta :: "nat \<Rightarrow> nat \<Rightarrow> mat \<Rightarrow> mat" where
  "resize_delta tgt_out tgt_in delta =
     (if mt_rows delta > tgt_out \<or> mt_cols delta > tgt_in then take_cols tgt_in (take_rows tgt_out delta)
      else pad_rows (tgt_out - mt_rows delta) (pad_cols (tgt_in - mt_cols delta) delta))"

definition project_pair :: "svd \<Rightarrow> string \<Rightarrow> string \<Rightarrow> mat \<Rightarrow> mat \<Rightarrow> (adapter, projected) act" where
  "project_pair svd key base A B ad =
     bindS (liftS (matmul B A)) (\<lambda>delta.
       let (tgt_in, tgt_out) = target_dims ad key;
           (A_new, B_new) = factorize_to_lora svd (resize_delta tgt_out tgt_in delta) (ad_target_rank ad)
       in bindS (get_adaptive_scale key) (\<lambda>scale.
            let sqrt_scale = sqrt (of_rat scale)
            in liftS (Inr (TensorDict [(base @ ''.lora_A.weight'', mat_scale sqrt_scale A_new),
                                 (base @ ''.lora_B.weight'', mat_scale sqrt_scale B_new)])))) ad"

definition buffered_project :: "svd \<Rightarrow> string \<Rightarrow> mat \<Rightarrow> (adapter, projected) act" where
  "buffered_project svd key tensor ad =
     (let base = base_key key;
          entry = dict_set (if substring ''lora_A'' key then ''A'' else ''B'') tensor
                    (dict_get (ad_pair_buffer ad) base []);
          buffer = dict_set base entry (ad_pair_buffer ad)
      in case (map_of entry ''A'', map_of entry ''B'') of
           (Some A, Some B) \<Rightarrow>
             project_pair svd key base A B
               (ad\<lparr>ad_piecewise_counter := ad_piecewise_counter ad + 1, ad_pair_buffer := dict_del base buffer\<rparr>)
         | _ \<Rightarrow> (ad\<lparr>ad_pair_buffer := buffer\<rparr>, Inr Buffered))"

definition structural_project :: "svd \<Rightarrow> string \<Rightarrow> mat \<Rightarrow> (adapter, projected) act" where
  "structural_project svd key tensor ad =
     (if ad_projection_mode ad = ''piecewise'' \<and> is_mlp_key key
      then if \<not> use_piecewise ad key then linear_project key tensor ad
           else buffered_project svd key tensor ad
      else linear_project key tensor ad)"

text \<open>\<open>pca_guided_subspace_injection\<close> on the principal components \<open>Vh\<close> of the target activations; the
  Flux adapter takes random activations of one row, so \<open>Vh\<close> is a parameter.\<close>

definition subspace_injection :: "mat \<Rightarrow> mat \<Rightarrow> mat result" where
  "subspace_injection source_tensor Vh =
     (if mt_cols source_tensor \<le> mt_rows Vh
      then matmul source_tensor (take_rows (mt_cols source_tensor) Vh)
      else matmul (take_cols (mt_rows Vh) source_tensor) Vh)"

definition project_tensor :: "svd \<Rightarrow> mat \<Rightarrow> string \<Rightarrow> mat \<Rightarrow> (adapter, projected) act" where
  "project_tensor svd Vh key tensor ad =
     (case ad_kind ad of
        Llama3ToQwen2Adapter \<Rightarrow> structural_project svd key tensor ad
      | SDXLToFluxAdapter \<Rightarrow> bindS (liftS (subspace_injection tensor Vh)) (\<lambda>t. liftS (Inr (OneTensor t))) ad
      | _ \<Rightarrow> (ad, Inr (OneTensor tensor)))"

definition map_key :: "adapter \<Rightarrow> string \<Rightarrow> string" where
  "map_key ad key = key"

text \<open>The keys that \<open>finalize\<close> warns about: pairs that stayed incomplete.\<close>

definition finalize :: "adapter \<Rightarrow> string list" where
  "finalize ad = dict_keys (ad_pair_buffer ad)"

section \<open>Linear projection resizes the delta\<close>

lemma project_dim_resize:
  assumes "mat_wf t"
  shows "mt_cols t = s \<Longrightarrow> project_dim t s d 1 = resize (mt_rows t) d t"
    "mt_rows t = s \<Longrightarrow> project_dim t s d 0 = resize d (mt_cols t) t"
  using assms by (auto simp: project_dim_def ops_resize resize_id min_def)

lemma legacy_project_resize:
  assumes "mat_wf t"
  shows "substring ''lora_A'' key \<Longrightarrow> mt_cols t = fst (feature_dims ad key) \<Longrightarrow>
      legacy_project ad key t = resize (ad_target_rank ad) (snd (feature_dims ad key)) t"
    "\<not> substring ''lora_A'' key \<Longrightarrow> substring ''lora_B'' key \<Longrightarrow> mt_rows t = fst (feature_dims ad key) \<Longrightarrow>
      legacy_project ad key t = resize (snd (feature_dims ad key)) (ad_target_rank ad) t"
  using assms
  by (auto simp: legacy_project_def Let_def project_dim_resize[unfolded One_nat_def] ops_resize resize_resize min_def split: prod.splits)

lemma get_scale_eq:
  "\<exists>a. get_adaptive_scale key ad = (ad\<lparr>ad_applied_scales := a\<rparr>, Inr (adaptive_scale ad key))"
proof (cases "\<not> sc_enabled (ad_scaling_config ad) \<or> ad_delta_health ad = None")
  case True
  then have "adaptive_scale ad key = 1" unfolding adaptive_scale_def by (auto split: option.split)
  moreover have "ad\<lparr>ad_applied_scales := ad_applied_scales ad\<rparr> = ad" by simp
  ultimately show ?thesis using True unfolding get_adaptive_scale_def by metis
next
  case False
  then show ?thesis unfolding get_adaptive_scale_def by (simp only: if_False) (rule exI, rule refl)
qed

lemma linear_project_eq:
  "\<exists>a. linear_project key t ad = (ad\<lparr>ad_applied_scales := a\<rparr>,
     Inr (OneTensor (mat_scale (of_rat (adaptive_scale ad key)) (legacy_project ad key t))))"
  using get_scale_eq[of key ad] by (auto simp: linear_project_def bindS_def liftS_def)

lemma applied_scales_frame [frame_simps]:
  "adaptive_scale (ad\<lparr>ad_applied_scales := a\<rparr>) key = adaptive_scale ad key"
  "feature_dims (ad\<lparr>ad_applied_scales := a\<rparr>) key = feature_dims ad key"
  "legacy_project (ad\<lparr>ad_applied_scales := a\<rparr>) key t = legacy_project ad key t"
  "use_piecewise (ad\<lparr>ad_applied_scales := a\<rparr>) key = use_piecewise ad key"
  by (simp_all add: adaptive_scale_def feature_dims_def legacy_project_def use_piecewise_def
      cong: option.case_cong prod.case_cong if_cong)

lemma feature_dims_target:
  "substring ''lora_A'' k \<Longrightarrow> \<not> (any_in [''k_proj'', ''v_proj''] k \<and> substring ''down_proj'' k) \<Longrightarrow>
     snd (feature_dims ad k) = fst (target_dims ad k)"
  "\<not> substring ''lora_A'' k \<Longrightarrow> snd (feature_dims ad k) = snd (target_dims ad k)"
  by (auto simp: feature_dims_def target_dims_def)

text \<open>C21. What the linear projection of an adapter pair means for the weights: if neither key is
  projected piecewise, the two projected factors have the target rank and the dimensions of the target module, and
  they multiply to the delta \<open>B A\<close> cut and padded to those dimensions, after the rank is cut to the target
  rank, and scaled by the product of the two adaptive scales; a pair whose rank fits loses nothing of
  the block that is kept.\<close>

theorem linear_projection_delta:
  assumes kind: "ad_kind ad = Llama3ToQwen2Adapter"
    and linear: "\<forall>k\<in>{kA, kB}. ad_projection_mode ad \<noteq> ''piecewise'' \<or> \<not> is_mlp_key k \<or> \<not> use_piecewise ad k"
    and names: "substring ''lora_A'' kA" "\<not> substring ''lora_A'' kB" "substring ''lora_B'' kB"
      "\<not> (any_in [''k_proj'', ''v_proj''] kA \<and> substring ''down_proj'' kA)"
    and shapes: "mat_wf A" "mat_wf B" "mt_cols B = mt_rows A"
      "mt_cols A = fst (feature_dims ad kA)" "mt_rows B = fst (feature_dims ad kB)"
  shows "\<exists>ad1 ad2 A' B'. project_tensor svd Vh kA A ad = (ad1, Inr (OneTensor A'))
    \<and> project_tensor svd Vh kB B ad1 = (ad2, Inr (OneTensor B'))
    \<and> mt_rows A' = ad_target_rank ad \<and> mt_cols A' = fst (target_dims ad kA)
    \<and> mt_rows B' = snd (target_dims ad kB) \<and> mt_cols B' = ad_target_rank ad
    \<and> mat_mul B' A' = mat_scale (of_rat (adaptive_scale ad kB * adaptive_scale ad kA))
        (resize (snd (target_dims ad kB)) (fst (target_dims ad kA))
          (mat_mul (take_cols (ad_target_rank ad) B) (take_rows (ad_target_rank ad) A)))
    \<and> (mt_rows A \<le> ad_target_rank ad \<longrightarrow>
        mat_mul (take_cols (ad_target_rank ad) B) (take_rows (ad_target_rank ad) A) = mat_mul B A)"
proof -
  obtain a where a: "linear_project kA A ad = (ad\<lparr>ad_applied_scales := a\<rparr>,
      Inr (OneTensor (mat_scale (of_rat (adaptive_scale ad kA)) (legacy_project ad kA A))))"
    using linear_project_eq by blast
  let ?ad1 = "ad\<lparr>ad_applied_scales := a\<rparr>"
  obtain b where b: "linear_project kB B ?ad1 = (?ad1\<lparr>ad_applied_scales := b\<rparr>,
      Inr (OneTensor (mat_scale (of_rat (adaptive_scale ?ad1 kB)) (legacy_project ?ad1 kB B))))"
    using linear_project_eq by blast
  have dims: "snd (feature_dims ad kA) = fst (target_dims ad kA)" "snd (feature_dims ad kB) = snd (target_dims ad kB)"
    using feature_dims_target names by blast+
  have A': "legacy_project ad kA A = resize (ad_target_rank ad) (fst (target_dims ad kA)) A"
    and B': "legacy_project ad kB B = resize (snd (target_dims ad kB)) (ad_target_rank ad) B"
    using legacy_project_resize[of A kA ad] legacy_project_resize[of B kB ad] names shapes unfolding dims by blast+
  have "project_tensor svd Vh kA A ad = linear_project kA A ad"
      "project_tensor svd Vh kB B ?ad1 = linear_project kB B ?ad1"
    using kind linear by (auto simp: project_tensor_def structural_project_def frame_simps)
  moreover have "mat_mul (mat_scale (of_rat (adaptive_scale ad kB)) (legacy_project ad kB B))
      (mat_scale (of_rat (adaptive_scale ad kA)) (legacy_project ad kA A))
    = mat_scale (of_rat (adaptive_scale ad kB * adaptive_scale ad kA))
        (resize (snd (target_dims ad kB)) (fst (target_dims ad kA))
          (mat_mul (take_cols (ad_target_rank ad) B) (take_rows (ad_target_rank ad) A)))"
    unfolding A' B' by (simp add: mat_mul_scale mat_mul_resize shapes of_rat_mult)
  moreover have "mt_rows A \<le> ad_target_rank ad \<Longrightarrow>
      mat_mul (take_cols (ad_target_rank ad) B) (take_rows (ad_target_rank ad) A) = mat_mul B A"
    using shapes by (simp add: ops_resize min_absorb2 resize_id)
      (metis resize_id shapes(3))
  ultimately show ?thesis using a b A' B' by (auto simp: frame_simps)
qed

text \<open>A sample pair of one rank: hidden size 4 to 2, in a health report of low entropy.\<close>

definition sample_options :: adapter_options where
  "sample_options =
     \<lparr>ao_rank = 1, ao_delta_health = Some (new_delta_health\<lparr>dh_normalized_spectral_entropy := 3 / 10\<rparr>),
      ao_projection_mode = ''linear'', ao_scaling_config = None, ao_piecewise_modules = None,
      ao_piecewise_layers = None, ao_piecewise_max_layers = None\<rparr>"

definition sample_info :: "nat \<Rightarrow> model_info" where
  "sample_info hidden = [(''hidden_size'', hidden), (''num_attention_heads'', 1), (''intermediate_size'', hidden),
     (''num_key_value_heads'', 1)]"

definition sample_adapter :: "adapter_options \<Rightarrow> adapter" where
  "sample_adapter opts =
     (case get_adapter ''llama'' ''qwen'' (sample_info 4) (sample_info 2) opts of Inr ad \<Rightarrow> ad | Inl _ \<Rightarrow> undefined)"

lemma sample_adapter_fields:
  "ad_kind (sample_adapter opts) = Llama3ToQwen2Adapter"
  "ad_projection_mode (sample_adapter opts) = ao_projection_mode opts"
  "ad_target_rank (sample_adapter opts) = ao_rank opts"
  "ad_delta_health (sample_adapter opts) = ao_delta_health opts"
  "ad_piecewise_modules (sample_adapter opts) = ao_piecewise_modules opts"
  "ad_piecewise_layers (sample_adapter opts) = ao_piecewise_layers opts"
  "ad_piecewise_max_layers (sample_adapter opts) = ao_piecewise_max_layers opts"
  "ad_scaling_config (sample_adapter opts) = (case ao_scaling_config opts of None \<Rightarrow> default_scaling_config | Some c \<Rightarrow> c)"
  "ad_piecewise_counter (sample_adapter opts) = 0" "ad_pair_buffer (sample_adapter opts) = []"
  "ad_source_hidden (sample_adapter opts) = 4" "ad_target_hidden (sample_adapter opts) = 2"
  "ad_source_inter (sample_adapter opts) = 4" "ad_target_inter (sample_adapter opts) = 2"
  by (simp_all add: sample_adapter_def get_adapter_def init_adapter_def sample_info_def llm_arches_def
      py_floordiv_def dict_get_def str_lower_def lower_char_def Let_def)

lemma linear_projection_delta_witness:
  "\<forall>svd0 V0. \<exists>ad1 ad2 A' B'.
     project_tensor svd0 V0 ''q_proj.lora_A.weight'' (mk 1 4 (\<lambda>_ _. 1)) (sample_adapter sample_options) = (ad1, Inr (OneTensor A'))
     \<and> project_tensor svd0 V0 ''q_proj.lora_B.weight'' (mk 4 1 (\<lambda>_ _. 1)) ad1 = (ad2, Inr (OneTensor B'))
     \<and> mat_mul B' A' = mat_scale (16 / 25) (resize 2 2 (mat_mul (mk 4 1 (\<lambda>_ _. 1)) (mk 1 4 (\<lambda>_ _. 1))))"
    (is "\<forall>svd0 V0. ?P svd0 V0")
proof -
  let ?kA = "''q_proj.lora_A.weight''" let ?kB = "''q_proj.lora_B.weight''" let ?ad = "sample_adapter sample_options"
  let ?A = "mk 1 4 (\<lambda>_ _. 1)" let ?B = "mk 4 1 (\<lambda>_ _. 1)"
  have h: "layer_of ?kA = None" "layer_of ?kB = None" by code_simp+
  have scale: "adaptive_scale ?ad ?kA = 4 / 5" "adaptive_scale ?ad ?kB = 4 / 5"
    by (simp_all add: adaptive_scale_def health_scale_def h sample_adapter_fields sample_options_def
        default_scaling_config_def new_delta_health_def Let_def)
  have dims: "feature_dims ?ad ?kA = (4, 2)" "feature_dims ?ad ?kB = (4, 2)"
    by (simp_all add: feature_dims_def any_in_def sample_adapter_fields)
  have lin: "\<forall>k\<in>{?kA, ?kB}. ad_projection_mode ?ad \<noteq> ''piecewise'' \<or> \<not> is_mlp_key k \<or> \<not> use_piecewise ?ad k"
    by (simp add: sample_adapter_fields sample_options_def)
  have names: "substring ''lora_A'' ?kA" "\<not> substring ''lora_A'' ?kB" "substring ''lora_B'' ?kB"
      "\<not> (any_in [''k_proj'', ''v_proj''] ?kA \<and> substring ''down_proj'' ?kA)" by (simp_all add: any_in_def)
  have rank: "ad_target_rank ?ad = 1" by (simp add: sample_adapter_fields sample_options_def)
  have shapes: "mt_cols ?B = mt_rows ?A" "mt_cols ?A = fst (feature_dims ?ad ?kA)" "mt_rows ?B = fst (feature_dims ?ad ?kB)"
    unfolding dims by simp_all
  have tdims: "target_dims ?ad ?kA = (2, 2)" "target_dims ?ad ?kB = (2, 2)"
    by (simp_all add: target_dims_def any_in_def sample_adapter_fields)
  have of_rat: "of_rat (4 / 5 * (4 / 5)) = (16 / 25 :: real)" by (simp add: of_rat_divide)
  show ?thesis
  proof (intro allI)
    fix svd0 V0
    from linear_projection_delta[where svd = svd0 and Vh = V0,
        OF sample_adapter_fields(1) lin names mk_simps(4) mk_simps(4) shapes]
    show "?P svd0 V0" unfolding scale tdims rank of_rat by fastforce
  qed
qed

section \<open>Piecewise projection\<close>

lemma factorize_product:
  assumes law: "svd_of W (svd W)" and wf: "mat_wf W"
    and low: "\<forall>k < length (fst (snd (svd W))). rank \<le> k \<longrightarrow> fst (snd (svd W)) ! k = 0"
    and f: "factorize_to_lora svd W rank = (A, B)"
  shows "mat_mul B A = W" and "mat_wf A" and "mat_wf B"
proof -
  obtain U S Vh where usv: "svd W = (U, S, Vh)" by (cases "svd W") auto
  have l: "mat_wf U" "mat_wf Vh" "mt_rows U = mt_rows W" "mt_cols U = length S" "mt_rows Vh = length S"
      "mt_cols Vh = mt_cols W" "\<forall>s\<in>set S. 0 \<le> s"
      "\<And>i j. i < mt_rows W \<Longrightarrow> j < mt_cols W \<Longrightarrow> mt_at W i j = (\<Sum>k<length S. mt_at U i k * S ! k * mt_at Vh k j)"
    using law by (auto simp: svd_of_def usv)
  have low': "k < length S \<Longrightarrow> rank \<le> k \<Longrightarrow> S ! k = 0" for k using low by (simp add: usv)
  have A: "A = mk (min rank (length S)) (mt_cols W) (\<lambda>i j. sqrt (take rank S ! i) * mt_at (take_rows rank Vh) i j)"
    and B: "B = mk (mt_rows W) (min rank (length S)) (\<lambda>i j. mt_at (take_cols rank U) i j * sqrt (take rank S ! j))"
    using f l(3-6) by (simp_all add: factorize_to_lora_def usv Let_def)
  show "mat_wf A" "mat_wf B" by (simp_all add: A B)
  show "mat_mul B A = W"
  proof (rule mat_eqI)
    fix i j assume "i < mt_rows (mat_mul B A)" "j < mt_cols (mat_mul B A)"
    then have ij: "i < mt_rows W" "j < mt_cols W" by (simp_all add: A B)
    have "mt_at (mat_mul B A) i j = (\<Sum>k<min rank (length S). mt_at B i k * mt_at A k j)"
      using ij by (simp add: mat_mul_def) (simp add: A B)
    also have "\<dots> = (\<Sum>k<min rank (length S). mt_at U i k * S ! k * mt_at Vh k j)"
    proof (rule sum.cong)
      fix k assume "k \<in> {..<min rank (length S)}"
      then have k: "k < rank" "k < length S" by auto
      then have "sqrt (S ! k) * sqrt (S ! k) = S ! k" using l(7) by simp
      then show "mt_at B i k * mt_at A k j = mt_at U i k * S ! k * mt_at Vh k j"
        using k ij l(3-6) by (simp add: A B take_rows_def take_cols_def mult_ac)
    qed simp
    also have "\<dots> = (\<Sum>k<length S. mt_at U i k * S ! k * mt_at Vh k j)"
      by (rule sum.mono_neutral_left) (auto simp: low' min_def split: if_splits)
    finally show "mt_at (mat_mul B A) i j = mt_at W i j" using l(8)[OF ij] by simp
  qed (use wf in \<open>simp_all add: A B\<close>)
qed

lemma resize_delta_wf: "mat_wf m \<Longrightarrow> mat_wf (resize_delta r c m)"
  by (simp add: resize_delta_def)

text \<open>The resizing is the block of the target's shape when both dimensions grow or neither does; when one
  shrinks and the other grows the result keeps the small source dimension.\<close>

lemma resize_delta_eq:
  assumes "mat_wf m"
  shows "r < mt_rows m \<and> c \<le> mt_cols m \<or> r \<le> mt_rows m \<and> c < mt_cols m \<or> mt_rows m \<le> r \<and> mt_cols m \<le> c \<Longrightarrow>
      resize_delta r c m = resize r c m"
    "r < mt_rows m \<and> mt_cols m < c \<Longrightarrow> mt_cols (resize_delta r c m) \<noteq> c"
    "c < mt_cols m \<and> mt_rows m < r \<Longrightarrow> mt_rows (resize_delta r c m) \<noteq> r"
  using assms by (auto simp: resize_delta_def ops_resize resize_resize min_def)

text \<open>The keys of one module: an A key and a B key with the same base, both in reach of the piecewise
  projection.\<close>

definition piecewise_pair :: "adapter \<Rightarrow> string \<Rightarrow> string \<Rightarrow> bool" where
  "piecewise_pair ad kA kB \<longleftrightarrow>
     base_key kA = base_key kB \<and> substring ''lora_A'' kA \<and> \<not> substring ''lora_A'' kB
     \<and> is_mlp_key kA \<and> is_mlp_key kB \<and> use_piecewise ad kA \<and> use_piecewise ad kB"

lemma buffer_step:
  assumes "ad_kind ad = Llama3ToQwen2Adapter" "ad_projection_mode ad = ''piecewise''"
    and "piecewise_pair ad kA kB" and "map_of (ad_pair_buffer ad) (base_key kA) = None"
  shows "project_tensor svd Vh kA A ad
    = (ad\<lparr>ad_pair_buffer := dict_set (base_key kA) [(''A'', A)] (ad_pair_buffer ad)\<rparr>, Inr Buffered)"
  using assms by (simp add: project_tensor_def structural_project_def buffered_project_def piecewise_pair_def
      dict_get_def Let_def)

lemma complete_step:
  assumes "ad_kind ad = Llama3ToQwen2Adapter" "ad_projection_mode ad = ''piecewise''"
    and "piecewise_pair ad kA kB" and "map_of buf (base_key kA) = None"
  shows "project_tensor svd Vh kB B (ad\<lparr>ad_pair_buffer := dict_set (base_key kA) [(''A'', A)] buf\<rparr>)
    = project_pair svd kB (base_key kA) A B
        (ad\<lparr>ad_piecewise_counter := ad_piecewise_counter ad + 1, ad_pair_buffer := buf\<rparr>)"
proof -
  have "use_piecewise (ad\<lparr>ad_pair_buffer := b\<rparr>) kB = use_piecewise ad kB" for b
    by (simp add: use_piecewise_def cong: option.case_cong)
  moreover have "dict_del (base_key kA) buf = buf"
    using assms(4) by (intro dict_del_absent) (simp add: map_of_eq_None_iff)
  ultimately show ?thesis
    using assms by (simp add: project_tensor_def structural_project_def buffered_project_def piecewise_pair_def
        dict_get_def Let_def)
qed

lemma adaptive_scale_frame [frame_simps]:
  "adaptive_scale (ad\<lparr>ad_piecewise_counter := n, ad_pair_buffer := b\<rparr>) key = adaptive_scale ad key"
  "target_dims (ad\<lparr>ad_piecewise_counter := n, ad_pair_buffer := b\<rparr>) key = target_dims ad key"
  by (simp_all add: adaptive_scale_def target_dims_def cong: option.case_cong if_cong)

lemma adaptive_scale_nonneg: "0 \<le> sc_min_scale (ad_scaling_config ad) \<Longrightarrow> 0 \<le> adaptive_scale ad key"
  by (auto simp: adaptive_scale_def health_scale_def Let_def le_max_iff_disj split: option.splits)


text \<open>A sample: the delta has one entry, and its decomposition is the obvious one.\<close>

definition piecewise_options :: adapter_options where
  "piecewise_options = sample_options\<lparr>ao_projection_mode := ''piecewise''\<rparr>"

definition unit_entry :: "nat \<Rightarrow> nat \<Rightarrow> mat" where
  "unit_entry r c = mk r c (\<lambda>i j. if i = 0 \<and> j = 0 then 1 else 0)"

definition sample_svd :: svd where
  "sample_svd W = (mk 2 2 (\<lambda>i j. if i = j then 1 else 0), [1, 0], mk 2 2 (\<lambda>i j. if i = j then 1 else 0))"

lemma unit_product: "mat_mul (unit_entry 4 1) (unit_entry 1 4) = unit_entry 4 4"
  by (rule mat_eqI) (auto simp: mat_mul_def unit_entry_def)


text \<open>The limit on piecewise layers is tested for every key: once it is reached, the B factor of a pair
  that is held back is projected alone, and its A factor is never written.\<close>

lemma limit_splits_pair:
  assumes "ad_kind ad = Llama3ToQwen2Adapter" "ad_projection_mode ad = ''piecewise''" "is_mlp_key kB"
    and "ad_piecewise_max_layers ad = Some n" "n \<le> int (ad_piecewise_counter ad)"
    and "map_of (ad_pair_buffer ad) b = Some e"
  shows "\<exists>ad' t. project_tensor svd Vh kB B ad = (ad', Inr (OneTensor t)) \<and> b \<in> set (finalize ad')"
proof -
  have "\<not> use_piecewise ad kB" using assms(4,5) by (simp add: use_piecewise_def)
  then have p: "project_tensor svd Vh kB B ad = linear_project kB B ad"
    using assms(1-3) by (simp add: project_tensor_def structural_project_def)
  have "b \<in> set (dict_keys (ad_pair_buffer ad))" using assms(6) by (force dest: map_of_SomeD)
  then have "b \<in> set (finalize (ad\<lparr>ad_applied_scales := a\<rparr>))" for a by (simp add: finalize_def)
  then show ?thesis
    unfolding p using linear_project_eq[of kB B ad] by blast
qed

text \<open>An outlier is looked up by a substring: layer 12 in the report scales layer 1 down as well.\<close>

lemma outlier_by_substring: "outlier_listed 1 [''Layer 12 (60.0%)'']"
  by code_simp

end
