(* ===== verification/Quantization.thy ===== *)
theory Quantization
  imports Prelude "HOL-Library.Word"
begin

text \<open>
  The integer formats of the I/O bridges: INT4 packing into 32-bit words (io/awq_bridge.py) and the
  Q8_0 and Q4_0 blocks of GGUF (io/gguf_bridge.py). Words are kept at their width, values are exact
  rationals, and \<open>round_even\<close> is PyTorch's rounding. The half-precision format is a parameter: its two
  bytes and the value they stand for.
\<close>

unbundle bit_operations_syntax

section \<open>Rounding\<close>

definition round_even :: "rat \<Rightarrow> int" where
  "round_even x =
     (let f = \<lfloor>x\<rfloor>; d = x - of_int f
      in if d < 1 / 2 then f else if d > 1 / 2 then f + 1 else if even f then f else f + 1)"

definition clamp :: "int \<Rightarrow> int \<Rightarrow> int \<Rightarrow> int" where
  "clamp lo hi x = max lo (min hi x)"

definition list_min :: "rat list \<Rightarrow> rat" where
  "list_min xs = foldl min (hd xs) (tl xs)"

definition list_max :: "rat list \<Rightarrow> rat" where
  "list_max xs = foldl max (hd xs) (tl xs)"

lemma round_even_error: "\<bar>of_int (round_even x) - x\<bar> \<le> 1 / 2"
proof -
  have "0 \<le> x - of_int \<lfloor>x\<rfloor>" "x - of_int \<lfloor>x\<rfloor> < 1" by linarith+
  then show ?thesis by (auto simp: round_even_def Let_def)
qed

lemma round_even_bounds: "of_int a \<le> x \<Longrightarrow> a \<le> round_even x" "x \<le> of_int b \<Longrightarrow> round_even x \<le> b"
proof -
  have e: "x - 1 / 2 \<le> of_int (round_even x)" "of_int (round_even x) \<le> x + 1 / 2"
    using round_even_error[of x] by linarith+
  show "a \<le> round_even x" if "of_int a \<le> x"
  proof -
    have "of_int (a - 1) < (of_int (round_even x) :: rat)" using e(1) that by simp
    then show ?thesis by (simp only: of_int_less_iff)
  qed
  show "round_even x \<le> b" if "x \<le> of_int b"
  proof -
    have "(of_int (round_even x) :: rat) < of_int (b + 1)" using e(2) that by simp
    then show ?thesis by (simp only: of_int_less_iff)
  qed
qed

lemma foldl_min: "foldl min a xs \<le> a \<and> (\<forall>x\<in>set xs. foldl min a xs \<le> (x::rat))"
proof (induction xs arbitrary: a)
  case (Cons x xs)
  from Cons[of "min a x"] show ?case by auto
qed simp

lemma foldl_max: "a \<le> foldl max a xs \<and> (\<forall>x\<in>set xs. (x::rat) \<le> foldl max a xs)"
proof (induction xs arbitrary: a)
  case (Cons x xs)
  from Cons[of "max a x"] show ?case by auto
qed simp

lemma list_bounds: "x \<in> set xs \<Longrightarrow> list_min xs \<le> x \<and> x \<le> list_max xs"
  using foldl_min[of "hd xs" "tl xs"] foldl_max[of "hd xs" "tl xs"]
  by (cases xs) (auto simp: list_min_def list_max_def)

text \<open>The error of a rounded quotient: the small constant guards the division.\<close>

lemma quotient_error:
  fixes t s e :: rat
  assumes s: "0 \<le> s" and e: "0 < e" and t: "\<bar>t\<bar> \<le> of_int n * s" and n: "0 \<le> n"
  defines "q \<equiv> round_even (t / (s + e))"
  shows "\<bar>q\<bar> \<le> n" and "0 \<le> t \<Longrightarrow> 0 \<le> q" and "\<bar>of_int q * s - t\<bar> \<le> s / 2 + of_int n * e"
proof -
  let ?x = "t / (s + e)"
  have pos: "0 < s + e" using s e by simp
  have "of_int n * s \<le> of_int n * (s + e)" using n e by (intro mult_left_mono) auto
  then have "\<bar>t\<bar> \<le> of_int n * (s + e)" using t by simp
  then have ax: "\<bar>?x\<bar> \<le> of_int n" using pos by (simp add: abs_divide pos_divide_le_eq)
  then have lo: "of_int (- n) \<le> ?x" and hi: "?x \<le> of_int n" unfolding abs_le_iff by simp_all
  show "\<bar>q\<bar> \<le> n" using round_even_bounds(1)[OF lo] round_even_bounds(2)[OF hi] by (simp add: q_def)
  show "0 \<le> t \<Longrightarrow> 0 \<le> q" using pos by (simp add: q_def round_even_bounds(1))
  have "t = ?x * (s + e)" using pos by simp
  moreover have "of_int q * s - x * (s + e) = (of_int q - x) * s - x * e" for x by (simp add: algebra_simps)
  ultimately have "of_int q * s - t = (of_int q - ?x) * s - ?x * e" by metis
  also have "\<bar>\<dots>\<bar> \<le> \<bar>(of_int q - ?x) * s\<bar> + \<bar>?x * e\<bar>" by (rule abs_triangle_ineq4)
  also have "\<dots> = \<bar>of_int q - ?x\<bar> * s + \<bar>?x\<bar> * e" using s e by (simp only: abs_mult abs_of_nonneg abs_of_pos)
  also have "\<dots> \<le> 1 / 2 * s + of_int n * e"
    using s e by (intro add_mono mult_right_mono ax) (auto simp only: q_def round_even_error less_imp_le)
  finally show "\<bar>of_int q * s - t\<bar> \<le> s / 2 + of_int n * e" by simp
qed

section \<open>INT4 packing\<close>

definition pad_zeros :: "nat \<Rightarrow> 'a::zero list \<Rightarrow> 'a list" where
  "pad_zeros k xs = (if length xs mod k \<noteq> 0 then xs @ replicate (k - length xs mod k) 0 else xs)"

definition quantize_int4 :: "rat list \<Rightarrow> int list" where
  "quantize_int4 row =
     (let q_zeros = list_min row; q_scales = (list_max row - list_min row) / 15
      in map (\<lambda>w. clamp 0 15 (round_even ((w - q_zeros) / (q_scales + 1 / 10 ^ 12)))) row)"

definition pack_word :: "32 word list \<Rightarrow> nat \<Rightarrow> 32 word" where
  "pack_word q_w j = foldl (\<lambda>packed i. packed OR push_bit (4 * i) (q_w ! (8 * j + i))) 0 [0..<8]"

definition pack_row :: "32 word list \<Rightarrow> 32 word list" where
  "pack_row q_w = map (pack_word q_w) [0..<length q_w div 8]"

text \<open>One row of \<open>_pack_int4\<close>: packed words, scale and zero point (before they are stored in half
  precision).\<close>

definition pack_int4 :: "rat list \<Rightarrow> 32 word list \<times> rat \<times> rat" where
  "pack_int4 row =
     (pack_row (pad_zeros 8 (map word_of_int (quantize_int4 row))),
      (list_max row - list_min row) / 15, list_min row)"

text \<open>Reading nibble \<open>k\<close> of a packed row, as a consumer does.\<close>

definition nibble :: "32 word list \<Rightarrow> nat \<Rightarrow> 32 word" where
  "nibble packed k = take_bit 4 (drop_bit (4 * (k mod 8)) (packed ! (k div 8)))"

section \<open>GGUF blocks\<close>

record f16_format =
  fp_bytes :: "rat \<Rightarrow> 8 word list"
  fp_value :: "8 word list \<Rightarrow> rat"
  fp_round :: "rat \<Rightarrow> rat"

definition blocks_of :: "nat \<Rightarrow> 'a list \<Rightarrow> 'a list list" where
  "blocks_of k xs = map (\<lambda>b. take k (drop (k * b) xs)) [0..<length xs div k]"

definition block_delta :: "rat list \<Rightarrow> rat" where
  "block_delta block = list_max (map abs block) / 127"

definition q8_level :: "rat \<Rightarrow> rat \<Rightarrow> int" where
  "q8_level delta b = round_even (b / (delta + 1 / 10 ^ 12))"

definition quantize_block :: "f16_format \<Rightarrow> rat list \<Rightarrow> 8 word list" where
  "quantize_block fmt block =
     fp_bytes fmt (block_delta block)
     @ map (\<lambda>b. word_of_int (clamp (- 128) 127 (q8_level (block_delta block) b))) block"

definition quantize_q8_0 :: "f16_format \<Rightarrow> rat list \<Rightarrow> 8 word list list" where
  "quantize_q8_0 fmt x = map (quantize_block fmt) (blocks_of 32 (pad_zeros 32 x))"

datatype qtype = Q8_0 | Q4_0 | OtherType

definition dequantize_q8_block :: "f16_format \<Rightarrow> 8 word list \<Rightarrow> rat list" where
  "dequantize_q8_block fmt block =
     map (\<lambda>q. of_int (sint q) * fp_value fmt (take 2 block)) (drop 2 block)"

definition dequantize_q4_block :: "f16_format \<Rightarrow> 8 word list \<Rightarrow> rat list" where
  "dequantize_q4_block fmt block =
     concat (map (\<lambda>raw. [of_int (uint (raw AND 0x0F) - 8) * fp_value fmt (take 2 block),
                         of_int (uint (drop_bit 4 raw) - 8) * fp_value fmt (take 2 block)]) (drop 2 block))"

text \<open>The entries of \<open>_dequantize_torch\<close> in order; \<open>numel\<close> is the product of the shape.\<close>

definition dequantize_torch :: "f16_format \<Rightarrow> qtype \<Rightarrow> 8 word list \<Rightarrow> nat \<Rightarrow> rat list result" where
  "dequantize_torch fmt qtype data numel =
     (let finish = (\<lambda>values. let vs = take numel values
                             in if length vs = numel then Inr (map (fp_round fmt) vs)
                                else Inl (PyExc RuntimeErrorE ''shape is invalid for input''))
      in case qtype of
           Q8_0 \<Rightarrow>
             if length data div 34 = 0 then Inr (replicate numel 0)
             else finish (concat (map (dequantize_q8_block fmt) (blocks_of 34 data)))
         | Q4_0 \<Rightarrow>
             if length data div 18 = 0 then Inr (replicate numel 0)
             else finish (concat (map (dequantize_q4_block fmt) (blocks_of 18 data)))
         | OtherType \<Rightarrow> Inr (replicate numel 0))"

section \<open>Packing loses nothing\<close>

lemma nibble_bit: "take_bit 4 (q :: 32 word) = q \<Longrightarrow> bit q n \<Longrightarrow> n < 4"
  by (metis bit_take_bit_iff)

lemma bit_pack_word:
  "bit (pack_word q_w j) n \<longleftrightarrow> (\<exists>i<8. 4 * i \<le> n \<and> n < 32 \<and> bit (q_w ! (8 * j + i)) (n - 4 * i))"
proof -
  have "bit (foldl (\<lambda>packed i. packed OR push_bit (4 * i) (q_w ! (8 * j + i))) w is) n
      \<longleftrightarrow> bit w n \<or> (\<exists>i\<in>set is. 4 * i \<le> n \<and> n < 32 \<and> bit (q_w ! (8 * j + i)) (n - 4 * i))" for w :: "32 word" and "is"
  proof (induction "is" arbitrary: w)
    case (Cons i "is")
    show ?case by (simp add: Cons bit_or_iff bit_push_bit_iff)
  qed simp
  then show ?thesis unfolding pack_word_def by (simp add: Bex_def)
qed

lemma pack_word_nibble:
  assumes small: "\<And>i. i < 8 \<Longrightarrow> take_bit 4 (q_w ! (8 * j + i)) = q_w ! (8 * j + i)" and k: "k < 8"
  shows "take_bit 4 (drop_bit (4 * k) (pack_word q_w j)) = q_w ! (8 * j + k)"
proof (rule bit_eqI)
  fix n assume "possible_bit TYPE(32 word) n"
  have only: "i = k" if "i < 8" "4 * i \<le> 4 * k + n" "bit (q_w ! (8 * j + i)) (4 * k + n - 4 * i)" "n < 4" for i
    using nibble_bit[OF small[OF that(1)] that(3)] that(2,4) by linarith
  show "bit (take_bit 4 (drop_bit (4 * k) (pack_word q_w j))) n = bit (q_w ! (8 * j + k)) n"
  proof (cases "n < 4")
    case True
    have "bit (pack_word q_w j) (4 * k + n) \<longleftrightarrow> bit (q_w ! (8 * j + k)) n"
    proof
      assume "bit (pack_word q_w j) (4 * k + n)"
      then obtain i where i: "i < 8" "4 * i \<le> 4 * k + n" "bit (q_w ! (8 * j + i)) (4 * k + n - 4 * i)"
        unfolding bit_pack_word by blast
      from only[OF this True] i(3) show "bit (q_w ! (8 * j + k)) n" by simp
    next
      assume "bit (q_w ! (8 * j + k)) n"
      then show "bit (pack_word q_w j) (4 * k + n)"
        unfolding bit_pack_word using k True by (intro exI[of _ k]) auto
    qed
    then show ?thesis using True by (simp add: bit_take_bit_iff bit_drop_bit_eq add.commute)
  next
    case False
    then show ?thesis using nibble_bit[OF small[OF k], of n] by (auto simp: bit_take_bit_iff)
  qed
qed

lemma pack_row_nibble:
  assumes "length q_w mod 8 = 0" "\<forall>q\<in>set q_w. take_bit 4 q = q" "k < length q_w"
  shows "nibble (pack_row q_w) k = q_w ! k"
proof -
  obtain m where m: "length q_w = 8 * m" using assms(1) by (metis mult_div_mod_eq add.right_neutral)
  then have j': "k div 8 < m" using assms(3) by (simp add: less_mult_imp_div_less mult.commute)
  then have j: "k div 8 < length q_w div 8" using m by simp
  have "8 * (k div 8) + i < length q_w" if "i < 8" for i using m j' that by linarith
  note small = bspec[OF assms(2) nth_mem[OF this]]
  have word: "pack_row q_w ! (k div 8) = pack_word q_w (k div 8)" using j by (simp add: pack_row_def)
  have k: "8 * (k div 8) + k mod 8 = k" by simp
  show ?thesis
    unfolding nibble_def word pack_word_nibble[of q_w "k div 8" "k mod 8", OF small, simplified] by (simp only: k)
qed

lemma pad_zeros_props:
  assumes "0 < k"
  shows "length (pad_zeros k xs) mod k = 0" "length xs \<le> length (pad_zeros k xs)"
    "i < length xs \<Longrightarrow> pad_zeros k xs ! i = xs ! i"
    "set (pad_zeros k xs) \<subseteq> insert 0 (set xs)"
proof -
  show "length (pad_zeros k xs) mod k = 0"
  proof (cases "length xs mod k = 0")
    case False
    then have "length (pad_zeros k xs) = length xs + (k - length xs mod k)" by (simp add: pad_zeros_def)
    also have "\<dots> = length xs - length xs mod k + k"
      using mod_less_divisor[OF assms, of "length xs"] mod_less_eq_dividend[of "length xs" k] by linarith
    finally show ?thesis by (simp add: minus_mod_eq_mult_div)
  qed (simp add: pad_zeros_def)
qed (auto simp: pad_zeros_def nth_append)

lemma ceil_div_8: "(if n mod 8 = 0 then n else n + (8 - n mod 8)) div 8 - 0 = (n + 7) div (8 :: nat)"
proof -
  obtain a b where n: "n = 8 * a + b" "b < 8" by (metis mult_div_mod_eq mod_less_divisor zero_less_numeral)
  show ?thesis
  proof (cases "b = 0")
    case False
    then have "(8 * a + b + 7) div 8 = a + 1" using n(2) by (intro div_nat_eqI) auto
    then show ?thesis using n False by simp
  qed (use n in \<open>auto intro: div_nat_eqI\<close>)
qed

lemma quantize_int4_range: "q \<in> set (quantize_int4 row) \<Longrightarrow> 0 \<le> q \<and> q \<le> 15"
  by (auto simp: quantize_int4_def clamp_def Let_def)

text \<open>C37. Packing and unpacking INT4: every weight of a row, wherever it stands and whatever the length of the
  row, is read back from its nibble of the 32-bit words as its level \<open>q\<close> between 0 and 15, and
  \<open>q * scale + zero\<close> differs from the weight by at most half a step of the scale (and the guard constant).\<close>

theorem int4_pack_roundtrip:
  assumes "pack_int4 row = (packed, scale, zero)" and "k < length row"
  shows "\<exists>q. uint (nibble packed k) = q \<and> 0 \<le> q \<and> q \<le> 15 \<and> length packed = (length row + 7) div 8
    \<and> \<bar>of_int q * scale + zero - row ! k\<bar> \<le> scale / 2 + 15 / 10 ^ 12"
proof -
  let ?qs = "quantize_int4 row" let ?ws = "map word_of_int ?qs :: 32 word list"
  have s: "scale = (list_max row - list_min row) / 15" "zero = list_min row" "packed = pack_row (pad_zeros 8 ?ws)"
    using assms(1) by (simp_all add: pack_int4_def)
  have len: "length ?qs = length row" by (simp add: quantize_int4_def Let_def)
  have small: "take_bit 4 (word_of_int q :: 32 word) = word_of_int q" if "0 \<le> q" "q \<le> 15" for q
    using that by (simp add: word_uint_eq_iff unsigned_take_bit_eq uint_word_of_int take_bit_int_eq_self)
  let ?t = "row ! k - list_min row"
  have b: "list_min row \<le> row ! k" "row ! k \<le> list_max row" using list_bounds[of "row ! k" row] assms(2) by simp_all
  have t: "\<bar>?t\<bar> \<le> of_int 15 * scale" "0 \<le> scale" "0 \<le> ?t" using b by (simp_all add: s(1))
  define q where "q = round_even (?t / (scale + 1 / 10 ^ 12))"
  have e: "\<bar>q\<bar> \<le> 15" "0 \<le> q" "\<bar>of_int q * scale - ?t\<bar> \<le> scale / 2 + 15 / 10 ^ 12"
    using quotient_error[of scale "1 / 10 ^ 12" ?t 15] t by (simp_all add: q_def)
  have qk: "?qs ! k = q"
    using assms(2) e(1,2) by (simp add: quantize_int4_def Let_def clamp_def q_def s)
  note pad = pad_zeros_props[where k = 8 and xs = ?ws]
  have "take_bit 4 w = w" if "w \<in> set ?ws" for w
    using that small quantize_int4_range[of _ row] by auto
  then have "\<forall>w\<in>set (pad_zeros 8 ?ws). take_bit 4 w = w" using pad(4) by auto
  moreover have "k < length (pad_zeros 8 ?ws)" using pad(2) assms(2) len by simp
  ultimately have "nibble packed k = pad_zeros 8 ?ws ! k"
    unfolding s(3) using pack_row_nibble[OF pad(1)] by simp
  also have "\<dots> = word_of_int q" using pad(3)[where i = k] assms(2) len qk by simp
  finally have "uint (nibble packed k) = q mod 2 ^ 32" by (simp add: uint_word_of_int)
  then have n: "uint (nibble packed k) = q" using e(1,2) by simp
  have "length packed = (length row + 7) div 8"
  proof -
    have "length (pad_zeros 8 ?ws) = (if length row mod 8 = 0 then length row else length row + (8 - length row mod 8))"
      by (simp add: pad_zeros_def len)
    then show ?thesis using ceil_div_8[of "length row"] by (simp only: s(3) pack_row_def length_map length_upt)
  qed
  then show ?thesis using n e by (intro exI[of _ q]) (simp add: s(2) algebra_simps)
qed

definition sample_row :: "rat list" where
  "sample_row = [0, 1, 2, 15, 7 / 2]"

lemma int4_pack_roundtrip_witness:
  "\<exists>packed q. pack_int4 sample_row = (packed, 1, 0) \<and> uint (nibble packed 4) = q
     \<and> \<bar>of_int q - 7 / 2\<bar> \<le> (1 / 2 + 15 / 10 ^ 12 :: rat) \<and> length packed = 1"
proof -
  obtain packed where p: "pack_int4 sample_row = (packed, 1, 0)"
    by (simp add: pack_int4_def sample_row_def list_min_def list_max_def)
  have "4 < length sample_row" "length sample_row = 5" "sample_row ! 4 = 7 / 2" by (simp_all add: sample_row_def)
  from int4_pack_roundtrip[OF p this(1)] this p show ?thesis by auto
qed

section \<open>Q8_0 blocks\<close>

lemma concat_nth:
  "\<forall>xs\<in>set xss. length xs = k \<Longrightarrow> i < k * length xss \<Longrightarrow> concat xss ! i = xss ! (i div k) ! (i mod k)"
proof (induction xss arbitrary: i)
  case (Cons xs xss)
  show ?case
  proof (cases "i < k")
    case False
    then have k: "k \<le> i" "0 < k" using Cons.prems(2) by (cases k; simp)+
    then have "concat (xs # xss) ! i = concat xss ! (i - k)" using Cons.prems(1) by (simp add: nth_append)
    also have "\<dots> = xss ! ((i - k) div k) ! ((i - k) mod k)" using Cons.prems k by (intro Cons.IH) auto
    finally show ?thesis using k by (simp add: le_div_geq le_mod_geq)
  qed (use Cons.prems in \<open>simp add: nth_append\<close>)
qed simp

lemma blocks_length: "b \<in> set (blocks_of k xs) \<Longrightarrow> length b = k"
proof -
  assume "b \<in> set (blocks_of k xs)"
  then obtain j where j: "j < length xs div k" "b = take k (drop (k * j) xs)" by (auto simp: blocks_of_def)
  have "k * (j + 1) \<le> k * (length xs div k)" using j(1) by (intro mult_le_mono2) simp
  also have "\<dots> \<le> length xs" by simp
  finally show "length b = k" by (simp add: j(2))
qed

lemma blocks_nth: "i < length xs div k * k \<Longrightarrow> blocks_of k xs ! (i div k) ! (i mod k) = xs ! i"
proof -
  assume i: "i < length xs div k * k"
  then have k: "0 < k" by (cases k) auto
  have j: "i div k < length xs div k" using i by (simp add: less_mult_imp_div_less)
  have "i < length xs" using i div_times_less_eq_dividend[of "length xs" k] by linarith
  moreover have "k * (i div k) \<le> i" "k * (i div k) + i mod k = i" by simp_all
  ultimately have "drop (k * (i div k)) xs ! (i mod k) = xs ! i" by (metis nth_drop order.trans less_imp_le_nat)
  then show ?thesis using j k by (simp add: blocks_of_def)
qed

lemma blocks_of_concat:
  assumes "\<forall>xs\<in>set xss. length xs = k" "0 < k"
  shows "blocks_of k (concat xss) = xss"
proof -
  have len: "length (concat xss) = k * length xss"
    using assms(1) by (induction xss) auto
  have take: "take k (drop (k * j) (concat xss)) = xss ! j" if "j < length xss" for j
    using that assms(1)
  proof (induction xss arbitrary: j)
    case (Cons xs xss)
    then show ?case by (cases j) auto
  qed simp
  show ?thesis by (rule nth_equalityI) (use assms(2) take in \<open>auto simp: blocks_of_def len\<close>)
qed

lemma sint_small: "- 128 \<le> q \<Longrightarrow> q \<le> 127 \<Longrightarrow> sint (word_of_int q :: 8 word) = q"
  by (simp add: sint_sbintrunc' signed_take_bit_int_eq_self)

lemma block_delta_bound: "b \<in> set block \<Longrightarrow> \<bar>b\<bar> \<le> 127 * block_delta block"
  using list_bounds[of "\<bar>b\<bar>" "map abs block"] by (simp add: block_delta_def)

text \<open>The half-precision format stores a value in two bytes and gives back what it is rounded to.\<close>

definition f16_law :: "f16_format \<Rightarrow> bool" where
  "f16_law fmt \<longleftrightarrow> (\<forall>x. length (fp_bytes fmt x) = 2 \<and> fp_value fmt (fp_bytes fmt x) = fp_round fmt x)"

lemma dequantize_quantize_block:
  assumes "f16_law fmt" "j < length block"
  shows "\<exists>v. dequantize_q8_block fmt (quantize_block fmt block) ! j = v
    \<and> \<bar>v - block ! j\<bar> \<le> block_delta block / 2 + 127 / 10 ^ 12
        + 127 * \<bar>fp_round fmt (block_delta block) - block_delta block\<bar>"
proof -
  let ?d = "block_delta block" let ?b = "block ! j"
  define q where "q = q8_level ?d ?b"
  have b: "\<bar>?b\<bar> \<le> of_int 127 * ?d" using block_delta_bound[of ?b block] assms(2) by simp
  then have d: "0 \<le> ?d" using abs_ge_zero[of ?b] by linarith
  note e = quotient_error[of ?d "1 / 10 ^ 12" ?b 127, OF d _ b, folded q8_level_def, folded q_def]
  have q: "\<bar>q\<bar> \<le> 127" and err: "\<bar>of_int q * ?d - ?b\<bar> \<le> ?d / 2 + 127 / 10 ^ 12" using e by simp_all
  have sq: "signed (word_of_int q :: 8 word) = (of_int q :: rat)"
  proof -
    have "sint (word_of_int q :: 8 word) = q" using q by (intro sint_small) linarith+
    then show ?thesis using of_int_sint[of "word_of_int q :: 8 word"] by metis
  qed
  have v: "dequantize_q8_block fmt (quantize_block fmt block) ! j = of_int q * fp_round fmt ?d"
    using assms q by (simp add: dequantize_q8_block_def quantize_block_def f16_law_def clamp_def sq q_def[symmetric])
  have "\<bar>of_int q * fp_round fmt ?d - of_int q * ?d\<bar> = \<bar>of_int q\<bar> * \<bar>fp_round fmt ?d - ?d\<bar>"
    by (simp add: abs_mult flip: right_diff_distrib)
  also have "\<dots> \<le> 127 * \<bar>fp_round fmt ?d - ?d\<bar>"
    using q by (intro mult_right_mono) (simp_all flip: of_int_abs)
  finally have "\<bar>of_int q * fp_round fmt ?d - ?b\<bar> \<le> ?d / 2 + 127 / 10 ^ 12 + 127 * \<bar>fp_round fmt ?d - ?d\<bar>"
    using err by linarith
  then show ?thesis using v by blast
qed

text \<open>Where entry \<open>i\<close> stands among the blocks.\<close>

lemma padded_blocks:
  defines "bs \<equiv> \<lambda>x. blocks_of 32 (pad_zeros 32 x)"
  shows "length (bs x) * 32 = length (pad_zeros 32 x)"
    and "length x \<le> length (bs x) * 32"
    and "i < length x \<Longrightarrow> i div 32 < length (bs x) \<and> i mod 32 < length (bs x ! (i div 32))
          \<and> bs x ! (i div 32) ! (i mod 32) = x ! i"
proof -
  note pad = pad_zeros_props[where k = 32 and xs = x]
  have nbs: "length (bs x) = length (pad_zeros 32 x) div 32" by (simp add: bs_def blocks_of_def)
  show l: "length (bs x) * 32 = length (pad_zeros 32 x)"
    unfolding nbs using div_mult_mod_eq[of "length (pad_zeros 32 x)" 32] pad(1) by linarith
  then show le: "length x \<le> length (bs x) * 32" using pad(2) by simp
  assume i: "i < length x"
  then have j: "i div 32 < length (bs x)" using le by (simp add: less_mult_imp_div_less)
  have "bs x ! (i div 32) ! (i mod 32) = pad_zeros 32 x ! i"
    unfolding bs_def using blocks_nth[of i "pad_zeros 32 x" 32] i le nbs by simp
  then show "i div 32 < length (bs x) \<and> i mod 32 < length (bs x ! (i div 32))
      \<and> bs x ! (i div 32) ! (i mod 32) = x ! i"
    using j pad(3)[where i = i] i blocks_length[OF nth_mem[OF j[unfolded bs_def]]] by (simp add: bs_def)
qed

text \<open>Decoding the encoded bytes decodes block by block.\<close>

lemma dequantize_encoded:
  assumes "f16_law fmt"
    and vs_def: "vs = concat (map (\<lambda>b. dequantize_q8_block fmt (quantize_block fmt b)) (blocks_of 32 (pad_zeros 32 x)))"
  shows "length x \<le> length vs"
    and "dequantize_torch fmt Q8_0 (concat (quantize_q8_0 fmt x)) (length x) = Inr (map (fp_round fmt) (take (length x) vs))"
    and "i < length x \<Longrightarrow> vs ! i = dequantize_q8_block fmt (quantize_block fmt (blocks_of 32 (pad_zeros 32 x) ! (i div 32))) ! (i mod 32)"
proof -
  let ?bs = "blocks_of 32 (pad_zeros 32 x)" let ?ds = "map (\<lambda>b. dequantize_q8_block fmt (quantize_block fmt b)) ?bs"
  note pb = padded_blocks[where x = x]
  have q34: "\<forall>c\<in>set (quantize_q8_0 fmt x). length c = 34"
    using assms(1) blocks_length by (auto simp: quantize_q8_0_def quantize_block_def f16_law_def)
  then have dl: "\<forall>d\<in>set ?ds. length d = 32" by (auto simp: dequantize_q8_block_def quantize_q8_0_def)
  have "length (concat ds) = length ds * 32" if "\<forall>d\<in>set ds. length d = 32" for ds :: "rat list list"
    using that by (induction ds) auto
  from this[OF dl] have vl: "length vs = length ?bs * 32" by (simp add: vs_def)
  then show le: "length x \<le> length vs" using pb(2) by simp
  have blocks: "blocks_of 34 (concat (quantize_q8_0 fmt x)) = quantize_q8_0 fmt x"
    using blocks_of_concat[OF q34] by simp
  have len_blocks: "length (blocks_of k ys) = length ys div k" for k and ys :: "8 word list" by (simp add: blocks_of_def)
  have n: "length (concat (quantize_q8_0 fmt x)) div 34 = length ?bs"
    unfolding len_blocks[symmetric] blocks by (simp add: quantize_q8_0_def)
  show "dequantize_torch fmt Q8_0 (concat (quantize_q8_0 fmt x)) (length x) = Inr (map (fp_round fmt) (take (length x) vs))"
  proof (cases "?bs = []")
    case True
    then show ?thesis using pb(2) n by (simp add: dequantize_torch_def)
  next
    case False
    then show ?thesis using n le unfolding dequantize_torch_def blocks
      by (simp add: vs_def quantize_q8_0_def Let_def comp_def)
  qed
  assume i: "i < length x"
  then have "concat ?ds ! i = ?ds ! (i div 32) ! (i mod 32)"
    using concat_nth[OF dl, of i] pb(2) by (simp add: mult.commute)
  then show "vs ! i = dequantize_q8_block fmt (quantize_block fmt (?bs ! (i div 32))) ! (i mod 32)"
    using pb(3)[OF i] by (simp add: vs_def)
qed

text \<open>Writing a tensor as Q8_0 and reading it back: the bytes decode to as many values as the tensor
  had, and each is the half-precision rounding of a number that differs from the original by at most half a step
  of its block of 32, plus what the rounding of the stored step and the guard constant
  contribute; the padding never shows.\<close>

theorem q8_0_roundtrip:
  assumes "f16_law fmt"
  shows "\<exists>ys. dequantize_torch fmt Q8_0 (concat (quantize_q8_0 fmt x)) (length x) = Inr ys \<and> length ys = length x
    \<and> (\<forall>i < length x. let d = block_delta (blocks_of 32 (pad_zeros 32 x) ! (i div 32)) in
          \<exists>v. ys ! i = fp_round fmt v \<and> \<bar>v - x ! i\<bar> \<le> d / 2 + 127 / 10 ^ 12 + 127 * \<bar>fp_round fmt d - d\<bar>)"
proof -
  define vs where "vs = concat (map (\<lambda>b. dequantize_q8_block fmt (quantize_block fmt b)) (blocks_of 32 (pad_zeros 32 x)))"
  note de = dequantize_encoded[OF assms vs_def]
  have "\<exists>v. map (fp_round fmt) (take (length x) vs) ! i = fp_round fmt v
      \<and> \<bar>v - x ! i\<bar> \<le> block_delta b / 2 + 127 / 10 ^ 12 + 127 * \<bar>fp_round fmt (block_delta b) - block_delta b\<bar>"
    if i: "i < length x" and b: "b = blocks_of 32 (pad_zeros 32 x) ! (i div 32)" for i b
  proof -
    have "map (fp_round fmt) (take (length x) vs) ! i = fp_round fmt (vs ! i)" using i de(1) by simp
    then show ?thesis
      using dequantize_quantize_block[OF assms, of "i mod 32" b] padded_blocks(3)[OF i] de(3)[OF i] b by metis
  qed
  then show ?thesis
    unfolding Let_def using de(1,2)
    by (intro exI[of _ "map (fp_round fmt) (take (length x) vs)"]) simp
qed

text \<open>A coarse format with a one-byte value, as an instance of the law.\<close>

definition sample_f16 :: f16_format where
  "sample_f16 =
     \<lparr>fp_bytes = (\<lambda>x. [word_of_int (round_even x), 0]), fp_value = (\<lambda>bs. of_int (sint (hd bs))),
      fp_round = (\<lambda>x. of_int (sint (word_of_int (round_even x) :: 8 word)))\<rparr>"

lemma q8_0_roundtrip_witness:
  "\<exists>ys. dequantize_torch sample_f16 Q8_0 (concat (quantize_q8_0 sample_f16 [127, - 64])) 2 = Inr ys \<and> length ys = 2
     \<and> f16_law sample_f16"
proof -
  have law: "f16_law sample_f16" by (simp add: f16_law_def sample_f16_def)
  from q8_0_roundtrip[OF law, of "[127, - 64]"] law show ?thesis by (auto simp: numeral_2_eq_2)
qed

end
