(* ===== verification/IO_Bridges.thy ===== *)
theory IO_Bridges
  imports Route_Payload Quantization
begin

text \<open>
  The I/O bridges: the choice of a bridge (io/factory.py), the incremental safetensors writer and
  its loader (io/safetensors_bridge.py), the accumulating AWQ writer (io/awq_bridge.py) and the GGUF
  reader and writer (io/gguf_bridge.py). The disk is a dictionary from paths to saved state dictionaries, with the set of
  directories; a tensor has a size in bytes and is otherwise opaque to the safetensors writer. Metadata and
  console output are left out, and saving a file always succeeds.
\<close>

section \<open>Choosing a bridge\<close>

datatype bridge_kind = GGUFBridge | AWQBridge | SafetensorsBridge

definition get_bridge :: "string \<Rightarrow> bridge_kind" where
  "get_bridge path =
     (if ends_with path ''.gguf'' then GGUFBridge
      else if substring ''.awq'' (str_lower path) then AWQBridge
      else SafetensorsBridge)"

section \<open>Safetensors\<close>

record 't disk =
  dk_files :: "(string, (string, 't) dict) dict"
  dk_dirs :: "string list"

definition path_exists :: "'t disk \<Rightarrow> string \<Rightarrow> bool" where
  "path_exists d p = (has_key (dk_files d) p \<or> p \<in> set (dk_dirs d))"

text \<open>\<open>os.path.join\<close> and \<open>os.path.dirname\<close>.\<close>

definition os_join :: "string \<Rightarrow> string \<Rightarrow> string" where
  "os_join a b =
     (if starts_with b ''/'' then b
      else if a = [] \<or> ends_with a ''/'' then a @ b
      else a @ ''/'' @ b)"

definition os_dirname :: "string \<Rightarrow> string" where
  "os_dirname p =
     (let head = rev (dropWhile (\<lambda>c. c \<noteq> CHR ''/'') (rev p));
          stripped = rev (dropWhile (\<lambda>c. c = CHR ''/'') (rev head))
      in if stripped = [] then head else stripped)"

record 't st_bridge =
  br_disk :: "'t disk"
  br_writer_path :: "string option"
  br_current_shard :: "(string, 't) dict"
  br_shard_count :: nat
  br_max_shard_size :: nat

definition init_bridge_writer :: "'t disk \<Rightarrow> 't st_bridge" where
  "init_bridge_writer d =
     \<lparr>br_disk = d, br_writer_path = None, br_current_shard = [], br_shard_count = 0,
      br_max_shard_size = 2 * 1024 * 1024 * 1024\<rparr>"

definition load_path :: "'t disk \<Rightarrow> string \<Rightarrow> string" where
  "load_path d path =
     (if path \<in> set (dk_dirs d)
      then let file_path = os_join path ''adapter_model.safetensors''
           in if \<not> path_exists d file_path then os_join path ''model.safetensors'' else file_path
      else path)"

definition load_weights :: "'t disk \<Rightarrow> string \<Rightarrow> (string, 't) dict result" where
  "load_weights d path =
     (case map_of (dk_files d) (load_path d path) of
        None \<Rightarrow> Inl (PyExc FileNotFoundErrorE (''Safetensors file not found at: '' @ load_path d path))
      | Some sd \<Rightarrow> Inr sd)"

definition save_file :: "(string, 't) dict \<Rightarrow> string \<Rightarrow> 't st_bridge \<Rightarrow> 't st_bridge" where
  "save_file sd path b = b\<lparr>br_disk := (br_disk b)\<lparr>dk_files := dict_set path sd (dk_files (br_disk b))\<rparr>\<rparr>"

definition open_writer :: "string \<Rightarrow> 't st_bridge \<Rightarrow> 't st_bridge" where
  "open_writer path b = b\<lparr>br_writer_path := Some path, br_current_shard := [], br_shard_count := 0\<rparr>"

definition shard_name :: "nat \<Rightarrow> string" where
  "shard_name n = ''shard_'' @ nat_str n @ ''.safetensors''"

definition shard_path :: "string \<Rightarrow> nat \<Rightarrow> string" where
  "shard_path writer_path n =
     (if ends_with writer_path ''.safetensors'' then os_join (os_dirname writer_path) (shard_name n)
      else os_join writer_path (shard_name n))"

definition flush_shard :: "string \<Rightarrow> 't st_bridge \<Rightarrow> 't st_bridge" where
  "flush_shard writer_path b =
     (if br_current_shard b = [] then b
      else (save_file (br_current_shard b) (shard_path writer_path (br_shard_count b)) b)
             \<lparr>br_current_shard := [], br_shard_count := br_shard_count b + 1\<rparr>)"

definition shard_size :: "('t \<Rightarrow> nat) \<Rightarrow> (string, 't) dict \<Rightarrow> nat" where
  "shard_size nbytes shard = sum_list (map (\<lambda>p. nbytes (snd p)) shard)"

definition write_layer :: "('t \<Rightarrow> nat) \<Rightarrow> string \<Rightarrow> 't \<Rightarrow> ('t st_bridge, unit) act" where
  "write_layer nbytes name tensor b =
     (case br_writer_path b of
        None \<Rightarrow> (b, Inl (PyExc RuntimeErrorE ''Writer not opened.''))
      | Some writer_path \<Rightarrow>
          let b1 = b\<lparr>br_current_shard := dict_set name tensor (br_current_shard b)\<rparr>
          in (if shard_size nbytes (br_current_shard b1) > br_max_shard_size b1 then flush_shard writer_path b1 else b1,
              Inr ()))"

definition close_writer :: "('t st_bridge, unit) act" where
  "close_writer b =
     (case br_writer_path b of
        None \<Rightarrow>
          if br_current_shard b = [] then (b, Inr ())
          else (b, Inl (PyExc TypeErrorE ''stat: path should be string, bytes, os.PathLike or integer, not NoneType''))
      | Some writer_path \<Rightarrow>
          let b1 = (if br_shard_count b = 0 \<and> br_current_shard b \<noteq> []
                    then if writer_path \<in> set (dk_dirs (br_disk b))
                         then save_file (br_current_shard b) (os_join writer_path ''adapter_model.safetensors'') b
                         else if ends_with writer_path ''.safetensors''
                         then save_file (br_current_shard b) writer_path b
                         else let d = br_disk b
                              in save_file (br_current_shard b) (os_join writer_path ''adapter_model.safetensors'')
                                   (b\<lparr>br_disk := d\<lparr>dk_dirs := dk_dirs d @ [writer_path]\<rparr>\<rparr>)
                    else if br_current_shard b \<noteq> [] then flush_shard writer_path b
                    else b)
          in (b1\<lparr>br_writer_path := None, br_current_shard := []\<rparr>, Inr ()))"

definition write_layers :: "('t \<Rightarrow> nat) \<Rightarrow> (string \<times> 't) list \<Rightarrow> ('t st_bridge, unit) act" where
  "write_layers nbytes ws = forS (\<lambda>(name, tensor). write_layer nbytes name tensor) ws"

section \<open>The writer keeps every layer\<close>

lemma digit_char_inj: "digit_char a = digit_char b \<Longrightarrow> a < 10 \<Longrightarrow> b < 10 \<Longrightarrow> a = b"
  by (drule arg_cong[where f = "of_char :: char \<Rightarrow> nat"]) (simp add: digit_char_def)

lemma nat_str_length: "0 < length (nat_str n)" "10 \<le> n \<Longrightarrow> 1 < length (nat_str n)"
proof -
  show *: "0 < length (nat_str n)" for n by (subst nat_str.simps) simp
  show "10 \<le> n \<Longrightarrow> 1 < length (nat_str n)" using *[of "n div 10"] by (subst nat_str.simps) simp
qed

lemma nat_str_inj: "nat_str n = nat_str m \<Longrightarrow> n = m"
proof (induction n arbitrary: m rule: less_induct)
  case (less n)
  have len: "length (nat_str n) = length (nat_str m)" using less.prems by simp
  show ?case
  proof (cases "n < 10")
    case True
    then have "length (nat_str n) = 1" by (subst nat_str.simps) simp
    then have "m < 10" using len nat_str_length(2)[of m] by linarith
    then show ?thesis using less.prems True digit_char_inj by (simp add: nat_str.simps)
  next
    case False
    then have "1 < length (nat_str m)" using len nat_str_length(2)[of n] by simp
    then have m: "\<not> m < 10" by (auto simp: nat_str.simps[of m])
    have "nat_str (n div 10) @ [digit_char (n mod 10)] = nat_str (m div 10) @ [digit_char (m mod 10)]"
      using less.prems False m by (simp add: nat_str.simps[of n] nat_str.simps[of m])
    then have "n div 10 = m div 10" "n mod 10 = m mod 10"
      using less.IH[of "n div 10" "m div 10"] False digit_char_inj[of "n mod 10" "m mod 10"] by auto
    then show ?thesis by (metis div_mult_mod_eq)
  qed
qed

lemma shard_path_inj: "shard_path p i = shard_path p j \<Longrightarrow> i = j"
proof -
  have "os_join a (shard_name i) = os_join a (shard_name j) \<Longrightarrow> i = j" for a
    by (auto simp: os_join_def shard_name_def dest: nat_str_inj split: if_splits)
  then show "shard_path p i = shard_path p j \<Longrightarrow> i = j" by (auto simp: shard_path_def split: if_splits)
qed

definition saved_shards :: "'t disk \<Rightarrow> string \<Rightarrow> nat \<Rightarrow> (string, 't) dict list" where
  "saved_shards d path n =
     map (\<lambda>k. case map_of (dk_files d) (shard_path path k) of None \<Rightarrow> [] | Some sd \<Rightarrow> sd) [0..<n]"

text \<open>What holds while layers are written: the shards on disk and the current one hold, later ones
  overriding earlier ones, what was written.\<close>

definition writer_inv :: "string \<Rightarrow> (string \<times> 't) list \<Rightarrow> 't st_bridge \<Rightarrow> bool" where
  "writer_inv path ws b \<longleftrightarrow>
     br_writer_path b = Some path
     \<and> map_of (br_current_shard b @ concat (rev (saved_shards (br_disk b) path (br_shard_count b)))) = map_of (rev ws)"

lemma saved_shards_other: "\<forall>k<n. shard_path path k \<noteq> f \<Longrightarrow>
    saved_shards (br_disk (save_file sd f b)) path n = saved_shards (br_disk b) path n"
  by (auto simp: saved_shards_def save_file_def)

lemma flush_inv: "writer_inv path ws b \<Longrightarrow> writer_inv path ws (flush_shard path b)"
proof -
  assume inv: "writer_inv path ws b"
  show ?thesis
  proof (cases "br_current_shard b = []")
    case False
    let ?n = "br_shard_count b"
    have "\<forall>k<?n. shard_path path k \<noteq> shard_path path ?n" using shard_path_inj by force
    then have "saved_shards (br_disk (flush_shard path b)) path (?n + 1)
        = saved_shards (br_disk b) path ?n @ [br_current_shard b]"
      using False by (simp add: flush_shard_def saved_shards_def save_file_def)
    then show ?thesis using inv False by (simp add: writer_inv_def) (simp add: flush_shard_def save_file_def)
  qed (use inv in \<open>simp add: flush_shard_def\<close>)
qed

lemma write_layer_inv:
  assumes "writer_inv path ws b"
  shows "\<exists>b'. write_layer nbytes name t b = (b', Inr ()) \<and> writer_inv path (ws @ [(name, t)]) b'"
proof -
  define b1 where "b1 = b\<lparr>br_current_shard := dict_set name t (br_current_shard b)\<rparr>"
  have "writer_inv path (ws @ [(name, t)]) b1"
    using assms by (auto simp: writer_inv_def b1_def fun_eq_iff map_add_def)
  moreover have "write_layer nbytes name t b
      = (if shard_size nbytes (br_current_shard b1) > br_max_shard_size b1 then flush_shard path b1 else b1, Inr ())"
    using assms by (simp add: write_layer_def writer_inv_def b1_def Let_def)
  ultimately show ?thesis using flush_inv by (auto split: if_splits)
qed

lemma write_layers_inv:
  "writer_inv path ws b \<Longrightarrow> \<exists>b'. write_layers nbytes vs b = (b', Inr ()) \<and> writer_inv path (ws @ vs) b'"
proof (induction vs arbitrary: ws b)
  case (Cons v vs)
  obtain name t where v: "v = (name, t)" by fastforce
  obtain b' where "write_layer nbytes name t b = (b', Inr ())" "writer_inv path (ws @ [v]) b'"
    using write_layer_inv[OF Cons.prems] v by blast
  with Cons.IH[OF this(2)] show ?case by (simp add: write_layers_def v)
qed (simp add: write_layers_def)

text \<open>No shard is split off while everything written fits into one.\<close>

definition written_size :: "('t \<Rightarrow> nat) \<Rightarrow> (string \<times> 't) list \<Rightarrow> nat" where
  "written_size nbytes ws = sum_list (map (\<lambda>p. nbytes (snd p)) ws)"

definition one_shard :: "('t \<Rightarrow> nat) \<Rightarrow> (string \<times> 't) list \<Rightarrow> 't st_bridge \<Rightarrow> bool" where
  "one_shard nbytes ws b \<longleftrightarrow>
     (written_size nbytes ws \<le> br_max_shard_size b \<longrightarrow>
        br_shard_count b = 0 \<and> shard_size nbytes (br_current_shard b) \<le> written_size nbytes ws)"

lemma shard_size_set: "shard_size nbytes (dict_set k t shard) \<le> shard_size nbytes shard + nbytes t"
  by (induction shard) (auto simp: shard_size_def)

lemma write_layer_one_shard:
  assumes "one_shard nbytes ws b" "write_layer nbytes name t b = (b', Inr ())"
  shows "one_shard nbytes (ws @ [(name, t)]) b'"
proof -
  have "written_size nbytes (ws @ [(name, t)]) = written_size nbytes ws + nbytes t" by (simp add: written_size_def)
  then show ?thesis
    using assms shard_size_set[of nbytes name t "br_current_shard b"]
    by (auto simp: one_shard_def write_layer_def flush_shard_def save_file_def Let_def split: option.splits if_splits)
qed

lemma open_inv: "writer_inv path [] (open_writer path b)"
  by (simp add: writer_inv_def open_writer_def saved_shards_def)

text \<open>Closing the writer makes what was written loadable.\<close>

lemma close_complete:
  assumes inv: "writer_inv path ws b2" and "close_writer b2 = (b3, r')"
  shows "r' = Inr ()
    \<and> (br_shard_count b3 = 0 \<and> ws \<noteq> [] \<longrightarrow>
        (\<exists>sd. load_weights (br_disk b3) path = Inr sd \<and> map_of sd = map_of (rev ws)))
    \<and> (0 < br_shard_count b3 \<longrightarrow>
        map_of (concat (rev (saved_shards (br_disk b3) path (br_shard_count b3)))) = map_of (rev ws))"
proof -
  have wp: "br_writer_path b2 = Some path" using inv by (simp add: writer_inv_def)
  have cur: "map_of (br_current_shard b2) = map_of (rev ws)" if "br_shard_count b2 = 0"
    using inv that by (simp add: writer_inv_def saved_shards_def)
  show ?thesis
  proof (cases "br_shard_count b2 = 0 \<and> br_current_shard b2 \<noteq> []")
    case True
    have c: "os_join path ''adapter_model.safetensors'' \<noteq> []" by (simp add: os_join_def)
    have "r' = Inr ()" "br_shard_count b3 = 0"
      using assms(2) wp True by (auto simp: close_writer_def save_file_def Let_def split: if_splits)
    moreover have "load_weights (br_disk b3) path = Inr (br_current_shard b2)"
      using assms(2) wp True
      by (auto simp: close_writer_def save_file_def load_weights_def load_path_def path_exists_def Let_def split: if_splits)
    ultimately show ?thesis using cur True by auto
  next
    case False
    have b3: "b3 = (flush_shard path b2)\<lparr>br_writer_path := None, br_current_shard := []\<rparr>" "r' = Inr ()"
      using assms(2) wp False by (auto simp: close_writer_def flush_shard_def Let_def split: if_splits)
    have e: "br_current_shard (flush_shard path b2) = []" by (simp add: flush_shard_def)
    have "ws = []" if "br_shard_count b3 = 0"
    proof -
      have "br_shard_count b2 = 0 \<and> br_current_shard b2 = []"
        using that False by (auto simp: b3 flush_shard_def split: if_splits)
      then have "map_of (rev ws) = Map.empty" using cur by simp
      then show ?thesis by simp
    qed
    moreover have "map_of (concat (rev (saved_shards (br_disk b3) path (br_shard_count b3)))) = map_of (rev ws)"
      using flush_inv[OF inv] e by (simp add: b3 writer_inv_def)
    ultimately show ?thesis using b3(2) by blast
  qed
qed


definition empty_disk :: "'t disk" where
  "empty_disk = \<lparr>dk_files = [], dk_dirs = []\<rparr>"


text \<open>A sharded output is not what the loader of the same path looks for: unless the file was there
  before, loading it fails.\<close>

lemma sharded_output_not_loadable:
  assumes "write_layers nbytes ws (open_writer path b) = (b2, r)" "close_writer b2 = (b3, r')" "0 < br_shard_count b2"
    and "\<forall>k. shard_path path k \<noteq> load_path (br_disk b2) path" "\<not> has_key (dk_files (br_disk b2)) (load_path (br_disk b2) path)"
    and "path \<notin> set (dk_dirs (br_disk b2))"
  shows "load_weights (br_disk b3) path = Inl (PyExc FileNotFoundErrorE (''Safetensors file not found at: '' @ path))"
proof -
  have inv: "writer_inv path ws b2"
    using write_layers_inv[OF open_inv[of path b], where vs = ws and nbytes = nbytes] assms(1) by auto
  have b3: "b3 = (flush_shard path b2)\<lparr>br_writer_path := None, br_current_shard := []\<rparr>"
    using assms(2,3) inv by (auto simp: close_writer_def flush_shard_def writer_inv_def Let_def split: if_splits)
  have "load_path (br_disk b2) path = path" using assms(6) by (simp add: load_path_def)
  moreover have "dk_dirs (br_disk b3) = dk_dirs (br_disk b2)" by (simp add: b3 flush_shard_def save_file_def)
  moreover have "map_of (dk_files (br_disk b3)) path = None"
    using assms(4)[rule_format, of "br_shard_count b2"] assms(5) calculation(1) by (auto simp: b3 flush_shard_def save_file_def has_key_def)
  ultimately show ?thesis using assms(6) by (simp add: load_weights_def load_path_def)
qed

section \<open>AWQ\<close>

text \<open>A tensor is a matrix given by its rows, or has another number of dimensions. Calibration data is a
  matrix too; \<open>search_scales\<close> is the calibration search (io/calibration.py), one factor per column.\<close>

datatype tensor = Matrix "rat list list" | OtherTensor "rat list"

datatype awq_value = Plain tensor | PackedWords "32 word list list" | Factors "rat list"

record awq_bridge =
  aw_calibration_data :: "rat list list option"
  aw_writer_path :: "string option"
  aw_acc_dict :: "(string, awq_value) dict"
  aw_disk :: "(string, (string, awq_value) dict) dict"

definition n_cols :: "rat list list \<Rightarrow> nat" where
  "n_cols m = (case m of [] \<Rightarrow> 0 | row # _ \<Rightarrow> length row)"

definition awq_open_writer :: "string \<Rightarrow> awq_bridge \<Rightarrow> awq_bridge" where
  "awq_open_writer path b = b\<lparr>aw_writer_path := Some path, aw_acc_dict := []\<rparr>"

definition awq_write_layer ::
    "f16_format \<Rightarrow> (rat list list \<Rightarrow> rat list list \<Rightarrow> rat list) \<Rightarrow> string \<Rightarrow> tensor \<Rightarrow> awq_bridge \<Rightarrow> awq_bridge" where
  "awq_write_layer fmt search_scales name t b =
     (case (t, aw_calibration_data b) of
        (Matrix w, Some data) \<Rightarrow>
          if substring ''weight'' name \<and> n_cols data = n_cols w
          then let scales = search_scales w data;
                   packed = map (\<lambda>row. pack_int4 (map2 (*) row scales)) w
               in b\<lparr>aw_acc_dict :=
                      dict_set (name @ ''_awq_scales'') (Factors scales)
                        (dict_set (name @ ''.zeros'') (Factors (map (\<lambda>(_, _, z). fp_round fmt z) packed))
                          (dict_set (name @ ''.scales'') (Factors (map (\<lambda>(_, s, _). fp_round fmt s) packed))
                            (dict_set (name @ ''.packed'') (PackedWords (map fst packed)) (aw_acc_dict b))))\<rparr>
          else b\<lparr>aw_acc_dict := dict_set name (Plain t) (aw_acc_dict b)\<rparr>
      | _ \<Rightarrow> b\<lparr>aw_acc_dict := dict_set name (Plain t) (aw_acc_dict b)\<rparr>)"

definition awq_close_writer :: "awq_bridge \<Rightarrow> awq_bridge" where
  "awq_close_writer b =
     (case aw_writer_path b of
        None \<Rightarrow> b
      | Some path \<Rightarrow> b\<lparr>aw_disk := dict_set path (aw_acc_dict b) (aw_disk b), aw_writer_path := None, aw_acc_dict := []\<rparr>)"

definition awq_save_weights ::
    "f16_format \<Rightarrow> (rat list list \<Rightarrow> rat list list \<Rightarrow> rat list) \<Rightarrow> string \<Rightarrow> (string, tensor) dict \<Rightarrow> awq_bridge \<Rightarrow> awq_bridge" where
  "awq_save_weights fmt search_scales path state_dict b =
     awq_close_writer (fold (\<lambda>(name, t). awq_write_layer fmt search_scales name t) state_dict (awq_open_writer path b))"

section \<open>GGUF\<close>

text \<open>A tensor of the reader: its type, its values when the type is a float type (the library decodes
  them), its bytes otherwise, and its shape; \<open>Native\<close> stands for the integer types. The entries of the writer
  are of the same form: the library reads a byte matrix of Q8_0 blocks as rows of 32 values.\<close>

datatype gguf_type = F16 | F32 | Quantized qtype | Native

record gguf_tensor =
  gt_name :: string
  gt_type :: gguf_type
  gt_values :: "rat list"
  gt_bytes :: "8 word list"
  gt_shape :: "nat list"

definition gguf_value :: "f16_format \<Rightarrow> gguf_tensor \<Rightarrow> rat list result" where
  "gguf_value fmt t =
     (case gt_type t of
        F16 \<Rightarrow> Inr (gt_values t)
      | F32 \<Rightarrow> Inr (gt_values t)
      | Quantized q \<Rightarrow> dequantize_torch fmt q (gt_bytes t) (prod_list (gt_shape t))
      | Native \<Rightarrow> dequantize_torch fmt OtherType (gt_bytes t) (prod_list (gt_shape t)))"

definition gguf_load_weights :: "f16_format \<Rightarrow> gguf_tensor list \<Rightarrow> (string, rat list) dict result" where
  "gguf_load_weights fmt tensors =
     foldE (\<lambda>t sd. bindE (gguf_value fmt t) (\<lambda>v. Inr (dict_set (gt_name t) v sd))) tensors []"

text \<open>\<open>write_layer\<close>: the writer is open or not; float tensors become a byte matrix of 34 columns.\<close>

definition gguf_write_layer ::
    "f16_format \<Rightarrow> string \<Rightarrow> bool \<Rightarrow> rat list \<Rightarrow> nat list \<Rightarrow> gguf_tensor list option \<Rightarrow> gguf_tensor list option result" where
  "gguf_write_layer fmt name float_type values shape writer =
     (case writer of
        None \<Rightarrow> Inl (PyExc RuntimeErrorE ''Writer not opened. Call open_writer() first.'')
      | Some ts \<Rightarrow>
          Inr (Some (ts @
            [if float_type
             then let q_data = quantize_q8_0 fmt values
                  in \<lparr>gt_name = name, gt_type = Quantized Q8_0, gt_values = [], gt_bytes = concat q_data,
                      gt_shape = [length q_data, 32]\<rparr>
             else \<lparr>gt_name = name, gt_type = Native, gt_values = values, gt_bytes = [], gt_shape = shape\<rparr>])))"

text \<open>Whatever the shape of a float tensor, the file records rows of 32.\<close>

lemma gguf_forgets_shape:
  "gguf_write_layer fmt name True values shape w = gguf_write_layer fmt name True values shape' w"
  by (simp add: gguf_write_layer_def split: option.split)

end
