(* ===== verification/Port_Lora.thy ===== *)
theory Port_Lora
  imports Adapters IO_Bridges
begin

text \<open>
  The transplantation pipeline \<open>port_lora\<close> of cli/main.py: detection of the two architectures, the alpha
  map of the command line, the streaming loop over the source tensors with its load-all fallback, and the
  configuration and metadata written beside the output. Files of tensors are those of the bridges
  (IO_Bridges); JSON files are a dictionary of their own. What comes from transformers, the
  hub and the clock is a parameter (\<open>port_env\<close>). Console output, warnings, the routing matrix, which
  no projection reads, and the parents of created directories are left out.
\<close>

section \<open>Architectures\<close>

text \<open>A model configuration as \<open>getattr\<close> sees it: its model type and its numeric attributes.\<close>

record auto_config =
  ac_model_type :: "string option"
  ac_attrs :: "(string, nat) dict"

definition default_info :: "nat \<Rightarrow> nat \<Rightarrow> nat \<Rightarrow> nat \<Rightarrow> model_info" where
  "default_info hidden heads intermediate kv =
      [(''hidden_size'', hidden), (''num_attention_heads'', heads), (''intermediate_size'', intermediate),
      (''num_key_value_heads'', kv)]"

definition heuristic_info :: "string \<Rightarrow> model_info" where
  "heuristic_info path =
     (let p = str_lower path
      in if substring ''stable-diffusion-xl'' p \<or> substring ''sdxl'' p then default_info 2048 32 2048 32
         else if substring ''0.5b'' p \<and> substring ''qwen'' p then default_info 896 14 4864 2
         else if substring ''1.5b'' p \<and> substring ''qwen'' p then default_info 1536 12 8960 2
         else if substring ''7b'' p \<and> substring ''qwen'' p then default_info 3584 28 18944 4
         else default_info 4096 32 14336 8)"

text \<open>A path may be \<open>None\<close> (an argument that was not given): the loader is asked for it all the same, and
  string methods on it raise.\<close>

definition get_model_info :: "(string option \<Rightarrow> auto_config option) \<Rightarrow> string option \<Rightarrow> model_info result" where
  "get_model_info load path =
     (case load path of
        None \<Rightarrow>
          (case path of
             None \<Rightarrow> Inl (PyExc AttributeErrorE ''NoneType object has no attribute lower'')
           | Some p \<Rightarrow> Inr (heuristic_info p))
      | Some config \<Rightarrow>
          let attr = dict_get (ac_attrs config);
              num_heads = attr ''num_attention_heads'' (attr ''n_heads'' 32)
          in Inr (default_info (attr ''hidden_size'' (attr ''d_model'' 4096)) num_heads
               (attr ''intermediate_size'' (attr ''hidden_size'' 14336))
               (attr ''num_key_value_heads'' (attr ''n_heads'' num_heads))))"

definition config_arch :: "auto_config \<Rightarrow> string option" where
  "config_arch config =
     (let model_type = str_lower (case ac_model_type config of None \<Rightarrow> [] | Some t \<Rightarrow> t)
      in if any_in [''llama'', ''mistral'', ''gemma''] model_type then Some ''llama''
         else if substring ''qwen'' model_type then Some ''qwen''
         else if substring ''stable-diffusion'' model_type \<or> substring ''unet'' model_type then Some ''sdxl''
         else None)"

text \<open>The keys of a single file; \<open>None\<close> when there is nothing to peek at.\<close>

definition keys_arch :: "string list \<Rightarrow> string option" where
  "keys_arch keys =
     (if list_ex (substring ''lora_unet'') keys then Some ''sdxl''
      else if list_ex (substring ''base_model.model.model.layers'') keys then Some ''llama''
      else None)"

definition name_arch :: "string \<Rightarrow> string" where
  "name_arch path =
     (let p = str_lower path
      in if any_in [''sdxl'', ''diffusion'', ''stable'', ''animagine''] p then ''sdxl''
         else if substring ''qwen'' p then ''qwen''
         else ''llama'')"

definition detect_architecture ::
    "(string option \<Rightarrow> auto_config option) \<Rightarrow> 't disk \<Rightarrow> string option \<Rightarrow> string result" where
  "detect_architecture load d path =
     (case Option.bind (load path) config_arch of
        Some arch \<Rightarrow> Inr arch
      | None \<Rightarrow>
          case path of
            None \<Rightarrow> Inl (PyExc TypeErrorE ''stat: path should be string, bytes, os.PathLike or integer, not NoneType'')
          | Some p \<Rightarrow>
              Inr (case (if ends_with p ''.safetensors''
                         then Option.bind (map_of (dk_files d) p) (keys_arch \<circ> dict_keys) else None) of
                     Some arch \<Rightarrow> arch
                   | None \<Rightarrow> name_arch p))"

section \<open>The alpha map\<close>

text \<open>\<open>float(s)\<close> of a decimal literal, with the exact value; \<open>inf\<close> and \<open>nan\<close> are not values of the
  model.\<close>

definition split_at :: "(char \<Rightarrow> bool) \<Rightarrow> string \<Rightarrow> string \<times> string option" where
  "split_at p s =
     (let a = takeWhile (\<lambda>c. \<not> p c) s
      in (a, case drop (length a) s of [] \<Rightarrow> None | _ # b \<Rightarrow> Some b))"

definition digits_opt :: "string \<Rightarrow> nat option" where
  "digits_opt s = (if s = [] then Some 0 else digits_val 0 s)"

definition py_mantissa :: "string \<Rightarrow> rat option" where
  "py_mantissa s =
     (case split_at (\<lambda>c. c = CHR ''.'') s of
        (a, None) \<Rightarrow> map_option of_nat (digits_val 0 a)
      | (a, Some b) \<Rightarrow>
          if a = [] \<and> b = [] then None
          else Option.bind (digits_opt a) (\<lambda>i.
               map_option (\<lambda>f. of_nat i + of_nat f / 10 ^ length (filter is_digit b)) (digits_opt b)))"

definition py_exponent :: "string \<Rightarrow> int option" where
  "py_exponent s =
     (case s of
        [] \<Rightarrow> None
      | c # cs \<Rightarrow>
          if c = CHR ''-'' then map_option (\<lambda>n. - int n) (digits_val 0 cs)
          else if c = CHR ''+'' then map_option int (digits_val 0 cs)
          else map_option int (digits_val 0 s))"

definition py_unsigned :: "string \<Rightarrow> rat option" where
  "py_unsigned s =
     (case split_at (\<lambda>c. c = CHR ''e'' \<or> c = CHR ''E'') s of
        (m, None) \<Rightarrow> py_mantissa m
      | (m, Some e) \<Rightarrow>
          Option.bind (py_mantissa m) (\<lambda>x. map_option (\<lambda>k. x * power_int 10 k) (py_exponent e)))"

definition py_float :: "string \<Rightarrow> rat option" where
  "py_float s =
     (case str_strip s of
        [] \<Rightarrow> None
      | c # cs \<Rightarrow>
          if c = CHR ''-'' then map_option uminus (py_unsigned cs)
          else if c = CHR ''+'' then py_unsigned cs
          else py_unsigned (c # cs))"

datatype alpha_key = ModuleKey string | LayerKey string int

text \<open>The entries one item stands for; \<open>None\<close> when unpacking or a conversion raises.\<close>

definition parse_item :: "string \<Rightarrow> (alpha_key \<times> rat) list option" where
  "parse_item item =
     (case split_on (CHR ''='') item of
        [m_spec0, m_alpha] \<Rightarrow>
          let m_spec = str_strip m_spec0
          in Option.bind (py_float (str_strip m_alpha)) (\<lambda>val.
               if substring ''.'' m_spec
               then case split_on (CHR ''.'') m_spec of
                      [m_name, l_range] \<Rightarrow>
                        if substring ''-'' l_range
                        then case split_on (CHR ''-'') l_range of
                               [a, b] \<Rightarrow>
                                 Option.bind (py_int a) (\<lambda>start. map_option
                                   (\<lambda>stop. map (\<lambda>i. (LayerKey m_name i, val)) [start..stop]) (py_int b))
                             | _ \<Rightarrow> None
                        else map_option (\<lambda>i. [(LayerKey m_name i, val)]) (py_int l_range)
                    | _ \<Rightarrow> None
               else Some [(ModuleKey m_spec, val)])
      | _ \<Rightarrow> None)"

fun insert_items :: "string list \<Rightarrow> (alpha_key, rat) dict \<Rightarrow> (alpha_key, rat) dict" where
  "insert_items [] m = m"
| "insert_items (item # items) m =
     (case parse_item item of
        None \<Rightarrow> m
      | Some es \<Rightarrow> insert_items items (foldl (\<lambda>d p. dict_set (fst p) (snd p) d) m es))"

definition parse_alpha_map :: "string option \<Rightarrow> (alpha_key, rat) dict" where
  "parse_alpha_map raw =
     (case raw of None \<Rightarrow> [] | Some s \<Rightarrow> if s = [] then [] else insert_items (split_on (CHR '','') s) [])"

section \<open>Which keys, and their scale\<close>

definition standard_modules :: "string list" where
  "standard_modules =
     [''q_proj'', ''k_proj'', ''v_proj'', ''o_proj'', ''gate_proj'', ''up_proj'', ''down_proj'']"

definition module_of :: "string \<Rightarrow> string option" where
  "module_of key = List.find (\<lambda>m. substring m key) standard_modules"

record port_config =
  pc_alpha :: int
  pc_alpha_map :: "(alpha_key, rat) dict"
  pc_include :: "string list option"

definition target_alpha :: "port_config \<Rightarrow> string \<Rightarrow> string \<Rightarrow> rat option" where
  "target_alpha cfg key m =
     (case search_index [''layers.''] key of
        Some layer_idx \<Rightarrow>
          (case map_of (pc_alpha_map cfg) (LayerKey m (int layer_idx)) of
             Some a \<Rightarrow> Some a
           | None \<Rightarrow> map_of (pc_alpha_map cfg) (ModuleKey m))
      | None \<Rightarrow> map_of (pc_alpha_map cfg) (ModuleKey m))"

definition scale_b :: "rat \<Rightarrow> string \<Rightarrow> mat \<Rightarrow> mat" where
  "scale_b f name t = (if substring ''lora_B'' name then mat_scale (of_rat f) t else t)"

definition apply_module_alpha_scaling :: "port_config \<Rightarrow> string \<Rightarrow> string \<Rightarrow> projected \<Rightarrow> projected result" where
  "apply_module_alpha_scaling cfg key new_key new_tensor =
     (case new_tensor of
        Buffered \<Rightarrow> Inr Buffered
      | _ \<Rightarrow>
          case Option.bind (module_of key) (target_alpha cfg key) of
            None \<Rightarrow> Inr new_tensor
          | Some a \<Rightarrow>
              if a = of_int (pc_alpha cfg) then Inr new_tensor
              else if pc_alpha cfg = 0 then Inl (PyExc ZeroDivisionErrorE ''float division by zero'')
              else let scale_factor = a / of_int (pc_alpha cfg)
                   in Inr (case new_tensor of
                             TensorDict d \<Rightarrow> TensorDict (map (\<lambda>(k, t). (k, scale_b scale_factor k t)) d)
                           | OneTensor t \<Rightarrow> OneTensor (scale_b scale_factor new_key t)
                           | Buffered \<Rightarrow> Buffered))"

definition should_include_key :: "port_config \<Rightarrow> string \<Rightarrow> bool" where
  "should_include_key cfg key =
     (if \<not> substring ''lora_'' key then True
      else if (case pc_include cfg of Some (m # ms) \<Rightarrow> \<not> any_in (m # ms) key | _ \<Rightarrow> False) then False
      else case Option.bind (module_of key) (\<lambda>m. map_of (pc_alpha_map cfg) (ModuleKey m)) of
             Some a \<Rightarrow> \<not> a \<le> 0
           | None \<Rightarrow> True)"

section \<open>The loop\<close>

text \<open>The state of the loop: the adapter with its buffers, the output, and the modules seen in
  written names. \<open>project\<close> is \<open>adapter.project_tensor\<close>, \<open>write\<close> the output bridge.\<close>

record 'o port_state =
  ps_adapter :: adapter
  ps_out :: 'o
  ps_modules :: "string list"

definition record_modules :: "string \<Rightarrow> string list \<Rightarrow> string list" where
  "record_modules k seen = seen @ filter (\<lambda>m. substring m k \<and> m \<notin> set seen) standard_modules"

definition write_one :: "(string \<Rightarrow> mat \<Rightarrow> ('o, unit) act) \<Rightarrow> string \<times> mat \<Rightarrow> ('o port_state, unit) act" where
  "write_one write kt s =
     (case write (fst kt) (snd kt) (ps_out s) of
        (out, r) \<Rightarrow> (s\<lparr>ps_modules := record_modules (fst kt) (ps_modules s), ps_out := out\<rparr>, r))"

fun named_tensors :: "string \<Rightarrow> projected \<Rightarrow> (string \<times> mat) list" where
  "named_tensors new_key Buffered = []"
| "named_tensors new_key (OneTensor t) = [(new_key, t)]"
| "named_tensors new_key (TensorDict d) = d"

definition port_layer ::
    "port_config \<Rightarrow> (string \<Rightarrow> mat \<Rightarrow> (adapter, projected) act) \<Rightarrow> (string \<Rightarrow> mat \<Rightarrow> ('o, unit) act) \<Rightarrow>
     string \<times> mat \<Rightarrow> ('o port_state, unit) act" where
  "port_layer cfg project write kt s =
     (let (key, tensor) = kt
      in if \<not> should_include_key cfg key then (s, Inr ())
         else let new_key = map_key (ps_adapter s) key
              in case project key tensor (ps_adapter s) of
                   (ad, Inl e) \<Rightarrow> (s\<lparr>ps_adapter := ad\<rparr>, Inl e)
                 | (ad, Inr p) \<Rightarrow>
                     bindS (liftS (apply_module_alpha_scaling cfg key new_key p))
                       (\<lambda>q. forS (write_one write) (named_tensors new_key q)) (s\<lparr>ps_adapter := ad\<rparr>))"

record port_source =
  so_iter :: "(string \<times> mat) list result"
  so_load :: "(string \<times> mat) list result"
  so_dummy :: "(string \<times> mat) list"
  so_allow_dummy :: bool

text \<open>The load-all logic the loop falls back to, on the state the failed attempt left.\<close>

definition port_fallback ::
    "port_config \<Rightarrow> (string \<Rightarrow> mat \<Rightarrow> (adapter, projected) act) \<Rightarrow> (string \<Rightarrow> mat \<Rightarrow> ('o, unit) act) \<Rightarrow>
     port_source \<Rightarrow> ('o port_state, unit) act" where
  "port_fallback cfg project write src =
     (case so_load src of
        Inr sd \<Rightarrow> forS (port_layer cfg project write) sd
      | Inl _ \<Rightarrow>
          if \<not> so_allow_dummy src
          then liftS (Inl (PyExc RuntimeErrorE ''Physical weights not found and allow_dummy_fallback is False.''))
          else forS (port_layer cfg project write) (so_dummy src))"

definition port_weights ::
    "port_config \<Rightarrow> (string \<Rightarrow> mat \<Rightarrow> (adapter, projected) act) \<Rightarrow> (string \<Rightarrow> mat \<Rightarrow> ('o, unit) act) \<Rightarrow>
     port_source \<Rightarrow> ('o port_state, unit) act" where
  "port_weights cfg project write src =
     catchS (bindS (liftS (so_iter src)) (forS (port_layer cfg project write)))
            (\<lambda>_. port_fallback cfg project write src)"

section \<open>The pipeline\<close>

text \<open>Layers for the piecewise projection: a list, or a string that was not parsed.\<close>

datatype layers_arg = LayerList "int list" | LayerStr string

record port_args =
  pa_source :: string
  pa_source_base_model :: "string option"
  pa_target :: "string option"
  pa_output :: string
  pa_rank :: "nat option"
  pa_alpha :: "int option"
  pa_include_modules :: "string option"
  pa_module_alpha_map :: "string option"
  pa_allow_dummy_fallback :: bool
  pa_delta_health :: "delta_health option"
  pa_projection_mode :: "string option"
  pa_scaling_config :: "scaling_config option"
  pa_piecewise_modules :: "string option"
  pa_piecewise_layers :: "layers_arg option"
  pa_piecewise_max_layers :: "int option"

record port_env =
  pe_config :: "string option \<Rightarrow> auto_config option"
  pe_snapshot :: "string \<Rightarrow> string result"
  pe_pytest :: bool
  pe_randn :: "nat \<Rightarrow> nat \<Rightarrow> mat"
  pe_now :: string
  pe_svd :: svd
  pe_components :: mat
  pe_nbytes :: "mat \<Rightarrow> nat"

record port_world =
  pw_disk :: "mat disk"
  pw_json :: "(string, json) dict"

definition or_default :: "'a option \<Rightarrow> 'a \<Rightarrow> 'a" where
  "or_default x d = (case x of None \<Rightarrow> d | Some v \<Rightarrow> v)"

definition source_base :: "port_args \<Rightarrow> string" where
  "source_base args =
     (case pa_source_base_model args of Some (c # cs) \<Rightarrow> c # cs | _ \<Rightarrow> pa_source args)"

text \<open>Where the source adapter is read from.\<close>

definition resolve_source :: "port_env \<Rightarrow> mat disk \<Rightarrow> string \<Rightarrow> string result" where
  "resolve_source env d path =
     (if \<not> path_exists d path \<and> substring ''/'' path
      then if \<not> pe_pytest env
           then case pe_snapshot env path of
                  Inr local_path \<Rightarrow> Inr local_path
                | Inl e \<Rightarrow> Inl (PyExc RuntimeErrorE (''Failed to download source adapter from Hugging Face: '' @ exc_msg e))
           else Inr path
      else if \<not> path_exists d path \<and> \<not> pe_pytest env
      then Inl (PyExc FileNotFoundErrorE (''Source adapter does not exist and is not a valid Hugging Face repository.''))
      else Inr path)"

text \<open>A string given for the modules is iterated character by character.\<close>

definition port_options :: "port_args \<Rightarrow> adapter_options" where
  "port_options args =
     \<lparr>ao_rank = or_default (pa_rank args) 16, ao_delta_health = pa_delta_health args,
      ao_projection_mode = or_default (pa_projection_mode args) ''linear'', ao_scaling_config = pa_scaling_config args,
      ao_piecewise_modules = map_option (map (\<lambda>c. [c])) (pa_piecewise_modules args),
      ao_piecewise_layers = (case pa_piecewise_layers args of Some (LayerList ls) \<Rightarrow> Some ls | _ \<Rightarrow> None),
      ao_piecewise_max_layers = pa_piecewise_max_layers args\<rparr>"

text \<open>\<open>layer_idx not in piecewise_layers\<close> raises when the layers are a string.\<close>

definition port_project :: "port_env \<Rightarrow> port_args \<Rightarrow> string \<Rightarrow> mat \<Rightarrow> (adapter, projected) act" where
  "port_project env args key tensor ad =
     (case pa_piecewise_layers args of
        Some (LayerStr (c # cs)) \<Rightarrow>
          if ad_kind ad = Llama3ToQwen2Adapter \<and> ad_projection_mode ad = ''piecewise'' \<and> is_mlp_key key
             \<and> (case ad_piecewise_modules ad of Some (m # ms) \<Rightarrow> any_in (m # ms) key | _ \<Rightarrow> True)
             \<and> layer_of key \<noteq> None
          then (ad, Inl (PyExc TypeErrorE ''in <string> requires string as left operand, not int''))
          else project_tensor (pe_svd env) (pe_components env) key tensor ad
      | _ \<Rightarrow> project_tensor (pe_svd env) (pe_components env) key tensor ad)"

text \<open>Output directory and file.\<close>

definition output_paths :: "string \<Rightarrow> string \<times> string" where
  "output_paths target =
     (if ends_with target ''.safetensors'' \<or> ends_with target ''.gguf''
      then (let d = os_dirname target in if d = [] then ''.'' else d, target)
      else (target, os_join target ''adapter_model.safetensors''))"

definition make_dir :: "string \<Rightarrow> 't disk \<Rightarrow> 't disk" where
  "make_dir p d = (if p \<noteq> [] \<and> \<not> path_exists d p then d\<lparr>dk_dirs := dk_dirs d @ [p]\<rparr> else d)"

definition dummy_state :: "port_env \<Rightarrow> model_info \<Rightarrow> (string \<times> mat) list" where
  "dummy_state env source_info =
     (let s_hidden = dict_get source_info ''hidden_size'' 0
      in [(''base_model.model.model.layers.0.self_attn.q_proj.lora_A.weight'', pe_randn env 16 s_hidden),
          (''base_model.model.model.layers.0.self_attn.q_proj.lora_B.weight'', pe_randn env s_hidden 16)])"

definition detected_rank :: "mat disk \<Rightarrow> string \<Rightarrow> nat" where
  "detected_rank d path =
     (let probe = (if path \<in> set (dk_dirs d) then os_join path ''adapter_model.safetensors'' else path)
      in case Option.bind (map_of (dk_files d) probe) (List.find (\<lambda>kt. substring ''lora_A'' (fst kt))) of
           Some (k, t) \<Rightarrow> mt_rows t
         | None \<Rightarrow> 16)"

definition target_modules :: "string list \<Rightarrow> string list" where
  "target_modules seen =
     (if seen = [] then standard_modules else filter (\<lambda>m. m \<in> set seen) standard_modules)"

fun alpha_key_str :: "alpha_key \<Rightarrow> string" where
  "alpha_key_str (ModuleKey m) = m"
| "alpha_key_str (LayerKey m i) = m @ ''.'' @ int_str i"

definition opt_str :: "string option \<Rightarrow> json" where
  "opt_str x = (case x of None \<Rightarrow> JNull | Some s \<Rightarrow> JStr s)"

definition adapter_config :: "port_args \<Rightarrow> nat \<Rightarrow> string list \<Rightarrow> json" where
  "adapter_config args r modules =
     JObj [(''peft_type'', JStr ''LORA''), (''r'', JInt (int r)),
           (''lora_alpha'', JInt (or_default (pa_alpha args) 16)), (''target_modules'', JList (map JStr modules)),
           (''base_model_name_or_path'', opt_str (pa_target args))]"

definition projection_metadata :: "port_env \<Rightarrow> port_args \<Rightarrow> string \<Rightarrow> port_config \<Rightarrow> nat \<Rightarrow> json" where
  "projection_metadata env args src cfg r =
     JObj [(''source_adapter'', JStr src), (''target_model'', opt_str (pa_target args)),
           (''global_alpha'', JInt (pc_alpha cfg)),
           (''module_alpha_map'', JObj (map (\<lambda>(k, v). (alpha_key_str k, JFloat v)) (pc_alpha_map cfg))),
           (''rank'', JInt (int r)), (''timestamp'', JStr (pe_now env))]"

definition port_cfg :: "port_args \<Rightarrow> port_config" where
  "port_cfg args =
     \<lparr>pc_alpha = or_default (pa_alpha args) 16, pc_alpha_map = parse_alpha_map (pa_module_alpha_map args),
      pc_include = map_option (\<lambda>s. map str_strip (split_on (CHR '','') s)) (pa_include_modules args)\<rparr>"

definition write_config :: "port_env \<Rightarrow> port_args \<Rightarrow> string \<Rightarrow> string list \<Rightarrow> port_world \<Rightarrow> port_world" where
  "write_config env args src seen w =
     (let (dir, path) = output_paths (pa_output args);
          r = or_default (pa_rank args) (detected_rank (pw_disk w) path)
      in w\<lparr>pw_json :=
             dict_set (os_join dir ''projection_metadata.json'') (projection_metadata env args src (port_cfg args) r)
               (dict_set (os_join dir ''adapter_config.json'') (adapter_config args r (target_modules seen)) (pw_json w))\<rparr>)"

text \<open>The surgery between the opening and the closing of the writer, which \<open>finally\<close> closes.\<close>

definition port_surgery :: "port_env \<Rightarrow> port_args \<Rightarrow> string \<Rightarrow> port_source \<Rightarrow> adapter \<Rightarrow> port_world \<Rightarrow> port_world \<times> string list result" where
  "port_surgery env args path src ad w =
     (let (s, r) = port_weights (port_cfg args) (port_project env args) (write_layer (pe_nbytes env)) src
                     \<lparr>ps_adapter = ad, ps_out = open_writer path (init_bridge_writer (pw_disk w)), ps_modules = []\<rparr>;
          (b, r') = close_writer (ps_out s)
      in (w\<lparr>pw_disk := br_disk b\<rparr>, bindE r' (\<lambda>_. bindE r (\<lambda>_. Inr (ps_modules s)))))"

text \<open>\<open>port_lora\<close> for a source and an output of the safetensors bridge (\<open>get_bridge\<close>).\<close>

definition port_lora :: "port_env \<Rightarrow> port_args \<Rightarrow> (port_world, unit) act" where
  "port_lora env args w =
     (let load = pe_config env; base = Some (source_base args)
      in bindS (liftS (resolve_source env (pw_disk w) (pa_source args))) (\<lambda>path.
         bindS (liftS (detect_architecture load (pw_disk w) base)) (\<lambda>source_arch.
         bindS (liftS (detect_architecture load (pw_disk w) (pa_target args))) (\<lambda>target_arch.
         bindS (liftS (get_model_info load base)) (\<lambda>source_info.
         bindS (liftS (get_model_info load (pa_target args))) (\<lambda>target_info.
         bindS (liftS (get_adapter source_arch target_arch source_info target_info (port_options args))) (\<lambda>adapter.
         bindS (modS (\<lambda>w. w\<lparr>pw_disk := make_dir (fst (output_paths (pa_output args))) (pw_disk w)\<rparr>)) (\<lambda>_.
         bindS (\<lambda>w. port_surgery env args (snd (output_paths (pa_output args)))
                       \<lparr>so_iter = load_weights (pw_disk w) path, so_load = load_weights (pw_disk w) path,
                        so_dummy = dummy_state env source_info,
                        so_allow_dummy = pa_allow_dummy_fallback args \<or> pe_pytest env\<rparr> adapter w) (\<lambda>seen.
           modS (write_config env args path seen))))))))) w)"

section \<open>The loop writes what the projection yields\<close>

text \<open>What the loop asks of an output: writing never fails, and the output holds what was written.\<close>

locale tensor_output =
  fixes put :: "string \<Rightarrow> mat \<Rightarrow> ('o, unit) act"
    and holds :: "'o \<Rightarrow> (string \<times> mat) list \<Rightarrow> bool"
  assumes write_holds: "holds out ws \<Longrightarrow> \<exists>out'. put k t out = (out', Inr ()) \<and> holds out' (ws @ [(k, t)])"
begin

lemma write_all:
  "holds (ps_out s) ws \<Longrightarrow> \<exists>s'. forS (write_one put) kts s = (s', Inr ()) \<and> holds (ps_out s') (ws @ kts)
     \<and> ps_adapter s' = ps_adapter s \<and> ps_modules s' = fold record_modules (map fst kts) (ps_modules s)"
proof (induction kts arbitrary: s ws)
  case (Cons kt kts)
  obtain out' where out: "put (fst kt) (snd kt) (ps_out s) = (out', Inr ())" "holds out' (ws @ [kt])"
    using write_holds[OF Cons.prems, of "fst kt" "snd kt"] by auto
  let ?s = "s\<lparr>ps_modules := record_modules (fst kt) (ps_modules s), ps_out := out'\<rparr>"
  have "write_one put kt s = (?s, Inr ())" using out(1) by (simp add: write_one_def)
  then show ?case using Cons.IH[of ?s "ws @ [kt]"] out(2) by simp
qed simp

text \<open>The projection need only succeed, under an invariant of the adapter, with tensors that do not depend
  on what the adapter collected.\<close>

lemma loop_writes:
  assumes project: "\<And>key t ad. (key, t) \<in> set sd \<Longrightarrow> should_include_key cfg key \<Longrightarrow> I ad \<Longrightarrow>
      \<exists>ad' p q. project key t ad = (ad', Inr p) \<and> I ad'
        \<and> apply_module_alpha_scaling cfg key (map_key ad key) p = Inr q \<and> named_tensors (map_key ad key) q = ported key t"
  defines "outs \<equiv> \<lambda>sd. concat (map (\<lambda>(k, t). if should_include_key cfg k then ported k t else []) sd)"
  shows "I (ps_adapter s) \<Longrightarrow> holds (ps_out s) ws \<Longrightarrow>
    \<exists>s'. forS (port_layer cfg project put) sd s = (s', Inr ()) \<and> I (ps_adapter s') \<and> holds (ps_out s') (ws @ outs sd)
      \<and> ps_modules s' = fold record_modules (map fst (outs sd)) (ps_modules s)"
  using project
proof (induction sd arbitrary: s ws)
  case Nil
  then show ?case by (simp add: outs_def)
next
  case (Cons kt sd)
  obtain key t where kt: "kt = (key, t)" by fastforce
  note IH = Cons.IH[OF _ _ Cons.prems(3)]
  show ?case
  proof (cases "should_include_key cfg key")
    case False
    then show ?thesis using IH[OF Cons.prems(1,2)] by (simp add: port_layer_def kt outs_def)
  next
    case True
    obtain ad' p q where p: "project key t (ps_adapter s) = (ad', Inr p)" "I ad'"
        "apply_module_alpha_scaling cfg key (map_key (ps_adapter s) key) p = Inr q"
        "named_tensors (map_key (ps_adapter s) key) q = ported key t"
      using Cons.prems(3)[of key t "ps_adapter s"] Cons.prems(1) True kt by auto
    obtain s' where s': "forS (write_one put) (ported key t) (s\<lparr>ps_adapter := ad'\<rparr>) = (s', Inr ())"
        "holds (ps_out s') (ws @ ported key t)" "ps_adapter s' = ad'"
        "ps_modules s' = fold record_modules (map fst (ported key t)) (ps_modules s)"
      using write_all[of "s\<lparr>ps_adapter := ad'\<rparr>" ws "ported key t"] Cons.prems(2) by auto
    have step: "port_layer cfg project put kt s = (s', Inr ())"
      using True p s'(1) by (simp add: port_layer_def kt bindS_def liftS_def)
    have outs: "outs (kt # sd) = ported key t @ outs sd" using True by (simp add: outs_def kt)
    show ?thesis using IH[of s' "ws @ ported key t"] p(2) s'(2-4) step unfolding outs by simp
  qed
qed

end

text \<open>The safetensors writer is such an output.\<close>

definition st_holds :: "(mat \<Rightarrow> nat) \<Rightarrow> string \<Rightarrow> nat \<Rightarrow> mat st_bridge \<Rightarrow> (string \<times> mat) list \<Rightarrow> bool" where
  "st_holds nbytes path limit b ws \<longleftrightarrow> writer_inv path ws b \<and> one_shard nbytes ws b \<and> br_max_shard_size b = limit"

interpretation st_output: tensor_output "write_layer nbytes" "st_holds nbytes path limit" for nbytes path limit
proof
  fix out ws k t assume h: "st_holds nbytes path limit out ws"
  obtain b' where b': "write_layer nbytes k t out = (b', Inr ())" "writer_inv path (ws @ [(k, t)]) b'"
    using h write_layer_inv[of path ws out nbytes k t] by (auto simp: st_holds_def)
  moreover have "br_max_shard_size b' = br_max_shard_size out"
    using b'(1) by (auto simp: write_layer_def flush_shard_def save_file_def Let_def split: option.splits if_splits)
  ultimately show "\<exists>out'. write_layer nbytes k t out = (out', Inr ()) \<and> st_holds nbytes path limit out' (ws @ [(k, t)])"
    using h write_layer_one_shard[of nbytes ws out k t b'] by (auto simp: st_holds_def)
qed

lemma set_record_modules:
  "set (fold record_modules ks seen) = set seen \<union> {m \<in> set standard_modules. \<exists>k\<in>set ks. substring m k}"
  by (induction ks arbitrary: seen) (auto simp: record_modules_def)

section \<open>Linear ports\<close>

text \<open>What becomes of the tensor of a key: the linear projection, and for a B factor the alpha of its module.\<close>

definition alpha_factor :: "port_config \<Rightarrow> string \<Rightarrow> rat" where
  "alpha_factor cfg key =
     (case Option.bind (module_of key) (target_alpha cfg key) of
        None \<Rightarrow> 1
      | Some a \<Rightarrow> if a = of_int (pc_alpha cfg) then 1 else a / of_int (pc_alpha cfg))"

definition linear_ported :: "port_config \<Rightarrow> adapter \<Rightarrow> string \<Rightarrow> mat \<Rightarrow> mat" where
  "linear_ported cfg ad key t =
     (let u = mat_scale (of_rat (adaptive_scale ad key)) (legacy_project ad key t)
      in if substring ''lora_B'' key then mat_scale (of_rat (alpha_factor cfg key)) u else u)"

lemma mat_scale_one: "mat_wf m \<Longrightarrow> mat_scale 1 m = m"
  by (rule mat_eqI) (auto simp: mat_scale_def)

lemma apply_scaling_one:
  assumes "pc_alpha cfg \<noteq> 0 \<or> pc_alpha_map cfg = []" "mat_wf t"
  shows "apply_module_alpha_scaling cfg key key (OneTensor t)
    = Inr (OneTensor (if substring ''lora_B'' key then mat_scale (of_rat (alpha_factor cfg key)) t else t))"
proof -
  have "Option.bind (module_of key) (target_alpha cfg key) = None" if "pc_alpha_map cfg = []"
    using that by (auto simp: target_alpha_def bind_eq_None_conv split: option.split)
  then show ?thesis
    using assms mat_scale_one
    by (auto simp: apply_module_alpha_scaling_def alpha_factor_def scale_b_def split: option.split)
qed

lemma linear_port_project:
  assumes "ad_kind ad = Llama3ToQwen2Adapter" "ad_projection_mode ad \<noteq> ''piecewise''"
  shows "port_project env args key t ad = linear_project key t ad"
  using assms by (auto simp: port_project_def project_tensor_def structural_project_def split: option.split layers_arg.split list.split)

text \<open>The adapter during a linear port: only its applied scales change.\<close>

definition same_but_scales :: "adapter \<Rightarrow> adapter \<Rightarrow> bool" where
  "same_but_scales ad0 ad \<longleftrightarrow> (\<exists>a. ad = ad0\<lparr>ad_applied_scales := a\<rparr>)"

lemma linear_layer:
  assumes kind: "ad_kind ad0 = Llama3ToQwen2Adapter" "ad_projection_mode ad0 \<noteq> ''piecewise''"
    and alpha: "pc_alpha cfg \<noteq> 0 \<or> pc_alpha_map cfg = []"
    and inv: "same_but_scales ad0 ad"
  shows "\<exists>ad' p q. port_project env args key t ad = (ad', Inr p) \<and> same_but_scales ad0 ad'
    \<and> apply_module_alpha_scaling cfg key (map_key ad key) p = Inr q
    \<and> named_tensors (map_key ad key) q = [(key, linear_ported cfg ad0 key t)]"
proof -
  obtain a where ad: "ad = ad0\<lparr>ad_applied_scales := a\<rparr>" using inv by (auto simp: same_but_scales_def)
  let ?u = "mat_scale (of_rat (adaptive_scale ad0 key)) (legacy_project ad0 key t)"
  obtain b where b: "linear_project key t ad = (ad\<lparr>ad_applied_scales := b\<rparr>, Inr (OneTensor ?u))"
    using linear_project_eq[of key t ad] unfolding ad frame_simps by blast
  have k: "ad_kind ad = Llama3ToQwen2Adapter" "ad_projection_mode ad \<noteq> ''piecewise''" using kind by (simp_all add: ad)
  have "port_project env args key t ad = (ad0\<lparr>ad_applied_scales := b\<rparr>, Inr (OneTensor ?u))"
    unfolding linear_port_project[OF k] b by (simp add: ad)
  then show ?thesis
    using apply_scaling_one[OF alpha, of ?u key]
    by (auto simp: same_but_scales_def map_key_def linear_ported_def Let_def)
qed

text \<open>With a global alpha of zero, the first layer whose module has another alpha raises; the load-all logic
  meets the same layer and raises again, so the port fails with the layers before it written.\<close>

lemma zero_alpha_raises:
  assumes kind: "ad_kind ad0 = Llama3ToQwen2Adapter" "ad_projection_mode ad0 \<noteq> ''piecewise''"
    and zero: "pc_alpha cfg = 0" "Option.bind (module_of key) (target_alpha cfg key) = Some a" "a \<noteq> 0"
    and inv: "same_but_scales ad0 (ps_adapter s)" and inc: "should_include_key cfg key"
  shows "\<exists>ad. port_layer cfg (port_project env args) put (key, t) s
      = (s\<lparr>ps_adapter := ad\<rparr>, Inl (PyExc ZeroDivisionErrorE ''float division by zero'')) \<and> same_but_scales ad0 ad"
proof -
  obtain a where ad: "ps_adapter s = ad0\<lparr>ad_applied_scales := a\<rparr>" using inv by (auto simp: same_but_scales_def)
  have k: "ad_kind (ps_adapter s) = Llama3ToQwen2Adapter" "ad_projection_mode (ps_adapter s) \<noteq> ''piecewise''"
    using kind by (simp_all add: ad)
  obtain b u where b: "linear_project key t (ps_adapter s) = ((ps_adapter s)\<lparr>ad_applied_scales := b\<rparr>, Inr (OneTensor u))"
    using linear_project_eq[of key t "ps_adapter s"] by blast
  have proj: "port_project env args key t (ps_adapter s) = (ad0\<lparr>ad_applied_scales := b\<rparr>, Inr (OneTensor u))"
    unfolding linear_port_project[OF k] b by (simp add: ad)
  have app: "apply_module_alpha_scaling cfg key key (OneTensor u) = Inl (PyExc ZeroDivisionErrorE ''float division by zero'')"
    using zero by (simp add: apply_module_alpha_scaling_def)
  show ?thesis
    by (intro exI[of _ "ad0\<lparr>ad_applied_scales := b\<rparr>"])
      (auto simp: port_layer_def inc proj app map_key_def bindS_def liftS_def same_but_scales_def)
qed

lemma zero_alpha_port_fails:
  assumes kind: "ad_kind ad0 = Llama3ToQwen2Adapter" "ad_projection_mode ad0 \<noteq> ''piecewise''"
    and zero: "pc_alpha cfg = 0" "Option.bind (module_of key) (target_alpha cfg key) = Some a" "a \<noteq> 0"
    and inc: "should_include_key cfg key"
    and src: "so_iter src = Inr ((key, t) # sd)" "so_load src = Inr ((key, t) # sd)"
  shows "\<exists>ad. port_weights cfg (port_project env args) put src \<lparr>ps_adapter = ad0, ps_out = b, ps_modules = []\<rparr>
      = (\<lparr>ps_adapter = ad, ps_out = b, ps_modules = []\<rparr>, Inl (PyExc ZeroDivisionErrorE ''float division by zero''))"
proof -
  let ?s = "\<lambda>ad. \<lparr>ps_adapter = ad, ps_out = b, ps_modules = []\<rparr>"
  note raises = zero_alpha_raises[where put = put and t = t and env = env and args = args, OF kind zero _ inc]
  have "same_but_scales ad0 ad0" unfolding same_but_scales_def by (rule exI[of _ "ad_applied_scales ad0"]) simp
  then obtain ad1 where 1: "port_layer cfg (port_project env args) put (key, t) (?s ad0)
      = (?s ad1, Inl (PyExc ZeroDivisionErrorE ''float division by zero''))" "same_but_scales ad0 ad1"
    using raises[of "?s ad0"] by auto
  then obtain ad2 where "port_layer cfg (port_project env args) put (key, t) (?s ad1)
      = (?s ad2, Inl (PyExc ZeroDivisionErrorE ''float division by zero''))"
    using raises[of "?s ad1"] by auto
  then show ?thesis
    using 1(1) src by (simp add: port_weights_def port_fallback_def catchS_def bindS_def liftS_def)
qed

section \<open>The alpha map stops at a malformed item\<close>

lemma insert_items_stops: "parse_item bad = None \<Longrightarrow> insert_items (good @ bad # rest) m = insert_items good m"
  by (induction good arbitrary: m) (auto split: option.splits)

lemma malformed_item_drops_rest:
  "parse_alpha_map (Some ''q_proj=4,v_proj:2,down_proj=0'') = [(ModuleKey ''q_proj'', 4)]"
  by code_simp

text \<open>A range of layers sets every layer of it, ends included.\<close>

lemma layer_range_item:
  assumes "split_on (CHR ''='') item = [spec, val]" "py_float (str_strip val) = Some a"
    and "split_on (CHR ''.'') (str_strip spec) = [m, rng]" "substring ''.'' (str_strip spec)"
    and "split_on (CHR ''-'') rng = [x, y]" "substring ''-'' rng" "py_int x = Some i" "py_int y = Some j"
  shows "map_of (insert_items [item] d) (LayerKey m k) = (if i \<le> k \<and> k \<le> j then Some a else map_of d (LayerKey m k))"
proof -
  have "parse_item item = Some (map (\<lambda>i. (LayerKey m i, a)) [i..j])" using assms by (simp add: parse_item_def)
  moreover have "map_of (rev (map (\<lambda>i. (LayerKey m i, a)) ks)) (LayerKey m k) = (if k \<in> set ks then Some a else None)" for ks
    by (induction ks rule: rev_induct) auto
  ultimately show ?thesis by (simp add: map_of_foldl_set)
qed

text \<open>The layers of the source that are ported, and the run between opening and closing the writer.\<close>

definition ported_layers :: "port_config \<Rightarrow> adapter \<Rightarrow> (string \<times> mat) list \<Rightarrow> (string \<times> mat) list" where
  "ported_layers cfg ad sd =
     map (\<lambda>(k, t). (k, linear_ported cfg ad k t)) (filter (\<lambda>(k, t). should_include_key cfg k) sd)"

lemma linear_weights:
  assumes kind: "ad_kind ad0 = Llama3ToQwen2Adapter" "ad_projection_mode ad0 \<noteq> ''piecewise''"
    and alpha: "pc_alpha cfg \<noteq> 0 \<or> pc_alpha_map cfg = []"
    and src: "so_iter src = Inr sd"
    and out: "st_holds nbytes path limit b []"
  shows "\<exists>s'. port_weights cfg (port_project env args) (write_layer nbytes) src
      \<lparr>ps_adapter = ad0, ps_out = b, ps_modules = []\<rparr> = (s', Inr ())
    \<and> st_holds nbytes path limit (ps_out s') (ported_layers cfg ad0 sd)
    \<and> set (ps_modules s') = {m \<in> set standard_modules. \<exists>k\<in>fst ` set (ported_layers cfg ad0 sd). substring m k}"
proof -
  let ?s = "\<lparr>ps_adapter = ad0, ps_out = b, ps_modules = []\<rparr>"
  have outs: "concat (map (\<lambda>(k, t). if should_include_key cfg k then [(k, linear_ported cfg ad0 k t)] else []) sd)
      = ported_layers cfg ad0 sd"
    unfolding ported_layers_def by (induction sd) (auto split: prod.splits)
  have "same_but_scales ad0 ad0" unfolding same_but_scales_def by (rule exI[of _ "ad_applied_scales ad0"]) simp
  then obtain s' where s': "forS (port_layer cfg (port_project env args) (write_layer nbytes)) sd ?s = (s', Inr ())"
      "st_holds nbytes path limit (ps_out s') (ported_layers cfg ad0 sd)"
      "ps_modules s' = fold record_modules (map fst (ported_layers cfg ad0 sd)) []"
    using st_output.loop_writes[where I = "same_but_scales ad0" and ported = "\<lambda>k t. [(k, linear_ported cfg ad0 k t)]"
        and sd = sd and cfg = cfg and project = "port_project env args" and s = ?s and ws = "[]"
        and nbytes = nbytes and path = path and limit = limit, OF linear_layer[OF kind alpha]] out
    unfolding outs by auto
  have "port_weights cfg (port_project env args) (write_layer nbytes) src ?s = (s', Inr ())"
    using s'(1) src by (simp add: port_weights_def catchS_def bindS_def liftS_def)
  then show ?thesis using s'(2,3) set_record_modules[of "map fst (ported_layers cfg ad0 sd)" "[]"] by auto
qed

lemma linear_surgery:
  assumes kind: "ad_kind ad0 = Llama3ToQwen2Adapter" "ad_projection_mode ad0 \<noteq> ''piecewise''"
    and alpha: "pc_alpha (port_cfg args) \<noteq> 0 \<or> pc_alpha_map (port_cfg args) = []"
    and src: "so_iter src = Inr sd"
    and some: "ported_layers (port_cfg args) ad0 sd \<noteq> []"
    and fits: "written_size (pe_nbytes env) (ported_layers (port_cfg args) ad0 sd) \<le> 2 * 1024 * 1024 * 1024"
  shows "\<exists>d saved seen. port_surgery env args path src ad0 w = (w\<lparr>pw_disk := d\<rparr>, Inr seen)
    \<and> load_weights d path = Inr saved \<and> map_of saved = map_of (rev (ported_layers (port_cfg args) ad0 sd))
    \<and> set seen = {m \<in> set standard_modules. \<exists>k\<in>fst ` set (ported_layers (port_cfg args) ad0 sd). substring m k}"
proof -
  let ?b = "open_writer path (init_bridge_writer (pw_disk w))" let ?ws = "ported_layers (port_cfg args) ad0 sd"
  have "st_holds (pe_nbytes env) path (2 * 1024 * 1024 * 1024) ?b []"
    using open_inv[of path "init_bridge_writer (pw_disk w)"]
    by (simp add: st_holds_def one_shard_def open_writer_def init_bridge_writer_def shard_size_def)
  from linear_weights[OF kind alpha src this, where env = env and args = args]
  obtain s' where s': "port_weights (port_cfg args) (port_project env args) (write_layer (pe_nbytes env)) src
      \<lparr>ps_adapter = ad0, ps_out = ?b, ps_modules = []\<rparr> = (s', Inr ())"
    "st_holds (pe_nbytes env) path (2 * 1024 * 1024 * 1024) (ps_out s') ?ws"
    "set (ps_modules s') = {m \<in> set standard_modules. \<exists>k\<in>fst ` set ?ws. substring m k}" by blast
  have inv: "writer_inv path ?ws (ps_out s')" and zero: "br_shard_count (ps_out s') = 0"
    using s'(2) fits by (auto simp: st_holds_def one_shard_def)
  obtain b r where b: "close_writer (ps_out s') = (b, r)" by fastforce
  have wp: "br_writer_path (ps_out s') = Some path" using inv by (simp add: writer_inv_def)
  have "map_of (br_current_shard (ps_out s')) = map_of (rev ?ws)"
    using inv zero by (simp add: writer_inv_def saved_shards_def)
  moreover have "map_of (rev ?ws) \<noteq> Map.empty" using some by simp
  ultimately have "br_current_shard (ps_out s') \<noteq> []" by fastforce
  then have "br_shard_count b = 0"
    using b wp zero by (auto simp: close_writer_def save_file_def Let_def split: if_splits)
  then have "r = Inr ()" "\<exists>saved. load_weights (br_disk b) path = Inr saved \<and> map_of saved = map_of (rev ?ws)"
    using close_complete[OF inv b] some by auto
  then show ?thesis using s'(1,3) b by (auto simp: port_surgery_def Let_def)
qed

lemma init_adapter_mode: "init_adapter kind si ti opts = Inr ad \<Longrightarrow> ad_projection_mode ad = ao_projection_mode opts"
  by (simp add: init_adapter_def bindE_Inr_iff Let_def) (elim exE conjE, erule subst, simp)

lemma get_adapter_mode: "get_adapter s t si ti opts = Inr ad \<Longrightarrow> ad_projection_mode ad = ao_projection_mode opts"
  by (auto simp: get_adapter_def Let_def dest!: init_adapter_mode split: if_splits)

text \<open>C19. A linear port end to end. Given a readable source, two language model architectures, a
  non-zero alpha and layers that fit in one shard: \<open>port_lora\<close> returns; loading the output file gives
  exactly the included keys of the source, each with its linear projection, a B factor also
  scaled by the alpha of its module over the global alpha; and the configuration written beside it has the
  rank and alpha asked for and lists exactly the modules that occur in the output.\<close>

theorem port_lora_linear:
  assumes src: "resolve_source env (pw_disk w) (pa_source args) = Inr path"
    and archs: "detect_architecture (pe_config env) (pw_disk w) (Some (source_base args)) = Inr sa"
      "detect_architecture (pe_config env) (pw_disk w) (pa_target args) = Inr ta"
    and infos: "get_model_info (pe_config env) (Some (source_base args)) = Inr si"
      "get_model_info (pe_config env) (pa_target args) = Inr ti"
    and adapter: "get_adapter sa ta si ti (port_options args) = Inr ad" "ad_kind ad = Llama3ToQwen2Adapter"
    and linear: "pa_projection_mode args \<noteq> Some ''piecewise''"
    and alpha: "pa_alpha args \<noteq> Some 0 \<or> pa_module_alpha_map args = None"
    and rank: "pa_rank args = Some r"
    and out: "output_paths (pa_output args) = (dir, out_path)"
    and source: "load_weights (make_dir dir (pw_disk w)) path = Inr sd" "dict_wf sd"
    and ws: "ws = ported_layers (port_cfg args) ad sd" "ws \<noteq> []" "written_size (pe_nbytes env) ws \<le> 2 * 1024 * 1024 * 1024"
    and some: "\<exists>m\<in>set standard_modules. \<exists>k\<in>fst ` set ws. substring m k"
  shows "\<exists>w' saved. port_lora env args w = (w', Inr ()) \<and> load_weights (pw_disk w') out_path = Inr saved
    \<and> (\<forall>k. map_of saved k = (if should_include_key (port_cfg args) k
                              then map_option (linear_ported (port_cfg args) ad k) (map_of sd k) else None))
    \<and> map_of (pw_json w') (os_join dir ''adapter_config.json'')
        = Some (adapter_config args r (filter (\<lambda>m. \<exists>k\<in>dom (map_of saved). substring m k) standard_modules))"
proof -
  let ?src = "\<lparr>so_iter = load_weights (make_dir dir (pw_disk w)) path, so_load = load_weights (make_dir dir (pw_disk w)) path,
      so_dummy = dummy_state env si, so_allow_dummy = pa_allow_dummy_fallback args \<or> pe_pytest env\<rparr>"
  let ?w = "w\<lparr>pw_disk := make_dir dir (pw_disk w)\<rparr>"
  have mode: "ad_projection_mode ad \<noteq> ''piecewise''"
    unfolding get_adapter_mode[OF adapter(1)] using linear by (auto simp: port_options_def or_default_def split: option.split)
  have a: "pc_alpha (port_cfg args) \<noteq> 0 \<or> pc_alpha_map (port_cfg args) = []"
    using alpha by (auto simp: port_cfg_def or_default_def parse_alpha_map_def split: option.splits)
  obtain d saved seen where s: "port_surgery env args out_path ?src ad ?w = (?w\<lparr>pw_disk := d\<rparr>, Inr seen)"
      "load_weights d out_path = Inr saved" "map_of saved = map_of (rev ws)"
      "set seen = {m \<in> set standard_modules. \<exists>k\<in>fst ` set ws. substring m k}"
    using linear_surgery[where src = ?src and env = env and path = out_path and w = ?w, OF adapter(2) mode a, of sd] source(1) ws by auto
  let ?w' = "write_config env args path seen (?w\<lparr>pw_disk := d\<rparr>)"
  have port: "port_lora env args w = (?w', Inr ())"
    using src archs infos adapter(1) s(1) out by (simp add: port_lora_def bindS_def liftS_def modS_def Let_def)
  have dist: "distinct (map fst ws)"
    using source(2) unfolding ws(1) ported_layers_def dict_wf_def
    by (induction sd) (auto simp: image_iff split: prod.splits)
  have "map_of ws k = (if should_include_key (port_cfg args) k
      then map_option (linear_ported (port_cfg args) ad k) (map_of sd k) else None)" for k
    unfolding ws(1) ported_layers_def by (induction sd) auto
  then have saved: "map_of saved = map_of ws" "\<forall>k. map_of saved k = (if should_include_key (port_cfg args) k
      then map_option (linear_ported (port_cfg args) ad k) (map_of sd k) else None)"
    using s(3) map_of_rev_distinct[OF dist] by auto
  have "target_modules seen = filter (\<lambda>m. \<exists>k\<in>dom (map_of saved). substring m k) standard_modules"
    using some s(4) by (auto simp: target_modules_def saved(1) dom_map_of_conv_image_fst intro!: filter_cong)
  then have config: "map_of (pw_json ?w') (os_join dir ''adapter_config.json'')
      = Some (adapter_config args r (filter (\<lambda>m. \<exists>k\<in>dom (map_of saved). substring m k) standard_modules))"
    using rank out by (simp add: write_config_def or_default_def os_join_def)
  have disk: "pw_disk ?w' = d" by (simp add: write_config_def out Let_def)
  show ?thesis
  proof (intro exI conjI)
    show "port_lora env args w = (?w', Inr ())" by (rule port)
    show "load_weights (pw_disk ?w') out_path = Inr saved" unfolding disk by (rule s(2))
  qed (rule saved(2), rule config)
qed

text \<open>A sample port from a file of two tensors, one of a module that the alpha map takes out.\<close>

definition sample_env :: port_env where
  "sample_env =
     \<lparr>pe_config = (\<lambda>_. None), pe_snapshot = (\<lambda>_. Inl (PyExc OSErrorE ''offline'')), pe_pytest = False,
      pe_randn = (\<lambda>r c. mk r c (\<lambda>_ _. 0)), pe_now = ''2026'', pe_svd = sample_svd, pe_components = mk 0 0 (\<lambda>_ _. 0),
      pe_nbytes = (\<lambda>m. 4 * (mt_rows m * mt_cols m))\<rparr>"

definition sample_args :: port_args where
  "sample_args =
     \<lparr>pa_source = ''s.safetensors'', pa_source_base_model = Some ''llama'', pa_target = Some ''qwen'', pa_output = ''o'',
      pa_rank = Some 1, pa_alpha = Some 16, pa_include_modules = None,
      pa_module_alpha_map = Some ''q_proj=4,down_proj=0'', pa_allow_dummy_fallback = False, pa_delta_health = None,
      pa_projection_mode = None, pa_scaling_config = None, pa_piecewise_modules = None, pa_piecewise_layers = None,
      pa_piecewise_max_layers = None\<rparr>"

definition sample_world :: port_world where
  "sample_world =
     \<lparr>pw_disk = \<lparr>dk_files = [(''s.safetensors'', [(''q_proj.lora_B.weight'', mk 2 1 (\<lambda>_ _. 1)),
                                              (''down_proj.lora_B.weight'', mk 2 1 (\<lambda>_ _. 1))])], dk_dirs = []\<rparr>,
      pw_json = []\<rparr>"

lemma sample_alpha_map:
  "parse_alpha_map (Some ''q_proj=4,down_proj=0'') = [(ModuleKey ''q_proj'', 4), (ModuleKey ''down_proj'', 0)]"
  by code_simp

definition sample_port_adapter :: adapter where
  "sample_port_adapter =
     (case get_adapter ''llama'' ''qwen'' (default_info 4096 32 14336 8) (default_info 4096 32 14336 8)
             (port_options sample_args) of Inr ad \<Rightarrow> ad | Inl _ \<Rightarrow> undefined)"

lemma sample_port_adapter:
  "get_adapter ''llama'' ''qwen'' (default_info 4096 32 14336 8) (default_info 4096 32 14336 8) (port_options sample_args)
     = Inr sample_port_adapter"
  "ad_kind sample_port_adapter = Llama3ToQwen2Adapter"
  "ad_source_hidden sample_port_adapter = 4096" "ad_target_hidden sample_port_adapter = 4096"
  "ad_target_rank sample_port_adapter = 1"
  by (simp_all add: sample_port_adapter_def get_adapter_def init_adapter_def default_info_def llm_arches_def
      py_floordiv_def dict_get_def str_lower_def lower_char_def port_options_def sample_args_def or_default_def Let_def)

lemma port_lora_linear_witness:
  "\<exists>w' saved. port_lora sample_env sample_args sample_world = (w', Inr ())
     \<and> load_weights (pw_disk w') ''o/adapter_model.safetensors'' = Inr saved
     \<and> dom (map_of saved) = {''q_proj.lora_B.weight''}"
proof -
  let ?kq = "''q_proj.lora_B.weight''" let ?kd = "''down_proj.lora_B.weight''" let ?t = "mk 2 1 (\<lambda>_ _. 1)"
  let ?sd = "[(?kq, ?t), (?kd, ?t)]" let ?cfg = "port_cfg sample_args"
  let ?ws = "[(?kq, linear_ported ?cfg sample_port_adapter ?kq ?t)]"
  have cfg: "pc_alpha_map ?cfg = [(ModuleKey ''q_proj'', 4), (ModuleKey ''down_proj'', 0)]" "pc_include ?cfg = None"
    unfolding port_cfg_def by (simp_all add: sample_args_def sample_alpha_map)
  have inc: "should_include_key ?cfg ?kq" "\<not> should_include_key ?cfg ?kd"
    by (simp_all add: should_include_key_def module_of_def standard_modules_def cfg)
  have src: "resolve_source sample_env (pw_disk sample_world) (pa_source sample_args) = Inr ''s.safetensors''"
    by (simp add: resolve_source_def path_exists_def has_key_def sample_world_def sample_args_def)
  have arch: "name_arch ''llama'' = ''llama''" "name_arch ''qwen'' = ''qwen''"
      "heuristic_info ''llama'' = default_info 4096 32 14336 8" "heuristic_info ''qwen'' = default_info 4096 32 14336 8"
      "output_paths ''o'' = (''o'', ''o/adapter_model.safetensors'')"
    by (simp_all add: name_arch_def heuristic_info_def any_in_def str_lower_def lower_char_def output_paths_def
        ends_with_def os_join_def Let_def)
  have detect: "detect_architecture (pe_config sample_env) (pw_disk sample_world) (Some (source_base sample_args)) = Inr ''llama''"
      "detect_architecture (pe_config sample_env) (pw_disk sample_world) (pa_target sample_args) = Inr ''qwen''"
      "get_model_info (pe_config sample_env) (Some (source_base sample_args)) = Inr (default_info 4096 32 14336 8)"
      "get_model_info (pe_config sample_env) (pa_target sample_args) = Inr (default_info 4096 32 14336 8)"
    by (simp_all add: detect_architecture_def get_model_info_def sample_env_def source_base_def sample_args_def arch ends_with_def)
  have load: "load_weights (make_dir ''o'' (pw_disk sample_world)) ''s.safetensors'' = Inr ?sd"
    by (simp add: make_dir_def path_exists_def has_key_def sample_world_def load_weights_def load_path_def)
  have ws: "?ws = ported_layers ?cfg sample_port_adapter ?sd" by (simp add: ported_layers_def inc)
  have dims: "feature_dims sample_port_adapter ?kq = (4096, 4096)"
    by (simp add: feature_dims_def any_in_def sample_port_adapter)
  have "written_size (pe_nbytes sample_env) ?ws = 8"
    by (simp add: written_size_def sample_env_def linear_ported_def legacy_project_def dims project_dim_def sample_port_adapter Let_def)
  then have fits: "written_size (pe_nbytes sample_env) ?ws \<le> 2 * 1024 * 1024 * 1024" by simp
  have rest: "pa_projection_mode sample_args \<noteq> Some ''piecewise''"
      "pa_alpha sample_args \<noteq> Some 0 \<or> pa_module_alpha_map sample_args = None" "pa_rank sample_args = Some 1"
      "output_paths (pa_output sample_args) = (''o'', ''o/adapter_model.safetensors'')"
    by (simp_all add: sample_args_def arch)
  have some: "\<exists>m\<in>set standard_modules. \<exists>k\<in>fst ` set ?ws. substring m k" by (simp add: standard_modules_def)
  have wf: "dict_wf ?sd" and ne: "?ws \<noteq> []" by (simp_all add: dict_wf_def)
  from port_lora_linear[OF src detect sample_port_adapter(1,2) rest load wf ws ne fits some]
  obtain w' saved where w': "port_lora sample_env sample_args sample_world = (w', Inr ())"
      "load_weights (pw_disk w') ''o/adapter_model.safetensors'' = Inr saved"
      "\<forall>k. map_of saved k = (if should_include_key ?cfg k
          then map_option (linear_ported ?cfg sample_port_adapter k) (map_of ?sd k) else None)"
    by (elim exE conjE) (rule that)
  have "dom (map_of saved) = {?kq}" using w'(3) inc by (auto simp: dom_def split: if_splits)
  then show ?thesis using w'(1,2) by blast
qed

end
