(* ===== verification/Safe_Project.thy ===== *)
theory Safe_Project
  imports Port_Lora Diagnostic_Runner
begin

text \<open>
  The commands on top of the port: project-adapter (commands/project_adapter.py), the port command of
  cli/main.py, evaluate-projected (commands/evaluate_projected.py) and the orchestrator
  safe-project (commands/safe_project.py). The arguments are what argparse delivers. Loading models and the SQL-50 suite,
  which is not part of the repository, are parameters; console output is left out.
\<close>

section \<open>project-adapter\<close>

record project_args =
  ja_source :: "string option"
  ja_source_adapter :: "string option"
  ja_source_base_model :: "string option"
  ja_target :: "string option"
  ja_output :: string
  ja_rank :: nat
  ja_alpha :: int
  ja_include_modules :: "string option"
  ja_module_alpha_map :: "string option"
  ja_allow_dummy_fallback :: bool
  ja_delta_health :: "delta_health option"
  ja_projection_mode :: "string option"
  ja_piecewise_modules :: "string option"
  ja_piecewise_layers :: "string option"
  ja_piecewise_max_layers :: "int option"

definition str_truthy :: "string option \<Rightarrow> bool" where
  "str_truthy x = (case x of Some (c # cs) \<Rightarrow> True | _ \<Rightarrow> False)"

fun sequence :: "'a option list \<Rightarrow> 'a list option" where
  "sequence [] = Some []"
| "sequence (x # xs) = Option.bind x (\<lambda>a. map_option (Cons a) (sequence xs))"

text \<open>A list of integers, or the string itself when one of the parts is none.\<close>

definition parse_layers :: "string \<Rightarrow> layers_arg" where
  "parse_layers s =
     (case sequence (map py_int (map str_strip (split_on (CHR '','') s))) of
        Some ls \<Rightarrow> LayerList ls
      | None \<Rightarrow> LayerStr s)"

text \<open>The attributes \<open>port_lora\<close> reads; a mode of \<open>None\<close> is not piecewise, like the default.\<close>

definition to_port_args :: "project_args \<Rightarrow> string \<Rightarrow> layers_arg option \<Rightarrow> port_args" where
  "to_port_args args source layers =
     \<lparr>pa_source = source, pa_source_base_model = ja_source_base_model args, pa_target = ja_target args,
      pa_output = ja_output args, pa_rank = Some (ja_rank args), pa_alpha = Some (ja_alpha args),
      pa_include_modules = ja_include_modules args, pa_module_alpha_map = ja_module_alpha_map args,
      pa_allow_dummy_fallback = ja_allow_dummy_fallback args, pa_delta_health = ja_delta_health args,
      pa_projection_mode = ja_projection_mode args, pa_scaling_config = None,
      pa_piecewise_modules = ja_piecewise_modules args, pa_piecewise_layers = layers,
      pa_piecewise_max_layers = ja_piecewise_max_layers args\<rparr>"

definition start_port :: "port_env \<Rightarrow> project_args \<Rightarrow> string option \<Rightarrow> layers_arg option \<Rightarrow> (port_world, unit) act" where
  "start_port env args source layers w =
     (case source of
        None \<Rightarrow> (w, Inl (PyExc TypeErrorE ''stat: path should be string, bytes, os.PathLike or integer, not NoneType''))
      | Some s \<Rightarrow> port_lora env (to_port_args args s layers) w)"

definition run_project :: "port_env \<Rightarrow> project_args \<Rightarrow> (port_world, unit) act" where
  "run_project env args =
     start_port env args
       (if str_truthy (ja_source_adapter args) \<and> \<not> str_truthy (ja_source args) then ja_source_adapter args
        else ja_source args)
       (map_option parse_layers (ja_piecewise_layers args))"

text \<open>The port and project-adapter commands of cli/main.py: the alias wins, the layers stay a string, and
  the parser has no projection mode, dummy fallback or delta health.\<close>

definition main_port :: "port_env \<Rightarrow> project_args \<Rightarrow> (port_world, unit) act" where
  "main_port env args w =
     (if \<not> str_truthy (ja_source args) \<and> \<not> str_truthy (ja_source_adapter args)
      then (w, Inl (PyExc OtherExceptionE ''Either --source or --source-adapter must be provided for projection.''))
      else start_port env
             (args\<lparr>ja_projection_mode := None, ja_allow_dummy_fallback := False, ja_delta_health := None\<rparr>)
             (if str_truthy (ja_source_adapter args) then ja_source_adapter args else ja_source args)
             (map_option LayerStr (ja_piecewise_layers args)) w)"

section \<open>evaluate-projected\<close>

record evaluate_args =
  va_target_model :: string
  va_adapter :: "string option"
  va_benchmark :: string
  va_output :: "string option"
  va_dtype :: string
  va_merge_adapter :: bool

text \<open>The model and tokenizer with the adapter applied (and merged), and the suite of the benchmark module.\<close>

record 'r evaluate_env =
  ve_load :: "string \<Rightarrow> string option \<Rightarrow> bool \<Rightarrow> string \<Rightarrow> 'r eval_env result"
  ve_sql_50 :: "'r test_case list result"

record evaluation_file =
  ef_stats :: suite_stats
  ef_results :: "case_result list"
  ef_eval_dtype :: string
  ef_adapter_merge :: bool
  ef_target_model :: string
  ef_adapter :: "string option"

definition run_benchmark :: "'r::linorder evaluate_env \<Rightarrow> evaluate_args \<Rightarrow> suite_result result" where
  "run_benchmark env args =
     bindE (ve_load env (va_target_model args) (if str_truthy (va_adapter args) then va_adapter args else None)
              (va_merge_adapter args) (if va_dtype args = ''float16'' then ''float16'' else ''float32'')) (\<lambda>evaluator.
       if va_benchmark args = ''sql_50''
       then case ve_sql_50 env of
              Inl e \<Rightarrow> Inl (PyExc RuntimeErrorE (''Failed to load SQL-50 benchmark. Error: '' @ exc_msg e))
            | Inr suite \<Rightarrow> Inr (evaluate_suite evaluator suite)
       else Inl (PyExc ValueErrorE (''Unknown benchmark: '' @ va_benchmark args)))"

definition evaluation_of :: "evaluate_args \<Rightarrow> suite_result \<Rightarrow> evaluation_file" where
  "evaluation_of args res =
     \<lparr>ef_stats = sr_stats res, ef_results = sr_results res, ef_eval_dtype = va_dtype args,
      ef_adapter_merge = va_merge_adapter args, ef_target_model = va_target_model args, ef_adapter = va_adapter args\<rparr>"

text \<open>\<open>os.makedirs\<close> of the empty directory of a bare file name raises.\<close>

definition run_evaluate :: "'r::linorder evaluate_env \<Rightarrow> evaluate_args \<Rightarrow> ((string, evaluation_file) dict, unit) act" where
  "run_evaluate env args files =
     (case run_benchmark env args of
        Inl e \<Rightarrow> (files, Inl e)
      | Inr res \<Rightarrow>
          case va_output args of
            Some (c # cs) \<Rightarrow>
              if os_dirname (c # cs) = [] then (files, Inl (PyExc FileNotFoundErrorE ''No such file or directory: ''))
              else (dict_set (c # cs) (evaluation_of args res) files, Inr ())
          | _ \<Rightarrow> (files, Inr ()))"

section \<open>safe-project\<close>

record safe_args =
  sa_diagnose :: diagnose_args
  sa_output_dir :: string
  sa_rank :: nat
  sa_alpha :: int
  sa_projection_mode :: string
  sa_piecewise_modules :: "string option"
  sa_piecewise_layers :: "string option"
  sa_piecewise_max_layers :: "int option"

record 'r safe_env =
  se_diagnose :: "'r diagnose_env"
  se_port :: port_env
  se_evaluate :: "'r evaluate_env"

record safe_world =
  sw_port :: port_world
  sw_evaluations :: "(string, evaluation_file) dict"

definition effective_mode :: "string option \<Rightarrow> string \<Rightarrow> string option" where
  "effective_mode suggested mode =
     (if suggested \<noteq> Some ''linear'' \<and> mode = ''linear'' then suggested else Some mode)"

text \<open>The arguments handed to the projection: the target is passed as \<open>target_model\<close>, an attribute that
  \<open>port_lora\<close> does not read, so its \<open>target\<close> is \<open>None\<close>; the scaling configuration has another name, too.\<close>

definition safe_project_args :: "safe_args \<Rightarrow> diagnostic_report \<Rightarrow> project_args" where
  "safe_project_args args report =
     \<lparr>ja_source = None, ja_source_adapter = Some (da_source_adapter (sa_diagnose args)),
      ja_source_base_model = Some (da_source_base_model (sa_diagnose args)), ja_target = None,
      ja_output = os_join (sa_output_dir args) ''projected_adapter'', ja_rank = sa_rank args, ja_alpha = sa_alpha args,
      ja_include_modules = None, ja_module_alpha_map = None, ja_allow_dummy_fallback = False,
      ja_delta_health = Some (dr_delta_health_gate report),
      ja_projection_mode = effective_mode (rd_suggested_projection_mode (dr_release_decision_gate report)) (sa_projection_mode args),
      ja_piecewise_modules = sa_piecewise_modules args, ja_piecewise_layers = sa_piecewise_layers args,
      ja_piecewise_max_layers = sa_piecewise_max_layers args\<rparr>"

definition safe_evaluate_args :: "safe_args \<Rightarrow> evaluate_args" where
  "safe_evaluate_args args =
     \<lparr>va_target_model = da_target_model (sa_diagnose args),
      va_adapter = Some (os_join (sa_output_dir args) ''projected_adapter''),
      va_benchmark = da_benchmark (sa_diagnose args),
      va_output = Some (os_join (sa_output_dir args) ''target_eval_results.json''),
      va_dtype = ''float16'', va_merge_adapter = False\<rparr>"

definition passes_gate :: "safe_args \<Rightarrow> diagnostic_report \<Rightarrow> bool" where
  "passes_gate args report \<longleftrightarrow>
     rd_verdict (dr_release_decision_gate report) \<in> {''PROJECTION_CANDIDATE'', ''RELEASE_READY''}
     \<or> da_force (sa_diagnose args)"

definition run_safe_project :: "'r::linorder safe_env \<Rightarrow> safe_args \<Rightarrow> (safe_world, unit) act" where
  "run_safe_project env args w =
     (case execute_diagnostics (se_diagnose env) (sa_diagnose args) of
        Inl e \<Rightarrow> (w, Inl e)
      | Inr report \<Rightarrow>
          if \<not> passes_gate args report then (w, Inr ())
          else case run_project (se_port env) (safe_project_args args report) (sw_port w) of
                 (pw, Inl e) \<Rightarrow> (w\<lparr>sw_port := pw\<rparr>, Inl e)
               | (pw, Inr _) \<Rightarrow>
                   (case run_evaluate (se_evaluate env) (safe_evaluate_args args) (sw_evaluations w) of
                      (files, r) \<Rightarrow> (w\<lparr>sw_port := pw, sw_evaluations := files\<rparr>, r)))"

section \<open>What the commands do\<close>

text \<open>The two entry points resolve the two names of the source in opposite orders.\<close>

lemma alias_precedence:
  assumes "ja_source args = Some (a # as)" "ja_source_adapter args = Some (b # bs)"
  shows "run_project env args = start_port env args (Some (a # as)) (map_option parse_layers (ja_piecewise_layers args))"
    "main_port env args w = start_port env
       (args\<lparr>ja_projection_mode := None, ja_allow_dummy_fallback := False, ja_delta_health := None\<rparr>)
       (Some (b # bs)) (map_option LayerStr (ja_piecewise_layers args)) w"
  using assms by (simp_all add: run_project_def main_port_def str_truthy_def)

text \<open>A bare file name as output: the suite is evaluated, and then nothing is saved.\<close>

lemma os_dirname_bare: "CHR ''/'' \<notin> set p \<Longrightarrow> os_dirname p = []"
proof -
  assume p: "CHR ''/'' \<notin> set p"
  have "dropWhile (\<lambda>x. x \<noteq> CHR ''/'') (rev p) = []"
    using p unfolding dropWhile_eq_Nil_conv set_rev by blast
  then show ?thesis unfolding os_dirname_def Let_def by (simp only: rev.simps dropWhile.simps refl if_True)
qed

lemma bare_output_raises:
  assumes "run_benchmark env args = Inr res" "va_output args = Some (c # cs)" "CHR ''/'' \<notin> set (c # cs)"
  shows "\<exists>e. run_evaluate env args files = (files, Inl e)"
  using assms(1,2) os_dirname_bare[OF assms(3)] by (simp add: run_evaluate_def)

lemma detect_some: "\<exists>arch. detect_architecture load d (Some p) = Inr arch"
  by (simp add: detect_architecture_def split: option.split)

lemma port_without_target:
  assumes "pa_target args = None" "pe_config env None = None"
  shows "\<exists>e. port_lora env args w = (w, Inl e)"
proof (cases "resolve_source env (pw_disk w) (pa_source args)")
  case (Inl e)
  then show ?thesis by (simp add: port_lora_def bindS_def liftS_def)
next
  case (Inr path)
  obtain arch where "detect_architecture (pe_config env) (pw_disk w) (Some (source_base args)) = Inr arch"
    using detect_some by blast
  then show ?thesis
    using Inr assms by (simp add: port_lora_def bindS_def liftS_def detect_architecture_def[of _ _ None])
qed

text \<open>The orchestrator stops at its gate or fails: it returns normally exactly when the diagnosis
  succeeded with a verdict that forbids projection and was not forced; otherwise it raises, and in
  either case it changes no file, because the projection is handed the target under a name it does not
  read. The loader of configurations is assumed to find none under no name.\<close>

theorem safe_project_stops_at_gate:
  assumes "pe_config (se_port env) None = None"
  shows "fst (run_safe_project env args w) = w
    \<and> (snd (run_safe_project env args w) = Inr () \<longleftrightarrow>
        (\<exists>report. execute_diagnostics (se_diagnose env) (sa_diagnose args) = Inr report
           \<and> rd_verdict (dr_release_decision_gate report) \<notin> {''PROJECTION_CANDIDATE'', ''RELEASE_READY''}
           \<and> \<not> da_force (sa_diagnose args)))"
proof (cases "execute_diagnostics (se_diagnose env) (sa_diagnose args)")
  case (Inl e)
  then show ?thesis by (simp add: run_safe_project_def)
next
  case (Inr report)
  let ?p = "safe_project_args args report"
  have target: "pa_target (to_port_args ?p s ls) = None" for s ls by (simp add: to_port_args_def safe_project_args_def)
  have "\<exists>e. start_port (se_port env) ?p source layers (sw_port w) = (sw_port w, Inl e)" for source layers
    using port_without_target[OF target assms] by (simp add: start_port_def split: option.split)
  then obtain e where "run_project (se_port env) ?p (sw_port w) = (sw_port w, Inl e)"
    unfolding run_project_def by blast
  then show ?thesis using Inr by (simp add: run_safe_project_def passes_gate_def)
qed

text \<open>A run whose diagnosis recommends the projection: it raises all the same.\<close>

definition sample_safe_env :: "int safe_env" where
  "sample_safe_env =
     \<lparr>se_diagnose = sample_diagnose_env, se_port = sample_env,
      se_evaluate = \<lparr>ve_load = (\<lambda>_ _ _ _. Inr (sample_eval True)), ve_sql_50 = Inr sample_suite\<rparr>\<rparr>"

definition sample_safe_args :: safe_args where
  "sample_safe_args =
     \<lparr>sa_diagnose = sample_diagnose_args, sa_output_dir = ''runs'', sa_rank = 16, sa_alpha = 16,
      sa_projection_mode = ''linear'', sa_piecewise_modules = None, sa_piecewise_layers = None,
      sa_piecewise_max_layers = None\<rparr>"

lemma safe_project_stops_at_gate_witness:
  "pe_config (se_port sample_safe_env) None = None
     \<and> (\<forall>w. fst (run_safe_project sample_safe_env sample_safe_args w) = w
          \<and> snd (run_safe_project sample_safe_env sample_safe_args w) \<noteq> Inr ())"
proof -
  have c: "pe_config (se_port sample_safe_env) None = None" by (simp add: sample_safe_env_def sample_env_def)
  have d: "se_diagnose sample_safe_env = sample_diagnose_env" "sa_diagnose sample_safe_args = sample_diagnose_args"
    by (simp_all add: sample_safe_env_def sample_safe_args_def)
  show ?thesis
    using safe_project_stops_at_gate[OF c, of sample_safe_args] sample_candidate c unfolding d by auto
qed

end
