(* ===== verification/Reports.thy ===== *)
theory Reports
  imports Safe_Project Release_Package
begin

text \<open>
  The markdown report (commands/generate_report.py) and the model card (commands/generate_model_card.py)
  made from the files of a run: the diagnostic report and, where it exists, the evaluation file that
  evaluate-projected wrote. The formatting of numbers and of values that are not strings is a parameter
  (\<open>report_format\<close>); the timestamp and the license of the report, which no stage fills, are arguments.
\<close>

section \<open>Values of a run\<close>

record report_format =
  rf_percent :: "rat \<Rightarrow> string"
  rf_percent1 :: "rat \<Rightarrow> string"
  rf_signed :: "rat \<Rightarrow> string"
  rf_fixed4 :: "real \<Rightarrow> string"
  rf_str :: "json \<Rightarrow> string"
  rf_exists :: "string \<Rightarrow> bool"

definition show_json :: "report_format \<Rightarrow> json \<Rightarrow> string" where
  "show_json f j = (case j of JStr s \<Rightarrow> s | _ \<Rightarrow> rf_str f j)"

text \<open>\<open>v * 100\<close> under a numeric format.\<close>

definition percent_of :: "json \<Rightarrow> rat result" where
  "percent_of j =
     (case json_num j of
        Some r \<Rightarrow> Inr (100 * r)
      | None \<Rightarrow>
          Inl (case j of JStr _ \<Rightarrow> PyExc ValueErrorE ''Unknown format code f for object of type str''
                       | _ \<Rightarrow> PyExc TypeErrorE ''unsupported operand or format''))"

definition get_dict :: "(string, json) dict \<Rightarrow> string \<Rightarrow> (string, json) dict result" where
  "get_dict d k = as_dict (dict_get d k (JObj []))"

text \<open>The evaluation file as JSON.\<close>

definition category_json :: "category_stats \<Rightarrow> json" where
  "category_json c =
     JObj [(''total'', JInt (int (ct_total c))), (''pass'', JInt (int (ct_pass c))), (''correct'', JInt (int (ct_correct c)))]"

definition stats_json :: "suite_stats \<Rightarrow> json" where
  "stats_json s =
     JObj [(''total'', JInt (int (ss_total s))), (''syntax_valid'', JInt (int (ss_syntax_valid s))),
           (''execution_success'', JInt (int (ss_execution_success s))), (''exact_match'', JInt (int (ss_exact_match s))),
           (''categories'', JObj (map (\<lambda>(k, c). (k, category_json c)) (ss_categories s))),
           (''execution_success_rate'', JFloat (ss_execution_success_rate s)),
           (''execution_accuracy'', JFloat (ss_execution_accuracy s))]"

definition opt_bool :: "bool option \<Rightarrow> json" where
  "opt_bool b = (case b of None \<Rightarrow> JNull | Some v \<Rightarrow> JBool v)"

definition case_json :: "case_result \<Rightarrow> json" where
  "case_json c =
     JObj [(''id'', JStr (cr_id c)), (''category'', JStr (cr_category c)), (''prompt'', JStr (cr_prompt c)),
           (''generated'', JStr (cr_generated c)), (''syntax_valid'', JBool (cr_syntax_valid c)),
           (''schema_ok'', JBool (cr_schema_ok c)), (''execution_success'', opt_bool (cr_execution_success c)),
           (''is_correct'', JBool (cr_is_correct c)), (''error'', opt_str (cr_error c))]"

definition evaluation_json :: "evaluation_file \<Rightarrow> (string, json) dict" where
  "evaluation_json e =
     [(''stats'', stats_json (ef_stats e)), (''results'', JList (map case_json (ef_results e))),
      (''eval_metadata'',
         JObj [(''eval_dtype'', JStr (ef_eval_dtype e)), (''adapter_merge'', JBool (ef_adapter_merge e)),
               (''target_model'', JStr (ef_target_model e)), (''adapter'', opt_str (ef_adapter e))])]"

section \<open>Markdown report\<close>

definition code_span :: "string \<Rightarrow> string" where
  "code_span s = CHR 0x60 # s @ [CHR 0x60]"

definition config_lines :: "report_format \<Rightarrow> string \<Rightarrow> string \<Rightarrow> diagnostic_report \<Rightarrow> string list" where
  "config_lines f timestamp license r =
     (let d = dr_release_decision_gate r; m = dr_metadata_gate r
      in [''# Neural-Scalpel Diagnostic & Evaluation Report'',
          ''**Run ID:** '' @ code_span (dr_run_id r) @ ''  '',
          ''**Timestamp:** '' @ timestamp @ ''  '',
          ''**Final Verdict:** '' @ code_span (rd_verdict d),
          newline @ ''## 1. Executive Summary'', rd_recommendation d]
         @ map (\<lambda>reason. ''- '' @ reason) (rd_reasons d)
         @ [newline @ ''## 2. Transfer Configuration'', ''| Component | Entity |'', ''|---|---|'',
            ''| **Source Base** | '' @ code_span (dr_source_base_model r) @ '' |'',
            ''| **Source Adapter** | '' @ code_span (dr_source_adapter r) @ '' |'',
            ''| **Target Model** | '' @ code_span (dr_target_model r) @ '' |'',
            newline @ ''## 3. Diagnostic Gates (Stage 1-4)'', ''### Stage 1: Metadata Gate'',
            ''- **Status:** '' @ code_span (mg_status m),
            ''- **Adapter Type:** '' @ show_json f (mg_adapter_type m),
            ''- **License:** '' @ license])"

definition gate_lines :: "report_format \<Rightarrow> diagnostic_report \<Rightarrow> string list result" where
  "gate_lines f r =
     (let sq = dr_source_quality_gate r; dh = dr_delta_health_gate r; comp = dr_compatibility_gate r;
          feas = dr_feasibility_gate r
      in bindE (percent_of (dict_get sq ''accuracy_delta'' (JInt 0))) (\<lambda>gain. Inr
         [newline @ ''### Stage 2: Source Quality Gate'',
          ''- **Verdict:** '' @ code_span (show_json f (dict_get sq ''verdict'' (JStr ''N/A''))),
          ''- **Teacher Improvement:** '' @ rf_signed f gain @ ''%'',
          newline @ ''### Stage 3: Delta Health Gate'',
          ''- **Verdict:** '' @ code_span (dh_verdict dh),
          ''- **Global Frobenius Norm:** '' @ rf_fixed4 f (dh_global_frobenius_norm dh),
          newline @ ''### Stage 4: Compatibility & Feasibility'',
          ''- **Compatibility Score:** '' @ rf_percent1 f (100 * cg_compatibility_score comp) @ ''%'',
          ''- **Layer Mapping:** '' @ code_span (fg_layer_mapping_type feas),
          ''- **GQA Aware Required:** '' @ (if fg_gqa_aware_required feas then ''True'' else ''False'')]))"

definition metric_line ::
    "report_format \<Rightarrow> (string, json) dict \<Rightarrow> (string, json) dict \<Rightarrow> (string, json) dict \<Rightarrow> string \<Rightarrow> string result" where
  "metric_line f base_metrics adapter_metrics delta m =
     bindE (bindE (dict_item base_metrics m) percent_of) (\<lambda>b.
     bindE (bindE (dict_item adapter_metrics m) percent_of) (\<lambda>a.
     bindE (percent_of (dict_get delta m (JInt 0))) (\<lambda>d.
       Inr (''| '' @ m @ '' | '' @ rf_percent f b @ ''% | '' @ rf_percent f a @ ''% | '' @ rf_signed f d @ ''% |''))))"

definition evaluation_lines :: "report_format \<Rightarrow> (string, json) dict \<Rightarrow> string list result" where
  "evaluation_lines f eval_data =
     bindE (get_dict eval_data ''target_evaluation'') (\<lambda>te.
     bindE (get_dict te ''base_metrics'') (\<lambda>base_metrics.
     bindE (get_dict te ''adapter_metrics'') (\<lambda>adapter_metrics.
     bindE (get_dict te ''delta'') (\<lambda>delta.
     bindE (foldE (\<lambda>m ls. bindE (metric_line f base_metrics adapter_metrics delta m) (\<lambda>l. Inr (ls @ [l])))
              (dict_keys base_metrics) []) (\<lambda>rows.
     bindE (get_dict te ''failure_classification'') (\<lambda>fc.
     bindE (percent_of (dict_get te ''regression_rate'' (JInt 0))) (\<lambda>rate.
       let num = (\<lambda>k. show_json f (dict_get fc k (JInt 0)))
       in Inr ([newline @ ''## 4. Target Evaluation Results (Stage 5)'', ''### Performance Delta'',
                ''| Metric | Base | Adapter | Delta |'', ''|---|---|---|---|''] @ rows
             @ [newline @ ''### Behavioral Classification'',
                ''- **Fixed (Improved):** '' @ num ''fixed'', ''- **Regressed (Interference):** '' @ num ''regressed'',
                ''- **Both Succeeded:** '' @ num ''both_succeeded'', ''- **Both Failed:** '' @ num ''both_failed'',
                ''- **Regression Rate:** '' @ rf_percent f rate @ ''%'']))))))))"

definition generate_markdown_report ::
    "report_format \<Rightarrow> string \<Rightarrow> string \<Rightarrow> diagnostic_report \<Rightarrow> (string, json) dict option \<Rightarrow> string result" where
  "generate_markdown_report f timestamp license r eval_data =
     bindE (gate_lines f r) (\<lambda>gates.
     bindE (case eval_data of Some (p # ps) \<Rightarrow> evaluation_lines f (p # ps) | _ \<Rightarrow> Inr []) (\<lambda>evaluation.
       Inr (join newline (config_lines f timestamp license r @ gates @ evaluation
              @ [newline @ ''## 5. Required Artifacts'']
              @ map (\<lambda>art. ''- [ ] '' @ code_span art) (rd_required_artifacts (dr_release_decision_gate r))))))"

section \<open>Model card\<close>

definition metric_percent :: "(string, json) dict \<Rightarrow> string \<Rightarrow> rat result" where
  "metric_percent te k =
     bindE (get_dict te k) (\<lambda>d. percent_of (dict_get d ''execution_accuracy'' (JInt 0)))"

definition card_license :: "string \<Rightarrow> string" where
  "card_license license = (if license = [] \<or> str_upper license = ''UNKNOWN'' then ''other'' else license)"

definition source_link :: "report_format \<Rightarrow> string \<Rightarrow> string" where
  "source_link f name =
     (if substring ''/'' name \<and> \<not> rf_exists f name
      then ''['' @ name @ ''](https://huggingface.co/'' @ name @ '')''
      else code_span name)"

definition generate_model_card ::
    "report_format \<Rightarrow> string \<Rightarrow> diagnostic_report \<Rightarrow> (string, json) dict option \<Rightarrow> string result" where
  "generate_model_card f license r eval_data =
     bindE (case eval_data of Some (p # ps) \<Rightarrow> get_dict (p # ps) ''target_evaluation'' | _ \<Rightarrow> Inr []) (\<lambda>te.
     bindE (metric_percent te ''adapter_metrics'') (\<lambda>adapter_acc.
     bindE (metric_percent te ''delta'') (\<lambda>delta.
       let name = path_name (dr_source_adapter r) @ ''-projected''
       in Inr (join newline
         [''---'', ''license: '' @ str_lower (card_license license), ''base_model: '' @ dr_target_model r,
          ''library_name: peft'', ''pipeline_tag: text-generation'', ''tags:'', ''- neural-scalpel'',
          ''- adapter-transfer'', ''- lora'', ''---'',
          newline @ ''# '' @ name,
          ''This is a projected LoRA adapter transplanted from '' @ code_span (dr_source_base_model r) @ '' to ''
            @ code_span (dr_target_model r) @ '' using **Neural-Scalpel**.'',
          newline @ ''## Model Details'', ''- **Transfer Type:** Structural Projection'',
          ''- **Source Adapter:** '' @ source_link f (dr_source_adapter r),
          ''- **Target Architecture:** '' @ dr_target_model r,
          ''- **Diagnostic Verdict:** '' @ code_span (rd_verdict (dr_release_decision_gate r)),
          newline @ ''## Performance (Target Benchmarks)'',
          ''Evaluated using Neural-Scalpel v2.3 Target Evaluation Gate.'',
          ''- **Accuracy:** '' @ rf_percent f adapter_acc @ ''%'',
          ''- **Delta vs Base:** '' @ rf_signed f delta @ ''%'',
          newline @ ''## Usage'',
          ''You can load this adapter using standard '' @ code_span ''peft'' @ '' or the Neural-Scalpel CLI.'',
          fence @ ''python'', ''from peft import PeftModel'', ''from transformers import AutoModelForCausalLM'',
          newline @ ''base_model = AutoModelForCausalLM.from_pretrained('' @ quoted (dr_target_model r) @ '')'',
          ''model = PeftModel.from_pretrained(base_model, '' @ quoted (''your-username/'' @ name) @ '')'',
          fence,
          newline @ ''## Evaluation Methodology'',
          ''This adapter was validated using the Neural-Scalpel multi-stage diagnostic pipeline. For full details, see the accompanying ''
            @ code_span ''diagnostic_report.json'' @ ''.'',
          newline @ ''---'', ''*Developed with [Neural-Scalpel](https://github.com/ponpoke/Neural-Scalpel)*'']))))"

section \<open>The commands\<close>

text \<open>The files of a run directory: the diagnostic report and the evaluation.\<close>

definition run_generate ::
    "(diagnostic_report \<Rightarrow> (string, json) dict option \<Rightarrow> string result) \<Rightarrow> diagnostic_report option \<Rightarrow>
     (string, json) dict option \<Rightarrow> string result" where
  "run_generate generate report eval_data =
     (case report of
        None \<Rightarrow> Inl (PyExc FileNotFoundErrorE ''Diagnostic report not found'')
      | Some r \<Rightarrow> generate r eval_data)"

section \<open>What the documents say about the evaluation\<close>

lemma evaluation_has_no_target: "dict_get (evaluation_json e) ''target_evaluation'' v = v"
  by (simp add: evaluation_json_def dict_get_def)

lemma evaluation_nonempty: "\<exists>p ps. evaluation_json e = p # ps"
  by (simp add: evaluation_json_def)

text \<open>The source quality stage stores no \<open>accuracy_delta\<close>: the improvement of the teacher reads as zero.\<close>

lemma teacher_improvement_zero:
  "percent_of (dict_get (quality_dict q) ''accuracy_delta'' (JInt 0)) = Inr 0"
  by (simp add: quality_dict_def dict_get_def percent_of_def)

lemma zero_metric: "metric_percent [] k = Inr 0"
  by (simp add: metric_percent_def get_dict_def dict_get_def percent_of_def)

text \<open>The documents of a run do not depend on its evaluation: the model card made with the file that
  evaluate-projected writes is the one made without any, with an accuracy and a delta of zero, and the
  report shows the same fourth section for every evaluation, without metrics.\<close>

theorem documents_ignore_evaluation:
  "generate_model_card f license r (Some (evaluation_json (evaluation_of args res))) = generate_model_card f license r None
   \<and> generate_markdown_report f t license r (Some (evaluation_json (evaluation_of args res)))
       = generate_markdown_report f t license r (Some (evaluation_json (evaluation_of args' res')))"
proof -
  have target: "get_dict (evaluation_json e) ''target_evaluation'' = Inr []" for e
    by (simp add: get_dict_def evaluation_has_no_target)
  have "generate_model_card f license r (Some (evaluation_json e)) = generate_model_card f license r None" for e
    using evaluation_nonempty[of e] target[of e] unfolding generate_model_card_def by (auto simp: bindE.simps)
  moreover have "generate_markdown_report f t license r (Some (evaluation_json e))
      = generate_markdown_report f t license r (Some (evaluation_json e'))" for e e'
    using evaluation_nonempty[of e] evaluation_nonempty[of e'] target[of e] target[of e']
    unfolding generate_markdown_report_def evaluation_lines_def by auto
  ultimately show ?thesis by blast
qed

end
