(* ===== verification/Optimal_Transport.thy ===== *)
theory Optimal_Transport
  imports Tensors
begin

text \<open>
  Entropic optimal transport and the routing of attention heads (core/math.py): the log-domain Sinkhorn
  iteration and the Wasserstein discrete routing in its soft and hard modes. Arithmetic is exact over the
  reals, so underflow is outside the model; the heads are given flattened, one row for each.
\<close>

section \<open>Sinkhorn iteration\<close>

definition logsumexp :: "nat \<Rightarrow> (nat \<Rightarrow> real) \<Rightarrow> real" where
  "logsumexp n f = ln (\<Sum>k<n. exp (f k))"

definition row_update :: "mat \<Rightarrow> (nat \<Rightarrow> real) \<Rightarrow> nat \<Rightarrow> real" where
  "row_update K v i = - ln (real (mt_rows K)) - logsumexp (mt_cols K) (\<lambda>j. mt_at K i j + v j)"

definition col_update :: "mat \<Rightarrow> (nat \<Rightarrow> real) \<Rightarrow> nat \<Rightarrow> real" where
  "col_update K u j = - ln (real (mt_cols K)) - logsumexp (mt_rows K) (\<lambda>i. mt_at K i j + u i)"

definition log_plan :: "mat \<Rightarrow> (nat \<Rightarrow> real) \<Rightarrow> (nat \<Rightarrow> real) \<Rightarrow> nat \<Rightarrow> nat \<Rightarrow> real" where
  "log_plan K u v i j = u i + mt_at K i j + v j"

text \<open>The residuals of the marginals, below the threshold.\<close>

definition converged :: "mat \<Rightarrow> real \<Rightarrow> (nat \<Rightarrow> real) \<Rightarrow> (nat \<Rightarrow> real) \<Rightarrow> bool" where
  "converged K stop_thr u v \<longleftrightarrow>
     (\<forall>i\<in>{..<mt_rows K}. \<bar>logsumexp (mt_cols K) (log_plan K u v i) - (- ln (real (mt_rows K)))\<bar> < stop_thr)
     \<and> (\<forall>j\<in>{..<mt_cols K}. \<bar>logsumexp (mt_rows K) (\<lambda>i. log_plan K u v i j) - (- ln (real (mt_cols K)))\<bar> < stop_thr)"

fun sinkhorn_loop ::
    "mat \<Rightarrow> real \<Rightarrow> nat \<Rightarrow> nat \<Rightarrow> (nat \<Rightarrow> real) \<Rightarrow> (nat \<Rightarrow> real) \<Rightarrow> (nat \<Rightarrow> real) \<times> (nat \<Rightarrow> real)" where
  "sinkhorn_loop K stop_thr 0 i u v = (u, v)"
| "sinkhorn_loop K stop_thr (Suc k) i u v =
     (let u' = row_update K v; v' = col_update K u'
      in if i mod 10 = 0 \<and> converged K stop_thr u' v' then (u', v')
         else sinkhorn_loop K stop_thr k (i + 1) u' v')"

definition sinkhorn_knopp :: "mat \<Rightarrow> real \<Rightarrow> nat \<Rightarrow> real \<Rightarrow> mat result" where
  "sinkhorn_knopp C epsilon n_iter stop_thr =
     (if epsilon \<le> 0 then Inl (PyExc ValueErrorE ''epsilon must be positive.'')
      else if mt_rows C = 0 \<or> mt_cols C = 0 then Inl (PyExc ValueErrorE ''math domain error'')
      else let K = mk (mt_rows C) (mt_cols C) (\<lambda>i j. - mt_at C i j / epsilon);
               (u, v) = sinkhorn_loop K stop_thr n_iter 0 (\<lambda>_. 0) (\<lambda>_. 0)
           in Inr (mk (mt_rows C) (mt_cols C) (\<lambda>i j. exp (log_plan K u v i j))))"

section \<open>Routing of heads\<close>

text \<open>\<open>argmax\<close> and \<open>argmin\<close> take the first index.\<close>

fun argmax_below :: "nat \<Rightarrow> (nat \<Rightarrow> real) \<Rightarrow> nat" where
  "argmax_below 0 f = 0"
| "argmax_below (Suc n) f = (if n = 0 then 0 else let b = argmax_below n f in if f b < f n then n else b)"

definition argmin_below :: "nat \<Rightarrow> (nat \<Rightarrow> real) \<Rightarrow> nat" where
  "argmin_below n f = argmax_below n (\<lambda>k. - f k)"

definition max_entry :: "mat \<Rightarrow> real" where
  "max_entry C = foldr max (concat (map (\<lambda>i. map (mt_at C i) [0..<mt_cols C]) [0..<mt_rows C])) 0"

text \<open>Squared distances of the flattened heads, clamped at zero and normalised.\<close>

definition head_costs :: "mat \<Rightarrow> mat \<Rightarrow> mat" where
  "head_costs Hs Ht =
     (let C = mk (mt_rows Hs) (mt_rows Ht) (\<lambda>i j.
                max 0 ((\<Sum>k<mt_cols Hs. (mt_at Hs i k)\<^sup>2) + (\<Sum>k<mt_cols Ht. (mt_at Ht j k)\<^sup>2)
                       - 2 * (\<Sum>k<mt_cols Hs. mt_at Hs i k * mt_at Ht j k)))
      in mk (mt_rows C) (mt_cols C) (\<lambda>i j. mt_at C i j / (max_entry C + 1 / 10 ^ 12)))"

definition col_sum :: "mat \<Rightarrow> nat \<Rightarrow> real" where
  "col_sum P j = (\<Sum>i<mt_rows P. mt_at P i j)"

definition float32_tiny :: real where
  "float32_tiny = 1 / 2 ^ 126"

definition soft_routing :: "mat \<Rightarrow> real \<Rightarrow> mat \<Rightarrow> mat" where
  "soft_routing C epsilon P_soft =
     (if \<exists>j\<in>{..<mt_cols P_soft}. col_sum P_soft j \<le> float32_tiny
      then mk (mt_rows C) (mt_cols C) (\<lambda>i j.
             exp (- mt_at C i j / max epsilon (1 / 10 ^ 6)) / (\<Sum>l<mt_rows C. exp (- mt_at C l j / max epsilon (1 / 10 ^ 6))))
      else mk (mt_rows C) (mt_cols C) (\<lambda>i j. mt_at P_soft i j / max (col_sum P_soft j) float32_tiny))"

definition winner :: "mat \<Rightarrow> nat \<Rightarrow> nat" where
  "winner P j = argmax_below (mt_rows P) (\<lambda>i. mt_at P i j)"

text \<open>The winners, and the remnants merged into the column of least cost.\<close>

definition hard_plan :: "mat \<Rightarrow> mat \<Rightarrow> real \<Rightarrow> mat" where
  "hard_plan C P_soft alpha =
     mk (mt_rows C) (mt_cols C) (\<lambda>i j.
       if i \<in> winner P_soft ` {..<mt_cols C} then (if winner P_soft j = i then 1 else 0)
       else if 0 < alpha \<and> argmin_below (mt_cols C) (mt_at C i) = j then alpha else 0)"

definition hard_routing :: "mat \<Rightarrow> mat \<Rightarrow> real \<Rightarrow> mat" where
  "hard_routing C P_soft alpha =
     (let P = hard_plan C P_soft alpha
      in mk (mt_rows P) (mt_cols P) (\<lambda>i j. mt_at P i j / (col_sum P j + 1 / 10 ^ 12)))"

definition wasserstein_discrete_routing :: "mat \<Rightarrow> mat \<Rightarrow> real \<Rightarrow> real \<Rightarrow> string \<Rightarrow> mat result" where
  "wasserstein_discrete_routing Hs Ht epsilon alpha mode =
     (if mode \<notin> {''soft'', ''hard''} then Inl (PyExc ValueErrorE ''mode must be soft or hard'')
      else if mt_cols Hs \<noteq> mt_cols Ht \<or> mt_rows Hs = 0 \<or> mt_rows Ht = 0
      then Inl (PyExc RuntimeErrorE ''mat1 and mat2 shapes cannot be multiplied'')
      else let C = head_costs Hs Ht
           in bindE (sinkhorn_knopp C epsilon 100 (1 / 10 ^ 9)) (\<lambda>P_soft.
                Inr (if mode = ''soft'' then soft_routing C epsilon P_soft else hard_routing C P_soft alpha)))"

section \<open>Column marginals\<close>

lemma exp_sum_pos: "0 < (n::nat) \<Longrightarrow> 0 < (\<Sum>k<n. exp (f k :: real))"
  by (rule sum_pos) auto

lemma exp_logsumexp: "0 < n \<Longrightarrow> exp (logsumexp n f) = (\<Sum>k<n. exp (f k))"
  by (simp add: logsumexp_def exp_sum_pos)

text \<open>After an update of the column potentials every column has its marginal exactly.\<close>

lemma col_update_marginal:
  assumes "0 < mt_rows K" "0 < mt_cols K"
  shows "(\<Sum>i<mt_rows K. exp (log_plan K u (col_update K u) i j)) = 1 / real (mt_cols K)"
proof -
  have "exp (log_plan K u (col_update K u) i j)
      = exp (mt_at K i j + u i) * (1 / real (mt_cols K) / (\<Sum>l<mt_rows K. exp (mt_at K l j + u l)))" for i
  proof -
    have "exp (col_update K u j) = 1 / real (mt_cols K) / (\<Sum>l<mt_rows K. exp (mt_at K l j + u l))"
      using assms by (simp add: col_update_def exp_diff exp_minus exp_logsumexp field_simps)
    moreover have "log_plan K u (col_update K u) i j = (mt_at K i j + u i) + col_update K u j"
      by (simp add: log_plan_def)
    ultimately show ?thesis by (simp only: exp_add)
  qed
  then have "(\<Sum>i<mt_rows K. exp (log_plan K u (col_update K u) i j))
      = (\<Sum>i<mt_rows K. exp (mt_at K i j + u i)) * (1 / real (mt_cols K) / (\<Sum>l<mt_rows K. exp (mt_at K l j + u l)))"
    by (simp only: sum_distrib_right)
  then show ?thesis using exp_sum_pos[OF assms(1), of "\<lambda>i. mt_at K i j + u i"] by simp
qed

lemma sinkhorn_loop_col:
  "0 < k \<or> v = col_update K u \<Longrightarrow> \<exists>u' v'. sinkhorn_loop K thr k i u v = (u', v') \<and> v' = col_update K u'"
proof (induction k arbitrary: i u v)
  case (Suc k)
  show ?case
  proof (cases "i mod 10 = 0 \<and> converged K thr (row_update K v) (col_update K (row_update K v))")
    case True
    then show ?thesis by (simp add: Let_def)
  next
    case False
    have "\<exists>u' v'. sinkhorn_loop K thr k (i + 1) (row_update K v) (col_update K (row_update K v)) = (u', v') \<and> v' = col_update K u'"
      by (rule Suc.IH) simp
    moreover have "sinkhorn_loop K thr (Suc k) i u v
        = sinkhorn_loop K thr k (i + 1) (row_update K v) (col_update K (row_update K v))"
      using False unfolding sinkhorn_loop.simps Let_def by (rule if_not_P)
    ultimately show ?thesis by simp
  qed
qed simp

lemma sinkhorn_plan:
  assumes "0 < epsilon" "0 < mt_rows C" "0 < mt_cols C" "0 < n_iter"
  shows "\<exists>P. sinkhorn_knopp C epsilon n_iter thr = Inr P \<and> mt_rows P = mt_rows C \<and> mt_cols P = mt_cols C
    \<and> (\<forall>i<mt_rows C. \<forall>j<mt_cols C. 0 < mt_at P i j) \<and> (\<forall>j<mt_cols C. col_sum P j = 1 / real (mt_cols C))"
proof -
  let ?K = "mk (mt_rows C) (mt_cols C) (\<lambda>i j. - mt_at C i j / epsilon)"
  obtain u where u: "sinkhorn_loop ?K thr n_iter 0 (\<lambda>_. 0) (\<lambda>_. 0) = (u, col_update ?K u)"
    using sinkhorn_loop_col[of n_iter "\<lambda>_. 0" ?K "\<lambda>_. 0" thr 0] assms(4) by auto
  have "sinkhorn_knopp C epsilon n_iter thr
      = Inr (mk (mt_rows C) (mt_cols C) (\<lambda>i j. exp (log_plan ?K u (col_update ?K u) i j)))"
    using assms u by (simp add: sinkhorn_knopp_def Let_def)
  moreover have "(\<Sum>i<mt_rows C. exp (log_plan ?K u (col_update ?K u) i j)) = 1 / real (mt_cols C)" for j
    using col_update_marginal[of ?K u j] assms by simp
  ultimately show ?thesis by (simp add: col_sum_def)
qed

section \<open>What the routings promise\<close>

lemma argmax_below_less: "0 < n \<Longrightarrow> argmax_below n f < n"
  by (induction n) (auto simp: Let_def less_Suc_eq)

lemma argmax_below_max: "k < n \<Longrightarrow> f k \<le> f (argmax_below n f)"
proof (induction n)
  case (Suc n)
  then show ?case by (cases "k = n") (auto simp: Let_def less_Suc_eq)
qed simp

lemma hard_plan_col:
  assumes "0 < mt_rows C" "mt_rows P = mt_rows C" "j < mt_cols C"
  shows "winner P j < mt_rows C" "mt_at (hard_plan C P alpha) (winner P j) j = 1"
    "0 \<le> mt_at (hard_plan C P alpha) i j" "1 \<le> col_sum (hard_plan C P alpha) j"
proof -
  show w: "winner P j < mt_rows C" using assms(1,2) argmax_below_less by (simp add: winner_def)
  then show one: "mt_at (hard_plan C P alpha) (winner P j) j = 1" using assms(3) by (simp add: hard_plan_def)
  show nonneg: "0 \<le> mt_at (hard_plan C P alpha) i j" for i by (simp add: hard_plan_def)
  have "mt_at (hard_plan C P alpha) (winner P j) j \<le> (\<Sum>i<mt_rows C. mt_at (hard_plan C P alpha) i j)"
    using w nonneg by (intro member_le_sum) auto
  then show "1 \<le> col_sum (hard_plan C P alpha) j" using one by (simp add: col_sum_def hard_plan_def)
qed

lemma soft_routing_ok:
  assumes "mt_rows S = mt_rows C" "mt_cols S = mt_cols C" "j < mt_cols C" "mt_cols C < 2 ^ 126"
    and "\<forall>j<mt_cols C. col_sum S j = 1 / real (mt_cols C)" "\<forall>i<mt_rows C. \<forall>j<mt_cols C. 0 < mt_at S i j"
  shows "col_sum (soft_routing C epsilon S) j = 1" "i < mt_rows C \<Longrightarrow> 0 < mt_at (soft_routing C epsilon S) i j"
proof -
  have "real (mt_cols C) < 2 ^ 126" using assms(4) by (metis of_nat_less_iff of_nat_numeral of_nat_power)
  then have tiny: "float32_tiny < 1 / real (mt_cols C)"
    using assms(3) unfolding float32_tiny_def by (intro divide_strict_left_mono) auto
  then have soft: "soft_routing C epsilon S = mk (mt_rows C) (mt_cols C) (\<lambda>i j. mt_at S i j / max (col_sum S j) float32_tiny)"
    using assms(2,5) unfolding soft_routing_def by (intro if_not_P) force
  have entry: "mt_at (soft_routing C epsilon S) i j = mt_at S i j * real (mt_cols C)" if "i < mt_rows C" for i
    unfolding soft using that assms(3,5) tiny by (simp add: max_absorb1)
  show "i < mt_rows C \<Longrightarrow> 0 < mt_at (soft_routing C epsilon S) i j" using entry assms(3,6) by simp
  have "mt_rows (soft_routing C epsilon S) = mt_rows C" by (simp add: soft)
  then have "col_sum (soft_routing C epsilon S) j = col_sum S j * real (mt_cols C)"
    using entry assms(1) by (simp add: col_sum_def sum_distrib_right)
  then show "col_sum (soft_routing C epsilon S) j = 1" using assms(3,5) by simp
qed

lemma hard_routing_ok:
  assumes "0 < mt_rows C" "mt_rows P = mt_rows C" "j < mt_cols C"
  shows "1 - 1 / 10 ^ 12 \<le> col_sum (hard_routing C P alpha) j" "col_sum (hard_routing C P alpha) j < 1"
    "0 \<le> mt_at (hard_routing C P alpha) i j"
    "0 < mt_at (hard_plan C P alpha) i j \<Longrightarrow> 0 < mt_at (hard_routing C P alpha) i j"
proof -
  define e c where "e = (1 / 10 ^ 12 :: real)" and "c = col_sum (hard_plan C P alpha) j"
  have shape: "mt_rows (hard_plan C P alpha) = mt_rows C" "mt_cols (hard_plan C P alpha) = mt_cols C"
    by (simp_all add: hard_plan_def)
  have e: "0 < e" and c: "1 \<le> c" using hard_plan_col(4)[OF assms] by (simp_all add: e_def c_def)
  have zero: "mt_at (hard_plan C P alpha) i j = 0" if "\<not> i < mt_rows C" for i using that by (simp add: hard_plan_def)
  have entry: "mt_at (hard_routing C P alpha) i j = mt_at (hard_plan C P alpha) i j / (c + e)" for i
    using assms(3) zero[of i] by (simp add: hard_routing_def Let_def shape e_def c_def)
  have "col_sum (hard_routing C P alpha) j = c / (c + e)"
    using entry by (simp add: col_sum_def[of "hard_routing C P alpha"] c_def col_sum_def[of "hard_plan C P alpha"]
        hard_routing_def[of C P alpha, THEN arg_cong, of mt_rows] shape Let_def sum_divide_distrib)
  moreover have "1 - e \<le> c / (c + e)"
  proof -
    have "(1 - e) * (c + e) = c - e * (c - 1) - e * e" by (simp add: algebra_simps)
    also have "\<dots> \<le> c"
    proof -
      have "0 \<le> e * (c - 1)" "0 \<le> e * e" using e c by simp_all
      then show ?thesis by linarith
    qed
    finally show ?thesis using e c by (simp add: pos_le_divide_eq)
  qed
  moreover have "c / (c + e) < 1" using e c by simp
  ultimately show "1 - 1 / 10 ^ 12 \<le> col_sum (hard_routing C P alpha) j" "col_sum (hard_routing C P alpha) j < 1"
    by (simp_all add: e_def)
  show "0 \<le> mt_at (hard_routing C P alpha) i j"
    unfolding entry using hard_plan_col(3)[OF assms] e c by simp
  show "0 < mt_at (hard_plan C P alpha) i j \<Longrightarrow> 0 < mt_at (hard_routing C P alpha) i j"
    unfolding entry using e c by simp
qed

text \<open>Every source head wins a column or is merged into one.\<close>

lemma hard_plan_row:
  assumes "i < mt_rows C" "0 < mt_cols C" "0 < alpha"
  shows "\<exists>j<mt_cols C. 0 < mt_at (hard_plan C P alpha) i j"
proof (cases "i \<in> winner P ` {..<mt_cols C}")
  case True
  then show ?thesis using assms(1) by (auto simp: hard_plan_def)
next
  case False
  have "argmin_below (mt_cols C) (mt_at C i) < mt_cols C"
    using assms(2) argmax_below_less by (simp add: argmin_below_def)
  then show ?thesis using False assms
    by (intro exI[of _ "argmin_below (mt_cols C) (mt_at C i)"]) (simp add: hard_plan_def)
qed



end
