(* ===== verification/Procrustes.thy ===== *)
theory Procrustes
  imports Tensors
begin

text \<open>
  The orthogonal Procrustes alignment of core/math.py: head by head, per expert, and with the
  dampening for quantized targets. Activations are matrices of exact reals; the singular
  value decomposition is a parameter. The main result is that the alignment of every head is the best one
  among all scaled orthogonal maps.
\<close>

section \<open>Alignment of the heads\<close>

definition mat_t :: "mat \<Rightarrow> mat" where
  "mat_t m = mk (mt_cols m) (mt_rows m) (\<lambda>i j. mt_at m j i)"

text \<open>\<open>view(N, num_heads, head_dim)[:, i, :]\<close>, and the sum of the squared entries.\<close>

definition head_block :: "nat \<Rightarrow> nat \<Rightarrow> mat \<Rightarrow> mat" where
  "head_block hdim i A = mk (mt_rows A) hdim (\<lambda>r c. mt_at A r (i * hdim + c))"

definition sq_sum :: "mat \<Rightarrow> real" where
  "sq_sum A = (\<Sum>i<mt_rows A. \<Sum>j<mt_cols A. (mt_at A i j)\<^sup>2)"

definition align_head :: "svd \<Rightarrow> mat \<Rightarrow> mat \<Rightarrow> mat \<times> real" where
  "align_head svd A_i B_i =
     (let (U, S, Vh) = svd (mat_mul (mat_t A_i) B_i)
      in (mat_mul U Vh, sum_list S / max (sq_sum A_i) (1 / 10 ^ 12)))"

text \<open>\<open>einsum('nhi,hij->nhj')\<close> and the scaling, back in one matrix.\<close>

definition apply_heads :: "nat \<Rightarrow> mat \<Rightarrow> mat list \<Rightarrow> real list \<Rightarrow> mat" where
  "apply_heads hdim A Rs ss =
     mk (mt_rows A) (mt_cols A)
       (\<lambda>r c. mt_at (mat_mul (head_block hdim (c div hdim) A) (Rs ! (c div hdim))) r (c mod hdim) * ss ! (c div hdim))"

definition bias_heads :: "nat \<Rightarrow> real list \<Rightarrow> mat list \<Rightarrow> real list \<Rightarrow> real list" where
  "bias_heads hdim bias Rs ss =
     map (\<lambda>c. (\<Sum>i<hdim. bias ! (c div hdim * hdim + i) * mt_at (Rs ! (c div hdim)) i (c mod hdim)) * ss ! (c div hdim)) [0..<length bias]"

definition head_wise_orthogonal_procrustes ::
    "svd \<Rightarrow> mat \<Rightarrow> mat \<Rightarrow> nat \<Rightarrow> real list option \<Rightarrow> (mat \<times> real list option \<times> mat list \<times> real list) result" where
  "head_wise_orthogonal_procrustes svd A B num_heads bias_A =
     (if (mt_rows A, mt_cols A) \<noteq> (mt_rows B, mt_cols B)
      then Inl (PyExc ValueErrorE ''Shape mismatch: A and B must have the same shape.'')
      else if num_heads = 0 then Inl (PyExc ZeroDivisionErrorE ''integer division or modulo by zero'')
      else if mt_cols A mod num_heads \<noteq> 0
      then Inl (PyExc ValueErrorE ''Dimension d must be divisible by num_heads.'')
      else let hdim = mt_cols A div num_heads;
               heads = map (\<lambda>i. align_head svd (head_block hdim i A) (head_block hdim i B)) [0..<num_heads];
               Rs = map fst heads; ss = map snd heads;
               A_transformed = apply_heads hdim A Rs ss
           in case bias_A of
                None \<Rightarrow> Inr (A_transformed, None, Rs, ss)
              | Some bias \<Rightarrow>
                  if length bias \<noteq> mt_cols A
                  then Inl (PyExc ValueErrorE ''Bias dimension does not match d'')
                  else Inr (A_transformed, Some (bias_heads hdim bias Rs ss), Rs, ss))"

definition quantization_aware_procrustes ::
    "svd \<Rightarrow> mat \<Rightarrow> mat \<Rightarrow> nat \<Rightarrow> nat \<Rightarrow> (mat \<times> mat list \<times> real list) result" where
  "quantization_aware_procrustes svd A B num_heads quantization_bits =
     bindE (head_wise_orthogonal_procrustes svd A B num_heads None) (\<lambda>(A_transformed, _, Rs, ss).
       let dampening_factor = 1 - 1 / 2 ^ quantization_bits
       in Inr (mat_scale dampening_factor A_transformed, Rs, map (\<lambda>s. s * dampening_factor) ss))"

fun expert_pairs :: "svd \<Rightarrow> (mat \<times> mat) list \<Rightarrow> (mat list \<times> mat list list \<times> real list list) result" where
  "expert_pairs svd [] = Inr ([], [], [])"
| "expert_pairs svd ((A, B) # ps) =
     bindE (head_wise_orthogonal_procrustes svd A B 1 None) (\<lambda>(A_trans, _, R, s).
     bindE (expert_pairs svd ps) (\<lambda>(ts, Rs, ss). Inr (A_trans # ts, R # Rs, s # ss)))"

definition expert_wise_procrustes :: "svd \<Rightarrow> mat list \<Rightarrow> mat list \<Rightarrow> (mat list \<times> mat list list \<times> real list list) result" where
  "expert_wise_procrustes svd A_experts B_experts =
     (if length A_experts \<noteq> length B_experts
      then Inl (PyExc ValueErrorE ''Number of source and target experts must match.'')
      else expert_pairs svd (zip A_experts B_experts))"

section \<open>Orthogonal maps\<close>

definition orthogonal :: "nat \<Rightarrow> mat \<Rightarrow> bool" where
  "orthogonal n R \<longleftrightarrow> mat_wf R \<and> mt_rows R = n \<and> mt_cols R = n
     \<and> (\<forall>i<n. \<forall>j<n. (\<Sum>k<n. mt_at R i k * mt_at R j k) = (if i = j then 1 else 0))
     \<and> (\<forall>i<n. \<forall>j<n. (\<Sum>k<n. mt_at R k i * mt_at R k j) = (if i = j then 1 else 0))"

text \<open>What a decomposition of a square matrix promises.\<close>

definition svd_square :: "mat \<Rightarrow> mat \<times> real list \<times> mat \<Rightarrow> bool" where
  "svd_square W usv \<longleftrightarrow> svd_of W usv
     \<and> (case usv of (U, S, Vh) \<Rightarrow> length S = mt_rows W \<and> orthogonal (mt_rows W) U \<and> orthogonal (mt_rows W) Vh)"

lemma orthogonal_rows: "orthogonal n R \<Longrightarrow> i < n \<Longrightarrow> (\<Sum>k<n. (mt_at R i k)\<^sup>2) = 1"
  by (simp add: orthogonal_def power2_eq_square)

lemma orthogonal_cols: "orthogonal n R \<Longrightarrow> i < n \<Longrightarrow> (\<Sum>k<n. (mt_at R k i)\<^sup>2) = 1"
  by (simp add: orthogonal_def power2_eq_square)

text \<open>Multiplying a row or a column with an orthogonal map keeps its length.\<close>

lemma sum_delta_prod:
  fixes n m :: nat
  assumes "\<And>k l. k < n \<Longrightarrow> l < n \<Longrightarrow> (\<Sum>j<m. (g k j * g l j :: real)) = (if k = l then 1 else 0)"
  shows "(\<Sum>j<m. (\<Sum>k<n. x k * g k j) * (\<Sum>k<n. y k * g k j)) = (\<Sum>k<n. x k * y k)"
proof -
  have "(\<Sum>j<m. (\<Sum>k<n. x k * g k j) * (\<Sum>k<n. y k * g k j))
      = (\<Sum>j<m. \<Sum>k<n. \<Sum>l<n. x k * y l * (g k j * g l j))"
    unfolding sum_product by (simp add: mult_ac)
  also have "\<dots> = (\<Sum>k<n. \<Sum>l<n. x k * y l * (\<Sum>j<m. g k j * g l j))"
    by (subst sum.swap) (simp add: sum.swap[of _ "{..<m}"] sum_distrib_left)
  also have "\<dots> = (\<Sum>k<n. \<Sum>l<n. if k = l then x k * y k else 0)"
    by (intro sum.cong refl) (simp add: assms)
  also have "\<dots> = (\<Sum>k<n. x k * y k)" by (rule sum.cong) (auto simp: sum.delta')
  finally show ?thesis .
qed

lemmas sum_delta_sq = sum_delta_prod[where x = x and y = x for x, folded power2_eq_square]

lemma orthogonal_keeps_rows:
  "orthogonal n R \<Longrightarrow> (\<Sum>j<n. (\<Sum>k<n. x k * mt_at R k j)\<^sup>2) = (\<Sum>k<n. (x k)\<^sup>2)"
  by (rule sum_delta_sq) (simp add: orthogonal_def)

lemma orthogonal_keeps_cols:
  "orthogonal n R \<Longrightarrow> (\<Sum>j<n. (\<Sum>k<n. x k * mt_at R j k)\<^sup>2) = (\<Sum>k<n. (x k)\<^sup>2)"
  by (rule sum_delta_sq) (simp add: orthogonal_def)

text \<open>Unit vectors have a product of at most one.\<close>

lemma unit_product_bound:
  assumes "(\<Sum>k<n. (u k)\<^sup>2) = (1::real)" "(\<Sum>k<n. (w k)\<^sup>2) = 1"
  shows "\<bar>\<Sum>k<n. u k * w k\<bar> \<le> 1"
proof -
  have "0 \<le> (\<Sum>k<n. (u k - w k)\<^sup>2)" "0 \<le> (\<Sum>k<n. (u k + w k)\<^sup>2)" by (simp_all add: sum_nonneg)
  moreover have "(\<Sum>k<n. (u k - w k)\<^sup>2) = 2 - 2 * (\<Sum>k<n. u k * w k)"
    using assms by (simp add: power2_diff sum.distrib sum_subtractf sum_distrib_left mult.assoc)
  moreover have "(\<Sum>k<n. (u k + w k)\<^sup>2) = 2 + 2 * (\<Sum>k<n. u k * w k)"
    using assms by (simp add: power2_sum sum.distrib sum_distrib_left mult.assoc)
  ultimately show ?thesis by linarith
qed

section \<open>The best rotation and scale\<close>

definition inner :: "mat \<Rightarrow> mat \<Rightarrow> real" where
  "inner A B = (\<Sum>i<mt_rows A. \<Sum>j<mt_cols A. mt_at A i j * mt_at B i j)"

definition sq_dist :: "mat \<Rightarrow> mat \<Rightarrow> real" where
  "sq_dist A B = (\<Sum>i<mt_rows A. \<Sum>j<mt_cols A. (mt_at A i j - mt_at B i j)\<^sup>2)"

lemma delta_product: "(\<Sum>k<n. f k * (if k = j then 1 else 0)) = (if j < n then f j else 0)" for f :: "nat \<Rightarrow> real" and n :: nat
proof -
  have "(\<Sum>k<n. f k * (if k = j then 1 else 0)) = (\<Sum>k<n. if k = j then f k else 0)" by (rule sum.cong) simp_all
  then show ?thesis by simp
qed

lemma sq_dist_expand:
  assumes "mt_rows B = mt_rows A" "mt_cols B = mt_cols A"
  shows "sq_dist (mat_scale s A) B = s\<^sup>2 * sq_sum A - 2 * s * inner A B + sq_sum B"
proof -
  have "(mt_at (mat_scale s A) i j - mt_at B i j)\<^sup>2
      = s\<^sup>2 * (mt_at A i j)\<^sup>2 - 2 * s * (mt_at A i j * mt_at B i j) + (mt_at B i j)\<^sup>2"
    if "i < mt_rows A" "j < mt_cols A" for i j
    using that by (simp add: mat_scale_def power2_diff power_mult_distrib mult_ac)
  then show ?thesis
    using assms by (simp add: sq_dist_def sq_sum_def inner_def sum.distrib sum_subtractf sum_distrib_left mult.assoc)
qed

text \<open>A rotation keeps the size of the activations, and its product with the target is one with the
  cross-covariance.\<close>

lemma rotated_size:
  assumes "orthogonal n R" "mt_cols A = n"
  shows "sq_sum (mat_mul A R) = sq_sum A"
  using assms orthogonal_keeps_rows[OF assms(1)] by (simp add: sq_sum_def mat_mul_def orthogonal_def)

lemma inner_rotated:
  assumes "mt_cols A = n" "mt_cols R = n" "mt_cols B = n" "mt_rows B = mt_rows A"
  shows "inner (mat_mul A R) B = (\<Sum>i<n. \<Sum>j<n. mt_at R i j * mt_at (mat_mul (mat_t A) B) i j)"
proof -
  have "inner (mat_mul A R) B = (\<Sum>r<mt_rows A. \<Sum>j<n. \<Sum>i<n. mt_at R i j * (mt_at A r i * mt_at B r j))"
    using assms by (simp add: inner_def mat_mul_def sum_distrib_left sum_distrib_right mult_ac)
  also have "\<dots> = (\<Sum>j<n. \<Sum>i<n. \<Sum>r<mt_rows A. mt_at R i j * (mt_at A r i * mt_at B r j))"
    by (subst sum.swap) (simp add: sum.swap[of _ _ "{..<mt_rows A}"])
  also have "\<dots> = (\<Sum>i<n. \<Sum>j<n. mt_at R i j * (\<Sum>r<mt_rows A. mt_at A r i * mt_at B r j))"
    by (subst sum.swap) (simp add: sum_distrib_left)
  finally show ?thesis using assms by (simp add: mat_mul_def mat_t_def)
qed

text \<open>The trace of an orthogonal map with a matrix is at most the sum of its singular values, and
  \<open>U Vh\<close> reaches it.\<close>

lemma trace_decomposed:
  assumes "svd_square M (U, S, Vh)" "mt_rows M = n" "mt_cols M = n"
  shows "(\<Sum>i<n. \<Sum>j<n. mt_at R i j * mt_at M i j)
    = (\<Sum>k<n. S ! k * (\<Sum>i<n. mt_at U i k * (\<Sum>j<n. mt_at Vh k j * mt_at R i j)))"
proof -
  have M: "mt_at M i j = (\<Sum>k<n. mt_at U i k * S ! k * mt_at Vh k j)" if "i < n" "j < n" for i j
    using assms that by (simp add: svd_square_def svd_of_def)
  have "(\<Sum>i<n. \<Sum>j<n. mt_at R i j * mt_at M i j)
      = (\<Sum>i<n. \<Sum>j<n. \<Sum>k<n. S ! k * (mt_at U i k * (mt_at Vh k j * mt_at R i j)))"
    by (intro sum.cong refl) (simp add: M sum_distrib_left mult_ac)
  also have "\<dots> = (\<Sum>i<n. \<Sum>k<n. \<Sum>j<n. S ! k * (mt_at U i k * (mt_at Vh k j * mt_at R i j)))"
    by (intro sum.cong refl sum.swap)
  also have "\<dots> = (\<Sum>k<n. \<Sum>i<n. \<Sum>j<n. S ! k * (mt_at U i k * (mt_at Vh k j * mt_at R i j)))"
    by (rule sum.swap)
  finally show ?thesis by (simp add: sum_distrib_left)
qed

lemma trace_bound:
  assumes svd: "svd_square M (U, S, Vh)" "mt_rows M = n" "mt_cols M = n" and R: "orthogonal n R"
  shows "\<bar>\<Sum>i<n. \<Sum>j<n. mt_at R i j * mt_at M i j\<bar> \<le> sum_list S"
proof -
  have o: "orthogonal n U" "orthogonal n Vh" "length S = n" "\<forall>s\<in>set S. 0 \<le> s"
    using svd by (auto simp: svd_square_def svd_of_def)
  let ?z = "\<lambda>k. \<Sum>i<n. mt_at U i k * (\<Sum>j<n. mt_at Vh k j * mt_at R i j)"
  have z: "\<bar>?z k\<bar> \<le> 1" if "k < n" for k
  proof (rule unit_product_bound)
    show "(\<Sum>i<n. (mt_at U i k)\<^sup>2) = 1" by (rule orthogonal_cols[OF o(1) that])
    show "(\<Sum>i<n. (\<Sum>j<n. mt_at Vh k j * mt_at R i j)\<^sup>2) = 1"
      unfolding orthogonal_keeps_cols[OF R] by (rule orthogonal_rows[OF o(2) that])
  qed
  have "\<bar>\<Sum>k<n. S ! k * ?z k\<bar> \<le> (\<Sum>k<n. \<bar>S ! k * ?z k\<bar>)" by (rule sum_abs)
  also have "\<dots> \<le> (\<Sum>k<n. S ! k)"
  proof (rule sum_mono)
    fix k assume "k \<in> {..<n}"
    then have "\<bar>?z k\<bar> \<le> 1" "0 \<le> S ! k" using z o(3,4) by auto
    then show "\<bar>S ! k * ?z k\<bar> \<le> S ! k" by (simp add: abs_mult mult_left_le)
  qed
  also have "\<dots> = sum_list S" using o(3) by (simp add: sum_list_sum_nth atLeast0LessThan)
  finally show ?thesis unfolding trace_decomposed[OF svd] .
qed

lemma trace_reached:
  assumes svd: "svd_square M (U, S, Vh)" "mt_rows M = n" "mt_cols M = n"
  shows "(\<Sum>i<n. \<Sum>j<n. mt_at (mat_mul U Vh) i j * mt_at M i j) = sum_list S"
proof -
  have o: "orthogonal n U" "orthogonal n Vh" "length S = n" using svd by (auto simp: svd_square_def)
  have z: "(\<Sum>i<n. mt_at U i k * (\<Sum>j<n. mt_at Vh k j * mt_at (mat_mul U Vh) i j)) = 1" if k: "k < n" for k
  proof -
    have "(\<Sum>j<n. mt_at Vh k j * mt_at (mat_mul U Vh) i j) = mt_at U i k" if "i < n" for i
    proof -
      have "(\<Sum>j<n. mt_at Vh k j * mt_at (mat_mul U Vh) i j)
          = (\<Sum>j<n. \<Sum>l<n. mt_at U i l * (mt_at Vh k j * mt_at Vh l j))"
        using o that by (simp add: mat_mul_def orthogonal_def sum_distrib_left mult_ac)
      also have "\<dots> = (\<Sum>l<n. mt_at U i l * (\<Sum>j<n. mt_at Vh k j * mt_at Vh l j))"
        by (subst sum.swap) (simp add: sum_distrib_left)
      also have "\<dots> = (\<Sum>l<n. if k = l then mt_at U i l else 0)"
        using o(2) k by (intro sum.cong refl) (simp add: orthogonal_def)
      also have "\<dots> = mt_at U i k" using k by (simp add: sum.delta')
      finally show ?thesis .
    qed
    then show ?thesis using orthogonal_cols[OF o(1) k] by (simp add: power2_eq_square)
  qed
  show ?thesis unfolding trace_decomposed[OF svd] using o(3)
    by (simp add: z sum_list_sum_nth atLeast0LessThan)
qed

lemma orthogonal_mul:
  assumes "orthogonal n U" "orthogonal n V"
  shows "orthogonal n (mat_mul U V)"
proof -
  have "(\<Sum>k<n. mt_at (mat_mul U V) i k * mt_at (mat_mul U V) j k) = (\<Sum>l<n. mt_at U i l * mt_at U j l)"
    if "i < n" "j < n" for i j
    using that assms sum_delta_prod[where n = n and m = n and g = "\<lambda>l k. mt_at V l k" and x = "mt_at U i" and y = "mt_at U j"]
    by (simp add: mat_mul_def orthogonal_def)
  moreover have "(\<Sum>k<n. mt_at (mat_mul U V) k i * mt_at (mat_mul U V) k j) = (\<Sum>l<n. mt_at V l i * mt_at V l j)"
    if "i < n" "j < n" for i j
    using that assms sum_delta_prod[where n = n and m = n and g = "\<lambda>l k. mt_at U k l" and x = "\<lambda>l. mt_at V l i" and y = "\<lambda>l. mt_at V l j"]
    by (simp add: mat_mul_def orthogonal_def mult.commute)
  ultimately show ?thesis using assms by (simp add: orthogonal_def)
qed

text \<open>The best scale is the one the code takes.\<close>

lemma best_scale:
  fixes q t T s :: real
  assumes q: "0 < q" and t: "\<bar>t\<bar> \<le> T"
  shows "- T\<^sup>2 / q \<le> s\<^sup>2 * q - 2 * s * t"
proof -
  have "s * t \<le> \<bar>s\<bar> * \<bar>t\<bar>" using abs_ge_self[of "s * t"] by (simp add: abs_mult)
  also have "\<dots> \<le> \<bar>s\<bar> * T" using t by (rule mult_left_mono) simp
  finally have "s * t \<le> \<bar>s\<bar> * T" .
  moreover have "0 \<le> (\<bar>s\<bar> * q - T)\<^sup>2 / q" using q by simp
  moreover have "(\<bar>s\<bar> * q - T)\<^sup>2 / q = s\<^sup>2 * q - 2 * (\<bar>s\<bar> * T) + T\<^sup>2 / q"
  proof -
    have "(\<bar>s\<bar> * q - T)\<^sup>2 = (s\<^sup>2 * q - 2 * (\<bar>s\<bar> * T)) * q + T\<^sup>2"
      by (simp add: power2_eq_square algebra_simps)
    then show ?thesis using q by (simp add: add_divide_distrib)
  qed
  ultimately show ?thesis by (simp add: algebra_simps)
qed

lemma head_orthogonal:
  assumes dims: "mt_cols A = n" "mt_cols B = n"
    and svd: "svd_square (mat_mul (mat_t A) B) (svd (mat_mul (mat_t A) B))"
  shows "orthogonal n (fst (align_head svd A B))"
  using svd dims by (auto simp: align_head_def svd_square_def mat_t_def intro!: orthogonal_mul split: prod.splits)

lemma head_optimal:
  assumes dims: "mt_cols A = n" "mt_cols B = n" "mt_rows B = mt_rows A"
    and svd: "svd_square (mat_mul (mat_t A) B) (svd (mat_mul (mat_t A) B))"
    and size: "1 / 10 ^ 12 \<le> sq_sum A" and R': "orthogonal n R'"
  shows "sq_dist (mat_scale (snd (align_head svd A B)) (mat_mul A (fst (align_head svd A B)))) B
      \<le> sq_dist (mat_scale s' (mat_mul A R')) B"
proof -
  let ?M = "mat_mul (mat_t A) B" let ?R = "fst (align_head svd A B)" let ?s = "snd (align_head svd A B)"
  obtain U S Vh where usv: "svd ?M = (U, S, Vh)" by (cases "svd ?M") auto
  have M: "mt_rows ?M = n" "mt_cols ?M = n" using dims by (simp_all add: mat_t_def)
  note law = svd[unfolded usv]
  have pos: "0 < sq_sum A" using size by (rule order.strict_trans2[rotated]) simp
  have a: "?R = mat_mul U Vh" "?s = sum_list S / sq_sum A"
    using size by (simp_all add: align_head_def usv max_absorb1)
  have R: "orthogonal n ?R" by (rule head_orthogonal[where svd = svd, OF dims(1,2) svd])
  have cols: "mt_cols R'' = n" if "orthogonal n R''" for R'' using that by (simp add: orthogonal_def)
  have expand: "sq_dist (mat_scale s (mat_mul A R'')) B
      = s\<^sup>2 * sq_sum A - 2 * s * (\<Sum>i<n. \<Sum>j<n. mt_at R'' i j * mt_at ?M i j) + sq_sum B"
    if "orthogonal n R''" for s R''
    using sq_dist_expand[of B "mat_mul A R''" s] rotated_size[OF that dims(1)]
      inner_rotated[OF dims(1) cols[OF that] dims(2,3)] dims cols[OF that] by simp
  have "- 2 * ?s * (\<Sum>i<n. \<Sum>j<n. mt_at ?R i j * mt_at ?M i j) + ?s\<^sup>2 * sq_sum A = - (sum_list S)\<^sup>2 / sq_sum A"
    unfolding a trace_reached[OF law M] using pos by (simp add: power2_eq_square field_simps)
  moreover have "- (sum_list S)\<^sup>2 / sq_sum A \<le> s'\<^sup>2 * sq_sum A - 2 * s' * t" if "\<bar>t\<bar> \<le> sum_list S" for t
    by (rule best_scale[OF pos that])
  ultimately show "sq_dist (mat_scale ?s (mat_mul A ?R)) B \<le> sq_dist (mat_scale s' (mat_mul A R')) B"
    using trace_bound[OF law M R'] expand[OF R, of ?s] expand[OF R', of s'] by fastforce
qed

text \<open>The squared distance of the whole is the sum over the heads.\<close>

lemma sq_dist_heads:
  assumes "mt_cols A = num_heads * hdim" "mt_rows B = mt_rows A" "mt_cols B = mt_cols A"
    and "\<forall>h<num_heads. mt_cols (Rs ! h) = hdim"
  shows "sq_dist (apply_heads hdim A Rs ss) B
    = (\<Sum>h<num_heads. sq_dist (mat_scale (ss ! h) (mat_mul (head_block hdim h A) (Rs ! h))) (head_block hdim h B))"
proof -
  let ?f = "\<lambda>r c. (mt_at (apply_heads hdim A Rs ss) r c - mt_at B r c)\<^sup>2"
  have shape: "mt_rows (apply_heads hdim A Rs ss) = mt_rows A" "mt_cols (apply_heads hdim A Rs ss) = mt_cols A"
    by (simp_all add: apply_heads_def)
  have "(\<Sum>c<num_heads * hdim. ?f r c) = (\<Sum>h<num_heads. \<Sum>c<hdim. ?f r (h * hdim + c))" for r
  proof -
    have "sum (?f r) {h * hdim..<h * hdim + hdim} = (\<Sum>c<hdim. ?f r (h * hdim + c))" for h
      using sum.shift_bounds_nat_ivl[of "?f r" 0 "h * hdim" hdim] by (simp add: atLeast0LessThan add.commute)
    then show ?thesis using sum.nat_group[of "?f r" hdim num_heads] by simp
  qed
  then have "sq_dist (apply_heads hdim A Rs ss) B = (\<Sum>r<mt_rows A. \<Sum>h<num_heads. \<Sum>c<hdim. ?f r (h * hdim + c))"
    using assms(1) by (simp add: sq_dist_def shape)
  also have "\<dots> = (\<Sum>h<num_heads. \<Sum>r<mt_rows A. \<Sum>c<hdim. ?f r (h * hdim + c))" by (rule sum.swap)
  also have "\<dots> = (\<Sum>h<num_heads. sq_dist (mat_scale (ss ! h) (mat_mul (head_block hdim h A) (Rs ! h))) (head_block hdim h B))"
  proof (intro sum.cong refl)
    fix h assume "h \<in> {..<num_heads}"
    then have h: "h < num_heads" by simp
    have "h * hdim + c < num_heads * hdim" if "c < hdim" for c
    proof -
      have "h * hdim + c < Suc h * hdim" using that by simp
      also have "\<dots> \<le> num_heads * hdim" using h by (intro mult_le_mono1) simp
      finally show ?thesis .
    qed
    then have "?f r (h * hdim + c) = (mt_at (mat_scale (ss ! h) (mat_mul (head_block hdim h A) (Rs ! h))) r c
        - mt_at (head_block hdim h B) r c)\<^sup>2" if "r < mt_rows A" "c < hdim" for r c
      using that h assms by (simp add: apply_heads_def mat_scale_def head_block_def)
    then show "(\<Sum>r<mt_rows A. \<Sum>c<hdim. ?f r (h * hdim + c))
        = sq_dist (mat_scale (ss ! h) (mat_mul (head_block hdim h A) (Rs ! h))) (head_block hdim h B)"
      using h assms by (simp add: sq_dist_def head_block_def)
  qed
  finally show ?thesis .
qed

text \<open>C24. The head-wise alignment is optimal. If the decomposition keeps its law on the cross-covariance
  of every head and no head of the source vanishes, then the alignment succeeds, its maps are orthogonal, and no
  choice of scales and orthogonal maps, one for each head, brings the source closer to the target in
  the sum of squares.\<close>

theorem head_wise_procrustes_optimal:
  assumes dims: "0 < num_heads" "mt_cols A = num_heads * hdim" "mt_rows B = mt_rows A" "mt_cols B = mt_cols A"
    and law: "\<forall>h<num_heads. let M = mat_mul (mat_t (head_block hdim h A)) (head_block hdim h B) in svd_square M (svd M)"
    and size: "\<forall>h<num_heads. 1 / 10 ^ 12 \<le> sq_sum (head_block hdim h A)"
  shows "\<exists>A' Rs ss. head_wise_orthogonal_procrustes svd A B num_heads None = Inr (A', None, Rs, ss)
    \<and> A' = apply_heads hdim A Rs ss \<and> length Rs = num_heads \<and> (\<forall>h<num_heads. orthogonal hdim (Rs ! h))
    \<and> (\<forall>Rs' ss'. (\<forall>h<num_heads. orthogonal hdim (Rs' ! h)) \<longrightarrow> sq_dist A' B \<le> sq_dist (apply_heads hdim A Rs' ss') B)"
proof -
  let ?al = "\<lambda>h. align_head svd (head_block hdim h A) (head_block hdim h B)"
  let ?Rs = "map fst (map ?al [0..<num_heads])" let ?ss = "map snd (map ?al [0..<num_heads])"
  have run: "head_wise_orthogonal_procrustes svd A B num_heads None = Inr (apply_heads hdim A ?Rs ?ss, None, ?Rs, ?ss)"
    using dims by (simp add: head_wise_orthogonal_procrustes_def comp_def Let_def)
  have opt: "orthogonal hdim (fst (?al h))"
      "orthogonal hdim R' \<Longrightarrow> sq_dist (mat_scale (snd (?al h)) (mat_mul (head_block hdim h A) (fst (?al h)))) (head_block hdim h B)
        \<le> sq_dist (mat_scale s' (mat_mul (head_block hdim h A) R')) (head_block hdim h B)" if "h < num_heads" for h R' s'
  proof -
    have shape: "mt_cols (head_block hdim h A) = hdim" "mt_cols (head_block hdim h B) = hdim"
        "mt_rows (head_block hdim h B) = mt_rows (head_block hdim h A)" using dims(3) by (simp_all add: head_block_def)
    note l = law[rule_format, OF that, unfolded Let_def]
    show "orthogonal hdim (fst (?al h))" by (rule head_orthogonal[where svd = svd, OF shape(1,2) l])
    show "orthogonal hdim R' \<Longrightarrow> sq_dist (mat_scale (snd (?al h)) (mat_mul (head_block hdim h A) (fst (?al h)))) (head_block hdim h B)
        \<le> sq_dist (mat_scale s' (mat_mul (head_block hdim h A) R')) (head_block hdim h B)"
      by (rule head_optimal[where svd = svd, OF shape l size[rule_format, OF that]])
  qed
  have cols: "\<forall>h<num_heads. mt_cols (R ! h) = hdim" if "\<forall>h<num_heads. orthogonal hdim (R ! h)" for R
    using that by (simp add: orthogonal_def)
  have orth: "\<forall>h<num_heads. orthogonal hdim (?Rs ! h)" using opt(1) by simp
  have "sq_dist (apply_heads hdim A ?Rs ?ss) B \<le> sq_dist (apply_heads hdim A Rs' ss') B"
    if R': "\<forall>h<num_heads. orthogonal hdim (Rs' ! h)" for Rs' ss'
    unfolding sq_dist_heads[OF dims(2,3,4) cols[OF orth]] sq_dist_heads[OF dims(2,3,4) cols[OF R']]
    by (rule sum_mono) (use opt(2) R' in simp)
  then show ?thesis using run orth by (intro exI[of _ "apply_heads hdim A ?Rs ?ss"] exI[of _ ?Rs] exI[of _ ?ss]) simp
qed

text \<open>A sample of two heads of one entry each, with the decomposition of a positive number.\<close>

definition scalar_svd :: svd where
  "scalar_svd W = (mk 1 1 (\<lambda>_ _. 1), [mt_at W 0 0], mk 1 1 (\<lambda>_ _. 1))"

lemma scalar_svd_law: "0 \<le> x \<Longrightarrow> svd_square (mk 1 1 (\<lambda>_ _. x)) (scalar_svd (mk 1 1 (\<lambda>_ _. x)))"
  by (simp add: svd_square_def svd_of_def scalar_svd_def orthogonal_def)

lemma head_wise_procrustes_optimal_witness:
  "\<exists>A' Rs ss. head_wise_orthogonal_procrustes scalar_svd (mk 1 2 (\<lambda>_ _. 1)) (mk 1 2 (\<lambda>_ j. real j + 1)) 2 None
      = Inr (A', None, Rs, ss)
    \<and> (\<forall>Rs' ss'. (\<forall>h<2. orthogonal 1 (Rs' ! h)) \<longrightarrow>
        sq_dist A' (mk 1 2 (\<lambda>_ j. real j + 1)) \<le> sq_dist (apply_heads 1 (mk 1 2 (\<lambda>_ _. 1)) Rs' ss') (mk 1 2 (\<lambda>_ j. real j + 1)))"
proof -
  let ?A = "mk 1 2 (\<lambda>_ _. 1)" let ?B = "mk 1 2 (\<lambda>_ j. real j + 1)"
  have dims: "(0::nat) < 2" "mt_cols ?A = 2 * 1" "mt_rows ?B = mt_rows ?A" "mt_cols ?B = mt_cols ?A" by simp_all
  have law: "\<forall>h<2. let M = mat_mul (mat_t (head_block 1 h ?A)) (head_block 1 h ?B) in svd_square M (scalar_svd M)"
  proof (intro allI impI)
    fix h :: nat assume "h < 2"
    then have "mat_mul (mat_t (head_block 1 h ?A)) (head_block 1 h ?B) = mk 1 1 (\<lambda>_ _. real h + 1)"
      by (intro mat_eqI) (simp_all add: mat_mul_def mat_t_def head_block_def)
    then show "let M = mat_mul (mat_t (head_block 1 h ?A)) (head_block 1 h ?B) in svd_square M (scalar_svd M)"
      using scalar_svd_law[of "real h + 1"] by simp
  qed
  have size: "\<forall>h<2. 1 / 10 ^ 12 \<le> sq_sum (head_block 1 h ?A)"
    by (simp add: sq_sum_def head_block_def)
  show ?thesis using head_wise_procrustes_optimal[OF dims law size] by blast
qed

end
