(* ===== verification/Curvature.thy ===== *)
theory Curvature
  imports Procrustes
begin

text \<open>
  The alignment in the tangent space of the activation function (core/math.py): the first and second
  derivatives of SiLU and GELU, the Jacobian alignment (JTSA) and the second-order one (HAMA). The later of the two
  definitions of each function is modelled, since it is the one that stays bound. The error function and the
  singular value decomposition are parameters with their laws; entries are exact reals.
\<close>

section \<open>Derivatives of the activation functions\<close>

definition sigmoid :: "real \<Rightarrow> real" where
  "sigmoid x = 1 / (1 + exp (- x))"

definition swiglu_jacobian :: "real \<Rightarrow> real" where
  "swiglu_jacobian x = (let sig = sigmoid x in sig * (1 + x * (1 - sig)))"

definition swiglu_hessian :: "real \<Rightarrow> real" where
  "swiglu_hessian x = (let sig = sigmoid x in sig * (1 - sig) * (2 + x * (1 - 2 * sig)))"

definition geglu_jacobian :: "(real \<Rightarrow> real) \<Rightarrow> real \<Rightarrow> real" where
  "geglu_jacobian erf x = 1 / 2 * (1 + erf (x / sqrt 2)) + x / sqrt (2 * pi) * exp (- (1 / 2) * x\<^sup>2)"

definition geglu_hessian :: "real \<Rightarrow> real" where
  "geglu_hessian x = (2 - x\<^sup>2) / sqrt (2 * pi) * exp (- (1 / 2) * x\<^sup>2)"

section \<open>Alignment\<close>

text \<open>\<open>view\<close> of a tensor as another one with as many elements.\<close>

definition reshape_to :: "nat \<Rightarrow> nat \<Rightarrow> mat \<Rightarrow> mat result" where
  "reshape_to r c m =
     (if mt_rows m * mt_cols m = r * c
      then Inr (mk r c (\<lambda>i j. mt_at m ((i * c + j) div mt_cols m) ((i * c + j) mod mt_cols m)))
      else Inl (PyExc RuntimeErrorE ''shape is invalid for input of this size''))"

text \<open>The states made up from the weights of a head when none are given.\<close>

definition synthetic_state :: "mat \<Rightarrow> mat" where
  "synthetic_state B_i =
     mk (mt_rows B_i) (mt_cols B_i) (\<lambda>r c. mt_at B_i r c / (sqrt (\<Sum>k<mt_rows B_i. (mt_at B_i k c)\<^sup>2) + 1 / 10 ^ 6))"

definition weigh :: "(real \<Rightarrow> real) \<Rightarrow> mat \<Rightarrow> mat \<Rightarrow> mat" where
  "weigh factor state A_i = mk (mt_rows A_i) (mt_cols A_i) (\<lambda>r c. factor (mt_at state r c) * mt_at A_i r c)"

definition tangent_rotation :: "svd \<Rightarrow> (real \<Rightarrow> real) \<Rightarrow> mat \<Rightarrow> mat \<Rightarrow> mat \<Rightarrow> mat" where
  "tangent_rotation svd factor state A_i B_i =
     (let (U, S, Vh) = svd (mat_mul (mat_t (weigh factor state A_i)) B_i) in mat_mul U Vh)"

definition head_state :: "nat \<Rightarrow> nat \<Rightarrow> mat option \<Rightarrow> mat \<Rightarrow> mat" where
  "head_state hdim i states B = (case states of Some S \<Rightarrow> head_block hdim i S | None \<Rightarrow> synthetic_state (head_block hdim i B))"

definition tangent_align ::
    "svd \<Rightarrow> (real \<Rightarrow> real) \<Rightarrow> mat \<Rightarrow> mat \<Rightarrow> nat \<Rightarrow> mat option \<Rightarrow> (mat \<times> mat list \<times> real list) result" where
  "tangent_align svd factor A B num_heads activation_states =
     (if num_heads = 0 then Inl (PyExc ZeroDivisionErrorE ''integer division or modulo by zero'')
      else let N = mt_rows A; d = mt_cols A; hdim = d div num_heads
      in bindE (reshape_to N (num_heads * hdim) A) (\<lambda>A_heads.
         bindE (reshape_to N (num_heads * hdim) B) (\<lambda>B_heads.
         bindE (case activation_states of None \<Rightarrow> Inr None
                | Some S \<Rightarrow> bindE (reshape_to N (num_heads * hdim) S) (\<lambda>S_heads. Inr (Some S_heads))) (\<lambda>state_heads.
           let Rs = map (\<lambda>i. tangent_rotation svd factor (head_state hdim i state_heads B_heads)
                               (head_block hdim i A_heads) (head_block hdim i B_heads)) [0..<num_heads]
           in Inr (apply_heads hdim A Rs (replicate num_heads 1), Rs, replicate num_heads 1)))))"

definition jacobian_of :: "(real \<Rightarrow> real) \<Rightarrow> string \<Rightarrow> real \<Rightarrow> real" where
  "jacobian_of erf activation_type = (if activation_type = ''swiglu'' then swiglu_jacobian else geglu_jacobian erf)"

definition hessian_of :: "string \<Rightarrow> real \<Rightarrow> real" where
  "hessian_of activation_type = (if activation_type = ''swiglu'' then swiglu_hessian else geglu_hessian)"

definition jacobian_tangent_space_alignment ::
    "(real \<Rightarrow> real) \<Rightarrow> svd \<Rightarrow> mat \<Rightarrow> mat \<Rightarrow> nat \<Rightarrow> string \<Rightarrow> mat option \<Rightarrow> (mat \<times> mat list \<times> real list) result" where
  "jacobian_tangent_space_alignment erf svd A B num_heads activation_type activation_states =
     tangent_align svd (jacobian_of erf activation_type) A B num_heads activation_states"

definition curvature_factor :: "(real \<Rightarrow> real) \<Rightarrow> string \<Rightarrow> real \<Rightarrow> real \<Rightarrow> real" where
  "curvature_factor erf activation_type alpha x =
     jacobian_of erf activation_type x + 1 / 2 * alpha * hessian_of activation_type x * x"

definition hessian_aware_manifold_alignment ::
    "(real \<Rightarrow> real) \<Rightarrow> svd \<Rightarrow> mat \<Rightarrow> mat \<Rightarrow> nat \<Rightarrow> string \<Rightarrow> real \<Rightarrow> mat option \<Rightarrow> (mat \<times> mat list \<times> real list) result" where
  "hessian_aware_manifold_alignment erf svd A B num_heads activation_type alpha activation_states =
     tangent_align svd (curvature_factor erf activation_type alpha) A B num_heads activation_states"

lemma hama_without_curvature:
  "hessian_aware_manifold_alignment erf svd A B h a 0 S = jacobian_tangent_space_alignment erf svd A B h a S"
  by (simp add: hessian_aware_manifold_alignment_def jacobian_tangent_space_alignment_def curvature_factor_def[abs_def])

section \<open>The factors are the derivatives they are named for\<close>

text \<open>The error function by its derivative.\<close>

definition erf_law :: "(real \<Rightarrow> real) \<Rightarrow> bool" where
  "erf_law erf \<longleftrightarrow> erf 0 = 0 \<and> (\<forall>x. (erf has_real_derivative 2 / sqrt pi * exp (- (x\<^sup>2))) (at x))"

lemma sigmoid_deriv: "(sigmoid has_real_derivative sigmoid x * (1 - sigmoid x)) (at x)"
proof -
  have "0 < 1 + exp (- x)" by (simp add: add_pos_pos)
  then have "((\<lambda>x. 1 / (1 + exp (- x))) has_real_derivative exp (- x) / (1 + exp (- x))\<^sup>2) (at x)"
    by (auto intro!: derivative_eq_intros simp: power2_eq_square)
  moreover have "exp (- x) / (1 + exp (- x))\<^sup>2 = sigmoid x * (1 - sigmoid x)"
    using \<open>0 < 1 + exp (- x)\<close> by (simp add: sigmoid_def field_simps power2_eq_square)
  ultimately show ?thesis unfolding sigmoid_def[abs_def] by simp
qed

lemma silu_derivs:
  "((\<lambda>x. x * sigmoid x) has_real_derivative swiglu_jacobian x) (at x)"
  "(swiglu_jacobian has_real_derivative swiglu_hessian x) (at x)"
proof -
  show "((\<lambda>x. x * sigmoid x) has_real_derivative swiglu_jacobian x) (at x)"
    by (auto intro!: derivative_eq_intros sigmoid_deriv simp: swiglu_jacobian_def Let_def algebra_simps)
  show "(swiglu_jacobian has_real_derivative swiglu_hessian x) (at x)"
    unfolding swiglu_jacobian_def[abs_def] Let_def
    by (auto intro!: derivative_eq_intros sigmoid_deriv simp: swiglu_hessian_def Let_def algebra_simps)
qed

lemma gauss_deriv:
  "((\<lambda>x. exp (- (1 / 2) * x\<^sup>2)) has_real_derivative - x * exp (- (1 / 2) * x\<^sup>2)) (at x)"
  by (auto intro!: derivative_eq_intros)

lemma erf_scaled_deriv:
  assumes "erf_law erf"
  shows "((\<lambda>x. erf (x / sqrt 2)) has_real_derivative 2 / sqrt (2 * pi) * exp (- (1 / 2) * x\<^sup>2)) (at x)"
proof -
  have "((\<lambda>x. erf (x / sqrt 2)) has_real_derivative 2 / sqrt pi * exp (- ((x / sqrt 2)\<^sup>2)) * (1 / sqrt 2)) (at x)"
    by (rule DERIV_chain2[where f = erf and g = "\<lambda>x. x / sqrt 2"])
      (use assms DERIV_cdivide[OF DERIV_ident, of "sqrt 2" x UNIV] in \<open>auto simp: erf_law_def\<close>)
  moreover have "2 / sqrt pi * exp (- ((x / sqrt 2)\<^sup>2)) * (1 / sqrt 2) = 2 / sqrt (2 * pi) * exp (- (1 / 2) * x\<^sup>2)"
    by (simp add: power_divide real_sqrt_mult)
  ultimately show ?thesis by simp
qed

lemma gelu_derivs:
  assumes "erf_law erf"
  shows "((\<lambda>x. 1 / 2 * x * (1 + erf (x / sqrt 2))) has_real_derivative geglu_jacobian erf x) (at x)"
    "(geglu_jacobian erf has_real_derivative geglu_hessian x) (at x)"
proof -
  have s: "0 < sqrt (2 * pi)" by simp
  show "((\<lambda>x. 1 / 2 * x * (1 + erf (x / sqrt 2))) has_real_derivative geglu_jacobian erf x) (at x)"
    using s by (auto intro!: derivative_eq_intros erf_scaled_deriv[OF assms] simp: geglu_jacobian_def field_simps simp del: real_sqrt_gt_0_iff)
  let ?c = "1 / sqrt (2 * pi)" and ?g = "\<lambda>x. exp (- (1 / 2) * x\<^sup>2)"
  have "((\<lambda>x. 1 / 2 * (1 + erf (x / sqrt 2)) + ?c * (x * ?g x)) has_real_derivative
      1 / 2 * (2 * ?c * ?g x) + ?c * (1 * ?g x + (- x * ?g x) * x)) (at x)"
    by (intro DERIV_add DERIV_cmult DERIV_mult DERIV_ident gauss_deriv)
      (use DERIV_add[OF DERIV_const[of 1] erf_scaled_deriv[OF assms]] in simp)
  moreover have "1 / 2 * (2 * ?c * ?g x) + ?c * (1 * ?g x + (- x * ?g x) * x) = geglu_hessian x"
    unfolding geglu_hessian_def by (simp add: power2_eq_square algebra_simps diff_divide_distrib)
  moreover have "(\<lambda>x. 1 / 2 * (1 + erf (x / sqrt 2)) + ?c * (x * ?g x)) = geglu_jacobian erf"
    by (simp add: geglu_jacobian_def fun_eq_iff)
  ultimately show "(geglu_jacobian erf has_real_derivative geglu_hessian x) (at x)" by simp
qed

text \<open>A function with this law exists: the power series.\<close>

definition erf_coeff :: "nat \<Rightarrow> real" where
  "erf_coeff n = (if even n then 0 else (- 1) ^ ((n - 1) div 2) / (fact ((n - 1) div 2) * real n))"

definition erf_series :: "real \<Rightarrow> real" where
  "erf_series x = 2 / sqrt pi * (\<Sum>n. erf_coeff n * x ^ n)"

lemma erf_summable: "summable (\<lambda>n. erf_coeff n * y ^ n)"
proof -
  let ?g = "\<lambda>k. (- 1) ^ k / (fact k * real (2 * k + 1)) * y ^ (2 * k + 1)"
  have "summable (\<lambda>k. \<bar>y\<bar> * (inverse (fact k) * (y\<^sup>2) ^ k))" by (intro summable_mult summable_exp)
  then have "summable ?g"
  proof (rule summable_comparison_test'[where N = 0])
    fix k :: nat
    have "\<bar>y ^ (2 * k + 1)\<bar> = \<bar>y\<bar> * (y\<^sup>2) ^ k" by (simp add: abs_mult power_mult)
    then have "norm (?g k) = \<bar>y\<bar> * (inverse (fact k) * (y\<^sup>2) ^ k) / real (2 * k + 1)"
      by (simp add: abs_mult divide_inverse mult_ac)
    also have "\<dots> \<le> \<bar>y\<bar> * (inverse (fact k) * (y\<^sup>2) ^ k) / 1" by (rule divide_left_mono) auto
    finally show "norm (?g k) \<le> \<bar>y\<bar> * (inverse (fact k) * (y\<^sup>2) ^ k)" by simp
  qed
  then obtain s where "?g sums s" by (auto simp: summable_def)
  from sums_if'[OF this] have "(\<lambda>n. if even n then 0 else ?g ((n - 1) div 2)) sums s" .
  moreover have "(if even n then 0 else ?g ((n - 1) div 2)) = erf_coeff n * y ^ n" for n
    by (auto simp: erf_coeff_def elim!: oddE)
  ultimately show ?thesis by (auto simp: summable_def)
qed

lemma erf_series_law: "erf_law erf_series"
  unfolding erf_law_def
proof (intro conjI allI)
  have "(\<lambda>n. erf_coeff n * 0 ^ n) = (\<lambda>n. 0)" by (auto simp: fun_eq_iff erf_coeff_def power_0_left)
  then show "erf_series 0 = 0" by (simp add: erf_series_def)
next
  fix x :: real
  have d: "diffs erf_coeff n * x ^ n = (if even n then inverse (fact (n div 2)) * (- (x\<^sup>2)) ^ (n div 2) else 0)" for n
    by (auto simp: diffs_def erf_coeff_def power_minus[of "x\<^sup>2"] divide_inverse power_mult elim!: evenE)
  have "(\<lambda>n. inverse (fact n) * (- (x\<^sup>2)) ^ n) sums exp (- (x\<^sup>2))"
    using exp_converges[of "- (x\<^sup>2)"] by (simp add: divide_inverse mult.commute)
  from sums_if[OF sums_zero this]
  have "(\<lambda>n. if even n then inverse (fact (n div 2)) * (- (x\<^sup>2)) ^ (n div 2) else 0) sums exp (- (x\<^sup>2))" by simp
  then have "(\<Sum>n. diffs erf_coeff n * x ^ n) = exp (- (x\<^sup>2))" unfolding d by (rule sums_unique[symmetric])
  moreover have "((\<lambda>x. \<Sum>n. erf_coeff n * x ^ n) has_real_derivative (\<Sum>n. diffs erf_coeff n * x ^ n)) (at x)"
    by (rule termdiffs_strong_converges_everywhere) (rule erf_summable)
  ultimately show "(erf_series has_real_derivative 2 / sqrt pi * exp (- (x\<^sup>2))) (at x)"
    unfolding erf_series_def[abs_def] by (intro DERIV_cmult) simp
qed

text \<open>The factors of the tangent space alignment are the derivatives they stand for: the Jacobian factors
  are the derivatives of SiLU and GELU, the Hessian factors those of the Jacobian factors, and the factor of the
  second-order alignment at a state is the derivative there plus half of alpha times the state times the
  change of the derivative. The error function is assumed to have its derivative.\<close>

theorem curvature_factors_are_derivatives:
  assumes "erf_law erf"
  shows "((\<lambda>x. x * sigmoid x) has_real_derivative jacobian_of erf ''swiglu'' x) (at x)
    \<and> ((\<lambda>x. 1 / 2 * x * (1 + erf (x / sqrt 2))) has_real_derivative jacobian_of erf ''geglu'' x) (at x)
    \<and> (\<forall>a. (jacobian_of erf a has_real_derivative hessian_of a x) (at x))
    \<and> (\<forall>a alpha D. (jacobian_of erf a has_real_derivative D) (at x) \<longrightarrow>
          curvature_factor erf a alpha x = jacobian_of erf a x + alpha / 2 * x * D)"
proof -
  have h: "(jacobian_of erf a has_real_derivative hessian_of a x) (at x)" for a
    using silu_derivs(2) gelu_derivs(2)[OF assms] by (simp add: jacobian_of_def hessian_of_def)
  then have "D = hessian_of a x" if "(jacobian_of erf a has_real_derivative D) (at x)" for a D
    using that DERIV_unique by blast
  then show ?thesis using h silu_derivs(1) gelu_derivs(1)[OF assms]
    by (auto simp: jacobian_of_def curvature_factor_def)
qed

lemma curvature_factors_are_derivatives_witness:
  "((\<lambda>x. 1 / 2 * x * (1 + erf_series (x / sqrt 2))) has_real_derivative jacobian_of erf_series ''geglu'' 0) (at 0)
    \<and> jacobian_of erf_series ''geglu'' 0 = 1 / 2"
  using curvature_factors_are_derivatives[OF erf_series_law, of 0] erf_series_law
  by (simp add: jacobian_of_def geglu_jacobian_def erf_law_def)

section \<open>The rotation is the best one for the weighted activations\<close>

lemma reshape_same:
  assumes "mt_rows m = r" "mt_cols m = c"
  shows "reshape_to r c m = Inr (mk r c (mt_at m))"
proof -
  have "(i * c + j) div c = i" "(i * c + j) mod c = j" if "j < c" for i j using that by simp_all
  then have "mk r c (\<lambda>i j. mt_at m ((i * c + j) div c) ((i * c + j) mod c)) = mk r c (mt_at m)"
    by (intro mat_eqI) simp_all
  then show ?thesis using assms by (simp add: reshape_to_def)
qed

lemma head_inside: "i < h \<Longrightarrow> c < hdim \<Longrightarrow> i * hdim + c < h * hdim" for i h c hdim :: nat
  using mult_le_mono1[of "Suc i" h hdim] by simp

lemma head_block_view: "i < h \<Longrightarrow> mt_rows m = r \<Longrightarrow> head_block hdim i (mk r (h * hdim) (mt_at m)) = head_block hdim i m"
  by (rule mat_eqI) (simp_all add: head_block_def head_inside)

lemma applied_head:
  assumes "mt_cols A = h * hdim" "i < h" "mt_cols (Rs ! i) = hdim" "mt_rows (Rs ! i) = hdim"
  shows "head_block hdim i (apply_heads hdim A Rs (replicate h 1)) = mat_mul (head_block hdim i A) (Rs ! i)"
proof (rule mat_eqI)
  fix r c assume "r < mt_rows (head_block hdim i (apply_heads hdim A Rs (replicate h 1)))"
    "c < mt_cols (head_block hdim i (apply_heads hdim A Rs (replicate h 1)))"
  then have "r < mt_rows A" "c < hdim" by (simp_all add: head_block_def apply_heads_def)
  then show "mt_at (head_block hdim i (apply_heads hdim A Rs (replicate h 1))) r c = mt_at (mat_mul (head_block hdim i A) (Rs ! i)) r c"
    using assms head_inside[OF assms(2), of c hdim] by (simp add: head_block_def apply_heads_def)
qed (use assms in \<open>simp_all add: head_block_def apply_heads_def\<close>)

text \<open>The product of the outer factors of a decomposition of \<open>X\<^sup>T Y\<close> is the rotation that brings \<open>X\<close>
  closest to \<open>Y\<close>.\<close>

lemma rotation_from_svd:
  assumes l: "svd_square (mat_mul (mat_t X) Y) (U, T, Vh)"
    and X: "mt_cols X = n" and Y: "mt_rows Y = mt_rows X" "mt_cols Y = n"
  shows "orthogonal n (mat_mul U Vh)"
    and "orthogonal n R \<Longrightarrow> sq_dist (mat_mul X (mat_mul U Vh)) Y \<le> sq_dist (mat_mul X R) Y"
proof -
  let ?M = "mat_mul (mat_t X) Y"
  have dims: "mt_rows ?M = n" "mt_cols ?M = n" using X Y by (simp_all add: mat_t_def)
  show o: "orthogonal n (mat_mul U Vh)" using l dims by (auto simp: svd_square_def intro!: orthogonal_mul)
  have e: "sq_dist (mat_mul X Q) Y = sq_sum X - 2 * (\<Sum>a<n. \<Sum>b<n. mt_at Q a b * mt_at ?M a b) + sq_sum Y" if "orthogonal n Q" for Q
  proof -
    have q: "mt_cols Q = n" using that by (simp add: orthogonal_def)
    have "mat_scale 1 (mat_mul X Q) = mat_mul X Q" by (rule mat_eqI) (simp_all add: mat_scale_def)
    then show ?thesis
      using sq_dist_expand[of Y "mat_mul X Q" 1] rotated_size[OF that X] inner_rotated[OF X q Y(2,1)] q X Y by simp
  qed
  show "sq_dist (mat_mul X (mat_mul U Vh)) Y \<le> sq_dist (mat_mul X R) Y" if "orthogonal n R"
    using e[OF o] e[OF that] trace_reached[OF l dims] trace_bound[OF l dims that] by fastforce
qed

lemma tangent_align_optimal:
  assumes h: "0 < h" and A: "mt_cols A = h * hdim" and B: "mt_rows B = mt_rows A" "mt_cols B = mt_cols A"
    and S: "case S of None \<Rightarrow> True | Some M \<Rightarrow> mt_rows M = mt_rows A \<and> mt_cols M = mt_cols A"
    and law: "\<forall>i<h. let M = mat_mul (mat_t (weigh f (head_state hdim i S B) (head_block hdim i A))) (head_block hdim i B)
                  in svd_square M (svd M)"
  shows "\<exists>A' Rs ss. tangent_align svd f A B h S = Inr (A', Rs, ss) \<and> length Rs = h
    \<and> (\<forall>i<h. orthogonal hdim (Rs ! i) \<and> head_block hdim i A' = mat_mul (head_block hdim i A) (Rs ! i)
          \<and> sq_sum (head_block hdim i A') = sq_sum (head_block hdim i A)
          \<and> (\<forall>R. orthogonal hdim R \<longrightarrow>
                sq_dist (mat_mul (weigh f (head_state hdim i S B) (head_block hdim i A)) (Rs ! i)) (head_block hdim i B)
                \<le> sq_dist (mat_mul (weigh f (head_state hdim i S B) (head_block hdim i A)) R) (head_block hdim i B)))"
proof -
  let ?W = "\<lambda>i. weigh f (head_state hdim i S B) (head_block hdim i A)"
  let ?R = "\<lambda>i. tangent_rotation svd f (head_state hdim i S B) (head_block hdim i A) (head_block hdim i B)"
  let ?v = "\<lambda>m. mk (mt_rows A) (h * hdim) (mt_at m)"
  have d: "mt_cols A div h = hdim" using A h by simp
  have st: "head_state hdim i (map_option ?v S) (?v B) = head_state hdim i S B" if "i < h" for i
    using that S B head_block_view[OF that, of _ "mt_rows A" hdim] by (auto simp: head_state_def split: option.splits)
  have "tangent_align svd f A B h S = Inr (apply_heads hdim A (map ?R [0..<h]) (replicate h 1), map ?R [0..<h], replicate h 1)"
  proof -
    have "(case S of None \<Rightarrow> Inr None | Some M \<Rightarrow> bindE (reshape_to (mt_rows A) (h * hdim) M) (\<lambda>x. Inr (Some x)))
        = Inr (map_option ?v S)"
      using S A by (auto simp: reshape_same split: option.splits)
    moreover have m: "map (\<lambda>i. tangent_rotation svd f (head_state hdim i (map_option ?v S) (?v B)) (head_block hdim i (?v A)) (head_block hdim i (?v B))) [0..<h]
        = map ?R [0..<h]"
      by (rule map_cong) (simp_all add: st head_block_view B(1))
    ultimately show ?thesis
      using h d B A by (simp add: tangent_align_def Let_def reshape_same m cong: option.case_cong)
  qed
  moreover have opt: "orthogonal hdim (?R i) \<and> (\<forall>R. orthogonal hdim R \<longrightarrow>
      sq_dist (mat_mul (?W i) (?R i)) (head_block hdim i B) \<le> sq_dist (mat_mul (?W i) R) (head_block hdim i B))" if i: "i < h" for i
  proof -
    let ?B = "head_block hdim i B"
    obtain U T Vh where usv: "svd (mat_mul (mat_t (?W i)) ?B) = (U, T, Vh)" using prod_cases3 by blast
    have R: "?R i = mat_mul U Vh" by (simp add: tangent_rotation_def usv)
    have dims: "mt_cols (?W i) = hdim" "mt_rows ?B = mt_rows (?W i)" "mt_cols ?B = hdim"
      using B by (simp_all add: weigh_def head_block_def)
    show ?thesis using rotation_from_svd[OF _ dims] law[rule_format, OF i] usv unfolding R by (simp add: Let_def)
  qed
  moreover have "head_block hdim i (apply_heads hdim A (map ?R [0..<h]) (replicate h 1)) = mat_mul (head_block hdim i A) (?R i)"
      "sq_sum (mat_mul (head_block hdim i A) (?R i)) = sq_sum (head_block hdim i A)" if i: "i < h" for i
  proof -
    have o: "orthogonal hdim (?R i)" using opt[OF i] by blast
    then show "head_block hdim i (apply_heads hdim A (map ?R [0..<h]) (replicate h 1)) = mat_mul (head_block hdim i A) (?R i)"
      using applied_head[OF A i, of "map ?R [0..<h]"] i by (simp add: orthogonal_def)
    show "sq_sum (mat_mul (head_block hdim i A) (?R i)) = sq_sum (head_block hdim i A)"
      by (rule rotated_size[OF o]) (simp add: head_block_def)
  qed
  ultimately show ?thesis by simp
qed

text \<open>C25. The tangent space alignment, of first and of second order, returns for matching shapes, with or without
  given states, and its rotation is head by head the best one for the weighted activations: orthogonal, so that
  the aligned head has the size of the head it came from, and with a squared distance of
  the weighted activations to the target that no other orthogonal map has smaller. The
  decomposition is assumed to be one for the matrices it is called with.\<close>

theorem hama_rotations_optimal:
  assumes "0 < num_heads" and "mt_cols A = num_heads * hdim" and "mt_rows B = mt_rows A" and "mt_cols B = mt_cols A"
    and "case states of None \<Rightarrow> True | Some S \<Rightarrow> mt_rows S = mt_rows A \<and> mt_cols S = mt_cols A"
    and "\<forall>i<num_heads.
        let W = weigh (curvature_factor erf activation_type alpha) (head_state hdim i states B) (head_block hdim i A);
            M = mat_mul (mat_t W) (head_block hdim i B)
        in svd_square M (svd M)"
  shows "\<exists>A' Rs ss. hessian_aware_manifold_alignment erf svd A B num_heads activation_type alpha states = Inr (A', Rs, ss)
    \<and> (alpha = 0 \<longrightarrow> jacobian_tangent_space_alignment erf svd A B num_heads activation_type states = Inr (A', Rs, ss))
    \<and> (\<forall>i<num_heads.
          let W = weigh (curvature_factor erf activation_type alpha) (head_state hdim i states B) (head_block hdim i A)
          in orthogonal hdim (Rs ! i) \<and> head_block hdim i A' = mat_mul (head_block hdim i A) (Rs ! i)
             \<and> sq_sum (head_block hdim i A') = sq_sum (head_block hdim i A)
             \<and> (\<forall>R. orthogonal hdim R \<longrightarrow>
                   sq_dist (mat_mul W (Rs ! i)) (head_block hdim i B) \<le> sq_dist (mat_mul W R) (head_block hdim i B)))"
proof -
  have "\<forall>i<num_heads. let M = mat_mul (mat_t (weigh (curvature_factor erf activation_type alpha) (head_state hdim i states B)
          (head_block hdim i A))) (head_block hdim i B) in svd_square M (svd M)"
    using assms(6) by (simp add: Let_def)
  from tangent_align_optimal[where svd = svd, OF assms(1-5) this] show ?thesis
    unfolding hama_without_curvature[symmetric] hessian_aware_manifold_alignment_def Let_def by blast
qed

lemma hama_rotations_optimal_witness:
  "\<exists>A' Rs ss. hessian_aware_manifold_alignment erf_series scalar_svd (mk 1 2 (\<lambda>_ _. 1)) (mk 1 2 (\<lambda>_ j. real j + 1)) 2 ''swiglu'' 0
      (Some (mk 1 2 (\<lambda>_ _. 0))) = Inr (A', Rs, ss)
    \<and> (\<forall>i<2. orthogonal 1 (Rs ! i))"
proof -
  let ?A = "mk 1 2 (\<lambda>_ _. 1)" let ?B = "mk 1 2 (\<lambda>_ j. real j + 1)" let ?S = "Some (mk 1 2 (\<lambda>_ _. 0))"
  have dims: "(0::nat) < 2" "mt_cols ?A = 2 * 1" "mt_rows ?B = mt_rows ?A" "mt_cols ?B = mt_cols ?A"
    "case ?S of None \<Rightarrow> True | Some S \<Rightarrow> mt_rows S = mt_rows ?A \<and> mt_cols S = mt_cols ?A" by simp_all
  have law: "\<forall>i<2. let W = weigh (curvature_factor erf_series ''swiglu'' 0) (head_state 1 i ?S ?B) (head_block 1 i ?A);
            M = mat_mul (mat_t W) (head_block 1 i ?B) in svd_square M (scalar_svd M)"
  proof (intro allI impI)
    fix i :: nat assume "i < 2"
    let ?W = "weigh (curvature_factor erf_series ''swiglu'' 0) (head_state 1 i ?S ?B) (head_block 1 i ?A)"
    have "mat_mul (mat_t ?W) (head_block 1 i ?B) = mk 1 1 (\<lambda>_ _. (real i + 1) / 2)"
      using \<open>i < 2\<close> by (intro mat_eqI) (simp_all add: mat_mul_def mat_t_def head_block_def head_state_def weigh_def
          curvature_factor_def jacobian_of_def swiglu_jacobian_def sigmoid_def Let_def)
    then show "let W = ?W; M = mat_mul (mat_t W) (head_block 1 i ?B) in svd_square M (scalar_svd M)"
      using scalar_svd_law[of "(real i + 1) / 2"] by (simp add: Let_def)
  qed
  show ?thesis using hama_rotations_optimal[OF dims law] by (metis (no_types, lifting))
qed

end
