(* ===== verification/Transplant.thy ===== *)
theory Transplant
  imports Procrustes Diagnostics
begin

text \<open>
  The behavioural transplantation of core/ops.py with core/alignment.py, the activation collector
  (core/collector.py), the ridge solver and the low-rank decomposition of core/math.py: collect paired
  activations, learn a map per layer, take the delta an adapter causes, carry it over, solve for
  weights and export them as LoRA factors. A model is what its modules are given for a text, since the
  collector stores inputs (already the last token of every sequence); the linear solver and the singular value decomposition are
  parameters with their laws. Numbers are exact and finite, so the checks for NaN and infinity never fire and are
  left out, as are devices, console output and metadata that nothing reads.
\<close>

section \<open>Matrices\<close>

definition mat_sub :: "mat \<Rightarrow> mat \<Rightarrow> mat result" where
  "mat_sub a b =
     (if mt_rows a = mt_rows b \<and> mt_cols a = mt_cols b
      then Inr (mk (mt_rows a) (mt_cols a) (\<lambda>i j. mt_at a i j - mt_at b i j))
      else Inl (PyExc RuntimeErrorE ''The size of tensor a must match the size of tensor b''))"

text \<open>\<open>torch.cat\<close> along the rows.\<close>

fun cat_rows :: "mat \<Rightarrow> mat list \<Rightarrow> mat result" where
  "cat_rows a [] = Inr a"
| "cat_rows a (b # bs) =
     (if mt_cols a = mt_cols b
      then cat_rows (mk (mt_rows a + mt_rows b) (mt_cols a)
             (\<lambda>i j. if i < mt_rows a then mt_at a i j else mt_at b (i - mt_rows a) j)) bs
      else Inl (PyExc RuntimeErrorE ''Sizes of tensors must match except in dimension 0''))"

section \<open>Collecting activations\<close>

text \<open>A model gives for a text the inputs of its modules, in the order of the calls.\<close>

record lm =
  lm_name :: string
  lm_run :: "string \<Rightarrow> (string \<times> mat) list result"

definition add_activation :: "string list \<Rightarrow> string \<times> mat \<Rightarrow> (string, mat list) dict \<Rightarrow> (string, mat list) dict" where
  "add_activation target_modules nd acts =
     (if fst nd \<in> set target_modules then dict_set (fst nd) (dict_get acts (fst nd) [] @ [snd nd]) acts else acts)"

definition collect_texts :: "lm \<Rightarrow> string list \<Rightarrow> string list \<Rightarrow> (string, mat list) dict result" where
  "collect_texts model target_modules texts =
     foldE (\<lambda>t acts. bindE (lm_run model t) (\<lambda>outs. Inr (fold (add_activation target_modules) outs acts)))
       texts (dict_of (map (\<lambda>m. (m, [])) target_modules))"

definition get_stacked :: "(string, mat list) dict \<Rightarrow> (string, mat) dict result" where
  "get_stacked acts =
     foldE (\<lambda>(name, ms) d. case ms of [] \<Rightarrow> Inr d | m # rest \<Rightarrow> bindE (cat_rows m rest) (\<lambda>t. Inr (d @ [(name, t)]))) acts []"

definition collect :: "lm \<Rightarrow> string list \<Rightarrow> string list \<Rightarrow> (string, mat) dict result" where
  "collect model target_modules texts = bindE (collect_texts model target_modules texts) get_stacked"

section \<open>Paired activations and layer correspondence\<close>

record paired_dataset =
  pd_source :: "(string, mat) dict"
  pd_target :: "(string, mat) dict"

definition paired_activation_dataset :: "(string, mat) dict \<Rightarrow> (string, mat) dict \<Rightarrow> paired_dataset result" where
  "paired_activation_dataset source target =
     bindE (foldE (\<lambda>(key, s) (_::unit). case map_of target key of
               Some t \<Rightarrow> if mt_rows s \<noteq> mt_rows t then Inl (PyExc ValueErrorE (''Sample count mismatch for '' @ key)) else Inr ()
             | None \<Rightarrow> Inr ()) source ())
       (\<lambda>_. Inr \<lparr>pd_source = source, pd_target = target\<rparr>)"

definition center_columns :: "mat \<Rightarrow> mat" where
  "center_columns X =
     mk (mt_rows X) (mt_cols X) (\<lambda>i j. mt_at X i j - (\<Sum>k<mt_rows X. mt_at X k j) / real (mt_rows X))"

text \<open>\<open>H @ K @ H\<close> for the centering matrix \<open>H\<close>.\<close>

definition centering :: "nat \<Rightarrow> mat" where
  "centering n = mk n n (\<lambda>i j. (if i = j then 1 else 0) - 1 / real n)"

definition center_gram :: "mat \<Rightarrow> mat" where
  "center_gram K = mat_mul (mat_mul (centering (mt_rows K)) K) (centering (mt_rows K))"

definition centered_gram :: "mat \<Rightarrow> mat" where
  "centered_gram X = (let Xc = center_columns X in center_gram (mat_mul Xc (mat_t Xc)))"

definition gram_linear_cka :: "mat \<Rightarrow> mat \<Rightarrow> real result" where
  "gram_linear_cka X Y =
     (let Kc = centered_gram X; Lc = centered_gram Y;
          denom = sqrt (sq_sum Kc) * sqrt (sq_sum Lc)
      in if denom < 1 / 10 ^ 12 then Inr 0
         else if mt_rows X \<noteq> mt_rows Y
         then Inl (PyExc RuntimeErrorE ''The size of tensor a must match the size of tensor b'')
         else Inr (inner Kc Lc / denom))"

record correspondence =
  co_target_to_source :: "(string, string) dict"
  co_scores :: "(string, (string \<times> real) list) dict"

definition layer_scores :: "paired_dataset \<Rightarrow> string \<Rightarrow> mat \<Rightarrow> (string \<times> real) list result" where
  "layer_scores ds method t_acts =
     foldE (\<lambda>(s_layer, s_acts) scores.
         if method = ''linear_cka'' then bindE (gram_linear_cka s_acts t_acts) (\<lambda>score. Inr (scores @ [(s_layer, score)]))
         else Inl (PyExc ValueErrorE (''Unknown correspondence method: '' @ method)))
       (pd_source ds) []"

definition estimate_layer_correspondence :: "paired_dataset \<Rightarrow> string \<Rightarrow> nat \<Rightarrow> correspondence result" where
  "estimate_layer_correspondence ds method top_k =
     foldE (\<lambda>(t_layer, t_acts) co. bindE (layer_scores ds method t_acts) (\<lambda>scores.
         let sorted = sort_key (\<lambda>p. - snd p) scores
         in case sorted of
              [] \<Rightarrow> Inl (PyExc IndexErrorE ''list index out of range'')
            | best # _ \<Rightarrow>
                Inr (co\<lparr>co_target_to_source := dict_set t_layer (fst best) (co_target_to_source co),
                        co_scores := dict_set t_layer (take top_k sorted) (co_scores co)\<rparr>)))
       (pd_target ds) \<lparr>co_target_to_source = [], co_scores = []\<rparr>"

section \<open>Ridge regression\<close>

type_synonym solver = "mat \<Rightarrow> mat \<Rightarrow> mat result"

definition ridge_matrix :: "mat \<Rightarrow> real \<Rightarrow> mat" where
  "ridge_matrix X alpha =
     mk (mt_cols X) (mt_cols X) (\<lambda>i j. mt_at (mat_mul (mat_t X) X) i j + (if i = j then alpha else 0))"

definition solve_ridge :: "solver \<Rightarrow> mat \<Rightarrow> mat \<Rightarrow> real \<Rightarrow> mat result" where
  "solve_ridge solve X Y alpha = bindE (matmul (mat_t X) Y) (\<lambda>XTY. solve (ridge_matrix X alpha) XTY)"

section \<open>Alignment\<close>

record alignment_map =
  am_layer_maps :: "(string, mat) dict"
  am_target_model_id :: string
  am_method :: string
  am_map_key_semantics :: string

definition project_delta :: "alignment_map \<Rightarrow> string \<Rightarrow> mat \<Rightarrow> mat result" where
  "project_delta am layer_name source_delta =
     (case map_of (am_layer_maps am) layer_name of
        None \<Rightarrow> Inl (PyExc KeyErrorE (''No alignment map found for layer: '' @ layer_name))
      | Some P \<Rightarrow> matmul source_delta P)"

definition learn_alignment_map :: "solver \<Rightarrow> paired_dataset \<Rightarrow> string \<Rightarrow> real \<Rightarrow> alignment_map result" where
  "learn_alignment_map solve ds method alpha =
     bindE (foldE (\<lambda>(s_layer, X) maps. case map_of (pd_target ds) s_layer of
               None \<Rightarrow> Inr maps
             | Some Y \<Rightarrow> if method = ''ridge'' then bindE (solve_ridge solve X Y alpha) (\<lambda>P. Inr (dict_set s_layer P maps))
                        else Inr maps) (pd_source ds) [])
       (\<lambda>maps. if maps = [] then Inl (PyExc RuntimeErrorE ''No matching layers found to learn alignment map.'')
               else Inr \<lparr>am_layer_maps = maps, am_target_model_id = ''unknown'', am_method = method,
                         am_map_key_semantics = ''source_layer''\<rparr>)"

definition auto_alignment_map :: "solver \<Rightarrow> paired_dataset \<Rightarrow> lm \<Rightarrow> string \<Rightarrow> string \<Rightarrow> alignment_map result" where
  "auto_alignment_map solve ds target_model method correspondence_method =
     bindE (estimate_layer_correspondence ds correspondence_method 3) (\<lambda>co.
     bindE (foldE (\<lambda>(t_layer, s_layer) maps.
               bindE (dict_item (pd_source ds) s_layer) (\<lambda>X. bindE (dict_item (pd_target ds) t_layer) (\<lambda>Y.
               bindE (solve_ridge solve X Y 1) (\<lambda>P. Inr (dict_set t_layer P maps)))))
             (co_target_to_source co) [])
       (\<lambda>maps. Inr \<lparr>am_layer_maps = maps, am_target_model_id = lm_name target_model, am_method = method,
                    am_map_key_semantics = ''target_layer''\<rparr>))"

definition align ::
    "solver \<Rightarrow> lm \<Rightarrow> lm \<Rightarrow> string list \<Rightarrow> (string \<Rightarrow> string) \<Rightarrow> string list \<Rightarrow> string list \<Rightarrow> string \<Rightarrow> bool \<Rightarrow> string \<Rightarrow>
     alignment_map result" where
  "align solve source_model target_model prompts format source_layers target_layers method auto correspondence_method =
     (if prompts = [] then Inl (PyExc ValueErrorE ''calibration_prompts must not be empty.'')
      else if source_layers = [] \<or> target_layers = []
      then Inl (PyExc ValueErrorE ''source_layers and target_layers must not be empty.'')
      else if \<not> auto \<and> length source_layers \<noteq> length target_layers
      then Inl (PyExc ValueErrorE ''Source and target layer lists must match in length unless auto_correspondence=True.'')
      else bindE (collect source_model source_layers (map format prompts)) (\<lambda>source_acts.
           bindE (collect target_model target_layers (map format prompts)) (\<lambda>target_acts.
           bindE (paired_activation_dataset source_acts target_acts) (\<lambda>ds.
             if auto then auto_alignment_map solve ds target_model method correspondence_method
             else learn_alignment_map solve ds method 1))))"

section \<open>Behavioural deltas\<close>

record behavioral_delta =
  bd_layer_deltas :: "(string, mat) dict"
  bd_source_model_id :: string

definition extract_behavior_delta ::
    "lm \<Rightarrow> lm \<Rightarrow> string list \<Rightarrow> (string \<Rightarrow> string) \<Rightarrow> string list \<Rightarrow> behavioral_delta result" where
  "extract_behavior_delta base_model adapted_model prompts format layers =
     (if prompts = [] then Inl (PyExc ValueErrorE ''prompts must not be empty.'')
      else if layers = [] then Inl (PyExc ValueErrorE ''layers must not be empty.'')
      else bindE (collect base_model layers (map format prompts)) (\<lambda>base_acts.
           bindE (collect adapted_model layers (map format prompts)) (\<lambda>adapted_acts.
           bindE (foldE (\<lambda>layer d. bindE (dict_item adapted_acts layer) (\<lambda>a. bindE (dict_item base_acts layer) (\<lambda>b.
                    bindE (mat_sub a b) (\<lambda>delta. Inr (dict_set layer delta d))))) layers []) (\<lambda>deltas.
             Inr \<lparr>bd_layer_deltas = deltas, bd_source_model_id = lm_name base_model\<rparr>))))"

record transported_delta =
  td_layer_deltas :: "(string, mat) dict"
  td_target_model_id :: string

definition transport_delta :: "behavioral_delta \<Rightarrow> alignment_map \<Rightarrow> transported_delta result" where
  "transport_delta delta mapping =
     bindE (foldE (\<lambda>(layer, d_s) transported.
               if has_key (am_layer_maps mapping) layer
               then bindE (project_delta mapping layer d_s) (\<lambda>d_t. Inr (dict_set layer d_t transported))
               else Inr transported) (bd_layer_deltas delta) [])
       (\<lambda>transported. Inr \<lparr>td_layer_deltas = transported, td_target_model_id = am_target_model_id mapping\<rparr>)"

section \<open>Solving for weights\<close>

text \<open>A reconstruction error of \<open>None\<close> is the NaN or infinity of a division by a zero norm.\<close>

record adapter_solution =
  as_module_weights :: "(string, mat) dict"
  as_target_model_id :: string
  as_reconstruction_errors :: "(string, real option) dict"
  as_skipped_modules :: "string list"

definition reconstruction_error :: "mat \<Rightarrow> mat \<Rightarrow> real option result" where
  "reconstruction_error Y Y_pred =
     bindE (mat_sub Y Y_pred) (\<lambda>D. Inr (if sq_sum Y = 0 then None else Some (sqrt (sq_sum D) / sqrt (sq_sum Y))))"

definition solve_module ::
    "solver \<Rightarrow> (string, mat) dict \<Rightarrow> transported_delta \<Rightarrow> (string, string) dict option \<Rightarrow> bool \<Rightarrow> string \<Rightarrow>
     adapter_solution \<Rightarrow> adapter_solution result" where
  "solve_module solve inputs desired module_map strict mod_name sol =
     (let delta_key = (case module_map of Some (p # ps) \<Rightarrow> dict_get (p # ps) mod_name mod_name | _ \<Rightarrow> mod_name);
          skip = Inr (sol\<lparr>as_skipped_modules := as_skipped_modules sol @ [mod_name]\<rparr>)
      in case map_of inputs mod_name of
           None \<Rightarrow> if strict then Inl (PyExc ValueErrorE (''Activation not collected for module: '' @ mod_name)) else skip
         | Some X \<Rightarrow>
             (case map_of (td_layer_deltas desired) delta_key of
                None \<Rightarrow> if strict then Inl (PyExc ValueErrorE (''No transported delta found for key: '' @ delta_key)) else skip
              | Some Y \<Rightarrow>
                  bindE (solve_ridge solve X Y 1) (\<lambda>W. bindE (matmul X W) (\<lambda>Y_pred.
                  bindE (reconstruction_error Y Y_pred) (\<lambda>err.
                    Inr (sol\<lparr>as_module_weights := dict_set mod_name W (as_module_weights sol),
                             as_reconstruction_errors := dict_set mod_name err (as_reconstruction_errors sol)\<rparr>))))))"

definition solve_activation_adapter ::
    "solver \<Rightarrow> lm \<Rightarrow> transported_delta \<Rightarrow> string list \<Rightarrow> (string \<Rightarrow> string) \<Rightarrow> string list \<Rightarrow> (string, string) dict option \<Rightarrow>
     bool \<Rightarrow> adapter_solution result" where
  "solve_activation_adapter solve target_model desired prompts format target_modules module_map strict =
     (if prompts = [] then Inl (PyExc ValueErrorE ''prompts must not be empty.'')
      else if target_modules = [] then Inl (PyExc ValueErrorE ''target_modules must not be empty.'')
      else bindE (collect target_model target_modules (map format prompts)) (\<lambda>inputs.
           foldE (solve_module solve inputs desired module_map strict) target_modules
             \<lparr>as_module_weights = [], as_target_model_id = td_target_model_id desired, as_reconstruction_errors = [],
              as_skipped_modules = []\<rparr>))"

section \<open>Exporting LoRA factors\<close>

definition low_rank_decompose_for_peft :: "svd \<Rightarrow> mat \<Rightarrow> nat \<Rightarrow> mat \<times> mat" where
  "low_rank_decompose_for_peft svd W rank =
     (let (U, S, Vh) = svd W;
          U_r = take_cols rank U; S_r = take rank S; Vh_r = take_rows rank Vh
      in (mk (mt_cols U_r) (mt_rows U_r) (\<lambda>i j. sqrt (S_r ! i) * mt_at U_r j i),
          mk (mt_cols Vh_r) (mt_rows Vh_r) (\<lambda>i j. mt_at Vh_r j i * sqrt (S_r ! j))))"

definition build_peft_lora_key :: "string \<Rightarrow> string \<Rightarrow> string \<Rightarrow> string option \<Rightarrow> string \<Rightarrow> string result" where
  "build_peft_lora_key module_name which prefix adapter_name key_style =
     (if key_style = ''peft_default'' then Inr (prefix @ ''.'' @ module_name @ ''.lora_'' @ which @ ''.weight'')
      else if key_style = ''peft_named''
      then let name = (case adapter_name of Some (c # cs) \<Rightarrow> c # cs | _ \<Rightarrow> ''default'')
           in Inr (prefix @ ''.'' @ module_name @ ''.lora_'' @ which @ ''.'' @ name @ ''.weight'')
      else if key_style = ''raw'' then Inr (module_name @ ''.lora_'' @ which @ ''.weight'')
      else Inl (PyExc ValueErrorE (''Unknown key_style: '' @ key_style)))"

record peft_export =
  px_lora_state_dict :: "(string, mat) dict"
  px_target_modules :: "string list"
  px_rank :: nat
  px_lora_alpha :: int
  px_mean_error :: "real option"

definition mean_error :: "real option list \<Rightarrow> real option" where
  "mean_error es = (if None \<in> set es then None else Some (sum_list (map the es) / real (length es)))"

definition export_lora ::
    "svd \<Rightarrow> adapter_solution \<Rightarrow> nat \<Rightarrow> int option \<Rightarrow> string list option \<Rightarrow> string \<Rightarrow> string option \<Rightarrow> string \<Rightarrow> peft_export result" where
  "export_lora svd solution rank lora_alpha target_modules prefix adapter_name key_style =
     (if as_module_weights solution = []
      then Inl (PyExc RuntimeErrorE ''No modules were successfully solved in the solution.'')
      else bindE (foldE (\<lambda>(module_name, W) sd.
                    let (A, B) = low_rank_decompose_for_peft svd W rank
                    in bindE (build_peft_lora_key module_name ''A'' prefix adapter_name key_style) (\<lambda>key_a.
                       bindE (build_peft_lora_key module_name ''B'' prefix adapter_name key_style) (\<lambda>key_b.
                         Inr (dict_set key_b B (dict_set key_a A sd))))) (as_module_weights solution) []) (\<lambda>sd.
           if as_reconstruction_errors solution = []
           then Inl (PyExc ZeroDivisionErrorE ''division by zero'')
           else Inr \<lparr>px_lora_state_dict = sd,
                     px_target_modules = (case target_modules of Some (m # ms) \<Rightarrow> m # ms | _ \<Rightarrow> dict_keys (as_module_weights solution)),
                     px_rank = rank,
                     px_lora_alpha = (case lora_alpha of None \<Rightarrow> int rank * 2 | Some a \<Rightarrow> a),
                     px_mean_error = mean_error (map snd (as_reconstruction_errors solution))\<rparr>))"

section \<open>Ridge regression is optimal\<close>

text \<open>One column: if the normal equations hold for \<open>w\<close>, any other vector has a loss larger by
  two squares.\<close>

lemma ridge_column:
  fixes x :: "nat \<Rightarrow> nat \<Rightarrow> real" and R n :: nat
  assumes normal: "\<And>i. i < n \<Longrightarrow> (\<Sum>r<R. x r i * ((\<Sum>k<n. x r k * w k) - y r)) + alpha * w i = 0"
  shows "(\<Sum>r<R. ((\<Sum>i<n. x r i * (w i + d i)) - y r)\<^sup>2) + alpha * (\<Sum>i<n. (w i + d i)\<^sup>2)
    = (\<Sum>r<R. ((\<Sum>i<n. x r i * w i) - y r)\<^sup>2) + alpha * (\<Sum>i<n. (w i)\<^sup>2)
      + (\<Sum>r<R. (\<Sum>i<n. x r i * d i)\<^sup>2) + alpha * (\<Sum>i<n. (d i)\<^sup>2)"
proof -
  let ?p = "\<lambda>r. (\<Sum>k<n. x r k * w k) - y r" let ?q = "\<lambda>r. \<Sum>i<n. x r i * d i"
  have "(\<Sum>r<R. ?q r * ?p r) = (\<Sum>r<R. \<Sum>i<n. d i * (x r i * ?p r))" by (simp add: sum_distrib_right mult_ac)
  also have "\<dots> = (\<Sum>i<n. d i * (\<Sum>r<R. x r i * ?p r))" by (subst sum.swap) (simp add: sum_distrib_left)
  also have "\<dots> = (\<Sum>i<n. - alpha * (w i * d i))"
  proof (rule sum.cong)
    fix i assume "i \<in> {..<n}"
    then have "(\<Sum>r<R. x r i * ?p r) = - alpha * w i" using normal[of i] by simp
    then show "d i * (\<Sum>r<R. x r i * ?p r) = - alpha * (w i * d i)" by simp
  qed simp
  finally have cross: "(\<Sum>r<R. ?q r * ?p r) + alpha * (\<Sum>i<n. w i * d i) = 0"
    by (simp add: sum_negf sum_distrib_left)
  have "(\<Sum>i<n. x r i * (w i + d i)) - y r = ?p r + ?q r" for r by (simp add: distrib_left sum.distrib)
  moreover have "(?p r + ?q r)\<^sup>2 = (?p r)\<^sup>2 + (?q r)\<^sup>2 + 2 * (?q r * ?p r)" for r by (simp add: power2_sum mult_ac)
  ultimately have "(\<Sum>r<R. ((\<Sum>i<n. x r i * (w i + d i)) - y r)\<^sup>2)
      = (\<Sum>r<R. (?p r)\<^sup>2) + (\<Sum>r<R. (?q r)\<^sup>2) + 2 * (\<Sum>r<R. ?q r * ?p r)"
    by (simp only: sum.distrib sum_distrib_left)
  moreover have "alpha * (\<Sum>i<n. (w i + d i)\<^sup>2)
      = alpha * (\<Sum>i<n. (w i)\<^sup>2) + alpha * (\<Sum>i<n. (d i)\<^sup>2) + 2 * (alpha * (\<Sum>i<n. w i * d i))"
    by (simp add: power2_sum sum.distrib sum_distrib_left algebra_simps)
  ultimately show ?thesis using cross by linarith
qed

definition ridge_loss :: "mat \<Rightarrow> mat \<Rightarrow> real \<Rightarrow> mat \<Rightarrow> real" where
  "ridge_loss X Y alpha W =
     (\<Sum>j<mt_cols Y. (\<Sum>r<mt_rows X. ((\<Sum>i<mt_cols X. mt_at X r i * mt_at W i j) - mt_at Y r j)\<^sup>2)
                      + alpha * (\<Sum>i<mt_cols X. (mt_at W i j)\<^sup>2))"

text \<open>The law of the linear solver: what it returns solves the system.\<close>

definition solver_law :: "solver \<Rightarrow> bool" where
  "solver_law solve \<longleftrightarrow> (\<forall>M Z W. solve M Z = Inr W \<longrightarrow> mt_rows W = mt_cols M \<and> mt_cols W = mt_cols Z \<and> mat_mul M W = Z)"

lemma normal_equations:
  assumes law: "solver_law solve" and W: "solve_ridge solve X Y alpha = Inr W" and i: "i < mt_cols X" and j: "j < mt_cols Y"
  shows "(\<Sum>r<mt_rows X. mt_at X r i * ((\<Sum>k<mt_cols X. mt_at X r k * mt_at W k j) - mt_at Y r j)) + alpha * mt_at W i j = 0"
proof -
  have rows: "mt_rows X = mt_rows Y" using W by (auto simp: solve_ridge_def matmul_def mat_t_def split: if_splits)
  have eq: "solve (ridge_matrix X alpha) (mat_mul (mat_t X) Y) = Inr W"
    using W by (auto simp: solve_ridge_def matmul_def split: if_splits)
  then have shape: "mt_rows W = mt_cols X" "mt_cols W = mt_cols Y"
      and prod: "mat_mul (ridge_matrix X alpha) W = mat_mul (mat_t X) Y"
    using law by (auto simp: solver_law_def ridge_matrix_def)
  have "(\<Sum>k<mt_cols X. ((\<Sum>r<mt_rows X. mt_at X r i * mt_at X r k) + (if i = k then alpha else 0)) * mt_at W k j)
      = (\<Sum>r<mt_rows X. mt_at X r i * mt_at Y r j)"
    using arg_cong[OF prod, of "\<lambda>m. mt_at m i j"] i j shape by (simp add: mat_mul_def mat_t_def ridge_matrix_def)
  moreover have "(\<Sum>k<mt_cols X. (if i = k then alpha else 0) * mt_at W k j) = alpha * mt_at W i j"
    using i by (simp add: if_distrib[of "\<lambda>c. c * _"] sum.delta' cong: if_cong)
  moreover have "(\<Sum>k<mt_cols X. (\<Sum>r<mt_rows X. mt_at X r i * mt_at X r k) * mt_at W k j)
      = (\<Sum>r<mt_rows X. mt_at X r i * (\<Sum>k<mt_cols X. mt_at X r k * mt_at W k j))"
    by (simp add: sum_distrib_left sum_distrib_right mult.assoc) (rule sum.swap)
  ultimately show ?thesis by (simp add: distrib_right right_diff_distrib sum.distrib sum_subtractf)
qed

lemma ridge_optimal:
  assumes law: "solver_law solve" and W: "solve_ridge solve X Y alpha = Inr W" and "0 \<le> alpha"
  shows "ridge_loss X Y alpha W \<le> ridge_loss X Y alpha W'"
  unfolding ridge_loss_def
proof (rule sum_mono)
  fix j assume "j \<in> {..<mt_cols Y}"
  then have j: "j < mt_cols Y" by simp
  have W': "mt_at W' i j = mt_at W i j + (mt_at W' i j - mt_at W i j)" for i by simp
  have "0 \<le> (\<Sum>r<mt_rows X. (\<Sum>i<mt_cols X. mt_at X r i * (mt_at W' i j - mt_at W i j))\<^sup>2)"
      "0 \<le> alpha * (\<Sum>i<mt_cols X. (mt_at W' i j - mt_at W i j)\<^sup>2)"
    using assms(3) by (simp_all add: sum_nonneg)
  then show "(\<Sum>r<mt_rows X. ((\<Sum>i<mt_cols X. mt_at X r i * mt_at W i j) - mt_at Y r j)\<^sup>2) + alpha * (\<Sum>i<mt_cols X. (mt_at W i j)\<^sup>2)
      \<le> (\<Sum>r<mt_rows X. ((\<Sum>i<mt_cols X. mt_at X r i * mt_at W' i j) - mt_at Y r j)\<^sup>2) + alpha * (\<Sum>i<mt_cols X. (mt_at W' i j)\<^sup>2)"
    using ridge_column[where x = "mt_at X" and R = "mt_rows X" and n = "mt_cols X" and w = "\<lambda>i. mt_at W i j"
        and y = "\<lambda>r. mt_at Y r j" and alpha = alpha and d = "\<lambda>i. mt_at W' i j - mt_at W i j",
        OF normal_equations[OF law W _ j]] W' by simp
qed

section \<open>The solved adapter\<close>

definition delta_key_of :: "(string, string) dict option \<Rightarrow> string \<Rightarrow> string" where
  "delta_key_of module_map m = (case module_map of Some (p # ps) \<Rightarrow> dict_get (p # ps) m m | _ \<Rightarrow> m)"

text \<open>What a module's weights are solved from.\<close>

definition solved ::
    "solver \<Rightarrow> (string, mat) dict \<Rightarrow> transported_delta \<Rightarrow> (string, string) dict option \<Rightarrow> string \<Rightarrow> mat \<Rightarrow> bool" where
  "solved solve inputs desired module_map m W \<longleftrightarrow>
     (\<exists>X Y. map_of inputs m = Some X \<and> map_of (td_layer_deltas desired) (delta_key_of module_map m) = Some Y
        \<and> solve_ridge solve X Y 1 = Inr W)"

lemma solve_module_strict:
  assumes "solve_module solve inputs desired module_map True m sol = Inr sol'"
  shows "\<exists>W. solved solve inputs desired module_map m W
    \<and> as_module_weights sol' = dict_set m W (as_module_weights sol) \<and> as_skipped_modules sol' = as_skipped_modules sol"
  using assms by (fastforce simp: solve_module_def solved_def delta_key_of_def Let_def bindE_Inr_iff split: option.splits)

lemma solve_modules_strict:
  "foldE (solve_module solve inputs desired module_map True) ms sol = Inr sol' \<Longrightarrow>
   (\<forall>m W. map_of (as_module_weights sol) m = Some W \<longrightarrow> solved solve inputs desired module_map m W) \<Longrightarrow>
   (\<forall>m W. map_of (as_module_weights sol') m = Some W \<longrightarrow> solved solve inputs desired module_map m W)
   \<and> dom (map_of (as_module_weights sol')) = dom (map_of (as_module_weights sol)) \<union> set ms
   \<and> as_skipped_modules sol' = as_skipped_modules sol"
proof (induction ms arbitrary: sol)
  case (Cons m ms)
  obtain s1 where s1: "solve_module solve inputs desired module_map True m sol = Inr s1"
      "foldE (solve_module solve inputs desired module_map True) ms s1 = Inr sol'"
    using Cons.prems(1) by (auto simp: bindE_Inr_iff)
  obtain W where W: "solved solve inputs desired module_map m W"
      "as_module_weights s1 = dict_set m W (as_module_weights sol)" "as_skipped_modules s1 = as_skipped_modules sol"
    using solve_module_strict[OF s1(1)] by blast
  have "dom (map_of (as_module_weights s1)) = insert m (dom (map_of (as_module_weights sol)))"
    unfolding W(2) by (auto simp: dom_def)
  moreover have "\<forall>m W. map_of (as_module_weights s1) m = Some W \<longrightarrow> solved solve inputs desired module_map m W"
    using Cons.prems(2) W(1) unfolding W(2) by simp
  ultimately show ?case using Cons.IH[OF s1(2)] W(3) by auto
qed simp

text \<open>C27. In the strict mode the solved adapter covers exactly the modules asked for, and the weights of
  each are the best ridge fit: for the collected inputs of the module and the transported delta it is mapped
  to, no other weights have a smaller squared error plus squared size. The linear solver is assumed
  to solve what it solves.\<close>

theorem solved_adapter_optimal:
  assumes "solver_law solve"
    and "solve_activation_adapter solve target_model desired prompts format target_modules module_map True = Inr sol"
  shows "dom (map_of (as_module_weights sol)) = set target_modules \<and> as_skipped_modules sol = []
    \<and> (\<exists>inputs. collect target_model target_modules (map format prompts) = Inr inputs
        \<and> (\<forall>m W. map_of (as_module_weights sol) m = Some W \<longrightarrow>
              (\<exists>X Y. map_of inputs m = Some X \<and> map_of (td_layer_deltas desired) (delta_key_of module_map m) = Some Y
                 \<and> (\<forall>W'. ridge_loss X Y 1 W \<le> ridge_loss X Y 1 W'))))"
proof -
  obtain inputs where i: "collect target_model target_modules (map format prompts) = Inr inputs"
      "foldE (solve_module solve inputs desired module_map True) target_modules
         \<lparr>as_module_weights = [], as_target_model_id = td_target_model_id desired, as_reconstruction_errors = [],
          as_skipped_modules = []\<rparr> = Inr sol"
    using assms(2) by (auto simp: solve_activation_adapter_def bindE_Inr_iff split: if_splits)
  note r = solve_modules_strict[OF i(2), simplified]
  have "\<exists>X Y. map_of inputs m = Some X \<and> map_of (td_layer_deltas desired) (delta_key_of module_map m) = Some Y
      \<and> (\<forall>W'. ridge_loss X Y 1 W \<le> ridge_loss X Y 1 W')" if "map_of (as_module_weights sol) m = Some W" for m W
  proof -
    have "solved solve inputs desired module_map m W" using r that by blast
    then obtain X Y where "map_of inputs m = Some X" "map_of (td_layer_deltas desired) (delta_key_of module_map m) = Some Y"
        "solve_ridge solve X Y 1 = Inr W" unfolding solved_def by blast
    then show ?thesis using ridge_optimal[OF assms(1)] by simp
  qed
  then show ?thesis using r i(1) by blast
qed

section \<open>The exported factors\<close>

lemma low_rank_product:
  assumes law: "svd_of W (svd W)" and wf: "mat_wf W"
    and low: "\<forall>k < length (fst (snd (svd W))). rank \<le> k \<longrightarrow> fst (snd (svd W)) ! k = 0"
    and f: "low_rank_decompose_for_peft svd W rank = (A, B)"
  shows "mat_mul B A = mat_t W" "mt_cols A = mt_rows W" "mt_rows B = mt_cols W"
proof -
  obtain U S Vh where usv: "svd W = (U, S, Vh)" by (cases "svd W") auto
  have l: "mt_rows U = mt_rows W" "mt_cols U = length S" "mt_rows Vh = length S" "mt_cols Vh = mt_cols W" "\<forall>s\<in>set S. 0 \<le> s"
      "\<And>i j. i < mt_rows W \<Longrightarrow> j < mt_cols W \<Longrightarrow> mt_at W i j = (\<Sum>k<length S. mt_at U i k * S ! k * mt_at Vh k j)"
    using law by (auto simp: svd_of_def usv)
  have A: "A = mk (min rank (length S)) (mt_rows W) (\<lambda>i j. sqrt (take rank S ! i) * mt_at (take_cols rank U) j i)"
    and B: "B = mk (mt_cols W) (min rank (length S)) (\<lambda>i j. mt_at (take_rows rank Vh) j i * sqrt (take rank S ! j))"
    using f l(1-4) by (simp_all add: low_rank_decompose_for_peft_def usv Let_def)
  show "mt_cols A = mt_rows W" "mt_rows B = mt_cols W" by (simp_all add: A B)
  show "mat_mul B A = mat_t W"
  proof (rule mat_eqI)
    fix i j assume "i < mt_rows (mat_mul B A)" "j < mt_cols (mat_mul B A)"
    then have ij: "i < mt_cols W" "j < mt_rows W" by (simp_all add: A B)
    have "mt_at (mat_mul B A) i j = (\<Sum>k<min rank (length S). mt_at B i k * mt_at A k j)"
      using ij by (simp add: mat_mul_def A B)
    also have "\<dots> = (\<Sum>k<min rank (length S). mt_at U j k * S ! k * mt_at Vh k i)"
    proof (rule sum.cong)
      fix k assume "k \<in> {..<min rank (length S)}"
      then have k: "k < rank" "k < length S" by auto
      then have "sqrt (S ! k) * sqrt (S ! k) = S ! k" using l(5) by simp
      then show "mt_at B i k * mt_at A k j = mt_at U j k * S ! k * mt_at Vh k i"
        using k ij l(1-4) by (simp add: A B take_cols_def take_rows_def mult_ac)
    qed simp
    also have "\<dots> = (\<Sum>k<length S. mt_at U j k * S ! k * mt_at Vh k i)"
      by (rule sum.mono_neutral_left) (use low in \<open>auto simp: usv\<close>)
    finally show "mt_at (mat_mul B A) i j = mt_at (mat_t W) i j" using l(6) ij by (simp add: mat_t_def)
  qed (simp_all add: A B mat_t_def)
qed

text \<open>Instances for the examples: a solver that returns its trial solution when that solves a \<open>1 \<times> 1\<close> system, a model
  with one module, and the decomposition of a \<open>1 \<times> 1\<close> matrix.\<close>

definition trial_solver :: solver where
  "trial_solver M Z =
     (let W = mk 1 1 (\<lambda>_ _. mt_at Z 0 0 / mt_at M 0 0)
      in if mt_cols M = 1 \<and> mt_cols Z = 1 \<and> mat_mul M W = Z then Inr W
         else Inl (PyExc RuntimeErrorE ''linalg.solve: the solver failed''))"

lemma trial_solver_law: "solver_law trial_solver"
  by (auto simp: solver_law_def trial_solver_def Let_def)

definition one_module :: "string \<Rightarrow> string \<Rightarrow> real \<Rightarrow> lm" where
  "one_module name m x = \<lparr>lm_name = name, lm_run = (\<lambda>_. Inr [(m, mk 1 1 (\<lambda>_ _. x))])\<rparr>"

lemma collect_one_module: "collect (one_module name m x) [m] [t] = Inr [(m, mk 1 1 (\<lambda>_ _. x))]"
  by (simp add: collect_def collect_texts_def one_module_def dict_of_def add_activation_def dict_get_def get_stacked_def)

lemma scalar_products:
  "mat_mul (mk 1 1 (\<lambda>_ _. a)) (mk 1 1 (\<lambda>_ _. b)) = mk 1 1 (\<lambda>_ _. a * b)" "mat_t (mk 1 1 (\<lambda>_ _. a)) = mk 1 1 (\<lambda>_ _. a)"
  "ridge_matrix (mk 1 1 (\<lambda>_ _. a)) alpha = mk 1 1 (\<lambda>_ _. a * a + alpha)"
  by (rule mat_eqI; simp add: mat_mul_def mat_t_def ridge_matrix_def)+

lemma solve_ridge_scalar:
  assumes "x * x + alpha \<noteq> 0"
  shows "solve_ridge trial_solver (mk 1 1 (\<lambda>_ _. x)) (mk 1 1 (\<lambda>_ _. y)) alpha = Inr (mk 1 1 (\<lambda>_ _. x * y / (x * x + alpha)))"
proof -
  have "matmul (mat_t (mk 1 1 (\<lambda>_ _. x))) (mk 1 1 (\<lambda>_ _. y)) = Inr (mk 1 1 (\<lambda>_ _. x * y))"
    unfolding scalar_products by (simp add: matmul_def scalar_products del: One_nat_def)
  then show ?thesis
    using assms by (simp add: solve_ridge_def scalar_products trial_solver_def Let_def del: One_nat_def)
qed

lemma solved_adapter_optimal_witness:
  "\<exists>sol. solve_activation_adapter trial_solver (one_module ''t'' ''m'' 1)
        \<lparr>td_layer_deltas = [(''m'', mk 1 1 (\<lambda>_ _. 4))], td_target_model_id = ''t''\<rparr> [''p''] id [''m''] None True = Inr sol
     \<and> dom (map_of (as_module_weights sol)) = set [''m'']"
proof -
  let ?td = "\<lparr>td_layer_deltas = [(''m'', mk 1 1 (\<lambda>_ _. 4))], td_target_model_id = ''t''\<rparr>"
  have "\<exists>sol. solve_activation_adapter trial_solver (one_module ''t'' ''m'' 1) ?td [''p''] id [''m''] None True = Inr sol"
    using collect_one_module[of "''t''" "''m''" 1 "''p''"]
    by (simp add: solve_activation_adapter_def solve_module_def solve_ridge_scalar matmul_def reconstruction_error_def mat_sub_def
             Let_def del: One_nat_def)
  then obtain sol where "solve_activation_adapter trial_solver (one_module ''t'' ''m'' 1) ?td [''p''] id [''m''] None True = Inr sol"
    by blast
  with solved_adapter_optimal[OF trial_solver_law this] show ?thesis by blast
qed

section \<open>The exported adapter\<close>

definition peft_key :: "string \<Rightarrow> string \<Rightarrow> string \<Rightarrow> string" where
  "peft_key prefix m which = prefix @ ''.'' @ m @ ''.lora_'' @ which @ ''.weight''"

lemma peft_key_eq:
  "length w = length w' \<Longrightarrow> peft_key prefix m w = peft_key prefix m' w' \<longleftrightarrow> m = m' \<and> w = w'"
  by (auto simp: peft_key_def append_eq_append_conv)

lemma default_lora_key: "build_peft_lora_key m which prefix a ''peft_default'' = Inr (peft_key prefix m which)"
  by (simp add: build_peft_lora_key_def peft_key_def)

lemma export_fold:
  assumes "foldE (\<lambda>(m, W) sd. case dec W of (A, B) \<Rightarrow>
      Inr (dict_set (peft_key prefix m ''B'') B (dict_set (peft_key prefix m ''A'') A sd))) ws sd = Inr sd'"
    and "distinct (map fst ws)"
  shows "map_of sd' (peft_key prefix m ''A'') = (case map_of ws m of Some W \<Rightarrow> Some (fst (dec W)) | None \<Rightarrow> map_of sd (peft_key prefix m ''A''))
    \<and> map_of sd' (peft_key prefix m ''B'') = (case map_of ws m of Some W \<Rightarrow> Some (snd (dec W)) | None \<Rightarrow> map_of sd (peft_key prefix m ''B''))"
  using assms
proof (induction ws arbitrary: sd)
  case (Cons mw ws)
  obtain m' W A B where mw: "mw = (m', W)" "dec W = (A, B)" by (metis surj_pair)
  have "map_of ws m' = None" using Cons.prems(2) mw(1) by (simp add: map_of_eq_None_iff)
  then show ?case using Cons.IH[of "dict_set (peft_key prefix m' ''B'') B (dict_set (peft_key prefix m' ''A'') A sd)"] Cons.prems mw
    by (auto simp: peft_key_eq split: option.splits)
qed simp

text \<open>The exported factors reproduce what was solved: when the rank suffices for every module (the singular values
  from the rank on vanish), the two factors stored under the module's keys multiply to the solved weights, and
  the update an adapter of this configuration makes, alpha over rank times that product, is the
  solved one times the chosen alpha over the rank: twice the solved one, when no alpha is given.\<close>

theorem exported_adapter_reproduces_solution:
  assumes "\<forall>m W. map_of (as_module_weights sol) m = Some W \<longrightarrow>
      mat_wf W \<and> svd_of W (svd W) \<and> (\<forall>k < length (fst (snd (svd W))). rank \<le> k \<longrightarrow> fst (snd (svd W)) ! k = 0)"
    and "distinct (dict_keys (as_module_weights sol))" and "0 < rank"
    and "export_lora svd sol rank lora_alpha targets prefix adapter_name ''peft_default'' = Inr px"
    and "map_of (as_module_weights sol) m = Some W"
  shows "\<exists>A B. map_of (px_lora_state_dict px) (prefix @ ''.'' @ m @ ''.lora_A.weight'') = Some A
    \<and> map_of (px_lora_state_dict px) (prefix @ ''.'' @ m @ ''.lora_B.weight'') = Some B
    \<and> mat_mul B A = mat_t W
    \<and> mat_scale (real_of_int (px_lora_alpha px) / real (px_rank px)) (mat_mul B A)
      = mat_scale (case lora_alpha of None \<Rightarrow> 2 | Some a \<Rightarrow> real_of_int a / real rank) (mat_t W)"
proof -
  let ?dec = "\<lambda>W. low_rank_decompose_for_peft svd W rank"
  have sd: "foldE (\<lambda>(m, W) sd. case ?dec W of (A, B) \<Rightarrow>
      Inr (dict_set (peft_key prefix m ''B'') B (dict_set (peft_key prefix m ''A'') A sd))) (as_module_weights sol) []
      = (Inr (px_lora_state_dict px) :: (string, mat) dict result)"
    and px: "px_rank px = rank" "px_lora_alpha px = (case lora_alpha of None \<Rightarrow> int rank * 2 | Some a \<Rightarrow> a)"
    using assms(4) by (auto simp: export_lora_def bindE_Inr_iff default_lora_key case_prod_beta split: if_splits)
  obtain A B where AB: "?dec W = (A, B)" by fastforce
  have "map_of (px_lora_state_dict px) (peft_key prefix m ''A'') = Some A" "map_of (px_lora_state_dict px) (peft_key prefix m ''B'') = Some B"
    using export_fold[OF sd assms(2)] assms(5) AB by simp_all
  moreover have "mat_mul B A = mat_t W"
    using low_rank_product(1)[where svd = svd] assms(1,5) AB by blast
  ultimately show ?thesis using px assms(3) by (auto simp: peft_key_def split: option.split)
qed

lemma exported_adapter_reproduces_solution_witness:
  "\<exists>px A B. export_lora (\<lambda>W. (mk 1 1 (\<lambda>_ _. 1), [4], mk 1 1 (\<lambda>_ _. 1)))
        \<lparr>as_module_weights = [(''m'', mk 1 1 (\<lambda>_ _. 4))], as_target_model_id = ''t'', as_reconstruction_errors = [(''m'', Some 0)],
         as_skipped_modules = []\<rparr> 1 None None ''base'' None ''peft_default'' = Inr px
     \<and> map_of (px_lora_state_dict px) ''base.m.lora_A.weight'' = Some A
     \<and> map_of (px_lora_state_dict px) ''base.m.lora_B.weight'' = Some B \<and> mat_mul B A = mat_t (mk 1 1 (\<lambda>_ _. 4))"
proof -
  let ?svd = "\<lambda>W. (mk 1 1 (\<lambda>_ _. 1), [4], mk 1 1 (\<lambda>_ _. 1))"
  let ?sol = "\<lparr>as_module_weights = [(''m'', mk 1 1 (\<lambda>_ _. 4))], as_target_model_id = ''t'', as_reconstruction_errors = [(''m'', Some 0)],
     as_skipped_modules = []\<rparr>"
  have e: "\<exists>px. export_lora ?svd ?sol 1 None None ''base'' None ''peft_default'' = Inr px"
    by (simp add: export_lora_def default_lora_key case_prod_beta)
  have law: "\<forall>m W. map_of (as_module_weights ?sol) m = Some W \<longrightarrow>
      mat_wf W \<and> svd_of W (?svd W) \<and> (\<forall>k < length (fst (snd (?svd W))). 1 \<le> k \<longrightarrow> fst (snd (?svd W)) ! k = 0)"
    by (simp add: svd_of_def)
  have m: "map_of (as_module_weights ?sol) ''m'' = Some (mk 1 1 (\<lambda>_ _. 4))" and d: "distinct (dict_keys (as_module_weights ?sol))"
    by simp_all
  from e obtain px where px: "export_lora ?svd ?sol 1 None None ''base'' None ''peft_default'' = Inr px" by blast
  show ?thesis using exported_adapter_reproduces_solution[OF law d zero_less_one px m] px by auto
qed

section \<open>Automatic correspondence\<close>

lemma add_activation_keys: "dom (map_of (add_activation ts nd acts)) \<subseteq> dom (map_of acts) \<union> set ts"
  by (auto simp: add_activation_def split: if_splits)

lemma fold_activation_keys: "dom (map_of acts) \<subseteq> set ts \<Longrightarrow> dom (map_of (fold (add_activation ts) outs acts)) \<subseteq> set ts"
proof (induction outs arbitrary: acts)
  case (Cons nd outs)
  have "dom (map_of (add_activation ts nd acts)) \<subseteq> set ts" using add_activation_keys[of ts nd acts] Cons.prems by blast
  then show ?case using Cons.IH by simp
qed simp

lemma foldE_keys:
  assumes "foldE f xs s = Inr t" and "\<And>x u v. x \<in> set xs \<Longrightarrow> f x u = Inr v \<Longrightarrow> K v \<subseteq> insert (key x) (K u)"
  shows "K t \<subseteq> K s \<union> key ` set xs"
  using assms
proof (induction xs arbitrary: s)
  case (Cons x xs)
  obtain u where u: "f x s = Inr u" "foldE f xs u = Inr t" using Cons.prems(1) by (auto simp: bindE_Inr_iff)
  have "K u \<subseteq> insert (key x) (K s)" using Cons.prems(2)[OF _ u(1)] by simp
  moreover have "K t \<subseteq> K u \<union> key ` set xs" using Cons.IH[OF u(2)] Cons.prems(2) by simp
  ultimately show ?case by auto
qed simp

lemma get_stacked_keys:
  assumes "get_stacked acts = Inr d"
  shows "dom (map_of d) \<subseteq> dom (map_of acts)"
  by (rule order_trans[OF foldE_keys[where K = "\<lambda>d. dom (map_of d)" and key = fst, OF assms[unfolded get_stacked_def]]])
    (auto simp: bindE_Inr_iff dom_map_of_conv_image_fst[of acts] split: list.splits if_splits)

lemma collect_keys:
  assumes "collect model ts texts = Inr d"
  shows "dom (map_of d) \<subseteq> set ts"
proof -
  obtain acts where a: "collect_texts model ts texts = Inr acts" "get_stacked acts = Inr d"
    using assms by (auto simp: collect_def bindE_Inr_iff)
  have "map_of (dict_of (map (\<lambda>m. (m, [] :: mat list)) ts)) k = None" if "k \<notin> set ts" for k
    using that by (auto simp: dict_of_def map_of_foldl_set map_of_eq_None_iff split: option.split dest!: map_of_SomeD)
  then have "dom (map_of (dict_of (map (\<lambda>m. (m, [] :: mat list)) ts))) \<subseteq> set ts" by (metis domIff subsetI)
  then have "dom (map_of acts) \<subseteq> set ts"
    by (rule foldE_invariant[OF a(1)[unfolded collect_texts_def]]) (use fold_activation_keys in \<open>simp add: bindE_Inr_iff, blast\<close>)
  then show ?thesis using get_stacked_keys[OF a(2)] by blast
qed

lemma correspondence_keys:
  assumes "estimate_layer_correspondence ds method k = Inr co"
  shows "dom (map_of (co_target_to_source co)) \<subseteq> dom (map_of (pd_target ds))"
proof (rule order_trans[OF foldE_keys[where K = "\<lambda>co. dom (map_of (co_target_to_source co))" and key = fst,
        OF assms[unfolded estimate_layer_correspondence_def]]], goal_cases)
  case (1 t u v)
  then obtain scores where "layer_scores ds method (snd t) = Inr scores" by (auto simp: bindE_Inr_iff case_prod_beta)
  with 1 show ?case by (cases "sort_key (\<lambda>p. - snd p) scores") (auto simp: case_prod_beta Let_def split: if_splits)
qed (simp add: dom_map_of_conv_image_fst)

lemma auto_map_keys:
  assumes "auto_alignment_map solve ds model method cm = Inr am"
  shows "dom (map_of (am_layer_maps am)) \<subseteq> dom (map_of (pd_target ds))" "am_target_model_id am = lm_name model"
proof -
  obtain co where co: "estimate_layer_correspondence ds cm 3 = Inr co"
    and f: "foldE (\<lambda>(t_layer, s_layer) maps.
               bindE (dict_item (pd_source ds) s_layer) (\<lambda>X. bindE (dict_item (pd_target ds) t_layer) (\<lambda>Y.
               bindE (solve_ridge solve X Y 1) (\<lambda>P. Inr (dict_set t_layer P maps)))))
             (co_target_to_source co) [] = Inr (am_layer_maps am)"
    and "am_target_model_id am = lm_name model"
    using assms by (auto simp: auto_alignment_map_def bindE_Inr_iff)
  show "am_target_model_id am = lm_name model" by fact
  have "dom (map_of (am_layer_maps am)) \<subseteq> fst ` set (co_target_to_source co)"
    by (rule order_trans[OF foldE_keys[where K = "\<lambda>m. dom (map_of m)" and key = fst, OF f]])
      (auto simp: bindE_Inr_iff split: if_splits)
  then show "dom (map_of (am_layer_maps am)) \<subseteq> dom (map_of (pd_target ds))"
    using correspondence_keys[OF co] by (simp add: dom_map_of_conv_image_fst)
qed

lemma transport_disjoint:
  assumes "set (dict_keys (bd_layer_deltas d)) \<inter> dom (map_of (am_layer_maps am)) = {}"
  shows "transport_delta d am = Inr \<lparr>td_layer_deltas = [], td_target_model_id = am_target_model_id am\<rparr>"
proof -
  have "foldE (\<lambda>(layer, d_s) transported.
               if has_key (am_layer_maps am) layer
               then bindE (project_delta am layer d_s) (\<lambda>d_t. Inr (dict_set layer d_t transported))
               else Inr transported) ps t = Inr t" if "set (dict_keys ps) \<inter> dom (map_of (am_layer_maps am)) = {}" for ps t
    using that by (induction ps arbitrary: t) (auto simp: has_key_def split: if_splits)
  then show ?thesis using assms by (simp add: transport_delta_def)
qed

lemma delta_keys:
  assumes "extract_behavior_delta base adapted prompts format layers = Inr d"
  shows "dom (map_of (bd_layer_deltas d)) \<subseteq> set layers"
proof -
  obtain as bs where f: "foldE (\<lambda>layer d. bindE (dict_item as layer) (\<lambda>a. bindE (dict_item bs layer) (\<lambda>b.
                    bindE (mat_sub a b) (\<lambda>delta. Inr (dict_set layer delta d))))) layers [] = Inr (bd_layer_deltas d)"
    using assms by (auto simp: extract_behavior_delta_def bindE_Inr_iff split: if_splits)
  show ?thesis
    by (rule order_trans[OF foldE_keys[where K = "\<lambda>d. dom (map_of d)" and key = id, OF f]])
      (auto simp: bindE_Inr_iff split: if_splits)
qed

lemma strict_needs_delta:
  assumes "td_layer_deltas td = []"
  shows "\<exists>e. solve_activation_adapter solve model td prompts format modules module_map True = Inl e"
proof (cases "solve_activation_adapter solve model td prompts format modules module_map True")
  case (Inr sol)
  then obtain inputs m ms where "foldE (solve_module solve inputs td module_map True) (m # ms)
      \<lparr>as_module_weights = [], as_target_model_id = td_target_model_id td, as_reconstruction_errors = [],
       as_skipped_modules = []\<rparr> = Inr sol"
    by (cases modules) (auto simp: solve_activation_adapter_def bindE_Inr_iff simp del: foldE.simps split: if_splits)
  then show ?thesis using assms by (auto simp: bindE_Inr_iff solve_module_def Let_def split: option.splits)
qed blast

text \<open>With automatic correspondence the maps are keyed by target layers, but the transport looks them up by the
  name of the source layer: for lists of layers without a common name the transported delta of any
  adapter is empty, without an error, and every strict solution for it fails. The key semantics that the map
  records is read nowhere.\<close>

theorem auto_correspondence_transports_nothing:
  assumes "align solve source_model target_model prompts format source_layers target_layers method True cm = Inr am"
    and "extract_behavior_delta base adapted prompts' format' source_layers = Inr d"
    and "set source_layers \<inter> set target_layers = {}"
  shows "transport_delta d am = Inr \<lparr>td_layer_deltas = [], td_target_model_id = lm_name target_model\<rparr>
    \<and> (\<forall>texts form modules module_map. \<exists>e. solve_activation_adapter solve target_model
          \<lparr>td_layer_deltas = [], td_target_model_id = lm_name target_model\<rparr> texts form modules module_map True = Inl e)"
proof -
  obtain sa ta ds where *: "collect target_model target_layers (map format prompts) = Inr ta"
      "paired_activation_dataset sa ta = Inr ds" "auto_alignment_map solve ds target_model method cm = Inr am"
    using assms(1) by (auto simp: align_def bindE_Inr_iff split: if_splits)
  have "pd_target ds = ta" using *(2) by (auto simp: paired_activation_dataset_def bindE_Inr_iff)
  then have "dom (map_of (am_layer_maps am)) \<subseteq> set target_layers" and id: "am_target_model_id am = lm_name target_model"
    using auto_map_keys[OF *(3)] collect_keys[OF *(1)] by auto
  then have "dom (map_of (bd_layer_deltas d)) \<inter> dom (map_of (am_layer_maps am)) = {}"
    using delta_keys[OF assms(2)] assms(3) by blast
  then have "set (dict_keys (bd_layer_deltas d)) \<inter> dom (map_of (am_layer_maps am)) = {}"
    by (simp add: dom_map_of_conv_image_fst)
  from transport_disjoint[OF this] id show ?thesis using strict_needs_delta by simp
qed

lemma auto_correspondence_transports_nothing_witness:
  "\<exists>am d. align trial_solver (one_module ''s'' ''a'' 2) (one_module ''t'' ''b'' 3) [''p''] id [''a''] [''b''] ''ridge'' True ''linear_cka''
        = Inr am
     \<and> extract_behavior_delta (one_module ''s'' ''a'' 2) (one_module ''s'' ''a'' 5) [''p''] id [''a''] = Inr d
     \<and> am_layer_maps am \<noteq> [] \<and> bd_layer_deltas d \<noteq> []
     \<and> transport_delta d am = Inr \<lparr>td_layer_deltas = [], td_target_model_id = ''t''\<rparr>"
proof -
  have z: "centered_gram (mk 1 1 (\<lambda>_ _. x)) = mk 1 1 (\<lambda>_ _. 0)" for x
    by (rule mat_eqI) (simp_all add: centered_gram_def center_columns_def center_gram_def centering_def Let_def mat_mul_def mat_t_def)
  have cka: "gram_linear_cka (mk 1 1 (\<lambda>_ _. x)) (mk 1 1 (\<lambda>_ _. y)) = Inr 0" for x y
    unfolding gram_linear_cka_def z by (simp add: sq_sum_def)
  have a: "align trial_solver (one_module ''s'' ''a'' 2) (one_module ''t'' ''b'' 3) [''p''] id [''a''] [''b''] ''ridge'' True ''linear_cka''
      = Inr \<lparr>am_layer_maps = [(''b'', mk 1 1 (\<lambda>_ _. 6 / 5))], am_target_model_id = ''t'', am_method = ''ridge'',
             am_map_key_semantics = ''target_layer''\<rparr>"
    using collect_one_module[of "''s''" "''a''" 2 "''p''"] collect_one_module[of "''t''" "''b''" 3 "''p''"]
    by (simp add: align_def paired_activation_dataset_def auto_alignment_map_def estimate_layer_correspondence_def
        layer_scores_def cka Let_def dict_item_def solve_ridge_scalar one_module_def[of _ _ 3] del: One_nat_def)
  have d: "extract_behavior_delta (one_module ''s'' ''a'' 2) (one_module ''s'' ''a'' 5) [''p''] id [''a'']
      = Inr \<lparr>bd_layer_deltas = [(''a'', mk 1 1 (\<lambda>i j. mt_at (mk 1 1 (\<lambda>_ _. 5)) i j - mt_at (mk 1 1 (\<lambda>_ _. 2)) i j))],
             bd_source_model_id = ''s''\<rparr>"
    using collect_one_module[of "''s''" "''a''" 2 "''p''"] collect_one_module[of "''s''" "''a''" 5 "''p''"]
    by (simp add: extract_behavior_delta_def dict_item_def mat_sub_def one_module_def del: One_nat_def)
  have "set [''a''] \<inter> set [''b''] = {}" by simp
  from auto_correspondence_transports_nothing[OF a d this] show ?thesis using a d by (simp add: one_module_def)
qed

end
