(* ===== verification/Compression.thy ===== *)
theory Compression
  imports Transplant
begin

text \<open>
  Task vectors and their compression (core/math.py): trimming by a quantile, sparsity that preserves a share of the
  energy, the randomised decomposition with its stopping rule, piecewise component projection, head pooling, decoding of
  quantized tensors and the mapping of routers, with the head routing helpers of core/adapters.py. Sparse
  formats are left out: a sparse tensor is its entries. The
  random blocks, the QR factor and the singular value decomposition are parameters; numbers are exact.
\<close>

section \<open>Task vectors\<close>

definition entries :: "mat \<Rightarrow> real list" where
  "entries m = concat (map (\<lambda>i. map (mt_at m i) [0..<mt_cols m]) [0..<mt_rows m])"

text \<open>\<open>tau * mask\<close> for the entries of at least a magnitude.\<close>

definition keep_large :: "real \<Rightarrow> mat \<Rightarrow> mat" where
  "keep_large threshold tau = mk (mt_rows tau) (mt_cols tau) (\<lambda>i j. if threshold \<le> \<bar>mt_at tau i j\<bar> then mt_at tau i j else 0)"

text \<open>\<open>torch.quantile\<close> interpolates linearly between the sorted values.\<close>

definition quantile :: "real list \<Rightarrow> real \<Rightarrow> real result" where
  "quantile xs q =
     (if xs = [] then Inl (PyExc RuntimeErrorE ''quantile() input tensor must be non-empty'')
      else let ys = sort xs; pos = q * real (length xs - 1); lo = nat \<lfloor>pos\<rfloor>; hi = nat \<lceil>pos\<rceil>
           in Inr (ys ! lo + (ys ! hi - ys ! lo) * (pos - real lo)))"

definition create_sparse_task_vector :: "mat \<Rightarrow> mat \<Rightarrow> real \<Rightarrow> mat result" where
  "create_sparse_task_vector W_trained W_base trim_ratio =
     (if (mt_rows W_trained, mt_cols W_trained) \<noteq> (mt_rows W_base, mt_cols W_base)
      then Inl (PyExc ValueErrorE ''W_trained and W_base must have the same shape.'')
      else if \<not> (0 \<le> trim_ratio \<and> trim_ratio < 1) then Inl (PyExc ValueErrorE ''trim_ratio must be in [0, 1).'')
      else bindE (mat_sub W_trained W_base) (\<lambda>tau.
           if 0 < trim_ratio
           then bindE (quantile (map abs (entries tau)) trim_ratio) (\<lambda>threshold. Inr (keep_large threshold tau))
           else Inr tau))"

text \<open>\<open>torch.sort(descending=True)\<close>, \<open>torch.cumsum\<close> and \<open>torch.searchsorted\<close>: the first
  position whose sum reaches the value.\<close>

definition sorted_energy :: "mat \<Rightarrow> real list" where
  "sorted_energy tau = rev (sort (map (\<lambda>x. \<bar>x\<bar>\<^sup>2) (entries tau)))"

definition cum_energy :: "real list \<Rightarrow> nat \<Rightarrow> real" where
  "cum_energy es k = sum_list (take (k + 1) es)"

definition first_reaching :: "real list \<Rightarrow> real \<Rightarrow> nat" where
  "first_reaching es v = length (takeWhile (\<lambda>k. cum_energy es k < v) [0..<length es])"

definition adaptive_variance_preserving_sparsity :: "mat \<Rightarrow> mat \<Rightarrow> real \<Rightarrow> mat result" where
  "adaptive_variance_preserving_sparsity W_tuned W_base variance_preservation =
     bindE (mat_sub W_tuned W_base) (\<lambda>tau.
       let es = sorted_energy tau;
           idx = first_reaching es (sum_list (map (\<lambda>x. \<bar>x\<bar>\<^sup>2) (entries tau)) * variance_preservation);
           idx = (if length es \<le> idx then length es - 1 else idx)
       in if es = [] then Inl (PyExc IndexErrorE ''index -1 is out of bounds for dimension 0 with size 0'')
          else Inr (keep_large (sqrt (es ! idx)) tau))"

section \<open>Randomised decomposition\<close>

definition hcat :: "mat \<Rightarrow> mat \<Rightarrow> mat" where
  "hcat a b = mk (mt_rows a) (mt_cols a + mt_cols b) (\<lambda>i j. if j < mt_cols a then mt_at a i j else mt_at b i (j - mt_cols a))"

definition minus_mat :: "mat \<Rightarrow> mat \<Rightarrow> mat" where
  "minus_mat a b = mk (mt_rows a) (mt_cols a) (\<lambda>i j. mt_at a i j - mt_at b i j)"

definition orthogonalise :: "mat \<Rightarrow> mat \<Rightarrow> mat" where
  "orthogonalise Q Y =
     (let Y = minus_mat Y (mat_mul Q (mat_mul (mat_t Q) Y)) in minus_mat Y (mat_mul Q (mat_mul (mat_t Q) Y)))"

text \<open>The global decomposition over the accumulated basis.\<close>

definition subspace_svd :: "svd \<Rightarrow> mat \<Rightarrow> mat \<Rightarrow> mat \<times> real list \<times> mat" where
  "subspace_svd svd M Q = (let (U_b, S, V) = svd (mat_t (mat_mul (mat_t M) Q)) in (mat_mul Q U_b, S, V))"

fun rsvd_blocks ::
    "svd \<Rightarrow> (mat \<Rightarrow> mat) \<Rightarrow> (nat \<Rightarrow> mat) \<Rightarrow> mat \<Rightarrow> real \<Rightarrow> nat \<Rightarrow> nat \<Rightarrow> real \<Rightarrow> mat \<Rightarrow> (mat \<times> real list \<times> mat) \<Rightarrow>
     (mat \<times> real list \<times> mat) result" where
  "rsvd_blocks svd qr omega M epsilon 0 k sigma_1 Q_total total_svd = Inr total_svd"
| "rsvd_blocks svd qr omega M epsilon (Suc left) k sigma_1 Q_total total_svd =
     (let Q_new = qr (orthogonalise Q_total (mat_mul M (omega k)));
          (_, S_b, _) = svd (mat_t (mat_mul (mat_t M) Q_new))
      in case S_b of
           [] \<Rightarrow> Inl (PyExc IndexErrorE ''index 0 is out of bounds for dimension 0 with size 0'')
         | sigma_new # _ \<Rightarrow>
             if sigma_1 = 0 then Inl (PyExc ZeroDivisionErrorE ''float division by zero'')
             else if sigma_new / sigma_1 < epsilon then Inr total_svd
             else let Q = hcat Q_total Q_new
                  in rsvd_blocks svd qr omega M epsilon left (k + 1) sigma_1 Q (subspace_svd svd M Q))"

definition adaptive_rsvd_bootstrap ::
    "svd \<Rightarrow> (mat \<Rightarrow> mat) \<Rightarrow> (nat \<Rightarrow> mat) \<Rightarrow> mat \<Rightarrow> real \<Rightarrow> nat \<Rightarrow> (mat \<times> real list \<times> mat) result" where
  "adaptive_rsvd_bootstrap svd qr omega M epsilon max_blocks =
     (case max_blocks of
        0 \<Rightarrow> Inl (PyExc OtherExceptionE ''cannot access local variable U_total'')
      | Suc left \<Rightarrow>
          (let Q = qr (mat_mul M (omega 0)); (_, S_b, _) = svd (mat_t (mat_mul (mat_t M) Q))
           in case S_b of
                [] \<Rightarrow> Inl (PyExc IndexErrorE ''index 0 is out of bounds for dimension 0 with size 0'')
              | sigma_1 # _ \<Rightarrow> rsvd_blocks svd qr omega M epsilon left 1 sigma_1 Q (subspace_svd svd M Q)))"

section \<open>Components, heads and decoding\<close>

definition piecewise_svd_projection ::
    "svd \<Rightarrow> mat \<Rightarrow> nat \<Rightarrow> real \<Rightarrow> real \<Rightarrow> real \<Rightarrow> real \<Rightarrow> real \<Rightarrow> mat \<times> real list \<times> mat" where
  "piecewise_svd_projection svd W_delta r_target high_energy_ratio mid_energy_ratio high_scale mid_scale low_scale =
     (let (U, S, Vh) = svd W_delta;
          num_s = length S;
          k_high = max 1 (nat \<lfloor>real num_s * high_energy_ratio\<rfloor>);
          k_mid = max 1 (nat \<lfloor>real num_s * mid_energy_ratio\<rfloor>);
          S_new = map (\<lambda>i. S ! i * (if i < k_high then high_scale else if i < k_high + k_mid then mid_scale else low_scale)) [0..<num_s]
      in (take_cols r_target U, take r_target S_new, take_rows r_target Vh))"

text \<open>Three-dimensional tensors by their sizes and entries.\<close>

record tensor3 =
  t3_shape :: "nat \<times> nat \<times> nat"
  t3_at :: "nat \<Rightarrow> nat \<Rightarrow> nat \<Rightarrow> real"

definition soft_routing_head_pooling :: "svd \<Rightarrow> tensor3 \<Rightarrow> nat \<Rightarrow> tensor3 result" where
  "soft_routing_head_pooling svd source_heads num_target_heads =
     (case t3_shape source_heads of (B, s_heads, h_dim) \<Rightarrow>
        if s_heads \<le> num_target_heads then Inr source_heads
        else let M = mk (B * h_dim) s_heads (\<lambda>r s. t3_at source_heads (r div h_dim) s (r mod h_dim));
                 (U, S, Vh) = svd M
             in if length S < num_target_heads
                then Inl (PyExc RuntimeErrorE ''shape is invalid for input of this size'')
                else Inr \<lparr>t3_shape = (B, num_target_heads, h_dim), t3_at = (\<lambda>b s k. mt_at U (b * h_dim + k) s * S ! s)\<rparr>)"

text \<open>The helpers of the adapters that pool or route the heads of a factor.\<close>

definition view3 :: "nat \<Rightarrow> nat \<Rightarrow> nat \<Rightarrow> mat \<Rightarrow> tensor3 result" where
  "view3 a b c m =
     (if mt_rows m * mt_cols m = a * b * c
      then Inr \<lparr>t3_shape = (a, b, c), t3_at = (\<lambda>i j k. let n = (i * b + j) * c + k in mt_at m (n div mt_cols m) (n mod mt_cols m))\<rparr>
      else Inl (PyExc RuntimeErrorE ''shape is invalid for input of this size''))"

definition apply_srhp_on_out_features :: "svd \<Rightarrow> nat \<Rightarrow> nat \<Rightarrow> nat \<Rightarrow> mat \<Rightarrow> nat \<Rightarrow> mat result" where
  "apply_srhp_on_out_features svd source_heads target_heads source_head_dim tensor r =
     (if source_heads = target_heads then Inr tensor
      else bindE (view3 source_heads source_head_dim r tensor) (\<lambda>t.
        let p = \<lparr>t3_shape = (r, source_heads, source_head_dim), t3_at = (\<lambda>k s j. t3_at t s j k)\<rparr>
        in bindE (soft_routing_head_pooling svd p target_heads) (\<lambda>pooled.
             case t3_shape pooled of (_, h, d) \<Rightarrow> Inr (mk (h * d) r (\<lambda>i k. t3_at pooled k (i div d) (i mod d))))))"

definition apply_srhp_on_in_features :: "svd \<Rightarrow> nat \<Rightarrow> nat \<Rightarrow> nat \<Rightarrow> mat \<Rightarrow> nat \<Rightarrow> mat result" where
  "apply_srhp_on_in_features svd source_heads target_heads source_head_dim tensor r =
     (if source_heads = target_heads then Inr tensor
      else bindE (view3 r source_heads source_head_dim tensor) (\<lambda>t.
        bindE (soft_routing_head_pooling svd t target_heads) (\<lambda>pooled.
          case t3_shape pooled of (_, h, d) \<Rightarrow> Inr (mk r (h * d) (\<lambda>k j. t3_at pooled k (j div d) (j mod d))))))"

definition apply_wdr_on_out_features :: "mat \<Rightarrow> nat \<Rightarrow> mat \<Rightarrow> nat \<Rightarrow> mat result" where
  "apply_wdr_on_out_features routing_matrix source_head_dim tensor r =
     bindE (view3 (mt_rows routing_matrix) source_head_dim r tensor) (\<lambda>t.
       Inr (mk (mt_cols routing_matrix * source_head_dim) r
             (\<lambda>i k. \<Sum>s<mt_rows routing_matrix. mt_at routing_matrix s (i div source_head_dim) * t3_at t s (i mod source_head_dim) k)))"

definition apply_wdr_on_in_features :: "mat \<Rightarrow> nat \<Rightarrow> mat \<Rightarrow> nat \<Rightarrow> mat result" where
  "apply_wdr_on_in_features routing_matrix source_head_dim tensor r =
     bindE (view3 r (mt_rows routing_matrix) source_head_dim tensor) (\<lambda>t.
       Inr (mk r (mt_cols routing_matrix * source_head_dim)
             (\<lambda>k j. \<Sum>s<mt_rows routing_matrix. t3_at t k s (j mod source_head_dim) * mt_at routing_matrix s (j div source_head_dim))))"

definition vram_decoupled_decoding :: "mat \<Rightarrow> real \<Rightarrow> real \<Rightarrow> mat" where
  "vram_decoupled_decoding quantized_tensor scale zero_point =
     mk (mt_rows quantized_tensor) (mt_cols quantized_tensor) (\<lambda>i j. (mt_at quantized_tensor i j - zero_point) * scale)"

section \<open>Energy that survives\<close>

lemma sum_entries:
  "(\<Sum>i<mt_rows m. \<Sum>j<mt_cols m. f (mt_at m i j)) = sum_list (map f (entries m))" for f :: "real \<Rightarrow> real"
proof -
  have "sum_list (map f (concat xss)) = sum_list (map (\<lambda>xs. sum_list (map f xs)) xss)" for xss
    by (induction xss) simp_all
  then show ?thesis
    by (simp add: entries_def o_def interv_sum_list_conv_sum_set_nat atLeast0LessThan)
qed

lemma sorted_energy_props:
  "mset (sorted_energy m) = mset (map (\<lambda>x. x\<^sup>2) (entries m))" "sorted_wrt (\<ge>) (sorted_energy m)" "\<forall>e\<in>set (sorted_energy m). 0 \<le> e"
  by (auto simp: sorted_energy_def sorted_wrt_rev intro: sorted_wrt_mono_rel[OF _ sorted_sort])

lemma energy_sum:
  "(\<Sum>i<mt_rows m. \<Sum>j<mt_cols m. g ((mt_at m i j)\<^sup>2)) = sum_list (map g (sorted_energy m))" for g :: "real \<Rightarrow> real"
proof -
  have "mset (map g (sorted_energy m)) = mset (map (\<lambda>x. g (x\<^sup>2)) (entries m))"
    using sorted_energy_props(1)[of m] by (metis (no_types, lifting) map_map mset_map o_apply map_eq_conv)
  then show ?thesis using sum_entries[of "\<lambda>x. g (x\<^sup>2)" m] by (metis sum_mset_sum_list)
qed

lemma first_reaching_spec:
  assumes "v \<le> sum_list es" "es \<noteq> []"
  shows "first_reaching es v < length es" "v \<le> cum_energy es (first_reaching es v)"
    "k < first_reaching es v \<Longrightarrow> cum_energy es k < v"
proof -
  let ?P = "\<lambda>k. cum_energy es k < v" let ?n = "first_reaching es v"
  have last: "\<not> ?P (length es - 1)" using assms by (cases es) (auto simp: cum_energy_def)
  have before: "?P k" if "k < ?n" for k
    using that set_takeWhileD[of _ ?P "[0..<length es]"] nth_mem[of k "takeWhile ?P [0..<length es]"]
      takeWhile_nth[of k ?P "[0..<length es]"] length_takeWhile_le[of ?P "[0..<length es]"]
    by (auto simp: first_reaching_def)
  show "k < ?n \<Longrightarrow> cum_energy es k < v" using before .
  show l: "?n < length es"
  proof (rule ccontr)
    assume "\<not> ?n < length es"
    then have "length es - 1 < ?n" using assms(2) by (cases es) auto
    then show False using before last by blast
  qed
  show "v \<le> cum_energy es ?n"
    using nth_length_takeWhile[of ?P "[0..<length es]"] l by (auto simp: first_reaching_def not_less)
qed

lemma sum_list_ge_part:
  fixes g :: "real \<Rightarrow> real"
  assumes "\<forall>x\<in>set (take n xs). g x = x" "\<forall>x\<in>set xs. 0 \<le> g x"
  shows "sum_list (take n xs) \<le> sum_list (map g xs)"
proof -
  have "sum_list (map g xs) = sum_list (map g (take n xs)) + sum_list (map g (drop n xs))"
    by (simp flip: sum_list_append map_append)
  moreover have "map g (take n xs) = take n xs" using assms(1) by (simp add: map_idI)
  moreover have "0 \<le> sum_list (map g (drop n xs))" using assms(2) by (intro sum_list_nonneg) (auto dest: in_set_dropD)
  ultimately show ?thesis by simp
qed

lemma sum_list_le_part:
  fixes g :: "real \<Rightarrow> real"
  assumes "\<forall>x\<in>set (drop n xs). g x = 0" "\<forall>x\<in>set xs. g x \<le> x"
  shows "sum_list (map g xs) \<le> sum_list (take n xs)"
proof -
  have "sum_list (map g xs) = sum_list (map g (take n xs)) + sum_list (map g (drop n xs))"
    by (simp flip: sum_list_append map_append)
  moreover have "sum_list (map g (drop n xs)) = 0" using assms(1) by (simp cong: map_cong)
  moreover have "sum_list (map g (take n xs)) \<le> sum_list (map (\<lambda>x. x) (take n xs))"
    by (rule sum_list_mono) (use assms(2) in \<open>auto dest: in_set_takeD\<close>)
  ultimately show ?thesis by simp
qed

text \<open>C34. Sparsity with a share of the energy to preserve: every entry of the task vector is kept or set to zero,
  what is kept has at least the share of the squared size, and no kept entry could be spared: the
  entries larger than it have less than the share together.\<close>

theorem avps_preserves_energy:
  assumes "0 < v" and "v \<le> 1" and tau: "mat_sub W W0 = Inr tau" and "0 < sq_sum tau"
  shows "\<exists>m. adaptive_variance_preserving_sparsity W W0 v = Inr m \<and> v * sq_sum tau \<le> sq_sum m
    \<and> (\<forall>i<mt_rows tau. \<forall>j<mt_cols tau. mt_at m i j = mt_at tau i j \<or> mt_at m i j = 0)
    \<and> (\<forall>i<mt_rows tau. \<forall>j<mt_cols tau. mt_at m i j \<noteq> 0 \<longrightarrow>
          (\<Sum>r<mt_rows tau. \<Sum>c<mt_cols tau. if \<bar>mt_at tau i j\<bar> < \<bar>mt_at tau r c\<bar> then (mt_at tau r c)\<^sup>2 else 0) < v * sq_sum tau)"
proof -
  let ?es = "sorted_energy tau" and ?total = "sum_list (map (\<lambda>x. \<bar>x\<bar>\<^sup>2) (entries tau))"
  define k0 where "k0 = first_reaching ?es (?total * v)"
  define t where "t = ?es ! k0"
  have total: "?total = sq_sum tau" "sum_list ?es = sq_sum tau"
    using sum_entries[of "\<lambda>x. x\<^sup>2" tau] energy_sum[of "\<lambda>x. x" tau] by (simp_all add: sq_sum_def)
  have ne: "?es \<noteq> []" using total(2) assms(4) by auto
  have le: "?total * v \<le> sum_list ?es" unfolding total using assms(2,4) by (simp add: mult_left_le)
  note k = first_reaching_spec[OF le ne, folded k0_def]
  have srt: "?es ! b \<le> ?es ! a" if "a \<le> b" "b < length ?es" for a b
    using sorted_energy_props(2)[of tau] that by (cases "a = b") (auto simp: sorted_wrt_iff_nth_less)
  let ?m = "keep_large (sqrt t) tau"
  have big: "sqrt t \<le> \<bar>x\<bar> \<longleftrightarrow> t \<le> x\<^sup>2" for x
    by (metis real_sqrt_abs real_sqrt_le_iff)
  have m: "adaptive_variance_preserving_sparsity W W0 v = Inr ?m"
    using tau ne k(1) by (simp add: adaptive_variance_preserving_sparsity_def Let_def t_def k0_def)
  have "sq_sum ?m = sum_list (map (\<lambda>e. if t \<le> e then e else 0) ?es)"
    unfolding energy_sum[symmetric] by (auto simp: sq_sum_def keep_large_def big intro!: sum.cong)
  moreover have "cum_energy ?es k0 \<le> sum_list (map (\<lambda>e. if t \<le> e then e else 0) ?es)"
    unfolding cum_energy_def
  proof (rule sum_list_ge_part)
    show "\<forall>x\<in>set (take (k0 + 1) ?es). (if t \<le> x then x else 0) = x"
      using srt k(1) by (auto simp: in_set_conv_nth t_def)
  qed (use sorted_energy_props(3)[of tau] in auto)
  ultimately have kept: "v * sq_sum tau \<le> sq_sum ?m" using k(2) total by (simp add: mult.commute)
  have spare: "(\<Sum>r<mt_rows tau. \<Sum>c<mt_cols tau. if \<bar>x\<bar> < \<bar>mt_at tau r c\<bar> then (mt_at tau r c)\<^sup>2 else 0) < v * sq_sum tau"
    if x: "t \<le> x\<^sup>2" for x
  proof -
    have "(\<Sum>r<mt_rows tau. \<Sum>c<mt_cols tau. if \<bar>x\<bar> < \<bar>mt_at tau r c\<bar> then (mt_at tau r c)\<^sup>2 else 0)
        = sum_list (map (\<lambda>e. if x\<^sup>2 < e then e else 0) ?es)"
      unfolding energy_sum[symmetric] by (auto simp: abs_le_square_iff simp flip: not_le intro!: sum.cong)
    also have "\<dots> \<le> sum_list (take k0 ?es)"
    proof (rule sum_list_le_part)
      have "?es ! (k0 + i) \<le> t" if "i < length ?es - k0" for i using that unfolding t_def by (intro srt) auto
      then show "\<forall>y\<in>set (drop k0 ?es). (if x\<^sup>2 < y then y else 0) = 0"
        using x by (fastforce simp: in_set_conv_nth)
    qed (use sorted_energy_props(3)[of tau] in auto)
    also have "\<dots> < v * sq_sum tau"
    proof (cases k0)
      case 0
      then show ?thesis using assms(1,4) by simp
    next
      case (Suc n)
      then show ?thesis using k(3)[of n] total by (simp add: cum_energy_def mult.commute)
    qed
    finally show ?thesis .
  qed
  show ?thesis
    by (intro exI[of _ ?m] conjI m kept allI impI; (rule spare)?) (auto simp: keep_large_def big split: if_splits)
qed

lemma avps_preserves_energy_witness:
  "\<exists>m. adaptive_variance_preserving_sparsity (mk 1 2 (\<lambda>_ j. 3 + real j)) (mk 1 2 (\<lambda>_ _. 0)) (1 / 2) = Inr m \<and> 1 / 2 * 25 \<le> sq_sum m"
proof -
  let ?tau = "mk 1 2 (\<lambda>i j. mt_at (mk 1 2 (\<lambda>_ j. 3 + real j)) i j - mt_at (mk 1 2 (\<lambda>_ _. 0)) i j)"
  have "sq_sum ?tau = 25" by (simp add: sq_sum_def eval_nat_numeral)
  moreover have "mat_sub (mk 1 2 (\<lambda>_ j. 3 + real j)) (mk 1 2 (\<lambda>_ _. 0)) = Inr ?tau" by (simp add: mat_sub_def)
  ultimately show ?thesis using avps_preserves_energy[of "1 / 2" "mk 1 2 (\<lambda>_ j. 3 + real j)" "mk 1 2 (\<lambda>_ _. 0)" ?tau] by auto
qed

text \<open>The trimmed task vector keeps what is at least the threshold; a ratio of zero trims nothing.\<close>

lemma untrimmed: "create_sparse_task_vector W W0 0 = (if (mt_rows W, mt_cols W) = (mt_rows W0, mt_cols W0) then mat_sub W W0
    else Inl (PyExc ValueErrorE ''W_trained and W_base must have the same shape.''))"
  by (simp add: create_sparse_task_vector_def mat_sub_def)

section \<open>The randomised decomposition is a projection\<close>

definition projection_on :: "mat \<Rightarrow> mat \<Rightarrow> mat" where
  "projection_on Q M = mat_mul Q (mat_mul (mat_t Q) M)"

definition recompose :: "mat \<times> real list \<times> mat \<Rightarrow> mat" where
  "recompose usv = (case usv of (U, S, V) \<Rightarrow>
     mk (mt_rows U) (mt_cols V) (\<lambda>i j. \<Sum>k<length S. mt_at U i k * S ! k * mt_at V k j))"

lemma subspace_svd_projection:
  assumes law: "\<And>W. svd_of W (svd W)" and Q: "mt_rows Q = mt_rows M"
  shows "recompose (subspace_svd svd M Q) = projection_on Q M"
proof -
  let ?B = "mat_t (mat_mul (mat_t M) Q)"
  obtain U S V where usv: "svd ?B = (U, S, V)" by (cases "svd ?B") auto
  note l = law[of ?B, unfolded usv svd_of_def prod.case]
  have sub: "subspace_svd svd M Q = (mat_mul Q U, S, V)" by (simp add: subspace_svd_def usv)
  have d: "mt_rows U = mt_cols Q" "mt_cols U = length S" "mt_cols V = mt_cols M" using l by (simp_all add: mat_t_def)
  have B: "(\<Sum>k<length S. mt_at U a k * S ! k * mt_at V k j) = (\<Sum>i<mt_rows M. mt_at Q i a * mt_at M i j)"
    if "a < mt_cols Q" "j < mt_cols M" for a j
    using l that by (simp add: mat_mul_def mat_t_def mult.commute)
  show ?thesis unfolding sub
  proof (rule mat_eqI)
    fix i j assume "i < mt_rows (recompose (mat_mul Q U, S, V))" "j < mt_cols (recompose (mat_mul Q U, S, V))"
    then have ij: "i < mt_rows Q" "j < mt_cols M" using d by (simp_all add: recompose_def)
    have "mt_at (recompose (mat_mul Q U, S, V)) i j
        = (\<Sum>k<length S. \<Sum>a<mt_cols Q. mt_at Q i a * (mt_at U a k * S ! k * mt_at V k j))"
      using ij d by (simp add: recompose_def mat_mul_def sum_distrib_right mult.assoc)
    also have "\<dots> = (\<Sum>a<mt_cols Q. mt_at Q i a * (\<Sum>k<length S. mt_at U a k * S ! k * mt_at V k j))"
      by (subst sum.swap) (simp add: sum_distrib_left)
    also have "\<dots> = (\<Sum>a<mt_cols Q. mt_at Q i a * (\<Sum>r<mt_rows M. mt_at Q r a * mt_at M r j))"
      using B ij by simp
    finally show "mt_at (recompose (mat_mul Q U, S, V)) i j = mt_at (projection_on Q M) i j"
      using ij Q by (simp add: projection_on_def mat_mul_def mat_t_def)
  qed (use d in \<open>simp_all add: recompose_def projection_on_def\<close>)
qed

lemma rsvd_blocks_projection:
  assumes law: "\<And>W. svd_of W (svd W)" and qr: "\<And>Y. mt_rows (qr Y) = mt_rows Y"
  shows "rsvd_blocks svd qr omega M epsilon left k s1 Q t = Inr usv \<Longrightarrow> mt_rows Q = mt_rows M \<Longrightarrow> recompose t = projection_on Q M
    \<Longrightarrow> \<exists>Q'. mt_rows Q' = mt_rows M \<and> recompose usv = projection_on Q' M"
proof (induction left arbitrary: k Q t)
  case (Suc left)
  let ?n = "qr (orthogonalise Q (mat_mul M (omega k)))"
  have r: "mt_rows (hcat Q ?n) = mt_rows M" using Suc.prems(2) by (simp add: hcat_def)
  show ?case
    using Suc.prems(1) Suc.IH[OF _ r subspace_svd_projection[where svd = svd, OF law r]] Suc.prems(2,3)
    by (auto simp: Let_def split: prod.splits list.splits if_splits)
qed auto

text \<open>Whatever the random blocks, the decomposition that the adaptive procedure returns is one of the projection
  of the matrix onto the accumulated subspace; the zero matrix is never decomposed when a second
  block is allowed: the stopping rule divides by its largest singular value.\<close>

theorem rsvd_decomposes_projection:
  assumes "\<forall>W. svd_of W (svd W)" and "\<forall>Y. mt_rows (qr Y) = mt_rows Y"
  shows "(adaptive_rsvd_bootstrap svd qr omega M epsilon max_blocks = Inr usv \<longrightarrow>
      (\<exists>Q. mt_rows Q = mt_rows M \<and> recompose usv = projection_on Q M))
    \<and> ((\<forall>W. (\<forall>i j. mt_at W i j = 0) \<longrightarrow> (\<forall>s\<in>set (fst (snd (svd W))). s = 0)) \<and> (\<forall>i j. mt_at M i j = 0) \<and> 2 \<le> max_blocks \<longrightarrow>
      (\<exists>e. adaptive_rsvd_bootstrap svd qr omega M epsilon max_blocks = Inl e))"
proof (cases max_blocks)
  case 0
  then show ?thesis by (simp add: adaptive_rsvd_bootstrap_def)
next
  case (Suc left)
  let ?Q = "qr (mat_mul M (omega 0))"
  have r: "mt_rows ?Q = mt_rows M" using assms(2) by simp
  have proj: "recompose (subspace_svd svd M ?Q) = projection_on ?Q M"
    by (rule subspace_svd_projection[where svd = svd, OF _ r]) (use assms(1) in blast)
  have 1: "\<exists>Q. mt_rows Q = mt_rows M \<and> recompose usv = projection_on Q M"
    if "adaptive_rsvd_bootstrap svd qr omega M epsilon max_blocks = Inr usv"
    using that rsvd_blocks_projection[where svd = svd and qr = qr, OF _ _ _ r proj] assms Suc
    by (auto simp: adaptive_rsvd_bootstrap_def Let_def split: prod.splits list.splits)
  have 2: "\<exists>e. adaptive_rsvd_bootstrap svd qr omega M epsilon max_blocks = Inl e"
    if z: "\<forall>W. (\<forall>i j. mt_at W i j = 0) \<longrightarrow> (\<forall>s\<in>set (fst (snd (svd W))). s = 0)" "\<forall>i j. mt_at M i j = 0" and n: "2 \<le> max_blocks"
  proof -
    obtain n where left: "left = Suc n" using n Suc by (cases left) auto
    obtain U S V where s: "svd (mat_t (mat_mul (mat_t M) ?Q)) = (U, S, V)" by (cases "svd (mat_t (mat_mul (mat_t M) ?Q))") auto
    have "\<forall>x\<in>set S. x = 0" using z(1)[rule_format, of "mat_t (mat_mul (mat_t M) ?Q)"] s z(2) by (simp add: mat_mul_def mat_t_def)
    then show ?thesis using Suc left s
      by (auto simp: adaptive_rsvd_bootstrap_def Let_def split: prod.splits list.splits)
  qed
  show ?thesis using 1 2 by blast
qed

text \<open>A decomposition without orthogonality that obeys the law, for the example.\<close>

definition trivial_svd :: svd where
  "trivial_svd W =
     (let s = (if \<forall>i\<in>{..<mt_rows W}. \<forall>j\<in>{..<mt_cols W}. mt_at W i j = 0 then 0 else 1)
      in (mk (mt_rows W) (mt_rows W) (\<lambda>i j. if i = j then 1 else 0), replicate (mt_rows W) s, mk (mt_rows W) (mt_cols W) (mt_at W)))"

lemma trivial_svd_law: "svd_of W (trivial_svd W)"
proof -
  have "(\<Sum>k<r. (if i = k then 1 else 0) * s * f k) = s * f i" if "i < r" for i r :: nat and s :: real and f :: "nat \<Rightarrow> real"
    using that by (simp add: mult.assoc if_distrib[of "\<lambda>x. x * _"] sum.delta cong: if_cong)
  then show ?thesis by (auto simp: svd_of_def trivial_svd_def Let_def)
qed

lemma rsvd_decomposes_projection_witness:
  "\<exists>e. adaptive_rsvd_bootstrap trivial_svd id (\<lambda>_. mk 1 1 (\<lambda>_ _. 1)) (mk 1 1 (\<lambda>_ _. 0)) (1 / 1000) 2 = Inl e"
proof -
  have z: "\<forall>W. (\<forall>i j. mt_at W i j = 0) \<longrightarrow> (\<forall>s\<in>set (fst (snd (trivial_svd W))). s = 0)"
    by (simp add: trivial_svd_def Let_def)
  have l: "\<forall>W. svd_of W (trivial_svd W)" "\<forall>Y. mt_rows (id Y) = mt_rows Y" using trivial_svd_law by simp_all
  show ?thesis using rsvd_decomposes_projection[where svd = trivial_svd and qr = id, OF l] z by simp
qed

end
