(* ===== verification/Hot_Swap_API.thy ===== *)
theory Hot_Swap_API
  imports Prelude
begin

text \<open>
  The experimental hot-swap interface (experimental/hot_swap.py, kernel/__init__.py) over an explicit store: a
  tensor object points to a storage, several objects may share one, in-place operations write to the
  storage and an assignment to \<open>.data\<close> redirects the object. The dictionary of a module holds new detached
  objects on the storages of its parameters at every call; a dictionary model, or a model that returns
  its own dictionary, holds the objects themselves. Tensors are flat, their entries exact.
\<close>

section \<open>Storages and tensor objects\<close>

record vram =
  vr_storage :: "nat \<Rightarrow> real list"
  vr_tensor :: "nat \<Rightarrow> nat"
  vr_next :: nat

definition read_tensor :: "vram \<Rightarrow> nat \<Rightarrow> real list" where
  "read_tensor m t = vr_storage m (vr_tensor m t)"

definition write_tensor :: "vram \<Rightarrow> nat \<Rightarrow> real list \<Rightarrow> vram" where
  "write_tensor m t xs = m\<lparr>vr_storage := (vr_storage m)(vr_tensor m t := xs)\<rparr>"

text \<open>A new object on a new storage, and a new object on the storage of another one (\<open>detach\<close>).\<close>

definition new_tensor :: "real list \<Rightarrow> vram \<Rightarrow> nat \<times> vram" where
  "new_tensor xs m =
     (vr_next m, m\<lparr>vr_storage := (vr_storage m)(vr_next m := xs), vr_tensor := (vr_tensor m)(vr_next m := vr_next m),
                   vr_next := vr_next m + 1\<rparr>)"

definition detach :: "nat \<Rightarrow> vram \<Rightarrow> nat \<times> vram" where
  "detach t m = (vr_next m, m\<lparr>vr_tensor := (vr_tensor m)(vr_next m := vr_tensor m t), vr_next := vr_next m + 1\<rparr>)"

text \<open>\<open>t.data = u.data\<close>.\<close>

definition set_data :: "nat \<Rightarrow> nat \<Rightarrow> vram \<Rightarrow> vram" where
  "set_data t u m = m\<lparr>vr_tensor := (vr_tensor m)(t := vr_tensor m u)\<rparr>"

text \<open>Sums with broadcasting of a single entry; an in-place sum must keep the shape.\<close>

definition add_values :: "real list \<Rightarrow> real list \<Rightarrow> real list result" where
  "add_values a b =
     (if length a = length b then Inr (map2 (+) a b)
      else if length b = 1 then Inr (map (\<lambda>x. x + b ! 0) a)
      else if length a = 1 then Inr (map (\<lambda>y. a ! 0 + y) b)
      else Inl (PyExc RuntimeErrorE ''The size of tensor a must match the size of tensor b''))"

definition add_inplace :: "nat \<Rightarrow> real list \<Rightarrow> vram \<Rightarrow> vram result" where
  "add_inplace t v m =
     bindE (add_values (read_tensor m t) v) (\<lambda>xs.
       if length xs \<noteq> length (read_tensor m t)
       then Inl (PyExc RuntimeErrorE ''output with shape does not match the broadcast shape'')
       else Inr (write_tensor m t xs))"

definition copy_into :: "nat \<Rightarrow> nat \<Rightarrow> vram \<Rightarrow> vram result" where
  "copy_into t u m =
     (let xs = read_tensor m u; n = length (read_tensor m t)
      in if length xs = n then Inr (write_tensor m t xs)
         else if length xs = 1 then Inr (write_tensor m t (replicate n (xs ! 0)))
         else Inl (PyExc RuntimeErrorE ''The size of tensor a must match the size of tensor b''))"

section \<open>The interface\<close>

datatype model_kind = DictModel | ModuleModel

record hot_swap_api =
  hs_model :: "(model_kind \<times> (string, nat) dict) option"
  hs_kernel :: bool
  hs_baseline_norms :: "(string, real) dict"
  hs_shadow_buffers :: "(string, nat) dict"
  hs_vram :: vram

definition new_api :: "(model_kind \<times> (string, nat) dict) option \<Rightarrow> bool \<Rightarrow> vram \<Rightarrow> hot_swap_api" where
  "new_api model has_kernel m =
     \<lparr>hs_model = model, hs_kernel = has_kernel, hs_baseline_norms = [], hs_shadow_buffers = [], hs_vram = m\<rparr>"

text \<open>\<open>state[layer_name]\<close>, if there is such a layer.\<close>

definition state_tensor :: "string \<Rightarrow> hot_swap_api \<Rightarrow> (nat \<times> hot_swap_api) option" where
  "state_tensor layer_name api =
     (case hs_model api of
        None \<Rightarrow> None
      | Some (kind, tensors) \<Rightarrow>
          (case map_of tensors layer_name of
             None \<Rightarrow> None
           | Some t \<Rightarrow>
               (case kind of
                  DictModel \<Rightarrow> Some (t, api)
                | ModuleModel \<Rightarrow> (let (t', m) = detach t (hs_vram api) in Some (t', api\<lparr>hs_vram := m\<rparr>)))))"

definition inject_concept :: "real list \<Rightarrow> string \<Rightarrow> hot_swap_api \<Rightarrow> hot_swap_api result" where
  "inject_concept task_vector layer_name api =
     (case state_tensor layer_name api of
        None \<Rightarrow> Inr api
      | Some (t, api) \<Rightarrow> bindE (add_inplace t task_vector (hs_vram api)) (\<lambda>m. Inr (api\<lparr>hs_vram := m\<rparr>)))"

definition remove_concept :: "real list \<Rightarrow> string \<Rightarrow> hot_swap_api \<Rightarrow> hot_swap_api result" where
  "remove_concept task_vector layer_name api =
     (case state_tensor layer_name api of
        None \<Rightarrow> Inr api
      | Some (t, api) \<Rightarrow> bindE (add_inplace t (map uminus task_vector) (hs_vram api)) (\<lambda>m. Inr (api\<lparr>hs_vram := m\<rparr>)))"

text \<open>The first half of a shadow injection runs without the lock: it saves the live values, and computes
  the shadow tensor from them. The second half, under the lock, puts the shadow tensor in place.\<close>

definition shadow_prepare :: "real list \<Rightarrow> string \<Rightarrow> hot_swap_api \<Rightarrow> ((nat \<times> nat) option \<times> hot_swap_api) result" where
  "shadow_prepare task_vector layer_name api =
     (case state_tensor layer_name api of
        None \<Rightarrow> Inr (None, api)
      | Some (t, api) \<Rightarrow>
          (let live = read_tensor (hs_vram api) t;
               (buffer, m) = new_tensor live (hs_vram api);
               api = api\<lparr>hs_vram := m, hs_shadow_buffers := dict_set layer_name buffer (hs_shadow_buffers api)\<rparr>
           in bindE (add_values live task_vector) (\<lambda>xs.
                let (shadow, m) = new_tensor xs (hs_vram api) in Inr (Some (t, shadow), api\<lparr>hs_vram := m\<rparr>))))"

definition swap_in :: "nat \<Rightarrow> nat \<Rightarrow> hot_swap_api \<Rightarrow> hot_swap_api result" where
  "swap_in t u api =
     (if hs_kernel api then bindE (copy_into t u (hs_vram api)) (\<lambda>m. Inr (api\<lparr>hs_vram := m\<rparr>))
      else Inr (api\<lparr>hs_vram := set_data t u (hs_vram api)\<rparr>))"

definition inject_concept_shadow :: "real list \<Rightarrow> string \<Rightarrow> hot_swap_api \<Rightarrow> hot_swap_api result" where
  "inject_concept_shadow task_vector layer_name api =
     bindE (shadow_prepare task_vector layer_name api) (\<lambda>(prepared, api).
       case prepared of None \<Rightarrow> Inr api | Some (t, shadow) \<Rightarrow> swap_in t shadow api)"

definition transactional_rollback :: "string \<Rightarrow> hot_swap_api \<Rightarrow> (bool \<times> hot_swap_api) result" where
  "transactional_rollback layer_name api =
     (case map_of (hs_shadow_buffers api) layer_name of
        None \<Rightarrow> Inr (False, api)
      | Some buffer \<Rightarrow>
          (case state_tensor layer_name api of
             None \<Rightarrow> Inr (False, api)
           | Some (t, api) \<Rightarrow>
               bindE (swap_in t buffer api) (\<lambda>api.
                 Inr (True, api\<lparr>hs_shadow_buffers := dict_del layer_name (hs_shadow_buffers api)\<rparr>))))"

definition register_baseline :: "string \<Rightarrow> real \<Rightarrow> hot_swap_api \<Rightarrow> hot_swap_api" where
  "register_baseline layer_name norm_value api =
     api\<lparr>hs_baseline_norms := dict_set layer_name norm_value (hs_baseline_norms api)\<rparr>"

definition monitor_drift :: "string \<Rightarrow> real \<Rightarrow> real \<Rightarrow> hot_swap_api \<Rightarrow> bool" where
  "monitor_drift layer_name current_norm threshold api =
     (case map_of (hs_baseline_norms api) layer_name of
        None \<Rightarrow> True
      | Some baseline_norm \<Rightarrow> \<not> threshold < \<bar>current_norm - baseline_norm\<bar> / max baseline_norm (1 / 10 ^ 9))"

definition ppl_gateway_monitor :: "real \<Rightarrow> real \<Rightarrow> real \<Rightarrow> bool" where
  "ppl_gateway_monitor current_ppl baseline_ppl threshold_ratio \<longleftrightarrow> \<not> baseline_ppl * threshold_ratio < current_ppl"

text \<open>The command of the command line, on its made-up model of one layer.\<close>

definition norm_of :: "real list \<Rightarrow> real" where
  "norm_of xs = sqrt (sum_list (map (\<lambda>x. x\<^sup>2) xs))"

definition hotswap_cli :: "string \<Rightarrow> string \<Rightarrow> real \<Rightarrow> bool \<Rightarrow> (real \<times> bool) result" where
  "hotswap_cli layer action intensity has_kernel =
     (let (t, m) = new_tensor (replicate 100 0) \<lparr>vr_storage = (\<lambda>_. []), vr_tensor = id, vr_next = 0\<rparr>;
          api = new_api (Some (DictModel, [(layer, t)])) has_kernel m;
          task_vector = replicate 100 intensity
      in bindE (if action = ''inject'' then inject_concept task_vector layer api
                else if action = ''unlearn'' then remove_concept task_vector layer api
                else Inr api) (\<lambda>api.
           let current_norm = norm_of (read_tensor (hs_vram api) t)
           in Inr (current_norm, monitor_drift layer current_norm (1 / 20) (register_baseline layer 0 api))))"

section \<open>What the operations do to the layers\<close>

definition layer_value :: "hot_swap_api \<Rightarrow> string \<Rightarrow> real list option" where
  "layer_value api n =
     (case hs_model api of None \<Rightarrow> None | Some (_, tensors) \<Rightarrow> map_option (read_tensor (hs_vram api)) (map_of tensors n))"

text \<open>Every object and storage of the model was allocated.\<close>

definition api_wf :: "hot_swap_api \<Rightarrow> bool" where
  "api_wf api \<longleftrightarrow>
     (case hs_model api of None \<Rightarrow> True
      | Some (_, tensors) \<Rightarrow> \<forall>(n, t)\<in>set tensors. t < vr_next (hs_vram api) \<and> vr_tensor (hs_vram api) t < vr_next (hs_vram api))"

lemma api_wfD:
  "api_wf api \<Longrightarrow> hs_model api = Some (k, tensors) \<Longrightarrow> map_of tensors n = Some t \<Longrightarrow>
     t < vr_next (hs_vram api) \<and> vr_tensor (hs_vram api) t < vr_next (hs_vram api)"
  by (fastforce simp: api_wf_def dest: map_of_SomeD)

named_theorems vram_simps \<open>reading after writing, allocating and redirecting\<close>

lemmas vram_defs [vram_simps] =
  read_tensor_def write_tensor_def new_tensor_def detach_def set_data_def

text \<open>The injection takes effect on a layer, and through whom.\<close>

definition swaps_reach_model :: "hot_swap_api \<Rightarrow> bool" where
  "swaps_reach_model api \<longleftrightarrow> hs_kernel api \<or> (case hs_model api of Some (ModuleModel, _) \<Rightarrow> False | _ \<Rightarrow> True)"

lemma shadow_injection:
  assumes wf: "api_wf api" and model: "hs_model api = Some (kind, tensors)" "map_of tensors n = Some t"
    and len: "length v = length (read_tensor (hs_vram api) t)"
  shows "\<exists>api'. inject_concept_shadow v n api = Inr api' \<and> hs_model api' = hs_model api \<and> hs_kernel api' = hs_kernel api
    \<and> (\<exists>b. map_of (hs_shadow_buffers api') n = Some b \<and> read_tensor (hs_vram api') b = read_tensor (hs_vram api) t)
    \<and> api_wf api'
    \<and> read_tensor (hs_vram api') t = (if swaps_reach_model api then map2 (+) (read_tensor (hs_vram api) t) v else read_tensor (hs_vram api) t)"
proof -
  note w = api_wfD[OF wf model(1)]
  have "t < vr_next (hs_vram api)" "vr_tensor (hs_vram api) t < vr_next (hs_vram api)" using w[OF model(2)] by auto
  then show ?thesis
    using model len wf
    by (cases kind; cases "hs_kernel api")
      (auto simp: inject_concept_shadow_def shadow_prepare_def state_tensor_def add_values_def swap_in_def copy_into_def Let_def
        vram_simps swaps_reach_model_def api_wf_def dest!: bspec)
qed

lemma rollback_restores:
  assumes wf: "api_wf api" and model: "hs_model api = Some (kind, tensors)" "map_of tensors n = Some t"
    and len: "length v = length (read_tensor (hs_vram api) t)"
    and inj: "inject_concept_shadow v n api = Inr api'"
  shows "\<exists>api''. transactional_rollback n api' = Inr (True, api'') \<and> map_of (hs_shadow_buffers api'') n = None
    \<and> (\<forall>k. layer_value api'' k = layer_value api k)"
proof -
  note w = api_wfD[OF wf model(1)]
  have t: "t < vr_next (hs_vram api)" "vr_tensor (hs_vram api) t < vr_next (hs_vram api)" using w[OF model(2)] by auto
  have same: "\<forall>k. map_option f (map_of tensors k) = map_option g (map_of tensors k)"
    if "\<And>u. u < vr_next (hs_vram api) \<Longrightarrow> vr_tensor (hs_vram api) u < vr_next (hs_vram api) \<Longrightarrow> f u = g u" for f g :: "nat \<Rightarrow> real list"
    using that w by (auto intro!: map_option_cong)
  show ?thesis
    using model len t inj
    by (cases kind; cases "hs_kernel api")
      (auto simp: inject_concept_shadow_def shadow_prepare_def transactional_rollback_def state_tensor_def add_values_def swap_in_def
        copy_into_def Let_def vram_simps layer_value_def intro!: same)
qed

text \<open>C10. A shadow injection followed by a rollback: both succeed, and the rollback gives every layer, shared storages
  included, the value it had. In between the layer has its values plus the task vector,
  except for a module without the compiled kernel: there the swap redirects a detached object that nothing else
  refers to, and the parameter never changes although the injection reports success.\<close>

theorem shadow_injection_rolls_back:
  assumes "api_wf api" and "hs_model api = Some (kind, tensors)" and "map_of tensors n = Some t"
    and "length v = length (read_tensor (hs_vram api) t)"
  shows "\<exists>api1 api2. inject_concept_shadow v n api = Inr api1
    \<and> layer_value api1 n = Some (if kind = DictModel \<or> hs_kernel api then map2 (+) (read_tensor (hs_vram api) t) v
                                else read_tensor (hs_vram api) t)
    \<and> transactional_rollback n api1 = Inr (True, api2)
    \<and> (\<forall>k. layer_value api2 k = layer_value api k)
    \<and> transactional_rollback n api2 = Inr (False, api2)"
proof -
  obtain api1 where a1: "inject_concept_shadow v n api = Inr api1" "hs_model api1 = hs_model api"
      "read_tensor (hs_vram api1) t = (if swaps_reach_model api then map2 (+) (read_tensor (hs_vram api) t) v else read_tensor (hs_vram api) t)"
    using shadow_injection[OF assms] by blast
  obtain api2 where a2: "transactional_rollback n api1 = Inr (True, api2)" "map_of (hs_shadow_buffers api2) n = None"
      "\<forall>k. layer_value api2 k = layer_value api k"
    using rollback_restores[OF assms a1(1)] by blast
  have "layer_value api1 n = Some (read_tensor (hs_vram api1) t)" using a1(2) assms(2,3) by (simp add: layer_value_def)
  moreover have "swaps_reach_model api \<longleftrightarrow> kind = DictModel \<or> hs_kernel api"
    using assms(2) by (cases kind) (auto simp: swaps_reach_model_def)
  moreover have "transactional_rollback n api2 = Inr (False, api2)" using a2(2) by (simp add: transactional_rollback_def)
  ultimately show ?thesis using a1(1,3) a2(1,3) by auto
qed

definition sample_api :: "model_kind \<Rightarrow> bool \<Rightarrow> hot_swap_api" where
  "sample_api kind has_kernel =
     new_api (Some (kind, [(''a'', 0), (''b'', 1)])) has_kernel
       \<lparr>vr_storage = (\<lambda>_. [1, 2]), vr_tensor = (\<lambda>_. 0), vr_next = 2\<rparr>"

lemma shadow_injection_rolls_back_witness:
  "\<exists>api1 api2. inject_concept_shadow [10, 20] ''a'' (sample_api DictModel False) = Inr api1
    \<and> layer_value api1 ''a'' = Some [11, 22]
    \<and> transactional_rollback ''a'' api1 = Inr (True, api2) \<and> layer_value api2 ''a'' = layer_value (sample_api DictModel False) ''a''"
proof -
  have "api_wf (sample_api DictModel False)" "hs_model (sample_api DictModel False) = Some (DictModel, [(''a'', 0), (''b'', 1)])"
      "map_of [(''a'', 0), (''b'', 1)] ''a'' = Some (0::nat)" "read_tensor (hs_vram (sample_api DictModel False)) 0 = [1, 2]"
    by (simp_all add: api_wf_def sample_api_def new_api_def read_tensor_def)
  from shadow_injection_rolls_back[OF this(1-3), of "[10, 20]"] this(4) show ?thesis by auto
qed

section \<open>Two injections at once\<close>

text \<open>The values are read and the sum is computed outside the lock. When two threads inject into a layer and
  both have prepared before either swaps, the layer ends with the vector of the later swap alone: the other
  injection is lost, although both report success. One after the other, both are added.\<close>

theorem concurrent_shadow_injection_lost:
  assumes "api_wf api" and "hs_model api = Some (kind, tensors)" and "map_of tensors n = Some t"
    and "length v = length (read_tensor (hs_vram api) t)" and "length w = length (read_tensor (hs_vram api) t)"
    and "kind = DictModel \<or> hs_kernel api"
  shows "(\<exists>t1 s1 t2 s2 a1 a2 a3 a4. shadow_prepare v n api = Inr (Some (t1, s1), a1) \<and> shadow_prepare w n a1 = Inr (Some (t2, s2), a2)
      \<and> swap_in t1 s1 a2 = Inr a3 \<and> swap_in t2 s2 a3 = Inr a4
      \<and> layer_value a4 n = Some (map2 (+) (read_tensor (hs_vram api) t) w))
    \<and> (\<exists>a1 a2. inject_concept_shadow v n api = Inr a1 \<and> inject_concept_shadow w n a1 = Inr a2
      \<and> layer_value a2 n = Some (map2 (+) (map2 (+) (read_tensor (hs_vram api) t) v) w))"
proof -
  have t: "t < vr_next (hs_vram api)" "vr_tensor (hs_vram api) t < vr_next (hs_vram api)"
    using api_wfD[OF assms(1-3)] by auto
  have c: "\<exists>t1 s1 t2 s2 a1 a2 a3 a4. shadow_prepare v n api = Inr (Some (t1, s1), a1) \<and> shadow_prepare w n a1 = Inr (Some (t2, s2), a2)
      \<and> swap_in t1 s1 a2 = Inr a3 \<and> swap_in t2 s2 a3 = Inr a4
      \<and> layer_value a4 n = Some (map2 (+) (read_tensor (hs_vram api) t) w)"
    using assms(2-6) t
    by (cases kind; cases "hs_kernel api")
      (auto simp: shadow_prepare_def state_tensor_def add_values_def swap_in_def copy_into_def Let_def vram_simps layer_value_def)
  obtain a1 where a1: "inject_concept_shadow v n api = Inr a1" "hs_model a1 = hs_model api" "hs_kernel a1 = hs_kernel api" "api_wf a1"
      "read_tensor (hs_vram a1) t = map2 (+) (read_tensor (hs_vram api) t) v"
    using shadow_injection[OF assms(1-4)] assms(2,6) by (cases kind) (auto simp: swaps_reach_model_def)
  have m: "hs_model a1 = Some (kind, tensors)" using a1(2) assms(2) by simp
  have l: "length w = length (read_tensor (hs_vram a1) t)" using a1(5) assms(4,5) by simp
  obtain a2 where "inject_concept_shadow w n a1 = Inr a2" "hs_model a2 = hs_model a1"
      "read_tensor (hs_vram a2) t = map2 (+) (read_tensor (hs_vram a1) t) w"
    using shadow_injection[OF a1(4) m assms(3) l] assms(6) a1(3) m by (cases kind) (auto simp: swaps_reach_model_def)
  then have "layer_value a2 n = Some (map2 (+) (map2 (+) (read_tensor (hs_vram api) t) v) w)"
    using a1(5) m assms(3) unfolding layer_value_def by simp
  then show ?thesis using c a1(1) \<open>inject_concept_shadow w n a1 = Inr a2\<close> by blast
qed

lemma concurrent_shadow_injection_lost_witness:
  "\<exists>t1 s1 t2 s2 a1 a2 a3 a4. shadow_prepare [10, 20] ''a'' (sample_api ModuleModel True) = Inr (Some (t1, s1), a1)
      \<and> shadow_prepare [5, 5] ''a'' a1 = Inr (Some (t2, s2), a2) \<and> swap_in t1 s1 a2 = Inr a3 \<and> swap_in t2 s2 a3 = Inr a4
      \<and> layer_value a4 ''a'' = Some [6, 7]"
proof -
  have "api_wf (sample_api ModuleModel True)" "hs_model (sample_api ModuleModel True) = Some (ModuleModel, [(''a'', 0), (''b'', 1)])"
      "map_of [(''a'', 0), (''b'', 1)] ''a'' = Some (0::nat)" and r: "read_tensor (hs_vram (sample_api ModuleModel True)) 0 = [1, 2]"
      and k: "hs_kernel (sample_api ModuleModel True)"
    by (simp_all add: api_wf_def sample_api_def new_api_def read_tensor_def)
  from concurrent_shadow_injection_lost[OF this(1-3), of "[10, 20]" "[5, 5]"] r k show ?thesis by simp
qed

text \<open>After two injections the buffer holds the value between them: a rollback undoes the second only, and a
  second rollback finds no buffer.\<close>

lemma second_injection_overwrites_buffer:
  assumes "api_wf api" "hs_model api = Some (kind, tensors)" "map_of tensors n = Some t" "kind = DictModel \<or> hs_kernel api"
    and "length v = length (read_tensor (hs_vram api) t)" "length w = length (read_tensor (hs_vram api) t)"
    and "inject_concept_shadow v n api = Inr a1" "inject_concept_shadow w n a1 = Inr a2"
  shows "\<exists>a3. transactional_rollback n a2 = Inr (True, a3) \<and> layer_value a3 n = Some (map2 (+) (read_tensor (hs_vram api) t) v)
    \<and> transactional_rollback n a3 = Inr (False, a3)"
proof -
  have a1: "hs_model a1 = Some (kind, tensors)" "api_wf a1" "read_tensor (hs_vram a1) t = map2 (+) (read_tensor (hs_vram api) t) v"
    using shadow_injection[OF assms(1-3,5)] assms(2,4,7) by (cases kind; auto simp: swaps_reach_model_def)+
  have "length w = length (read_tensor (hs_vram a1) t)" using a1(3) assms(5,6) by simp
  from rollback_restores[OF a1(2,1) assms(3) this assms(8)] a1 assms(3)
  show ?thesis by (auto simp: layer_value_def transactional_rollback_def)
qed

text \<open>The locked operations are inverse to each other, and reach every layer that shares the storage.\<close>

lemma inject_remove:
  assumes "hs_model api = Some (DictModel, tensors)" "map_of tensors n = Some t" "length v = length (read_tensor (hs_vram api) t)"
    and "inject_concept v n api = Inr a1" "remove_concept v n a1 = Inr a2"
  shows "\<forall>k. layer_value a2 k = layer_value api k"
proof -
  have "map2 (+) (map2 (+) xs v) (map uminus v) = xs" if "length v = length xs" for xs :: "real list"
    using that by (auto intro!: nth_equalityI)
  then have "hs_vram a2 = hs_vram api" "hs_model a2 = hs_model api"
    using assms by (auto simp: inject_concept_def remove_concept_def state_tensor_def add_inplace_def add_values_def vram_simps)
  then show ?thesis by (simp add: layer_value_def cong: option.case_cong)
qed

text \<open>The command line demonstration registers zero as the baseline: any intensity other than (nearly) zero is a drift.\<close>

lemma hotswap_cli_reports_drift:
  assumes "action = ''inject'' \<or> action = ''unlearn''"
  shows "hotswap_cli layer action intensity has_kernel = Inr (10 * \<bar>intensity\<bar>, \<not> 1 / 20 / 10 ^ 9 < 10 * \<bar>intensity\<bar>)"
proof -
  have z: "map2 (+) (replicate 100 0) (replicate 100 x) = replicate 100 x" for x :: real by (simp add: zip_replicate)
  have "norm_of (replicate 100 x) = 10 * \<bar>x\<bar>" for x
  proof -
    have "sqrt (100 * x\<^sup>2) = 10 * \<bar>x\<bar>" using real_sqrt_mult[of 100 "x\<^sup>2"] real_sqrt_unique[of 10 100] by simp
    then show ?thesis by (simp add: norm_of_def sum_list_replicate)
  qed
  then show ?thesis using assms
    by (auto simp: hotswap_cli_def Let_def inject_concept_def remove_concept_def state_tensor_def new_api_def add_inplace_def
        add_values_def vram_simps z monitor_drift_def register_baseline_def field_simps)
qed

end
