(* ===== verification/Layer_Discovery.thy ===== *)
theory Layer_Discovery
  imports Prelude
begin

text \<open>
  Discovery of the layers of a model (serving/model_layer_discovery.py): the regular expressions of the code and
  their search, the classification of parameter names, block indices, architecture detection and the
  layer map. A regular expression is a list of alternatives, each a sequence of literals and
  \<open>\d+\<close>, matched greedily with backtracking as \<open>re\<close> does.
\<close>

section \<open>Regular expressions\<close>

datatype rx_item = Lit string | Digits

type_synonym rx = "rx_item list list"

text \<open>Matching at the start of a string: the digits matched by each \<open>\d+\<close>.\<close>

fun first_some :: "'a option list \<Rightarrow> 'a option" where
  "first_some [] = None"
| "first_some (None # xs) = first_some xs"
| "first_some (Some x # xs) = Some x"

primrec match_items :: "rx_item list \<Rightarrow> string \<Rightarrow> string list option" where
  "match_items [] = (\<lambda>s. Some [])"
| "match_items (i # is) = (\<lambda>s.
     case i of
       Lit p \<Rightarrow> if starts_with s p then match_items is (drop (length p) s) else None
     | Digits \<Rightarrow> first_some (map (\<lambda>k. map_option (\<lambda>gs. take k s # gs) (match_items is (drop k s)))
                               (rev [1..<Suc (length (takeWhile is_digit s))])))"

definition match_rx :: "rx \<Rightarrow> string \<Rightarrow> string list option" where
  "match_rx r s = first_some (map (\<lambda>is. match_items is s) r)"

fun search_rx :: "rx \<Rightarrow> string \<Rightarrow> string list option" where
  "search_rx r [] = match_rx r []"
| "search_rx r (c # cs) = (case match_rx r (c # cs) of Some gs \<Rightarrow> Some gs | None \<Rightarrow> search_rx r cs)"

section \<open>Patterns\<close>

datatype layer_type =
    ATTENTION_Q | ATTENTION_K | ATTENTION_V | ATTENTION_O | ATTENTION_QKV_FUSED
  | MLP_GATE | MLP_UP | MLP_DOWN | MLP_FC1 | MLP_FC2 | NORM | EMBEDDING | LM_HEAD | OTHER

definition layer_patterns :: "(rx \<times> layer_type) list" where
  "layer_patterns =
     [([[Lit ''.q_proj.'']], ATTENTION_Q), ([[Lit ''.k_proj.'']], ATTENTION_K), ([[Lit ''.v_proj.'']], ATTENTION_V),
      ([[Lit ''.o_proj.'']], ATTENTION_O), ([[Lit ''.gate_proj.'']], MLP_GATE), ([[Lit ''.up_proj.'']], MLP_UP),
      ([[Lit ''.down_proj.'']], MLP_DOWN), ([[Lit ''.qkv_proj.'']], ATTENTION_QKV_FUSED),
      ([[Lit ''.query_key_value.'']], ATTENTION_QKV_FUSED), ([[Lit ''.fc1.'']], MLP_FC1), ([[Lit ''.fc2.'']], MLP_FC2),
      ([[Lit ''layernorm''], [Lit ''layer_norm''], [Lit ''input_layernorm''], [Lit ''post_attention_layernorm''], [Lit ''ln_'']], NORM),
      ([[Lit ''.norm'']], NORM),
      ([[Lit ''embed_tokens''], [Lit ''wte''], [Lit ''wpe''], [Lit ''word_embedding'']], EMBEDDING),
      ([[Lit ''lm_head''], [Lit ''output.weight'']], LM_HEAD)]"

definition block_index_pattern :: rx where
  "block_index_pattern =
     [[Lit ''.layers.'', Digits, Lit ''.''], [Lit ''.h.'', Digits, Lit ''.''], [Lit ''.blocks.'', Digits, Lit ''.'']]"

definition swappable_types :: "layer_type list" where
  "swappable_types =
     [ATTENTION_Q, ATTENTION_K, ATTENTION_V, ATTENTION_O, ATTENTION_QKV_FUSED, MLP_GATE, MLP_UP, MLP_DOWN, MLP_FC1, MLP_FC2]"

definition arch_patterns :: "(string \<times> rx) list" where
  "arch_patterns =
     [(''qwen2'', [[Lit ''model.layers.'', Digits, Lit ''.self_attn.q_proj'']]),
      (''llama'', [[Lit ''model.layers.'', Digits, Lit ''.self_attn.q_proj'']]),
      (''opt'', [[Lit ''model.decoder.layers.'', Digits, Lit ''.self_attn'']]),
      (''gpt_neox'', [[Lit ''gpt_neox.layers.'', Digits, Lit ''.attention.query_key_value'']]),
      (''phi'', [[Lit ''model.layers.'', Digits, Lit ''.self_attn.qkv_proj'']])]"

section \<open>Discovery\<close>

definition classify_layer :: "string \<Rightarrow> layer_type" where
  "classify_layer name =
     (case find (\<lambda>(pattern, _). search_rx pattern name \<noteq> None) layer_patterns of Some (_, t) \<Rightarrow> t | None \<Rightarrow> OTHER)"

definition extract_block_index :: "string \<Rightarrow> nat option" where
  "extract_block_index name =
     (case search_rx block_index_pattern name of Some (g # _) \<Rightarrow> digits_val 0 g | _ \<Rightarrow> None)"

definition line_sep :: char where
  "line_sep = CHR 0x0A"

definition detect_architecture_names :: "string list \<Rightarrow> string" where
  "detect_architecture_names param_names =
     (let joined = join [line_sep] (take 100 param_names)
      in case find (\<lambda>(_, pattern). search_rx pattern joined \<noteq> None) arch_patterns of Some (arch, _) \<Rightarrow> arch | None \<Rightarrow> ''unknown'')"

text \<open>A parameter with its shape and the text of its data type, where it has them.\<close>

record param =
  pm_shape :: "nat list option"
  pm_dtype :: "string option"

datatype any_model = NamedParams "(string \<times> param) list" | OtherObject

record discovered_layer =
  dl_name :: string
  dl_layer_type :: layer_type
  dl_shape :: "nat list"
  dl_dtype :: string
  dl_block_index :: "nat option"

record model_layer_map =
  lm_model_type :: string
  lm_num_blocks :: nat
  lm_layers :: "discovered_layer list"
  lm_swappable_layers :: "string list"
  lm_architecture_notes :: string

definition by_type :: "layer_type \<Rightarrow> model_layer_map \<Rightarrow> discovered_layer list" where
  "by_type t m = filter (\<lambda>l. dl_layer_type l = t) (lm_layers m)"

definition by_block :: "nat \<Rightarrow> model_layer_map \<Rightarrow> discovered_layer list" where
  "by_block b m = filter (\<lambda>l. dl_block_index l = Some b) (lm_layers m)"

definition discovered :: "string \<Rightarrow> param \<Rightarrow> discovered_layer" where
  "discovered name p =
     \<lparr>dl_name = name, dl_layer_type = classify_layer name,
      dl_shape = (case pm_shape p of Some sh \<Rightarrow> sh | None \<Rightarrow> []),
      dl_dtype = (case pm_dtype p of Some d \<Rightarrow> replace_all ''torch.'' [] d | None \<Rightarrow> ''unknown''),
      dl_block_index = extract_block_index name\<rparr>"

text \<open>One parameter in the loop, with the largest block index so far (\<open>-1\<close> at first).\<close>

definition discover_param :: "bool \<Rightarrow> string \<times> param \<Rightarrow> model_layer_map \<times> int \<Rightarrow> model_layer_map \<times> int" where
  "discover_param include_non_weight np st =
     (case (np, st) of ((name, p), (m, max_block)) \<Rightarrow>
        if \<not> include_non_weight \<and> ends_with name ''.bias'' then st
        else let d = discovered name p;
                 max_block = (case dl_block_index d of Some b \<Rightarrow> if max_block < int b then int b else max_block | None \<Rightarrow> max_block);
                 m = m\<lparr>lm_layers := lm_layers m @ [d]\<rparr>;
                 m = (if dl_layer_type d \<in> set swappable_types then m\<lparr>lm_swappable_layers := lm_swappable_layers m @ [name]\<rparr> else m)
             in (m, max_block))"

definition discover_layers :: "any_model \<Rightarrow> bool \<Rightarrow> model_layer_map result" where
  "discover_layers model include_non_weight =
     (case model of
        OtherObject \<Rightarrow> Inl (PyExc TypeErrorE ''Cannot discover layers'')
      | NamedParams named_params \<Rightarrow>
          (let (m, max_block) = fold (discover_param include_non_weight) named_params
                 (\<lparr>lm_model_type = detect_architecture_names (map fst named_params), lm_num_blocks = 0, lm_layers = [],
                   lm_swappable_layers = [], lm_architecture_notes = []\<rparr>, - 1);
               m = m\<lparr>lm_num_blocks := (if 0 \<le> max_block then nat (max_block + 1) else 0)\<rparr>
           in Inr (if by_type ATTENTION_QKV_FUSED m \<noteq> [] then m\<lparr>lm_architecture_notes := ''Uses fused QKV projection''\<rparr>
                   else if by_type ATTENTION_Q m \<noteq> [] then m\<lparr>lm_architecture_notes := ''Uses separate Q/K/V projections''\<rparr>
                   else m)))"

fun layer_type_value :: "layer_type \<Rightarrow> string" where
  "layer_type_value ATTENTION_Q = ''attention_q_proj''"
| "layer_type_value ATTENTION_K = ''attention_k_proj''"
| "layer_type_value ATTENTION_V = ''attention_v_proj''"
| "layer_type_value ATTENTION_O = ''attention_o_proj''"
| "layer_type_value ATTENTION_QKV_FUSED = ''attention_qkv_fused''"
| "layer_type_value MLP_GATE = ''mlp_gate_proj''"
| "layer_type_value MLP_UP = ''mlp_up_proj''"
| "layer_type_value MLP_DOWN = ''mlp_down_proj''"
| "layer_type_value MLP_FC1 = ''mlp_fc1''"
| "layer_type_value MLP_FC2 = ''mlp_fc2''"
| "layer_type_value NORM = ''norm''"
| "layer_type_value EMBEDDING = ''embedding''"
| "layer_type_value LM_HEAD = ''lm_head''"
| "layer_type_value OTHER = ''other''"

definition layer_to_dict :: "discovered_layer \<Rightarrow> json" where
  "layer_to_dict l =
     JObj [(''name'', JStr (dl_name l)), (''type'', JStr (layer_type_value (dl_layer_type l))),
           (''shape'', JList (map (JInt \<circ> int) (dl_shape l))), (''dtype'', JStr (dl_dtype l)),
           (''block'', case dl_block_index l of None \<Rightarrow> JNull | Some b \<Rightarrow> JInt (int b))]"

definition layer_map_to_dict :: "model_layer_map \<Rightarrow> json" where
  "layer_map_to_dict m =
     JObj [(''model_type'', JStr (lm_model_type m)), (''num_blocks'', JInt (int (lm_num_blocks m))),
           (''total_layers'', JInt (int (length (lm_layers m)))), (''swappable_count'', JInt (int (length (lm_swappable_layers m)))),
           (''architecture_notes'', JStr (lm_architecture_notes m)), (''layers'', JList (map layer_to_dict (lm_layers m)))]"

section \<open>The layer map is well-formed\<close>

definition layer_map_wf :: "model_layer_map \<Rightarrow> bool" where
  "layer_map_wf m \<longleftrightarrow>
     (\<forall>l\<in>set (lm_layers m). dl_layer_type l = classify_layer (dl_name l) \<and> dl_block_index l = extract_block_index (dl_name l)
        \<and> (\<forall>b. dl_block_index l = Some b \<longrightarrow> b < lm_num_blocks m))
     \<and> (0 < lm_num_blocks m \<longrightarrow> (\<exists>l\<in>set (lm_layers m). dl_block_index l = Some (lm_num_blocks m - 1)))
     \<and> lm_swappable_layers m = map dl_name (filter (\<lambda>l. dl_layer_type l \<in> set swappable_types) (lm_layers m))"

text \<open>The invariant of the loop.\<close>

definition partial_wf :: "(string \<times> param) list \<Rightarrow> bool \<Rightarrow> model_layer_map \<times> int \<Rightarrow> bool" where
  "partial_wf seen inc st \<longleftrightarrow>
     (case st of (m, max_block) \<Rightarrow>
        - 1 \<le> max_block
        \<and> lm_layers m = map (\<lambda>(n, p). discovered n p) (filter (\<lambda>(n, _). inc \<or> \<not> ends_with n ''.bias'') seen)
        \<and> lm_swappable_layers m = map dl_name (filter (\<lambda>l. dl_layer_type l \<in> set swappable_types) (lm_layers m))
        \<and> (\<forall>l\<in>set (lm_layers m). \<forall>b. dl_block_index l = Some b \<longrightarrow> int b \<le> max_block)
        \<and> (0 \<le> max_block \<longrightarrow> (\<exists>l\<in>set (lm_layers m). dl_block_index l = Some (nat max_block))))"

lemma discover_param_wf: "partial_wf seen inc st \<Longrightarrow> partial_wf (seen @ [np]) inc (discover_param inc np st)"
proof -
  assume wf: "partial_wf seen inc st"
  obtain m b n p where eq: "st = (m, b)" "np = (n, p)" by (cases st; cases np)
  show ?thesis
  proof (cases "\<not> inc \<and> ends_with n ''.bias''")
    case True
    then have step: "discover_param inc np st = st"
      and flt: "filter (\<lambda>(n, _). inc \<or> \<not> ends_with n ''.bias'') (seen @ [np]) = filter (\<lambda>(n, _). inc \<or> \<not> ends_with n ''.bias'') seen"
      by (simp_all add: discover_param_def eq)
    show ?thesis using wf unfolding partial_wf_def step flt .
  next
    case False
    define d where "d = discovered n p"
    define b' where "b' = (case dl_block_index d of Some c \<Rightarrow> if b < int c then int c else b | None \<Rightarrow> b)"
    have n: "dl_name d = n" by (simp add: d_def discovered_def)
    have step: "discover_param inc np st = (m\<lparr>lm_layers := lm_layers m @ [d],
        lm_swappable_layers := lm_swappable_layers m @ (if dl_layer_type d \<in> set swappable_types then [n] else [])\<rparr>, b')"
      using False by (auto simp: discover_param_def eq Let_def d_def[symmetric] b'_def)
    note w = wf[unfolded eq(1) partial_wf_def prod.case]
    have w1: "\<forall>l\<in>set (lm_layers m). \<forall>c. dl_block_index l = Some c \<longrightarrow> int c \<le> b"
      and w2: "0 \<le> b \<longrightarrow> (\<exists>l\<in>set (lm_layers m). dl_block_index l = Some (nat b))" using w by blast+
    have b': "b \<le> b'" "\<And>c. dl_block_index d = Some c \<Longrightarrow> int c \<le> b'" "b' = b \<or> dl_block_index d = Some (nat b') \<and> 0 \<le> b'"
      by (auto simp: b'_def split: option.split)
    have 1: "\<forall>l\<in>set (lm_layers m @ [d]). \<forall>c. dl_block_index l = Some c \<longrightarrow> int c \<le> b'" using w1 b'(1,2) by fastforce
    have 2: "0 \<le> b' \<longrightarrow> (\<exists>l\<in>set (lm_layers m @ [d]). dl_block_index l = Some (nat b'))" using w2 b'(3) by auto
    have 3: "lm_layers m @ [d] = map (\<lambda>(n, p). discovered n p) (filter (\<lambda>(n, _). inc \<or> \<not> ends_with n ''.bias'') (seen @ [np]))"
      using w False by (simp add: eq d_def)
    have 4: "lm_swappable_layers m @ (if dl_layer_type d \<in> set swappable_types then [n] else [])
        = map dl_name (filter (\<lambda>l. dl_layer_type l \<in> set swappable_types) (lm_layers m @ [d]))"
      using w n by simp
    have 5: "- 1 \<le> b'" using w b'(1) by simp
    let ?m = "m\<lparr>lm_layers := lm_layers m @ [d],
        lm_swappable_layers := lm_swappable_layers m @ (if dl_layer_type d \<in> set swappable_types then [n] else [])\<rparr>"
    have f: "lm_layers ?m = lm_layers m @ [d]"
      "lm_swappable_layers ?m = lm_swappable_layers m @ (if dl_layer_type d \<in> set swappable_types then [n] else [])" by simp_all
    show ?thesis unfolding step partial_wf_def prod.case f by (intro conjI 1 2 3 4 5)
  qed
qed

lemma fold_discover_wf: "partial_wf seen inc st \<Longrightarrow> partial_wf (seen @ ps) inc (fold (discover_param inc) ps st)"
proof (induction ps arbitrary: seen st)
  case (Cons np ps)
  then show ?case using Cons.IH[OF discover_param_wf[OF Cons.prems], of np] by simp
qed simp

lemma discover_param_keeps:
  "lm_model_type (fst (discover_param inc np st)) = lm_model_type (fst st)"
  by (cases st; cases np) (simp add: discover_param_def Let_def)

lemma fold_discover_keeps: "lm_model_type (fst (fold (discover_param inc) ps st)) = lm_model_type (fst st)"
  by (induction ps arbitrary: st) (simp_all add: discover_param_keeps)


section \<open>Searching in joined names\<close>

text \<open>Items that cannot match across a line break: literals without one, and digits.\<close>

definition in_line :: "rx_item list \<Rightarrow> bool" where
  "in_line is \<longleftrightarrow> (\<forall>i\<in>set is. case i of Lit p \<Rightarrow> line_sep \<notin> set p | Digits \<Rightarrow> True)"

definition needs_char :: "rx_item list \<Rightarrow> bool" where
  "needs_char is \<longleftrightarrow> (case is of Lit p # _ \<Rightarrow> p \<noteq> [] | Digits # _ \<Rightarrow> True | [] \<Rightarrow> False)"

lemma first_some_None: "first_some xs = None \<longleftrightarrow> (\<forall>x\<in>set xs. x = None)"
  by (induction xs rule: first_some.induct) auto

lemma first_some_cong: "map (\<lambda>x. x = None) xs = map (\<lambda>x. x = None) ys \<Longrightarrow> first_some xs = None \<longleftrightarrow> first_some ys = None"
proof (induction xs arbitrary: ys)
  case (Cons x xs)
  then show ?case by (cases ys; cases x; cases "hd ys") (auto simp: first_some_None)
qed simp

lemma starts_with_before_line_sep:
  assumes "line_sep \<notin> set p"
  shows "starts_with (a @ line_sep # b) p \<longleftrightarrow> starts_with a p"
  using assms
proof (induction p arbitrary: a)
  case (Cons c cs)
  then show ?case by (cases a) auto
qed simp

lemma line_sep_not_digit: "\<not> is_digit line_sep"
  by (simp add: is_digit_def line_sep_def)

lemma match_items_line: "in_line is \<Longrightarrow> match_items is (a @ line_sep # b) = match_items is a"
proof (induction "is" arbitrary: a)
  case (Cons i "is")
  have IH: "match_items is (a' @ line_sep # b) = match_items is a'" for a' using Cons by (simp add: in_line_def)
  show ?case
  proof (cases i)
    case (Lit p)
    have p: "line_sep \<notin> set p" using Cons.prems Lit by (simp add: in_line_def)
    show ?thesis
    proof (cases "starts_with a p")
      case True
      then obtain t where "a = p @ t" by (auto simp: starts_with_iff)
      then show ?thesis using Lit p IH starts_with_before_line_sep[OF p, of a] by simp
    next
      case False
      then show ?thesis using Lit p starts_with_before_line_sep[OF p, of a b] by simp
    qed
  next
    case Digits
    have t: "takeWhile is_digit (a @ line_sep # b) = takeWhile is_digit a"
      by (induction a) (simp_all add: line_sep_not_digit)
    have "take k (a @ line_sep # b) = take k a" "match_items is (drop k (a @ line_sep # b)) = match_items is (drop k a)"
      if "k \<in> set (rev [1..<Suc (length (takeWhile is_digit a))])" for k
    proof -
      have "k \<le> length a" using that length_takeWhile_le[of is_digit a] by auto
      then show "take k (a @ line_sep # b) = take k a" "match_items is (drop k (a @ line_sep # b)) = match_items is (drop k a)"
        using IH by simp_all
    qed
    then have "map (\<lambda>k. map_option (\<lambda>gs. take k (a @ line_sep # b) # gs) (match_items is (drop k (a @ line_sep # b))))
          (rev [1..<Suc (length (takeWhile is_digit a))])
        = map (\<lambda>k. map_option (\<lambda>gs. take k a # gs) (match_items is (drop k a))) (rev [1..<Suc (length (takeWhile is_digit a))])"
      by (intro map_cong refl) presburger
    then show ?thesis unfolding Digits match_items.simps rx_item.case t by (rule arg_cong)
  qed
qed simp

definition line_rx :: "rx \<Rightarrow> bool" where
  "line_rx r \<longleftrightarrow> (\<forall>is\<in>set r. in_line is \<and> needs_char is)"

lemma match_rx_line: "line_rx r \<Longrightarrow> match_rx r (a @ line_sep # b) = match_rx r a"
  unfolding match_rx_def by (intro arg_cong[where f = first_some] map_cong refl) (simp add: line_rx_def match_items_line)

lemma match_rx_empty: "line_rx r \<Longrightarrow> match_rx r [] = None"
proof -
  have "match_items is [] = None" if "needs_char is" for "is"
    using that by (cases "is") (auto simp: needs_char_def split: rx_item.splits elim!: starts_with.elims)
  then show "line_rx r \<Longrightarrow> match_rx r [] = None" by (simp add: match_rx_def first_some_None line_rx_def)
qed

lemma search_rx_line:
  assumes "line_rx r"
  shows "search_rx r (a @ line_sep # b) \<noteq> None \<longleftrightarrow> search_rx r a \<noteq> None \<or> search_rx r b \<noteq> None"
proof (induction a)
  case Nil
  have "match_rx r (line_sep # b) = None" using match_rx_line[OF assms, of "[]" b] match_rx_empty[OF assms] by simp
  then show ?case using match_rx_empty[OF assms] by simp
next
  case (Cons c cs)
  then show ?case using match_rx_line[OF assms, of "c # cs" b] by (simp split: option.split)
qed

lemma search_rx_join:
  assumes "line_rx r"
  shows "search_rx r (join [line_sep] names) \<noteq> None \<longleftrightarrow> (\<exists>n\<in>set names. search_rx r n \<noteq> None)"
proof (induction names)
  case Nil
  then show ?case using match_rx_empty[OF assms] by simp
next
  case (Cons x names)
  then show ?case using search_rx_line[OF assms, of x "join [line_sep] names"] by (cases names) simp_all
qed

section \<open>Names with a block index\<close>

lemma digit_char_digit: "n < 10 \<Longrightarrow> is_digit (digit_char n) \<and> digit_val (digit_char n) = n"
  by (simp add: is_digit_def digit_val_def digit_char_def Let_def)

lemma digits_val_snoc:
  "xs \<noteq> [] \<Longrightarrow> \<forall>c\<in>set xs. is_digit c \<Longrightarrow> is_digit c \<Longrightarrow>
     digits_val acc (xs @ [c]) = map_option (\<lambda>v. 10 * v + digit_val c) (digits_val acc xs)"
proof (induction acc xs rule: digits_val.induct)
  case (2 acc d)
  then show ?case by (auto simp: is_digit_def)
next
  case (3 acc d e cs)
  then have "e \<noteq> CHR ''_''" by (auto simp: is_digit_def)
  then show ?case using 3 by simp
qed simp

lemma nat_str_digits: "nat_str n \<noteq> [] \<and> (\<forall>c\<in>set (nat_str n). is_digit c) \<and> digits_val 0 (nat_str n) = Some n"
proof (induction n rule: less_induct)
  case (less n)
  show ?case
  proof (cases "n < 10")
    case True
    then show ?thesis using digit_char_digit[OF True] by (subst (1 2 3) nat_str.simps) simp
  next
    case False
    have IH: "nat_str (n div 10) \<noteq> []" "\<forall>c\<in>set (nat_str (n div 10)). is_digit c" "digits_val 0 (nat_str (n div 10)) = Some (n div 10)"
      using less[of "n div 10"] False by auto
    have d: "is_digit (digit_char (n mod 10))" "digit_val (digit_char (n mod 10)) = n mod 10"
      using digit_char_digit[of "n mod 10"] by auto
    have "nat_str n = nat_str (n div 10) @ [digit_char (n mod 10)]" using False by (simp add: nat_str.simps[of n])
    then show ?thesis using IH d digits_val_snoc[OF IH(1,2) d(1), of 0] by auto
  qed
qed

lemma match_numbered:
  assumes "ds \<noteq> []" "\<forall>c\<in>set ds. is_digit c" "\<not> is_digit q"
  shows "match_items [Lit p, Digits, Lit (q # qs)] (p @ ds @ q # qs @ rest) = Some [ds]"
proof -
  have t: "takeWhile is_digit (ds @ q # qs @ rest) = ds" using assms by (simp add: takeWhile_tail)
  have "Suc 0 \<le> length ds" using assms(1) by (cases ds) simp_all
  then have "match_items [Digits, Lit (q # qs)] (ds @ q # qs @ rest) = Some [ds]" by (simp add: t)
  then show ?thesis by simp
qed

definition attention_name :: "nat \<Rightarrow> string \<Rightarrow> string" where
  "attention_name i proj = ''model.layers.'' @ nat_str i @ ''.self_attn.'' @ proj @ ''.weight''"

lemma attention_block: "extract_block_index (attention_name i proj) = Some i"
proof -
  have "match_items [Lit ''.layers.'', Digits, Lit ''.''] (''.layers.'' @ nat_str i @ CHR ''.'' # [] @ ''self_attn.'' @ proj @ ''.weight'')
      = Some [nat_str i]"
    by (rule match_numbered) (use nat_str_digits in \<open>auto simp: is_digit_def\<close>)
  then have "match_rx block_index_pattern (''.layers.'' @ nat_str i @ ''.self_attn.'' @ proj @ ''.weight'') = Some [nat_str i]"
    by (simp add: match_rx_def block_index_pattern_def del: match_items.simps)
  then have "search_rx block_index_pattern (''model'' @ ''.layers.'' @ nat_str i @ ''.self_attn.'' @ proj @ ''.weight'') = Some [nat_str i]"
    by (simp add: match_rx_def block_index_pattern_def)
  then show ?thesis using nat_str_digits by (simp add: extract_block_index_def attention_name_def)
qed

lemma search_literal: "p \<noteq> [] \<Longrightarrow> search_rx [[Lit p]] s \<noteq> None \<longleftrightarrow> substring p s"
  by (induction s) (auto simp: match_rx_def starts_with_iff split: if_splits option.splits)

lemma attention_chars: "c \<in> set (attention_name i proj) \<Longrightarrow> c \<in> set (''model.layers.self_attn.weight'' @ proj) \<or> is_digit c"
  using nat_str_digits[of i] by (auto simp: attention_name_def)

lemma not_in_attention_name:
  assumes "c \<in> set p" "c \<notin> set (''model.layers.self_attn.weight'' @ proj)" "\<not> is_digit c"
  shows "search_rx [[Lit p]] (attention_name i proj) = None"
proof -
  have "\<not> substring p (attention_name i proj)"
    using assms attention_chars[of c i proj] by (auto simp: substring_iff)
  moreover have "p \<noteq> []" using assms(1) by auto
  ultimately show ?thesis using search_literal by blast
qed

lemma in_attention_name: "search_rx [[Lit (''.'' @ proj @ ''.'')]] (attention_name i proj) \<noteq> None"
proof -
  have "attention_name i proj = (''model.layers.'' @ nat_str i @ ''.self_attn'') @ (''.'' @ proj @ ''.'') @ ''weight''"
    by (simp add: attention_name_def)
  then have "substring (''.'' @ proj @ ''.'') (attention_name i proj)" unfolding substring_iff by blast
  then show ?thesis using search_literal[of "''.'' @ proj @ ''.''"] by simp
qed

lemma attention_classified:
  "classify_layer (attention_name i ''q_proj'') = ATTENTION_Q" "classify_layer (attention_name i ''k_proj'') = ATTENTION_K"
  "classify_layer (attention_name i ''v_proj'') = ATTENTION_V" "classify_layer (attention_name i ''o_proj'') = ATTENTION_O"
proof -
  note n = not_in_attention_name[where i = i]
  have q: "search_rx [[Lit ''.q_proj.'']] (attention_name i p) = None" if "p \<in> {''k_proj'', ''v_proj'', ''o_proj''}" for p
    using n[of "CHR ''q''" "''.q_proj.''" p] that by (auto simp: is_digit_def)
  have k: "search_rx [[Lit ''.k_proj.'']] (attention_name i p) = None" if "p \<in> {''v_proj'', ''o_proj''}" for p
    using n[of "CHR ''k''" "''.k_proj.''" p] that by (auto simp: is_digit_def)
  have v: "search_rx [[Lit ''.v_proj.'']] (attention_name i ''o_proj'') = None"
    using n[of "CHR ''v''" "''.v_proj.''" "''o_proj''"] by (simp add: is_digit_def)
  have y: "\<exists>y. search_rx [[Lit ''.q_proj.'']] (attention_name i ''q_proj'') = Some y"
    "\<exists>y. search_rx [[Lit ''.k_proj.'']] (attention_name i ''k_proj'') = Some y"
    "\<exists>y. search_rx [[Lit ''.v_proj.'']] (attention_name i ''v_proj'') = Some y"
    "\<exists>y. search_rx [[Lit ''.o_proj.'']] (attention_name i ''o_proj'') = Some y"
    using in_attention_name[of "''q_proj''" i] in_attention_name[of "''k_proj''" i] in_attention_name[of "''v_proj''" i]
      in_attention_name[of "''o_proj''" i] by simp_all
  show "classify_layer (attention_name i ''q_proj'') = ATTENTION_Q" "classify_layer (attention_name i ''k_proj'') = ATTENTION_K"
    "classify_layer (attention_name i ''v_proj'') = ATTENTION_V" "classify_layer (attention_name i ''o_proj'') = ATTENTION_O"
    using q k v y by (auto simp: classify_layer_def layer_patterns_def)
qed

text \<open>Names and architectures. The attention weights of block \<open>i\<close> of a model named as Llama, Mistral or Qwen get the type of
  their projection and the index \<open>i\<close>. The architecture is decided by the first hundred names
  alone, name by name, in the order of the patterns; since the pattern of Llama is the one of Qwen, a Llama
  model is reported as qwen2, and no model is ever reported as llama.\<close>

theorem llama_never_detected:
  "(\<forall>(proj, t) \<in> {(''q_proj'', ATTENTION_Q), (''k_proj'', ATTENTION_K), (''v_proj'', ATTENTION_V), (''o_proj'', ATTENTION_O)}.
      classify_layer (attention_name i proj) = t \<and> extract_block_index (attention_name i proj) = Some i)
   \<and> (let hit = (\<lambda>arch. \<exists>n\<in>set (take 100 names). search_rx (the (map_of arch_patterns arch)) n \<noteq> None)
      in detect_architecture_names names =
           (if hit ''qwen2'' then ''qwen2'' else if hit ''opt'' then ''opt'' else if hit ''gpt_neox'' then ''gpt_neox''
            else if hit ''phi'' then ''phi'' else ''unknown''))
   \<and> (attention_name i ''q_proj'' \<in> set (take 100 names) \<longrightarrow> detect_architecture_names names = ''qwen2'')
   \<and> detect_architecture_names names \<noteq> ''llama''"
proof -
  let ?hit = "\<lambda>arch. \<exists>n\<in>set (take 100 names). search_rx (the (map_of arch_patterns arch)) n \<noteq> None"
  have "\<forall>(a, r)\<in>set arch_patterns. line_rx r"
    by (simp add: arch_patterns_def line_rx_def in_line_def needs_char_def line_sep_def)
  then have "(a, r) \<in> set arch_patterns \<Longrightarrow> search_rx r (join [line_sep] (take 100 names)) \<noteq> None
      \<longleftrightarrow> (\<exists>n\<in>set (take 100 names). search_rx r n \<noteq> None)" for a r
    using search_rx_join by blast
  note j = this[of "''qwen2''"] this[of "''llama''"] this[of "''opt''"] this[of "''gpt_neox''"] this[of "''phi''"]
  have d: "detect_architecture_names names =
           (if ?hit ''qwen2'' then ''qwen2'' else if ?hit ''opt'' then ''opt'' else if ?hit ''gpt_neox'' then ''gpt_neox''
            else if ?hit ''phi'' then ''phi'' else ''unknown'')"
    using j unfolding detect_architecture_names_def Let_def arch_patterns_def
    by (simp del: match_items.simps search_rx.simps split: if_splits)
  have "match_items [Lit ''model.layers.'', Digits, Lit ''.self_attn.q_proj''] (''model.layers.'' @ nat_str i @ CHR ''.'' # ''self_attn.q_proj'' @ ''.weight'')
      = Some [nat_str i]"
    by (rule match_numbered) (use nat_str_digits in \<open>auto simp: is_digit_def\<close>)
  then have m: "match_rx [[Lit ''model.layers.'', Digits, Lit ''.self_attn.q_proj'']] (attention_name i ''q_proj'') = Some [nat_str i]"
    by (simp add: match_rx_def attention_name_def del: match_items.simps)
  have "search_rx r s \<noteq> None" if "match_rx r s \<noteq> None" for r s using that by (cases s) (auto split: option.split)
  with m have "search_rx [[Lit ''model.layers.'', Digits, Lit ''.self_attn.q_proj'']] (attention_name i ''q_proj'') \<noteq> None" by blast
  then have "?hit ''qwen2''" if "attention_name i ''q_proj'' \<in> set (take 100 names)"
    using that by (intro bexI[of _ "attention_name i ''q_proj''"]) (simp_all add: arch_patterns_def del: search_rx.simps)
  then show ?thesis using d attention_block attention_classified by (auto simp: Let_def)
qed

lemma llama_never_detected_witness:
  "detect_architecture_names [''model.embed_tokens.weight'', attention_name 31 ''q_proj''] = ''qwen2''"
  by (rule llama_never_detected[where i = 31 and names = "[''model.embed_tokens.weight'', attention_name 31 ''q_proj'']",
        THEN conjunct2, THEN conjunct2, THEN conjunct1, THEN mp]) simp

end
