(* ===== verification/Route_Manager.thy ===== *)
theory Route_Manager
  imports IO_Bridges "HOL-Library.Countable"
begin

text \<open>
  The semantic router (router/manager.py): route files that are created, signed, verified and loaded, and the
  route command of cli/main.py. Files are bytes in a dictionary, with the set of directories; SHA-256 and HMAC are
  arbitrary functions, and writing and reading JSON text are parameters with the law that what was
  written is read back. Paths are compared as strings.
\<close>

section \<open>Files and hashes\<close>

record route_world =
  rw_files :: "(string, nat list) dict"
  rw_dirs :: "string list"

record route_lib =
  rl_sha256 :: "nat list \<Rightarrow> nat list"
  rl_mac :: "string \<Rightarrow> string \<Rightarrow> nat list"
  rl_render :: "json \<Rightarrow> nat list"
  rl_parse :: "nat list \<Rightarrow> json result"
  rl_frepr :: "rat \<Rightarrow> string"

text \<open>\<open>s.encode('utf-8')\<close> for code points below 256.\<close>

definition utf8 :: "string \<Rightarrow> nat list" where
  "utf8 s = concat (map (\<lambda>c. let n = of_char c :: nat in if n < 128 then [n] else [192 + n div 64, 128 + n mod 64]) s)"

definition calculate_hash :: "route_lib \<Rightarrow> route_world \<Rightarrow> string \<Rightarrow> string" where
  "calculate_hash lib w model_id_or_path =
     (case map_of (rw_files w) model_id_or_path of
        Some bs \<Rightarrow> hexdigest (rl_sha256 lib (foldl (\<lambda>h byte_block. h @ byte_block) [] (read_chunks 65536 bs)))
      | None \<Rightarrow> hexdigest (rl_sha256 lib (utf8 model_id_or_path)))"

text \<open>A directory without the separators at its end, and \<open>os.makedirs\<close>.\<close>

definition dir_key :: "string \<Rightarrow> string" where
  "dir_key p = os_dirname (os_join p [])"

definition new_route_manager :: "string \<Rightarrow> route_world \<Rightarrow> route_world result" where
  "new_route_manager route_dir w =
     (if route_dir = [] then Inl (PyExc FileNotFoundErrorE ''No such file or directory'')
      else if has_key (rw_files w) route_dir then Inl (PyExc OSErrorE ''File exists'')
      else Inr (w\<lparr>rw_dirs := dir_key route_dir # rw_dirs w\<rparr>))"

definition open_write :: "string \<Rightarrow> nat list \<Rightarrow> route_world \<Rightarrow> route_world result" where
  "open_write path content w =
     (if path \<in> set (rw_dirs w) then Inl (PyExc OSErrorE ''Is a directory'')
      else if os_dirname path \<noteq> [] \<and> os_dirname path \<notin> set (rw_dirs w)
      then Inl (PyExc FileNotFoundErrorE ''No such file or directory'')
      else Inr (w\<lparr>rw_files := dict_set path content (rw_files w)\<rparr>))"

definition read_json :: "route_lib \<Rightarrow> route_world \<Rightarrow> string \<Rightarrow> json result" where
  "read_json lib w path =
     (case map_of (rw_files w) path of
        None \<Rightarrow> Inl (if path \<in> set (rw_dirs w) then PyExc OSErrorE ''Is a directory''
                     else PyExc FileNotFoundErrorE ''No such file or directory'')
      | Some bs \<Rightarrow> rl_parse lib bs)"

text \<open>\<open>v[k]\<close> for a string key.\<close>

definition json_item :: "json \<Rightarrow> string \<Rightarrow> json result" where
  "json_item j k = (case j of JObj d \<Rightarrow> dict_item d k | _ \<Rightarrow> Inl (PyExc TypeErrorE ''indices must be integers''))"

text \<open>\<open>json.dumps(v, sort_keys=True)\<close> with the default separators.\<close>

primrec dumps_sorted :: "(rat \<Rightarrow> string) \<Rightarrow> json \<Rightarrow> string" where
  "dumps_sorted frepr JNull = ''null''"
| "dumps_sorted frepr (JBool b) = (if b then ''true'' else ''false'')"
| "dumps_sorted frepr (JInt i) = int_str i"
| "dumps_sorted frepr (JFloat r) = frepr r"
| "dumps_sorted frepr (JStr s) = json_quote s"
| "dumps_sorted frepr (JList xs) = ''['' @ join '', '' (map (dumps_sorted frepr) xs) @ '']''"
| "dumps_sorted frepr (JObj d) =
     ''{'' @ join '', '' (map (\<lambda>p. json_quote (fst p) @ '': '' @ snd p)
               (sort_key fst (map (map_prod id (dumps_sorted frepr)) d))) @ ''}''"

section \<open>The operations\<close>

definition route_document :: "route_lib \<Rightarrow> route_world \<Rightarrow> string \<Rightarrow> string \<Rightarrow> string \<Rightarrow> json \<Rightarrow> json \<Rightarrow> json \<Rightarrow> manifest" where
  "route_document lib w source_id target_id domain R_matrix s_factor expected_drift =
     [(''metadata'', JObj
        [(''source'', JStr source_id), (''target'', JStr target_id), (''domain'', JStr domain),
         (''source_hash'', JStr (calculate_hash lib w source_id)), (''target_hash'', JStr (calculate_hash lib w target_id)),
         (''expected_drift'', expected_drift), (''version'', JStr ''1.0'')]),
      (''matrices'', JObj [(''R'', R_matrix), (''s'', s_factor)]),
      (''signature'', JNull)]"

definition route_filename :: "string \<Rightarrow> string \<Rightarrow> string \<Rightarrow> string" where
  "route_filename source_id target_id domain =
     last (split_on (CHR ''/'') source_id) @ ''-to-'' @ last (split_on (CHR ''/'') target_id) @ ''-'' @ domain @ ''.scalpel_route''"

definition create_route ::
    "route_lib \<Rightarrow> string \<Rightarrow> string \<Rightarrow> string \<Rightarrow> string \<Rightarrow> json \<Rightarrow> json \<Rightarrow> json \<Rightarrow> route_world \<Rightarrow> (string \<times> route_world) result" where
  "create_route lib route_dir source_id target_id domain R_matrix s_factor expected_drift w =
     (let filepath = os_join route_dir (route_filename source_id target_id domain)
      in bindE (open_write filepath
             (rl_render lib (JObj (route_document lib w source_id target_id domain R_matrix s_factor expected_drift))) w)
           (\<lambda>w. Inr (filepath, w)))"

definition route_signature :: "route_lib \<Rightarrow> string \<Rightarrow> manifest \<Rightarrow> string" where
  "route_signature lib key route_data =
     hexdigest (rl_mac lib key (dumps_sorted (rl_frepr lib) (JObj (dict_set ''signature'' JNull route_data))))"

definition sign_route :: "route_lib \<Rightarrow> string \<Rightarrow> string \<Rightarrow> route_world \<Rightarrow> route_world result" where
  "sign_route lib filepath provider_key w =
     bindE (read_json lib w filepath) (\<lambda>j.
       case j of
         JObj d \<Rightarrow>
           open_write filepath
             (rl_render lib (JObj (dict_set ''signature'' (JStr (route_signature lib provider_key d)) (dict_set ''signature'' JNull d)))) w
       | _ \<Rightarrow> Inl (PyExc TypeErrorE ''object does not support item assignment''))"

text \<open>The loop over the trusted keys: whether one of them gives the signature.\<close>

fun any_key_verifies :: "route_lib \<Rightarrow> manifest \<Rightarrow> json \<Rightarrow> string list \<Rightarrow> bool result" where
  "any_key_verifies lib route_data signature [] = Inr False"
| "any_key_verifies lib route_data signature (key # keys) =
     bindE (compare_digest (route_signature lib key route_data) (Some signature)) (\<lambda>same.
       if same then Inr True else any_key_verifies lib route_data signature keys)"

definition check_trust :: "route_lib \<Rightarrow> json \<Rightarrow> string list option \<Rightarrow> unit result" where
  "check_trust lib j trusted_keys =
     (case trusted_keys of
        None \<Rightarrow> Inr ()
      | Some keys \<Rightarrow>
          bindE (as_dict j) (\<lambda>route_data.
            if \<not> opt_truthy (map_of route_data ''signature'')
            then Inl (PyExc PermissionErrorE ''Web of Trust Error: Route is not signed.'')
            else bindE (any_key_verifies lib route_data (the (map_of route_data ''signature'')) keys) (\<lambda>verified.
                 if \<not> verified
                 then Inl (PyExc PermissionErrorE ''Web of Trust Error: Signature verification failed. Route may be poisoned.'')
                 else Inr ())))"

text \<open>\<open>f'{drift:.4f}'\<close> raises for what is not a number.\<close>

definition format_fixed :: "json \<Rightarrow> unit result" where
  "format_fixed j =
     (case j of
        JStr s \<Rightarrow> Inl (PyExc ValueErrorE ''Unknown format code f for object of type str'')
      | _ \<Rightarrow> if json_num j = None then Inl (PyExc TypeErrorE ''unsupported format string'') else Inr ())"

definition check_hash_of :: "route_lib \<Rightarrow> route_world \<Rightarrow> json \<Rightarrow> string \<Rightarrow> string \<Rightarrow> unit result" where
  "check_hash_of lib w metadata what current_id =
     bindE (json_item metadata (what @ ''_hash'')) (\<lambda>h.
       if h \<noteq> JStr (calculate_hash lib w current_id)
       then bindE (json_item metadata what) (\<lambda>_.
              Inl (PyExc ValueErrorE (''Strict Version Control Error: '' @ what @ '' hash mismatch.'')))
       else Inr ())"

definition verify_and_load_route ::
    "route_lib \<Rightarrow> route_world \<Rightarrow> string \<Rightarrow> string \<Rightarrow> string \<Rightarrow> string list option \<Rightarrow> json result" where
  "verify_and_load_route lib w filepath current_source_id current_target_id trusted_keys =
     (if \<not> has_key (rw_files w) filepath \<and> filepath \<notin> set (rw_dirs w)
      then Inl (PyExc FileNotFoundErrorE (''Route file not found: '' @ filepath))
      else bindE (read_json lib w filepath) (\<lambda>j.
           bindE (check_trust lib j trusted_keys) (\<lambda>_.
           bindE (json_item j ''metadata'') (\<lambda>metadata.
           bindE (check_hash_of lib w metadata ''source'' current_source_id) (\<lambda>_.
           bindE (check_hash_of lib w metadata ''target'' current_target_id) (\<lambda>_.
           bindE (as_dict metadata) (\<lambda>md.
           bindE (format_fixed (dict_get md ''expected_drift'' (JFloat 0))) (\<lambda>_.
             json_item j ''matrices''))))))))"

definition load_route :: "route_lib \<Rightarrow> route_world \<Rightarrow> string \<Rightarrow> string \<Rightarrow> string \<Rightarrow> json result" where
  "load_route lib w filepath current_source_id current_target_id =
     verify_and_load_route lib w filepath current_source_id current_target_id None"

text \<open>The route command: an identity matrix and a fixed scale.\<close>

definition create_route_cli :: "route_lib \<Rightarrow> string \<Rightarrow> string \<Rightarrow> string \<Rightarrow> string \<Rightarrow> route_world \<Rightarrow> route_world result" where
  "create_route_cli lib out source target domain w =
     bindE (new_route_manager out w) (\<lambda>w.
     bindE (create_route lib out source target domain
              (JList [JList [JFloat 1, JFloat 0], JList [JFloat 0, JFloat 1]]) (JFloat (105 / 100)) (JFloat 0) w) (\<lambda>(_, w). Inr w))"

section \<open>What an accepted route says\<close>

lemma any_key_verifies_iff:
  "any_key_verifies lib d (JStr s) keys = Inr True \<longleftrightarrow> ascii s \<and> (\<exists>k\<in>set keys. route_signature lib k d = s)"
  by (induction keys) (auto simp: compare_digest_def)

lemma any_key_verifies_total:
  "ascii s \<Longrightarrow> any_key_verifies lib d (JStr s) keys = Inr (\<exists>k\<in>set keys. route_signature lib k d = s)"
  by (induction keys) (auto simp: compare_digest_def)

lemma any_key_verifies_str: "any_key_verifies lib d j keys = Inr True \<Longrightarrow> \<exists>s. j = JStr s"
  by (induction keys) (auto simp: compare_digest_def bindE_Inr_iff split: json.splits if_splits)

lemma check_hash_of_ok:
  "check_hash_of lib w metadata what i = Inr () \<longleftrightarrow> json_item metadata (what @ ''_hash'') = Inr (JStr (calculate_hash lib w i))"
  by (auto simp: check_hash_of_def bindE_Inr_iff split: sum.splits if_splits)

text \<open>C17. A route that is loaded is a document of the file whose recorded hashes are those of the two models at hand and
  whose drift is a number; with a list of trusted keys its signature is moreover the one that a
  trusted key gives for the document without its signature, and what is returned is the document's
  matrices, so a changed document is refused unless some trusted key signs it the same.\<close>

theorem accepted_route_sound:
  assumes "verify_and_load_route lib w filepath source_id target_id trusted_keys = Inr m"
  shows "\<exists>bs d md. map_of (rw_files w) filepath = Some bs \<and> rl_parse lib bs = Inr (JObj d)
    \<and> map_of d ''metadata'' = Some (JObj md)
    \<and> map_of md ''source_hash'' = Some (JStr (calculate_hash lib w source_id))
    \<and> map_of md ''target_hash'' = Some (JStr (calculate_hash lib w target_id))
    \<and> map_of d ''matrices'' = Some m
    \<and> (case trusted_keys of None \<Rightarrow> True
       | Some keys \<Rightarrow> \<exists>k\<in>set keys. map_of d ''signature'' = Some (JStr (route_signature lib k d)))"
proof -
  obtain j where j: "read_json lib w filepath = Inr j" "check_trust lib j trusted_keys = Inr ()"
      and rest: "bindE (json_item j ''metadata'') (\<lambda>metadata.
           bindE (check_hash_of lib w metadata ''source'' source_id) (\<lambda>_.
           bindE (check_hash_of lib w metadata ''target'' target_id) (\<lambda>_.
           bindE (as_dict metadata) (\<lambda>md.
           bindE (format_fixed (dict_get md ''expected_drift'' (JFloat 0))) (\<lambda>_. json_item j ''matrices''))))) = Inr m"
    using assms unfolding verify_and_load_route_def by (auto simp: bindE_Inr_iff split: if_splits)
  obtain md where md: "json_item j ''metadata'' = Inr (JObj md)"
      "check_hash_of lib w (JObj md) ''source'' source_id = Inr ()" "check_hash_of lib w (JObj md) ''target'' target_id = Inr ()"
      "json_item j ''matrices'' = Inr m"
    using rest by (auto simp: bindE_Inr_iff elim!: as_dict.elims)
  obtain d where d: "j = JObj d" using md(1) by (auto simp: json_item_def split: json.splits)
  obtain bs where bs: "map_of (rw_files w) filepath = Some bs" "rl_parse lib bs = Inr (JObj d)"
    using j(1) d by (auto simp: read_json_def split: option.splits)
  have "\<exists>k\<in>set keys. map_of d ''signature'' = Some (JStr (route_signature lib k d))" if t: "trusted_keys = Some keys" for keys
  proof -
    have o: "opt_truthy (map_of d ''signature'')" "any_key_verifies lib d (the (map_of d ''signature'')) keys = Inr True"
      using j(2) d t by (auto simp: check_trust_def bindE_Inr_iff split: if_splits)
    then obtain s where s: "map_of d ''signature'' = Some (JStr s)"
      using any_key_verifies_str[OF o(2)] by (auto simp: opt_truthy_def split: option.splits)
    then show ?thesis using o(2) any_key_verifies_iff by auto
  qed
  then show ?thesis using md d bs
    by (intro exI[of _ bs] exI[of _ d] exI[of _ md])
      (auto simp: check_hash_of_ok json_item_def dict_item_def split: option.splits)
qed

definition sample_lib :: route_lib where
  "sample_lib = \<lparr>rl_sha256 = (\<lambda>bs. [length bs]), rl_mac = (\<lambda>k m. [length k]),
     rl_render = (\<lambda>_. [7]),
     rl_parse = (\<lambda>_. Inr (JObj
       [(''metadata'', JObj [(''source_hash'', JStr ''01''), (''target_hash'', JStr ''02'')]), (''matrices'', JNull),
        (''signature'', JStr ''03'')])), rl_frepr = (\<lambda>_. ''0.0'')\<rparr>"

lemma accepted_route_sound_witness:
  "\<exists>bs d md. map_of [(''r'', [7])] ''r'' = Some bs \<and> rl_parse sample_lib bs = Inr (JObj d)
    \<and> map_of d ''metadata'' = Some (JObj md) \<and> (\<exists>k\<in>set [''x'', ''key'']. map_of d ''signature'' = Some (JStr (route_signature sample_lib k d)))"
proof -
  have hex: "hexdigest [Suc 0] = ''01''" "hexdigest [Suc (Suc 0)] = ''02''" "hexdigest [Suc (Suc (Suc 0))] = ''03''" "ascii ''03''" by code_simp+
  have "verify_and_load_route sample_lib \<lparr>rw_files = [(''r'', [7::nat])], rw_dirs = []\<rparr> ''r'' ''s'' ''tt'' (Some [''x'', ''key'']) = Inr JNull"
    by (simp add: verify_and_load_route_def has_key_def read_json_def sample_lib_def check_trust_def opt_truthy_def route_signature_def
        compare_digest_def hex json_item_def dict_item_def check_hash_of_def calculate_hash_def
        utf8_def dict_get_def format_fixed_def Let_def)
  from accepted_route_sound[OF this] show ?thesis by auto
qed

section \<open>Creating, signing and loading\<close>

lemma open_write_ok:
  "open_write path c w = Inr w' \<Longrightarrow> rw_files w' = dict_set path c (rw_files w) \<and> rw_dirs w' = rw_dirs w"
  by (auto simp: open_write_def split: if_splits)

lemma calculate_hash_other:
  "i \<noteq> path \<Longrightarrow> rw_files w' = dict_set path c (rw_files w) \<Longrightarrow> calculate_hash lib w' i = calculate_hash lib w i"
  by (simp add: calculate_hash_def)

lemma load_document:
  assumes f: "map_of (rw_files w) path = Some bs" "rl_parse lib bs = Inr (JObj d)"
    and d: "map_of d ''metadata'' = Some (JObj md)" "map_of d ''matrices'' = Some m"
      "map_of md ''source_hash'' = Some (JStr (calculate_hash lib w src))" "map_of md ''target_hash'' = Some (JStr (calculate_hash lib w tgt))"
    and drift: "json_num (dict_get md ''expected_drift'' (JFloat 0)) \<noteq> None"
  shows "verify_and_load_route lib w path src tgt keys = bindE (check_trust lib (JObj d) keys) (\<lambda>_. Inr m)"
proof -
  have "format_fixed (dict_get md ''expected_drift'' (JFloat 0)) = Inr ()"
    using drift by (auto simp: format_fixed_def split: json.split)
  then show ?thesis using f d
    by (simp add: verify_and_load_route_def has_key_def read_json_def check_hash_of_def json_item_def dict_item_def)
qed

text \<open>C18. Round trip: a route that is created, signed with a key and loaded for the same models gives back the
  matrices it was created with whenever a trusted key signs the document as the provider's does, and raises otherwise. The
  backward compatible loader returns them without any signature: the chain of trust is only checked by callers that
  pass a list of keys. JSON text is assumed to be read back as written, and the drift to be a number.\<close>

theorem signed_route_roundtrip:
  assumes "\<forall>d. rl_parse lib (rl_render lib (JObj d)) = Inr (JObj d)"
    and "\<forall>k m. rl_mac lib k m \<noteq> []"
    and "create_route lib route_dir src tgt domain R s drift w = Inr (path, w1)"
    and "sign_route lib path key w1 = Inr w2"
    and "src \<noteq> path" and "tgt \<noteq> path" and "json_num drift \<noteq> None"
  shows "\<exists>d. let matrices = JObj [(''R'', R), (''s'', s)]
    in load_route lib w1 path src tgt = Inr matrices \<and> load_route lib w2 path src tgt = Inr matrices
      \<and> (\<exists>e. verify_and_load_route lib w1 path src tgt (Some keys) = Inl e)
      \<and> verify_and_load_route lib w2 path src tgt (Some keys) =
          (if \<exists>k\<in>set keys. route_signature lib k d = route_signature lib key d then Inr matrices
           else Inl (PyExc PermissionErrorE ''Web of Trust Error: Signature verification failed. Route may be poisoned.''))"
proof -
  let ?d = "route_document lib w src tgt domain R s drift"
  let ?sig = "route_signature lib key ?d"
  let ?d2 = "dict_set ''signature'' (JStr ?sig) (dict_set ''signature'' JNull ?d)"
  let ?m = "JObj [(''R'', R), (''s'', s)]"
  have w1: "rw_files w1 = dict_set path (rl_render lib (JObj ?d)) (rw_files w)"
    using assms(3) by (auto simp: create_route_def Let_def bindE_Inr_iff dest: open_write_ok)
  have "read_json lib w1 path = Inr (JObj ?d)" using w1 assms(1) by (simp add: read_json_def)
  then have w2: "rw_files w2 = dict_set path (rl_render lib (JObj ?d2)) (rw_files w1)"
    using assms(4) by (auto simp: sign_route_def dest: open_write_ok)
  have f1: "map_of (rw_files w1) path = Some (rl_render lib (JObj ?d))" "rl_parse lib (rl_render lib (JObj ?d)) = Inr (JObj ?d)"
    and f2: "map_of (rw_files w2) path = Some (rl_render lib (JObj ?d2))" "rl_parse lib (rl_render lib (JObj ?d2)) = Inr (JObj ?d2)"
    using w1 w2 assms(1) by simp_all
  have h: "calculate_hash lib w1 src = calculate_hash lib w src" "calculate_hash lib w1 tgt = calculate_hash lib w tgt"
      "calculate_hash lib w2 src = calculate_hash lib w src" "calculate_hash lib w2 tgt = calculate_hash lib w tgt"
    using calculate_hash_other[OF assms(5) w1] calculate_hash_other[OF assms(6) w1]
      calculate_hash_other[OF assms(5) w2] calculate_hash_other[OF assms(6) w2] by simp_all
  let ?md = "[(''source'', JStr src), (''target'', JStr tgt), (''domain'', JStr domain),
         (''source_hash'', JStr (calculate_hash lib w src)), (''target_hash'', JStr (calculate_hash lib w tgt)),
         (''expected_drift'', drift), (''version'', JStr ''1.0'')]"
  have drift: "json_num (dict_get ?md ''expected_drift'' (JFloat 0)) \<noteq> None" using assms(7) by (simp add: dict_get_def)
  have l1: "verify_and_load_route lib w1 path src tgt ks = bindE (check_trust lib (JObj ?d) ks) (\<lambda>_. Inr ?m)" for ks
    by (rule load_document[OF f1 _ _ _ _ drift]) (simp_all add: h route_document_def)
  have l2: "verify_and_load_route lib w2 path src tgt ks = bindE (check_trust lib (JObj ?d2) ks) (\<lambda>_. Inr ?m)" for ks
    by (rule load_document[OF f2 _ _ _ _ drift]) (simp_all add: h, simp_all add: route_document_def)
  have sg: "route_signature lib k ?d2 = route_signature lib k ?d" for k by (simp add: route_signature_def route_document_def)
  have a: "ascii ?sig" by (simp add: route_signature_def hexdigest_ascii)
  have "?sig \<noteq> []" using assms(2) by (auto simp: route_signature_def hexdigest_def hex2_def neq_Nil_conv)
  then have c2: "check_trust lib (JObj ?d2) (Some keys) = (if \<exists>k\<in>set keys. route_signature lib k ?d = ?sig then Inr ()
      else Inl (PyExc PermissionErrorE ''Web of Trust Error: Signature verification failed. Route may be poisoned.''))"
    using any_key_verifies_total[OF a, of lib ?d2 keys] unfolding sg by (simp add: check_trust_def opt_truthy_def)
  have c1: "check_trust lib (JObj ?d) (Some keys) = Inl (PyExc PermissionErrorE ''Web of Trust Error: Route is not signed.'')"
    by (simp add: check_trust_def opt_truthy_def route_document_def)
  have c0: "check_trust lib j None = Inr ()" for j by (simp add: check_trust_def)
  have "verify_and_load_route lib w2 path src tgt (Some keys) = (if \<exists>k\<in>set keys. route_signature lib k ?d = ?sig then Inr ?m
      else Inl (PyExc PermissionErrorE ''Web of Trust Error: Signature verification failed. Route may be poisoned.''))"
    unfolding l2 c2 by simp
  moreover have "load_route lib w1 path src tgt = Inr ?m" "load_route lib w2 path src tgt = Inr ?m"
    unfolding load_route_def l1 l2 c0 by simp_all
  moreover have "\<exists>e. verify_and_load_route lib w1 path src tgt (Some keys) = Inl e" unfolding l1 c1 by simp
  ultimately show ?thesis unfolding Let_def by (intro exI[of _ ?d] conjI)
qed

text \<open>Documents are countable, so there is a text format with the law.\<close>

instance json :: countable
  by countable_datatype

definition counting_lib :: route_lib where
  "counting_lib = \<lparr>rl_sha256 = (\<lambda>bs. [length bs]), rl_mac = (\<lambda>k m. [length k]), rl_render = (\<lambda>j. [to_nat j]),
     rl_parse = (\<lambda>bs. Inr (from_nat (hd bs))), rl_frepr = (\<lambda>_. ''0.0'')\<rparr>"

lemma signed_route_roundtrip_witness:
  "\<exists>path w1 w2. create_route counting_lib ''r'' ''s'' ''t'' ''d'' (JList []) (JInt 1) (JInt 0) \<lparr>rw_files = [], rw_dirs = [''r'']\<rparr> = Inr (path, w1)
    \<and> sign_route counting_lib path ''key'' w1 = Inr w2
    \<and> verify_and_load_route counting_lib w2 path ''s'' ''t'' (Some [''key'']) = Inr (JObj [(''R'', JList []), (''s'', JInt 1)])"
proof -
  let ?w = "\<lparr>rw_files = [], rw_dirs = [''r'']\<rparr>" and ?p = "''r/s-to-t-d.scalpel_route''"
  have law: "\<forall>d. rl_parse counting_lib (rl_render counting_lib (JObj d)) = Inr (JObj d)" "\<forall>k m. rl_mac counting_lib k m \<noteq> []"
    by (simp_all add: counting_lib_def)
  have path: "os_join ''r'' (route_filename ''s'' ''t'' ''d'') = ?p" "os_dirname ?p = ''r''" by code_simp+
  have "\<exists>c. create_route counting_lib ''r'' ''s'' ''t'' ''d'' (JList []) (JInt 1) (JInt 0) ?w
      = Inr (?p, \<lparr>rw_files = [(?p, rl_render counting_lib (JObj c))], rw_dirs = [''r'']\<rparr>)"
    unfolding create_route_def Let_def path(1) by (rule exI[of _ "route_document counting_lib ?w ''s'' ''t'' ''d'' (JList []) (JInt 1) (JInt 0)"]) (simp add: open_write_def path(2))
  then obtain c where c: "create_route counting_lib ''r'' ''s'' ''t'' ''d'' (JList []) (JInt 1) (JInt 0) ?w
      = Inr (?p, \<lparr>rw_files = [(?p, rl_render counting_lib (JObj c))], rw_dirs = [''r'']\<rparr>)" by blast
  have "\<exists>w2. sign_route counting_lib ?p ''key'' \<lparr>rw_files = [(?p, rl_render counting_lib (JObj c))], rw_dirs = [''r'']\<rparr> = Inr w2"
    using law(1) by (simp add: sign_route_def read_json_def open_write_def path(2))
  then obtain w2 where w2: "sign_route counting_lib ?p ''key'' \<lparr>rw_files = [(?p, rl_render counting_lib (JObj c))], rw_dirs = [''r'']\<rparr> = Inr w2"
    by blast
  from signed_route_roundtrip[OF law c w2, of "[''key'']"] c w2 show ?thesis by (auto simp: Let_def)
qed

end
