(* ===== verification/Behavior.thy ===== *)
theory Behavior
  imports Diagnostics Optimal_Transport
begin

text \<open>
  What the library measures of the behaviour of a model: the perplexity over windows and the divergence
  of core/evaluator.py, and \<open>validate_behavior\<close> of core/ops.py with its report of core/validation.py.
  Logits are exact reals or something not finite; the model, the tokenizer, PEFT and the
  number formats are parameters.
\<close>

section \<open>Softmax and divergence\<close>

definition softmax :: "nat \<Rightarrow> (nat \<Rightarrow> real) \<Rightarrow> nat \<Rightarrow> real" where
  "softmax n x i = exp (x i) / (\<Sum>k<n. exp (x k))"

definition log_softmax :: "nat \<Rightarrow> (nat \<Rightarrow> real) \<Rightarrow> nat \<Rightarrow> real" where
  "log_softmax n x i = x i - logsumexp n x"

text \<open>\<open>kl_div(log_q, p, reduction='batchmean')\<close> for one row: the sum of \<open>p (log p - log q)\<close>.\<close>

definition kl_row :: "nat \<Rightarrow> (nat \<Rightarrow> real) \<Rightarrow> (nat \<Rightarrow> real) \<Rightarrow> real" where
  "kl_row n base adapter = (\<Sum>i<n. softmax n base i * (ln (softmax n base i) - log_softmax n adapter i))"

text \<open>A text is one batch of logits for every position; \<open>batchmean\<close> divides by the number of batches,
  one, so that the divergences of all positions are added up.\<close>

definition measure_kl_divergence ::
    "(string \<Rightarrow> (nat \<Rightarrow> real) list result) \<Rightarrow> (string \<Rightarrow> (nat \<Rightarrow> real) list result) \<Rightarrow> nat \<Rightarrow> string \<Rightarrow> real result" where
  "measure_kl_divergence surgical_model base_model vocabulary input_text =
     bindE (surgical_model input_text) (\<lambda>surgical.
     bindE (base_model input_text) (\<lambda>base.
       if length surgical \<noteq> length base then Inl (PyExc RuntimeErrorE ''The size of tensor a must match the size of tensor b'')
       else Inr (sum_list (map2 (kl_row vocabulary) base surgical) / real 1)))"

subsection \<open>Divergences are not negative\<close>

lemma softmax_pos: "0 < n \<Longrightarrow> 0 < softmax n x i"
  by (simp add: softmax_def exp_sum_pos)

lemma softmax_sum: "0 < n \<Longrightarrow> (\<Sum>i<n. softmax n x i) = 1"
  using exp_sum_pos[of n x] by (simp add: softmax_def flip: sum_divide_distrib)

lemma log_softmax_ln: "0 < n \<Longrightarrow> log_softmax n x i = ln (softmax n x i)"
  using exp_sum_pos[of n x] by (simp add: log_softmax_def softmax_def logsumexp_def ln_div)

lemma kl_term: "0 < n \<Longrightarrow> softmax n b i - softmax n a i \<le> softmax n b i * (ln (softmax n b i) - log_softmax n a i)"
proof -
  assume n: "0 < n"
  let ?p = "softmax n b i" and ?q = "softmax n a i"
  have pq: "0 < ?p" "0 < ?q" using softmax_pos n by auto
  have "ln (?q / ?p) \<le> ?q / ?p - 1" using pq by (intro ln_le_minus_one) simp
  then have "?p * (ln ?q - ln ?p) \<le> ?p * (?q / ?p - 1)" using pq by (simp add: ln_div)
  also have "\<dots> = ?q - ?p" using pq by (simp add: field_simps)
  finally show ?thesis using n by (simp add: log_softmax_ln algebra_simps)
qed

lemma kl_nonneg: "0 < n \<Longrightarrow> 0 \<le> kl_row n b a"
proof -
  assume n: "0 < n"
  have "(\<Sum>i<n. softmax n b i - softmax n a i) \<le> kl_row n b a" unfolding kl_row_def by (rule sum_mono) (rule kl_term[OF n])
  then show ?thesis using n by (simp add: sum_subtractf softmax_sum)
qed

lemma kl_zero_softmax:
  assumes n: "0 < n" and z: "kl_row n b a = 0" and i: "i < n"
  shows "softmax n b i = softmax n a i"
proof -
  let ?gap = "\<lambda>i. softmax n b i * (ln (softmax n b i) - log_softmax n a i) - (softmax n b i - softmax n a i)"
  have "(\<Sum>i<n. ?gap i) = 0" using z n by (simp add: kl_row_def sum_subtractf softmax_sum)
  moreover have "\<And>i. i \<in> {..<n} \<Longrightarrow> 0 \<le> ?gap i" using kl_term[OF n] by simp
  ultimately have "?gap i = 0" using i sum_nonneg_eq_0_iff[of "{..<n}" ?gap] by blast
  then have g: "softmax n b i * (ln (softmax n a i / softmax n b i)) = softmax n a i - softmax n b i"
    using softmax_pos[OF n, of b i] softmax_pos[OF n, of a i] n by (simp add: log_softmax_ln ln_div algebra_simps)
  then have "ln (softmax n a i / softmax n b i) = softmax n a i / softmax n b i - 1"
    using softmax_pos[OF n, of b i] by (simp add: field_simps)
  then have "softmax n a i / softmax n b i = 1"
    using softmax_pos[OF n, of b i] softmax_pos[OF n, of a i] by (intro ln_eq_minus_one) simp_all
  then show ?thesis using softmax_pos[OF n, of b i] by (simp add: field_simps)
qed

lemma softmax_shift: "(\<And>i. i < n \<Longrightarrow> a i = b i + c) \<Longrightarrow> i < n \<Longrightarrow> softmax n a i = softmax n b i"
proof -
  assume s: "\<And>i. i < n \<Longrightarrow> a i = b i + c" and i: "i < n"
  have "(\<Sum>k<n. exp (a k)) = exp c * (\<Sum>k<n. exp (b k))"
    unfolding sum_distrib_left by (rule sum.cong) (simp_all add: s exp_add)
  then show ?thesis using i by (simp add: softmax_def s exp_add)
qed

lemma kl_zero_iff:
  assumes n: "0 < n"
  shows "kl_row n b a = 0 \<longleftrightarrow> (\<exists>c. \<forall>i<n. a i = b i + c)"
proof
  assume z: "kl_row n b a = 0"
  have "a i = b i + (logsumexp n a - logsumexp n b)" if "i < n" for i
    using arg_cong[OF kl_zero_softmax[OF n z that], of ln] by (simp add: log_softmax_def flip: log_softmax_ln[OF n])
  then show "\<exists>c. \<forall>i<n. a i = b i + c" by blast
next
  assume "\<exists>c. \<forall>i<n. a i = b i + c"
  then have "softmax n a i = softmax n b i" if "i < n" for i using softmax_shift[of n a b _ i] that by blast
  then show "kl_row n b a = 0" using n by (simp add: kl_row_def log_softmax_ln)
qed

lemma divergence_adds_up:
  "measure_kl_divergence (\<lambda>_. Inr (replicate t a)) (\<lambda>_. Inr (replicate t b)) n s = Inr (real t * kl_row n b a)"
  by (simp add: measure_kl_divergence_def zip_replicate sum_list_replicate)

section \<open>Perplexity\<close>

text \<open>One window: its tokens, and the labels with the context masked by \<open>-100\<close>. The loss of the model is a parameter.\<close>

definition mask_context :: "nat \<Rightarrow> int list \<Rightarrow> int list" where
  "mask_context trg_len target_ids =
     (let m = length target_ids - trg_len in replicate (if trg_len = 0 then 0 else m) (- 100) @ drop (if trg_len = 0 then 0 else m) target_ids)"

function window_losses :: "(int list \<Rightarrow> int list \<Rightarrow> real result) \<Rightarrow> int list \<Rightarrow> nat \<Rightarrow> nat \<Rightarrow> nat \<Rightarrow> real list result" where
  "window_losses loss ids stride begin_loc prev_end_loc =
     (if stride = 0 \<or> length ids \<le> begin_loc then Inr []
      else let end_loc = min (begin_loc + stride) (length ids);
               trg_len = end_loc - prev_end_loc;
               input_ids = drop begin_loc (take end_loc ids)
           in bindE (loss input_ids (mask_context trg_len input_ids)) (\<lambda>nll.
              if end_loc = length ids then Inr [nll]
              else bindE (window_losses loss ids stride (begin_loc + stride) end_loc) (\<lambda>nlls. Inr (nll # nlls))))"
  by pat_completeness auto

termination
  by (relation "measure (\<lambda>(_, ids, _, b, _). length ids - b)") auto

declare window_losses.simps [simp del]

definition mean_of :: "real list \<Rightarrow> real" where
  "mean_of xs = sum_list xs / real (length xs)"

definition calculate_perplexity :: "(string \<Rightarrow> int list) \<Rightarrow> (int list \<Rightarrow> int list \<Rightarrow> real result) \<Rightarrow> string \<Rightarrow> nat \<Rightarrow> real result" where
  "calculate_perplexity tokenizer loss txt stride =
     (if stride = 0 then Inl (PyExc ValueErrorE ''range() arg 3 must not be zero'')
      else bindE (window_losses loss (tokenizer txt) stride 0 0) (\<lambda>nlls.
        if nlls = [] then Inl (PyExc RuntimeErrorE ''stack expects a non-empty TensorList'')
        else Inr (exp (mean_of nlls))))"

text \<open>Consecutive pieces of a list.\<close>

function chunks :: "nat \<Rightarrow> 'a list \<Rightarrow> 'a list list" where
  "chunks k xs = (if k = 0 \<or> xs = [] then [] else take k xs # chunks k (drop k xs))"
  by pat_completeness auto

termination
  by (relation "measure (\<lambda>(_, xs). length xs)") auto

declare chunks.simps [simp del]

lemma chunks_concat: "0 < k \<Longrightarrow> concat (chunks k xs) = xs"
  by (induction k xs rule: chunks.induct) (subst chunks.simps, auto)

lemma chunks_length: "c \<in> set (chunks k xs) \<Longrightarrow> 0 < length c \<and> length c \<le> k"
  by (induction k xs rule: chunks.induct) (subst (asm) (2) chunks.simps, auto split: if_splits)

lemma mask_nothing: "length xs \<le> n \<Longrightarrow> mask_context n xs = xs"
  by (simp add: mask_context_def Let_def)

lemma window_losses_chunks:
  "0 < stride \<Longrightarrow> window_losses loss ids stride b b = mapE (\<lambda>c. loss c c) (chunks stride (drop b ids))"
proof (induction "length ids - b" arbitrary: b rule: less_induct)
  case less
  show ?case
  proof (cases "length ids \<le> b")
    case True
    then show ?thesis by (simp add: window_losses.simps chunks.simps)
  next
    case False
    let ?e = "min (b + stride) (length ids)"
    have chunk: "drop b (take ?e ids) = take stride (drop b ids)" by (simp add: drop_take min_def)
    have mask: "mask_context (?e - b) (take stride (drop b ids)) = take stride (drop b ids)" by (rule mask_nothing) auto
    have unfold: "window_losses loss ids stride b b = bindE (loss (take stride (drop b ids)) (take stride (drop b ids))) (\<lambda>nll.
        if ?e = length ids then Inr [nll]
        else bindE (window_losses loss ids stride (b + stride) ?e) (\<lambda>nlls. Inr (nll # nlls)))"
      unfolding window_losses.simps[of loss ids stride b b] Let_def chunk mask using False less(2) by simp
    have rest: "window_losses loss ids stride (b + stride) ?e = mapE (\<lambda>c. loss c c) (chunks stride (drop stride (drop b ids)))"
      if "?e \<noteq> length ids"
      using less(1)[of "b + stride"] less(2) that False by (simp add: min_def add.commute split: if_splits)
    have last: "chunks stride (drop stride (drop b ids)) = []" if "?e = length ids"
      using that by (subst chunks.simps) (auto simp: min_def split: if_splits)
    have cs: "chunks stride (drop b ids) = take stride (drop b ids) # chunks stride (drop stride (drop b ids))"
      using False less(2) by (subst chunks.simps) simp
    show ?thesis
    proof (cases "?e = length ids")
      case True
      then show ?thesis
        unfolding unfold cs last[OF True] by simp
    next
      case more: False
      show ?thesis
        by (simp only: unfold cs mapE.simps rest[OF more] more if_False)
    qed
  qed
qed

text \<open>Perplexity. On a text with tokens and a positive stride the windows are the consecutive pieces of the
  token sequence: together they are the whole text, none is empty or longer than the stride, and every
  token of a piece is a label, since the context that the masking provides for is always empty. The result is the exponential of the
  plain mean of the losses of the pieces (the first error of the model otherwise), whatever their lengths; a text without tokens raises.\<close>

theorem perplexity_over_pieces:
  assumes "0 < stride"
  shows "let pieces = chunks stride (tokenizer txt) in
      concat pieces = tokenizer txt
    \<and> (\<forall>c\<in>set pieces. 0 < length c \<and> length c \<le> stride)
    \<and> calculate_perplexity tokenizer loss txt stride =
        (if tokenizer txt = [] then Inl (PyExc RuntimeErrorE ''stack expects a non-empty TensorList'')
         else bindE (mapE (\<lambda>c. loss c c) pieces) (\<lambda>nlls. Inr (exp (sum_list nlls / real (length pieces)))))"
proof -
  let ?cs = "chunks stride (tokenizer txt)"
  have w: "window_losses loss (tokenizer txt) stride 0 0 = mapE (\<lambda>c. loss c c) ?cs"
    using window_losses_chunks[OF assms, of loss "tokenizer txt" 0] by simp
  have none: "?cs = [] \<longleftrightarrow> tokenizer txt = []" using assms by (subst chunks.simps) simp
  have "calculate_perplexity tokenizer loss txt stride =
        (if tokenizer txt = [] then Inl (PyExc RuntimeErrorE ''stack expects a non-empty TensorList'')
         else bindE (mapE (\<lambda>c. loss c c) ?cs) (\<lambda>nlls. Inr (exp (sum_list nlls / real (length ?cs)))))"
    unfolding calculate_perplexity_def w mean_of_def
    using assms none by (cases "mapE (\<lambda>c. loss c c) ?cs") (auto dest: mapE_length)
  then show ?thesis using chunks_concat[OF assms] chunks_length by (auto simp: Let_def)
qed

lemma perplexity_over_pieces_witness:
  "calculate_perplexity (\<lambda>_. [5, 6, 7]) (\<lambda>ids labels. Inr (if labels = [7] then 4 else 0)) ''abc'' 2 = Inr (exp 2)"
proof -
  have "chunks 2 [5, 6, 7] = [[5, 6], [7 :: int]]" by (simp add: chunks.simps)
  then show ?thesis
    using perplexity_over_pieces[of 2 "\<lambda>_. [5, 6, 7]" "''abc''" "\<lambda>ids labels. Inr (if labels = [7] then 4 else 0)"] by (simp add: Let_def)
qed

section \<open>Behavioural validation\<close>

datatype logit = Finite real | Not_Finite

text \<open>A loaded PEFT model: its named parameters, and for a text the logits at the last position with the adapter
  disabled and enabled, token by token.\<close>

record peft_model =
  pm_parameters :: "(string \<times> real list) list"
  pm_logits :: "string \<Rightarrow> (logit \<times> logit) list result"

record behavior_env =
  be_prepare :: "unit result"
  be_load :: "string \<Rightarrow> peft_model result"
  be_formatter :: "(string \<Rightarrow> string result) option"
  be_percent :: "real \<Rightarrow> string"
  be_exponent :: "real \<Rightarrow> string"

record behavior_report = validation_report +
  br_summary :: string
  br_metrics :: "(string, real) dict"

definition new_validation_report :: "string \<Rightarrow> string \<Rightarrow> behavior_report" where
  "new_validation_report phase status =
     \<lparr>vr_phase = phase, vr_status = status, vr_gates = [], br_summary = [], br_metrics = []\<rparr>"

definition tensor_norm :: "real list \<Rightarrow> real" where
  "tensor_norm xs = sqrt (sum_list (map (\<lambda>x. x\<^sup>2) xs))"

definition lora_parameters :: "peft_model \<Rightarrow> (string \<times> real list) list" where
  "lora_parameters model = filter (\<lambda>p. substring ''lora_'' (fst p)) (pm_parameters model)"

fun finite_value :: "logit \<Rightarrow> real" where
  "finite_value (Finite x) = x"
| "finite_value Not_Finite = 0"

text \<open>One prompt: \<open>None\<close> stands for logits that are not finite, otherwise the divergence and whether the
  first token differs.\<close>

definition compare_prompt :: "behavior_env \<Rightarrow> peft_model \<Rightarrow> string \<Rightarrow> (real \<times> bool) option result" where
  "compare_prompt env model prompt =
     bindE (case be_formatter env of None \<Rightarrow> Inr prompt | Some f \<Rightarrow> f prompt) (\<lambda>txt.
     bindE (pm_logits model txt) (\<lambda>logits.
       if (\<exists>p\<in>set logits. fst p = Not_Finite \<or> snd p = Not_Finite) then Inr None
       else let n = length logits;
                base = (\<lambda>i. finite_value (fst (logits ! i)));
                adapter = (\<lambda>i. finite_value (snd (logits ! i)))
            in if n = 0 then Inl (PyExc IndexErrorE ''argmax(): Expected reduction dim to be specified for input.numel() == 0'')
               else Inr (Some (kl_row n base adapter, argmax_below n base \<noteq> argmax_below n adapter))))"

fun compare_prompts :: "behavior_env \<Rightarrow> peft_model \<Rightarrow> string list \<Rightarrow> real list \<times> nat \<Rightarrow> (real list \<times> nat) option result" where
  "compare_prompts env model [] res = Inr (Some res)"
| "compare_prompts env model (prompt # prompts) (kls, shifts) =
     bindE (compare_prompt env model prompt) (\<lambda>c.
       case c of
         None \<Rightarrow> Inr None
       | Some (kl, shift) \<Rightarrow> compare_prompts env model prompts (kls @ [kl], if shift then shifts + 1 else shifts))"

definition fail_report :: "string \<Rightarrow> string \<Rightarrow> string \<Rightarrow> behavior_report \<Rightarrow> behavior_report" where
  "fail_report summary gate message r =
     add_gate gate False message ''critical'' None None (r\<lparr>vr_status := ''FAIL'', br_summary := summary\<rparr>)"

definition behavior_gate :: "behavior_env \<Rightarrow> real \<Rightarrow> real \<Rightarrow> real \<Rightarrow> behavior_report \<Rightarrow> behavior_report" where
  "behavior_gate env kl_threshold mean_kl shift_rate r =
     (let r = r\<lparr>br_metrics := [(''mean_kl'', mean_kl), (''shift_rate'', shift_rate)]\<rparr>
      in if 0 < shift_rate
         then add_gate ''G8'' True (''Behavioral shift observed: '' @ be_percent env shift_rate @ '' tokens changed.'') ''info'' None None
                (r\<lparr>vr_status := ''PASS'', br_summary := ''BEHAVIORAL_SHIFT_DETECTED''\<rparr>)
         else if kl_threshold \<le> mean_kl
         then add_gate ''G8'' True (''Logit signal observed (KL='' @ be_exponent env mean_kl @ '') but no Top-1 shift.'') ''info'' None None
                (r\<lparr>vr_status := ''PASS'', br_summary := ''LOGIT_SIGNAL_OBSERVED''\<rparr>)
         else add_gate ''G8'' False
                (''No meaningful signal (KL='' @ be_exponent env mean_kl @ '', shift='' @ be_percent env shift_rate @ '').'') ''warning'' None None
                (r\<lparr>vr_status := ''WARNING'', br_summary := ''NO_MEANINGFUL_SIGNAL''\<rparr>))"

text \<open>The handler of the outer \<open>try\<close>.\<close>

definition unexpected :: "pyexc \<Rightarrow> behavior_report \<Rightarrow> behavior_report" where
  "unexpected e r =
     add_gate ''G7'' False (''Validation failed due to unexpected error: '' @ exc_msg e) ''critical'' None None (r\<lparr>vr_status := ''FAIL''\<rparr>)"

definition check_prompts :: "behavior_env \<Rightarrow> peft_model \<Rightarrow> string list \<Rightarrow> real \<Rightarrow> behavior_report \<Rightarrow> behavior_report" where
  "check_prompts env model prompts kl_threshold r =
     (case compare_prompts env model prompts ([], 0) of
        Inl e \<Rightarrow> unexpected e r
      | Inr None \<Rightarrow> fail_report ''NUMERICALLY_UNSTABLE'' ''G8'' ''Non-finite values detected in logits.'' r
      | Inr (Some (kls, shifts)) \<Rightarrow>
          behavior_gate env kl_threshold (mean_of kls) (real shifts / real (length prompts)) r)"

definition validate_behavior :: "behavior_env \<Rightarrow> string \<Rightarrow> string list \<Rightarrow> real \<Rightarrow> bool \<Rightarrow> behavior_report result" where
  "validate_behavior env adapter_path prompts kl_threshold require_nonzero_adapter =
     (if prompts = [] then Inl (PyExc ValueErrorE ''validate_behavior requires at least one prompt.'')
      else let r = new_validation_report ''G8'' ''PENDING'' in
        Inr (case be_prepare env of
               Inl e \<Rightarrow> unexpected e r
             | Inr _ \<Rightarrow>
                 (case be_load env adapter_path of
                    Inl e \<Rightarrow> fail_report ''ARTIFACT_LOAD_FAILED'' ''G7'' (''PEFT load failed: '' @ exc_msg e) r
                  | Inr model \<Rightarrow>
                      (let r = add_gate ''G7'' True ''PEFT Adapter loaded successfully.'' ''info'' None None r
                       in if require_nonzero_adapter \<and> lora_parameters model = []
                          then fail_report ''ADAPTER_NOT_ACTIVE'' ''G7'' ''No LoRA parameters found in the model.'' r
                          else if require_nonzero_adapter \<and> \<not> list_ex (\<lambda>p. 0 < tensor_norm (snd p)) (lora_parameters model)
                          then fail_report ''ADAPTER_NOT_ACTIVE'' ''G7'' ''LoRA parameters are all zero.'' r
                          else check_prompts env model prompts kl_threshold r))))"

subsection \<open>Verdicts\<close>

lemma compare_prompts_iff:
  "compare_prompts env model ps res = Inr (Some out) \<longleftrightarrow>
     (\<exists>cs. map (compare_prompt env model) ps = map (\<lambda>c. Inr (Some c)) cs
        \<and> out = (fst res @ map fst cs, snd res + length (filter snd cs)))"
proof (induction ps arbitrary: res)
  case (Cons p ps)
  show ?case
  proof (cases "\<exists>c. compare_prompt env model p = Inr (Some c)")
    case True
    then obtain kl shift where c: "compare_prompt env model p = Inr (Some (kl, shift))" by auto
    have "compare_prompts env model (p # ps) res = Inr (Some out) \<longleftrightarrow>
        (\<exists>cs. map (compare_prompt env model) ps = map (\<lambda>c. Inr (Some c)) cs
          \<and> out = (fst res @ map fst ((kl, shift) # cs), snd res + length (filter snd ((kl, shift) # cs))))"
      using c Cons.IH by (cases res) (auto simp: ac_simps)
    also have "\<dots> \<longleftrightarrow> (\<exists>cs. map (compare_prompt env model) (p # ps) = map (\<lambda>c. Inr (Some c)) cs
          \<and> out = (fst res @ map fst cs, snd res + length (filter snd cs)))"
      using c by (auto simp: Cons_eq_map_conv)
    finally show ?thesis .
  next
    case False
    then show ?thesis by (cases res) (auto simp: bindE_Inr_iff Cons_eq_map_conv split: option.splits)
  qed
qed (cases res, auto)

lemma compare_prompt_nonneg: "compare_prompt env model p = Inr (Some c) \<Longrightarrow> 0 \<le> fst c"
  by (auto simp: compare_prompt_def bindE_Inr_iff Let_def kl_nonneg split: if_splits)

lemma tensor_norm_pos: "0 < tensor_norm xs \<longleftrightarrow> (\<exists>x\<in>set xs. x \<noteq> 0)"
proof -
  have "sum_list (map (\<lambda>x. x\<^sup>2) xs) = 0 \<longleftrightarrow> (\<forall>x\<in>set xs. x = 0)"
    by (subst sum_list_nonneg_eq_0_iff) auto
  moreover have "0 \<le> sum_list (map (\<lambda>x. x\<^sup>2) xs)" by (rule sum_list_nonneg) auto
  ultimately show ?thesis by (auto simp: tensor_norm_def less_le)
qed

lemma mean_nonneg: "(\<And>x. x \<in> set xs \<Longrightarrow> 0 \<le> x) \<Longrightarrow> 0 \<le> mean_of xs"
  by (simp add: mean_of_def sum_list_nonneg)

text \<open>When the validation gets as far as a verdict on the behaviour.\<close>

definition compared :: "behavior_env \<Rightarrow> string \<Rightarrow> string list \<Rightarrow> bool \<Rightarrow> (real \<times> bool) list \<Rightarrow> bool" where
  "compared env path prompts req cs \<longleftrightarrow>
     (\<exists>u model. be_prepare env = Inr u \<and> be_load env path = Inr model
        \<and> (req \<longrightarrow> (\<exists>p\<in>set (lora_parameters model). \<exists>x\<in>set (snd p). x \<noteq> 0))
        \<and> map (compare_prompt env model) prompts = map (\<lambda>c. Inr (Some c)) cs)"

lemma validate_compared:
  assumes "prompts \<noteq> []" and "compared env path prompts req cs"
  shows "validate_behavior env path prompts thr req =
    Inr (behavior_gate env thr (mean_of (map fst cs)) (real (length (filter snd cs)) / real (length prompts))
      (add_gate ''G7'' True ''PEFT Adapter loaded successfully.'' ''info'' None None (new_validation_report ''G8'' ''PENDING'')))"
proof -
  obtain u model where m: "be_prepare env = Inr u" "be_load env path = Inr model"
      "req \<longrightarrow> (\<exists>p\<in>set (lora_parameters model). \<exists>x\<in>set (snd p). x \<noteq> 0)"
      "map (compare_prompt env model) prompts = map (\<lambda>c. Inr (Some c)) cs"
    using assms(2) by (auto simp: compared_def)
  have "compare_prompts env model prompts ([], 0) = Inr (Some (map fst cs, length (filter snd cs)))"
    using m(4) by (auto simp: compare_prompts_iff)
  moreover have "req \<longrightarrow> lora_parameters model \<noteq> [] \<and> list_ex (\<lambda>p. 0 < tensor_norm (snd p)) (lora_parameters model)"
    using m(3) by (auto simp: list_ex_iff tensor_norm_pos)
  ultimately show ?thesis using assms(1) m(1,2) by (auto simp: validate_behavior_def check_prompts_def Let_def)
qed

lemma all_passed_iff: "is_all_passed None r \<longleftrightarrow> (\<forall>gid g. map_of (vr_gates r) gid = Some g \<longrightarrow> vg_success g)"
proof -
  have "gid \<in> set (dict_keys (vr_gates r))" if "map_of (vr_gates r) gid = Some g" for gid g
    using map_of_SomeD[OF that] by force
  then show ?thesis by (auto simp: is_all_passed_def list_all_iff split: option.splits)
qed

lemma failed_gate:
  "vr_status (fail_report sm g msg r) = ''FAIL'' \<and> \<not> is_all_passed None (fail_report sm g msg r)"
  "vr_status (unexpected e r) = ''FAIL'' \<and> \<not> is_all_passed None (unexpected e r)"
  unfolding all_passed_iff by (auto simp: fail_report_def unexpected_def add_gate_def)

lemma validate_not_compared:
  assumes "prompts \<noteq> []" and "\<nexists>cs. compared env path prompts req cs"
  shows "\<exists>r. validate_behavior env path prompts thr req = Inr r \<and> vr_status r = ''FAIL'' \<and> \<not> is_all_passed None r"
proof (cases "be_prepare env")
  case (Inr u)
  show ?thesis
  proof (cases "be_load env path")
    case load: (Inr model)
    let ?active = "\<exists>p\<in>set (lora_parameters model). \<exists>x\<in>set (snd p). x \<noteq> 0"
    let ?r = "add_gate ''G7'' True ''PEFT Adapter loaded successfully.'' ''info'' None None (new_validation_report ''G8'' ''PENDING'')"
    show ?thesis
    proof (cases "req \<and> \<not> ?active")
      case True
      then show ?thesis
        using assms(1) Inr load failed_gate by (auto simp: validate_behavior_def Let_def list_ex_iff tensor_norm_pos)
    next
      case active: False
      have "compare_prompts env model prompts ([], 0) \<noteq> Inr (Some out)" for out
        using assms(2) Inr load active by (auto simp: compare_prompts_iff compared_def)
      then have "\<exists>r. check_prompts env model prompts thr ?r = r \<and> vr_status r = ''FAIL'' \<and> \<not> is_all_passed None r"
        using failed_gate by (auto simp: check_prompts_def split: sum.split option.split)
      moreover have "validate_behavior env path prompts thr req = Inr (check_prompts env model prompts thr ?r)"
        using assms(1) Inr load active by (auto simp: validate_behavior_def Let_def list_ex_iff tensor_norm_pos)
      ultimately show ?thesis by simp
    qed
  qed (use assms(1) Inr failed_gate in \<open>simp add: validate_behavior_def\<close>)
qed (use assms(1) failed_gate in \<open>simp add: validate_behavior_def\<close>)

lemma behavior_gate_report:
  assumes "r = behavior_gate env thr kl rate (add_gate ''G7'' True msg ''info'' None None (new_validation_report ''G8'' ''PENDING''))"
  shows "vr_status r = (if 0 < rate \<or> thr \<le> kl then ''PASS'' else ''WARNING'')"
    and "br_metrics r = [(''mean_kl'', kl), (''shift_rate'', rate)]"
    and "is_all_passed None r \<longleftrightarrow> 0 < rate \<or> thr \<le> kl"
    and "map_option vg_success (map_of (vr_gates r) ''G7'') = Some True"
  unfolding assms all_passed_iff
  by (simp_all add: behavior_gate_def add_gate_def new_validation_report_def Let_def)

text \<open>C31. The verdict of the behavioural validation. On at least one prompt it never raises. If the
  adapter loads, some LoRA parameter is not zero (where that is asked for) and all logits are computed and finite, the report
  says PASS exactly when the first token changed on some prompt or the mean divergence, which
  is never negative, reaches the threshold, and WARNING otherwise, with both measures; in every other case it says FAIL. PASS
  means that all gates of the report passed.\<close>

theorem behavior_verdict:
  assumes "prompts \<noteq> []"
  shows "\<exists>r. validate_behavior env path prompts thr req = Inr r
    \<and> (is_all_passed None r \<longleftrightarrow> vr_status r = ''PASS'')
    \<and> (vr_status r = ''FAIL'' \<longleftrightarrow> (\<nexists>cs. compared env path prompts req cs))
    \<and> (\<forall>cs. compared env path prompts req cs \<longrightarrow>
          0 \<le> mean_of (map fst cs)
        \<and> vr_status r = (if (\<exists>c\<in>set cs. snd c) \<or> thr \<le> mean_of (map fst cs) then ''PASS'' else ''WARNING'')
        \<and> br_metrics r = [(''mean_kl'', mean_of (map fst cs)),
                          (''shift_rate'', real (length (filter snd cs)) / real (length prompts))])"
proof (cases "\<exists>cs. compared env path prompts req cs")
  case False
  then show ?thesis using validate_not_compared[OF assms False, of thr] by auto
next
  case True
  then obtain cs where cs: "compared env path prompts req cs" by blast
  have same: "cs' = cs" if "compared env path prompts req cs'" for cs'
    using that cs by (auto simp: compared_def inj_def dest!: map_injective)
  have pos: "0 \<le> mean_of (map fst cs)"
  proof (rule mean_nonneg)
    fix x assume "x \<in> set (map fst cs)"
    then obtain c where c: "c \<in> set cs" "x = fst c" by auto
    obtain model where "map (compare_prompt env model) prompts = map (\<lambda>c. Inr (Some c)) cs"
      using cs by (auto simp: compared_def)
    then have "Inr (Some c) \<in> set (map (compare_prompt env model) prompts)" using c(1) by simp
    then obtain p where "compare_prompt env model p = Inr (Some c)" by auto
    then show "0 \<le> x" using compare_prompt_nonneg c(2) by simp
  qed
  have rate: "0 < real (length (filter snd cs)) / real (length prompts) \<longleftrightarrow> (\<exists>c\<in>set cs. snd c)"
    using assms by (auto simp: zero_less_divide_iff filter_empty_conv)
  define r where "r = behavior_gate env thr (mean_of (map fst cs)) (real (length (filter snd cs)) / real (length prompts))
      (add_gate ''G7'' True ''PEFT Adapter loaded successfully.'' ''info'' None None (new_validation_report ''G8'' ''PENDING''))"
  have v: "validate_behavior env path prompts thr req = Inr r" unfolding r_def by (rule validate_compared[OF assms cs])
  have status: "vr_status r = (if (\<exists>c\<in>set cs. snd c) \<or> thr \<le> mean_of (map fst cs) then ''PASS'' else ''WARNING'')"
    using behavior_gate_report(1)[OF r_def] unfolding rate .
  moreover have "is_all_passed None r \<longleftrightarrow> vr_status r = ''PASS''"
    using behavior_gate_report(3)[OF r_def] unfolding rate status by simp
  moreover have "vr_status r \<noteq> ''FAIL''" unfolding status by simp
  ultimately show ?thesis
    using v True pos behavior_gate_report(2)[OF r_def] same by (intro exI[of _ r] conjI allI impI) auto
qed

lemma argmax_shift: "(\<And>i. i < n \<Longrightarrow> g i = f i + c) \<Longrightarrow> argmax_below n g = argmax_below n f"
proof (induction n)
  case (Suc n)
  have ih: "argmax_below n g = argmax_below n f" using Suc by simp
  have g: "g n = f n + c" "n \<noteq> 0 \<Longrightarrow> g (argmax_below n f) = f (argmax_below n f) + c"
    using Suc.prems[of n] Suc.prems[of "argmax_below n f"] argmax_below_less[of n f] by auto
  show ?case using g by (cases "n = 0") (simp_all add: Let_def ih)
qed simp

lemma compare_shifted:
  assumes "be_formatter env = None" and "pm_logits model p = Inr (map (\<lambda>x. (Finite x, Finite (x + c))) xs)" and "xs \<noteq> []"
  shows "compare_prompt env model p = Inr (Some (0, False))"
proof -
  let ?l = "map (\<lambda>x. (Finite x, Finite (x + c))) xs"
  have shift: "finite_value (snd (?l ! i)) = finite_value (fst (?l ! i)) + c" if "i < length ?l" for i using that by simp
  have "kl_row (length ?l) (\<lambda>i. finite_value (fst (?l ! i))) (\<lambda>i. finite_value (snd (?l ! i))) = 0"
    using assms(3) shift by (subst kl_zero_iff) auto
  moreover have "argmax_below (length ?l) (\<lambda>i. finite_value (snd (?l ! i))) = argmax_below (length ?l) (\<lambda>i. finite_value (fst (?l ! i)))"
    by (rule argmax_shift) (rule shift)
  ultimately show ?thesis using assms by (simp add: compare_prompt_def Let_def del: length_map cong: if_cong)
qed

text \<open>An adapter without effect. If on every prompt the logits with the adapter are those without it up to a
  constant (no change at all in particular, as for factors \<open>B\<close> that are still zero), the check for nonzero
  weights lets it through as soon as one factor is not zero, both measures
  are exactly 0, and the verdict depends on the threshold alone: WARNING for a positive one, and PASS, with an observed signal, otherwise.\<close>

theorem ineffective_adapter:
  assumes "prompts \<noteq> []" and "be_prepare env = Inr u" and "be_load env path = Inr model" and "be_formatter env = None"
    and "p \<in> set (lora_parameters model)" and "x \<in> set (snd p)" and "x \<noteq> 0"
    and "\<And>t. t \<in> set prompts \<Longrightarrow> \<exists>xs c. xs \<noteq> [] \<and> pm_logits model t = Inr (map (\<lambda>x. (Finite x, Finite (x + c))) xs)"
  shows "\<exists>r. validate_behavior env path prompts thr True = Inr r
    \<and> br_metrics r = [(''mean_kl'', 0), (''shift_rate'', 0)]
    \<and> map_option vg_success (map_of (vr_gates r) ''G7'') = Some True
    \<and> vr_status r = (if thr \<le> 0 then ''PASS'' else ''WARNING'')"
proof -
  let ?cs = "replicate (length prompts) (0 :: real, False)"
  have same: "compare_prompt env model t = Inr (Some (0, False))" if "t \<in> set prompts" for t
    using assms(8)[OF that] compare_shifted[OF assms(4)] by blast
  then have "map (compare_prompt env model) prompts = map (\<lambda>c. Inr (Some c)) ?cs"
    by (simp add: map_replicate_const flip: map_replicate_const)
  then have "compared env path prompts True ?cs" using assms(2,3,5-7) by (auto simp: compared_def)
  note v = validate_compared[OF assms(1) this, of thr]
  have m: "mean_of (map fst ?cs) = 0" "filter snd ?cs = []" by (simp_all add: mean_of_def sum_list_replicate)
  show ?thesis
    unfolding v m using behavior_gate_report[OF refl, of env thr 0 0] by simp
qed

definition idle_model :: peft_model where
  "idle_model = \<lparr>pm_parameters = [(''q_proj.lora_A.weight'', [1 / 2, 1]), (''q_proj.lora_B.weight'', [0, 0])],
     pm_logits = (\<lambda>t. Inr (map (\<lambda>x. (Finite x, Finite (x + 0))) [1, 3, 2]))\<rparr>"

definition idle_env :: behavior_env where
  "idle_env = \<lparr>be_prepare = Inr (), be_load = (\<lambda>_. Inr idle_model), be_formatter = None, be_percent = (\<lambda>_. ''0.0%''), be_exponent = (\<lambda>_. ''0.00e+00'')\<rparr>"

lemma ineffective_adapter_witness:
  "\<exists>r. validate_behavior idle_env ''adapter'' [''Hello'', ''SELECT''] (1 / 10 ^ 6) True = Inr r \<and> vr_status r = ''WARNING''
    \<and> map_option vg_success (map_of (vr_gates r) ''G7'') = Some True"
proof -
  have p: "(''q_proj.lora_A.weight'', [1 / 2, 1]) \<in> set (lora_parameters idle_model)"
    by (simp add: lora_parameters_def idle_model_def)
  have env: "be_prepare idle_env = Inr ()" "be_load idle_env ''adapter'' = Inr idle_model" "be_formatter idle_env = None"
    by (simp_all add: idle_env_def)
  have logits: "\<exists>xs c. xs \<noteq> [] \<and> pm_logits idle_model t = Inr (map (\<lambda>x. (Finite x, Finite (x + c))) xs)" for t
    by (rule exI[of _ "[1, 3, 2]"], rule exI[of _ 0]) (simp add: idle_model_def)
  show ?thesis
    using ineffective_adapter[OF _ env p _ _ logits, of "[''Hello'', ''SELECT'']" 1 "1 / 10 ^ 6"] by auto
qed

lemma behavior_verdict_witness:
  "\<exists>r. validate_behavior (idle_env\<lparr>be_load := (\<lambda>_. Inl (PyExc OSErrorE ''no adapter''))\<rparr>) ''adapter'' [''Hello''] 0 True = Inr r
    \<and> vr_status r = ''FAIL''"
proof -
  have "\<nexists>cs. compared (idle_env\<lparr>be_load := (\<lambda>_. Inl (PyExc OSErrorE ''no adapter''))\<rparr>) ''adapter'' [''Hello''] True cs"
    by (simp add: compared_def)
  then show ?thesis using behavior_verdict[of "[''Hello'']" "idle_env\<lparr>be_load := (\<lambda>_. Inl (PyExc OSErrorE ''no adapter''))\<rparr>" "''adapter''" 0 True]
    by blast
qed

end
