(* ===== verification/Delta_Health.thy ===== *)
theory Delta_Health
  imports Diagnostics Tensors Layer_Names Compression
begin

text \<open>
  The weight diagnostics of core/diagnostic.py: the delta health analysis of a loaded adapter and the interference
  metrics of the diagnostic engine. Weights are exact reals, the singular value decomposition is a
  parameter, \<open>torch\<close> devices and dtypes are left out.
\<close>

section \<open>Spectral entropy\<close>

definition tiny :: real where
  "tiny = 1 / 10 ^ 10"

definition normalized_values :: "real list \<Rightarrow> real list" where
  "normalized_values S = map (\<lambda>s. s / (sum_list S + tiny)) S"

definition entropy_of :: "real list \<Rightarrow> real" where
  "entropy_of ps = - sum_list (map (\<lambda>p. p * ln (p + tiny)) ps)"

definition calculate_spectral_entropy :: "svd \<Rightarrow> mat \<Rightarrow> real" where
  "calculate_spectral_entropy svd tensor = (case svd tensor of (U, S, V) \<Rightarrow> entropy_of (normalized_values S))"

definition calculate_effective_rank :: "svd \<Rightarrow> mat \<Rightarrow> real" where
  "calculate_effective_rank svd tensor = exp (calculate_spectral_entropy svd tensor)"

section \<open>Delta health\<close>

definition extract_layer :: "string \<Rightarrow> nat option" where
  "extract_layer name = search_index [''layers.''] name"

record lora_pair =
  lp_A :: "mat option"
  lp_B :: "mat option"

definition base_name :: "string \<Rightarrow> string" where
  "base_name name = replace_all ''.weight'' [] (replace_all ''.lora_B.weight'' [] (replace_all ''.lora_A.weight'' [] name))"

definition add_parameter :: "string \<times> mat \<Rightarrow> (string, lora_pair) dict \<Rightarrow> (string, lora_pair) dict" where
  "add_parameter np lora_pairs =
     (case np of (name, param) \<Rightarrow>
        if \<not> substring ''lora_'' name then lora_pairs
        else let b = base_name name;
                 pair = dict_get lora_pairs b \<lparr>lp_A = None, lp_B = None\<rparr>;
                 pair = (if substring ''lora_A'' name then pair\<lparr>lp_A := Some param\<rparr> else pair);
                 pair = (if substring ''lora_B'' name then pair\<lparr>lp_B := Some param\<rparr> else pair)
             in dict_set b pair lora_pairs)"

definition lora_pairs_of :: "(string \<times> mat) list \<Rightarrow> (string, lora_pair) dict" where
  "lora_pairs_of params = fold add_parameter params []"

definition squared_sum :: "mat \<Rightarrow> real" where
  "squared_sum W = (\<Sum>i<mt_rows W. \<Sum>j<mt_cols W. (mt_at W i j)\<^sup>2)"

record health_state =
  he_layer_energy :: "(nat, real) dict"
  he_total_frob_norm_sq :: real
  he_entropies :: "real list"

definition analyze_pair :: "svd \<Rightarrow> string \<times> lora_pair \<Rightarrow> health_state \<Rightarrow> health_state result" where
  "analyze_pair svd np st =
     (case (lp_A (snd np), lp_B (snd np)) of
        (Some A, Some B) \<Rightarrow>
          bindE (matmul B A) (\<lambda>W.
            let energy = squared_sum W;
                st = st\<lparr>he_total_frob_norm_sq := he_total_frob_norm_sq st + energy\<rparr>;
                st = (case extract_layer (fst np) of
                        None \<Rightarrow> st
                      | Some layer \<Rightarrow> st\<lparr>he_layer_energy := dict_set layer (dict_get (he_layer_energy st) layer 0 + energy) (he_layer_energy st)\<rparr>);
                S = fst (snd (svd W));
                max_entropy = ln (real (length S) + tiny)
            in Inr (st\<lparr>he_entropies := he_entropies st @ [entropy_of (normalized_values S) / max_entropy]\<rparr>))
      | _ \<Rightarrow> Inr st)"

definition concentration_step :: "(real \<Rightarrow> string) \<Rightarrow> real \<Rightarrow> nat \<times> real \<Rightarrow> string list \<times> real \<Rightarrow> string list \<times> real" where
  "concentration_step pct total_energy le oc =
     (let ratio = snd le / total_energy
      in if 1 / 2 < ratio
         then (fst oc @ [''Layer '' @ nat_str (fst le) @ '' ('' @ pct (ratio * 100) @ ''%)''], max (snd oc) ratio)
         else oc)"

definition concentration :: "(real \<Rightarrow> string) \<Rightarrow> (nat, real) dict \<Rightarrow> string list \<times> real" where
  "concentration pct layer_energy =
     fold (concentration_step pct (sum_list (map snd layer_energy) + tiny)) layer_energy ([], 0)"

definition analyze :: "svd \<Rightarrow> (real \<Rightarrow> string) \<Rightarrow> (string \<times> mat) list \<Rightarrow> delta_health result" where
  "analyze svd pct params =
     bindE (foldE (analyze_pair svd) (lora_pairs_of params) \<lparr>he_layer_energy = [], he_total_frob_norm_sq = 0, he_entropies = []\<rparr>) (\<lambda>st.
       let normalized_entropy = (if he_entropies st \<noteq> [] then sum_list (he_entropies st) / real (length (he_entropies st)) else 1);
           (outliers, concentration_score) = concentration pct (he_layer_energy st)
       in Inr \<lparr>dh_verdict = delta_verdict concentration_score normalized_entropy,
               dh_global_frobenius_norm = sqrt (he_total_frob_norm_sq st),
               dh_concentration_score = concentration_score, dh_outliers = outliers,
               dh_normalized_spectral_entropy = normalized_entropy\<rparr>)"

section \<open>Diagnostic engine\<close>

text \<open>\<open>round(x, n)\<close>, and NumPy's mean, population deviation and linearly interpolated percentile.\<close>

definition round_real :: "nat \<Rightarrow> real \<Rightarrow> real" where
  "round_real n x = of_int (round_nearest (x * 10 ^ n)) / 10 ^ n"

definition mean_real :: "real list \<Rightarrow> real" where
  "mean_real xs = sum_list xs / real (length xs)"

definition std_of :: "real list \<Rightarrow> real" where
  "std_of xs = sqrt (mean_real (map (\<lambda>x. (x - mean_real xs)\<^sup>2) xs))"

record module_metrics =
  mm_module :: string
  mm_delta_norm :: real
  mm_target_norm :: real
  mm_norm_ratio :: real
  mm_spectral_entropy :: real
  mm_effective_rank :: real

definition analyze_projected_module :: "svd \<Rightarrow> string \<Rightarrow> mat \<Rightarrow> mat \<Rightarrow> mat \<Rightarrow> real \<Rightarrow> nat \<Rightarrow> module_metrics result" where
  "analyze_projected_module svd module_name lora_a lora_b target_weight alpha rank =
     (if rank = 0 then Inl (PyExc ZeroDivisionErrorE ''division by zero'')
      else bindE (matmul lora_b lora_a) (\<lambda>W.
        let delta_w = mat_scale (alpha / real rank) W;
            target_norm = sqrt (squared_sum target_weight);
            delta_norm = sqrt (squared_sum delta_w);
            entropy = calculate_spectral_entropy svd delta_w
        in Inr \<lparr>mm_module = module_name, mm_delta_norm = round_real 6 delta_norm, mm_target_norm = round_real 6 target_norm,
                mm_norm_ratio = delta_norm / (target_norm + tiny), mm_spectral_entropy = round_real 4 entropy,
                mm_effective_rank = round_real 2 (exp entropy)\<rparr>))"

record layer_stats =
  ls_mean_norm_ratio :: real
  ls_max_norm_ratio :: real
  ls_p90_norm_ratio :: real
  ls_std_norm_ratio :: real
  ls_mean_effective_rank :: real
  ls_max_effective_rank :: real

text \<open>\<open>None\<close> stands for the empty dictionary.\<close>

definition aggregate_layer_stats :: "module_metrics list \<Rightarrow> layer_stats option result" where
  "aggregate_layer_stats layer_metrics =
     (if layer_metrics = [] then Inr None
      else let ratios = map mm_norm_ratio layer_metrics; ranks = map mm_effective_rank layer_metrics
           in bindE (quantile ratios (9 / 10)) (\<lambda>p90.
              Inr (Some \<lparr>ls_mean_norm_ratio = round_real 6 (mean_real ratios), ls_max_norm_ratio = round_real 6 (Max (set ratios)),
                 ls_p90_norm_ratio = round_real 6 p90, ls_std_norm_ratio = round_real 6 (std_of ratios),
                 ls_mean_effective_rank = round_real 2 (mean_real ranks), ls_max_effective_rank = round_real 2 (Max (set ranks))\<rparr>)))"

section \<open>Bounds of the spectral entropy\<close>

lemma tiny_pos: "0 < tiny" by (simp add: tiny_def)

lemma normalized_bounds:
  assumes "\<forall>s\<in>set S. 0 \<le> s"
  shows "\<forall>p\<in>set (normalized_values S). 0 \<le> p \<and> p \<le> 1" and "sum_list (normalized_values S) \<le> 1"
proof -
  have t: "0 \<le> sum_list S" using assms by (intro sum_list_nonneg) auto
  have le: "s \<le> sum_list S" if "s \<in> set S" for s
    using that assms by (intro member_le_sum_list) auto
  show "\<forall>p\<in>set (normalized_values S). 0 \<le> p \<and> p \<le> 1"
    using assms le t tiny_pos by (fastforce simp: normalized_values_def divide_le_eq_1)
  have "sum_list (normalized_values S) = sum_list S / (sum_list S + tiny)"
    using sum_list_mult_const[of "\<lambda>s. s" "inverse (sum_list S + tiny)" S] by (simp add: normalized_values_def divide_inverse)
  then show "sum_list (normalized_values S) \<le> 1" using t tiny_pos by simp
qed

lemma entropy_lower:
  assumes "\<forall>p\<in>set ps. 0 \<le> p \<and> p \<le> 1" and "sum_list ps \<le> 1"
  shows "- tiny \<le> entropy_of ps"
proof -
  have "sum_list (map (\<lambda>p. p * ln (p + tiny)) ps) \<le> sum_list (map (\<lambda>p. p * tiny) ps)"
  proof (rule sum_list_mono)
    fix p assume p: "p \<in> set ps"
    have "ln (p + tiny) \<le> p + tiny - 1" using assms p tiny_pos by (intro ln_le_minus_one) (auto simp: add_nonneg_pos)
    also have "\<dots> \<le> tiny" using assms p by auto
    finally show "p * ln (p + tiny) \<le> p * tiny" using assms p by (intro mult_left_mono) auto
  qed
  also have "\<dots> = sum_list ps * tiny" by (simp add: sum_list_mult_const)
  also have "\<dots> \<le> tiny" using assms(2) tiny_pos by (simp add: mult_left_le_one_le mult_le_cancel_right1)
  finally show ?thesis by (simp add: entropy_of_def)
qed

text \<open>From \<open>ln x \<le> x - 1\<close> at \<open>1 / (n (p + tiny))\<close>.\<close>

lemma entropy_upper:
  assumes "ps \<noteq> []" and "\<forall>p\<in>set ps. 0 \<le> p \<and> p \<le> 1"
  shows "entropy_of ps \<le> sum_list ps * ln (real (length ps)) + (1 - sum_list ps)"
proof -
  let ?n = "real (length ps)"
  have n: "0 < ?n" using assms(1) by simp
  have "sum_list (map (\<lambda>p. - (p * ln (p + tiny)) - p * ln ?n) ps) \<le> sum_list (map (\<lambda>p. 1 / ?n - p) ps)"
  proof (rule sum_list_mono)
    fix p assume p: "p \<in> set ps"
    then have e: "0 < p + tiny" and p0: "0 \<le> p" using assms(2) tiny_pos by (auto simp: add_nonneg_pos)
    have "ln (1 / (?n * (p + tiny))) \<le> 1 / (?n * (p + tiny)) - 1" using n e by (intro ln_le_minus_one) simp
    then have "- ln ?n - ln (p + tiny) \<le> 1 / (?n * (p + tiny)) - 1" using n e by (simp add: ln_div ln_mult)
    then have "p * (- ln ?n - ln (p + tiny)) \<le> p * (1 / (?n * (p + tiny)) - 1)" using p0 by (rule mult_left_mono)
    also have "p / (p + tiny) \<le> 1" using e tiny_pos by simp
    from mult_right_mono[OF this, of "1 / ?n"] have "p * (1 / (?n * (p + tiny)) - 1) \<le> 1 / ?n - p"
      using n by (simp add: right_diff_distrib mult.commute)
    finally show "- (p * ln (p + tiny)) - p * ln ?n \<le> 1 / ?n - p" by (simp add: algebra_simps)
  qed
  moreover have "sum_list (map (\<lambda>p. 1 / ?n - p) ps) = 1 - sum_list ps"
    using n by (simp add: sum_list_subtractf sum_list_triv)
  moreover have "sum_list (map (\<lambda>p. - (p * ln (p + tiny)) - p * ln ?n) ps) = entropy_of ps - sum_list ps * ln ?n"
    by (simp add: sum_list_subtractf entropy_of_def sum_list_mult_const uminus_sum_list_map o_def)
  ultimately show ?thesis by simp
qed

lemma ln_three: "3 \<le> n \<Longrightarrow> 1 \<le> ln (real n)"
proof -
  assume "3 \<le> n"
  then have "exp 1 \<le> real n" using exp_le by linarith
  then show ?thesis using ln_ge_iff[of "real n" 1] \<open>3 \<le> n\<close> by simp
qed

lemma spectral_entropy_bounds:
  assumes "\<forall>s\<in>set S. 0 \<le> s" and "3 \<le> length S"
  shows "- tiny \<le> entropy_of (normalized_values S)" and "entropy_of (normalized_values S) \<le> ln (real (length S))"
proof -
  let ?ps = "normalized_values S"
  note b = normalized_bounds[OF assms(1)]
  show "- tiny \<le> entropy_of ?ps" by (rule entropy_lower[OF b])
  have l: "length ?ps = length S" "?ps \<noteq> []" using assms(2) by (auto simp: normalized_values_def)
  have "entropy_of ?ps \<le> sum_list ?ps * ln (real (length S)) + (1 - sum_list ?ps)"
    using entropy_upper[OF l(2) b(1)] l(1) by simp
  also have "\<dots> \<le> sum_list ?ps * ln (real (length S)) + (1 - sum_list ?ps) * ln (real (length S))"
    using b(2) ln_three[OF assms(2)] by (simp add: mult_le_cancel_left1)
  finally show "entropy_of ?ps \<le> ln (real (length S))" by (simp add: algebra_simps)
qed

text \<open>A delta with a single singular value has no usable normalised entropy.\<close>

lemma one_value_entropy: "10 ^ 9 < entropy_of (normalized_values [tiny]) / ln (real (length [tiny]) + tiny)"
proof -
  have half: "entropy_of (normalized_values [tiny]) = - (1 / 2 * ln (1 / 2 + tiny))"
    using tiny_pos by (simp add: entropy_of_def normalized_values_def)
  have "ln (1 / 2 + tiny) \<le> 1 / 2 + tiny - 1" using tiny_pos by (intro ln_le_minus_one) simp
  then have num: "1 / 5 \<le> entropy_of (normalized_values [tiny])" unfolding half by (simp add: tiny_def)
  have den: "0 < ln (1 + tiny)" "ln (1 + tiny) \<le> tiny" using tiny_pos ln_add_one_self_le_self[of tiny] by simp_all
  have "10 ^ 9 * ln (1 + tiny) < 1 / 5" using den(2) by (simp add: tiny_def)
  then have "10 ^ 9 * ln (1 + tiny) < entropy_of (normalized_values [tiny])" using num by linarith
  then show ?thesis using den(1) by (simp add: pos_less_divide_eq)
qed

section \<open>The analysis\<close>

lemma concentration_small:
  "0 < t \<Longrightarrow> \<forall>p\<in>set le. 0 \<le> snd p \<Longrightarrow> sum_list (map snd le) \<le> t / 2 \<Longrightarrow> fold (concentration_step pct t) le oc = oc"
proof (induction le arbitrary: oc)
  case (Cons x le)
  have "0 \<le> sum_list (map snd le)" using Cons.prems(2) by (intro sum_list_nonneg) auto
  then have "\<not> 1 / 2 < snd x / t" using Cons.prems(1,3) by (simp add: field_simps)
  then show ?case using Cons.IH Cons.prems by (simp add: concentration_step_def)
qed simp

lemma concentration_fold:
  assumes "0 < t" and "\<forall>p\<in>set le. 0 \<le> snd p" and "sum_list (map snd le) < t"
  shows "fold (concentration_step pct t) le ([], 0) = ([], 0)
    \<or> (\<exists>layer energy. (layer, energy) \<in> set le \<and> 1 / 2 < energy / t \<and> energy / t < 1
        \<and> fold (concentration_step pct t) le ([], 0)
          = ([''Layer '' @ nat_str layer @ '' ('' @ pct (energy / t * 100) @ ''%)''], energy / t))"
  using assms(2,3)
proof (induction le)
  case (Cons x le)
  have "0 \<le> sum_list (map snd le)" using Cons.prems(1) by (intro sum_list_nonneg) auto
  moreover have "0 \<le> snd x" using Cons.prems(1) by simp
  ultimately have n: "0 \<le> sum_list (map snd le)" "0 \<le> snd x" by auto
  show ?case
  proof (cases "1 / 2 < snd x / t")
    case True
    then have "sum_list (map snd le) \<le> t / 2" using Cons.prems(2) assms(1) by (simp add: field_simps)
    then have "fold (concentration_step pct t) (x # le) ([], 0)
        = ([''Layer '' @ nat_str (fst x) @ '' ('' @ pct (snd x / t * 100) @ ''%)''], snd x / t)"
      using concentration_small[OF assms(1)] Cons.prems(1) True n assms(1) by (simp add: concentration_step_def Let_def max_def)
    moreover have "snd x / t < 1" using n Cons.prems(2) assms(1) by simp
    ultimately show ?thesis using True by (intro disjI2 exI[of _ "fst x"] exI[of _ "snd x"]) simp
  next
    case False
    then have "fold (concentration_step pct t) (x # le) ([], 0) = fold (concentration_step pct t) le ([], 0)"
      by (simp add: concentration_step_def)
    then show ?thesis using Cons.IH Cons.prems n by auto
  qed
qed simp

lemma energy_update: "sum_list (map snd (dict_set k (dict_get d k 0 + e) d)) = sum_list (map snd d) + (e :: real)"
  by (induction d) (auto simp: dict_get_def)

lemma energy_nonneg: "\<forall>p\<in>set d. 0 \<le> snd p \<Longrightarrow> 0 \<le> e \<Longrightarrow> \<forall>p\<in>set (dict_set k (dict_get d k 0 + e) d). 0 \<le> (snd p :: real)"
  by (induction d) (auto simp: dict_get_def)

definition pair_energy :: "lora_pair \<Rightarrow> real" where
  "pair_energy p = (case (lp_A p, lp_B p) of (Some A, Some B) \<Rightarrow> squared_sum (mat_mul B A) | _ \<Rightarrow> 0)"

text \<open>The entropy of every complete pair of factors is over at least three singular values.\<close>

definition three_values :: "svd \<Rightarrow> (string \<times> lora_pair) list \<Rightarrow> bool" where
  "three_values svd pairs \<longleftrightarrow>
     (\<forall>(n, p)\<in>set pairs. \<forall>A B. lp_A p = Some A \<longrightarrow> lp_B p = Some B \<longrightarrow> 3 \<le> length (fst (snd (svd (mat_mul B A)))))"

lemma squared_sum_nonneg: "0 \<le> squared_sum W"
  by (simp add: squared_sum_def sum_nonneg)

lemma pair_entropy:
  assumes "svd_of W (svd W)" and "3 \<le> length (fst (snd (svd W)))"
  shows "- tiny \<le> entropy_of (normalized_values (fst (snd (svd W)))) / ln (real (length (fst (snd (svd W)))) + tiny)"
    and "entropy_of (normalized_values (fst (snd (svd W)))) / ln (real (length (fst (snd (svd W)))) + tiny) \<le> 1"
proof -
  let ?S = "fst (snd (svd W))"
  have nn: "\<forall>s\<in>set ?S. 0 \<le> s" using assms(1) by (auto simp: svd_of_def split: prod.splits)
  note b = spectral_entropy_bounds[OF nn assms(2)]
  have "ln (real (length ?S)) \<le> ln (real (length ?S) + tiny)"
    using assms(2) tiny_pos by (intro iffD2[OF ln_le_cancel_iff]) linarith+
  then have m: "1 \<le> ln (real (length ?S) + tiny)" "ln (real (length ?S)) \<le> ln (real (length ?S) + tiny)"
    using ln_three[OF assms(2)] by linarith+
  show "entropy_of (normalized_values ?S) / ln (real (length ?S) + tiny) \<le> 1" using b(2) m by simp
  have "- tiny * ln (real (length ?S) + tiny) \<le> - tiny" using m(1) tiny_pos by simp
  then show "- tiny \<le> entropy_of (normalized_values ?S) / ln (real (length ?S) + tiny)"
    using b(1) m(1) by (simp add: pos_le_divide_eq)
qed

lemma analyze_fold:
  assumes svd: "\<And>W. svd_of W (svd W)" and pairs: "three \<longrightarrow> three_values svd (lora_pairs_of params)"
    and run: "foldE (analyze_pair svd) (lora_pairs_of params) \<lparr>he_layer_energy = [], he_total_frob_norm_sq = 0, he_entropies = []\<rparr> = Inr st"
  shows "\<forall>p\<in>set (he_layer_energy st). 0 \<le> snd p"
    and "he_total_frob_norm_sq st = sum_list (map (pair_energy \<circ> snd) (lora_pairs_of params))"
    and "three \<longrightarrow> (\<forall>e\<in>set (he_entropies st). - tiny \<le> e \<and> e \<le> 1)"
proof -
  let ?three = "\<lambda>p. \<forall>A B. lp_A p = Some A \<longrightarrow> lp_B p = Some B \<longrightarrow> 3 \<le> length (fst (snd (svd (mat_mul B A))))"
  have step: "(\<forall>p\<in>set (he_layer_energy s'). 0 \<le> snd p)
      \<and> he_total_frob_norm_sq s' = he_total_frob_norm_sq s + pair_energy (snd np)
      \<and> (three \<longrightarrow> (\<forall>e\<in>set (he_entropies s'). - tiny \<le> e \<and> e \<le> 1))"
    if "analyze_pair svd np s = Inr s'" "\<forall>p\<in>set (he_layer_energy s). 0 \<le> snd p" "three \<longrightarrow> ?three (snd np)"
      "three \<longrightarrow> (\<forall>e\<in>set (he_entropies s). - tiny \<le> e \<and> e \<le> 1)" for np s s'
  proof (cases "lp_A (snd np) = None \<or> lp_B (snd np) = None")
    case True
    then show ?thesis using that by (auto simp: analyze_pair_def pair_energy_def split: option.splits)
  next
    case False
    then obtain A B where AB: "lp_A (snd np) = Some A" "lp_B (snd np) = Some B" by auto
    then have W: "matmul B A = Inr (mat_mul B A)" using that(1) by (auto simp: analyze_pair_def matmul_def split: if_splits)
    have entropy: "three \<longrightarrow> (\<forall>e\<in>set (he_entropies s'). - tiny \<le> e \<and> e \<le> 1)"
      using that(1,3,4) pair_entropy[where svd = svd and W = "mat_mul B A", OF svd]
      by (auto simp: analyze_pair_def AB W Let_def split: option.splits)
    have energy: "\<forall>p\<in>set (he_layer_energy s'). 0 \<le> snd p"
    proof (cases "extract_layer (fst np)")
      case (Some layer)
      then have "he_layer_energy s' = dict_set layer (dict_get (he_layer_energy s) layer 0 + squared_sum (mat_mul B A)) (he_layer_energy s)"
        using that(1) by (auto simp: analyze_pair_def AB W Let_def)
      then show ?thesis using energy_nonneg[OF that(2) squared_sum_nonneg] by simp
    qed (use that(1,2) in \<open>auto simp: analyze_pair_def AB W Let_def\<close>)
    show ?thesis using that(1) energy entropy by (auto simp: analyze_pair_def pair_energy_def AB W Let_def split: option.splits)
  qed
  have "(\<forall>p\<in>set (he_layer_energy s'). 0 \<le> snd p)
      \<and> he_total_frob_norm_sq s' = he_total_frob_norm_sq s + sum_list (map (pair_energy \<circ> snd) ps)
      \<and> (three \<longrightarrow> (\<forall>e\<in>set (he_entropies s'). - tiny \<le> e \<and> e \<le> 1))"
    if "foldE (analyze_pair svd) ps s = Inr s'" "\<forall>p\<in>set (he_layer_energy s). 0 \<le> snd p" "three \<longrightarrow> (\<forall>np\<in>set ps. ?three (snd np))"
      "three \<longrightarrow> (\<forall>e\<in>set (he_entropies s). - tiny \<le> e \<and> e \<le> 1)" for ps s s'
    using that
  proof (induction ps arbitrary: s)
    case (Cons np ps)
    then obtain s1 where s1: "analyze_pair svd np s = Inr s1" "foldE (analyze_pair svd) ps s1 = Inr s'" by (auto simp: bindE_Inr_iff)
    then show ?case using step[OF s1(1)] Cons.IH[OF s1(2)] Cons.prems(2-4) by simp
  qed simp
  note result = this[OF run]
  have "three \<longrightarrow> (\<forall>np\<in>set (lora_pairs_of params). ?three (snd np))"
    using pairs unfolding three_values_def case_prod_beta by blast
  note result = result[OF _ this]
  show "\<forall>p\<in>set (he_layer_energy st). 0 \<le> snd p"
    and "he_total_frob_norm_sq st = sum_list (map (pair_energy \<circ> snd) (lora_pairs_of params))"
    and "three \<longrightarrow> (\<forall>e\<in>set (he_entropies st). - tiny \<le> e \<and> e \<le> 1)"
    using result by simp_all
qed



text \<open>An adapter without LoRA parameters is as healthy as can be.\<close>

lemma no_parameters_healthy:
  assumes "\<forall>(n, W)\<in>set params. \<not> substring ''lora_'' n"
  shows "\<exists>h. analyze svd pct params = Inr h \<and> dh_verdict h = ''HEALTHY_DELTA'' \<and> dh_normalized_spectral_entropy h = 1"
proof -
  have "lora_pairs_of params = []"
    unfolding lora_pairs_of_def using assms by (induction params) (auto simp: add_parameter_def)
  then show ?thesis by (simp add: analyze_def concentration_def delta_verdict_def)
qed

text \<open>The interference metrics of a projected module. With a positive rank and matching factors the ratio of the
  norms is that of the scaled update, the guard keeps it finite for a zero target, it grows in proportion to \<open>alpha\<close>,
  and the effective rank of a delta with at least three singular values lies between 1 (up to the guard) and their number.\<close>

theorem interference_metrics_sound:
  assumes "\<And>W. svd_of W (svd W)" and "0 < rank" and "mt_cols B = mt_rows A"
  shows "\<exists>m. analyze_projected_module svd name A B T alpha rank = Inr m
    \<and> mm_norm_ratio m = \<bar>alpha\<bar> / real rank * sqrt (squared_sum (mat_mul B A)) / (sqrt (squared_sum T) + tiny)
    \<and> (let W = mat_scale (alpha / real rank) (mat_mul B A); n = length (fst (snd (svd W)))
       in mm_effective_rank m = round_real 2 (calculate_effective_rank svd W)
          \<and> (3 \<le> n \<longrightarrow> exp (- tiny) \<le> calculate_effective_rank svd W \<and> calculate_effective_rank svd W \<le> real n))"
proof -
  let ?W = "mat_scale (alpha / real rank) (mat_mul B A)"
  have scaled: "squared_sum ?W = (alpha / real rank)\<^sup>2 * squared_sum (mat_mul B A)"
    by (simp add: squared_sum_def mat_scale_def sum_distrib_left power_mult_distrib power_divide mult.commute)
  have norm: "sqrt (squared_sum ?W) = \<bar>alpha\<bar> / real rank * sqrt (squared_sum (mat_mul B A))"
    unfolding scaled by (simp add: real_sqrt_mult abs_divide)
  have nn: "\<forall>s\<in>set (fst (snd (svd ?W))). 0 \<le> s" using assms(1)[of ?W] by (auto simp: svd_of_def split: prod.splits)
  have er: "calculate_effective_rank svd ?W = exp (entropy_of (normalized_values (fst (snd (svd ?W)))))"
    by (simp add: calculate_effective_rank_def calculate_spectral_entropy_def case_prod_beta)
  have bounds: "exp (- tiny) \<le> calculate_effective_rank svd ?W \<and> calculate_effective_rank svd ?W \<le> real (length (fst (snd (svd ?W))))"
    if three: "3 \<le> length (fst (snd (svd ?W)))"
  proof -
    have "exp (entropy_of (normalized_values (fst (snd (svd ?W))))) \<le> exp (ln (real (length (fst (snd (svd ?W))))))"
      using spectral_entropy_bounds(2)[OF nn three] by simp
    moreover have "exp (ln (real (length (fst (snd (svd ?W)))))) = real (length (fst (snd (svd ?W))))" using three by (intro exp_ln) linarith
    ultimately show ?thesis unfolding er using spectral_entropy_bounds(1)[OF nn three] by simp
  qed
  show ?thesis
    using assms(2,3) bounds
    by (simp add: analyze_projected_module_def matmul_def norm Let_def calculate_effective_rank_def)
qed

lemma interference_metrics_sound_witness:
  "\<exists>m. analyze_projected_module trivial_svd ''q_proj'' (mk 1 1 (\<lambda>_ _. 3)) (mk 1 1 (\<lambda>_ _. 2)) (mk 1 1 (\<lambda>_ _. 0)) (- 1) 2 = Inr m
    \<and> mm_norm_ratio m = 3 / tiny"
proof -
  have "sqrt (squared_sum (mat_mul (mk 1 1 (\<lambda>_ _. 2)) (mk 1 1 (\<lambda>_ _. 3)))) = 6" "squared_sum (mk 1 1 (\<lambda>_ _. 0)) = 0"
    by (simp_all add: squared_sum_def mat_mul_def)
  then show ?thesis
    using interference_metrics_sound[of trivial_svd 2 "mk 1 1 (\<lambda>_ _. 2)" "mk 1 1 (\<lambda>_ _. 3)" "''q_proj''" "mk 1 1 (\<lambda>_ _. 0)" "- 1"] trivial_svd_law
    by auto
qed

end
