(* ===== verification/Calibration.thy ===== *)
theory Calibration
  imports Tensors
begin

text \<open>
  The calibration of AWQ scales (io/calibration.py): magnitudes of activations, given or made up from the
  weights, and the search over a grid of exponents for the scales with the smallest simulated
  quantisation error. Entries are exact reals; the activations have as many columns as the weight.
\<close>

section \<open>Magnitudes\<close>

definition col_abs_mean :: "mat \<Rightarrow> nat \<Rightarrow> real" where
  "col_abs_mean m j = (\<Sum>i<mt_rows m. \<bar>mt_at m i j\<bar>) / real (mt_rows m)"

definition abs_means :: "mat \<Rightarrow> real list" where
  "abs_means m = map (col_abs_mean m) [0..<mt_cols m]"

definition get_activation_magnitudes :: "mat option \<Rightarrow> real list" where
  "get_activation_magnitudes samples = (case samples of None \<Rightarrow> [1] | Some m \<Rightarrow> abs_means m)"

definition list_mean :: "real list \<Rightarrow> real" where
  "list_mean xs = sum_list xs / real (length xs)"

definition get_synthetic_activation_magnitudes :: "mat \<Rightarrow> real list" where
  "get_synthetic_activation_magnitudes weight =
     (let synthetic_mag = map (\<lambda>w. 1 / (w + 1 / 10 ^ 6)) (abs_means weight)
      in map (\<lambda>x. x / list_mean synthetic_mag) synthetic_mag)"

section \<open>The search\<close>

definition linspace01 :: "nat \<Rightarrow> real list" where
  "linspace01 n = (if n = 1 then [0] else map (\<lambda>k. real k / real (n - 1)) [0..<n])"

text \<open>\<open>torch.pow\<close> of a number that is not negative.\<close>

definition tensor_pow :: "real \<Rightarrow> real \<Rightarrow> real" where
  "tensor_pow x a = (if a = 0 then 1 else x powr a)"

definition grid_scales :: "real list \<Rightarrow> real list \<Rightarrow> real \<Rightarrow> real \<Rightarrow> real \<Rightarrow> real list" where
  "grid_scales x_mag w_mag max_shrink max_expand alpha =
     map2 (\<lambda>x w. min (max (tensor_pow x alpha / (tensor_pow w (1 - alpha) + 1 / 10 ^ 12)) max_shrink) max_expand) x_mag w_mag"

definition row_scale :: "mat \<Rightarrow> real list \<Rightarrow> nat \<Rightarrow> real" where
  "row_scale weight s i = Max ((\<lambda>j. \<bar>mt_at weight i j * s ! j\<bar>) ` {..<mt_cols weight}) / 127"

definition dequantized :: "mat \<Rightarrow> real list \<Rightarrow> nat \<Rightarrow> nat \<Rightarrow> real" where
  "dequantized weight s i j =
     of_int (min (max (round_nearest (mt_at weight i j * s ! j / (row_scale weight s i + 1 / 10 ^ 12))) (- 128)) 127)
       * row_scale weight s i / s ! j"

definition quantization_error :: "mat \<Rightarrow> real list \<Rightarrow> real list \<Rightarrow> real" where
  "quantization_error weight x_mag s =
     (\<Sum>i<mt_rows weight. \<Sum>j<mt_cols weight. \<bar>mt_at weight i j - dequantized weight s i j\<bar> * x_mag ! j)
       / (real (mt_rows weight) * real (mt_cols weight))"

definition keep_better :: "(real list \<Rightarrow> real) \<Rightarrow> real list \<Rightarrow> real option \<times> real list \<Rightarrow> real option \<times> real list" where
  "keep_better err s best =
     (case fst best of
        None \<Rightarrow> (Some (err s), s)
      | Some best_error \<Rightarrow> if err s < best_error then (Some (err s), s) else best)"

definition search_optimal_awq_scales :: "mat \<Rightarrow> mat option \<Rightarrow> nat \<Rightarrow> real \<Rightarrow> real \<Rightarrow> real list" where
  "search_optimal_awq_scales weight activations n_grid max_shrink max_expand =
     (let x_mag = (case activations of Some a \<Rightarrow> abs_means a | None \<Rightarrow> get_synthetic_activation_magnitudes weight);
          w_mag = abs_means weight
      in snd (fold (keep_better (quantization_error weight x_mag)) (map (grid_scales x_mag w_mag max_shrink max_expand) (linspace01 n_grid))
           (None, replicate (length x_mag) 1)))"

section \<open>The best scales of the grid\<close>

lemma keep_better_best:
  assumes "fst best = None \<or> fst best = Some (err (snd best))"
  shows "cands \<noteq> [] \<or> fst best \<noteq> None \<Longrightarrow>
    (let r = fold (keep_better err) cands best in
       fst r = Some (err (snd r)) \<and> (snd r \<in> set cands \<or> fst best \<noteq> None \<and> snd r = snd best)
       \<and> (\<forall>c\<in>set cands. err (snd r) \<le> err c) \<and> (fst best \<noteq> None \<longrightarrow> err (snd r) \<le> err (snd best)))"
  using assms
proof (induction cands arbitrary: best)
  case (Cons c cs)
  let ?b = "keep_better err c best"
  have b: "fst ?b = Some (err (snd ?b))" "snd ?b = c \<or> fst best \<noteq> None \<and> snd ?b = snd best" "err (snd ?b) \<le> err c"
      "fst best \<noteq> None \<longrightarrow> err (snd ?b) \<le> err (snd best)"
    using Cons.prems(2) by (auto simp: keep_better_def split: option.splits)
  from Cons.IH[of ?b] b show ?case by (fastforce simp: Let_def)
qed (auto simp: Let_def)

lemma linspace_nonempty: "0 < n \<Longrightarrow> linspace01 n \<noteq> []"
  by (simp add: linspace01_def)

lemma scaled_bound:
  assumes "j < mt_cols w"
  shows "\<bar>mt_at w i j * s ! j\<bar> \<le> 127 * row_scale w s i" and "0 \<le> row_scale w s i"
proof -
  have "\<bar>mt_at w i j * s ! j\<bar> \<le> Max ((\<lambda>j. \<bar>mt_at w i j * s ! j\<bar>) ` {..<mt_cols w})" using assms by (intro Max_ge) auto
  then show *: "\<bar>mt_at w i j * s ! j\<bar> \<le> 127 * row_scale w s i" by (simp add: row_scale_def)
  have "0 \<le> \<bar>mt_at w i j * s ! j\<bar>" by simp
  then show "0 \<le> row_scale w s i" using * by linarith
qed

text \<open>The clamp never acts, and every entry comes back within half a step of its row (up to the guard of the division).\<close>

lemma dequantized_error:
  assumes "j < mt_cols w" and "0 < s ! j"
  shows "\<bar>mt_at w i j - dequantized w s i j\<bar> \<le> (row_scale w s i / 2 + 127 / 10 ^ 12) / s ! j"
proof -
  let ?x = "mt_at w i j * s ! j" and ?c = "row_scale w s i" and ?e = "1 / 10 ^ 12 :: real"
  let ?q = "round_nearest (?x / (?c + ?e))"
  have triangle: "\<bar>x - y\<bar> \<le> a \<Longrightarrow> \<bar>z - y\<bar> \<le> b \<Longrightarrow> \<bar>x - z\<bar> \<le> b + a" for x y z a b :: real by linarith
  note b = scaled_bound[where i = i and s = s, OF assms(1)]
  have e: "0 < ?c + ?e" using b(2) by (simp add: add_nonneg_pos)
  have "\<bar>?x\<bar> \<le> 127 * (?c + ?e)" using b(1) by (simp add: algebra_simps)
  then have r: "\<bar>?x / (?c + ?e)\<bar> \<le> 127" using e by (simp add: abs_divide pos_divide_le_eq)
  then have "- 127 \<le> ?q \<and> ?q \<le> 127" by (intro round_nearest_bounds) linarith+
  then have q: "min (max ?q (- 128)) 127 = ?q" by auto
  have "\<bar>of_int ?q * ?c - ?x / (?c + ?e) * ?c\<bar> = \<bar>of_int ?q - ?x / (?c + ?e)\<bar> * ?c"
    using b(2) by (simp only: abs_mult abs_of_nonneg flip: left_diff_distrib)
  also have "\<dots> \<le> 1 / 2 * ?c" using round_nearest_error b(2) by (rule mult_right_mono)
  finally have near: "\<bar>of_int ?q * ?c - ?x / (?c + ?e) * ?c\<bar> \<le> ?c / 2" by simp
  have "?x - ?x / (?c + ?e) * ?c = ?x / (?c + ?e) * ?e" using e by (simp add: field_simps)
  then have "\<bar>?x - ?x / (?c + ?e) * ?c\<bar> = \<bar>?x / (?c + ?e)\<bar> * \<bar>?e\<bar>" by (simp only: abs_mult)
  also have "\<dots> \<le> 127 * \<bar>?e\<bar>" using r by (rule mult_right_mono) simp
  also have "\<bar>?e\<bar> = ?e" by simp
  finally have "\<bar>?x - of_int ?q * ?c\<bar> \<le> ?c / 2 + 127 * ?e" using near by (rule triangle)
  moreover have "mt_at w i j - dequantized w s i j = (?x - of_int ?q * ?c) / s ! j"
    unfolding dequantized_def q using assms(2) by (simp add: diff_divide_distrib)
  ultimately show ?thesis using assms(2) by (simp add: abs_divide divide_right_mono)
qed

lemma grid_scales_bounds:
  assumes "max_shrink \<le> max_expand" and "k < length x" and "k < length w"
  shows "max_shrink \<le> grid_scales x w max_shrink max_expand alpha ! k \<and> grid_scales x w max_shrink max_expand alpha ! k \<le> max_expand"
  using assms by (simp add: grid_scales_def)

text \<open>C38. The search for AWQ scales. With a nonempty grid and a positive lower clamp the result is one of the scale vectors of the
  grid; none of the grid has a smaller error; every scale lies between the two clamps; and with these
  scales each weight is reproduced up to half a step of its row divided by its scale (and the guard). With an empty grid all scales are 1.\<close>

theorem awq_scales_optimal:
  assumes "0 < n_grid" and "0 < max_shrink" and "max_shrink \<le> max_expand" and "mt_cols a = mt_cols weight"
    and "x_mag = (case acts of None \<Rightarrow> get_synthetic_activation_magnitudes weight | Some a \<Rightarrow> abs_means a)"
    and "acts = Some a \<or> acts = None"
  shows "let s = search_optimal_awq_scales weight acts n_grid max_shrink max_expand;
             candidate = grid_scales x_mag (abs_means weight) max_shrink max_expand
         in (\<exists>alpha\<in>set (linspace01 n_grid). s = candidate alpha)
          \<and> (\<forall>alpha\<in>set (linspace01 n_grid). quantization_error weight x_mag s \<le> quantization_error weight x_mag (candidate alpha))
          \<and> (\<forall>j<mt_cols weight. max_shrink \<le> s ! j \<and> s ! j \<le> max_expand
               \<and> (\<forall>i<mt_rows weight. \<bar>mt_at weight i j - dequantized weight s i j\<bar> \<le> (row_scale weight s i / 2 + 127 / 10 ^ 12) / s ! j))
          \<and> search_optimal_awq_scales weight acts 0 max_shrink max_expand = replicate (mt_cols weight) 1"
proof -
  let ?cands = "map (grid_scales x_mag (abs_means weight) max_shrink max_expand) (linspace01 n_grid)"
  let ?r = "fold (keep_better (quantization_error weight x_mag)) ?cands (None, replicate (length x_mag) 1)"
  have len: "length x_mag = mt_cols weight" "length (abs_means weight) = mt_cols weight"
    using assms(4-6) by (auto simp: abs_means_def get_synthetic_activation_magnitudes_def Let_def)
  have x: "(case acts of Some a \<Rightarrow> abs_means a | None \<Rightarrow> get_synthetic_activation_magnitudes weight) = x_mag"
    using assms(5) by (simp split: option.splits)
  have s: "search_optimal_awq_scales weight acts n_grid max_shrink max_expand = snd ?r"
    unfolding search_optimal_awq_scales_def Let_def x ..
  have zero: "search_optimal_awq_scales weight acts 0 max_shrink max_expand = replicate (mt_cols weight) 1"
    unfolding search_optimal_awq_scales_def Let_def x by (simp add: linspace01_def len)
  have best: "snd ?r \<in> set ?cands" "\<forall>c\<in>set ?cands. quantization_error weight x_mag (snd ?r) \<le> quantization_error weight x_mag c"
    using keep_better_best[of "(None, replicate (length x_mag) 1)" "quantization_error weight x_mag" ?cands] linspace_nonempty[OF assms(1)]
    by (auto simp: Let_def)
  then obtain alpha where alpha: "alpha \<in> set (linspace01 n_grid)" "snd ?r = grid_scales x_mag (abs_means weight) max_shrink max_expand alpha"
    by auto
  have clamped: "max_shrink \<le> snd ?r ! j \<and> snd ?r ! j \<le> max_expand" if "j < mt_cols weight" for j
    unfolding alpha(2) using grid_scales_bounds[OF assms(3)] that len by simp
  then have "\<bar>mt_at weight i j - dequantized weight (snd ?r) i j\<bar> \<le> (row_scale weight (snd ?r) i / 2 + 127 / 10 ^ 12) / snd ?r ! j"
    if "j < mt_cols weight" for i j
    using that assms(2) by (intro dequantized_error) (auto intro: less_le_trans)
  then show ?thesis using alpha best(2) clamped zero unfolding Let_def s by auto
qed

lemma awq_scales_optimal_witness:
  "1 / 2 \<le> search_optimal_awq_scales (mk 1 2 (\<lambda>_ j. real j + 1)) None 20 (1 / 2) 2 ! 1
    \<and> search_optimal_awq_scales (mk 1 2 (\<lambda>_ j. real j + 1)) None 20 (1 / 2) 2 ! 1 \<le> 2"
  using awq_scales_optimal[of 20 "1 / 2" 2 "mk 1 2 (\<lambda>_ _. 0)" "mk 1 2 (\<lambda>_ j. real j + 1)" _ None, OF _ _ _ _ refl] by (simp add: Let_def)

lemma sum_list_divided: "sum_list (map (\<lambda>x. x / c) xs) = sum_list xs / (c :: real)"
  by (induction xs) (simp_all add: add_divide_distrib)

text \<open>Made-up magnitudes have mean one, and are larger where the weights are smaller.\<close>

lemma synthetic_magnitudes:
  assumes "0 < mt_cols w"
  shows "list_mean (get_synthetic_activation_magnitudes w) = 1"
    and "\<lbrakk>i < mt_cols w; j < mt_cols w; col_abs_mean w i \<le> col_abs_mean w j\<rbrakk>
      \<Longrightarrow> get_synthetic_activation_magnitudes w ! j \<le> get_synthetic_activation_magnitudes w ! i"
proof -
  define raw where "raw = map (\<lambda>x. 1 / (x + 1 / 10 ^ 6)) (abs_means w)"
  have mags: "get_synthetic_activation_magnitudes w = map (\<lambda>x. x / list_mean raw) raw"
    by (simp only: get_synthetic_activation_magnitudes_def Let_def raw_def)
  have nonneg: "0 \<le> col_abs_mean w k" for k by (simp add: col_abs_mean_def sum_nonneg)
  have l: "length raw = mt_cols w" by (simp add: raw_def abs_means_def)
  have pos: "\<forall>x\<in>set raw. 0 < x" using nonneg by (auto simp: raw_def abs_means_def intro!: divide_pos_pos add_nonneg_pos)
  have "raw ! 0 \<in> set raw" using l assms by (intro nth_mem) simp
  then have "0 < raw ! 0" "raw ! 0 \<le> sum_list raw" using pos by (auto simp: less_imp_le intro: member_le_sum_list)
  then have m: "0 < list_mean raw" "0 < sum_list raw" using assms l by (simp_all add: list_mean_def)
  show "list_mean (get_synthetic_activation_magnitudes w) = 1"
    unfolding mags list_mean_def[of "map _ _"] sum_list_divided length_map using m l assms by (simp add: list_mean_def)
  assume ij: "i < mt_cols w" "j < mt_cols w" "col_abs_mean w i \<le> col_abs_mean w j"
  have "raw ! j \<le> raw ! i" using ij nonneg[of i] by (simp add: raw_def abs_means_def frac_le)
  then show "get_synthetic_activation_magnitudes w ! j \<le> get_synthetic_activation_magnitudes w ! i"
    using ij l m by (simp add: mags divide_right_mono)
qed

end
