(* ===== verification/Prometheus.thy ===== *)
theory Prometheus
  imports Prelude
begin

text \<open>
  The Prometheus metrics of serving/prometheus_metrics.py. The client library is not part of the
  repository: the state is the sequence of calls the class makes on it, and the readings of counters, gauges and
  histograms are taken from that sequence (what was counted, set last, observed).
\<close>

section \<open>Calls on the client\<close>

type_synonym labelling = "(string \<times> string) list"

datatype client_call =
    Create_Counter string "string list"
  | Create_Histogram string "rat list"
  | Create_Gauge string "string list"
  | Inc string labelling
  | Observe string rat
  | Set_Gauge string labelling rat

record prometheus_metrics =
  pr_enabled :: bool
  pr_calls :: "client_call list"

definition latency_buckets :: "rat list" where
  "latency_buckets = [1 / 1000, 5 / 1000, 1 / 100, 25 / 1000, 5 / 100, 1 / 10, 25 / 100, 1 / 2, 1, 25 / 10, 5, 10]"

definition created_metrics :: "client_call list" where
  "created_metrics =
     [Create_Counter ''scalpel_requests_total'' [''tenant'', ''route'', ''status''],
      Create_Counter ''scalpel_forward_total'' [''route''],
      Create_Counter ''scalpel_swap_total'' [''route''],
      Create_Counter ''scalpel_rollback_total'' [''route''],
      Create_Counter ''scalpel_rollback_failure_total'' [''route''],
      Create_Counter ''scalpel_route_violation_total'' [],
      Create_Counter ''scalpel_quarantine_total'' [''scope'', ''reason''],
      Create_Counter ''scalpel_scheduler_shelving_total'' [],
      Create_Histogram ''scalpel_swap_latency_seconds'' latency_buckets,
      Create_Histogram ''scalpel_rollback_latency_seconds'' latency_buckets,
      Create_Histogram ''scalpel_payload_load_latency_seconds'' latency_buckets,
      Create_Gauge ''scalpel_active_route'' [''route''],
      Create_Gauge ''scalpel_worker_health'' [],
      Set_Gauge ''scalpel_worker_health'' [] 1]"

definition new_prometheus :: "bool \<Rightarrow> prometheus_metrics" where
  "new_prometheus has_prometheus =
     (if \<not> has_prometheus then \<lparr>pr_enabled = False, pr_calls = []\<rparr>
      else \<lparr>pr_enabled = True, pr_calls = created_metrics\<rparr>)"

definition client_calls :: "client_call list \<Rightarrow> prometheus_metrics \<Rightarrow> prometheus_metrics" where
  "client_calls cs m = (if pr_enabled m then m\<lparr>pr_calls := pr_calls m @ cs\<rparr> else m)"

section \<open>Recording\<close>

definition prom_request :: "string \<Rightarrow> string \<Rightarrow> string \<Rightarrow> prometheus_metrics \<Rightarrow> prometheus_metrics" where
  "prom_request tenant route status =
     client_calls [Inc ''scalpel_requests_total'' [(''tenant'', tenant), (''route'', route), (''status'', status)]]"

definition prom_forward :: "string \<Rightarrow> prometheus_metrics \<Rightarrow> prometheus_metrics" where
  "prom_forward route = client_calls [Inc ''scalpel_forward_total'' [(''route'', route)]]"

definition prom_swap :: "string \<Rightarrow> rat \<Rightarrow> prometheus_metrics \<Rightarrow> prometheus_metrics" where
  "prom_swap route latency_seconds =
     client_calls [Inc ''scalpel_swap_total'' [(''route'', route)], Observe ''scalpel_swap_latency_seconds'' latency_seconds]"

definition prom_rollback :: "string \<Rightarrow> rat \<Rightarrow> prometheus_metrics \<Rightarrow> prometheus_metrics" where
  "prom_rollback route latency_seconds =
     client_calls [Inc ''scalpel_rollback_total'' [(''route'', route)], Observe ''scalpel_rollback_latency_seconds'' latency_seconds]"

definition prom_rollback_failure :: "string \<Rightarrow> prometheus_metrics \<Rightarrow> prometheus_metrics" where
  "prom_rollback_failure route = client_calls [Inc ''scalpel_rollback_failure_total'' [(''route'', route)]]"

definition prom_route_violation :: "prometheus_metrics \<Rightarrow> prometheus_metrics" where
  "prom_route_violation = client_calls [Inc ''scalpel_route_violation_total'' []]"

definition prom_quarantine :: "string \<Rightarrow> string \<Rightarrow> prometheus_metrics \<Rightarrow> prometheus_metrics" where
  "prom_quarantine scope reason = client_calls [Inc ''scalpel_quarantine_total'' [(''scope'', scope), (''reason'', reason)]]"

definition prom_payload_load :: "rat \<Rightarrow> prometheus_metrics \<Rightarrow> prometheus_metrics" where
  "prom_payload_load latency_seconds = client_calls [Observe ''scalpel_payload_load_latency_seconds'' latency_seconds]"

definition prom_scheduler_shelving :: "prometheus_metrics \<Rightarrow> prometheus_metrics" where
  "prom_scheduler_shelving = client_calls [Inc ''scalpel_scheduler_shelving_total'' []]"

definition prom_set_active_route :: "string \<Rightarrow> prometheus_metrics \<Rightarrow> prometheus_metrics" where
  "prom_set_active_route route = client_calls [Set_Gauge ''scalpel_active_route'' [(''route'', route)] 1]"

definition prom_set_worker_unhealthy :: "prometheus_metrics \<Rightarrow> prometheus_metrics" where
  "prom_set_worker_unhealthy = client_calls [Set_Gauge ''scalpel_worker_health'' [] 0]"

definition prom_export :: "(client_call list \<Rightarrow> string) \<Rightarrow> prometheus_metrics \<Rightarrow> string" where
  "prom_export generate_latest m = (if \<not> pr_enabled m then [] else generate_latest (pr_calls m))"

definition prom_content_type :: "string \<Rightarrow> prometheus_metrics \<Rightarrow> string" where
  "prom_content_type content_type_latest m = (if \<not> pr_enabled m then ''text/plain'' else content_type_latest)"

section \<open>Histories and readings\<close>

datatype prom_event =
    Request string string string | Forward string | Swap string rat | Rollback string rat | Rollback_Failure string
  | Route_Violation | Quarantine string string | Payload_Load rat | Shelving | Active_Route string | Unhealthy

fun prom_step :: "prom_event \<Rightarrow> prometheus_metrics \<Rightarrow> prometheus_metrics" where
  "prom_step (Request t r s) = prom_request t r s"
| "prom_step (Forward r) = prom_forward r"
| "prom_step (Swap r x) = prom_swap r x"
| "prom_step (Rollback r x) = prom_rollback r x"
| "prom_step (Rollback_Failure r) = prom_rollback_failure r"
| "prom_step Route_Violation = prom_route_violation"
| "prom_step (Quarantine s r) = prom_quarantine s r"
| "prom_step (Payload_Load x) = prom_payload_load x"
| "prom_step Shelving = prom_scheduler_shelving"
| "prom_step (Active_Route r) = prom_set_active_route r"
| "prom_step Unhealthy = prom_set_worker_unhealthy"

definition counter_value :: "prometheus_metrics \<Rightarrow> string \<Rightarrow> labelling \<Rightarrow> nat" where
  "counter_value m n ls = length (filter (\<lambda>c. c = Inc n ls) (pr_calls m))"

definition observations :: "prometheus_metrics \<Rightarrow> string \<Rightarrow> rat list" where
  "observations m n = concat (map (\<lambda>c. case c of Observe n' x \<Rightarrow> if n' = n then [x] else [] | _ \<Rightarrow> []) (pr_calls m))"

definition set_reading :: "string \<Rightarrow> labelling \<Rightarrow> client_call \<Rightarrow> rat option \<Rightarrow> rat option" where
  "set_reading n ls c v = (case c of Set_Gauge n' ls' x \<Rightarrow> if n' = n \<and> ls' = ls then Some x else v | _ \<Rightarrow> v)"

definition gauge_value :: "prometheus_metrics \<Rightarrow> string \<Rightarrow> labelling \<Rightarrow> rat option" where
  "gauge_value m n ls = fold (set_reading n ls) (pr_calls m) None"

definition count_of :: "prom_event list \<Rightarrow> (prom_event \<Rightarrow> bool) \<Rightarrow> nat" where
  "count_of es P = length (filter P es)"

lemma run_enabled: "pr_enabled (fold prom_step es (new_prometheus True))"
proof -
  have "pr_enabled m \<Longrightarrow> pr_enabled (fold prom_step es m)" for m
  proof (induction es arbitrary: m)
    case (Cons e es)
    have "pr_enabled (prom_step e m)" using Cons.prems
      by (cases e) (simp_all add: prom_request_def prom_forward_def prom_swap_def prom_rollback_def prom_rollback_failure_def
        prom_route_violation_def prom_quarantine_def prom_payload_load_def prom_scheduler_shelving_def prom_set_active_route_def
        prom_set_worker_unhealthy_def client_calls_def)
    then show ?case using Cons.IH by simp
  qed simp
  then show ?thesis by (simp add: new_prometheus_def)
qed

text \<open>The calls of one event, and of a history.\<close>

fun event_calls :: "prom_event \<Rightarrow> client_call list" where
  "event_calls (Request t r s) = [Inc ''scalpel_requests_total'' [(''tenant'', t), (''route'', r), (''status'', s)]]"
| "event_calls (Forward r) = [Inc ''scalpel_forward_total'' [(''route'', r)]]"
| "event_calls (Swap r x) = [Inc ''scalpel_swap_total'' [(''route'', r)], Observe ''scalpel_swap_latency_seconds'' x]"
| "event_calls (Rollback r x) = [Inc ''scalpel_rollback_total'' [(''route'', r)], Observe ''scalpel_rollback_latency_seconds'' x]"
| "event_calls (Rollback_Failure r) = [Inc ''scalpel_rollback_failure_total'' [(''route'', r)]]"
| "event_calls Route_Violation = [Inc ''scalpel_route_violation_total'' []]"
| "event_calls (Quarantine s r) = [Inc ''scalpel_quarantine_total'' [(''scope'', s), (''reason'', r)]]"
| "event_calls (Payload_Load x) = [Observe ''scalpel_payload_load_latency_seconds'' x]"
| "event_calls Shelving = [Inc ''scalpel_scheduler_shelving_total'' []]"
| "event_calls (Active_Route r) = [Set_Gauge ''scalpel_active_route'' [(''route'', r)] 1]"
| "event_calls Unhealthy = [Set_Gauge ''scalpel_worker_health'' [] 0]"

lemma prom_step_calls: "pr_enabled m \<Longrightarrow> prom_step e m = m\<lparr>pr_calls := pr_calls m @ event_calls e\<rparr>"
  by (cases e) (simp_all add: prom_request_def prom_forward_def prom_swap_def prom_rollback_def prom_rollback_failure_def
    prom_route_violation_def prom_quarantine_def prom_payload_load_def prom_scheduler_shelving_def prom_set_active_route_def
    prom_set_worker_unhealthy_def client_calls_def)

lemma prom_run_calls: "pr_enabled m \<Longrightarrow> pr_calls (fold prom_step es m) = pr_calls m @ concat (map event_calls es)"
  by (induction es arbitrary: m) (simp_all add: prom_step_calls)

lemma run_calls: "pr_calls (fold prom_step es (new_prometheus True)) = created_metrics @ concat (map event_calls es)"
  by (simp add: prom_run_calls new_prometheus_def)

lemma prom_disabled: "fold prom_step es (new_prometheus False) = new_prometheus False"
proof -
  have "prom_step e (new_prometheus False) = new_prometheus False" for e
    by (cases e) (simp_all add: prom_request_def prom_forward_def prom_swap_def prom_rollback_def prom_rollback_failure_def
      prom_route_violation_def prom_quarantine_def prom_payload_load_def prom_scheduler_shelving_def prom_set_active_route_def
      prom_set_worker_unhealthy_def client_calls_def new_prometheus_def)
  then show ?thesis by (induction es) simp_all
qed

section \<open>What the readings say\<close>

lemma counter_run:
  assumes "Inc n ls \<notin> set created_metrics"
    and "\<And>e. length (filter (\<lambda>c. c = Inc n ls) (event_calls e)) = (if P e then 1 else 0)"
  shows "counter_value (fold prom_step es (new_prometheus True)) n ls = count_of es P"
proof -
  have "filter (\<lambda>c. c = Inc n ls) created_metrics = []" using assms(1) by (auto simp: filter_empty_conv)
  moreover have "length (filter (\<lambda>c. c = Inc n ls) (concat (map event_calls es))) = count_of es P"
    by (induction es) (simp_all add: assms(2) count_of_def)
  ultimately show ?thesis by (simp add: counter_value_def run_calls)
qed

lemma observations_run:
  assumes "\<And>e. concat (map (\<lambda>c. case c of Observe n' x \<Rightarrow> if n' = n then [x] else [] | _ \<Rightarrow> []) (event_calls e)) = f e"
  shows "observations (fold prom_step es (new_prometheus True)) n = concat (map f es)"
proof -
  have "concat (map (\<lambda>c. case c of Observe n' x \<Rightarrow> if n' = n then [x] else [] | _ \<Rightarrow> []) created_metrics) = []"
    by (simp add: created_metrics_def)
  moreover have "concat (map (\<lambda>c. case c of Observe n' x \<Rightarrow> if n' = n then [x] else [] | _ \<Rightarrow> []) (concat (map event_calls es))) = concat (map f es)"
    by (induction es) (simp_all add: assms)
  ultimately show ?thesis by (simp add: observations_def run_calls)
qed

lemma gauge_run:
  assumes "\<And>e v. fold (set_reading n ls) (event_calls e) v = (if P e then Some y else v)"
  shows "gauge_value (fold prom_step es (new_prometheus True)) n ls
    = (if \<exists>e\<in>set es. P e then Some y else fold (set_reading n ls) created_metrics None)"
proof -
  have "fold (set_reading n ls) (concat (map event_calls es)) v = (if \<exists>e\<in>set es. P e then Some y else v)" for v
    by (induction es arbitrary: v) (simp_all add: assms)
  then show ?thesis unfolding gauge_value_def run_calls by simp
qed

text \<open>C36. What an exporter reads. Over every history of recording calls, each counter reads the number of its events with
  those labels, the histograms hold exactly the latencies in order, and the worker gauge reads 0 once the worker was
  reported unhealthy, and 1 before. The gauge of the active route is only ever set to 1: a route reads 1 from its first activation
  on, so after a change of routes several routes read as active. Without the client library nothing is recorded or exported.\<close>

theorem prometheus_reads_history:
  "(let m = fold prom_step es (new_prometheus True) in
      counter_value m ''scalpel_requests_total'' [(''tenant'', t), (''route'', r), (''status'', s)] = count_of es (\<lambda>e. e = Request t r s)
    \<and> counter_value m ''scalpel_forward_total'' [(''route'', r)] = count_of es (\<lambda>e. e = Forward r)
    \<and> counter_value m ''scalpel_swap_total'' [(''route'', r)] = count_of es (\<lambda>e. case e of Swap r' _ \<Rightarrow> r' = r | _ \<Rightarrow> False)
    \<and> counter_value m ''scalpel_rollback_total'' [(''route'', r)] = count_of es (\<lambda>e. case e of Rollback r' _ \<Rightarrow> r' = r | _ \<Rightarrow> False)
    \<and> counter_value m ''scalpel_rollback_failure_total'' [(''route'', r)] = count_of es (\<lambda>e. e = Rollback_Failure r)
    \<and> counter_value m ''scalpel_quarantine_total'' [(''scope'', sc), (''reason'', re)] = count_of es (\<lambda>e. e = Quarantine sc re)
    \<and> counter_value m ''scalpel_route_violation_total'' [] = count_of es (\<lambda>e. e = Route_Violation)
    \<and> counter_value m ''scalpel_scheduler_shelving_total'' [] = count_of es (\<lambda>e. e = Shelving)
    \<and> observations m ''scalpel_swap_latency_seconds'' = concat (map (\<lambda>e. case e of Swap _ x \<Rightarrow> [x] | _ \<Rightarrow> []) es)
    \<and> observations m ''scalpel_rollback_latency_seconds'' = concat (map (\<lambda>e. case e of Rollback _ x \<Rightarrow> [x] | _ \<Rightarrow> []) es)
    \<and> observations m ''scalpel_payload_load_latency_seconds'' = concat (map (\<lambda>e. case e of Payload_Load x \<Rightarrow> [x] | _ \<Rightarrow> []) es)
    \<and> gauge_value m ''scalpel_worker_health'' [] = Some (if Unhealthy \<in> set es then 0 else 1)
    \<and> gauge_value m ''scalpel_active_route'' [(''route'', r)] = (if Active_Route r \<in> set es then Some 1 else None))
  \<and> pr_calls (fold prom_step es (new_prometheus False)) = []
  \<and> prom_export gen (fold prom_step es (new_prometheus False)) = []"
proof -
  have fresh: "Inc n ls \<notin> set created_metrics" for n ls by (simp add: created_metrics_def)
  have health: "gauge_value (fold prom_step es (new_prometheus True)) ''scalpel_worker_health'' []
      = (if \<exists>e\<in>set es. e = Unhealthy then Some 0 else fold (set_reading ''scalpel_worker_health'' []) created_metrics None)"
    by (rule gauge_run) (case_tac e; simp add: set_reading_def)
  have active: "gauge_value (fold prom_step es (new_prometheus True)) ''scalpel_active_route'' [(''route'', r)]
      = (if \<exists>e\<in>set es. e = Active_Route r then Some 1 else fold (set_reading ''scalpel_active_route'' [(''route'', r)]) created_metrics None)"
    by (rule gauge_run) (case_tac e; simp add: set_reading_def)
  have start: "fold (set_reading ''scalpel_worker_health'' []) created_metrics None = Some 1"
      "fold (set_reading ''scalpel_active_route'' [(''route'', r)]) created_metrics None = None"
    by (simp_all add: created_metrics_def set_reading_def)
  show ?thesis
    unfolding Let_def health active start prom_disabled
    by (intro conjI; (rule counter_run[OF fresh], case_tac e; simp; fail)?; (rule observations_run, case_tac e; simp; fail)?)
      (auto simp: new_prometheus_def prom_export_def)
qed

text \<open>Every call on the client names a metric created before, with exactly the label names it was created with.\<close>

fun fits :: "client_call list \<Rightarrow> client_call \<Rightarrow> bool" where
  "fits cs (Inc n ls) \<longleftrightarrow> Create_Counter n (map fst ls) \<in> set cs"
| "fits cs (Observe n x) \<longleftrightarrow> Create_Histogram n latency_buckets \<in> set cs"
| "fits cs (Set_Gauge n ls x) \<longleftrightarrow> Create_Gauge n (map fst ls) \<in> set cs"
| "fits cs c \<longleftrightarrow> True"

lemma prometheus_calls_fit:
  "list_all (fits created_metrics) (pr_calls (fold prom_step es (new_prometheus enabled)))"
proof (cases enabled)
  case True
  have "list_all (fits created_metrics) (event_calls e)" for e by (cases e) (simp_all add: created_metrics_def)
  then have "list_all (fits created_metrics) (concat (map event_calls es))" by (induction es) simp_all
  moreover have "list_all (fits created_metrics) created_metrics" unfolding created_metrics_def by simp
  ultimately show ?thesis using True by (simp add: run_calls)
next
  case False
  then show ?thesis by (simp add: prom_disabled) (simp add: new_prometheus_def)
qed

end
