(* ===== verification/SQL_Suite.thy ===== *)
theory SQL_Suite
  imports Safe_Project
begin

text \<open>
  The SQL-50 benchmark (core/benchmarks/sql_50.py) with its rows as Python tuples, and the evaluate command of
  cli/main.py. The evaluator is that of \<open>Evaluator\<close>; generation, the parser and SQLite stay its parameters.
\<close>

section \<open>Rows\<close>

datatype cell = Int_Cell int | Text_Cell string

text \<open>An order on cells, integers first; Python itself refuses to compare the two kinds.\<close>

instantiation cell :: linorder
begin

fun less_eq_cell :: "cell \<Rightarrow> cell \<Rightarrow> bool" where
  "less_eq_cell (Int_Cell i) (Int_Cell j) \<longleftrightarrow> i \<le> j"
| "less_eq_cell (Int_Cell i) (Text_Cell t) \<longleftrightarrow> True"
| "less_eq_cell (Text_Cell s) (Int_Cell j) \<longleftrightarrow> False"
| "less_eq_cell (Text_Cell s) (Text_Cell t) \<longleftrightarrow> s \<le> t"

definition less_cell :: "cell \<Rightarrow> cell \<Rightarrow> bool" where
  "less_cell a b \<longleftrightarrow> a \<le> b \<and> \<not> b \<le> (a :: cell)"

instance
proof
  fix a b c :: cell
  show "a < b \<longleftrightarrow> a \<le> b \<and> \<not> b \<le> a" by (rule less_cell_def)
  show "a \<le> a" by (cases a) simp_all
  show "a \<le> b \<Longrightarrow> b \<le> c \<Longrightarrow> a \<le> c" by (cases a; cases b; cases c) auto
  show "a \<le> b \<Longrightarrow> b \<le> a \<Longrightarrow> a = b" by (cases a; cases b) auto
  show "a \<le> b \<or> b \<le> a" by (cases a; cases b) auto
qed

end

type_synonym row = "cell list"

section \<open>The suite\<close>

text \<open>\<open>f'{i:03}'\<close>.\<close>

definition pad3 :: "nat \<Rightarrow> string" where
  "pad3 i = replicate (3 - length (nat_str i)) CHR ''0'' @ nat_str i"

definition sql_case :: "string \<Rightarrow> string \<Rightarrow> string \<Rightarrow> string list \<Rightarrow> string list \<Rightarrow> string \<Rightarrow> row list \<Rightarrow> nat \<Rightarrow> row test_case" where
  "sql_case category question table_line tables columns script first_result i =
     \<lparr>tc_id = category @ ''_'' @ pad3 i, tc_category = category,
      tc_prompt = ''SQL: '' @ question @ '' '' @ nat_str i @ ''.'' @ newline @ table_line @ newline @ ''Output:'',
      tc_tables = tables, tc_columns = columns, tc_sqlite_setup = script,
      tc_expected_result = Some (if i = 1 then first_result else []), tc_order_sensitive = False\<rparr>"

definition basic_select_case :: "nat \<Rightarrow> row test_case" where
  "basic_select_case =
     sql_case ''basic_select'' ''Get names of users in region'' ''Table: users(id, name, region_id)'' [''users''] [''name'', ''region_id'']
       (''CREATE TABLE users (id INT, name TEXT, region_id INT); INSERT INTO users VALUES (1, '' @ apostrophe ''Alice'' @ '', 1), (2, ''
          @ apostrophe ''Bob'' @ '', 2), (3, '' @ apostrophe ''Charlie'' @ '', 1);'')
       [[Text_Cell ''Alice''], [Text_Cell ''Charlie'']]"

definition aggregation_case :: "nat \<Rightarrow> row test_case" where
  "aggregation_case =
     sql_case ''aggregation'' ''Total sales for store'' ''Table: sales(id, store_id, amount)'' [''sales''] [''amount'', ''store_id'']
       ''CREATE TABLE sales (id INT, store_id INT, amount INT); INSERT INTO sales VALUES (1, 1, 100), (2, 1, 200), (3, 2, 500);''
       [[Int_Cell 300]]"

definition joins_case :: "nat \<Rightarrow> row test_case" where
  "joins_case =
     sql_case ''joins'' ''Names of products in category'' ''Table: products(id, name, cat_id), categories(id, name)'' [''products'', ''categories''] [''name'']
       (''CREATE TABLE categories (id INT, name TEXT); CREATE TABLE products (id INT, name TEXT, cat_id INT); INSERT INTO categories VALUES (1, ''
          @ apostrophe ''Tech'' @ ''); INSERT INTO products VALUES (1, '' @ apostrophe ''Laptop'' @ '', 1);'')
       [[Text_Cell ''Laptop'']]"

definition subqueries_case :: "nat \<Rightarrow> row test_case" where
  "subqueries_case =
     sql_case ''subqueries'' ''Employees with salary above avg in dept'' ''Table: employees(id, name, salary, dept_id)'' [''employees''] [''name'', ''salary'']
       (''CREATE TABLE employees (id INT, name TEXT, salary INT, dept_id INT); INSERT INTO employees VALUES (1, ''
          @ apostrophe ''A'' @ '', 10, 1), (2, '' @ apostrophe ''B'' @ '', 20, 1), (3, '' @ apostrophe ''C'' @ '', 30, 1);'')
       [[Text_Cell ''C'']]"

definition complex_logic_case :: "nat \<Rightarrow> row test_case" where
  "complex_logic_case =
     sql_case ''complex_logic'' ''Customers who bought all items in order'' ''Table: orders(id, cust_id), order_items(order_id, item_id)''
       [''orders'', ''order_items''] [''cust_id'']
       ''CREATE TABLE orders (id INT, cust_id INT); CREATE TABLE order_items (order_id INT, item_id INT); INSERT INTO orders VALUES (1, 101); INSERT INTO order_items VALUES (1, 1), (1, 2);''
       [[Int_Cell 101]]"

definition get_sql_50_suite :: "row test_case list" where
  "get_sql_50_suite =
     map basic_select_case [1..<11] @ map aggregation_case [1..<11] @ map joins_case [1..<11]
       @ map subqueries_case [1..<11] @ map complex_logic_case [1..<11]"

section \<open>The evaluate command\<close>

text \<open>The file of the command: as \<open>evaluation_of\<close>, without the names of the target and the adapter.\<close>

record cli_evaluation =
  ce_stats :: suite_stats
  ce_results :: "case_result list"
  ce_eval_dtype :: string
  ce_adapter_merge :: bool

definition evaluate_cli :: "'r::linorder evaluate_env \<Rightarrow> evaluate_args \<Rightarrow> ((string, cli_evaluation) dict, suite_stats) act" where
  "evaluate_cli env args files =
     (case run_benchmark env args of
        Inl e \<Rightarrow> (files, Inl e)
      | Inr res \<Rightarrow>
          let out = \<lparr>ce_stats = sr_stats res, ce_results = sr_results res, ce_eval_dtype = va_dtype args,
                     ce_adapter_merge = va_merge_adapter args\<rparr>
          in if str_truthy (va_output args)
             then if os_dirname (the (va_output args)) = [] then (files, Inl (PyExc FileNotFoundErrorE ''No such file or directory: ''))
                  else (dict_set (the (va_output args)) out files, Inr (sr_stats res))
             else (files, Inr (sr_stats res)))"

section \<open>What the suite can tell\<close>

lemmas case_defs = basic_select_case_def aggregation_case_def joins_case_def subqueries_case_def complex_logic_case_def sql_case_def

lemma upto_ten: "[1..<11] = [1, 2, 3, 4, 5, 6, 7, 8, 9, 10 :: nat]"
  by (simp add: upt_rec)

lemma suite_length: "length get_sql_50_suite = 50"
  by (simp add: get_sql_50_suite_def)

lemma pad3_values: "map pad3 [1..<11] = [''001'', ''002'', ''003'', ''004'', ''005'', ''006'', ''007'', ''008'', ''009'', ''010'']"
  by code_simp

lemma suite_ids: "map tc_id get_sql_50_suite = concat (map (\<lambda>c. map (\<lambda>n. c @ ''_'' @ n) (map pad3 [1..<11]))
    [''basic_select'', ''aggregation'', ''joins'', ''subqueries'', ''complex_logic''])"
  by (simp add: get_sql_50_suite_def case_defs o_def)

lemma suite_distinct: "distinct (map tc_id get_sql_50_suite)"
  unfolding suite_ids pad3_values by simp

lemma suite_expected:
  "map tc_expected_result get_sql_50_suite =
     concat (map (\<lambda>r. Some r # replicate 9 (Some []))
       [[[Text_Cell ''Alice''], [Text_Cell ''Charlie'']], [[Int_Cell 300]], [[Text_Cell ''Laptop'']], [[Text_Cell ''C'']], [[Int_Cell 101]]])"
  unfolding get_sql_50_suite_def upto_ten by (simp add: case_defs eval_nat_numeral)

lemma suite_setups: "tc \<in> set get_sql_50_suite \<Longrightarrow> tc_sqlite_setup tc \<noteq> []"
  by (auto simp: get_sql_50_suite_def case_defs)

lemma no_rows_match: "rows_match env order [] expected \<longleftrightarrow> expected = []"
proof -
  have "sort expected = [] \<longleftrightarrow> expected = []" using length_sort[of "\<lambda>x. x" expected] by (cases expected) auto
  then show ?thesis by (auto simp: rows_match_def)
qed

lemma no_rows_case:
  assumes "\<exists>x. ev_parse env (generate_sql env (tc_prompt tc)) = Inr x" and "\<And>script. ev_execute env script (generate_sql env (tc_prompt tc)) = Inr []"
    and "tc \<in> set get_sql_50_suite"
  shows "cr_is_correct (evaluate_case env tc) \<longleftrightarrow> tc_expected_result tc = Some []"
    and "cr_execution_success (evaluate_case env tc) = Some True"
    and "cr_id (evaluate_case env tc) = tc_id tc"
  using assms(1,2) suite_setups[OF assms(3)]
  by (auto simp: evaluate_case_def Let_def validate_syntax_def execute_sqlite_def no_rows_match split: option.splits)

lemma case_ids: "map tc_id (filter (\<lambda>tc. tc_expected_result tc \<noteq> Some []) get_sql_50_suite)
    = [''basic_select_001'', ''aggregation_001'', ''joins_001'', ''subqueries_001'', ''complex_logic_001'']"
proof -
  have p: "pad3 1 = ''001''" by code_simp
  have "map tc_id (filter (\<lambda>tc. tc_expected_result tc \<noteq> Some []) (map (sql_case c q t ts cs script first) [1..<11])) = [c @ ''_'' @ pad3 1]"
    if "first \<noteq> []" for c q t ts cs script first
    using that unfolding upto_ten by (simp add: sql_case_def del: One_nat_def)
  note this[unfolded p]
  then show ?thesis
    by (simp add: get_sql_50_suite_def basic_select_case_def aggregation_case_def joins_case_def subqueries_case_def complex_logic_case_def del: upt_conv_Cons)
qed

text \<open>The SQL-50 suite has fifty cases with distinct names, and only the first case of each category expects rows. So
  a model whose every answer parses and returns no rows, whatever it was asked, is scored with an
  accuracy of 90 percent and an execution success of 100 percent, and fails exactly these five cases.\<close>

theorem empty_answers_score_ninety:
  fixes env :: "row eval_env"
  assumes "\<And>p. \<exists>x. ev_parse env (generate_sql env p) = Inr x" and "\<And>p script. ev_execute env script (generate_sql env p) = Inr []"
  shows "let res = evaluate_suite env get_sql_50_suite in
      distinct (map tc_id get_sql_50_suite)
    \<and> ss_total (sr_stats res) = 50
    \<and> ss_execution_success_rate (sr_stats res) = 1
    \<and> ss_execution_accuracy (sr_stats res) = 9 / 10
    \<and> map cr_id (sr_failure_cases res)
        = [''basic_select_001'', ''aggregation_001'', ''joins_001'', ''subqueries_001'', ''complex_logic_001'']"
proof -
  let ?rs = "map (evaluate_case env) get_sql_50_suite"
  note one = no_rows_case[OF assms]
  have correct: "map cr_is_correct ?rs = map (\<lambda>e. e = Some []) (map tc_expected_result get_sql_50_suite)" using one(1) by simp
  have "count_if cr_is_correct ?rs = length (filter id (map cr_is_correct ?rs))"
    by (simp add: count_if_def filter_map o_def)
  also have "\<dots> = 45" unfolding correct suite_expected by simp
  finally have exact: "count_if cr_is_correct ?rs = 45" .
  have ok: "count_if (\<lambda>r. cr_execution_success r = Some True) ?rs = 50"
    using one(2) suite_length by (simp add: count_if_def filter_map o_def cong: filter_cong)
  have f: "ss_total (fold upd_stats ?rs (init_stats 50)) = 50" "ss_exact_match (fold upd_stats ?rs (init_stats 50)) = 45"
      "ss_execution_success (fold upd_stats ?rs (init_stats 50)) = 50"
    using fold_stats[of ?rs "init_stats 50"] exact ok by (simp_all add: Let_def init_stats_def)
  have "map cr_id (filter (\<lambda>r. \<not> cr_is_correct r) ?rs) = map tc_id (filter (\<lambda>tc. tc_expected_result tc \<noteq> Some []) get_sql_50_suite)"
    using one(1,3) by (simp add: filter_map o_def cong: filter_cong)
  then show ?thesis
    using suite_distinct case_ids f by (simp add: evaluate_suite_def Let_def suite_length)
qed

definition silent_env :: "row eval_env" where
  "silent_env = \<lparr>ev_generate = (\<lambda>_. ''SELECT 1 WHERE 0''), ev_parse = (\<lambda>_. Inr ([], [])), ev_execute = (\<lambda>_ _. Inr []), ev_sortable = (\<lambda>_. True)\<rparr>"

lemma empty_answers_score_ninety_witness:
  "ss_execution_accuracy (sr_stats (evaluate_suite silent_env get_sql_50_suite)) = 9 / 10"
  using empty_answers_score_ninety[of silent_env] by (simp add: silent_env_def Let_def)

text \<open>The two commands that evaluate a model agree: same failures, same scores, and files that differ only in the names the
  second one adds.\<close>

lemma evaluation_commands_agree:
  "snd (evaluate_cli env args files) = (case run_benchmark env args of Inl e \<Rightarrow> Inl e
      | Inr res \<Rightarrow> bindE (snd (run_evaluate env args files')) (\<lambda>_. Inr (sr_stats res)))"
  by (auto simp: evaluate_cli_def run_evaluate_def str_truthy_def Let_def split: sum.splits option.splits list.splits)

end
