(* ===== verification/Gate_Script.thy ===== *)
theory Gate_Script
  imports SQL_Suite
begin

text \<open>
  The source adapter quality gate as a program (scripts/source_adapter_quality_gate.py): the SQL-50 suite
  evaluated with and without the adapter, the report with its stability measures, its verdict and its
  markdown (core/quality_gate.py), and the files. Loading the models, generation, the number formats and JSON texts are
  parameters; console output is left out.
\<close>

section \<open>Markdown\<close>

record markdown_format =
  mf_percent :: "rat \<Rightarrow> string"
  mf_signed :: "rat \<Rightarrow> string"
  mf_json :: "(string, json) dict \<Rightarrow> string"

definition capitalized :: "string \<Rightarrow> string" where
  "capitalized k = (case replace_all ''_'' '' '' k of [] \<Rightarrow> [] | c # cs \<Rightarrow> upper_char c # str_lower cs)"

definition md_line :: "string \<Rightarrow> string" where
  "md_line s = s @ newline"

definition md_row :: "string list \<Rightarrow> string" where
  "md_row columns = ''| '' @ join '' | '' columns @ '' |''"

definition to_markdown :: "markdown_format \<Rightarrow> quality_report \<Rightarrow> string" where
  "to_markdown f q = concat (map md_line (
     [''# Source Adapter Quality Gate Report'', [], ''## Summary'', [], ''| Field | Value |'', ''|---|---|'',
      md_row [''Base Model'', qr_base_model q], md_row [''Adapter'', qr_adapter_path q], md_row [''Benchmark'', qr_benchmark q],
      md_row [''**Verdict**'', ''**'' @ qr_verdict q @ ''**''], md_row [''**Status**'', ''**'' @ qr_gate_status q @ ''**''],
      md_row [''Recommendation'', qr_recommendation q], [],
      ''## Metrics'', [], ''| Metric | Base | Adapter | Delta |'', ''|---|---:|---:|---:|'']
     @ map (\<lambda>(m, b). md_row [m, mf_percent f b, mf_percent f (dict_get (qr_adapter_metrics q) m 0), mf_signed f (dict_get (qr_delta q) m 0)]) (qr_base_metrics q)
     @ [[], ''## Diagnostic Analysis'', [], ''| Analysis | Value |'', ''|---|---:|'',
        md_row [''Total Cases'', nat_str (qr_total_cases q)], md_row [''Regression Rate'', mf_percent f (qr_regression_rate q)]]
     @ map (\<lambda>(k, v). md_row [capitalized k, mf_percent f v]) (qr_stability q)
     @ [[], ''## Failure Classification'', [], ''| Type | Count |'', ''|---|---:|'']
     @ map (\<lambda>(k, v). md_row [capitalized k, int_str v]) (qr_failure_classification q)
     @ (if qr_notes q \<noteq> [] then [[], ''## Notes'', []] @ map (\<lambda>note. ''- '' @ note) (qr_notes q) else [])
     @ [[], ''## Metadata'', [], fence @ ''json'', mf_json f (qr_metadata q), fence]))"

section \<open>The gate\<close>

text \<open>\<open>s.split()\<close>.\<close>

function words :: "string \<Rightarrow> string list" where
  "words s =
     (let t = dropWhile is_space s
      in if t = [] then [] else takeWhile (\<lambda>c. \<not> is_space c) t # words (dropWhile (\<lambda>c. \<not> is_space c) t))"
  by pat_completeness auto

termination
proof (relation "measure length")
  fix s t :: string
  assume t: "t = dropWhile is_space s" "t \<noteq> []"
  then have "\<not> is_space (hd t)" by (simp add: hd_dropWhile)
  then have "length (dropWhile (\<lambda>c. \<not> is_space c) t) < length t"
    using t(2) length_dropWhile_le[of "\<lambda>c. \<not> is_space c" "tl t"] by (cases t) auto
  also have "\<dots> \<le> length s" unfolding t(1) by (rule length_dropWhile_le)
  finally show "(dropWhile (\<lambda>c. \<not> is_space c) t, s) \<in> measure length" by simp
qed auto

declare words.simps [simp del]

definition empty_answer :: "case_result \<Rightarrow> bool" where
  "empty_answer res \<longleftrightarrow> str_strip (cr_generated res) = []"

definition repetitive_answer :: "case_result \<Rightarrow> bool" where
  "repetitive_answer res \<longleftrightarrow>
     (let tokens = words (str_strip (cr_generated res))
      in 8 \<le> length tokens \<and> of_nat (length (remdups tokens)) / of_nat (length tokens) < (35 / 100 :: rat))"

definition stability_measures :: "nat \<Rightarrow> (string, rat) dict \<Rightarrow> (string, rat) dict \<Rightarrow> rat \<Rightarrow> case_result list \<Rightarrow> (string, rat) dict" where
  "stability_measures n base_metrics adapter_metrics regression_rate results =
     [(''collapse_detected'',
         if dict_get adapter_metrics ''execution_success'' 0 < 1 / 10 \<and> 1 / 2 < dict_get base_metrics ''execution_success'' 0 then 1 else 0),
      (''empty_output_rate'', of_nat (length (filter empty_answer results)) / of_nat n),
      (''repetition_rate'', of_nat (length (filter (\<lambda>r. \<not> empty_answer r \<and> repetitive_answer r) results)) / of_nat n),
      (''regression_rate'', regression_rate)]"

text \<open>The adapter's own configuration, if its file exists, as it parses.\<close>

definition validate_adapter_metadata :: "json result option \<Rightarrow> string \<Rightarrow> (string \<times> string list) result" where
  "validate_adapter_metadata local_config base_model_name =
     (case local_config of
        None \<Rightarrow> Inr (''skipped_for_hub'', [])
      | Some parsed \<Rightarrow>
          bindE (bindE parsed as_dict) (\<lambda>config.
            let config_base = dict_get config ''base_model_name_or_path'' (JStr [])
            in bindE (if truthy config_base then py_in base_model_name config_base else Inr True) (\<lambda>matches.
                 Inr (''local_validated'',
                   if matches then []
                   else [''Base model mismatch: config has '' @ apostrophe (case config_base of JStr t \<Rightarrow> t | _ \<Rightarrow> [])
                         @ '', but you provided '' @ apostrophe base_model_name]))))"

record gate_args =
  ga_base_model :: string
  ga_adapter_path :: string
  ga_benchmark :: string
  ga_config :: gate_config
  ga_output :: "string option"
  ga_comparisons :: "string option"

record gate_env =
  ge_local_config :: "json result option"
  ge_load :: "unit result"
  ge_evaluator :: "bool \<Rightarrow> row eval_env"
  ge_percent :: "rat \<Rightarrow> string"
  ge_markdown :: markdown_format

definition gate_report :: "gate_env \<Rightarrow> gate_args \<Rightarrow> string \<times> string list \<Rightarrow> nat \<Rightarrow> suite_result \<Rightarrow> suite_result \<Rightarrow> quality_report result" where
  "gate_report env args metadata n base_res adapter_res =
     bindE (suite_metrics (sr_stats base_res)) (\<lambda>base_metrics.
     bindE (suite_metrics (sr_stats adapter_res)) (\<lambda>adapter_metrics.
       let classification = failure_classification n base_res adapter_res;
           rate = (if 0 < n then of_int (dict_get classification ''regressed'' 0) / of_nat n else 0)
       in Inr (generate_verdict (ge_percent env) (Some (ga_config args))
            ((new_quality_report (ga_base_model args) (ga_adapter_path args) (ga_benchmark args))
               \<lparr>qr_base_metrics := base_metrics, qr_adapter_metrics := adapter_metrics,
                qr_delta := map (\<lambda>(m, b). (m, dict_get adapter_metrics m 0 - b)) base_metrics,
                qr_total_cases := n, qr_failure_classification := classification, qr_regression_rate := rate,
                qr_stability := stability_measures n base_metrics adapter_metrics rate (sr_results adapter_res),
                qr_metadata := [(''base_eval_mode'', JStr ''peft_disable_adapter''), (''metadata_validation_mode'', JStr (fst metadata)),
                  (''warnings'', JList (map JStr (snd metadata))), (''torch_dtype'', JStr ''torch.float16'')]\<rparr>))))"

record comparison =
  cp_id :: string
  cp_category :: string
  cp_classification :: string
  cp_base_correct :: bool
  cp_adapter_correct :: bool
  cp_base_output :: string
  cp_adapter_output :: string

definition classify_pair :: "bool \<Rightarrow> bool \<Rightarrow> string" where
  "classify_pair base_correct adapter_correct =
     (if adapter_correct \<and> \<not> base_correct then ''fixed''
      else if base_correct \<and> \<not> adapter_correct then ''regressed''
      else if \<not> base_correct \<and> \<not> adapter_correct then ''both_failed''
      else ''both_succeeded'')"

text \<open>\<open>{res['id']: res for res in results}\<close>, and the comparison of the cases; Python leaves open in which order a
  set is walked, here it is that of the results.\<close>

definition results_by_id :: "case_result list \<Rightarrow> (string, case_result) dict" where
  "results_by_id results = fold (\<lambda>res. dict_set (cr_id res) res) results []"

definition compare_case :: "case_result \<Rightarrow> case_result \<Rightarrow> comparison" where
  "compare_case b a =
     \<lparr>cp_id = cr_id b, cp_category = cr_category b, cp_classification = classify_pair (cr_is_correct b) (cr_is_correct a),
      cp_base_correct = cr_is_correct b, cp_adapter_correct = cr_is_correct a, cp_base_output = cr_generated b, cp_adapter_output = cr_generated a\<rparr>"

definition comparisons_of :: "suite_result \<Rightarrow> suite_result \<Rightarrow> comparison list result" where
  "comparisons_of base_res adapter_res =
     mapE (\<lambda>cid. bindE (dict_item (results_by_id (sr_results base_res)) cid) (\<lambda>b.
                 bindE (dict_item (results_by_id (sr_results adapter_res)) cid) (\<lambda>a. Inr (compare_case b a))))
       (remdups (map cr_id (sr_results base_res)))"

datatype gate_file = Report_File quality_report | Markdown_File string | Comparison_File "comparison list"

definition save_reports :: "gate_env \<Rightarrow> string option \<Rightarrow> quality_report \<Rightarrow> (string, gate_file) dict \<Rightarrow> (string, gate_file) dict" where
  "save_reports env out report files =
     (if str_truthy out
      then dict_set (replace_all ''.json'' ''.md'' (the out)) (Markdown_File (to_markdown (ge_markdown env) report))
             (dict_set (the out) (Report_File report) files)
      else files)"

definition run_quality_gate :: "gate_env \<Rightarrow> gate_args \<Rightarrow> ((string, gate_file) dict, quality_report) act" where
  "run_quality_gate env args files =
     (if ga_benchmark args \<noteq> ''sql_50''
      then (files, Inl (PyExc ValueErrorE (''Benchmark '' @ apostrophe (ga_benchmark args) @ '' is not yet supported in the registry.'')))
      else case bindE (validate_adapter_metadata (ge_local_config env) (ga_base_model args)) (\<lambda>metadata.
                bindE (ge_load env) (\<lambda>_. Inr metadata)) of
             Inl e \<Rightarrow> (files, Inl e)
           | Inr metadata \<Rightarrow>
               let adapter_res = evaluate_suite (ge_evaluator env True) get_sql_50_suite;
                   base_res = evaluate_suite (ge_evaluator env False) get_sql_50_suite
               in case gate_report env args metadata (length get_sql_50_suite) base_res adapter_res of
                    Inl e \<Rightarrow> (files, Inl e)
                  | Inr report \<Rightarrow>
                      let files = save_reports env (ga_output args) report files
                      in if str_truthy (ga_comparisons args)
                         then case comparisons_of base_res adapter_res of
                                Inl e \<Rightarrow> (files, Inl e)
                              | Inr cs \<Rightarrow> (dict_set (the (ga_comparisons args)) (Comparison_File cs) files, Inr report)
                         else (files, Inr report))"

section \<open>What the gate decides\<close>

abbreviation sql_results :: "row eval_env \<Rightarrow> suite_result" where
  "sql_results e \<equiv> evaluate_suite e get_sql_50_suite"

definition cases_with :: "(row test_case \<Rightarrow> bool) \<Rightarrow> nat" where
  "cases_with P = length (filter P get_sql_50_suite)"

definition correct_case :: "row eval_env \<Rightarrow> row test_case \<Rightarrow> bool" where
  "correct_case e tc = cr_is_correct (evaluate_case e tc)"

definition success_case :: "row eval_env \<Rightarrow> row test_case \<Rightarrow> bool" where
  "success_case e tc \<longleftrightarrow> cr_execution_success (evaluate_case e tc) = Some True"

lemma results_cases: "sr_results (sql_results e) = map (evaluate_case e) get_sql_50_suite"
  by (simp add: evaluate_suite_def Let_def)

lemma case_id: "cr_id (evaluate_case e tc) = tc_id tc"
  by (simp add: evaluate_case_def Let_def)

lemma suite_inj: "distinct get_sql_50_suite" "inj_on tc_id (set get_sql_50_suite)"
  using suite_distinct by (auto simp: distinct_map)

lemma card_ids: "X \<subseteq> set get_sql_50_suite \<Longrightarrow> card (tc_id ` X) = cases_with (\<lambda>tc. tc \<in> X)"
proof -
  assume X: "X \<subseteq> set get_sql_50_suite"
  then have "card (tc_id ` X) = card X" using suite_inj(2) by (intro card_image) (rule inj_on_subset)
  moreover have "X = set (filter (\<lambda>tc. tc \<in> X) get_sql_50_suite)" using X by auto
  then have "card X = length (filter (\<lambda>tc. tc \<in> X) get_sql_50_suite)" using suite_inj(1) by (metis distinct_card distinct_filter)
  ultimately show ?thesis by (simp add: cases_with_def)
qed

lemma correct_ids_cases: "correct_ids (sql_results e) = tc_id ` {tc \<in> set get_sql_50_suite. correct_case e tc}"
  by (simp add: correct_ids_def results_cases case_id correct_case_def[abs_def] filter_map o_def image_image setcompr_eq_image)

lemma cases_cong: "(\<And>tc. tc \<in> set get_sql_50_suite \<Longrightarrow> P tc = Q tc) \<Longrightarrow> cases_with P = cases_with Q"
  by (simp add: cases_with_def cong: filter_cong)

lemma classification_counts:
  "card (correct_ids (sql_results a) - correct_ids (sql_results b)) = cases_with (\<lambda>tc. correct_case a tc \<and> \<not> correct_case b tc)"
  "card (correct_ids (sql_results b) \<inter> correct_ids (sql_results a)) = cases_with (\<lambda>tc. correct_case a tc \<and> correct_case b tc)"
  "card (correct_ids (sql_results b) \<union> correct_ids (sql_results a)) = cases_with (\<lambda>tc. correct_case a tc \<or> correct_case b tc)"
proof -
  let ?S = "set get_sql_50_suite"
  have ids: "correct_ids (sql_results a) - correct_ids (sql_results b) = tc_id ` {tc \<in> ?S. correct_case a tc \<and> \<not> correct_case b tc}"
    "correct_ids (sql_results b) \<inter> correct_ids (sql_results a) = tc_id ` {tc \<in> ?S. correct_case a tc \<and> correct_case b tc}"
    "correct_ids (sql_results b) \<union> correct_ids (sql_results a) = tc_id ` {tc \<in> ?S. correct_case a tc \<or> correct_case b tc}"
    using inj_onD[OF suite_inj(2)] unfolding correct_ids_cases by blast+
  show "card (correct_ids (sql_results a) - correct_ids (sql_results b)) = cases_with (\<lambda>tc. correct_case a tc \<and> \<not> correct_case b tc)"
    "card (correct_ids (sql_results b) \<inter> correct_ids (sql_results a)) = cases_with (\<lambda>tc. correct_case a tc \<and> correct_case b tc)"
    "card (correct_ids (sql_results b) \<union> correct_ids (sql_results a)) = cases_with (\<lambda>tc. correct_case a tc \<or> correct_case b tc)"
    unfolding ids by (subst card_ids; auto intro: cases_cong)+
qed

lemma cases_split: "cases_with P + cases_with (\<lambda>tc. \<not> P tc) = 50"
  using sum_length_filter_compl[of P get_sql_50_suite] by (simp add: cases_with_def suite_length)

lemma cases_part: "cases_with P = cases_with (\<lambda>tc. P tc \<and> Q tc) + cases_with (\<lambda>tc. P tc \<and> \<not> Q tc)"
proof -
  have "length (filter P xs) = length (filter (\<lambda>x. P x \<and> Q x) xs) + length (filter (\<lambda>x. P x \<and> \<not> Q x) xs)" for xs :: "row test_case list"
    by (induction xs) auto
  then show ?thesis unfolding cases_with_def .
qed

lemma sql_stats:
  "ss_total (sr_stats (sql_results e)) = 50"
  "ss_execution_accuracy (sr_stats (sql_results e)) = of_nat (cases_with (correct_case e)) / 50"
  "ss_execution_success_rate (sr_stats (sql_results e)) = of_nat (cases_with (success_case e)) / 50"
proof -
  let ?rs = "map (evaluate_case e) get_sql_50_suite"
  have c: "count_if cr_is_correct ?rs = cases_with (correct_case e)"
      "count_if (\<lambda>r. cr_execution_success r = Some True) ?rs = cases_with (success_case e)"
    by (simp_all add: count_if_def cases_with_def filter_map o_def correct_case_def[abs_def] success_case_def[abs_def])
  have f: "ss_total (fold upd_stats ?rs (init_stats 50)) = 50"
      "ss_exact_match (fold upd_stats ?rs (init_stats 50)) = cases_with (correct_case e)"
      "ss_execution_success (fold upd_stats ?rs (init_stats 50)) = cases_with (success_case e)"
    using fold_stats[of ?rs "init_stats 50"] c by (simp_all add: Let_def init_stats_def)
  show "ss_total (sr_stats (sql_results e)) = 50"
    "ss_execution_accuracy (sr_stats (sql_results e)) = of_nat (cases_with (correct_case e)) / 50"
    "ss_execution_success_rate (sr_stats (sql_results e)) = of_nat (cases_with (success_case e)) / 50"
    using f by (simp_all add: evaluate_suite_def Let_def suite_length)
qed

text \<open>The report before its verdict.\<close>

lemma gate_report_ok:
  "\<exists>q. gate_report env args md 50 (sql_results b) (sql_results a) = Inr (generate_verdict (ge_percent env) (Some (ga_config args)) q)
    \<and> map_of (qr_delta q) ''execution_accuracy'' = Some ((of_nat (cases_with (correct_case a)) - of_nat (cases_with (correct_case b))) / 50)
    \<and> qr_failure_classification q = failure_classification 50 (sql_results b) (sql_results a)
    \<and> qr_regression_rate q = of_nat (card (correct_ids (sql_results b) - correct_ids (sql_results a))) / 50
    \<and> stability_of q ''collapse_detected'' = (if cases_with (success_case a) < 5 \<and> 25 < cases_with (success_case b) then 1 else 0)
    \<and> stability_of q ''empty_output_rate'' = of_nat (cases_with (\<lambda>tc. empty_answer (evaluate_case a tc))) / 50
    \<and> stability_of q ''repetition_rate''
        = of_nat (cases_with (\<lambda>tc. \<not> empty_answer (evaluate_case a tc) \<and> repetitive_answer (evaluate_case a tc))) / 50"
proof -
  let ?m = "\<lambda>e. [(''execution_accuracy'', of_nat (cases_with (correct_case e)) / 50 :: rat),
            (''execution_success'', of_nat (cases_with (success_case e)) / 50), (''syntax_validity'', of_nat (ss_syntax_valid (sr_stats (sql_results e))) / 50)]"
  have m: "suite_metrics (sr_stats (sql_results e)) = Inr (?m e)" for e
    by (simp add: suite_metrics_def py_div_def sql_stats)
  let ?c = "failure_classification 50 (sql_results b) (sql_results a)"
  have r: "of_int (dict_get ?c ''regressed'' 0) / of_nat 50 = (of_nat (card (correct_ids (sql_results b) - correct_ids (sql_results a))) / 50 :: rat)"
    by (simp add: failure_classification_def dict_get_def)
  have collapse: "((of_nat (cases_with (success_case a)) / 50 :: rat) < 1 / 10 \<and> (1 / 2 :: rat) < of_nat (cases_with (success_case b)) / 50)
      \<longleftrightarrow> cases_with (success_case a) < 5 \<and> 25 < cases_with (success_case b)"
    by (simp add: field_simps)
  have counts: "length (filter P (sr_results (sql_results a))) = cases_with (\<lambda>tc. P (evaluate_case a tc))" for P
    by (simp add: results_cases cases_with_def filter_map o_def)
  show ?thesis
    unfolding gate_report_def m bindE.simps Let_def
    by (rule exI, rule conjI, rule refl)
      (use collapse r in \<open>simp add: dict_get_def stability_of_def stability_measures_def counts diff_divide_distrib\<close>)
qed

lemma rates:
  "(3 / 100 :: rat) \<le> (of_nat a - of_nat b) / 50 \<longleftrightarrow> b + 2 \<le> a"
  "of_nat a / 50 \<le> (1 / 10 :: rat) \<longleftrightarrow> a \<le> 5"
  "of_nat a / 50 \<le> (5 / 100 :: rat) \<longleftrightarrow> a \<le> 2"
proof -
  have "(3 / 100 :: rat) \<le> (of_nat a - of_nat b) / 50 \<longleftrightarrow> (of_nat (3 + 2 * b) :: rat) \<le> of_nat (2 * a)" by (simp add: field_simps)
  then show "(3 / 100 :: rat) \<le> (of_nat a - of_nat b) / 50 \<longleftrightarrow> b + 2 \<le> a" unfolding of_nat_le_iff by linarith
  have "of_nat a / 50 \<le> (1 / 10 :: rat) \<longleftrightarrow> (of_nat a :: rat) \<le> of_nat 5" by (simp add: field_simps)
  then show "of_nat a / 50 \<le> (1 / 10 :: rat) \<longleftrightarrow> a \<le> 5" unfolding of_nat_le_iff .
  have "of_nat a / 50 \<le> (5 / 100 :: rat) \<longleftrightarrow> (of_nat (2 * a) :: rat) \<le> of_nat 5" by (simp add: field_simps)
  then show "of_nat a / 50 \<le> (5 / 100 :: rat) \<longleftrightarrow> a \<le> 2" unfolding of_nat_le_iff by linarith
qed

lemma verdict_default: "generate_verdict pct (Some default_gate_config) q = generate_verdict pct None q"
  by (simp add: generate_verdict_def)

lemma verdict_keeps: "qr_failure_classification (generate_verdict pct c q) = qr_failure_classification q"
  by (auto simp: generate_verdict_def score_verdict_def polish_status_def set_verdict_def add_note_def Let_def split: option.splits)

text \<open>The comparison never misses a case.\<close>

lemma results_lookup:
  assumes "tc \<in> set get_sql_50_suite"
  shows "map_of (results_by_id (sr_results (sql_results e))) (tc_id tc) = Some (evaluate_case e tc)"
proof -
  have gen: "map_of (fold (\<lambda>res. dict_set (cr_id res) res) (map (evaluate_case e) tcs) d) (tc_id tc)
      = (if tc \<in> set tcs then Some (evaluate_case e tc) else map_of d (tc_id tc))"
    if "distinct (map tc_id tcs)" "tc \<in> set tcs \<or> tc_id tc \<notin> tc_id ` set tcs" for tcs d
    using that
  proof (induction tcs arbitrary: d)
    case (Cons t tcs)
    show ?case
    proof (cases "tc = t")
      case True
      then have "tc \<notin> set tcs" "tc_id tc \<notin> tc_id ` set tcs" using Cons.prems(1) by auto
      then show ?thesis using Cons.IH[of "dict_set (cr_id (evaluate_case e t)) (evaluate_case e t) d"] Cons.prems(1) True by (simp add: case_id)
    next
      case False
      have "tc_id tc \<noteq> tc_id t"
      proof (cases "tc \<in> set tcs")
        case True
        then have "tc_id tc \<in> tc_id ` set tcs" by (rule imageI)
        moreover have "tc_id t \<notin> tc_id ` set tcs" using Cons.prems(1) by simp
        ultimately show ?thesis by metis
      qed (use Cons.prems(2) False in auto)
      then show ?thesis
        using Cons.IH[of "dict_set (cr_id (evaluate_case e t)) (evaluate_case e t) d"] Cons.prems False by (auto simp: case_id)
    qed
  qed simp
  show ?thesis unfolding results_by_id_def results_cases using gen[OF suite_distinct] assms by simp
qed

lemma comparisons_complete:
  "comparisons_of (sql_results b) (sql_results a) = Inr (map (\<lambda>tc. compare_case (evaluate_case b tc) (evaluate_case a tc)) get_sql_50_suite)"
proof -
  have ids: "remdups (map cr_id (sr_results (sql_results b))) = map tc_id get_sql_50_suite"
    using suite_distinct by (simp add: results_cases o_def case_id distinct_remdups_id)
  have step: "mapE f (map tc_id tcs) = Inr (map g tcs)" if "\<And>tc. tc \<in> set tcs \<Longrightarrow> f (tc_id tc) = Inr (g tc)" for f :: "string \<Rightarrow> comparison result" and g tcs
    using that by (induction tcs) simp_all
  show ?thesis
    unfolding comparisons_of_def ids by (rule step) (simp add: dict_item_def results_lookup)
qed


definition silent_gate :: gate_env where
  "silent_gate = \<lparr>ge_local_config = None, ge_load = Inr (), ge_evaluator = (\<lambda>_. silent_env), ge_percent = (\<lambda>_. []),
     ge_markdown = \<lparr>mf_percent = (\<lambda>_. []), mf_signed = (\<lambda>_. []), mf_json = (\<lambda>_. [])\<rparr>\<rparr>"


text \<open>An output path without the ending of a JSON file is overwritten by the markdown.\<close>

lemma markdown_overwrites_report:
  assumes "out \<noteq> []" and "replace_all ''.json'' ''.md'' out = out"
  shows "map_of (save_reports env (Some out) report files) out = Some (Markdown_File (to_markdown (ge_markdown env) report))"
  using assms by (cases out) (simp_all add: save_reports_def str_truthy_def)

end
