(* ===== verification/Kernel_Procrustes.thy ===== *)
theory Kernel_Procrustes
  imports Curvature
begin

text \<open>
  The kernel orthogonal Procrustes alignment (core/math.py, the later of its two definitions): Gaussian
  features of the activations over landmarks, the rotation between the features and their projection, and the
  reconstruction. The random landmarks, eigenvalues, pseudo-inverses and the singular value
  decomposition are parameters; entries are exact reals.
\<close>

section \<open>The alignment\<close>

record kernel_lib =
  kl_landmarks :: "nat \<Rightarrow> nat list"
  kl_eigh :: "mat \<Rightarrow> real list \<times> mat"
  kl_pinv :: "mat \<Rightarrow> mat"
  kl_svd :: svd

definition pick_rows :: "nat list \<Rightarrow> mat \<Rightarrow> mat" where
  "pick_rows indices A = mk (length indices) (mt_cols A) (\<lambda>r c. mt_at A (indices ! r) c)"

definition rbf_kernel :: "real \<Rightarrow> mat \<Rightarrow> mat \<Rightarrow> mat" where
  "rbf_kernel sigma X Y =
     mk (mt_rows X) (mt_rows Y) (\<lambda>r l. exp (- (\<Sum>c<mt_cols X. (mt_at X r c - mt_at Y l c)\<^sup>2) / (2 * sigma\<^sup>2)))"

definition add_ridge :: "real \<Rightarrow> mat \<Rightarrow> mat" where
  "add_ridge e K = mk (mt_rows K) (mt_cols K) (\<lambda>i j. mt_at K i j + (if i = j then e else 0))"

definition inv_half :: "kernel_lib \<Rightarrow> mat \<Rightarrow> mat" where
  "inv_half lib K =
     (let (L, Q) = kl_eigh lib K;
          D = mk (length L) (length L) (\<lambda>i j. if i = j then 1 / sqrt (max (L ! i) (1 / 10 ^ 7)) else 0)
      in mat_mul (mat_mul Q D) (mat_t Q))"

definition kernel_features :: "kernel_lib \<Rightarrow> real \<Rightarrow> nat list \<Rightarrow> mat \<Rightarrow> mat" where
  "kernel_features lib sigma indices A_i =
     (let landmarks = pick_rows indices A_i
      in mat_mul (rbf_kernel sigma A_i landmarks) (inv_half lib (add_ridge (1 / 10 ^ 6) (rbf_kernel sigma landmarks landmarks))))"

definition projected_features :: "kernel_lib \<Rightarrow> mat \<Rightarrow> mat \<Rightarrow> mat" where
  "projected_features lib B_i Phi_A = mat_mul (mat_mul B_i (kl_pinv lib B_i)) Phi_A"

definition kernel_rotation :: "kernel_lib \<Rightarrow> mat \<Rightarrow> mat \<Rightarrow> mat" where
  "kernel_rotation lib Phi_A Phi_B = (let (U, S, Vh) = kl_svd lib (mat_mul (mat_t Phi_A) Phi_B) in mat_mul U Vh)"

definition kernel_head :: "kernel_lib \<Rightarrow> real \<Rightarrow> nat list \<Rightarrow> mat \<Rightarrow> mat \<Rightarrow> mat \<times> mat" where
  "kernel_head lib sigma indices A_i B_i =
     (let Phi_A = kernel_features lib sigma indices A_i;
          R_k = kernel_rotation lib Phi_A (projected_features lib B_i Phi_A)
      in (mat_mul (mat_mul Phi_A R_k) (mat_mul (kl_pinv lib Phi_A) B_i), R_k))"

definition head_landmarks :: "kernel_lib \<Rightarrow> nat \<Rightarrow> nat \<Rightarrow> nat \<Rightarrow> nat list" where
  "head_landmarks lib N n_components i = take (min n_components N) (kl_landmarks lib i)"

definition kernel_orthogonal_procrustes :: "kernel_lib \<Rightarrow> mat \<Rightarrow> mat \<Rightarrow> nat \<Rightarrow> real \<Rightarrow> nat \<Rightarrow> (mat \<times> mat list \<times> real list) result" where
  "kernel_orthogonal_procrustes lib A B num_heads sigma n_components =
     (if num_heads = 0 then Inl (PyExc ZeroDivisionErrorE ''integer division or modulo by zero'')
      else let N = mt_rows A; d = mt_cols A; hdim = d div num_heads
      in bindE (reshape_to N (num_heads * hdim) A) (\<lambda>A_heads.
         bindE (reshape_to N (num_heads * hdim) B) (\<lambda>B_heads.
           let heads = map (\<lambda>i. kernel_head lib sigma (head_landmarks lib N n_components i)
                               (head_block hdim i A_heads) (head_block hdim i B_heads)) [0..<num_heads]
           in Inr (mk N d (\<lambda>r c. mt_at (fst (heads ! (c div hdim))) r (c mod hdim)), map snd heads, replicate num_heads 1))))"

section \<open>The rotation has nothing to do\<close>

text \<open>What the Moore-Penrose inverse promises of \<open>B B\<^sup>+\<close>: it is symmetric and a projection.\<close>

definition pinv_law :: "mat \<Rightarrow> mat \<Rightarrow> bool" where
  "pinv_law B B' \<longleftrightarrow> (let P = mat_mul B B' in
     mt_rows B' = mt_cols B \<and> mt_cols B' = mt_rows B \<and> mat_t P = P \<and> mat_mul P P = P)"

lemma inner_project:
  assumes "mt_rows P = n" "mt_cols P = n" "\<And>i j. mt_at P i j = mt_at P j i" "mt_rows X = n" "mt_rows Y = n" "mt_cols Y = mt_cols X"
  shows "inner X (mat_mul P Y) = inner (mat_mul P X) Y"
proof -
  have "inner X (mat_mul P Y) = (\<Sum>i<n. \<Sum>j<mt_cols X. \<Sum>k<n. mt_at X i j * (mt_at P i k * mt_at Y k j))"
    using assms by (simp add: inner_def mat_mul_def sum_distrib_left)
  also have "\<dots> = (\<Sum>i<n. \<Sum>k<n. \<Sum>j<mt_cols X. mt_at X i j * (mt_at P i k * mt_at Y k j))"
    by (intro sum.cong refl sum.swap)
  also have "\<dots> = (\<Sum>k<n. \<Sum>i<n. \<Sum>j<mt_cols X. mt_at X i j * (mt_at P i k * mt_at Y k j))" by (rule sum.swap)
  also have "\<dots> = (\<Sum>k<n. \<Sum>j<mt_cols X. \<Sum>i<n. mt_at X i j * (mt_at P i k * mt_at Y k j))"
    by (intro sum.cong refl sum.swap)
  also have "\<dots> = (\<Sum>k<n. \<Sum>j<mt_cols X. (\<Sum>i<n. mt_at P k i * mt_at X i j) * mt_at Y k j)"
    unfolding sum_distrib_right by (intro sum.cong refl) (simp add: assms(3)[of _ k for k] mult_ac)
  also have "\<dots> = inner (mat_mul P X) Y" using assms by (simp add: inner_def mat_mul_def)
  finally show ?thesis .
qed

lemma mat_mul_assoc:
  assumes "mt_cols A = mt_rows B" "mt_cols B = mt_rows C"
  shows "mat_mul (mat_mul A B) C = mat_mul A (mat_mul B C)"
proof (rule mat_eqI)
  fix i j assume ij: "i < mt_rows (mat_mul (mat_mul A B) C)" "j < mt_cols (mat_mul (mat_mul A B) C)"
  have "(\<Sum>k<mt_cols B. (\<Sum>l<mt_cols A. mt_at A i l * mt_at B l k) * mt_at C k j)
      = (\<Sum>k<mt_cols B. \<Sum>l<mt_cols A. mt_at A i l * (mt_at B l k * mt_at C k j))"
    by (simp add: sum_distrib_right mult.assoc)
  also have "\<dots> = (\<Sum>l<mt_cols A. \<Sum>k<mt_cols B. mt_at A i l * (mt_at B l k * mt_at C k j))" by (rule sum.swap)
  finally show "mt_at (mat_mul (mat_mul A B) C) i j = mt_at (mat_mul A (mat_mul B C)) i j"
    using ij assms by (simp add: mat_mul_def sum_distrib_left)
qed (use assms in simp_all)

lemma inner_self: "inner A A = sq_sum A"
  by (simp add: inner_def sq_sum_def power2_eq_square)

lemma sq_dist_nonneg: "0 \<le> sq_dist A B"
  by (simp add: sq_dist_def sum_nonneg)

lemma sq_dist_inner:
  assumes "mt_rows B = mt_rows A" "mt_cols B = mt_cols A" "mat_wf A"
  shows "sq_dist A B = sq_sum A - 2 * inner A B + sq_sum B"
proof -
  have "mat_scale 1 A = A" using assms(3) by (intro mat_eqI) (simp_all add: mat_scale_def)
  then show ?thesis using sq_dist_expand[OF assms(1,2), of 1] by simp
qed

text \<open>Rotating cannot bring the features closer to their own projection.\<close>

lemma projection_unrotated:
  assumes P: "mt_rows P = n" "mt_cols P = n" "\<And>i j. mt_at P i j = mt_at P j i" "mat_mul P P = P"
    and X: "mt_rows X = n" "mt_cols X = m" "mat_wf X" and R: "orthogonal m R"
  shows "sq_dist X (mat_mul P X) \<le> sq_dist (mat_mul X R) (mat_mul P X)"
proof -
  let ?Y = "mat_mul P X"
  have r: "mt_rows R = m" "mt_cols R = m" using R by (simp_all add: orthogonal_def)
  have PY: "mat_mul P ?Y = ?Y" using mat_mul_assoc[of P P X] P X by simp
  have "inner (mat_mul X R) ?Y = inner (mat_mul X R) (mat_mul P ?Y)" unfolding PY ..
  also have "\<dots> = inner (mat_mul P (mat_mul X R)) ?Y" by (rule inner_project[OF P(1-3)]) (use P X r in simp_all)
  also have "mat_mul P (mat_mul X R) = mat_mul ?Y R" using mat_mul_assoc[of P X R] P X r by simp
  finally have i: "inner (mat_mul X R) ?Y = inner (mat_mul ?Y R) ?Y" .
  have "inner X ?Y = inner X (mat_mul P ?Y)" unfolding PY ..
  also have "\<dots> = inner ?Y ?Y" by (rule inner_project[OF P(1-3)]) (use P X in simp_all)
  finally have j: "inner X ?Y = sq_sum ?Y" by (simp add: inner_self)
  have "sq_dist (mat_mul ?Y R) ?Y = sq_sum (mat_mul ?Y R) - 2 * inner (mat_mul ?Y R) ?Y + sq_sum ?Y"
    by (rule sq_dist_inner) (use X r in simp_all)
  then have "inner (mat_mul ?Y R) ?Y \<le> sq_sum ?Y"
    using sq_dist_nonneg[of "mat_mul ?Y R" ?Y] rotated_size[OF R, of ?Y] X by simp
  moreover have "sq_dist (mat_mul X R) ?Y = sq_sum X - 2 * inner (mat_mul X R) ?Y + sq_sum ?Y"
    using sq_dist_inner[of ?Y "mat_mul X R"] rotated_size[OF R, of X] X P r by simp
  moreover have "sq_dist X ?Y = sq_sum X - 2 * inner X ?Y + sq_sum ?Y" by (rule sq_dist_inner) (use X P in simp_all)
  ultimately show ?thesis using i j by linarith
qed

definition identity_mat :: "nat \<Rightarrow> mat" where
  "identity_mat n = mk n n (\<lambda>i j. if i = j then 1 else 0)"

lemma identity_orthogonal: "orthogonal n (identity_mat n)"
  using delta_product[of "\<lambda>k. if i = k then 1 else 0" _ n for i] delta_product[of "\<lambda>k. if k = i then 1 else 0" _ n for i]
  by (simp add: orthogonal_def identity_mat_def eq_commute[of _ "_ :: nat"])

lemma mat_t_at: "mat_wf m \<Longrightarrow> mt_at (mat_t m) i j = mt_at m j i"
  by (auto simp: mat_t_def mat_wf_def)

lemma mul_identity: "mat_wf X \<Longrightarrow> mt_cols X = n \<Longrightarrow> mat_mul X (identity_mat n) = X"
  by (rule mat_eqI) (simp_all add: identity_mat_def mat_mul_def delta_product)

lemma kernel_rotation_best:
  assumes R: "R = kernel_rotation lib X (projected_features lib B X)"
    and X: "mt_rows X = mt_rows B" "mat_wf X" and P: "pinv_law B (kl_pinv lib B)"
    and law: "let M = mat_mul (mat_t X) (projected_features lib B X) in svd_square M (kl_svd lib M)"
  shows "orthogonal (mt_cols X) R"
    and "sq_dist (mat_mul X R) (projected_features lib B X) = sq_dist X (projected_features lib B X)"
    and "orthogonal (mt_cols X) R' \<Longrightarrow>
      sq_dist (mat_mul X R) (projected_features lib B X) \<le> sq_dist (mat_mul X R') (projected_features lib B X)"
proof -
  let ?P = "mat_mul B (kl_pinv lib B)" and ?Y = "projected_features lib B X"
  have Y: "?Y = mat_mul ?P X" "mt_rows ?Y = mt_rows X" "mt_cols ?Y = mt_cols X"
    using X by (simp_all add: projected_features_def)
  obtain U T Vh where usv: "kl_svd lib (mat_mul (mat_t X) ?Y) = (U, T, Vh)" using prod_cases3 by blast
  have R': "R = mat_mul U Vh" by (simp add: R kernel_rotation_def usv)
  have "svd_square (mat_mul (mat_t X) ?Y) (U, T, Vh)" using law usv by (simp add: Let_def)
  note best = rotation_from_svd[OF this refl Y(2,3), folded R']
  show o: "orthogonal (mt_cols X) R" by (rule best(1))
  show "orthogonal (mt_cols X) R' \<Longrightarrow> sq_dist (mat_mul X R) ?Y \<le> sq_dist (mat_mul X R') ?Y" by (rule best(2))
  have "mat_t ?P = ?P" using P by (simp add: pinv_law_def Let_def)
  then have "mt_at ?P i j = mt_at ?P j i" for i j using mat_t_at[of ?P i j] by simp
  then have "sq_dist X ?Y \<le> sq_dist (mat_mul X R) ?Y"
    unfolding Y(1) using P X o by (intro projection_unrotated[of _ "mt_rows B"]) (simp_all add: pinv_law_def Let_def)
  moreover have "sq_dist (mat_mul X R) ?Y \<le> sq_dist X ?Y"
    using best(2)[OF identity_orthogonal] mul_identity[OF X(2) refl] by simp
  ultimately show "sq_dist (mat_mul X R) ?Y = sq_dist X ?Y" by simp
qed

text \<open>What the alignment returns for matching shapes.\<close>

lemma kernel_procrustes_value:
  assumes "0 < h" "mt_cols A = h * hdim" "mt_rows B = mt_rows A" "mt_cols B = mt_cols A"
  shows "kernel_orthogonal_procrustes lib A B h sigma n =
    (let head = \<lambda>i. kernel_head lib sigma (head_landmarks lib (mt_rows A) n i) (head_block hdim i A) (head_block hdim i B)
     in Inr (mk (mt_rows A) (mt_cols A) (\<lambda>r c. mt_at (fst (map head [0..<h] ! (c div hdim))) r (c mod hdim)),
             map (snd \<circ> head) [0..<h], replicate h 1))"
proof -
  let ?v = "\<lambda>m. mk (mt_rows A) (h * hdim) (mt_at m)"
  let ?head = "\<lambda>A B i. kernel_head lib sigma (head_landmarks lib (mt_rows A) n i) (head_block hdim i A) (head_block hdim i B)"
  have d: "mt_cols A div h = hdim" using assms by simp
  have m: "map (?head (?v A) (?v B)) [0..<h] = map (?head A B) [0..<h]"
    by (rule map_cong) (simp_all add: head_block_view assms)
  have "kernel_orthogonal_procrustes lib A B h sigma n =
      (let heads = map (?head (?v A) (?v B)) [0..<h]
       in Inr (mk (mt_rows A) (mt_cols A) (\<lambda>r c. mt_at (fst (heads ! (c div hdim))) r (c mod hdim)), map snd heads, replicate h 1))"
    using assms d by (simp add: kernel_orthogonal_procrustes_def Let_def reshape_same)
  then show ?thesis unfolding m by (simp add: Let_def)
qed

text \<open>C26. The kernel alignment returns for matching shapes, with an orthogonal map per head that is the best
  one between the features of the head and their projection onto the target; and it never does anything: the
  features are exactly as far from their projection after the rotation as before it. The pseudo-inverse of each
  target head is assumed to give a symmetric projection, the decomposition to be one for the matrices it is
  called with.\<close>

theorem kernel_rotation_idle:
  assumes "0 < num_heads" and "mt_cols A = num_heads * hdim" and "mt_rows B = mt_rows A" and "mt_cols B = mt_cols A"
    and "\<forall>i<num_heads. let Phi = kernel_features lib sigma (head_landmarks lib (mt_rows A) n_components i) (head_block hdim i A);
            M = mat_mul (mat_t Phi) (projected_features lib (head_block hdim i B) Phi)
         in pinv_law (head_block hdim i B) (kl_pinv lib (head_block hdim i B)) \<and> svd_square M (kl_svd lib M)"
  shows "\<exists>aligned Rs. kernel_orthogonal_procrustes lib A B num_heads sigma n_components = Inr (aligned, Rs, replicate num_heads 1)
    \<and> (\<forall>i<num_heads.
        let Phi = kernel_features lib sigma (head_landmarks lib (mt_rows A) n_components i) (head_block hdim i A);
            Phi_B = projected_features lib (head_block hdim i B) Phi
        in orthogonal (mt_cols Phi) (Rs ! i)
           \<and> (\<forall>R. orthogonal (mt_cols Phi) R \<longrightarrow> sq_dist (mat_mul Phi (Rs ! i)) Phi_B \<le> sq_dist (mat_mul Phi R) Phi_B)
           \<and> sq_dist (mat_mul Phi (Rs ! i)) Phi_B = sq_dist Phi Phi_B)"
proof -
  let ?Phi = "\<lambda>i. kernel_features lib sigma (head_landmarks lib (mt_rows A) n_components i) (head_block hdim i A)"
  let ?R = "\<lambda>i. kernel_rotation lib (?Phi i) (projected_features lib (head_block hdim i B) (?Phi i))"
  have r: "mt_rows (?Phi i) = mt_rows (head_block hdim i B)" "mat_wf (?Phi i)" for i
    using assms(3) by (simp_all add: kernel_features_def rbf_kernel_def head_block_def Let_def)
  note best = kernel_rotation_best[OF refl r]
  have "\<exists>aligned. kernel_orthogonal_procrustes lib A B num_heads sigma n_components
      = Inr (aligned, map ?R [0..<num_heads], replicate num_heads 1)"
    unfolding kernel_procrustes_value[OF assms(1-4)] by (simp add: Let_def kernel_head_def comp_def)
  then show ?thesis using best assms(5) by (fastforce simp: Let_def)
qed

definition scalar_kernel_lib :: kernel_lib where
  "scalar_kernel_lib = \<lparr>kl_landmarks = (\<lambda>_. [0]), kl_eigh = (\<lambda>K. ([mt_at K 0 0], mk 1 1 (\<lambda>_ _. 1))),
     kl_pinv = (\<lambda>M. mk 1 1 (\<lambda>_ _. inverse (mt_at M 0 0))), kl_svd = scalar_svd\<rparr>"

lemma kernel_rotation_idle_witness:
  "\<exists>aligned Rs. kernel_orthogonal_procrustes scalar_kernel_lib (mk 1 1 (\<lambda>_ _. 3)) (mk 1 1 (\<lambda>_ _. 2)) 1 1 100 = Inr (aligned, Rs, [1])"
proof -
  let ?A = "mk 1 1 (\<lambda>_ _. 3)" and ?B = "mk 1 1 (\<lambda>_ _. 2)" and ?lib = scalar_kernel_lib
  let ?Phi = "kernel_features ?lib 1 (head_landmarks ?lib 1 100 0) ?A"
  let ?M = "mat_mul (mat_t ?Phi) (projected_features ?lib ?B ?Phi)"
  have hb: "head_block 1 0 ?A = ?A" "head_block 1 0 ?B = ?B" by (intro mat_eqI; simp add: head_block_def)+
  obtain f where "?Phi = mk 1 1 (\<lambda>_ _. f)"
  proof -
    have "?Phi = mk 1 1 (\<lambda>_ _. mt_at ?Phi 0 0)"
      by (rule mat_eqI) (simp_all add: kernel_features_def rbf_kernel_def inv_half_def scalar_kernel_lib_def Let_def mat_t_def)
    then show ?thesis using that by blast
  qed
  moreover have "mat_mul (mat_t (mk 1 1 (\<lambda>_ _. f))) (projected_features ?lib ?B (mk 1 1 (\<lambda>_ _. f))) = mk 1 1 (\<lambda>_ _. f * f)"
    by (rule mat_eqI) (simp_all add: projected_features_def scalar_kernel_lib_def mat_t_def mat_mul_def)
  moreover have "kl_svd ?lib = scalar_svd" by (simp add: scalar_kernel_lib_def)
  ultimately have "svd_square ?M (kl_svd ?lib ?M)" using scalar_svd_law[of "f * f"] by simp
  moreover have "pinv_law ?B (kl_pinv ?lib ?B)"
    unfolding pinv_law_def Let_def by (auto intro!: mat_eqI simp: scalar_kernel_lib_def mat_t_def mat_mul_def)
  ultimately show ?thesis
    using kernel_rotation_idle[of 1 ?A 1 ?B ?lib 1 100] hb by (auto simp: Let_def)
qed

end
