(* ===== verification/Payload_Projection.thy ===== *)
theory Payload_Projection
  imports Transplant Layer_Discovery Layer_Names
begin

text \<open>
  The preparation of payloads (scripts/prepare_actual_lora_payload.py): a LoRA adapter is merged, interpolated
  between layers, resized to the target's shapes, recompressed, fused as vLLM fuses its layers and saved
  with its manifest; and the check of a payload against a model (scripts/verify_target_runtime_shapes.py).
  Interpolation, the singular value decomposition, hashes and loading are parameters. Numbers are exact, the
  rank is an integer, and sums of differently shaped tensors raise. Constant entries of the
  files and console output are left out.
\<close>

section \<open>Shapes and layers of the target\<close>

record target_config =
  tg_hidden_size :: nat
  tg_intermediate_size :: "nat option"
  tg_num_attention_heads :: nat
  tg_num_key_value_heads :: "nat option"
  tg_num_hidden_layers :: nat

definition infer_qwen_target_shape :: "string \<Rightarrow> target_config \<Rightarrow> (nat \<times> nat) result" where
  "infer_qwen_target_shape module_name config =
     (let t_hidden = tg_hidden_size config;
          t_intermediate = (case tg_intermediate_size config of None \<Rightarrow> t_hidden * 4 | Some n \<Rightarrow> n);
          t_num_heads = tg_num_attention_heads config;
          t_num_kv_heads = (case tg_num_key_value_heads config of None \<Rightarrow> t_num_heads | Some n \<Rightarrow> n)
      in if t_num_heads = 0 then Inl (PyExc ZeroDivisionErrorE ''integer division or modulo by zero'')
         else Inr (if substring ''mlp.down_proj'' module_name then (t_hidden, t_intermediate)
                   else if substring ''mlp.gate_proj'' module_name \<or> substring ''mlp.up_proj'' module_name then (t_intermediate, t_hidden)
                   else if substring ''self_attn.k_proj'' module_name \<or> substring ''self_attn.v_proj'' module_name
                        then (t_num_kv_heads * (t_hidden div t_num_heads), t_hidden)
                   else (t_hidden, t_hidden)))"

text \<open>\<open>xs[i]\<close> with Python's negative indices, and \<open>round(x, 4)\<close>.\<close>

definition list_item :: "'a list \<Rightarrow> int \<Rightarrow> 'a result" where
  "list_item xs i =
     (if 0 \<le> i \<and> i < int (length xs) then Inr (xs ! nat i)
      else if i < 0 \<and> 0 \<le> i + int (length xs) then Inr (xs ! nat (i + int (length xs)))
      else Inl (PyExc IndexErrorE ''list index out of range''))"

definition round4 :: "real \<Rightarrow> real" where
  "round4 x = of_int (round_nearest (x * 10 ^ 4)) / 10 ^ 4"

record layer_fold =
  lf_lower :: int
  lf_upper :: int
  lf_alpha :: real

definition fold_layer :: "int list \<Rightarrow> nat \<Rightarrow> nat \<Rightarrow> layer_fold result" where
  "fold_layer source_layers target_layers t_idx =
     (if target_layers = 1 then Inl (PyExc ZeroDivisionErrorE ''division by zero'')
      else let source_pos = real t_idx * (real (length source_layers) - 1) / (real target_layers - 1)
           in bindE (list_item source_layers \<lfloor>source_pos\<rfloor>) (\<lambda>lower.
              bindE (list_item source_layers \<lceil>source_pos\<rceil>) (\<lambda>upper.
                Inr \<lparr>lf_lower = lower, lf_upper = upper, lf_alpha = round4 (source_pos - of_int \<lfloor>source_pos\<rfloor>)\<rparr>)))"

definition build_interpolated_layer_mapping :: "int list \<Rightarrow> nat \<Rightarrow> (string, layer_fold) dict result" where
  "build_interpolated_layer_mapping source_layers target_layers =
     mapE (\<lambda>t_idx. bindE (fold_layer source_layers target_layers t_idx) (\<lambda>f. Inr (nat_str t_idx, f))) [0..<target_layers]"

section \<open>Fusing\<close>

definition fuse_gate :: "(string, mat) dict \<Rightarrow> string \<Rightarrow> mat \<Rightarrow> (string, mat) dict \<times> string list \<Rightarrow> ((string, mat) dict \<times> string list) result" where
  "fuse_gate projected_delta key tensor st =
     (let up_key = replace_all ''.mlp.gate_proj.weight'' ''.mlp.up_proj.weight'' key
      in if substring ''.mlp.gate_proj.weight'' key
         then case map_of projected_delta up_key of
                None \<Rightarrow> Inr st
              | Some up \<Rightarrow>
                  bindE (cat_rows tensor [up]) (\<lambda>t.
                    Inr (dict_set (replace_all ''.mlp.gate_proj.weight'' ''.mlp.gate_up_proj.weight'' key) t (fst st), up_key # key # snd st))
         else Inr st)"

definition fuse_qkv :: "(string, mat) dict \<Rightarrow> string \<Rightarrow> mat \<Rightarrow> (string, mat) dict \<times> string list \<Rightarrow> ((string, mat) dict \<times> string list) result" where
  "fuse_qkv projected_delta key tensor st =
     (let k_key = replace_all ''.self_attn.q_proj.weight'' ''.self_attn.k_proj.weight'' key;
          v_key = replace_all ''.self_attn.q_proj.weight'' ''.self_attn.v_proj.weight'' key
      in if substring ''.self_attn.q_proj.weight'' key
         then case (map_of projected_delta k_key, map_of projected_delta v_key) of
                (Some k, Some v) \<Rightarrow>
                  bindE (cat_rows tensor [k, v]) (\<lambda>t.
                    Inr (dict_set (replace_all ''.self_attn.q_proj.weight'' ''.self_attn.qkv_proj.weight'' key) t (fst st), v_key # k_key # key # snd st))
              | _ \<Rightarrow> Inr st
         else Inr st)"

definition fuse_qwen_layers :: "(string, mat) dict \<Rightarrow> (string, mat) dict result" where
  "fuse_qwen_layers projected_delta =
     bindE (foldE (\<lambda>(key, tensor) st. bindE (fuse_gate projected_delta key tensor st) (fuse_qkv projected_delta key tensor)) projected_delta ([], []))
       (\<lambda>(fused, consumed).
         Inr (fold (\<lambda>(key, tensor) fused.
                      if key \<in> set consumed then fused
                      else if any_in [''.gate_proj'', ''.up_proj'', ''.q_proj'', ''.k_proj'', ''.v_proj''] key then fused
                      else dict_set key tensor fused) projected_delta fused))"

section \<open>Resizing and recompression\<close>

record projection_lib =
  pl_interpolate :: "nat \<Rightarrow> nat \<Rightarrow> mat \<Rightarrow> mat"
  pl_torch_svd :: "mat \<Rightarrow> (mat \<times> real list \<times> mat) option"

record resize_stats =
  rs_energy_retention :: real
  rs_max_abs :: real

definition diag_mat :: "real list \<Rightarrow> mat" where
  "diag_mat S = mk (length S) (length S) (\<lambda>i j. if i = j then S ! i else 0)"

definition max_abs :: "mat \<Rightarrow> real" where
  "max_abs m = foldr (\<lambda>x. max \<bar>x\<bar>) (concat (map (\<lambda>i. map (mt_at m i) [0..<mt_cols m]) [0..<mt_rows m])) 0"

text \<open>The end of the slice \<open>[:i]\<close>.\<close>

definition slice_end :: "int \<Rightarrow> nat \<Rightarrow> nat" where
  "slice_end i n = (if 0 \<le> i then min (nat i) n else n - nat (- i))"

definition resize_and_analyze :: "projection_lib \<Rightarrow> mat \<Rightarrow> nat \<times> nat \<Rightarrow> int \<Rightarrow> mat \<times> resize_stats \<times> (mat \<times> real list \<times> mat) option" where
  "resize_and_analyze lib tensor target_shape rank =
     (let t = pl_interpolate lib (fst target_shape) (snd target_shape) tensor
      in case pl_torch_svd lib t of
           None \<Rightarrow> (t, \<lparr>rs_energy_retention = 1, rs_max_abs = max_abs t\<rparr>, None)
         | Some (U, S, V) \<Rightarrow>
             let energy_total = (\<Sum>s\<leftarrow>S. s\<^sup>2);
                 k = slice_end rank (length S);
                 U_r = take_cols k U; S_r = take k S; V_r = take_cols k V;
                 energy_kept = (\<Sum>s\<leftarrow>S_r. s\<^sup>2);
                 t_re = mat_mul (mat_mul U_r (diag_mat S_r)) (mat_t V_r)
             in (t_re, \<lparr>rs_energy_retention = (if 0 < energy_total then energy_kept / energy_total else 1), rs_max_abs = max_abs t_re\<rparr>,
                 Some (U_r, S_r, V_r)))"

section \<open>The projection\<close>

text \<open>\<open>s.split(p)\<close> for a separator that is not empty.\<close>

function split_str :: "string \<Rightarrow> string \<Rightarrow> string list" where
  "split_str p s =
     (if p = [] then [s]
      else case str_find p s of None \<Rightarrow> [s] | Some n \<Rightarrow> take n s # split_str p (drop (n + length p) s))"
  by pat_completeness auto
termination
  by (relation "measure (\<lambda>(p, s). length s)") (auto dest: str_find_Some)

declare split_str.simps [simp del]

definition layer_id :: "string \<Rightarrow> int result" where
  "layer_id k =
     (let piece = takeWhile (\<lambda>c. c \<noteq> CHR ''.'') (split_str ''.layers.'' k ! 1)
      in case py_int piece of
           None \<Rightarrow> Inl (PyExc ValueErrorE (''invalid literal for int() with base 10: '' @ apostrophe piece))
         | Some i \<Rightarrow> Inr i)"

definition source_layers :: "(string, mat) dict \<Rightarrow> int list result" where
  "source_layers lora_sd =
     bindE (mapE layer_id (filter (substring ''.layers.'') (dict_keys lora_sd))) (\<lambda>ids. Inr (sorted_list_of_set (set ids)))"

definition layer_part :: "int \<Rightarrow> string" where
  "layer_part i = ''.layers.'' @ int_str i @ ''.''"

definition get_dW :: "(string, mat) dict \<Rightarrow> real \<Rightarrow> string \<Rightarrow> string \<Rightarrow> mat option result" where
  "get_dW lora_sd scaling ka kb =
     (case (map_of lora_sd ka, map_of lora_sd kb) of
        (Some A, Some B) \<Rightarrow> bindE (matmul B A) (\<lambda>W. Inr (Some (mat_scale scaling W)))
      | _ \<Rightarrow> Inr None)"

definition mix :: "real \<Rightarrow> mat \<Rightarrow> mat \<Rightarrow> mat result" where
  "mix alpha_w low up =
     (if mt_rows low = mt_rows up \<and> mt_cols low = mt_cols up
      then Inr (mk (mt_rows low) (mt_cols low) (\<lambda>i j. (1 - alpha_w) * mt_at low i j + alpha_w * mt_at up i j))
      else Inl (PyExc RuntimeErrorE ''The size of tensor a must match the size of tensor b''))"

record proj_state =
  ps_projected :: "(string, mat) dict"
  ps_peft :: "(string, mat) dict"
  ps_stats :: "resize_stats list"

definition add_projected :: "bool \<Rightarrow> string \<Rightarrow> mat \<times> resize_stats \<times> (mat \<times> real list \<times> mat) option \<Rightarrow> proj_state \<Rightarrow> proj_state" where
  "add_projected export_peft target_key res st =
     (case res of (re_t, stats, svd) \<Rightarrow>
        let st = st\<lparr>ps_projected := dict_set target_key re_t (ps_projected st), ps_stats := ps_stats st @ [stats]\<rparr>
        in case (if export_peft then svd else None) of
             None \<Rightarrow> st
           | Some (U_r, S_r, V_r) \<Rightarrow>
               st\<lparr>ps_peft :=
                   dict_set (''base_model.model.'' @ target_key @ ''.lora_A.weight'') (mat_mul (diag_mat (map sqrt S_r)) (mat_t V_r))
                   (dict_set (''base_model.model.'' @ target_key @ ''.lora_B.weight'') (mat_mul U_r (diag_mat (map sqrt S_r))) (ps_peft st))\<rparr>)"

definition project_key ::
  "projection_lib \<Rightarrow> target_config \<Rightarrow> (string, mat) dict \<Rightarrow> int \<Rightarrow> real \<Rightarrow> bool \<Rightarrow> string \<Rightarrow> layer_fold \<Rightarrow> string \<Rightarrow> proj_state \<Rightarrow> proj_state result" where
  "project_key lib config lora_sd r scaling export_peft t_idx fld k_A_low st =
     (let suffix = split_str (layer_part (lf_lower fld)) k_A_low ! 1;
          k_A_up = replace_all (layer_part (lf_lower fld)) (layer_part (lf_upper fld)) k_A_low
      in bindE (get_dW lora_sd scaling k_A_low (replace_all ''lora_A'' ''lora_B'' k_A_low)) (\<lambda>dW_low.
           case dW_low of
             None \<Rightarrow> Inr st
           | Some low \<Rightarrow>
               bindE (get_dW lora_sd scaling k_A_up (replace_all ''lora_A'' ''lora_B'' k_A_up)) (\<lambda>dW_up.
               bindE (mix (lf_alpha fld) low (case dW_up of None \<Rightarrow> low | Some up \<Rightarrow> up)) (\<lambda>dW.
                 let clean_module = replace_all ''.weight'' [] (replace_all ''.lora_A'' [] suffix)
                 in bindE (infer_qwen_target_shape clean_module config) (\<lambda>target_shape.
                      Inr (add_projected export_peft (''model.layers.'' @ t_idx @ ''.'' @ clean_module)
                             (resize_and_analyze lib dW target_shape r) st))))))"

definition project_layer ::
  "projection_lib \<Rightarrow> target_config \<Rightarrow> (string, mat) dict \<Rightarrow> int \<Rightarrow> real \<Rightarrow> bool \<Rightarrow> string \<times> layer_fold \<Rightarrow> proj_state \<Rightarrow> proj_state result" where
  "project_layer lib config lora_sd r scaling export_peft tf st =
     foldE (project_key lib config lora_sd r scaling export_peft (fst tf) (snd tf))
       (filter (\<lambda>k. substring (layer_part (lf_lower (snd tf))) k \<and> substring ''lora_A'' k) (dict_keys lora_sd)) st"

record route_manifest =
  rm_route_id :: string
  rm_scale_gamma :: real
  rm_layer_mapping :: "(string, layer_fold) dict"
  rm_mean_energy_retention :: real
  rm_payload_uri :: string
  rm_payload_sha256 :: string

datatype projection_file =
    Payload_File "(string, mat) dict"
  | Peft_Weights "(string, mat) dict"
  | Peft_Config "(string, json) dict"
  | Peft_Metadata real string string
  | Route_File route_manifest

record projection_args =
  pa_hf_repo_id :: string
  pa_output_dir :: string
  pa_target_model_id :: string
  pa_export_peft :: bool
  pa_scale_gamma :: real

record projection_env =
  pe_adapter_config :: "(string, json) dict result"
  pe_target_config :: "target_config result"
  pe_lora :: "(string, mat) dict result"
  pe_lib :: projection_lib
  pe_sha256 :: "projection_file \<Rightarrow> string"
  pe_resolve :: "string \<Rightarrow> string"

definition last_part :: "string \<Rightarrow> string" where
  "last_part s = last (split_on CHR ''/'' s)"

definition payload_path :: "projection_args \<Rightarrow> string" where
  "payload_path args = pa_output_dir args @ ''/'' @ last_part (pa_hf_repo_id args) @ ''_projected.safetensors''"

text \<open>The rank and the scaling \<open>(alpha / r) * scale_gamma\<close>.\<close>

definition lora_scaling :: "(string, json) dict \<Rightarrow> real \<Rightarrow> (int \<times> real) result" where
  "lora_scaling adapter_config scale_gamma =
     (case (dict_get adapter_config ''r'' (JInt 8), json_num (dict_get adapter_config ''lora_alpha'' (JInt 16))) of
        (JInt r, Some alpha) \<Rightarrow>
          if r = 0 then Inl (PyExc ZeroDivisionErrorE ''division by zero'')
          else Inr (r, of_rat alpha / of_int r * scale_gamma)
      | _ \<Rightarrow> Inl (PyExc TypeErrorE ''unsupported operand type(s) for /''))"

definition project_all :: "projection_env \<Rightarrow> projection_args \<Rightarrow> (proj_state \<times> (string, layer_fold) dict \<times> (string, json) dict) result" where
  "project_all env args =
     bindE (pe_adapter_config env) (\<lambda>adapter_config.
     bindE (pe_target_config env) (\<lambda>target_config.
     bindE (lora_scaling adapter_config (pa_scale_gamma args)) (\<lambda>(r, scaling).
     bindE (pe_lora env) (\<lambda>lora_sd.
     bindE (source_layers lora_sd) (\<lambda>src_layers.
     bindE (build_interpolated_layer_mapping src_layers (tg_num_hidden_layers target_config)) (\<lambda>layer_mapping.
     bindE (foldE (project_layer (pe_lib env) target_config lora_sd r scaling (pa_export_peft args)) layer_mapping
              \<lparr>ps_projected = [], ps_peft = [], ps_stats = []\<rparr>) (\<lambda>st.
       Inr (st, layer_mapping, adapter_config))))))))"

definition peft_files :: "projection_args \<Rightarrow> (string, json) dict \<Rightarrow> proj_state \<Rightarrow> (string, projection_file) dict \<Rightarrow> (string, projection_file) dict" where
  "peft_files args adapter_config st files =
     (let peft_path = pa_output_dir args @ ''/peft_adapter/''
      in if pa_export_peft args
         then dict_set (peft_path @ ''projection_metadata.json'') (Peft_Metadata (pa_scale_gamma args) (pa_hf_repo_id args) (pa_target_model_id args))
                (dict_set (peft_path @ ''adapter_config.json'')
                   (Peft_Config (dict_set ''base_model_name_or_path'' (JStr (pa_target_model_id args)) adapter_config))
                   (dict_set (peft_path @ ''adapter_model.safetensors'') (Peft_Weights (ps_peft st)) files))
         else files)"

definition project_peft_lora :: "projection_env \<Rightarrow> projection_args \<Rightarrow> ((string, projection_file) dict, unit) act" where
  "project_peft_lora env args files =
     (case bindE (project_all env args) (\<lambda>(st, layer_mapping, adapter_config).
             bindE (fuse_qwen_layers (ps_projected st)) (\<lambda>fused_delta. Inr (fused_delta, st, layer_mapping, adapter_config))) of
        Inl e \<Rightarrow> (files, Inl e)
      | Inr (fused_delta, st, layer_mapping, adapter_config) \<Rightarrow>
          let files = peft_files args adapter_config st (dict_set (payload_path args) (Payload_File fused_delta) files);
              route_id = str_lower (last_part (pa_hf_repo_id args))
          in if ps_stats st = [] then (files, Inl (PyExc ZeroDivisionErrorE ''division by zero''))
             else (dict_set (pa_output_dir args @ ''/'' @ route_id @ ''.scalpel_route'')
                     (Route_File \<lparr>rm_route_id = route_id, rm_scale_gamma = pa_scale_gamma args, rm_layer_mapping = layer_mapping,
                        rm_mean_energy_retention = sum_list (map rs_energy_retention (ps_stats st)) / real (length (ps_stats st)),
                        rm_payload_uri = pe_resolve env (payload_path args), rm_payload_sha256 = pe_sha256 env (Payload_File fused_delta)\<rparr>) files,
                   Inr ()))"

section \<open>The check of a payload against a model\<close>

record audit_entry =
  ae_payload_key :: string
  ae_payload_shape :: "nat list"
  ae_target_components :: "string list option"
  ae_status :: string

record shape_report =
  sr_verdict :: string
  sr_matched :: nat
  sr_mismatched :: nat
  sr_missing :: nat
  sr_unexpected :: nat
  sr_tensors :: "audit_entry list"

definition fused_components :: "string \<Rightarrow> string list option" where
  "fused_components key =
     (if substring ''.mlp.gate_up_proj.weight'' key
      then Some [replace_all ''gate_up_proj'' ''gate_proj'' key, replace_all ''gate_up_proj'' ''up_proj'' key]
      else if substring ''.self_attn.qkv_proj.weight'' key
      then Some [replace_all ''qkv_proj'' ''q_proj'' key, replace_all ''qkv_proj'' ''k_proj'' key, replace_all ''qkv_proj'' ''v_proj'' key]
      else None)"

text \<open>One component: whether the fusion stays valid, and the sum of the output dimensions. \<open>t_shape[1]\<close> and
  \<open>p_shape[1]\<close> raise for tensors of fewer dimensions.\<close>

definition check_component :: "(string, nat list) dict \<Rightarrow> nat list \<Rightarrow> string \<Rightarrow> bool \<times> nat \<Rightarrow> (bool \<times> nat) result" where
  "check_component target_sd p_shape tk st =
     (case map_of target_sd tk of
        None \<Rightarrow> Inr (False, snd st)
      | Some t_shape \<Rightarrow>
          if length t_shape < 2 \<or> length p_shape < 2 then Inl (PyExc IndexErrorE ''list index out of range'')
          else Inr (fst st \<and> t_shape ! 1 = p_shape ! 1, snd st + t_shape ! 0))"

definition fusion_status :: "(string, nat list) dict \<Rightarrow> nat list \<Rightarrow> string list \<Rightarrow> string" where
  "fusion_status target_sd p_shape target_keys =
     (case foldE (check_component target_sd p_shape) target_keys (True, 0) of
        Inl e \<Rightarrow> ''ERROR''
      | Inr (valid_fusion, sum_out) \<Rightarrow>
          if \<not> valid_fusion then ''MISMATCH''
          else case p_shape of [] \<Rightarrow> ''ERROR'' | p # _ \<Rightarrow> if sum_out = p then ''MATCH'' else ''MISMATCH'')"

definition audit_tensor :: "(string, nat list) dict \<Rightarrow> string \<times> nat list \<Rightarrow> audit_entry" where
  "audit_tensor target_sd kt =
     (let (key, p_shape) = kt;
          entry = \<lparr>ae_payload_key = key, ae_payload_shape = p_shape, ae_target_components = fused_components key, ae_status = ''UNKNOWN''\<rparr>
      in entry\<lparr>ae_status :=
           (case fused_components key of
              Some target_keys \<Rightarrow> fusion_status target_sd p_shape target_keys
            | None \<Rightarrow> (case map_of target_sd key of
                          None \<Rightarrow> ''UNEXPECTED''
                        | Some t_shape \<Rightarrow> if t_shape = p_shape then ''MATCH'' else ''MISMATCH''))\<rparr>)"

definition missing_key :: "(string, nat list) dict \<Rightarrow> string \<Rightarrow> bool" where
  "missing_key payload_sd key \<longleftrightarrow>
     substring ''.layers.'' key \<and> (substring ''.self_attn.'' key \<or> substring ''.mlp.'' key) \<and> substring ''.weight'' key
     \<and> \<not> has_key payload_sd key \<and> \<not> any_in [''gate_proj'', ''up_proj'', ''q_proj'', ''k_proj'', ''v_proj''] key"

text \<open>\<open>None\<close> where the code returns without a report: no payload file, or a model that does not load.\<close>

definition verify_shapes :: "(string, nat list) dict result option \<Rightarrow> (string, nat list) dict result \<Rightarrow> shape_report option result" where
  "verify_shapes payload target =
     (case payload of
        None \<Rightarrow> Inr None
      | Some loaded \<Rightarrow>
          bindE loaded (\<lambda>payload_sd.
            case target of
              Inl e \<Rightarrow> Inr None
            | Inr target_sd \<Rightarrow>
                let audit = map (audit_tensor target_sd) payload_sd;
                    number = (\<lambda>P. length (filter (\<lambda>e. P (ae_status e)) audit));
                    matched = number (\<lambda>s. s = ''MATCH''); mismatched = number (\<lambda>s. s = ''MISMATCH'' \<or> s = ''ERROR'');
                    unexpected = number (\<lambda>s. s = ''UNEXPECTED'');
                    missing = length (filter (missing_key payload_sd) (dict_keys target_sd))
                in Inr (Some \<lparr>sr_verdict = (if mismatched = 0 \<and> missing = 0 \<and> unexpected = 0 then ''PASS'' else ''FAIL''),
                          sr_matched = matched, sr_mismatched = mismatched, sr_missing = missing, sr_unexpected = unexpected,
                          sr_tensors = audit\<rparr>)))"

end
