(* ===== verification/Projected_Payload.thy ===== *)
theory Projected_Payload
  imports Payload_Projection
begin

text \<open>
  What the preparation of payloads makes of an adapter with the names PEFT gives: how its keys are read, how layers are
  interpolated, what the recompression keeps, and what the payload holds in the end.
\<close>

section \<open>Reading standard adapter keys\<close>

text \<open>The projections of a layer, and the keys PEFT gives their factors.\<close>

definition qwen_modules :: "string list" where
  "qwen_modules = [''self_attn.q_proj'', ''self_attn.k_proj'', ''self_attn.v_proj'', ''self_attn.o_proj'',
     ''mlp.gate_proj'', ''mlp.up_proj'', ''mlp.down_proj'']"

definition lora_key :: "nat \<Rightarrow> string \<Rightarrow> string \<Rightarrow> string" where
  "lora_key i m f = ''base_model.model.model.layers.'' @ nat_str i @ ''.'' @ m @ ''.lora_'' @ f @ ''.weight''"

lemma replace_all_Nil: "replace_all p r [] = []"
  by (simp add: replace_all.simps)

lemma replace_all_Cons:
  "p \<noteq> [] \<Longrightarrow> replace_all p r (c # cs) =
     (if starts_with (c # cs) p then r @ replace_all p r (drop (length p) (c # cs)) else c # replace_all p r cs)"
  by (subst replace_all.simps) simp

lemma replace_all_skip: "\<forall>c\<in>set ds. c \<noteq> a \<Longrightarrow> replace_all (a # p) r (ds @ t) = ds @ replace_all (a # p) r t"
  by (induction ds) (auto simp: replace_all_Cons)

lemma str_find_skip: "\<forall>c\<in>set ds. c \<noteq> a \<Longrightarrow> str_find (a # p) (ds @ t) = map_option ((+) (length ds)) (str_find (a # p) t)"
  by (induction ds; cases "str_find (a # p) t") auto

lemma substring_skip: "\<forall>c\<in>set ds. c \<noteq> a \<Longrightarrow> substring (a # p) (ds @ t) = substring (a # p) t"
  by (induction ds) auto

lemma nat_str_no_dot: "\<forall>c\<in>set (nat_str i). c \<noteq> CHR ''.''" "\<forall>c\<in>set (nat_str i). c \<noteq> CHR ''l''"
proof -
  have "\<not> is_digit (CHR ''.'')" "\<not> is_digit (CHR ''l'')" by (simp_all add: is_digit_def)
  then show "\<forall>c\<in>set (nat_str i). c \<noteq> CHR ''.''" "\<forall>c\<in>set (nat_str i). c \<noteq> CHR ''l''" using nat_str_digits[of i] by blast+
qed

lemma nat_str_eq_iff: "nat_str i = nat_str s \<longleftrightarrow> i = s"
  using nat_str_digits[of i] nat_str_digits[of s] by (metis option.inject)

lemma nat_str_prefix: "starts_with (nat_str i @ CHR ''.'' # t) (nat_str s @ ''.'') \<longleftrightarrow> i = s"
proof
  assume "starts_with (nat_str i @ CHR ''.'' # t) (nat_str s @ ''.'')"
  then obtain u where "nat_str i @ CHR ''.'' # t = nat_str s @ CHR ''.'' # u" by (auto simp: starts_with_iff)
  then have "takeWhile (\<lambda>c. c \<noteq> CHR ''.'') (nat_str i @ CHR ''.'' # t) = takeWhile (\<lambda>c. c \<noteq> CHR ''.'') (nat_str s @ CHR ''.'' # u)" by simp
  then have "nat_str i = nat_str s" using nat_str_no_dot(1)[of i] nat_str_no_dot(1)[of s] by (simp add: takeWhile_append2)
  then show "i = s" by (simp add: nat_str_eq_iff)
qed (simp add: starts_with_iff)

lemma nat_str_front: "\<not> is_digit c \<Longrightarrow> \<not> starts_with (nat_str i @ t) (c # p)"
  using nat_str_digits[of i] by (cases "nat_str i") auto

lemma letters_no_digits: "\<not> is_digit (CHR ''l'')" "\<not> is_digit (CHR ''m'')" "\<not> is_digit (CHR ''s'')"
    "\<not> is_digit (CHR ''g'')" "\<not> is_digit (CHR ''u'')" "\<not> is_digit (CHR ''q'')" "\<not> is_digit (CHR ''k'')" "\<not> is_digit (CHR ''v'')"
  by (simp_all add: is_digit_def)

lemma int_str_nat: "int_str (int i) = nat_str i"
  by (simp add: int_str_def)

lemma layer_part_nat: "layer_part (int s) = ''.layers.'' @ nat_str s @ ''.''"
  by (simp add: layer_part_def int_str_nat)

lemma in_modules:
  "m \<in> set qwen_modules \<longleftrightarrow> m = ''self_attn.q_proj'' \<or> m = ''self_attn.k_proj'' \<or> m = ''self_attn.v_proj'' \<or> m = ''self_attn.o_proj''
     \<or> m = ''mlp.gate_proj'' \<or> m = ''mlp.up_proj'' \<or> m = ''mlp.down_proj''"
  by (simp add: qwen_modules_def)

text \<open>No further layer is named behind the layer of a key.\<close>

lemma module_tail:
  assumes "m \<in> set qwen_modules" "f = ''A'' \<or> f = ''B''"
  shows "str_find (''.layers.'' @ p) (CHR ''.'' # m @ ''.lora_'' @ f @ ''.weight'') = None"
    and "str_find (''.layers.'' @ p) (m @ ''.lora_'' @ f @ ''.weight'') = None"
  using assms unfolding in_modules by (elim disjE; simp)+

lemma find_layer:
  assumes m: "m \<in> set qwen_modules" "f = ''A'' \<or> f = ''B''"
  shows "str_find (layer_part (int s)) (lora_key i m f) = (if i = s then Some 22 else None)"
proof -
  let ?t = "CHR ''.'' # m @ ''.lora_'' @ f @ ''.weight''"
  have "str_find (''.layers.'' @ nat_str s @ ''.'') (nat_str i @ ?t) = None"
    using str_find_skip[OF nat_str_no_dot(1), of "''layers.'' @ nat_str s @ ''.''" i ?t] module_tail(1)[OF m] by simp
  moreover have "\<not> starts_with (nat_str i @ ?t) (CHR ''l'' # q)" for q by (rule nat_str_front) (rule letters_no_digits)
  ultimately show ?thesis
    using nat_str_prefix[of i "m @ ''.lora_'' @ f @ ''.weight''" s] by (simp add: lora_key_def layer_part_nat)
qed

text \<open>Splitting and replacing go by what \<open>find\<close> finds.\<close>

lemma replace_all_find:
  "p \<noteq> [] \<Longrightarrow> replace_all p r s =
     (case str_find p s of None \<Rightarrow> s | Some n \<Rightarrow> take n s @ r @ replace_all p r (drop (n + length p) s))"
proof (induction s)
  case Nil
  then show ?case by (simp add: replace_all_Nil)
next
  case (Cons c cs)
  show ?case
  proof (cases "starts_with (c # cs) p")
    case False
    then show ?thesis using Cons by (cases "str_find p cs") (simp_all add: replace_all_Cons)
  qed (use Cons.prems in \<open>simp add: replace_all_Cons\<close>)
qed

lemma split_none: "str_find p s = None \<Longrightarrow> split_str p s = [s]"
  by (simp add: split_str.simps)

lemma split_some: "p \<noteq> [] \<Longrightarrow> str_find p s = Some n \<Longrightarrow> split_str p s = take n s # split_str p (drop (n + length p) s)"
  by (subst split_str.simps) simp

abbreviation key_tail :: "string \<Rightarrow> string \<Rightarrow> string" where
  "key_tail m f \<equiv> m @ ''.lora_'' @ f @ ''.weight''"

lemma lora_key_parts: "lora_key i m f = ''base_model.model.model'' @ layer_part (int i) @ key_tail m f"
  by (simp add: lora_key_def layer_part_nat)

lemma key_pieces:
  "take 22 (lora_key i m f) = ''base_model.model.model''"
  "drop (22 + length (layer_part (int i))) (lora_key i m f) = key_tail m f"
  "drop (22 + length ''.layers.'') (lora_key i m f) = nat_str i @ CHR ''.'' # key_tail m f"
proof -
  have two: "drop (length p + length x) (p @ x @ t) = t" for p x t :: string by simp
  have l: "length ''base_model.model.model'' = 22" by simp
  show "take 22 (lora_key i m f) = ''base_model.model.model''" by (simp add: lora_key_def)
  show "drop (22 + length (layer_part (int i))) (lora_key i m f) = key_tail m f"
    unfolding lora_key_parts l[symmetric] by (rule two)
  show "drop (22 + length ''.layers.'') (lora_key i m f) = nat_str i @ CHR ''.'' # key_tail m f"
    by (simp add: lora_key_def)
qed

lemma layer_part_tail:
  "m \<in> set qwen_modules \<Longrightarrow> f = ''A'' \<or> f = ''B'' \<Longrightarrow> str_find (layer_part (int s)) (key_tail m f) = None"
  using module_tail(2)[of m f "nat_str s @ ''.''"] by (simp add: layer_part_nat)

lemma layer_part_nonempty: "layer_part i \<noteq> []"
  by (simp add: layer_part_def)

lemma split_layer:
  assumes "m \<in> set qwen_modules" "f = ''A'' \<or> f = ''B''"
  shows "split_str (layer_part (int s)) (lora_key s m f) ! 1 = key_tail m f"
  using split_some[OF layer_part_nonempty, of "int s" "lora_key s m f" 22] find_layer[OF assms, of s s]
  unfolding key_pieces split_none[OF layer_part_tail[OF assms]] by simp

lemma replace_layer:
  assumes "m \<in> set qwen_modules" "f = ''A'' \<or> f = ''B''"
  shows "replace_all (layer_part (int s)) (layer_part (int u)) (lora_key s m f) = lora_key u m f"
  using replace_all_find[OF layer_part_nonempty, of "int s" "layer_part (int u)" "lora_key s m f"] find_layer[OF assms, of s s]
    replace_all_find[OF layer_part_nonempty, of "int s" "layer_part (int u)" "key_tail m f"] layer_part_tail[OF assms, of s]
  unfolding lora_key_parts[of u] by (simp only: key_pieces option.case simp_thms if_True)

lemma replace_factor: "m \<in> set qwen_modules \<Longrightarrow> replace_all ''lora_A'' ''lora_B'' (lora_key i m ''A'') = lora_key i m ''B''"
  unfolding in_modules lora_key_def
  by (elim disjE; simp add: replace_all_Cons replace_all_Nil replace_all_skip[OF nat_str_no_dot(2)])

lemma clean_name:
  "m \<in> set qwen_modules \<Longrightarrow> replace_all ''.weight'' [] (replace_all ''.lora_A'' [] (m @ ''.lora_A.weight'')) = m"
  unfolding in_modules by (elim disjE; simp add: replace_all_Cons replace_all_Nil)

lemma names_factor_A: "m \<in> set qwen_modules \<Longrightarrow> f = ''A'' \<or> f = ''B'' \<Longrightarrow> substring ''lora_A'' (lora_key i m f) \<longleftrightarrow> f = ''A''"
  unfolding in_modules lora_key_def by (elim disjE; simp add: substring_skip[OF nat_str_no_dot(2)])

lemma py_int_nat: "py_int (nat_str n) = Some (int n)"
proof -
  have "\<not> is_space c \<and> c \<noteq> CHR ''-'' \<and> c \<noteq> CHR ''+''" if "is_digit c" for c
  proof -
    have "\<not> is_digit (CHR ''-'')" "\<not> is_digit (CHR ''+'')" by (simp_all add: is_digit_def)
    moreover have "\<not> is_space c" using that unfolding is_digit_def is_space_def Let_def by linarith
    ultimately show ?thesis using that by blast
  qed
  then have d: "\<forall>c\<in>set (nat_str n). \<not> is_space c \<and> c \<noteq> CHR ''-'' \<and> c \<noteq> CHR ''+''" using nat_str_digits[of n] by blast
  have "nat_str n \<noteq> []" using nat_str_digits by blast
  then have "\<not> is_space (hd (nat_str n))" "\<not> is_space (hd (rev (nat_str n)))"
    using d hd_in_set[of "nat_str n"] last_in_set[of "nat_str n"] by (simp_all add: hd_rev)
  then have "dropWhile is_space (nat_str n) = nat_str n" "dropWhile is_space (rev (nat_str n)) = rev (nat_str n)"
    by (simp_all add: dropWhile_eq_self_iff)
  then have "str_strip (nat_str n) = nat_str n" by (simp add: str_strip_def str_lstrip_def)
  moreover obtain c cs where "nat_str n = c # cs" using \<open>nat_str n \<noteq> []\<close> by (cases "nat_str n") auto
  ultimately show ?thesis using nat_str_digits[of n] d by (simp add: py_int_def)
qed

lemma layer_id_key:
  assumes "m \<in> set qwen_modules" "f = ''A'' \<or> f = ''B''"
  shows "layer_id (lora_key i m f) = Inr (int i)" "substring ''.layers.'' (lora_key i m f)"
proof -
  let ?t = "nat_str i @ CHR ''.'' # key_tail m f"
  have n: "str_find ''.layers.'' ?t = None"
    using str_find_skip[OF nat_str_no_dot(1), of "''layers.''" i] module_tail(1)[OF assms, of "[]"] by simp
  have f: "str_find ''.layers.'' (lora_key i m f) = Some 22" by (simp add: lora_key_def)
  then show "substring ''.layers.'' (lora_key i m f)" using str_find_None[of "''.layers.''" "lora_key i m f"] by simp
  have "split_str ''.layers.'' (lora_key i m f) ! 1 = ?t"
    using split_some[OF _ f] unfolding key_pieces split_none[OF n] by simp
  then show "layer_id (lora_key i m f) = Inr (int i)"
    using nat_str_no_dot(1)[of i] by (simp add: layer_id_def takeWhile_append2 py_int_nat)
qed

section \<open>Layers between the source's\<close>

lemma list_item_inside: "0 \<le> i \<Longrightarrow> i < int (length xs) \<Longrightarrow> list_item xs i = Inr (xs ! nat i)"
  by (simp add: list_item_def)

lemma round4_error: "\<bar>round4 x - x\<bar> \<le> 1 / 20000"
  using round_nearest_error[of "x * 10 ^ 4"] by (simp add: round4_def abs_le_iff field_simps)

text \<open>Every target layer is interpolated between neighbouring source layers, up to the rounding of the weight; the
  first and the last are the source's first and last. A target of one layer raises.\<close>

lemma fold_layer_ok:
  assumes "src \<noteq> []" "2 \<le> T" "t < T"
  defines "pos \<equiv> real t * (real (length src) - 1) / (real T - 1)"
  shows "\<exists>l u a. fold_layer src T t = Inr \<lparr>lf_lower = src ! l, lf_upper = src ! u, lf_alpha = a\<rparr>
    \<and> l \<le> u \<and> u \<le> l + 1 \<and> u < length src \<and> real l \<le> pos \<and> pos \<le> real u \<and> \<bar>real l + a - pos\<bar> \<le> 1 / 20000"
proof -
  let ?n = "length src"
  have n: "1 \<le> real ?n" using assms(1) by (cases src) auto
  have p0: "0 \<le> pos" unfolding pos_def using n assms(2) by simp
  have "real t * (real ?n - 1) \<le> (real T - 1) * (real ?n - 1)" using n assms(3) by (intro mult_right_mono) auto
  then have p1: "pos \<le> real ?n - 1" unfolding pos_def using assms(2) by (simp add: pos_divide_le_eq mult.commute)
  have f: "0 \<le> \<lfloor>pos\<rfloor>" "\<lfloor>pos\<rfloor> < int ?n" "0 \<le> \<lceil>pos\<rceil>" "\<lceil>pos\<rceil> < int ?n" using p0 p1 by linarith+
  have s: "fold_layer src T t = Inr \<lparr>lf_lower = src ! nat \<lfloor>pos\<rfloor>, lf_upper = src ! nat \<lceil>pos\<rceil>,
      lf_alpha = round4 (pos - of_int \<lfloor>pos\<rfloor>)\<rparr>"
    using assms(2) f by (simp add: fold_layer_def Let_def pos_def[symmetric] list_item_inside)
  show ?thesis
  proof (intro exI conjI)
    show "nat \<lfloor>pos\<rfloor> \<le> nat \<lceil>pos\<rceil>" "nat \<lceil>pos\<rceil> \<le> nat \<lfloor>pos\<rfloor> + 1" "nat \<lceil>pos\<rceil> < ?n" using f by linarith+
    show "real (nat \<lfloor>pos\<rfloor>) \<le> pos" "pos \<le> real (nat \<lceil>pos\<rceil>)" using p0 by linarith+
    show "\<bar>real (nat \<lfloor>pos\<rfloor>) + round4 (pos - of_int \<lfloor>pos\<rfloor>) - pos\<bar> \<le> 1 / 20000"
    proof -
      have "real (nat \<lfloor>pos\<rfloor>) = of_int \<lfloor>pos\<rfloor>" using f(1) by simp
      then show ?thesis using round4_error[of "pos - of_int \<lfloor>pos\<rfloor>"] by linarith
    qed
  qed (rule s)
qed

lemma mapping_ok:
  assumes "src \<noteq> []" "2 \<le> T"
  shows "\<exists>mapping. build_interpolated_layer_mapping src T = Inr mapping
    \<and> (\<forall>(t, f)\<in>set mapping. lf_lower f \<in> set src \<and> lf_upper f \<in> set src \<and> (\<exists>n. t = nat_str n))"
proof -
  let ?f = "\<lambda>t. bindE (fold_layer src T t) (\<lambda>f. Inr (nat_str t, f))"
  have "\<exists>mapping. mapE ?f ts = Inr mapping \<and> (\<forall>(t, f)\<in>set mapping. lf_lower f \<in> set src \<and> lf_upper f \<in> set src \<and> (\<exists>n. t = nat_str n))"
    if "\<forall>t\<in>set ts. t < T" for ts
    using that
  proof (induction ts)
    case (Cons t ts)
    from fold_layer_ok[OF assms(1,2), of t] Cons.prems obtain l u a where
      "fold_layer src T t = Inr \<lparr>lf_lower = src ! l, lf_upper = src ! u, lf_alpha = a\<rparr>" "l \<le> u" "u < length src"
      by auto
    then show ?case using Cons by auto
  qed simp
  then show ?thesis by (simp add: build_interpolated_layer_mapping_def)
qed

section \<open>What the projection writes\<close>

text \<open>An adapter with standard keys and factors of one rank, whose modules have the same dimensions in every layer.\<close>

definition peft_adapter :: "nat \<Rightarrow> (string \<Rightarrow> nat) \<Rightarrow> (string \<Rightarrow> nat) \<Rightarrow> (string, mat) dict \<Rightarrow> bool" where
  "peft_adapter r din dout lora_sd \<longleftrightarrow>
     (\<forall>(k, W)\<in>set lora_sd. \<exists>i. \<exists>m\<in>set qwen_modules.
        k = lora_key i m ''A'' \<and> mt_rows W = r \<and> mt_cols W = din m
        \<or> k = lora_key i m ''B'' \<and> mt_rows W = dout m \<and> mt_cols W = r)"

definition target_key :: "string \<Rightarrow> string \<Rightarrow> string" where
  "target_key t m = ''model.layers.'' @ t @ ''.'' @ m"

lemma lora_key_inj:
  assumes "m \<in> set qwen_modules" "m' \<in> set qwen_modules" "f = ''A'' \<or> f = ''B''" "f' = ''A'' \<or> f' = ''B''"
    and "lora_key i m f = lora_key j m' f'"
  shows "i = j \<and> m = m' \<and> f = f'"
proof -
  have "i = j" using layer_id_key(1)[OF assms(1,3), of i] layer_id_key(1)[OF assms(2,4), of j] assms(5) by simp
  then have "m @ ''.lora_'' @ f @ ''.weight'' = m' @ ''.lora_'' @ f' @ ''.weight''" using assms(5) by (simp add: lora_key_def)
  moreover have "length (''.lora_'' @ f @ ''.weight'') = length (''.lora_'' @ f' @ ''.weight'')" using assms(3,4) by auto
  ultimately have "m = m'" "''.lora_'' @ f @ ''.weight'' = ''.lora_'' @ f' @ ''.weight''" by (auto simp: append_eq_append_conv)
  then show ?thesis using \<open>i = j\<close> by simp
qed

lemma adapter_factor:
  assumes sd: "peft_adapter r din dout sd" and m: "m \<in> set qwen_modules"
  shows "map_of sd (lora_key i m ''A'') = Some W \<Longrightarrow> mt_rows W = r \<and> mt_cols W = din m"
    and "map_of sd (lora_key i m ''B'') = Some W \<Longrightarrow> mt_rows W = dout m \<and> mt_cols W = r"
proof -
  have entry: "\<exists>j m'. m' \<in> set qwen_modules \<and> (k = lora_key j m' ''A'' \<and> mt_rows W = r \<and> mt_cols W = din m'
      \<or> k = lora_key j m' ''B'' \<and> mt_rows W = dout m' \<and> mt_cols W = r)" if "map_of sd k = Some W" for k
    using sd map_of_SomeD[OF that] unfolding peft_adapter_def by blast
  have same: "lora_key i m f = lora_key j m' f' \<Longrightarrow> m = m' \<and> f = f'" if "m' \<in> set qwen_modules" "f = ''A'' \<or> f = ''B''" "f' = ''A'' \<or> f' = ''B''" for f f' j m'
    using lora_key_inj[OF m that] by blast
  show "mt_rows W = r \<and> mt_cols W = din m" if k: "map_of sd (lora_key i m ''A'') = Some W"
    using entry[OF k] same[of _ "''A''" "''A''"] same[of _ "''A''" "''B''"] by auto
  show "mt_rows W = dout m \<and> mt_cols W = r" if k: "map_of sd (lora_key i m ''B'') = Some W"
    using entry[OF k] same[of _ "''B''" "''A''"] same[of _ "''B''" "''B''"] by auto
qed

lemma get_dW_ok:
  assumes "peft_adapter r din dout sd" "m \<in> set qwen_modules"
  shows "\<exists>W. get_dW sd scaling (lora_key i m ''A'') (lora_key i m ''B'') = Inr W
    \<and> (case W of None \<Rightarrow> True | Some W \<Rightarrow> mt_rows W = dout m \<and> mt_cols W = din m)"
proof (cases "map_of sd (lora_key i m ''A'') = None \<or> map_of sd (lora_key i m ''B'') = None")
  case True
  then show ?thesis by (auto simp: get_dW_def split: option.split)
next
  case False
  then obtain A B where AB: "map_of sd (lora_key i m ''A'') = Some A" "map_of sd (lora_key i m ''B'') = Some B"
    by (cases "map_of sd (lora_key i m ''A'')"; cases "map_of sd (lora_key i m ''B'')") simp_all
  note dims = adapter_factor(1)[OF assms AB(1)] adapter_factor(2)[OF assms AB(2)]
  show ?thesis by (simp add: get_dW_def AB matmul_def dims mat_scale_def)
qed

lemma project_key_ok:
  assumes sd: "peft_adapter r din dout sd" and m: "m \<in> set qwen_modules" and heads: "0 < tg_num_attention_heads config"
    and fld: "lf_lower fld = int s" "lf_upper fld = int u"
  shows "\<exists>st'. project_key lib config sd rank scaling export_peft t fld (lora_key s m ''A'') st = Inr st'
    \<and> set (dict_keys (ps_projected st')) \<subseteq> insert (target_key t m) (set (dict_keys (ps_projected st)))"
proof -
  note names = replace_factor[OF m] replace_layer[OF m, of "''A''", simplified] split_layer[OF m, of "''A''", simplified] clean_name[OF m]
  obtain shape where shape: "infer_qwen_target_shape m config = Inr shape"
    using heads by (simp add: infer_qwen_target_shape_def Let_def)
  obtain dl where dl: "get_dW sd scaling (lora_key s m ''A'') (lora_key s m ''B'') = Inr dl"
      "case dl of None \<Rightarrow> True | Some W \<Rightarrow> mt_rows W = dout m \<and> mt_cols W = din m" using get_dW_ok[OF sd m] by blast
  obtain du where du: "get_dW sd scaling (lora_key u m ''A'') (lora_key u m ''B'') = Inr du"
      "case du of None \<Rightarrow> True | Some W \<Rightarrow> mt_rows W = dout m \<and> mt_cols W = din m" using get_dW_ok[OF sd m] by blast
  show ?thesis
  proof (cases dl)
    case None
    then show ?thesis using dl names fld by (auto simp: project_key_def Let_def)
  next
    case (Some low)
    obtain dW where dW: "mix (lf_alpha fld) low (case du of None \<Rightarrow> low | Some up \<Rightarrow> up) = Inr dW"
      using dl(2) du(2) Some by (cases du) (simp_all add: mix_def)
    have "project_key lib config sd rank scaling export_peft t fld (lora_key s m ''A'') st
        = Inr (add_projected export_peft (target_key t m) (resize_and_analyze lib dW shape rank) st)"
      using Some dl(1) du(1) dW shape names fld by (simp add: project_key_def Let_def target_key_def)
    moreover have "set (dict_keys (ps_projected (add_projected export_peft key res st))) \<subseteq> insert key (set (dict_keys (ps_projected st)))" for key res
      by (auto simp: add_projected_def Let_def dom_update split: prod.splits option.splits)
    ultimately show ?thesis by blast
  qed
qed

text \<open>A loop whose steps succeed and keep an invariant.\<close>

lemma foldE_total:
  assumes "\<And>x s. x \<in> set xs \<Longrightarrow> P s \<Longrightarrow> \<exists>s'. f x s = Inr s' \<and> P s'" and "P s"
  shows "\<exists>s'. foldE f xs s = Inr s' \<and> P s'"
  using assms
proof (induction xs arbitrary: s)
  case (Cons x xs)
  obtain s1 where "f x s = Inr s1" "P s1" using Cons.prems(1)[of x s] Cons.prems(2) by auto
  moreover have "\<exists>s'. foldE f xs s1 = Inr s' \<and> P s'" using Cons.IH[of s1] Cons.prems(1) calculation(2) by simp
  ultimately show ?case by simp
qed simp

definition projected_names :: "proj_state \<Rightarrow> bool" where
  "projected_names st \<longleftrightarrow> set (dict_keys (ps_projected st)) \<subseteq> {target_key (nat_str t) m | t m. m \<in> set qwen_modules}"

lemma adapter_keys:
  assumes "peft_adapter r din dout sd" "k \<in> set (dict_keys sd)"
  shows "\<exists>i. \<exists>m\<in>set qwen_modules. k = lora_key i m ''A'' \<or> k = lora_key i m ''B''"
  using assms unfolding peft_adapter_def by fastforce

lemma project_layer_ok:
  assumes sd: "peft_adapter r din dout sd" and heads: "0 < tg_num_attention_heads config"
    and fld: "lf_lower fld = int s" "lf_upper fld = int u" and st: "projected_names st"
  shows "\<exists>st'. project_layer lib config sd rank scaling export_peft (nat_str t, fld) st = Inr st' \<and> projected_names st'"
proof -
  have step: "\<exists>st'. project_key lib config sd rank scaling export_peft (nat_str t) fld k st = Inr st' \<and> projected_names st'"
    if k: "k \<in> set (filter (\<lambda>k. substring (layer_part (lf_lower fld)) k \<and> substring ''lora_A'' k) (dict_keys sd))"
      and st: "projected_names st" for k st
  proof -
    have ks: "k \<in> set (dict_keys sd)" "substring (layer_part (int s)) k" "substring ''lora_A'' k" using k fld by simp_all
    from adapter_keys[OF sd ks(1)] obtain i m f where m: "m \<in> set qwen_modules" "f = ''A'' \<or> f = ''B''" "k = lora_key i m f" by blast
    then have f: "f = ''A''" using names_factor_A[OF m(1,2), of i] ks(3) by simp
    have "str_find (layer_part (int s)) (lora_key i m f) \<noteq> None" using ks(2) m(3) str_find_None[of "layer_part (int s)" k] by simp
    then have "i = s" using find_layer[OF m(1,2), of s i] by (auto split: if_splits)
    then have k: "k = lora_key s m ''A''" using m(3) f by simp
    show ?thesis
      using project_key_ok[OF sd m(1) heads fld, of lib rank scaling export_peft "nat_str t" st] st m(1)
      unfolding k projected_names_def by blast
  qed
  show ?thesis unfolding project_layer_def fst_conv snd_conv by (rule foldE_total[where P = projected_names, OF step st])
qed

lemma source_layers_ok:
  assumes sd: "peft_adapter r din dout sd" and "sd \<noteq> []"
  shows "\<exists>ids. source_layers sd = Inr ids \<and> ids \<noteq> [] \<and> (\<forall>i\<in>set ids. \<exists>n. i = int n)"
proof -
  have id: "\<exists>n. layer_id k = Inr (int n) \<and> substring ''.layers.'' k" if "k \<in> set (dict_keys sd)" for k
    using adapter_keys[OF sd that] layer_id_key by blast
  have "\<exists>ids. mapE layer_id ks = Inr ids \<and> (\<forall>i\<in>set ids. \<exists>n. i = int n) \<and> (ks \<noteq> [] \<longrightarrow> ids \<noteq> [])" if "set ks \<subseteq> set (dict_keys sd)" for ks
    using that
  proof (induction ks)
    case (Cons k ks)
    then show ?case using id[of k] by fastforce
  qed simp
  moreover have "filter (substring ''.layers.'') (dict_keys sd) = dict_keys sd" using id by (simp add: filter_id_conv del: set_map)
  ultimately obtain ids where "mapE layer_id (filter (substring ''.layers.'') (dict_keys sd)) = Inr ids"
      "\<forall>i\<in>set ids. \<exists>n. i = int n" "ids \<noteq> []" using assms(2) by fastforce
  then show ?thesis by (simp add: source_layers_def)
qed

lemma project_all_ok:
  assumes "pe_adapter_config env = Inr cfg" "lora_scaling cfg (pa_scale_gamma args) = Inr (rank, scaling)"
    and "pe_target_config env = Inr config" "0 < tg_num_attention_heads config" "2 \<le> tg_num_hidden_layers config"
    and "pe_lora env = Inr sd" "peft_adapter r din dout sd" "sd \<noteq> []"
  shows "\<exists>st mapping. project_all env args = Inr (st, mapping, cfg) \<and> projected_names st"
proof -
  obtain ids where ids: "source_layers sd = Inr ids" "ids \<noteq> []" "\<forall>i\<in>set ids. \<exists>n. i = int n" using source_layers_ok assms(7,8) by blast
  obtain mapping where mapping: "build_interpolated_layer_mapping ids (tg_num_hidden_layers config) = Inr mapping"
      "\<forall>(t, f)\<in>set mapping. lf_lower f \<in> set ids \<and> lf_upper f \<in> set ids \<and> (\<exists>n. t = nat_str n)"
    using mapping_ok[OF ids(2) assms(5)] by blast
  let ?step = "project_layer (pe_lib env) config sd rank scaling (pa_export_peft args)"
  have "\<exists>st'. foldE ?step mapping \<lparr>ps_projected = [], ps_peft = [], ps_stats = []\<rparr> = Inr st' \<and> projected_names st'"
  proof (rule foldE_total[where P = projected_names])
    fix tf st assume tf: "tf \<in> set mapping" and st: "projected_names st"
    obtain n s u where "fst tf = nat_str n" "lf_lower (snd tf) = int s" "lf_upper (snd tf) = int u"
      using mapping(2) tf ids(3) by (cases tf) fastforce
    then show "\<exists>st'. ?step tf st = Inr st' \<and> projected_names st'"
      using project_layer_ok[OF assms(7,4) _ _ st, of "snd tf" s u "pe_lib env" rank scaling "pa_export_peft args" n] by (cases tf) simp
  qed (simp add: projected_names_def)
  then show ?thesis using assms(1-3,6) ids(1) mapping(1) by (auto simp: project_all_def)
qed

text \<open>Fusing looks for names that end in \<open>.weight\<close>, which the projected names do not: nothing is fused, and
  what waits for its partners is dropped.\<close>

lemma nothing_fused:
  assumes "m \<in> set qwen_modules"
  shows "\<not> substring ''.mlp.gate_proj.weight'' (target_key (nat_str t) m)" "\<not> substring ''.self_attn.q_proj.weight'' (target_key (nat_str t) m)"
    and "\<not> substring ''.mlp.gate_up_proj.weight'' (target_key (nat_str t) m)" "\<not> substring ''.self_attn.qkv_proj.weight'' (target_key (nat_str t) m)"
  using assms unfolding in_modules target_key_def
  by (elim disjE; simp add: substring_skip[OF nat_str_no_dot(1)] nat_str_front letters_no_digits)+

lemma dropped_names:
  assumes "m \<in> set qwen_modules"
  shows "any_in [''.gate_proj'', ''.up_proj'', ''.q_proj'', ''.k_proj'', ''.v_proj''] (target_key (nat_str t) m)
    \<longleftrightarrow> m \<notin> {''self_attn.o_proj'', ''mlp.down_proj''}"
  using assms unfolding in_modules target_key_def
  by (elim disjE; simp add: any_in_def substring_skip[OF nat_str_no_dot(1)] nat_str_front letters_no_digits)

lemma fuse_ok:
  assumes names: "\<forall>k\<in>set (dict_keys d). \<exists>t. \<exists>m\<in>set qwen_modules. k = target_key (nat_str t) m"
  shows "\<exists>fused. fuse_qwen_layers d = Inr fused
    \<and> (\<forall>k\<in>set (dict_keys fused). \<exists>t. k = target_key (nat_str t) ''self_attn.o_proj'' \<or> k = target_key (nat_str t) ''mlp.down_proj'')"
proof -
  let ?none = "\<lambda>st :: (string, mat) dict \<times> string list. st = ([], [])"
  have "foldE (\<lambda>(key, tensor) st. bindE (fuse_gate d key tensor st) (fuse_qkv d key tensor)) es ([], []) = Inr ([], [])"
    if "set es \<subseteq> set d" for es
    using that
  proof (induction es)
    case (Cons e es)
    from Cons.prems names obtain t m where "m \<in> set qwen_modules" "fst e = target_key (nat_str t) m" by fastforce
    then show ?case using Cons nothing_fused[of m t] by (cases e) (simp add: fuse_gate_def fuse_qkv_def Let_def)
  qed simp
  then have "foldE (\<lambda>(key, tensor) st. bindE (fuse_gate d key tensor st) (fuse_qkv d key tensor)) d ([], []) = Inr ([], [])" by simp
  moreover
  let ?keep = "\<lambda>(key, tensor) fused. if key \<in> set [] then fused
      else if any_in [''.gate_proj'', ''.up_proj'', ''.q_proj'', ''.k_proj'', ''.v_proj''] key then fused else dict_set key tensor fused"
  let ?K = "{k. \<exists>t. k = target_key (nat_str t) ''self_attn.o_proj'' \<or> k = target_key (nat_str t) ''mlp.down_proj''}"
  let ?P = "\<lambda>fused :: (string, mat) dict. fst ` set fused \<subseteq> ?K"
  have "fst ` set (fold ?keep es fused) \<subseteq> ?K" if "set es \<subseteq> set d" "fst ` set fused \<subseteq> ?K" for es fused
    using that
  proof (induction es arbitrary: fused)
    case (Cons e es)
    from Cons.prems names obtain t m where m: "m \<in> set qwen_modules" "fst e = target_key (nat_str t) m" by fastforce
    have "?P (?keep e fused)"
      using Cons.prems(2) m(2) dropped_names[OF m(1), of t] by (cases e) (auto simp: dom_update)
    then show ?case using Cons by simp
  qed simp
  from this[of d "[]"] have "fst ` set (fold ?keep d []) \<subseteq> ?K" by simp
  ultimately show ?thesis by (simp add: fuse_qwen_layers_def subset_iff image_iff) blast
qed

lemma payload_stays:
  "map_of (dict_set (pa_output_dir args @ ''/'' @ route_id @ ''.scalpel_route'') f (peft_files args cfg st (dict_set (payload_path args) p files))) (payload_path args) = Some p"
  "map_of (peft_files args cfg st (dict_set (payload_path args) p files)) (payload_path args) = Some p"
proof -
  have "rev (payload_path args) \<noteq> rev (pa_output_dir args @ ''/'' @ route_id @ ''.scalpel_route'')"
    "rev (payload_path args) \<noteq> rev (pa_output_dir args @ ''/peft_adapter/'' @ ''projection_metadata.json'')"
    "rev (payload_path args) \<noteq> rev (pa_output_dir args @ ''/peft_adapter/'' @ ''adapter_config.json'')"
    "rev (payload_path args) \<noteq> rev (pa_output_dir args @ ''/peft_adapter/'' @ ''adapter_model.safetensors'')"
    by (simp_all add: payload_path_def)
  then have ne: "payload_path args \<noteq> pa_output_dir args @ ''/'' @ route_id @ ''.scalpel_route''"
    "payload_path args \<noteq> pa_output_dir args @ ''/peft_adapter/'' @ ''projection_metadata.json''"
    "payload_path args \<noteq> pa_output_dir args @ ''/peft_adapter/'' @ ''adapter_config.json''"
    "payload_path args \<noteq> pa_output_dir args @ ''/peft_adapter/'' @ ''adapter_model.safetensors''" by metis+
  show p: "map_of (peft_files args cfg st (dict_set (payload_path args) p files)) (payload_path args) = Some p"
    unfolding peft_files_def Let_def using ne(2-4) by simp
  show "map_of (dict_set (pa_output_dir args @ ''/'' @ route_id @ ''.scalpel_route'') f (peft_files args cfg st (dict_set (payload_path args) p files))) (payload_path args) = Some p"
    using ne(1) p by simp
qed

text \<open>The shapes of the saved tensors, and what the check makes of a payload of such names.\<close>

definition shapes_of :: "(string, mat) dict \<Rightarrow> (string, nat list) dict" where
  "shapes_of sd = map (\<lambda>(k, t). (k, [mt_rows t, mt_cols t])) sd"

lemma unexpected_name:
  assumes k: "k = target_key (nat_str t) ''self_attn.o_proj'' \<or> k = target_key (nat_str t) ''mlp.down_proj''"
    and target: "\<forall>key\<in>set (dict_keys target_sd). ends_with key ''.weight'' \<or> ends_with key ''.bias''"
  shows "ae_status (audit_tensor target_sd (k, sh)) = ''UNEXPECTED''"
proof -
  have "\<not> ends_with k ''.weight''" "\<not> ends_with k ''.bias''" using k by (auto simp: ends_with_def target_key_def)
  then have "map_of target_sd k = None" using target by (auto simp: map_of_eq_None_iff)
  moreover have "fused_components k = None"
    using k nothing_fused(3,4)[of "''self_attn.o_proj''" t] nothing_fused(3,4)[of "''mlp.down_proj''" t]
    by (auto simp: fused_components_def in_modules)
  ultimately show ?thesis by (simp add: audit_tensor_def Let_def)
qed

lemma verify_fails:
  assumes names: "\<forall>k\<in>set (dict_keys payload). \<exists>t. k = target_key (nat_str t) ''self_attn.o_proj'' \<or> k = target_key (nat_str t) ''mlp.down_proj''"
    and target: "\<forall>key\<in>set (dict_keys target_sd). ends_with key ''.weight'' \<or> ends_with key ''.bias''"
    and proj: "has_key target_sd ''model.layers.0.self_attn.o_proj.weight''"
  shows "\<exists>report. verify_shapes (Some (Inr (shapes_of payload))) (Inr target_sd) = Inr (Some report)
    \<and> sr_verdict report = ''FAIL'' \<and> sr_matched report = 0 \<and> sr_unexpected report = length payload"
proof -
  have st: "ae_status (audit_tensor target_sd (k, sh)) = ''UNEXPECTED''" if "(k, sh) \<in> set (shapes_of payload)" for k sh
    using that names unexpected_name[OF _ target] by (fastforce simp: shapes_of_def)
  have u: "filter (\<lambda>e. ae_status e = ''UNEXPECTED'') (map (audit_tensor target_sd) (shapes_of payload)) = map (audit_tensor target_sd) (shapes_of payload)"
    using st by (auto simp: filter_id_conv)
  have m: "filter (\<lambda>e. ae_status e = ''MATCH'') (map (audit_tensor target_sd) (shapes_of payload)) = []"
    using st by (auto simp: filter_empty_conv)
  have "missing_key [] ''model.layers.0.self_attn.o_proj.weight''" by (simp add: missing_key_def any_in_def has_key_def)
  then have "filter (missing_key []) (dict_keys target_sd) \<noteq> []" using proj unfolding filter_empty_conv has_key_keys by blast
  then have "payload \<noteq> [] \<or> filter (missing_key (shapes_of payload)) (dict_keys target_sd) \<noteq> []" by (auto simp: shapes_of_def)
  moreover have "length (shapes_of payload) = length payload" by (simp add: shapes_of_def)
  ultimately show ?thesis unfolding verify_shapes_def Let_def option.case bindE.simps sum.case u m by (auto simp: filter_map)
qed


definition tiny_adapter :: "(string, mat) dict" where
  "tiny_adapter = [(lora_key 0 ''self_attn.q_proj'' ''A'', mk 1 1 (\<lambda>_ _. 1)), (lora_key 0 ''self_attn.q_proj'' ''B'', mk 1 1 (\<lambda>_ _. 2)),
     (lora_key 0 ''self_attn.o_proj'' ''A'', mk 1 1 (\<lambda>_ _. 3)), (lora_key 0 ''self_attn.o_proj'' ''B'', mk 1 1 (\<lambda>_ _. 4))]"

definition tiny_env :: projection_env where
  "tiny_env = \<lparr>pe_adapter_config = Inr [(''r'', JInt 1), (''lora_alpha'', JInt 2)],
     pe_target_config = Inr \<lparr>tg_hidden_size = 1, tg_intermediate_size = None, tg_num_attention_heads = 1, tg_num_key_value_heads = None, tg_num_hidden_layers = 2\<rparr>,
     pe_lora = Inr tiny_adapter, pe_lib = \<lparr>pl_interpolate = (\<lambda>a b. resize a b), pl_torch_svd = (\<lambda>_. None)\<rparr>,
     pe_sha256 = (\<lambda>_. ''0''), pe_resolve = (\<lambda>p. p)\<rparr>"


section \<open>Recompression\<close>

lemma diag_column: "(\<Sum>l<n. f l * (if l = k then S ! l else 0)) = (if k < n then f k * S ! k else 0)" for f :: "nat \<Rightarrow> real" and n :: nat
proof -
  have "(\<Sum>l<n. f l * (if l = k then S ! l else 0)) = (\<Sum>l<n. f l * S ! l * (if l = k then 1 else 0))" by (rule sum.cong) auto
  then show ?thesis using delta_product[of "\<lambda>l. f l * S ! l" k n] by simp
qed

lemma mul_diag: "mt_cols U = length S \<Longrightarrow>
  mt_at (mat_mul U (diag_mat S)) i k = (if i < mt_rows U \<and> k < length S then mt_at U i k * S ! k else 0)"
  by (simp add: mat_mul_def diag_mat_def diag_column)

lemma diag_mul: "mt_rows V = length S \<Longrightarrow>
  mt_at (mat_mul (diag_mat S) V) k j = (if k < length S \<and> j < mt_cols V then S ! k * mt_at V k j else 0)"
proof -
  have "(\<Sum>l<length S. (if k = l then S ! k else 0) * mt_at V l j) = (\<Sum>l<length S. S ! k * mt_at V l j * (if l = k then 1 else 0))"
    by (rule sum.cong) auto
  then show "mt_rows V = length S \<Longrightarrow> ?thesis"
    using delta_product[of "\<lambda>l. S ! k * mt_at V l j" k "length S"] by (simp add: mat_mul_def diag_mat_def)
qed

text \<open>The two factors of the exported adapter multiply to the recompressed tensor.\<close>

lemma exported_factors:
  assumes U: "mt_cols U = length S" and V: "mt_cols V = length S" and S: "\<forall>s\<in>set S. 0 \<le> s"
  shows "mat_mul (mat_mul U (diag_mat (map sqrt S))) (mat_mul (diag_mat (map sqrt S)) (mat_t V)) = mat_mul (mat_mul U (diag_mat S)) (mat_t V)"
proof (rule mat_eqI)
  fix i j assume ij: "i < mt_rows (mat_mul (mat_mul U (diag_mat (map sqrt S))) (mat_mul (diag_mat (map sqrt S)) (mat_t V)))"
    "j < mt_cols (mat_mul (mat_mul U (diag_mat (map sqrt S))) (mat_mul (diag_mat (map sqrt S)) (mat_t V)))"
  have r: "mt_rows (mat_t V) = length S" "mt_cols (diag_mat S) = length S" "mt_cols (diag_mat (map sqrt S)) = length S"
    using V by (simp_all add: mat_t_def diag_mat_def)
  have root: "mt_at U i k * sqrt (S ! k) * (sqrt (S ! k) * v) = mt_at U i k * S ! k * v" if "k < length S" for k v
  proof -
    have "sqrt (S ! k) * sqrt (S ! k) = S ! k" using S that by simp
    then show ?thesis by (metis mult.assoc)
  qed
  have "mt_at (mat_mul (mat_mul U (diag_mat (map sqrt S))) (mat_mul (diag_mat (map sqrt S)) (mat_t V))) i j
      = (\<Sum>k<length S. mt_at (mat_mul U (diag_mat (map sqrt S))) i k * mt_at (mat_mul (diag_mat (map sqrt S)) (mat_t V)) k j)"
    using ij r by (simp add: mat_mul_def)
  also have "\<dots> = (\<Sum>k<length S. mt_at (mat_mul U (diag_mat S)) i k * mt_at (mat_t V) k j)"
    using ij U r by (intro sum.cong refl) (simp add: mul_diag diag_mul root)
  also have "\<dots> = mt_at (mat_mul (mat_mul U (diag_mat S)) (mat_t V)) i j" using ij r by (simp add: mat_mul_def)
  finally show "mt_at (mat_mul (mat_mul U (diag_mat (map sqrt S))) (mat_mul (diag_mat (map sqrt S)) (mat_t V))) i j
      = mt_at (mat_mul (mat_mul U (diag_mat S)) (mat_t V)) i j" .
qed simp_all

lemma squares_nonneg: "0 \<le> (\<Sum>s\<leftarrow>S. s\<^sup>2)" for S :: "real list"
  by (rule sum_list_nonneg) auto

lemma kept_energy: "(\<Sum>s\<leftarrow>take k S. s\<^sup>2) \<le> (\<Sum>s\<leftarrow>S. s\<^sup>2)" for S :: "real list"
  using squares_nonneg[of "drop k S"] by (metis append_take_drop_id map_append sum_list_append add.commute add_increasing2 order_refl)

text \<open>The recompression of a module. The retained energy is a share between 0 and 1, it is 1 and the
  tensor unchanged when the rank is no smaller than the number of singular values, and the exported factors
  multiply to the very tensor of the payload. The decomposition is assumed to be one for the
  resized tensor.\<close>

theorem recompression_sound:
  assumes "pl_interpolate lib a b W = T" and "mat_wf T" and "pl_torch_svd lib T = Some (U, S, V)" and "svd_of T (U, S, mat_t V)"
    and "mt_cols V = length S" and "rank \<ge> 0"
  shows "\<exists>R stats svd A B. resize_and_analyze lib W (a, b) rank = (R, stats, Some svd)
    \<and> 0 \<le> rs_energy_retention stats \<and> rs_energy_retention stats \<le> 1
    \<and> (int (length S) \<le> rank \<longrightarrow> R = T \<and> rs_energy_retention stats = 1)
    \<and> map_of (ps_projected (add_projected True key (R, stats, Some svd) st)) key = Some R
    \<and> map_of (ps_peft (add_projected True key (R, stats, Some svd) st)) (''base_model.model.'' @ key @ ''.lora_A.weight'') = Some A
    \<and> map_of (ps_peft (add_projected True key (R, stats, Some svd) st)) (''base_model.model.'' @ key @ ''.lora_B.weight'') = Some B
    \<and> mt_rows A \<le> nat rank \<and> mat_mul B A = R"
proof -
  let ?k = "slice_end rank (length S)"
  let ?U = "take_cols ?k U" and ?S = "take ?k S" and ?V = "take_cols ?k V"
  let ?R = "mat_mul (mat_mul ?U (diag_mat ?S)) (mat_t ?V)"
  let ?stats = "\<lparr>rs_energy_retention = (if 0 < (\<Sum>s\<leftarrow>S. s\<^sup>2) then (\<Sum>s\<leftarrow>?S. s\<^sup>2) / (\<Sum>s\<leftarrow>S. s\<^sup>2) else 1), rs_max_abs = max_abs ?R\<rparr>"
  let ?A = "mat_mul (diag_mat (map sqrt ?S)) (mat_t ?V)" and ?B = "mat_mul ?U (diag_mat (map sqrt ?S))"
  have law: "mt_rows U = mt_rows T" "mt_cols U = length S" "mt_rows V = mt_cols T" "\<forall>s\<in>set S. 0 \<le> s"
      "\<forall>i<mt_rows T. \<forall>j<mt_cols T. mt_at T i j = (\<Sum>k<length S. mt_at U i k * S ! k * mt_at (mat_t V) k j)"
    using assms(4) by (auto simp: svd_of_def mat_t_def)
  have k: "?k \<le> length S" "?k \<le> nat rank" using assms(6) by (simp_all add: slice_end_def)
  have run: "resize_and_analyze lib W (a, b) rank = (?R, ?stats, Some (?U, ?S, ?V))"
    using assms(1,3) by (simp add: resize_and_analyze_def Let_def)
  have range: "0 \<le> rs_energy_retention ?stats" "rs_energy_retention ?stats \<le> 1"
    using squares_nonneg[of ?S] squares_nonneg[of S] kept_energy[of ?k S] by (simp_all add: divide_le_eq)
  have exact: "?R = T \<and> rs_energy_retention ?stats = 1" if "int (length S) \<le> rank"
  proof -
    have full: "?k = length S" using that by (simp add: slice_end_def)
    have "?R = T"
    proof (rule mat_eqI)
      fix i j assume ij: "i < mt_rows ?R" "j < mt_cols ?R"
      then have "i < mt_rows T" "j < mt_cols T" using law(1,3) by (simp_all add: take_cols_def mat_t_def)
      then show "mt_at ?R i j = mt_at T i j"
        using ij law assms(5) full by (simp add: mat_mul_def diag_mat_def take_cols_def mat_t_def diag_column)
    qed (use assms(2) law in \<open>simp_all add: take_cols_def mat_t_def\<close>)
    then show ?thesis using full by simp
  qed
  have "mat_mul ?B ?A = ?R"
    using k(1) law(2,4) assms(5) by (intro exported_factors) (auto simp: take_cols_def dest: in_set_takeD)
  moreover have "mt_rows ?A \<le> nat rank" using k by (simp add: diag_mat_def)
  moreover have "map_of (ps_projected (add_projected True key (?R, ?stats, Some (?U, ?S, ?V)) st)) key = Some ?R"
    "map_of (ps_peft (add_projected True key (?R, ?stats, Some (?U, ?S, ?V)) st)) (''base_model.model.'' @ key @ ''.lora_A.weight'') = Some ?A"
    "map_of (ps_peft (add_projected True key (?R, ?stats, Some (?U, ?S, ?V)) st)) (''base_model.model.'' @ key @ ''.lora_B.weight'') = Some ?B"
    by (simp_all add: add_projected_def Let_def)
  ultimately show ?thesis using run range exact by blast
qed

definition scalar_lib :: projection_lib where
  "scalar_lib = \<lparr>pl_interpolate = resize, pl_torch_svd = (\<lambda>T. Some (mk 1 1 (\<lambda>_ _. 1), [mt_at T 0 0], mk 1 1 (\<lambda>_ _. 1)))\<rparr>"

lemma recompression_sound_witness:
  "\<exists>R stats svd. resize_and_analyze scalar_lib (mk 1 1 (\<lambda>_ _. 3)) (1, 1) 8 = (R, stats, Some svd)
    \<and> R = mk 1 1 (\<lambda>_ _. 3) \<and> rs_energy_retention stats = 1"
proof -
  let ?W = "mk 1 1 (\<lambda>_ _. 3)" let ?one = "mk 1 1 (\<lambda>_ _. 1)"
  have T: "pl_interpolate scalar_lib 1 1 ?W = ?W" by (rule mat_eqI) (simp_all add: scalar_lib_def resize_def)
  have svd: "pl_torch_svd scalar_lib ?W = Some (?one, [3], ?one)" by (simp add: scalar_lib_def)
  have law: "svd_of ?W (?one, [3], mat_t ?one)" by (simp add: svd_of_def mat_t_def)
  show ?thesis
    using recompression_sound[OF T _ svd law, of 8 "[]" "\<lparr>ps_projected = [], ps_peft = [], ps_stats = []\<rparr>"] by auto
qed

end
