(* ===== verification/Module_Risk.thy ===== *)
theory Module_Risk
  imports Projected_Payload
begin

text \<open>
  The module risk report (scripts/compute_module_risk.py): the risk of a run, and the report on the attention
  sweep and the two MLP runs. A registry is its runs, each with its three fields; scores are exact. The table that is
  printed is left out.
\<close>

section \<open>The report\<close>

record run_stats =
  rn_fixed :: "string list"
  rn_regressed :: "string list"
  rn_sentinel_regressed :: bool

definition risk_score :: "run_stats \<Rightarrow> rat" where
  "risk_score stats =
     (let fixed_count = of_nat (length (rn_fixed stats)); regressed_count = of_nat (length (rn_regressed stats))
      in if rn_sentinel_regressed stats then (if 0 < regressed_count then 9 / 10 else 7 / 10)
         else regressed_count / (fixed_count + regressed_count + 1 / 10 ^ 6))"

definition calculate_risk :: "run_stats \<Rightarrow> string \<times> rat \<times> string" where
  "calculate_risk stats =
     (let score = risk_score stats
      in if 8 / 10 < score then (''CRITICAL'', score, ''EXCLUDE'')
         else if 1 / 2 < score \<or> rn_sentinel_regressed stats then (''HIGH'', score, ''EXCLUDE_OR_ULTRA_LOW_ALPHA'')
         else if 1 / 10 < score then (''MEDIUM'', score, ''REDUCE_ALPHA'')
         else (''LOW'', score, ''ALLOW_LOW_ALPHA''))"

record risk_entry =
  re_risk_level :: string
  re_risk_score :: rat
  re_recommendation :: string
  re_fixed :: nat
  re_regressed :: nat
  re_sentinel_regression :: bool

record attention_entry = risk_entry +
  at_safe_alpha_max :: int
  at_tested_alphas :: "int list"
  at_first_regression :: "int option"

record risk_report =
  rr_attention :: "attention_entry option"
  rr_mlp :: "risk_entry option"
  rr_down_proj :: "risk_entry option"

type_synonym runs = "(string, run_stats) dict"

definition run_name :: "int \<Rightarrow> string" where
  "run_name alpha = ''attention_a'' @ int_str alpha"

definition tested_alpha :: "string \<Rightarrow> int result" where
  "tested_alpha name =
     (let piece = split_str ''_a'' name ! 1
      in case py_int piece of
           None \<Rightarrow> Inl (PyExc ValueErrorE (''invalid literal for int() with base 10: '' @ apostrophe piece))
         | Some i \<Rightarrow> Inr i)"

text \<open>One alpha of the sweep: the safe alphas so far and the first that regressed.\<close>

definition sweep_alpha :: "runs \<Rightarrow> int \<Rightarrow> int list \<times> int option \<Rightarrow> (int list \<times> int option) result" where
  "sweep_alpha attn_runs alpha st =
     bindE (dict_item attn_runs (run_name alpha)) (\<lambda>stats.
       Inr (if \<not> rn_sentinel_regressed stats \<and> rn_regressed stats = [] then (fst st @ [alpha], snd st)
            else (fst st, case snd st of None \<Rightarrow> Some alpha | Some first \<Rightarrow> Some first)))"

definition attention_report :: "runs \<Rightarrow> attention_entry result" where
  "attention_report attn_runs =
     bindE (mapE tested_alpha (dict_keys attn_runs)) (\<lambda>alphas.
     bindE (foldE (sweep_alpha attn_runs) (sort alphas) ([], None)) (\<lambda>(safe_alphas, first_regression).
       let safe_max = (if safe_alphas \<noteq> [] then Max (set safe_alphas) else 0);
           rep_stats = dict_get attn_runs (run_name safe_max) (snd (hd attn_runs))
       in Inr \<lparr>re_risk_level = (if 0 < safe_max then ''CONDITIONAL_LOW'' else ''HIGH''),
               re_risk_score = fst (snd (calculate_risk rep_stats)),
               re_recommendation = (if 0 < safe_max then ''ALLOW_ALPHA_LE_'' @ int_str safe_max else ''EXCLUDE''),
               re_fixed = length (rn_fixed rep_stats), re_regressed = length (rn_regressed rep_stats),
               re_sentinel_regression = rn_sentinel_regressed rep_stats,
               at_safe_alpha_max = safe_max, at_tested_alphas = sort alphas, at_first_regression = first_regression\<rparr>))"

definition component_report :: "string \<Rightarrow> run_stats \<Rightarrow> risk_entry" where
  "component_report recommendation stats =
     \<lparr>re_risk_level = fst (calculate_risk stats), re_risk_score = fst (snd (calculate_risk stats)), re_recommendation = recommendation,
      re_fixed = length (rn_fixed stats), re_regressed = length (rn_regressed stats), re_sentinel_regression = rn_sentinel_regressed stats\<rparr>"

text \<open>\<open>None\<close> where there is no registry and the script returns.\<close>

definition module_risk :: "runs option \<Rightarrow> risk_report option result" where
  "module_risk registry =
     (case registry of
        None \<Rightarrow> Inr None
      | Some runs \<Rightarrow>
          let attn_runs = filter (\<lambda>(name, _). starts_with name ''attention_a'') runs
          in bindE (if attn_runs = [] then Inr None else bindE (attention_report attn_runs) (\<lambda>e. Inr (Some e))) (\<lambda>attention.
               Inr (Some \<lparr>rr_attention = attention,
                          rr_mlp = map_option (component_report ''EXCLUDE_OR_ALPHA_LE_1'') (map_of runs ''mlp_a4''),
                          rr_down_proj = map_option (component_report ''EXCLUDE'') (map_of runs ''down_proj_a4'')\<rparr>)))"

section \<open>What the report says\<close>

lemma calculate_risk_levels:
  "fst (calculate_risk stats) = ''LOW'' \<longleftrightarrow> \<not> rn_sentinel_regressed stats \<and> risk_score stats \<le> 1 / 10"
  "fst (calculate_risk stats) = ''CRITICAL'' \<longleftrightarrow>
     (if rn_sentinel_regressed stats then rn_regressed stats \<noteq> [] else 8 / 10 < risk_score stats)"
  by (auto simp: calculate_risk_def risk_score_def Let_def)

lemma tested_alpha_name: "tested_alpha (run_name (int n)) = Inr (int n)"
proof -
  have f: "str_find ''_a'' (run_name (int n)) = Some 9" by (simp add: run_name_def)
  have d: "drop (9 + length ''_a'') (run_name (int n)) = nat_str n" by (simp add: run_name_def int_str_nat)
  have "\<not> is_digit (CHR ''_'')" by (simp add: is_digit_def)
  then have "\<forall>c\<in>set (nat_str n). c \<noteq> CHR ''_''" using nat_str_digits[of n] by blast
  then have "str_find ''_a'' (nat_str n) = None" using str_find_skip[of "nat_str n" "CHR ''_''" "''a''" "[]"] by simp
  then have "split_str ''_a'' (run_name (int n)) ! 1 = nat_str n" using split_some[OF _ f] unfolding d by (simp add: split_none)
  then show ?thesis by (simp add: tested_alpha_def py_int_nat)
qed

definition safe_run :: "run_stats \<Rightarrow> bool" where
  "safe_run stats \<longleftrightarrow> \<not> rn_sentinel_regressed stats \<and> rn_regressed stats = []"

lemma sweep_ok:
  assumes "\<forall>a\<in>set alphas. \<exists>stats. map_of attn_runs (run_name a) = Some stats"
  shows "foldE (sweep_alpha attn_runs) alphas (safe, first) =
    Inr (safe @ filter (\<lambda>a. safe_run (the (map_of attn_runs (run_name a)))) alphas,
         case first of Some f \<Rightarrow> Some f | None \<Rightarrow> find (\<lambda>a. \<not> safe_run (the (map_of attn_runs (run_name a)))) alphas)"
  using assms
proof (induction alphas arbitrary: safe first)
  case (Cons a alphas)
  then obtain stats where "map_of attn_runs (run_name a) = Some stats" by auto
  then show ?case using Cons by (auto simp: sweep_alpha_def dict_item_def safe_run_def split: option.split)
qed (simp split: option.split)

lemma find_least:
  "sorted xs \<Longrightarrow> find Q xs = (if \<exists>x\<in>set xs. Q x then Some (Min {x \<in> set xs. Q x}) else None)" for xs :: "nat list"
proof (induction xs)
  case (Cons x xs)
  have "Min {y \<in> set (x # xs). Q y} = x" if "Q x" using that Cons.prems by (intro Min_eqI) auto
  moreover have "{y \<in> set (x # xs). Q y} = {y \<in> set xs. Q y}" if "\<not> Q x" using that by auto
  ultimately show ?case using Cons by auto
qed simp

text \<open>The attention sweep. For runs named by their alphas the report lists the tested alphas in order; the
  safe maximum is the greatest alpha whose run neither regressed nor hit a sentinel, with the counts of that very
  run, and zero when there is none, which is what HIGH and EXCLUDE stand for; the first regression is the least
  alpha that is not safe. Nothing makes it lie above the safe maximum.\<close>

theorem attention_sweep_exact:
  assumes "alphas \<noteq> []" and "distinct alphas" and "0 \<notin> set alphas"
    and "runs = map (\<lambda>n. (run_name (int n), stats n)) alphas" and "safe = {n \<in> set alphas. safe_run (stats n)}"
  shows "\<exists>e. attention_report runs = Inr e
    \<and> at_tested_alphas e = map int (sort alphas)
    \<and> (if safe = {} then at_safe_alpha_max e = 0 \<and> re_risk_level e = ''HIGH'' \<and> re_recommendation e = ''EXCLUDE''
       else at_safe_alpha_max e = int (Max safe) \<and> re_risk_level e = ''CONDITIONAL_LOW''
            \<and> re_recommendation e = ''ALLOW_ALPHA_LE_'' @ nat_str (Max safe)
            \<and> re_regressed e = 0 \<and> \<not> re_sentinel_regression e \<and> re_fixed e = length (rn_fixed (stats (Max safe))))
    \<and> at_first_regression e = (if set alphas \<subseteq> safe then None else Some (int (Min (set alphas - safe))))"
proof -
  have inj: "run_name (int a) = run_name (int b) \<longleftrightarrow> a = b" for a b by (simp add: run_name_def int_str_nat nat_str_eq_iff)
  have at: "map_of runs (run_name (int n)) = Some (stats n)" if "n \<in> set alphas" for n
    using that assms(2) unfolding assms(4) by (induction alphas) (auto simp: inj)
  have ids: "mapE tested_alpha (dict_keys runs) = Inr (map int alphas)"
    unfolding assms(4) by (induction alphas) (simp_all add: tested_alpha_name)
  have srt: "sort (map int alphas) = map int (sort alphas)"
    by (rule properties_for_sort) (simp_all add: sorted_map sorted_wrt_map)
  have safe: "safe_run (the (map_of runs (run_name a))) \<longleftrightarrow> nat a \<in> safe" if "a \<in> set (map int (sort alphas))" for a
    using that at assms(5) by auto
  let ?P = "\<lambda>n. n \<in> safe"
  have sweep: "foldE (sweep_alpha runs) (map int (sort alphas)) ([], None)
      = Inr (map int (filter ?P (sort alphas)), map_option int (find (\<lambda>n. n \<notin> safe) (sort alphas)))"
  proof -
    have "filter (\<lambda>a. safe_run (the (map_of runs (run_name a)))) (map int (sort alphas)) = map int (filter ?P (sort alphas))"
      unfolding filter_map o_def by (intro arg_cong[of _ _ "map int"] filter_cong) (simp_all add: at assms(5))
    moreover have "find (\<lambda>a. \<not> safe_run (the (map_of runs (run_name a)))) (map int xs) = map_option int (find (\<lambda>n. n \<notin> safe) xs)"
      if "set xs \<subseteq> set alphas" for xs using that safe by (induction xs) auto
    ultimately show ?thesis using sweep_ok[of "map int (sort alphas)" runs "[]" None] at by fastforce
  qed
  let ?L = "filter ?P (sort alphas)" and ?first = "map_option int (find (\<lambda>n. n \<notin> safe) (sort alphas))"
  have L: "set ?L = safe" "finite safe" using assms(5) by auto
  have m: "(if map int ?L \<noteq> [] then Max (set (map int ?L)) else 0) = (if safe = {} then 0 else int (Max safe))"
  proof (cases "safe = {}")
    case False
    then have "Max (int ` safe) = int (Max safe)" using L(2) by (intro mono_Max_commute[symmetric]) (simp_all add: mono_def)
    then show ?thesis using L False by (metis empty_set list.map_disc_iff set_map)
  qed (use L in \<open>auto simp: filter_empty_conv\<close>)
  have first: "?first = (if set alphas \<subseteq> safe then None else Some (int (Min (set alphas - safe))))"
    using find_least[of "sort alphas" "\<lambda>n. n \<notin> safe"] by (auto simp: set_diff_eq)
  have max: "safe_run (stats (Max safe))" "Max safe \<in> set alphas" "0 < Max safe" if "safe \<noteq> {}"
    using Max_in[OF L(2) that] assms(3,5) by (auto intro: gr0I)
  let ?max = "if safe = {} then 0 else int (Max safe)"
  have run: "attention_report runs =
     (let rep_stats = dict_get runs (run_name ?max) (snd (hd runs))
      in Inr \<lparr>re_risk_level = (if 0 < ?max then ''CONDITIONAL_LOW'' else ''HIGH''),
              re_risk_score = fst (snd (calculate_risk rep_stats)),
              re_recommendation = (if 0 < ?max then ''ALLOW_ALPHA_LE_'' @ int_str ?max else ''EXCLUDE''),
              re_fixed = length (rn_fixed rep_stats), re_regressed = length (rn_regressed rep_stats),
              re_sentinel_regression = rn_sentinel_regressed rep_stats,
              at_safe_alpha_max = ?max, at_tested_alphas = map int (sort alphas), at_first_regression = ?first\<rparr>)"
    unfolding attention_report_def ids srt bindE.simps sweep prod.case m Let_def ..
  show ?thesis
  proof (cases "safe = {}")
    case True
    then show ?thesis unfolding run first by (simp add: Let_def)
  next
    case False
    then have "dict_get runs (run_name (int (Max safe))) (snd (hd runs)) = stats (Max safe)" using max(2) at by (simp add: dict_get_def)
    then show ?thesis using False max unfolding run first by (simp add: Let_def safe_run_def int_str_nat)
  qed
qed

lemma attention_sweep_exact_witness:
  "\<exists>e. attention_report [(run_name 2, \<lparr>rn_fixed = [], rn_regressed = [''q7''], rn_sentinel_regressed = False\<rparr>),
       (run_name 4, \<lparr>rn_fixed = [''q1''], rn_regressed = [], rn_sentinel_regressed = False\<rparr>)] = Inr e
    \<and> at_safe_alpha_max e = 4 \<and> at_first_regression e = Some 2 \<and> re_recommendation e = ''ALLOW_ALPHA_LE_'' @ nat_str 4"
proof -
  let ?stats = "\<lambda>n :: nat. if n = 2 then \<lparr>rn_fixed = [], rn_regressed = [''q7''], rn_sentinel_regressed = False\<rparr>
      else \<lparr>rn_fixed = [''q1''], rn_regressed = [], rn_sentinel_regressed = False\<rparr>"
  have safe: "{n \<in> set [2, 4 :: nat]. safe_run (?stats n)} = {4}" by (auto simp: safe_run_def)
  have rest: "set [2, 4] - {4 :: nat} = {2}" "\<not> set [2, 4] \<subseteq> {4 :: nat}" "distinct [2, 4 :: nat]" "0 \<notin> set [2, 4 :: nat]" by auto
  obtain e where e: "attention_report (map (\<lambda>n. (run_name (int n), ?stats n)) [2, 4]) = Inr e" "at_safe_alpha_max e = int (Max {4})"
      "re_recommendation e = ''ALLOW_ALPHA_LE_'' @ nat_str (Max {4})" "at_first_regression e = Some (int (Min {2}))"
    using attention_sweep_exact[OF list.discI[OF refl] rest(3,4) refl refl, of ?stats] unfolding safe rest(1) by (simp only: rest(2) if_False insert_not_empty) blast
  then show ?thesis by simp
qed

end
