(* ===== verification/Diagnostic_Commands.thy ===== *)
theory Diagnostic_Commands
  imports Diagnostic_Runner
begin

text \<open>
  The two commands around the diagnostic pipeline: diagnose-adapter (commands/diagnose_adapter.py) and the script
  it grew out of (scripts/adapter_transfer_diagnostic.py), with the report file they write and the lines they
  print at the end. The gates and stages of the script are those of the pipeline; its progress messages are left out.
\<close>

section \<open>The commands\<close>

definition diagnostic_file :: "string \<Rightarrow> string" where
  "diagnostic_file output_dir = output_dir @ ''/diagnostic_report.json''"

text \<open>The pipeline with the file it saves: a rejected adapter returns before anything is saved.\<close>

definition execute_and_save ::
  "'r::linorder diagnose_env \<Rightarrow> diagnose_args \<Rightarrow> string \<Rightarrow> ((string, diagnostic_report) dict, diagnostic_report \<times> bool) act" where
  "execute_and_save env args output_dir files =
     (case run_metadata_gate (de_local_config env) (de_hub_config env) (da_source_base_model args) of
        Inl e \<Rightarrow> (files, Inl e)
      | Inr mg \<Rightarrow>
          let report = (new_diagnostic_report (de_run_id env) (da_source_base_model args) (da_source_adapter args)
                          (da_target_model args))\<lparr>dr_metadata_gate := mg\<rparr>
          in if mg_status mg = ''FAIL'' \<and> \<not> da_force args then (files, Inr (report, False))
             else case diagnose_rest env args report of
                    Inl e \<Rightarrow> (files, Inl e)
                  | Inr report \<Rightarrow> (dict_set (diagnostic_file output_dir) report files, Inr (report, True)))"

definition summary_lines :: "diagnostic_report \<Rightarrow> string list" where
  "summary_lines report =
     [''--- Diagnostic Result: '' @ rd_verdict (dr_release_decision_gate report) @ '' ---'',
      ''Recommendation: '' @ rd_recommendation (dr_release_decision_gate report)]
     @ map (\<lambda>reason. '' - '' @ reason) (rd_reasons (dr_release_decision_gate report))"

definition saved_line :: "string \<Rightarrow> string" where
  "saved_line path = ''[Diag] Complete. Report saved to '' @ path"

definition run_diagnose :: "'r::linorder diagnose_env \<Rightarrow> diagnose_args \<Rightarrow> string \<Rightarrow> ((string, diagnostic_report) dict, string list) act" where
  "run_diagnose env args output_dir =
     bindS (execute_and_save env args output_dir) (\<lambda>(report, saved).
       liftS (Inr (summary_lines report @ [saved_line (diagnostic_file output_dir)])))"

definition run_diagnostic :: "'r::linorder diagnose_env \<Rightarrow> diagnose_args \<Rightarrow> string \<Rightarrow> ((string, diagnostic_report) dict, string list) act" where
  "run_diagnostic env args output_dir =
     bindS (execute_and_save env args output_dir) (\<lambda>(report, saved).
       liftS (Inr (if \<not> saved then [''[Gate] FATAL: Metadata check failed.'']
                   else summary_lines report @ [saved_line (diagnostic_file output_dir)])))"

section \<open>What they have in common\<close>

lemma saves_the_result:
  "execute_and_save env args output_dir files = (files', Inr (report, saved)) \<Longrightarrow>
     execute_diagnostics env args = Inr report
     \<and> (if saved then files' = dict_set (diagnostic_file output_dir) report files else files' = files)"
  by (auto simp: execute_and_save_def execute_diagnostics_def Let_def split: sum.splits if_splits)

lemma save_errors:
  "execute_and_save env args output_dir files = (files', Inl e) \<Longrightarrow> execute_diagnostics env args = Inl e \<and> files' = files"
  by (auto simp: execute_and_save_def execute_diagnostics_def Let_def split: sum.splits if_splits)


end
