(* ===== verification/Spec2Isabelle.thy ===== *)
theory Spec2Isabelle
  imports Hot_Swap_Properties Scheduler VLLM_Mock VLLM_Bridge Serving_Metrics
    Pilot_Server_Properties VLLM_Proxy Plugin_Runtime Diagnostic_Runner Release_Package
    Reports Optimal_Transport Curvature Compression
    Hot_Swap_API Layer_Discovery Route_Manager Behavior Delta_Health Calibration Prometheus Gate_Script Kernel_Procrustes
    Module_Risk Diagnostic_Commands
begin

text \<open>
  A verification development of Neural-Scalpel. All paths are under src/; \<open>core/\<close>, \<open>serving/\<close>,
  \<open>route/\<close> and so on are directories of neural_scalpel/.

  \<^bold>\<open>The program.\<close> Neural-Scalpel carries the behaviour of one model over to another and serves models
  whose weights change per request. It has three parts that meet in files. The projection side
  (\<open>core/\<close>, \<open>io/\<close>, \<open>commands/\<close>, \<open>cli/\<close>, \<open>router/\<close>) reads a LoRA adapter, checks its quality,
  projects its factors to another architecture or solves for new ones from activations, and writes
  adapters, reports, release packages and route files. The hot-swap side (\<open>experimental/\<close>, \<open>route/\<close>)
  takes verified routes, loads their weight deltas, adds them to the live weights for one request
  and puts the original weights back. The serving side (\<open>serving/\<close> and integrations/vllm_route_plugin)
  accepts requests over HTTP, batches them per route and sends them to the hot-swap runtime, to vLLM or
  to external backends.

  \<^bold>\<open>Conventions.\<close> A Python exception is the \<open>Inl\<close> of a \<open>result\<close>, with its class and text; an operation
  that changes state returns the new state beside its result (\<open>act\<close>), so what an error leaves behind is visible. Unbounded
  integers are \<open>int\<close> or \<open>nat\<close>, dictionaries are association lists in insertion order, texts are
  character lists, packed integers are words of their width. Floating point numbers are exact
  (\<open>rat\<close> or \<open>real\<close>): rounding, overflow to infinity and underflow are outside the model unless a definition says
  otherwise. Tensors are either opaque values (where the code only moves and adds them) or matrices
  of reals (where it computes with them). Every locked operation is one step of a history. Code that is not
  in the repository (PyTorch's decompositions, vLLM, transformers, PEFT, SQLite, hashes, the clock, the
  network, the file system) is a parameter; a theorem that relies on it names the law as a hypothesis and has a
  witness that meets it.

  \<^bold>\<open>Shared ground.\<close> \<open>Prelude\<close>: exceptions, results, JSON values, dictionaries, Python's string methods,
  loops that may raise (\<open>mapE\<close>), and the collections of lemmas. \<open>Tensors\<close>: shapes, slices, padding. \<open>Layer_Names\<close>: what is
  read off parameter names. \<open>Batching\<close>: the locale of a route-aware batcher.

  \<^bold>\<open>Hot-swap runtime.\<close>
  \<^item> \<open>Runtime_State\<close> (experimental/runtime_state.py) and \<open>Failure_Policy\<close> (failure_policy.py): phases, the transition table,
    quarantine metadata; the catalogue of failures and the actions for them.
  \<^item> \<open>Route_Policy\<close> (route/policy.py, crypto.py, tenant.py, verifier.py), \<open>Route_Registry\<close> (registry.py), \<open>Route_Payload\<close> (payload.py,
    payload_validator.py): the checks of a manifest, the three dictionaries of the registry with the locale \<open>route_store\<close>
    that its clients rely on, and what a payload must be before a weight is touched.
  \<^item> \<open>Hot_Swap_Runtime\<close> (runtime.py, audit.py): snapshot, swap, rollback, verification of the rollback and the
    calls of the gateway. \<open>Swap_Safety\<close> has the invariant and its preservation, \<open>Hot_Swap_Properties\<close> what follows for
    every history of calls: weights are the base weights whenever the worker is READY, a served request
    leaves no trace, which failures quarantine what.
  \<^item> \<open>Hot_Swap_API\<close> (hot_swap.py, kernel/__init__.py): the older interface, over an explicit store in which tensors share storage.

  \<^bold>\<open>Serving.\<close>
  \<^item> \<open>Scheduler\<close>, \<open>VLLM_Mock\<close>, \<open>VLLM_Bridge\<close> (scheduler.py, vllm_internal_mock.py, vllm_bridge.py): queues per route, batches,
    the drain loop, cache tags; both schedulers interpret the locale \<open>route_batcher\<close>, from which order and liveness follow.
  \<^item> \<open>Backend_Registry\<close> (backend_registry.py, with a refinement to two maps), \<open>Serving_Engine\<close> (engine.py, mode_selector.py, startup_selftest.py,
    proxy_engine.py, engine_factory.py), \<open>Serving_Metrics\<close> (metrics.py), \<open>Prometheus\<close> (prometheus_metrics.py).
  \<^item> \<open>Pilot_Server\<close> and \<open>Pilot_Server_Properties\<close> (server.py): requests from HTTP to the weights and back.
  \<^item> \<open>VLLM_Proxy\<close> (vllm_proxy.py): authentication, token buckets, the queues of the gateway and their tasks.
  \<^item> \<open>Plugin_Scheduler\<close>, \<open>Plugin_Runtime\<close> (integrations/vllm_route_plugin): the patched scheduler, hashing of cache blocks and the
    hook around the forward pass, on top of the hot-swap runtime.
  \<^item> \<open>Layer_Discovery\<close> (model_layer_discovery.py): a matcher for the regular expressions of the code and the layer map.

  \<^bold>\<open>Projection and transplantation.\<close>
  \<^item> \<open>Adapters\<close> (core/adapters.py), \<open>IO_Bridges\<close> and \<open>Quantization\<close> (io/), \<open>Port_Lora\<close> (the pipeline of cli/main.py), \<open>Safe_Project\<close> (the
    commands on top of it): linear and piecewise projection, the writers and number formats; a port is
    followed from the file it reads to the tensors that load from its output. The locale \<open>tensor_output\<close> is
    what the pipeline needs of a writer.
  \<^item> \<open>Procrustes\<close>, \<open>Kernel_Procrustes\<close>, \<open>Curvature\<close>, \<open>Optimal_Transport\<close>, \<open>Compression\<close> (core/math.py): optimality of the alignments,
    Sinkhorn transport and head routing, sparsity and low-rank decomposition.
  \<^item> \<open>Transplant\<close> (core/ops.py, alignment.py, collector.py, solutions.py): from paired activations to an exported adapter.
  \<^item> \<open>Calibration\<close> (io/calibration.py): the search for AWQ scales.
  \<^item> \<open>Payload_Projection\<close> and \<open>Projected_Payload\<close> (scripts/prepare_actual_lora_payload.py, verify_target_runtime_shapes.py): from an
    adapter to the payload the runtime loads, and what is left of the adapter in it.
  \<^item> \<open>Route_Manager\<close> (router/manager.py): signed route files.

  \<^bold>\<open>Quality.\<close>
  \<^item> \<open>Evaluator\<close>, \<open>SQL_Suite\<close>, \<open>Behavior\<close> (core/evaluator.py, benchmarks/sql_50.py, validate_behavior of core/ops.py): evaluation of
    generated SQL, the fifty cases, perplexity and divergence.
  \<^item> \<open>Diagnostics\<close>, \<open>Delta_Health\<close>, \<open>Diagnostic_Runner\<close> (core/diagnostic.py, quality_gate.py, validation.py, diagnostic_runner.py): weight
    analysis, gates, alpha budgets, the stages of a diagnosis.
  \<^item> \<open>Diagnostic_Commands\<close> (commands/diagnose_adapter.py and its script), \<open>Module_Risk\<close> (scripts/compute_module_risk.py).
  \<^item> \<open>Gate_Script\<close> (scripts/source_adapter_quality_gate.py), \<open>Reports\<close>, \<open>Release_Package\<close> (commands/): what is written and checked.

  \<^bold>\<open>Loops and bounds.\<close> Most loops run over data and are structural or have a measure. The shelving loop of the patched
  scheduler is a \<open>partial_function (option)\<close>, since it runs on a queue of vLLM; that it returns is proved from the
  queue's laws. Background loops are histories of ticks: a theorem about them speaks of every history, and liveness of
  a number of further ticks that is enough (as many as requests wait). The Sinkhorn and perplexity loops carry
  the code's own bound. No theorem assumes that a computation returns; that it does is part of its statement.

  \<^bold>\<open>Not modelled.\<close> The CUDA kernel (its calls are a parameter), the dashboards, tests, argument parsers, console output,
  logging handlers and the Pydantic schemas, which hold no logic of their own; the benchmark, soak and phase runners under scripts/,
  verification_demo/ and examples/, which time or drive external engines and print what they see; the sparse
  tensor formats, devices and number formats of PyTorch; the earlier definitions in core/math.py that later ones
  of the same name replace; the routing matrix and dummy weights of the pipeline. Regular expressions outside \<open>Layer_Discovery\<close> are
  modelled by what they match.
\<close>

end
